(* ===== verification/Prelude.thy ===== *)
theory Prelude
  imports Main "HOL-Library.Multiset" "HOL-Library.Code_Target_Nat"
begin

text \<open>
  What every component of the development shares: the fact collections its proofs use,
  Rust's saturating and checked arithmetic on the widths the code uses, and generic
  lemmas on lists that are not in the library.
\<close>

named_theorems redact_simps
named_theorems linker_simps
named_theorems meeting_simps

section \<open>Rust integers\<close>

text \<open>
  Unsigned values are naturals below the width's bound; the operations that can leave the
  range are written out with the source's choice (saturate, check, wrap).
\<close>

definition u8_max :: nat where "u8_max = 255"
definition u64_max :: nat where "u64_max = 2 ^ 64 - 1"
definition i32_max :: int where "i32_max = 2 ^ 31 - 1"
definition i32_min :: int where "i32_min = - (2 ^ 31)"

definition saturating_add_u8 :: "nat \<Rightarrow> nat \<Rightarrow> nat" where
  "saturating_add_u8 a b = min (a + b) u8_max"

definition saturating_mul_u64 :: "nat \<Rightarrow> nat \<Rightarrow> nat" where
  "saturating_mul_u64 a b = min (a * b) u64_max"

definition saturating_add_i32 :: "int \<Rightarrow> int \<Rightarrow> int" where
  "saturating_add_i32 a b = max i32_min (min (a + b) i32_max)"

text \<open>\<open>Instant::checked_sub\<close> and \<open>usize::checked_sub\<close>: no result below zero.\<close>

definition checked_sub_nat :: "nat \<Rightarrow> nat \<Rightarrow> nat option" where
  "checked_sub_nat a b = (if b \<le> a then Some (a - b) else None)"

lemma saturating_add_u8_le: "saturating_add_u8 a b \<le> u8_max"
  by (simp add: saturating_add_u8_def)

lemma saturating_add_u8_small: "a + b \<le> 255 \<Longrightarrow> saturating_add_u8 a b = a + b"
  by (simp add: saturating_add_u8_def u8_max_def)

lemma checked_sub_nat_Some [simp]:
  "checked_sub_nat a b = Some c \<longleftrightarrow> b \<le> a \<and> c = a - b"
  by (auto simp: checked_sub_nat_def)

lemma checked_sub_nat_None [simp]: "checked_sub_nat a b = None \<longleftrightarrow> a < b"
  by (simp add: checked_sub_nat_def not_le)

section \<open>Lists\<close>

text \<open>\<open>Iterator::position\<close>: the index of the first element that satisfies the test.\<close>

fun position :: "('a \<Rightarrow> bool) \<Rightarrow> 'a list \<Rightarrow> nat option" where
  "position p [] = None"
| "position p (x # xs) = (if p x then Some 0 else map_option Suc (position p xs))"

lemma position_SomeD:
  "position p xs = Some i \<Longrightarrow> i < length xs \<and> p (xs ! i) \<and> (\<forall>j < i. \<not> p (xs ! j))"
proof (induction xs arbitrary: i)
  case Nil
  then show ?case by simp
next
  case (Cons x xs)
  then show ?case by (auto split: if_splits simp: nth_Cons less_Suc_eq_0_disj split: nat.splits)
qed

lemma position_None [simp]: "position p xs = None \<longleftrightarrow> (\<forall>x \<in> set xs. \<not> p x)"
  by (induction xs) auto

lemma position_append:
  "\<forall>x \<in> set xs. \<not> p x \<Longrightarrow> p y \<Longrightarrow> position p (xs @ y # ys) = Some (length xs)"
  by (induction xs) auto

text \<open>\<open>Vec::swap_remove\<close>: the element at the index is replaced by the last one.\<close>

definition swap_remove :: "nat \<Rightarrow> 'a list \<Rightarrow> 'a list" where
  "swap_remove i xs =
     (if i + 1 = length xs then butlast xs else butlast (xs[i := last xs]))"

lemma mset_butlast_last: "xs \<noteq> [] \<Longrightarrow> mset (butlast xs) = mset xs - {#last xs#}"
  by (induction xs rule: rev_induct) auto

lemma mset_swap_remove:
  assumes "i < length xs"
  shows "mset (swap_remove i xs) = mset xs - {#xs ! i#}"
proof (cases "i + 1 = length xs")
  case True
  then have ne: "xs \<noteq> []" and i: "i = length xs - 1" by auto
  then show ?thesis using True
    by (simp add: swap_remove_def mset_butlast_last last_conv_nth)
next
  case False
  let ?ys = "xs[i := last xs]"
  from assms False have ne: "xs \<noteq> []" "?ys \<noteq> []" and i: "i < length xs - 1" by auto
  then have last: "last ?ys = last xs"
    by (simp add: last_conv_nth)
  have "mset (butlast ?ys) = mset ?ys - {#last ?ys#}"
    using ne by (simp add: mset_butlast_last)
  also have "\<dots> = mset xs - {#xs ! i#}"
    using assms by (simp add: mset_update last)
  finally show ?thesis using False by (simp add: swap_remove_def)
qed

lemma length_swap_remove [simp]: "i < length xs \<Longrightarrow> length (swap_remove i xs) = length xs - 1"
  by (simp add: swap_remove_def)

lemma set_swap_remove_subset: "i < length xs \<Longrightarrow> set (swap_remove i xs) \<subseteq> set xs"
  by (metis mset_swap_remove set_mset_mset mset_subset_eqD diff_subset_eq_self subsetI)

text \<open>
  \<open>Iterator::max_by_key\<close> returns the last of several maximal elements,
  \<open>Iterator::min_by_key\<close> the first of several minimal ones.
\<close>

fun max_by_key :: "('a \<Rightarrow> nat) \<Rightarrow> 'a list \<Rightarrow> 'a option" where
  "max_by_key f [] = None"
| "max_by_key f (x # xs) =
     (case max_by_key f xs of None \<Rightarrow> Some x | Some y \<Rightarrow> if f x \<le> f y then Some y else Some x)"

fun min_by_key :: "('a \<Rightarrow> nat) \<Rightarrow> 'a list \<Rightarrow> 'a option" where
  "min_by_key f [] = None"
| "min_by_key f (x # xs) =
     (case min_by_key f xs of None \<Rightarrow> Some x | Some y \<Rightarrow> if f x \<le> f y then Some x else Some y)"

lemma max_by_key_None [simp]: "max_by_key f xs = None \<longleftrightarrow> xs = []"
  by (cases xs) (auto split: option.splits)

lemma min_by_key_None [simp]: "min_by_key f xs = None \<longleftrightarrow> xs = []"
  by (cases xs) (auto split: option.splits)

lemma max_by_key_SomeD:
  "max_by_key f xs = Some x \<Longrightarrow> x \<in> set xs \<and> (\<forall>y \<in> set xs. f y \<le> f x)"
  by (induction xs arbitrary: x) (force split: option.splits if_splits)+

lemma min_by_key_SomeD:
  "min_by_key f xs = Some x \<Longrightarrow> x \<in> set xs \<and> (\<forall>y \<in> set xs. f x \<le> f y)"
  by (induction xs arbitrary: x) (force split: option.splits if_splits)+

text \<open>Finite checks: a bounded statement is decided by evaluating it on every value.\<close>

lemma list_all_upt: "list_all P [0..<n] \<longleftrightarrow> (\<forall>x < n. P x)"
  by (auto simp: list_all_iff)

text \<open>A loop that adds up a value per element and returns early when one has none.\<close>

fun sum_values :: "('a \<Rightarrow> nat option) \<Rightarrow> 'a list \<Rightarrow> nat option" where
  "sum_values f [] = Some 0"
| "sum_values f (x # xs) =
     (case f x of None \<Rightarrow> None | Some v \<Rightarrow> map_option (\<lambda>t. v + t) (sum_values f xs))"

lemma sum_values_Some:
  "sum_values f xs = Some t \<longleftrightarrow>
     (\<forall>x \<in> set xs. f x \<noteq> None) \<and> t = sum_list (map (\<lambda>x. the (f x)) xs)"
  by (induction xs arbitrary: t) (auto split: option.splits)

section \<open>\<open>find\<close>\<close>

lemma find_map: "find P (map f xs) = map_option f (find (P \<circ> f) xs)"
  by (induction xs) auto

lemma find_hit: "find P xs = Some y \<Longrightarrow> y \<in> set xs \<and> P y"
  by (induction xs) (auto split: if_splits)

lemma find_unique:
  "x \<in> set xs \<Longrightarrow> P x \<Longrightarrow> (\<And>y. y \<in> set xs \<Longrightarrow> P y \<Longrightarrow> y = x) \<Longrightarrow> find P xs = Some x"
  by (induction xs) (simp, metis find.simps(2) list.set_intros set_ConsD)

end
