(* ===== verification/RustText.thy ===== *)
theory RustText
  imports Prelude
begin

text \<open>
  Rust's strings as the code uses them: a \<open>&str\<close> is the list of its UTF-8 bytes, a byte is
  a natural number below 256, and \<open>chars\<close> decodes the scalar values. The operations of
  the standard library that the source calls (\<open>bytes\<close>, \<open>chars\<close>, \<open>is_ascii_*\<close>,
  \<open>to_ascii_*\<close>, \<open>trim\<close>, \<open>find\<close>, \<open>replace\<close>, \<open>contains\<close>, \<open>is_char_boundary\<close>)
  are executable functions on such lists.
\<close>

type_synonym byte = nat
type_synonym rstr = "byte list"

text \<open>An ASCII literal of the source.\<close>

definition lit :: "string \<Rightarrow> rstr" where
  "lit s = map of_char s"

text \<open>A \<open>match\<close> on literal characters, as an association list.\<close>

definition char_table :: "(char \<times> nat) list \<Rightarrow> nat \<Rightarrow> nat option" where
  "char_table t = map_of (map (\<lambda>(c, v). (of_char c, v)) t)"

section \<open>ASCII classes\<close>

definition is_ascii_digit :: "nat \<Rightarrow> bool" where
  "is_ascii_digit b \<longleftrightarrow> 48 \<le> b \<and> b \<le> 57"

definition is_ascii_uppercase :: "nat \<Rightarrow> bool" where
  "is_ascii_uppercase b \<longleftrightarrow> 65 \<le> b \<and> b \<le> 90"

definition is_ascii_lowercase :: "nat \<Rightarrow> bool" where
  "is_ascii_lowercase b \<longleftrightarrow> 97 \<le> b \<and> b \<le> 122"

definition is_ascii_alphabetic :: "nat \<Rightarrow> bool" where
  "is_ascii_alphabetic b \<longleftrightarrow> is_ascii_uppercase b \<or> is_ascii_lowercase b"

definition is_ascii_alphanumeric :: "nat \<Rightarrow> bool" where
  "is_ascii_alphanumeric b \<longleftrightarrow> is_ascii_alphabetic b \<or> is_ascii_digit b"

definition is_ascii_hexdigit :: "nat \<Rightarrow> bool" where
  "is_ascii_hexdigit b \<longleftrightarrow> is_ascii_digit b \<or> (65 \<le> b \<and> b \<le> 70) \<or> (97 \<le> b \<and> b \<le> 102)"

definition is_ascii_whitespace :: "nat \<Rightarrow> bool" where
  "is_ascii_whitespace b \<longleftrightarrow> b = 32 \<or> b = 9 \<or> b = 10 \<or> b = 12 \<or> b = 13"

definition to_ascii_uppercase :: "nat \<Rightarrow> nat" where
  "to_ascii_uppercase b = (if is_ascii_lowercase b then b - 32 else b)"

definition to_ascii_lowercase :: "nat \<Rightarrow> nat" where
  "to_ascii_lowercase b = (if is_ascii_uppercase b then b + 32 else b)"

text \<open>\<open>char::is_whitespace\<close>: the Unicode property White\_Space.\<close>

definition is_whitespace :: "nat \<Rightarrow> bool" where
  "is_whitespace c \<longleftrightarrow>
     (9 \<le> c \<and> c \<le> 13) \<or> c = 32 \<or> c = 133 \<or> c = 160 \<or> c = 5760 \<or>
     (8192 \<le> c \<and> c \<le> 8202) \<or> c = 8232 \<or> c = 8233 \<or> c = 8239 \<or> c = 8287 \<or> c = 12288"

text \<open>\<open>char::to_digit(10)\<close>.\<close>

definition to_digit10 :: "nat \<Rightarrow> nat option" where
  "to_digit10 c = (if is_ascii_digit c then Some (c - 48) else None)"

section \<open>UTF-8\<close>

text \<open>A Rust string is valid UTF-8, so the lead byte tells the length of the sequence.\<close>

fun chars :: "rstr \<Rightarrow> nat list" where
  "chars [] = []"
| "chars (b0 # bs) =
     (if b0 < 128 then b0 # chars bs
      else if b0 < 224 then
        (case bs of b1 # bs1 \<Rightarrow> ((b0 mod 32) * 64 + b1 mod 64) # chars bs1 | _ \<Rightarrow> [])
      else if b0 < 240 then
        (case bs of b1 # b2 # bs2 \<Rightarrow>
           ((b0 mod 16) * 4096 + (b1 mod 64) * 64 + b2 mod 64) # chars bs2 | _ \<Rightarrow> [])
      else
        (case bs of b1 # b2 # b3 # bs3 \<Rightarrow>
           ((b0 mod 8) * 262144 + (b1 mod 64) * 4096 + (b2 mod 64) * 64 + b3 mod 64) # chars bs3
         | _ \<Rightarrow> []))"

definition encode_char :: "nat \<Rightarrow> rstr" where
  "encode_char c =
     (if c < 128 then [c]
      else if c < 2048 then [192 + c div 64, 128 + c mod 64]
      else if c < 65536 then [224 + c div 4096, 128 + (c div 64) mod 64, 128 + c mod 64]
      else [240 + c div 262144, 128 + (c div 4096) mod 64, 128 + (c div 64) mod 64,
            128 + c mod 64])"

definition utf8 :: "nat list \<Rightarrow> rstr" where
  "utf8 cs = concat (map encode_char cs)"

definition is_ascii :: "rstr \<Rightarrow> bool" where
  "is_ascii s \<longleftrightarrow> (\<forall>b \<in> set s. b < 128)"

text \<open>A byte that continues a sequence; every other byte starts a character.\<close>

definition is_continuation :: "nat \<Rightarrow> bool" where
  "is_continuation b \<longleftrightarrow> 128 \<le> b \<and> b < 192"

definition is_char_boundary :: "rstr \<Rightarrow> nat \<Rightarrow> bool" where
  "is_char_boundary s i \<longleftrightarrow>
     i = 0 \<or> i = length s \<or> (i < length s \<and> \<not> is_continuation (s ! i))"

lemma chars_ascii [simp]: "is_ascii s \<Longrightarrow> chars s = s"
  by (induction s) (auto simp: is_ascii_def)

lemma utf8_ascii: "is_ascii s \<Longrightarrow> utf8 s = s"
  by (induction s) (auto simp: utf8_def is_ascii_def encode_char_def)

lemma utf8_lead_bits:
  "x < 32 \<Longrightarrow> (192 + x) mod 32 = (x::nat)"
  "x < 16 \<Longrightarrow> (224 + x) mod 16 = x"
  "x < 8 \<Longrightarrow> (240 + x) mod 8 = x"
  "(128 + y mod 64) mod 64 = (y::nat) mod 64"
  using mod_mult_self2 [of x 32 6] mod_mult_self2 [of x 16 14] mod_mult_self2 [of x 8 30]
    mod_mult_self2 [of "y mod 64" 64 2]
  by (simp_all add: add.commute)

lemma base64_digits:
  "n div 4096 * 4096 + (n div 64) mod 64 * 64 + n mod 64 = (n::nat)"
proof -
  have "n div 4096 = n div 64 div 64" by (simp flip: div_mult2_eq)
  moreover have "n div 64 div 64 * 64 + n div 64 mod 64 = n div 64"
    and "n div 64 * 64 + n mod 64 = n" by (rule div_mult_mod_eq)+
  ultimately show ?thesis by linarith
qed

lemma chars_encode_char:
  assumes "c < 1114112"
  shows "chars (encode_char c @ bs) = c # chars bs"
proof -
  consider "c < 128" | "128 \<le> c" "c < 2048" | "2048 \<le> c" "c < 65536" | "65536 \<le> c"
    by linarith
  then show ?thesis
  proof cases
    case 1
    then show ?thesis by (simp add: encode_char_def)
  next
    case 2
    then have a: "c div 64 < 32" by (simp add: less_mult_imp_div_less)
    with 2 show ?thesis by (simp add: encode_char_def utf8_lead_bits)
  next
    case 3
    then have a: "c div 4096 < 16" by (simp add: less_mult_imp_div_less)
    from 3 a show ?thesis by (simp add: encode_char_def utf8_lead_bits base64_digits)
  next
    case 4
    with assms have a: "c div 262144 < 8" by (simp add: less_mult_imp_div_less)
    have "c div 262144 = c div 4096 div 64" by (simp flip: div_mult2_eq)
    moreover have "c div 4096 div 64 * 64 + c div 4096 mod 64 = c div 4096"
      by (rule div_mult_mod_eq)
    ultimately have "c div 262144 * 262144 + (c div 4096) mod 64 * 4096 = c div 4096 * 4096"
      by linarith
    then have "c div 262144 * 262144 + (c div 4096) mod 64 * 4096 + (c div 64) mod 64 * 64
        + c mod 64 = c" by (simp add: base64_digits)
    with 4 a show ?thesis by (simp add: encode_char_def utf8_lead_bits)
  qed
qed

theorem chars_utf8: "\<forall>c \<in> set cs. c < 1114112 \<Longrightarrow> chars (utf8 cs) = cs"
  by (induction cs) (auto simp: utf8_def chars_encode_char)

section \<open>Searching and trimming\<close>

fun starts_with :: "rstr \<Rightarrow> rstr \<Rightarrow> bool" where
  "starts_with s [] = True"
| "starts_with [] (p # ps) = False"
| "starts_with (x # xs) (p # ps) = (x = p \<and> starts_with xs ps)"

definition ends_with :: "rstr \<Rightarrow> rstr \<Rightarrow> bool" where
  "ends_with s p = starts_with (rev s) (rev p)"

text \<open>\<open>str::find\<close> of a string: the byte index of the leftmost occurrence.\<close>

fun find_str :: "rstr \<Rightarrow> rstr \<Rightarrow> nat option" where
  "find_str [] p = (if p = [] then Some 0 else None)"
| "find_str (x # xs) p =
     (if starts_with (x # xs) p then Some 0 else map_option Suc (find_str xs p))"

definition contains_str :: "rstr \<Rightarrow> rstr \<Rightarrow> bool" where
  "contains_str s p \<longleftrightarrow> find_str s p \<noteq> None"

text \<open>\<open>str::rfind\<close> of an ASCII character.\<close>

definition rfind_byte :: "nat \<Rightarrow> rstr \<Rightarrow> nat option" where
  "rfind_byte b s =
     (case position (\<lambda>x. x = b) (rev s) of None \<Rightarrow> None | Some i \<Rightarrow> Some (length s - 1 - i))"

text \<open>\<open>str::replace\<close> with a nonempty pattern: leftmost, without overlap.\<close>

function replace_str :: "rstr \<Rightarrow> rstr \<Rightarrow> rstr \<Rightarrow> rstr" where
  "replace_str old new s =
     (case s of [] \<Rightarrow> []
      | x # xs \<Rightarrow>
         if old \<noteq> [] \<and> starts_with s old
         then new @ replace_str old new (drop (length old) s)
         else x # replace_str old new xs)"
  by pat_completeness auto
termination
  by (relation "measure (\<lambda>(old, new, s). length s)") auto

declare replace_str.simps [simp del]

definition trim :: "rstr \<Rightarrow> rstr" where
  "trim s = utf8 (rev (dropWhile is_whitespace (rev (dropWhile is_whitespace (chars s)))))"

definition strip_prefix :: "rstr \<Rightarrow> rstr \<Rightarrow> rstr option" where
  "strip_prefix p s = (if starts_with s p then Some (drop (length p) s) else None)"

definition eq_ignore_ascii_case :: "rstr \<Rightarrow> rstr \<Rightarrow> bool" where
  "eq_ignore_ascii_case a b \<longleftrightarrow> map to_ascii_lowercase a = map to_ascii_lowercase b"

lemma trim_ascii:
  "is_ascii s \<Longrightarrow> s \<noteq> [] \<Longrightarrow> \<not> is_whitespace (hd s) \<Longrightarrow> \<not> is_whitespace (last s) \<Longrightarrow> trim s = s"
proof -
  assume a: "is_ascii s" "s \<noteq> []" "\<not> is_whitespace (hd s)" "\<not> is_whitespace (last s)"
  then have "dropWhile is_whitespace s = s" "dropWhile is_whitespace (rev s) = rev s"
    by (auto simp: dropWhile_eq_self_iff hd_rev)
  then show ?thesis using a(1) by (simp add: trim_def utf8_ascii)
qed

lemma starts_with_iff: "starts_with s p \<longleftrightarrow> take (length p) s = p"
  by (induction s p rule: starts_with.induct) auto

lemma starts_with_append: "starts_with s p \<longleftrightarrow> (\<exists>t. s = p @ t)"
  by (induction s p rule: starts_with.induct) auto

lemma find_str_SomeD:
  "find_str s p = Some i \<Longrightarrow>
     i + length p \<le> length s \<and> take (length p) (drop i s) = p"
proof (induction s arbitrary: i)
  case Nil
  then show ?case by (auto split: if_splits)
next
  case (Cons x xs)
  then show ?case
    by (auto split: if_splits simp: starts_with_iff simp del: starts_with.simps)
      (metis append_take_drop_id length_append length_Cons le_add1 take_Suc_Cons)
qed

lemma find_str_leftmost:
  "find_str s p = Some i \<Longrightarrow> j < i \<Longrightarrow> take (length p) (drop j s) \<noteq> p"
proof (induction s arbitrary: i j)
  case Nil
  then show ?case by (auto split: if_splits)
next
  case (Cons x xs)
  then show ?case
    by (cases j) (auto split: if_splits simp: starts_with_iff simp del: starts_with.simps)
qed

lemma all_le_Suc_split: "(\<forall>i \<le> Suc n. P i) \<longleftrightarrow> P 0 \<and> (\<forall>i \<le> n. P (Suc i))"
  using All_less_Suc2 [of "Suc n" P] by (simp add: less_Suc_eq_le)

lemma find_str_None:
  "find_str s p = None \<longleftrightarrow> (\<forall>i \<le> length s. take (length p) (drop i s) \<noteq> p)"
proof (induction s)
  case Nil
  then show ?case by auto
next
  case (Cons x xs)
  then show ?case
    by (simp add: all_le_Suc_split starts_with_iff del: starts_with.simps)
qed

lemma to_ascii_lowercase_idem [simp]:
  "to_ascii_lowercase (to_ascii_lowercase b) = to_ascii_lowercase b"
  by (auto simp: to_ascii_lowercase_def is_ascii_uppercase_def)

lemma is_ascii_digit_lowercase [simp]:
  "is_ascii_alphanumeric (to_ascii_lowercase b) = is_ascii_alphanumeric b"
  by (auto simp: to_ascii_lowercase_def is_ascii_alphanumeric_def is_ascii_alphabetic_def
      is_ascii_uppercase_def is_ascii_lowercase_def is_ascii_digit_def)

section \<open>Order\<close>

text \<open>Comparison of strings: bytewise, a prefix first.\<close>

fun str_le :: "rstr \<Rightarrow> rstr \<Rightarrow> bool" where
  "str_le [] b = True"
| "str_le (x # a) [] = False"
| "str_le (x # a) (y # b) = (if x = y then str_le a b else x < y)"

definition str_less :: "rstr \<Rightarrow> rstr \<Rightarrow> bool" where
  "str_less a b \<longleftrightarrow> \<not> str_le b a"

lemma str_le_refl [simp]: "str_le a a"
  by (induction a) simp_all

lemma str_le_total: "str_le a b \<or> str_le b a"
  by (induction a b rule: str_le.induct) auto

lemma str_le_antisym: "str_le a b \<Longrightarrow> str_le b a \<Longrightarrow> a = b"
proof (induction a b rule: str_le.induct)
  case (1 b)
  then show ?case by (cases b) simp_all
qed (auto split: if_splits)

lemma str_le_trans: "str_le a b \<Longrightarrow> str_le b c \<Longrightarrow> str_le a c"
proof (induction a b arbitrary: c rule: str_le.induct)
  case (3 x a y b)
  then show ?case by (cases c) (auto split: if_splits)
qed simp_all

lemma str_less_irrefl [simp]: "\<not> str_less a a"
  by (simp add: str_less_def)

end
