(* ===== verification/Checksums.thy ===== *)
theory Checksums
  imports RustText
begin

text \<open>
  The checksum engines of \<open>screenpipe-redact/src/adapters/national_id.rs\<close> that the
  validators share: digit extraction, Luhn, weighted sums, remainders of long numbers,
  Verhoeff, ISO 7064 MOD 11,10 and the two-pass modulus 11 of the Baltic codes. Sums that
  the code keeps in \<open>u32\<close> are naturals: a digit contributes at most a few hundred, so
  no input shorter than a million bytes reaches \<open>2 ^ 32\<close>. Subtractions are the code's;
  each stands under a guard or a \<open>mod\<close> that keeps it above zero.

  The second half proves what the engines are for: a scheme whose accumulator step is
  injective in the digit and in the state (locale \<open>digit_automaton\<close>) or whose weights are
  invertible on digit differences (locale \<open>weighted_check\<close>) never accepts two numbers
  that differ in one digit.
\<close>

section \<open>Engines\<close>

definition digits :: "rstr \<Rightarrow> nat list" where
  "digits s = map (\<lambda>b. b - 48) (filter is_ascii_digit s)"

fun luhn_loop :: "nat list \<Rightarrow> nat \<Rightarrow> bool \<Rightarrow> nat" where
  "luhn_loop [] tot alt = tot"
| "luhn_loop (x # xs) tot alt =
     luhn_loop xs
       (tot + (if alt then (if x * 2 > 9 then x * 2 - 9 else x * 2) else x)) (\<not> alt)"

definition luhn_slice :: "nat list \<Rightarrow> bool" where
  "luhn_slice d = (if length d < 2 then False else luhn_loop (rev d) 0 False mod 10 = 0)"

definition luhn :: "rstr \<Rightarrow> bool" where
  "luhn s = (let d = digits s in
     if length d < 2 then False else luhn_loop (rev d) 0 False mod 10 = 0)"

definition to_digits_str :: "nat list \<Rightarrow> rstr" where
  "to_digits_str d = map (\<lambda>x. x + 48) d"

definition digits_mod :: "nat list \<Rightarrow> nat \<Rightarrow> nat" where
  "digits_mod d m = foldl (\<lambda>r x. (r * 10 + x) mod m) 0 d"

definition wsum :: "nat list \<Rightarrow> nat list \<Rightarrow> nat" where
  "wsum d w = sum_list (map (\<lambda>(x, wt). x * wt) (zip d w))"

text \<open>The value of a digit string, as \<open>fold\<close> reads it; no remainder is taken.\<close>

definition number :: "nat list \<Rightarrow> nat" where
  "number d = foldl (\<lambda>a x. a * 10 + x) 0 d"

fun iso7064_step :: "nat \<Rightarrow> nat \<Rightarrow> nat" where
  "iso7064_step p x = (let s = (x + p) mod 10; s' = (if s = 0 then 10 else s)
                       in (s' * 2) mod 11)"

definition iso7064_mod11_10 :: "nat list \<Rightarrow> nat" where
  "iso7064_mod11_10 payload = (11 - foldl iso7064_step 10 payload) mod 10"

definition two_pass_mod11 :: "nat list \<Rightarrow> nat" where
  "two_pass_mod11 payload =
     (let w1 = map (\<lambda>i. 1 + i mod 9) [0..<length payload];
          r1 = wsum payload w1 mod 11
      in if r1 < 10 then r1
         else let w2 = map (\<lambda>i. 1 + (i + 2) mod 9) [0..<length payload];
                  r2 = wsum payload w2 mod 11
              in if r2 < 10 then r2 else 0)"

definition alnum_step :: "nat \<Rightarrow> nat \<Rightarrow> nat" where
  "alnum_step rem b =
     (if is_ascii_digit b then (rem * 10 + (b - 48)) mod 97
      else (rem * 100 + (to_ascii_uppercase b - 65) + 10) mod 97)"

definition alnum_mod97 :: "rstr \<Rightarrow> nat" where
  "alnum_mod97 c = foldl alnum_step 0 c"

section \<open>Verhoeff\<close>

definition VERHOEFF_D :: "nat list list" where
  "VERHOEFF_D =
    [[0, 1, 2, 3, 4, 5, 6, 7, 8, 9],
     [1, 2, 3, 4, 0, 6, 7, 8, 9, 5],
     [2, 3, 4, 0, 1, 7, 8, 9, 5, 6],
     [3, 4, 0, 1, 2, 8, 9, 5, 6, 7],
     [4, 0, 1, 2, 3, 9, 5, 6, 7, 8],
     [5, 9, 8, 7, 6, 0, 4, 3, 2, 1],
     [6, 5, 9, 8, 7, 1, 0, 4, 3, 2],
     [7, 6, 5, 9, 8, 2, 1, 0, 4, 3],
     [8, 7, 6, 5, 9, 3, 2, 1, 0, 4],
     [9, 8, 7, 6, 5, 4, 3, 2, 1, 0]]"

definition VERHOEFF_P :: "nat list list" where
  "VERHOEFF_P =
    [[0, 1, 2, 3, 4, 5, 6, 7, 8, 9],
     [1, 5, 7, 6, 2, 8, 3, 0, 9, 4],
     [5, 8, 0, 3, 7, 9, 6, 1, 4, 2],
     [8, 9, 1, 6, 0, 4, 3, 5, 2, 7],
     [9, 4, 5, 3, 1, 2, 6, 8, 7, 0],
     [4, 2, 8, 6, 5, 7, 3, 9, 0, 1],
     [2, 7, 9, 3, 8, 0, 6, 4, 1, 5],
     [7, 0, 4, 6, 9, 1, 3, 2, 5, 8]]"

definition VERHOEFF_INV :: "nat list" where
  "VERHOEFF_INV = [0, 4, 3, 2, 1, 5, 6, 7, 8, 9]"

definition verhoeff_step :: "nat \<Rightarrow> nat \<Rightarrow> nat \<Rightarrow> nat" where
  "verhoeff_step i c n = VERHOEFF_D ! c ! (VERHOEFF_P ! (i mod 8) ! n)"

fun verhoeff_loop :: "nat \<Rightarrow> nat \<Rightarrow> nat list \<Rightarrow> nat" where
  "verhoeff_loop i c [] = c"
| "verhoeff_loop i c (n # ns) = verhoeff_loop (Suc i) (verhoeff_step i c n) ns"

definition verhoeff_check_digit :: "nat list \<Rightarrow> nat" where
  "verhoeff_check_digit payload = VERHOEFF_INV ! verhoeff_loop 1 0 (rev payload)"

definition verhoeff_valid :: "nat list \<Rightarrow> bool" where
  "verhoeff_valid ds = (verhoeff_loop 0 0 (rev ds) = 0)"

section \<open>Error detection\<close>

text \<open>
  A validator works on the raw text a pattern matched. It detects digit errors when
  replacing one ASCII digit of an accepted text by another digit gives a rejected text.
\<close>

definition detects_digit_error :: "(rstr \<Rightarrow> bool) \<Rightarrow> bool" where
  "detects_digit_error V \<longleftrightarrow>
     (\<forall>pre c c' post. is_ascii_digit c \<longrightarrow> is_ascii_digit c' \<longrightarrow> c \<noteq> c' \<longrightarrow>
        V (pre @ c # post) \<longrightarrow> \<not> V (pre @ c' # post))"

definition all_digits :: "nat list \<Rightarrow> bool" where
  "all_digits d \<longleftrightarrow> (\<forall>x \<in> set d. x < 10)"

text \<open>The same over the digits: a scheme on digit lists that separates any two numbers
  that differ in one digit.\<close>

definition separates :: "(nat list \<Rightarrow> bool) \<Rightarrow> bool" where
  "separates W \<longleftrightarrow>
     (\<forall>xs a b ys. all_digits xs \<longrightarrow> all_digits ys \<longrightarrow> a < 10 \<longrightarrow> b < 10 \<longrightarrow>
        W (xs @ a # ys) \<longrightarrow> W (xs @ b # ys) \<longrightarrow> a = b)"

lemma all_digits_simps [simp]:
  "all_digits []" "all_digits (x # xs) \<longleftrightarrow> x < 10 \<and> all_digits xs"
  "all_digits (xs @ ys) \<longleftrightarrow> all_digits xs \<and> all_digits ys"
  "all_digits (rev xs) \<longleftrightarrow> all_digits xs"
  by (auto simp: all_digits_def)

lemma all_digits_digits [simp]: "all_digits (digits s)"
  by (auto simp: all_digits_def digits_def is_ascii_digit_def)

lemma digits_append [simp]: "digits (s @ t) = digits s @ digits t"
  by (simp add: digits_def)

lemma digits_Cons: "digits (c # s) = (if is_ascii_digit c then (c - 48) # digits s else digits s)"
  by (simp add: digits_def)

lemma digits_Nil [simp]: "digits [] = []"
  by (simp add: digits_def)

lemma is_ascii_digit_diff: "is_ascii_digit c \<Longrightarrow> c - 48 < 10"
  unfolding is_ascii_digit_def by linarith

text \<open>The step from digits to raw text, for every validator that reads the digits only.\<close>

lemma detects_by_digits:
  assumes V: "\<And>s. V s \<Longrightarrow> W (digits s)" and W: "separates W"
  shows "detects_digit_error V"
  unfolding detects_digit_error_def
proof (intro allI impI notI)
  fix pre c c' post
  assume c: "is_ascii_digit c" "is_ascii_digit c'" "c \<noteq> c'"
    and a: "V (pre @ c # post)" "V (pre @ c' # post)"
  from a V have "W (digits pre @ (c - 48) # digits post)" "W (digits pre @ (c' - 48) # digits post)"
    using c(1,2) by (metis digits_append digits_Cons)+
  with W c(1,2) have "c - 48 = c' - 48"
    unfolding separates_def by (metis all_digits_digits is_ascii_digit_diff)
  with c show False by (auto simp: is_ascii_digit_def)
qed

lemma detects_mono:
  "detects_digit_error V \<Longrightarrow> (\<And>s. V' s \<Longrightarrow> V s) \<Longrightarrow> detects_digit_error V'"
  unfolding detects_digit_error_def by blast

lemma separates_mono: "separates W \<Longrightarrow> (\<And>d. W' d \<Longrightarrow> W d) \<Longrightarrow> separates W'"
  unfolding separates_def by blast

subsection \<open>Accumulators that are injective step by step\<close>

fun run_from :: "(nat \<Rightarrow> 's \<Rightarrow> nat \<Rightarrow> 's) \<Rightarrow> nat \<Rightarrow> 's \<Rightarrow> nat list \<Rightarrow> 's" where
  "run_from step i s [] = s"
| "run_from step i s (d # ds) = run_from step (Suc i) (step i s d) ds"

lemma run_from_append:
  "run_from step i s (xs @ ys) = run_from step (i + length xs) (run_from step i s xs) ys"
  by (induction xs arbitrary: i s) auto

lemma run_from_foldl: "run_from (\<lambda>_. f) i s ds = foldl f s ds"
  by (induction ds arbitrary: i s) auto

text \<open>\<open>similar\<close> says which replacements of a symbol the automaton tells apart (all of them
  for digits; in the mixed alphabets of IBAN and LEI, digit for digit and letter for letter).\<close>

locale digit_automaton =
  fixes step :: "nat \<Rightarrow> 's \<Rightarrow> nat \<Rightarrow> 's" and states :: "'s set" and bound :: nat
    and similar :: "nat \<Rightarrow> nat \<Rightarrow> bool"
  assumes step_closed: "s \<in> states \<Longrightarrow> d < bound \<Longrightarrow> step i s d \<in> states"
    and step_digit: "s \<in> states \<Longrightarrow> d < bound \<Longrightarrow> e < bound \<Longrightarrow> similar d e \<Longrightarrow> step i s d = step i s e \<Longrightarrow> d = e"
    and step_state: "s \<in> states \<Longrightarrow> t \<in> states \<Longrightarrow> d < bound \<Longrightarrow> step i s d = step i t d \<Longrightarrow> s = t"
begin

lemma run_closed: "s \<in> states \<Longrightarrow> \<forall>d \<in> set ds. d < bound \<Longrightarrow> run_from step i s ds \<in> states"
  by (induction ds arbitrary: i s) (auto simp: step_closed)

lemma run_inj:
  "s \<in> states \<Longrightarrow> t \<in> states \<Longrightarrow> \<forall>d \<in> set ds. d < bound \<Longrightarrow>
     run_from step i s ds = run_from step i t ds \<Longrightarrow> s = t"
proof (induction ds arbitrary: i s t)
  case Nil
  then show ?case by simp
next
  case (Cons a ds)
  then have "step i s a = step i t a"
    by (intro Cons.IH [of "step i s a" "step i t a" "Suc i"]) (simp_all add: step_closed)
  with Cons.prems show ?case by (intro step_state [of s t a i]) simp_all
qed

text \<open>Two inputs that differ in one symbol never reach the same state.\<close>

lemma single_error:
  assumes "s \<in> states" "\<forall>d \<in> set xs \<union> set ys. d < bound" "a < bound" "b < bound"
    and "similar a b"
    and "run_from step i s (xs @ a # ys) = run_from step i s (xs @ b # ys)"
  shows "a = b"
proof -
  let ?t = "run_from step i s xs" and ?j = "i + length xs"
  from assms(1,2) have t: "?t \<in> states" by (simp add: run_closed)
  have "run_from step (Suc ?j) (step ?j ?t a) ys = run_from step (Suc ?j) (step ?j ?t b) ys"
    using assms(6) by (simp add: run_from_append)
  then have "step ?j ?t a = step ?j ?t b"
    by (rule run_inj [rotated 3]) (use assms(2-4) t in \<open>simp_all add: step_closed\<close>)
  with t assms(3-5) show ?thesis by (rule step_digit)
qed

end

text \<open>An automaton whose steps on two different symbols do not commute also tells adjacent
  transpositions apart.\<close>

locale transposition_automaton = digit_automaton +
  assumes step_swap: "s \<in> states \<Longrightarrow> d < bound \<Longrightarrow> e < bound \<Longrightarrow>
    step (Suc i) (step i s d) e = step (Suc i) (step i s e) d \<Longrightarrow> d = e"
begin

lemma transposition_error:
  assumes "s \<in> states" "\<forall>d \<in> set xs \<union> set ys. d < bound" "a < bound" "b < bound"
    and "run_from step i s (xs @ a # b # ys) = run_from step i s (xs @ b # a # ys)"
  shows "a = b"
proof -
  let ?t = "run_from step i s xs" and ?j = "i + length xs"
  from assms(1,2) have t: "?t \<in> states" by (simp add: run_closed)
  have "run_from step (Suc (Suc ?j)) (step (Suc ?j) (step ?j ?t a) b) ys
      = run_from step (Suc (Suc ?j)) (step (Suc ?j) (step ?j ?t b) a) ys"
    using assms(5) by (simp add: run_from_append)
  then have "step (Suc ?j) (step ?j ?t a) b = step (Suc ?j) (step ?j ?t b) a"
    by (rule run_inj [rotated 3]) (use assms(2-4) t in \<open>simp_all add: step_closed\<close>)
  with t assms(3,4) show ?thesis by (rule step_swap)
qed

end

subsection \<open>The engines as automata\<close>

definition luhn_value :: "bool \<Rightarrow> nat \<Rightarrow> nat" where
  "luhn_value alt x = (if alt then (if x * 2 > 9 then x * 2 - 9 else x * 2) else x)"

definition luhn_step :: "nat \<Rightarrow> nat \<Rightarrow> nat \<Rightarrow> nat" where
  "luhn_step i s x = (s + luhn_value (odd i) x) mod 10"

lemma luhn_loop_run:
  "luhn_loop xs tot (odd i) mod 10 = run_from luhn_step i (tot mod 10) xs"
proof (induction xs arbitrary: tot i)
  case Nil
  then show ?case by simp
next
  case (Cons x xs)
  have "luhn_loop (x # xs) tot (odd i) = luhn_loop xs (tot + luhn_value (odd i) x) (odd (Suc i))"
    by (simp add: luhn_value_def)
  also have "\<dots> mod 10 = run_from luhn_step (Suc i) ((tot + luhn_value (odd i) x) mod 10) xs"
    by (rule Cons)
  finally show ?case by (simp add: luhn_step_def mod_add_left_eq)
qed

lemma luhn_slice_run: "luhn_slice d \<Longrightarrow> run_from luhn_step 0 0 (rev d) = 0"
  using luhn_loop_run [of "rev d" 0 0] by (simp add: luhn_slice_def split: if_splits)

lemma add_mod_cancel:
  fixes s a b m :: nat
  assumes "(s + a) mod m = (s + b) mod m"
  shows "a mod m = b mod m"
  using assms
proof (induction a b rule: linorder_wlog)
  case (le a b)
  then show ?case
    using mod_eq_dvd_iff_nat [of "s + a" "s + b" m] mod_eq_dvd_iff_nat [of a b m] by simp
next
  case (sym a b)
  then show ?case by simp
qed

lemma upt_digits: "[0..<10] = [0, 1, 2, 3, 4, 5, 6, 7, 8, 9]"
  by (simp add: upt_rec)

lemma luhn_value_inj:
  assumes "x < 10" "y < 10" "luhn_value alt x mod 10 = luhn_value alt y mod 10"
  shows "x = y"
proof -
  have "list_all (\<lambda>x. list_all (\<lambda>y.
      luhn_value alt x mod 10 = luhn_value alt y mod 10 \<longrightarrow> x = y) [0..<10]) [0..<10]"
    by (simp add: luhn_value_def upt_digits)
  with assms show ?thesis unfolding list_all_upt by blast
qed

interpretation luhn_auto: digit_automaton luhn_step "{..<10}" 10 "\<lambda>_ _. True"
proof unfold_locales
  fix s t d e i :: nat
  show "luhn_step i s d \<in> {..<10}" by (simp add: luhn_step_def)
  show "d = e" if "d < 10" "e < 10" "luhn_step i s d = luhn_step i s e"
    using that by (auto simp: luhn_step_def intro: luhn_value_inj dest: add_mod_cancel)
  show "s = t" if "s \<in> {..<10}" "t \<in> {..<10}" "luhn_step i s d = luhn_step i t d"
    using that add_mod_cancel [of "luhn_value (odd i) d" s 10 t]
    by (simp add: luhn_step_def add.commute)
qed

lemma separates_luhn: "separates luhn_slice"
  unfolding separates_def
proof (intro allI impI)
  fix xs a b ys
  assume "all_digits xs" "all_digits ys" and ab: "a < 10" "b < 10"
    and "luhn_slice (xs @ a # ys)" "luhn_slice (xs @ b # ys)"
  then have "run_from luhn_step 0 0 (rev ys @ a # rev xs) = run_from luhn_step 0 0 (rev ys @ b # rev xs)"
    by (auto dest!: luhn_slice_run)
  then show "a = b"
    using ab \<open>all_digits xs\<close> \<open>all_digits ys\<close>
    by (intro luhn_auto.single_error [of 0 "rev ys" "rev xs" a b 0]) (auto simp: all_digits_def)
qed

lemma luhn_eq_slice: "luhn s = luhn_slice (digits s)"
  by (simp add: luhn_def luhn_slice_def Let_def)

text \<open>Remainders of long numbers: the accumulator of \<open>digits_mod\<close> for a modulus prime
  to ten.\<close>

lemma mult_mod_inj:
  fixes a b c m :: nat
  assumes "coprime c m" "(a * c) mod m = (b * c) mod m" "a < m" "b < m"
  shows "a = b"
  using assms(2-4)
proof (induction a b rule: linorder_wlog)
  case (le a b)
  then have "m dvd b * c - a * c"
    using mod_eq_dvd_iff_nat [of "a * c" "b * c" m] by simp
  then have "m dvd (b - a) * c" by (simp add: diff_mult_distrib)
  with assms(1) have "m dvd b - a"
    by (metis coprime_commute coprime_dvd_mult_left_iff)
  with le show ?case
    using nat_dvd_not_less [of "b - a" m] by fastforce
next
  case (sym a b)
  then show ?case by simp
qed

locale long_remainder =
  fixes m :: nat
  assumes coprime10: "coprime 10 m" and large: "10 \<le> m"
begin

sublocale remainder_auto: digit_automaton "\<lambda>_ r x. (r * 10 + x) mod m" "{..<m}" 10 "\<lambda>_ _. True"
proof unfold_locales
  fix s t d e :: nat
  show "(s * 10 + d) mod m \<in> {..<m}" using large by simp
  show "d = e" if "d < 10" "e < 10" "(s * 10 + d) mod m = (s * 10 + e) mod m"
    using that large by (auto dest: add_mod_cancel)
  show "s = t" if "s \<in> {..<m}" "t \<in> {..<m}" "(s * 10 + d) mod m = (t * 10 + d) mod m"
    using that add_mod_cancel [of d "s * 10" m "t * 10"] mult_mod_inj [of 10 m s t] coprime10
    by (simp add: add.commute)
qed

lemma digits_mod_single_error:
  assumes "all_digits xs" "all_digits ys" "a < 10" "b < 10"
    and "digits_mod (xs @ a # ys) m = digits_mod (xs @ b # ys) m"
  shows "a = b"
  using assms large remainder_auto.single_error [of 0 xs ys a b 0]
  by (auto simp: digits_mod_def run_from_foldl all_digits_def)

end

interpretation mod11: long_remainder 11
  by unfold_locales (simp_all add: coprime_iff_gcd_eq_1 gcd_non_0_nat)

interpretation mod97: long_remainder 97
  by unfold_locales (simp_all add: coprime_iff_gcd_eq_1 gcd_non_0_nat)

interpretation mod89: long_remainder 89
  by unfold_locales (simp_all add: coprime_iff_gcd_eq_1 gcd_non_0_nat)

lemma number_snoc: "number (xs @ [x]) = number xs * 10 + x"
  by (simp add: number_def)

lemma number_foldl: "foldl (\<lambda>a x. a * 10 + x) r d = r * 10 ^ length d + number d"
proof (induction d arbitrary: r rule: rev_induct)
  case Nil
  then show ?case by (simp add: number_def)
next
  case (snoc x xs)
  then show ?case by (simp add: number_snoc)
qed

lemma number_simps [simp]:
  "number [] = 0" "number (x # xs) = x * 10 ^ length xs + number xs"
  using number_foldl [of x xs] by (simp_all add: number_def)

lemma number_append: "number (xs @ ys) = number xs * 10 ^ length ys + number ys"
  by (induction xs) (simp_all add: algebra_simps power_add)

text \<open>The digit-by-digit remainder is the remainder of the whole number.\<close>

lemma digits_mod_number: "digits_mod d m = number d mod m"
proof (induction d rule: rev_induct)
  case Nil
  then show ?case by (simp add: digits_mod_def)
next
  case (snoc x xs)
  then show ?case
    by (simp add: digits_mod_def number_snoc) (metis mod_add_left_eq mod_mult_left_eq)
qed

text \<open>The decimal expansion ISO 13616 and ISO 17442 speak of: a digit stands for itself, a
  letter for its two-digit value (A=10 .. Z=35).\<close>

definition expand_byte :: "nat \<Rightarrow> nat list" where
  "expand_byte b =
     (if is_ascii_digit b then [b - 48]
      else let v = to_ascii_uppercase b - 65 + 10 in [v div 10, v mod 10])"

definition expand_bytes :: "rstr \<Rightarrow> nat list" where
  "expand_bytes c = concat (map expand_byte c)"

lemma expand_byte_step:
  "alnum_step (n mod 97) b = (n * 10 ^ length (expand_byte b) + number (expand_byte b)) mod 97"
proof (cases "is_ascii_digit b")
  case True
  then show ?thesis
    by (simp add: alnum_step_def expand_byte_def) (metis mod_add_left_eq mod_mult_left_eq)
next
  case False
  let ?v = "to_ascii_uppercase b - 65 + 10"
  have "?v div 10 * 10 + ?v mod 10 = ?v" by (rule div_mult_mod_eq)
  then have "number (expand_byte b) = ?v" "length (expand_byte b) = 2"
    using False by (simp_all add: expand_byte_def Let_def)
  moreover have "alnum_step (n mod 97) b = (n * 100 + ?v) mod 97"
    using False by (simp add: alnum_step_def add.assoc) (metis mod_add_left_eq mod_mult_left_eq)
  ultimately show ?thesis by simp
qed

lemma alnum_mod97_number: "alnum_mod97 c = number (expand_bytes c) mod 97"
proof (induction c rule: rev_induct)
  case Nil
  then show ?case by (simp add: alnum_mod97_def expand_bytes_def)
next
  case (snoc b c)
  then have "alnum_mod97 (c @ [b]) = alnum_step (number (expand_bytes c) mod 97) b"
    by (simp add: alnum_mod97_def)
  then show ?case
    by (simp add: expand_byte_step expand_bytes_def number_append)
qed

subsection \<open>Weighted sums\<close>

lemma wsum_Nil [simp]: "wsum [] w = 0" "wsum d [] = 0"
  by (simp_all add: wsum_def)

lemma wsum_Cons [simp]: "wsum (x # d) (c # w) = x * c + wsum d w"
  by (simp add: wsum_def)

lemma wsum_append: "length d = length w \<Longrightarrow> wsum (d @ e) (w @ v) = wsum d w + wsum e v"
  by (simp add: wsum_def)

lemma wsum_take: "wsum (take (length w) d) w = wsum d w"
  by (induction d w rule: list_induct2') auto

lemma wsum_split:
  assumes "length xs < length w"
  shows "wsum (xs @ a # ys) w = wsum xs w + a * w ! length xs + wsum ys (drop (Suc (length xs)) w)"
proof -
  have "w = take (length xs) w @ w ! length xs # drop (Suc (length xs)) w"
    using assms by (simp add: id_take_nth_drop)
  moreover have "wsum xs (take (length xs) w) = wsum xs w"
    by (induction xs w rule: list_induct2') auto
  ultimately show ?thesis
    using assms by (metis (no_types, lifting) wsum_append wsum_Cons length_take min.absorb4 add.assoc)
qed

text \<open>A weighted sum that must have a fixed remainder: the code's schemes with the weight
  vector \<open>w\<close>, the modulus \<open>m\<close> and the remainder \<open>k\<close>. What makes them detect a wrong digit
  is that no weight sends a nonzero digit difference to zero.\<close>

locale weighted_check =
  fixes w :: "nat list" and m k :: nat
  assumes weights: "list_all (\<lambda>c. list_all (\<lambda>x. (x * c) mod m \<noteq> 0) [1, 2, 3, 4, 5, 6, 7, 8, 9]) w"
begin

lemma weight_diff:
  assumes "i < length w" "a < 10" "b < 10" "(a * w ! i) mod m = (b * w ! i) mod m"
  shows "a = b"
  using assms(2-4)
proof (induction a b rule: linorder_wlog)
  case (le a b)
  show ?case
  proof (rule ccontr)
    assume "a \<noteq> b"
    with le(1-3) have "b - a = 1 \<or> b - a = 2 \<or> b - a = 3 \<or> b - a = 4 \<or> b - a = 5 \<or>
      b - a = 6 \<or> b - a = 7 \<or> b - a = 8 \<or> b - a = 9" by arith
    then have "b - a \<in> set [1, 2, 3, 4, 5, 6, 7, 8, 9]" by simp
    with weights assms(1) have "((b - a) * w ! i) mod m \<noteq> 0"
      by (auto simp: list_all_iff simp del: set_simps)
    moreover from le have "m dvd (b - a) * w ! i"
      using mod_eq_dvd_iff_nat [of "a * w ! i" "b * w ! i" m] by (simp add: diff_mult_distrib)
    ultimately show False by (simp add: dvd_eq_mod_eq_0)
  qed
next
  case (sym a b)
  then show ?case by simp
qed

lemma separates_weighted: "separates (\<lambda>d. length d = length w \<and> wsum d w mod m = k)"
  unfolding separates_def
proof (intro allI impI, elim conjE)
  fix xs a b ys
  assume ab: "a < 10" "b < 10" and len: "length (xs @ a # ys) = length w"
    and eq: "wsum (xs @ a # ys) w mod m = k" "wsum (xs @ b # ys) w mod m = k"
  let ?r = "wsum xs w + wsum ys (drop (Suc (length xs)) w)"
  from len have i: "length xs < length w" by simp
  have "wsum (xs @ c # ys) w = ?r + c * w ! length xs" for c
    unfolding wsum_split [OF i] by (simp only: add.assoc add.left_commute add.commute)
  with eq have "(?r + a * w ! length xs) mod m = (?r + b * w ! length xs) mod m" by metis
  then have "(a * w ! length xs) mod m = (b * w ! length xs) mod m"
    by (rule add_mod_cancel)
  with i ab show "a = b" by (rule weight_diff)
qed

lemma detects_weighted:
  assumes "\<And>s. V s \<Longrightarrow> length (digits s) = length w \<and> wsum (digits s) w mod m = k"
  shows "detects_digit_error V"
  using assms by (rule detects_by_digits [OF _ separates_weighted])

end

subsection \<open>ISO 7064 MOD 11,10\<close>

lemma upt_1_11: "[Suc 0..<11] = [1, 2, 3, 4, 5, 6, 7, 8, 9, 10]"
  by (simp add: upt_rec)

lemma iso7064_table:
  "list_all (\<lambda>p. list_all (\<lambda>x. iso7064_step p x \<in> {1..<11}) [0..<10]) [1..<11]"
  "list_all (\<lambda>p. distinct (map (iso7064_step p) [0..<10])) [1..<11]"
  "list_all (\<lambda>x. distinct (map (\<lambda>p. iso7064_step p x) [1..<11])) [0..<10]"
  by (simp_all add: upt_digits upt_1_11)

lemma distinct_map_inj: "distinct (map f xs) \<Longrightarrow> x \<in> set xs \<Longrightarrow> y \<in> set xs \<Longrightarrow> f x = f y \<Longrightarrow> x = y"
  by (auto simp: distinct_map dest: inj_onD)

interpretation iso7064: digit_automaton "\<lambda>_. iso7064_step" "{1..<11}" 10 "\<lambda>_ _. True"
proof unfold_locales
  fix s t d e :: nat
  show "iso7064_step s d \<in> {1..<11}" if "s \<in> {1..<11}" "d < 10"
    using iso7064_table(1) that unfolding list_all_iff by (metis atLeastLessThan_iff le0 set_upt)
  show "d = e" if "s \<in> {1..<11}" "d < 10" "e < 10" "iso7064_step s d = iso7064_step s e"
    using iso7064_table(2) that distinct_map_inj [of "iso7064_step s" "[0..<10]" d e]
    unfolding list_all_iff by (metis atLeastLessThan_iff le0 set_upt)
  show "s = t" if "s \<in> {1..<11}" "t \<in> {1..<11}" "d < 10" "iso7064_step s d = iso7064_step t d"
    using iso7064_table(3) that distinct_map_inj [of "\<lambda>p. iso7064_step p d" "[1..<11]" s t]
    unfolding list_all_iff by (metis atLeastLessThan_iff le0 set_upt)
qed

text \<open>A number passes when running the automaton over the check digit too ends in state 2.\<close>

lemma iso7064_accept_table:
  "list_all (\<lambda>p. list_all (\<lambda>c. (11 - p) mod 10 = c \<longrightarrow> iso7064_step p c = 2) [0..<10]) [1..<11]"
  by (simp add: upt_digits upt_1_11)

lemma iso7064_accept:
  assumes "all_digits (ds @ [c])" "iso7064_mod11_10 ds = c"
  shows "foldl iso7064_step 10 (ds @ [c]) = 2"
proof -
  let ?p = "foldl iso7064_step 10 ds"
  have "?p \<in> {1..<11}"
    using iso7064.run_closed [of 10 ds 0] assms(1) by (simp add: run_from_foldl all_digits_def)
  moreover have "(11 - ?p) mod 10 = c" using assms(2) by (simp add: iso7064_mod11_10_def)
  ultimately have "iso7064_step ?p c = 2"
    using iso7064_accept_table assms(1) unfolding list_all_iff
    by (metis all_digits_simps(2,3) atLeastLessThan_iff le0 set_upt)
  then show ?thesis by simp
qed

lemma separates_iso7064:
  "separates (\<lambda>d. length d = Suc n \<and> iso7064_mod11_10 (take n d) = d ! n)"
proof -
  have acc: "foldl iso7064_step 10 d = 2"
    if "all_digits d" "length d = Suc n" "iso7064_mod11_10 (take n d) = d ! n" for d
  proof -
    have "d = take n d @ [d ! n]"
      using that(2) by (metis lessI take_Suc_conv_app_nth take_all_iff order_refl)
    then show ?thesis using iso7064_accept [of "take n d" "d ! n"] that by metis
  qed
  show ?thesis
    unfolding separates_def
  proof (intro allI impI, elim conjE)
    fix xs a b ys
    assume d: "all_digits xs" "all_digits ys" "a < 10" "b < 10"
      and a: "length (xs @ a # ys) = Suc n" "iso7064_mod11_10 (take n (xs @ a # ys)) = (xs @ a # ys) ! n"
      and b: "length (xs @ b # ys) = Suc n" "iso7064_mod11_10 (take n (xs @ b # ys)) = (xs @ b # ys) ! n"
    from acc [OF _ a] acc [OF _ b] d
    have "run_from (\<lambda>_. iso7064_step) 0 10 (xs @ a # ys) = run_from (\<lambda>_. iso7064_step) 0 10 (xs @ b # ys)"
      by (simp add: run_from_foldl)
    then show "a = b"
      using d iso7064.single_error [of 10 xs ys a b 0] by (auto simp: all_digits_def)
  qed
qed

end
