(* ===== verification/Verhoeff.thy ===== *)
theory Verhoeff
  imports Checksums
begin

text \<open>
  Why the Verhoeff tables of \<open>national_id.rs\<close> work: the multiplication table is a group,
  the permutation table is a permutation in every row, and no row commutes with the next
  one. So the check detects every wrong digit and every swap of neighbouring digits, and
  the digit \<open>verhoeff_check_digit\<close> computes is the one \<open>verhoeff_valid\<close> accepts.
\<close>

section \<open>The dihedral group behind the tables\<close>

lemma verhoeff_loop_run: "verhoeff_loop i c ds = run_from verhoeff_step i c ds"
  by (induction ds arbitrary: i c) auto

definition dihedral :: "nat \<Rightarrow> nat \<Rightarrow> nat" where
  "dihedral a b = VERHOEFF_D ! a ! b"

definition verhoeff_perm :: "nat \<Rightarrow> nat \<Rightarrow> nat" where
  "verhoeff_perm i n = VERHOEFF_P ! (i mod 8) ! n"

lemma verhoeff_step_eq: "verhoeff_step i c n = dihedral c (verhoeff_perm i n)"
  by (simp add: verhoeff_step_def dihedral_def verhoeff_perm_def)

lemma upt_8: "[0..<8] = [0, 1, 2, 3, 4, 5, 6, 7]"
  by (simp add: upt_rec)

lemma dihedral_table:
  "list_all (\<lambda>a. list_all (\<lambda>b. dihedral a b < 10) [0..<10]) [0..<10]"
  "list_all (\<lambda>a. distinct (map (dihedral a) [0..<10])) [0..<10]"
  "list_all (\<lambda>b. distinct (map (\<lambda>a. dihedral a b) [0..<10])) [0..<10]"
  "list_all (\<lambda>a. list_all (\<lambda>b. list_all (\<lambda>c.
     dihedral (dihedral a b) c = dihedral a (dihedral b c)) [0..<10]) [0..<10]) [0..<10]"
  by code_simp+

lemma perm_table:
  "list_all (\<lambda>i. list_all (\<lambda>n. VERHOEFF_P ! i ! n < 10) [0..<10]) [0..<8]"
  "list_all (\<lambda>i. distinct (map (\<lambda>n. VERHOEFF_P ! i ! n) [0..<10])) [0..<8]"
  by (simp_all add: upt_digits upt_8 VERHOEFF_P_def)

lemma swap_table:
  "list_all (\<lambda>i. list_all (\<lambda>d. list_all (\<lambda>e.
     dihedral (VERHOEFF_P ! i ! d) (VERHOEFF_P ! ((i + 1) mod 8) ! e)
       = dihedral (VERHOEFF_P ! i ! e) (VERHOEFF_P ! ((i + 1) mod 8) ! d) \<longrightarrow> d = e)
     [0..<10]) [0..<10]) [0..<8]"
  by code_simp


lemma dihedral_less: "a < 10 \<Longrightarrow> b < 10 \<Longrightarrow> dihedral a b < 10"
  using dihedral_table(1) unfolding list_all_upt by blast

lemma dihedral_assoc:
  "a < 10 \<Longrightarrow> b < 10 \<Longrightarrow> c < 10 \<Longrightarrow> dihedral (dihedral a b) c = dihedral a (dihedral b c)"
  using dihedral_table(4) unfolding list_all_upt by blast

lemma dihedral_left_cancel:
  "a < 10 \<Longrightarrow> b < 10 \<Longrightarrow> c < 10 \<Longrightarrow> dihedral a b = dihedral a c \<Longrightarrow> b = c"
  using dihedral_table(2) distinct_map_inj [of "dihedral a" "[0..<10]" b c]
  unfolding list_all_upt by simp

lemma dihedral_right_cancel:
  "a < 10 \<Longrightarrow> b < 10 \<Longrightarrow> c < 10 \<Longrightarrow> dihedral b a = dihedral c a \<Longrightarrow> b = c"
  using dihedral_table(3) distinct_map_inj [of "\<lambda>x. dihedral x a" "[0..<10]" b c]
  unfolding list_all_upt by simp

lemma verhoeff_perm_less: "n < 10 \<Longrightarrow> verhoeff_perm i n < 10"
  using perm_table(1) unfolding list_all_upt verhoeff_perm_def by simp

lemma verhoeff_perm_inj: "m < 10 \<Longrightarrow> n < 10 \<Longrightarrow> verhoeff_perm i m = verhoeff_perm i n \<Longrightarrow> m = n"
  using perm_table(2) distinct_map_inj [of "\<lambda>n. VERHOEFF_P ! (i mod 8) ! n" "[0..<10]" m n]
  unfolding list_all_upt verhoeff_perm_def by simp

lemma verhoeff_perm_swap:
  assumes "d < 10" "e < 10"
    "dihedral (verhoeff_perm i d) (verhoeff_perm (Suc i) e)
       = dihedral (verhoeff_perm i e) (verhoeff_perm (Suc i) d)"
  shows "d = e"
proof -
  have "Suc i mod 8 = (i mod 8 + 1) mod 8" by (simp add: mod_Suc_eq)
  with assms show ?thesis
    using swap_table [unfolded list_all_upt, rule_format, of "i mod 8" d e]
    unfolding verhoeff_perm_def by simp
qed

interpretation verhoeff: transposition_automaton verhoeff_step "{..<10}" 10 "\<lambda>_ _. True"
proof unfold_locales
  fix s t d e i :: nat
  show "verhoeff_step i s d \<in> {..<10}" if "s \<in> {..<10}" "d < 10"
    using that by (simp add: verhoeff_step_eq dihedral_less verhoeff_perm_less)
  show "d = e" if "s \<in> {..<10}" "d < 10" "e < 10" "verhoeff_step i s d = verhoeff_step i s e"
    using that dihedral_left_cancel [of s "verhoeff_perm i d" "verhoeff_perm i e"]
      verhoeff_perm_inj [of d e i]
    by (simp add: verhoeff_step_eq verhoeff_perm_less)
  show "s = t" if "s \<in> {..<10}" "t \<in> {..<10}" "d < 10" "verhoeff_step i s d = verhoeff_step i t d"
    using that dihedral_right_cancel [of "verhoeff_perm i d" s t]
    by (simp add: verhoeff_step_eq verhoeff_perm_less)
  show "d = e" if "s \<in> {..<10}" "d < 10" "e < 10"
    "verhoeff_step (Suc i) (verhoeff_step i s d) e = verhoeff_step (Suc i) (verhoeff_step i s e) d"
  proof -
    let ?p = "verhoeff_perm i" and ?q = "verhoeff_perm (Suc i)"
    have "dihedral s (dihedral (?p d) (?q e)) = dihedral s (dihedral (?p e) (?q d))"
      using that by (simp add: verhoeff_step_eq dihedral_assoc verhoeff_perm_less)
    then have "dihedral (?p d) (?q e) = dihedral (?p e) (?q d)"
      using that dihedral_left_cancel [of s "dihedral (?p d) (?q e)" "dihedral (?p e) (?q d)"]
      by (simp add: dihedral_less verhoeff_perm_less)
    from verhoeff_perm_swap [OF that(2,3) this] show ?thesis .
  qed
qed

lemma verhoeff_valid_run: "verhoeff_valid ds \<longleftrightarrow> run_from verhoeff_step 0 0 (rev ds) = 0"
  by (simp add: verhoeff_valid_def verhoeff_loop_run)

lemma separates_verhoeff: "separates verhoeff_valid"
  unfolding separates_def
proof (intro allI impI)
  fix xs a b ys
  assume d: "all_digits xs" "all_digits ys" "a < 10" "b < 10"
    and v: "verhoeff_valid (xs @ a # ys)" "verhoeff_valid (xs @ b # ys)"
  from v have "run_from verhoeff_step 0 0 (rev ys @ a # rev xs)
      = run_from verhoeff_step 0 0 (rev ys @ b # rev xs)"
    by (simp add: verhoeff_valid_run)
  then show "a = b"
    using d verhoeff.single_error [of 0 "rev ys" "rev xs" a b 0] by (auto simp: all_digits_def)
qed

lemma verhoeff_transposition:
  assumes d: "all_digits xs" "all_digits ys" "a < 10" "b < 10"
    and v: "verhoeff_valid (xs @ a # b # ys)" "verhoeff_valid (xs @ b # a # ys)"
  shows "a = b"
proof -
  from v have "run_from verhoeff_step 0 0 (rev ys @ b # a # rev xs)
      = run_from verhoeff_step 0 0 (rev ys @ a # b # rev xs)"
    by (simp add: verhoeff_valid_run)
  then show ?thesis
    using d verhoeff.transposition_error [of 0 "rev ys" "rev xs" b a 0]
    by (auto simp: all_digits_def)
qed

text \<open>The check digit: running the automaton over it first and then over the payload. The
  code instead starts the payload at row one and inverts the state it ends in.\<close>

lemma dihedral_unit_table:
  "list_all (\<lambda>c. dihedral c 0 = c) [0..<10]"
  "list_all (\<lambda>c. dihedral 0 c = c) [0..<10]"
  "list_all (\<lambda>c. verhoeff_perm 0 c = c) [0..<10]"
  "list_all (\<lambda>c. VERHOEFF_INV ! c < 10) [0..<10]"
  "list_all (\<lambda>c. dihedral (VERHOEFF_INV ! c) c = 0) [0..<10]"
  by (simp_all add: upt_digits dihedral_def VERHOEFF_D_def VERHOEFF_INV_def verhoeff_perm_def
      VERHOEFF_P_def)

lemmas dihedral_unit = dihedral_unit_table [unfolded list_all_upt, rule_format]

lemma verhoeff_loop_less: "c < 10 \<Longrightarrow> all_digits ds \<Longrightarrow> verhoeff_loop i c ds < 10"
  using verhoeff.run_closed [of c ds i] by (simp add: verhoeff_loop_run all_digits_def)

lemma verhoeff_shift:
  assumes "c < 10" "all_digits ds"
  shows "verhoeff_loop i c ds = dihedral c (verhoeff_loop i 0 ds)"
  using assms
proof (induction ds arbitrary: c i)
  case Nil
  then show ?case by (simp add: dihedral_unit)
next
  case (Cons n ns)
  let ?p = "verhoeff_perm i n" and ?r = "verhoeff_loop (Suc i) 0 ns"
  have n: "n < 10" "all_digits ns" using Cons.prems by simp_all
  then have p: "?p < 10" and r: "?r < 10" by (simp_all add: verhoeff_perm_less verhoeff_loop_less)
  have "verhoeff_loop i c (n # ns) = dihedral (dihedral c ?p) ?r"
    using Cons.prems n p Cons.IH [of "dihedral c ?p" "Suc i"]
    by (simp add: verhoeff_step_eq dihedral_less)
  also have "\<dots> = dihedral c (dihedral ?p ?r)" using Cons.prems p r by (simp add: dihedral_assoc)
  also have "dihedral ?p ?r = verhoeff_loop i 0 (n # ns)"
    using n p Cons.IH [of ?p "Suc i"] by (simp add: verhoeff_step_eq dihedral_unit)
  finally show ?case .
qed

lemma verhoeff_append_valid:
  assumes "all_digits payload" "c < 10"
  shows "verhoeff_valid (payload @ [c]) \<longleftrightarrow> dihedral c (verhoeff_loop 1 0 (rev payload)) = 0"
  using assms verhoeff_shift [of c "rev payload" 1]
  by (simp add: verhoeff_valid_def verhoeff_step_eq dihedral_unit)

lemma verhoeff_check_digit_less: "all_digits payload \<Longrightarrow> verhoeff_check_digit payload < 10"
  by (simp add: verhoeff_check_digit_def dihedral_unit verhoeff_loop_less)

lemma verhoeff_check_digit_valid:
  "all_digits payload \<Longrightarrow> verhoeff_valid (payload @ [verhoeff_check_digit payload])"
  by (simp add: verhoeff_append_valid verhoeff_check_digit_less)
    (simp add: verhoeff_check_digit_def dihedral_unit verhoeff_loop_less)

lemma verhoeff_check_digit_unique:
  assumes "all_digits payload" "c < 10" "verhoeff_valid (payload @ [c])"
  shows "c = verhoeff_check_digit payload"
  using assms verhoeff_check_digit_valid [of payload] verhoeff_check_digit_less [of payload]
    separates_verhoeff [unfolded separates_def, rule_format, of payload "[]" c]
  by simp

end
