(* ===== verification/IdsFinance.thy ===== *)
theory IdsFinance
  imports Verhoeff
begin

text \<open>
  The first part of \<open>national_id.rs\<close> (up to the Luhn slice): payment and securities
  identifiers, and the first national numbers. Each validator takes the raw matched text
  and normalises it itself. A \<open>for\<close> loop over \<open>iter().enumerate()\<close> is a sum over
  \<open>enumerate\<close>; a \<open>return false\<close> inside one is a \<open>None\<close> of \<open>sum_values\<close>.
\<close>

text \<open>\<open>s.bytes().filter(is_ascii_alphanumeric).map(to_ascii_uppercase)\<close>.\<close>

definition alnum_upper :: "rstr \<Rightarrow> rstr" where
  "alnum_upper s = map to_ascii_uppercase (filter is_ascii_alphanumeric s)"

text \<open>\<open>num = num * 10 + (b - b'0')\<close> over the bytes of a slice.\<close>

definition number_of_bytes :: "nat \<Rightarrow> rstr \<Rightarrow> nat" where
  "number_of_bytes start bs = foldl (\<lambda>num b. num * 10 + (b - 48)) start bs"

definition iban_step :: "nat \<Rightarrow> nat \<Rightarrow> nat" where
  "iban_step r ch =
     (if is_ascii_digit ch then r * 10 + (ch - 48) else r * 100 + (ch - 65 + 10)) mod 97"

definition iban :: "rstr \<Rightarrow> bool" where
  "iban s = (let cleaned = alnum_upper s in
     if length cleaned < 15 \<or> length cleaned > 34 then False
     else if \<not> is_ascii_alphabetic (cleaned ! 0) \<or> \<not> is_ascii_alphabetic (cleaned ! 1) then False
     else if \<not> is_ascii_digit (cleaned ! 2) \<or> \<not> is_ascii_digit (cleaned ! 3) then False
     else let rotated = drop 4 cleaned @ take 4 cleaned
          in foldl iban_step 0 rotated = 1)"

definition DNI_TABLE :: rstr where
  "DNI_TABLE = lit ''TRWAGMYFPDXBNJZSQVHLCKE''"

definition spain_dni :: "rstr \<Rightarrow> bool" where
  "spain_dni s = (let cleaned = filter is_ascii_alphanumeric s in
     if length cleaned \<noteq> 9 then False
     else let num_part = take 8 cleaned; letter_part = drop 8 cleaned in
       if \<not> list_all is_ascii_digit num_part then False
       else let letter = to_ascii_uppercase (letter_part ! 0) in
         if \<not> is_ascii_alphabetic letter then False
         else DNI_TABLE ! (number_of_bytes 0 num_part mod 23) = letter)"

definition cpf :: "rstr \<Rightarrow> bool" where
  "cpf s = (let d = digits s in
     if length d \<noteq> 11 then False
     else if list_all (\<lambda>x. x = d ! 0) d then False
     else
       let tot = sum_list (map (\<lambda>(i, x). x * (10 - i)) (enumerate 0 (take 9 d)));
           r0 = (tot * 10) mod 11;
           r = (if r0 = 10 then 0 else r0)
       in if r \<noteq> d ! 9 then False
          else
            let tot2 = sum_list (map (\<lambda>(i, x). x * (11 - i)) (enumerate 0 (take 10 d)));
                r20 = (tot2 * 10) mod 11;
                r2 = (if r20 = 10 then 0 else r20)
            in r2 = d ! 10)"

definition aadhaar :: "rstr \<Rightarrow> bool" where
  "aadhaar s = (let d = digits s in
     if length d \<noteq> 12 \<or> d ! 0 < 2 then False else verhoeff_valid d)"

definition credit_card :: "rstr \<Rightarrow> bool" where
  "credit_card s = (let d = digits s; n = length d in
     if \<not> (12 \<le> n \<and> n \<le> 19) \<or> \<not> luhn s then False
     else
       let two = d ! 0 * 10 + d ! 1;
           four = foldl (\<lambda>a x. a * 10 + x) 0 (take 4 d);
           six = foldl (\<lambda>a x. a * 10 + x) 0 (take 6 d);
           visa = (d ! 0 = 4 \<and> n \<in> {13, 16, 19});
           mc = (((51 \<le> two \<and> two \<le> 55) \<or> (2221 \<le> four \<and> four \<le> 2720)) \<and> n = 16);
           amex = ((two = 34 \<or> two = 37) \<and> n = 15);
           discover = ((four = 6011 \<or> two = 65 \<or> (644 \<le> four \<and> four \<le> 649)) \<and> n \<in> {16, 19});
           diners = ((two = 36 \<or> two = 38 \<or> (300 \<le> four \<and> four \<le> 305)) \<and> n \<in> {14, 16});
           jcb = ((3528 \<le> four \<and> four \<le> 3589) \<and> n \<in> {16, 19});
           unionpay = ((622126 \<le> six \<and> six \<le> 622925) \<or> (two = 62 \<and> 16 \<le> n \<and> n \<le> 19))
       in visa \<or> mc \<or> amex \<or> discover \<or> diners \<or> jcb \<or> unionpay)"

definition spain_nie :: "rstr \<Rightarrow> bool" where
  "spain_nie s = (let c = alnum_upper s in
     if length c \<noteq> 9 then False
     else
       case char_table [(CHR ''X'', 0), (CHR ''Y'', 1), (CHR ''Z'', 2)] (c ! 0) of
         None \<Rightarrow> False
       | Some lead \<Rightarrow>
           if \<not> list_all is_ascii_digit (take 7 (drop 1 c)) \<or> \<not> is_ascii_alphabetic (c ! 8) then False
           else DNI_TABLE ! (number_of_bytes lead (take 7 (drop 1 c)) mod 23) = c ! 8)"

definition us_aba_routing :: "rstr \<Rightarrow> bool" where
  "us_aba_routing s = (let d = digits s in
     if length d \<noteq> 9 then False
     else wsum d [3, 7, 1, 3, 7, 1, 3, 7, 1] mod 10 = 0)"

definition us_npi :: "rstr \<Rightarrow> bool" where
  "us_npi s = (let d = digits s in
     if length d \<noteq> 10 \<or> (d ! 0 \<noteq> 1 \<and> d ! 0 \<noteq> 2) then False
     else luhn (lit ''80840'' @ to_digits_str d))"

text \<open>\<open>b.wrapping_sub(b'0')\<close> on a byte.\<close>

definition us_dea :: "rstr \<Rightarrow> bool" where
  "us_dea s = (let bytes = filter (\<lambda>b. \<not> is_ascii_whitespace b) s in
     if length bytes \<noteq> 9 \<or> \<not> is_ascii_alphabetic (bytes ! 0) \<or> \<not> is_ascii_alphabetic (bytes ! 1)
     then False
     else
       let d = map (\<lambda>b. (b + 256 - 48) mod 256) (drop 2 bytes) in
       if list_ex (\<lambda>x. x > 9) d then False
       else
         let s1 = d ! 0 + d ! 2 + d ! 4; s2 = d ! 1 + d ! 3 + d ! 5
         in (s1 + 2 * s2) mod 10 = d ! 6)"

text \<open>\<open>v.to_string()\<close> of a letter's value, which has two digits.\<close>

definition expand_alnum_char :: "nat \<Rightarrow> rstr" where
  "expand_alnum_char ch =
     (if is_ascii_digit ch then [ch]
      else if is_ascii_alphabetic ch then
        let v = to_ascii_uppercase ch - 65 + 10 in [48 + v div 10, 48 + v mod 10]
      else [])"

definition expand_alnum :: "rstr \<Rightarrow> rstr" where
  "expand_alnum s = concat (map expand_alnum_char (chars s))"

definition isin :: "rstr \<Rightarrow> bool" where
  "isin s = (let c = filter is_ascii_alphanumeric (chars s) in
     if length c \<noteq> 12 \<or> \<not> is_ascii_alphabetic (c ! 0) \<or> \<not> is_ascii_alphabetic (c ! 1) then False
     else if \<not> is_ascii_digit (c ! 11) then False
     else luhn (expand_alnum (take 11 c) @ [c ! 11]))"

definition cusip_val :: "nat \<Rightarrow> nat option" where
  "cusip_val ch =
     (if is_ascii_digit ch then Some (ch - 48)
      else if is_ascii_uppercase ch then Some (ch - 65 + 10)
      else if is_ascii_lowercase ch then Some (ch - 97 + 10)
      else char_table [(CHR ''*'', 36), (CHR ''@'', 37), (CHR ''#'', 38)] ch)"

definition cusip :: "rstr \<Rightarrow> bool" where
  "cusip s = (let c = filter (\<lambda>ch. \<not> is_whitespace ch) (chars s) in
     if length c \<noteq> 9 then False
     else
       case sum_values (\<lambda>(i, ch). map_option
              (\<lambda>v. let v' = (if i mod 2 = 1 then v * 2 else v) in v' div 10 + v' mod 10)
              (cusip_val ch)) (enumerate 0 (take 8 c)) of
         None \<Rightarrow> False
       | Some tot \<Rightarrow> to_digit10 (c ! 8) = Some ((10 - tot mod 10) mod 10))"

definition sedol_val :: "nat \<Rightarrow> nat option" where
  "sedol_val ch =
     (if is_ascii_digit ch then Some (ch - 48)
      else if is_ascii_alphabetic ch then
        let up = to_ascii_uppercase ch
        in if up \<in> set (lit ''AEIOU'') then None else Some (up - 65 + 10)
      else None)"

definition sedol :: "rstr \<Rightarrow> bool" where
  "sedol s = (let c = filter is_ascii_alphanumeric (chars s) in
     if length c \<noteq> 7 then False
     else
       let w = [1, 3, 1, 7, 3, 9] in
       case sum_values (\<lambda>(i, ch). map_option (\<lambda>v. v * w ! i) (sedol_val ch))
              (enumerate 0 (take 6 c)) of
         None \<Rightarrow> False
       | Some tot \<Rightarrow> to_digit10 (c ! 6) = Some ((10 - tot mod 10) mod 10))"

definition vin_translit :: "nat \<Rightarrow> nat option" where
  "vin_translit ch = (let up = to_ascii_uppercase ch in
     if is_ascii_digit up then Some (up - 48)
     else char_table
       [(CHR ''A'', 1), (CHR ''B'', 2), (CHR ''C'', 3), (CHR ''D'', 4), (CHR ''E'', 5),
        (CHR ''F'', 6), (CHR ''G'', 7), (CHR ''H'', 8), (CHR ''J'', 1), (CHR ''K'', 2),
        (CHR ''L'', 3), (CHR ''M'', 4), (CHR ''N'', 5), (CHR ''P'', 7), (CHR ''R'', 9),
        (CHR ''S'', 2), (CHR ''T'', 3), (CHR ''U'', 4), (CHR ''V'', 5), (CHR ''W'', 6),
        (CHR ''X'', 7), (CHR ''Y'', 8), (CHR ''Z'', 9)] up)"

definition vin :: "rstr \<Rightarrow> bool" where
  "vin s = (let c = filter is_ascii_alphanumeric (chars s) in
     if length c \<noteq> 17 then False
     else if \<not> list_ex is_ascii_alphabetic c then False
     else
       let w = [8, 7, 6, 5, 4, 3, 2, 10, 0, 9, 8, 7, 6, 5, 4, 3, 2] in
       case sum_values (\<lambda>(i, ch). map_option (\<lambda>v. v * w ! i) (vin_translit ch)) (enumerate 0 c) of
         None \<Rightarrow> False
       | Some tot \<Rightarrow>
           let r = tot mod 11; expect = (if r = 10 then 88 else 48 + r)
           in to_ascii_uppercase (c ! 8) = expect)"

text \<open>The last weight is minus one, so the sum is signed; only its divisibility is read.\<close>

definition netherlands_bsn :: "rstr \<Rightarrow> bool" where
  "netherlands_bsn s = (let d0 = digits s; d = (if length d0 = 8 then 0 # d0 else d0) in
     if length d \<noteq> 9 then False
     else
       let tot = sum_list (map (\<lambda>(x, wt). int x * wt) (zip d [9, 8, 7, 6, 5, 4, 3, 2, -1]))
       in tot \<noteq> 0 \<and> tot mod 11 = 0)"

definition australia_tfn :: "rstr \<Rightarrow> bool" where
  "australia_tfn s = (let d = digits s in
     if length d \<noteq> 9 then False
     else wsum d [1, 4, 3, 7, 5, 8, 6, 9, 10] mod 11 = 0)"

end
