(* ===== verification/IdsEurope.thy ===== *)
theory IdsEurope
  imports IdsFinance
begin

text \<open>
  The middle part of \<open>national_id.rs\<close>: the European national numbers and the EU VAT
  numbers, with the other validators the file keeps among them (China, South Africa,
  Australia, South Korea, the SIM serial).
\<close>

definition germany_tax_id :: "rstr \<Rightarrow> bool" where
  "germany_tax_id s = (let d = digits s in
     if length d \<noteq> 11 \<or> d ! 0 = 0 then False
     else let product = foldl iso7064_step 10 (take 10 d)
          in (11 - product) mod 10 = d ! 10)"

definition china_resident_id :: "rstr \<Rightarrow> bool" where
  "china_resident_id s = (let c = filter is_ascii_alphanumeric (chars s) in
     if length c \<noteq> 18 then False
     else
       let w = [7, 9, 10, 5, 8, 4, 2, 1, 6, 3, 7, 9, 10, 5, 8, 4, 2] in
       case sum_values (\<lambda>(i, ch). map_option (\<lambda>v. v * w ! i) (to_digit10 ch))
              (enumerate 0 (take 17 c)) of
         None \<Rightarrow> False
       | Some tot \<Rightarrow> lit ''10X98765432'' ! (tot mod 11) = to_ascii_uppercase (c ! 17))"

definition poland_pesel :: "rstr \<Rightarrow> bool" where
  "poland_pesel s = (let d = digits s in
     if length d \<noteq> 11 then False
     else let tot = wsum (take 10 d) [1, 3, 7, 9, 1, 3, 7, 9, 1, 3]
          in (10 - tot mod 10) mod 10 = d ! 10)"

definition sweden_personnummer :: "rstr \<Rightarrow> bool" where
  "sweden_personnummer s = (let d0 = digits s; d = (if length d0 = 12 then drop 2 d0 else d0)
     in length d = 10 \<and> luhn_slice d)"

definition south_africa_id :: "rstr \<Rightarrow> bool" where
  "south_africa_id s = (let d = digits s in length d = 13 \<and> luhn_slice d)"

text \<open>The remainder of a possibly negative \<open>i32\<close>, made nonnegative as the code does.\<close>

definition rust_rem :: "int \<Rightarrow> int \<Rightarrow> int" where
  "rust_rem a b = sgn a * (\<bar>a\<bar> mod \<bar>b\<bar>)"

definition turkey_tc_kimlik :: "rstr \<Rightarrow> bool" where
  "turkey_tc_kimlik s = (let d = digits s in
     if length d \<noteq> 11 \<or> d ! 0 = 0 then False
     else
       let odd = int (d ! 0 + d ! 2 + d ! 4 + d ! 6 + d ! 8);
           even = int (d ! 1 + d ! 3 + d ! 5 + d ! 7);
           d10 = rust_rem (rust_rem (odd * 7 - even) 10 + 10) 10
       in if d10 \<noteq> int (d ! 9) then False
          else sum_list (take 10 d) mod 10 = d ! 10)"

definition finland_hetu :: "rstr \<Rightarrow> bool" where
  "finland_hetu s = (let c = filter (\<lambda>ch. \<not> is_whitespace ch) (chars s) in
     if length c \<noteq> 11 \<or> \<not> list_all is_ascii_digit (take 6 c)
        \<or> \<not> list_all is_ascii_digit (take 3 (drop 7 c)) then False
     else
       let n = number_of_bytes 0 (take 6 c @ take 3 (drop 7 c))
       in lit ''0123456789ABCDEFHJKLMNPRSTUVWXY'' ! (n mod 31) = to_ascii_uppercase (c ! 10))"

definition france_nir :: "rstr \<Rightarrow> bool" where
  "france_nir s = (let c = map to_ascii_uppercase (filter is_ascii_alphanumeric (chars s)) in
     if length c \<noteq> 15 then False
     else let key = drop 13 c in
       if \<not> list_all is_ascii_digit key then False
       else
         let core = replace_str (lit ''2B'') (lit ''18'')
                      (replace_str (lit ''2A'') (lit ''19'') (take 13 c)) in
         if length core \<noteq> 13 \<or> \<not> list_all is_ascii_digit core then False
         else
           let rem = foldl (\<lambda>r b. (r * 10 + (b - 48)) mod 97) 0 core
           in 97 - rem = number_of_bytes 0 key)"

definition belgium_national_number :: "rstr \<Rightarrow> bool" where
  "belgium_national_number s = (let d = digits s in
     if length d \<noteq> 11 then False
     else
       let b = number (take 9 d); check = d ! 9 * 10 + d ! 10
       in check = 97 - b mod 97 \<or> check = 97 - (2000000000 + b) mod 97)"

definition norway_fodselsnummer :: "rstr \<Rightarrow> bool" where
  "norway_fodselsnummer s = (let d = digits s in
     if length d \<noteq> 11 then False
     else
       let s1 = wsum (take 9 d) [3, 7, 6, 1, 8, 9, 4, 5, 2]; k1 = (11 - s1 mod 11) mod 11 in
       if k1 = 10 \<or> k1 \<noteq> d ! 9 then False
       else
         let s2 = wsum (take 10 d) [5, 4, 3, 2, 7, 6, 5, 4, 3, 2]; k2 = (11 - s2 mod 11) mod 11
         in k2 \<noteq> 10 \<and> k2 = d ! 10)"

definition cf_odd :: "nat \<Rightarrow> nat option" where
  "cf_odd = char_table
     [(CHR ''0'', 1), (CHR ''A'', 1), (CHR ''1'', 0), (CHR ''B'', 0), (CHR ''2'', 5),
      (CHR ''C'', 5), (CHR ''3'', 7), (CHR ''D'', 7), (CHR ''4'', 9), (CHR ''E'', 9),
      (CHR ''5'', 13), (CHR ''F'', 13), (CHR ''6'', 15), (CHR ''G'', 15), (CHR ''7'', 17),
      (CHR ''H'', 17), (CHR ''8'', 19), (CHR ''I'', 19), (CHR ''9'', 21), (CHR ''J'', 21),
      (CHR ''K'', 2), (CHR ''L'', 4), (CHR ''M'', 18), (CHR ''N'', 20), (CHR ''O'', 11),
      (CHR ''P'', 3), (CHR ''Q'', 6), (CHR ''R'', 8), (CHR ''S'', 12), (CHR ''T'', 14),
      (CHR ''U'', 16), (CHR ''V'', 10), (CHR ''W'', 22), (CHR ''X'', 25), (CHR ''Y'', 24),
      (CHR ''Z'', 23)]"

definition cf_even :: "nat \<Rightarrow> nat option" where
  "cf_even ch =
     (if is_ascii_digit ch then Some (ch - 48)
      else if is_ascii_uppercase ch then Some (ch - 65)
      else None)"

definition italy_codice_fiscale :: "rstr \<Rightarrow> bool" where
  "italy_codice_fiscale s =
     (let c = map to_ascii_uppercase (filter is_ascii_alphanumeric (chars s)) in
      if length c \<noteq> 16 then False
      else
        case sum_values (\<lambda>(i, ch). if i mod 2 = 0 then cf_odd ch else cf_even ch)
               (enumerate 0 (take 15 c)) of
          None \<Rightarrow> False
        | Some tot \<Rightarrow> 65 + tot mod 26 = c ! 15)"

definition australia_medicare :: "rstr \<Rightarrow> bool" where
  "australia_medicare s = (let d = digits s in
     if \<not> (10 \<le> length d \<and> length d \<le> 11) \<or> \<not> (2 \<le> d ! 0 \<and> d ! 0 \<le> 6) then False
     else wsum (take 8 d) [1, 3, 7, 9, 1, 3, 7, 9] mod 10 = d ! 8)"

definition uk_utr :: "rstr \<Rightarrow> bool" where
  "uk_utr s = (let d = digits s in
     if length d \<noteq> 10 then False
     else
       let tot = wsum (drop 1 d) [6, 7, 8, 9, 10, 5, 4, 3, 2]; cd = (11 - tot mod 11) mod 11
       in cd \<noteq> 10 \<and> cd = d ! 0)"

definition south_korea_rrn :: "rstr \<Rightarrow> bool" where
  "south_korea_rrn s = (let d = digits s in
     if length d \<noteq> 13 then False
     else
       let tot = wsum (take 12 d) [2, 3, 4, 5, 6, 7, 8, 9, 2, 3, 4, 5]
       in (11 - tot mod 11) mod 10 = d ! 12)"

definition iccid :: "rstr \<Rightarrow> bool" where
  "iccid s = (let d = digits s in
     if \<not> (19 \<le> length d \<and> length d \<le> 20) \<or> d ! 0 \<noteq> 8 \<or> d ! 1 \<noteq> 9 then False
     else luhn_slice d)"

section \<open>EU VAT numbers\<close>

definition germany_vat :: "rstr \<Rightarrow> bool" where
  "germany_vat s = (let d = digits s in
     length d = 9 \<and> d ! 0 \<noteq> 0 \<and> iso7064_mod11_10 (take 8 d) = d ! 8)"

definition france_vat :: "rstr \<Rightarrow> bool" where
  "france_vat s = (let d = digits s in
     if length d \<noteq> 11 then False
     else
       let key = d ! 0 * 10 + d ! 1; siren = drop 2 d
       in key = (12 + 3 * digits_mod siren 97) mod 97 \<and> luhn_slice siren)"

definition italy_vat :: "rstr \<Rightarrow> bool" where
  "italy_vat s = (let d = digits s in length d = 11 \<and> luhn_slice d)"

definition belgium_vat :: "rstr \<Rightarrow> bool" where
  "belgium_vat s = (let d = digits s in
     if length d \<noteq> 10 then False
     else let check = d ! 8 * 10 + d ! 9 in check = 97 - digits_mod (take 8 d) 97)"

definition austria_vat :: "rstr \<Rightarrow> bool" where
  "austria_vat s = (let d = digits s in
     if length d \<noteq> 8 then False
     else
       let z = sum_list (map (\<lambda>(i, x).
                 if i mod 2 = 1 then let doubled = x * 2 in doubled div 10 + doubled mod 10 else x)
                 (enumerate 0 (take 7 d)))
       in (10 - (z + 4) mod 10) mod 10 = d ! 7)"

definition poland_nip :: "rstr \<Rightarrow> bool" where
  "poland_nip s = (let d = digits s in
     if length d \<noteq> 10 then False
     else let r = wsum (take 9 d) [6, 5, 7, 2, 3, 4, 5, 6, 7] mod 11
          in r \<noteq> 10 \<and> r = d ! 9)"

definition denmark_cvr :: "rstr \<Rightarrow> bool" where
  "denmark_cvr s = (let d = digits s in
     length d = 8 \<and> wsum d [2, 7, 6, 5, 4, 3, 2, 1] mod 11 = 0)"

definition greece_afm :: "rstr \<Rightarrow> bool" where
  "greece_afm s = (let d = digits s in
     if length d \<noteq> 9 then False
     else (wsum (take 8 d) [256, 128, 64, 32, 16, 8, 4, 2] mod 11) mod 10 = d ! 8)"

definition croatia_oib :: "rstr \<Rightarrow> bool" where
  "croatia_oib s = (let d = digits s in
     length d = 11 \<and> iso7064_mod11_10 (take 10 d) = d ! 10)"

definition portugal_nif :: "rstr \<Rightarrow> bool" where
  "portugal_nif s = (let d = digits s in
     if length d \<noteq> 9 then False
     else
       let r = wsum (take 8 d) [9, 8, 7, 6, 5, 4, 3, 2] mod 11;
           check = (if r < 2 then 0 else 11 - r)
       in check = d ! 8)"

definition finland_vat :: "rstr \<Rightarrow> bool" where
  "finland_vat s = (let d = digits s in
     if length d \<noteq> 8 then False
     else let r = wsum (take 7 d) [7, 9, 10, 5, 8, 4, 2] mod 11 in
       if r = 1 then False
       else let check = (if r = 0 then 0 else 11 - r) in check = d ! 7)"

definition luxembourg_vat :: "rstr \<Rightarrow> bool" where
  "luxembourg_vat s = (let d = digits s in
     if length d \<noteq> 8 then False
     else d ! 6 * 10 + d ! 7 = digits_mod (take 6 d) 89)"

definition sweden_vat :: "rstr \<Rightarrow> bool" where
  "sweden_vat s = (let d = digits s in
     length d = 12 \<and> d ! 10 = 0 \<and> d ! 11 = 1 \<and> luhn_slice (take 10 d))"

definition IE_ALPHABET :: rstr where
  "IE_ALPHABET = lit ''WABCDEFGHIJKLMNOPQRSTUV''"

definition ireland_pps :: "rstr \<Rightarrow> bool" where
  "ireland_pps s = (let c = alnum_upper s in
     if \<not> (8 \<le> length c \<and> length c \<le> 9) \<or> \<not> list_all is_ascii_digit (take 7 c) then False
     else
       let tot = sum_list (map (\<lambda>(i, b). (b - 48) * (8 - i)) (enumerate 0 (take 7 c))) in
       if length c = 9 \<and> \<not> is_ascii_alphabetic (c ! 8) then False
       else
         let tot' = (if length c = 9 then tot + (c ! 8 - 65 + 1) * 9 else tot);
             check = c ! 7
         in is_ascii_alphabetic check \<and> IE_ALPHABET ! (tot' mod 23) = check)"

definition switzerland_ahv :: "rstr \<Rightarrow> bool" where
  "switzerland_ahv s = (let d = digits s in
     if length d \<noteq> 13 \<or> d ! 0 \<noteq> 7 \<or> d ! 1 \<noteq> 5 \<or> d ! 2 \<noteq> 6 then False
     else
       let tot = sum_list (map (\<lambda>(i, x). x * (if i mod 2 = 0 then 1 else 3))
                   (enumerate 0 (take 12 d)))
       in (10 - tot mod 10) mod 10 = d ! 12)"

definition austria_svnr :: "rstr \<Rightarrow> bool" where
  "austria_svnr s = (let d = digits s in
     if length d \<noteq> 10 then False
     else let r = wsum d [3, 7, 9, 0, 5, 8, 4, 2, 1, 6] mod 11
          in r \<noteq> 10 \<and> r = d ! 3)"

definition romania_cnp :: "rstr \<Rightarrow> bool" where
  "romania_cnp s = (let d = digits s in
     if length d \<noteq> 13 then False
     else
       let r = wsum (take 12 d) [2, 7, 9, 1, 4, 6, 3, 5, 8, 2, 7, 9] mod 11;
           check = (if r = 10 then 1 else r)
       in check = d ! 12)"

definition bulgaria_egn :: "rstr \<Rightarrow> bool" where
  "bulgaria_egn s = (let d = digits s in
     if length d \<noteq> 10 then False
     else
       let r = wsum (take 9 d) [2, 4, 8, 5, 10, 9, 7, 3, 6] mod 11;
           check = (if r = 10 then 0 else r)
       in check = d ! 9)"

definition greece_amka :: "rstr \<Rightarrow> bool" where
  "greece_amka s = (let d = digits s in length d = 11 \<and> luhn_slice d)"

definition iceland_kennitala :: "rstr \<Rightarrow> bool" where
  "iceland_kennitala s = (let d = digits s in
     if length d \<noteq> 10 then False
     else
       let r = wsum (take 8 d) [3, 2, 7, 6, 5, 4, 3, 2] mod 11; check = (11 - r) mod 11
       in check \<noteq> 10 \<and> check = d ! 8)"

definition estonia_isikukood :: "rstr \<Rightarrow> bool" where
  "estonia_isikukood s = (let d = digits s in
     if length d \<noteq> 11 then False
     else
       let r1 = wsum (take 10 d) [1, 2, 3, 4, 5, 6, 7, 8, 9, 1] mod 11;
           check = (if r1 < 10 then r1
                    else let r2 = wsum (take 10 d) [3, 4, 5, 6, 7, 8, 9, 1, 2, 3] mod 11
                         in if r2 < 10 then r2 else 0)
       in check = d ! 10)"

definition jmbg :: "rstr \<Rightarrow> bool" where
  "jmbg s = (let d = digits s in
     if length d \<noteq> 13 then False
     else
       let t = 7 * (d ! 0 + d ! 6) + 6 * (d ! 1 + d ! 7) + 5 * (d ! 2 + d ! 8)
             + 4 * (d ! 3 + d ! 9) + 3 * (d ! 4 + d ! 10) + 2 * (d ! 5 + d ! 11);
           m = 11 - t mod 11
       in if m = 11 then 0 = d ! 12 else if m = 10 then False else m = d ! 12)"

definition russia_inn :: "rstr \<Rightarrow> bool" where
  "russia_inn s = (let d = digits s in
     if length d \<noteq> 12 then False
     else
       let n11 = wsum (take 10 d) [7, 2, 4, 10, 3, 5, 9, 4, 6, 8] mod 11 mod 10;
           n12 = wsum (take 11 d) [3, 7, 2, 4, 10, 3, 5, 9, 4, 6, 8] mod 11 mod 10
       in n11 = d ! 10 \<and> n12 = d ! 11)"

definition czech_rodne_cislo :: "rstr \<Rightarrow> bool" where
  "czech_rodne_cislo s = (let d = digits s in length d = 10 \<and> digits_mod d 11 = 0)"

definition denmark_cpr :: "rstr \<Rightarrow> bool" where
  "denmark_cpr s = (let d = digits s in
     length d = 10 \<and> wsum d [4, 3, 2, 7, 6, 5, 4, 3, 2, 1] mod 11 = 0)"

end
