(* ===== verification/IdsWorld.thy ===== *)
theory IdsWorld
  imports IdsEurope
begin

text \<open>
  The last part of \<open>national_id.rs\<close>: identifiers of Asia, the Americas and the Middle
  East, health-care, financial and telecom numbers, and the second batch of European
  numbers.
\<close>

definition singapore_nric :: "rstr \<Rightarrow> bool" where
  "singapore_nric s = (let c = alnum_upper s in
     if length c \<noteq> 9 \<or> \<not> list_all is_ascii_digit (take 7 (drop 1 c)) then False
     else
       let prefix = c ! 0 in
       case char_table [(CHR ''S'', 0), (CHR ''F'', 0), (CHR ''T'', 4), (CHR ''G'', 4)] prefix of
         None \<Rightarrow> False
       | Some offset \<Rightarrow>
           let tot = wsum (map (\<lambda>b. b - 48) (take 7 (drop 1 c))) [2, 7, 6, 5, 4, 3, 2];
               r = (tot + offset) mod 11;
               table = (if prefix = of_char (CHR ''S'') \<or> prefix = of_char (CHR ''T'')
                        then lit ''JZIHGFEDCBA'' else lit ''XWUTRQPNMLK'')
           in table ! r = c ! 8)"

definition hong_kong_hkid :: "rstr \<Rightarrow> bool" where
  "hong_kong_hkid s = (let c = alnum_upper s in
     if \<not> (8 \<le> length c \<and> length c \<le> 9) then False
     else
       let letters = take (length c - 7) c; rest = drop (length c - 7) c in
       if \<not> list_all is_ascii_digit (take 6 rest) then False
       else if \<not> list_all is_ascii_alphabetic letters then False
       else
         let slots = replicate (2 - length letters) 36 @ map (\<lambda>l. l - 65 + 10) letters;
             w = [9, 8, 7, 6, 5, 4, 3, 2];
             tot = slots ! 0 * w ! 0 + slots ! 1 * w ! 1
                 + sum_list (map (\<lambda>(i, b). (b - 48) * w ! (i + 2)) (enumerate 0 (take 6 rest)));
             check = (11 - tot mod 11) mod 11;
             expect = (if check = 10 then 65 else 48 + check)
         in expect = rest ! 6)"

definition taiwan_area :: "nat \<Rightarrow> nat option" where
  "taiwan_area = char_table
     [(CHR ''A'', 10), (CHR ''B'', 11), (CHR ''C'', 12), (CHR ''D'', 13), (CHR ''E'', 14),
      (CHR ''F'', 15), (CHR ''G'', 16), (CHR ''H'', 17), (CHR ''I'', 34), (CHR ''J'', 18),
      (CHR ''K'', 19), (CHR ''L'', 20), (CHR ''M'', 21), (CHR ''N'', 22), (CHR ''O'', 35),
      (CHR ''P'', 23), (CHR ''Q'', 24), (CHR ''R'', 25), (CHR ''S'', 26), (CHR ''T'', 27),
      (CHR ''U'', 28), (CHR ''V'', 29), (CHR ''W'', 32), (CHR ''X'', 30), (CHR ''Y'', 31),
      (CHR ''Z'', 33)]"

definition taiwan_id :: "rstr \<Rightarrow> bool" where
  "taiwan_id s = (let c = alnum_upper s in
     if length c \<noteq> 10 \<or> \<not> is_ascii_alphabetic (c ! 0) \<or> \<not> list_all is_ascii_digit (drop 1 c)
     then False
     else
       case taiwan_area (c ! 0) of
         None \<Rightarrow> False
       | Some val \<Rightarrow>
           let n1 = val div 10; n2 = val mod 10; w = [8, 7, 6, 5, 4, 3, 2, 1];
               tot = n1 + n2 * 9
                   + sum_list (map (\<lambda>(i, b). (b - 48) * w ! i) (enumerate 0 (take 8 (drop 1 c))))
                   + (c ! 9 - 48)
           in tot mod 10 = 0)"

definition japan_my_number :: "rstr \<Rightarrow> bool" where
  "japan_my_number s = (let d = digits s in
     if length d \<noteq> 12 then False
     else
       let tot = sum_list (map (\<lambda>(i, x).
                   let n = 11 - i; q = (if n \<le> 6 then n + 1 else n - 5) in x * q)
                   (enumerate 0 (take 11 d)));
           r = tot mod 11;
           check = (if r \<le> 1 then 0 else 11 - r)
       in check = d ! 11)"

definition thailand_national_id :: "rstr \<Rightarrow> bool" where
  "thailand_national_id s = (let d = digits s in
     if length d \<noteq> 13 then False
     else let r = wsum (take 12 d) [13, 12, 11, 10, 9, 8, 7, 6, 5, 4, 3, 2] mod 11
          in (11 - r) mod 10 = d ! 12)"

definition ird_calc :: "nat list \<Rightarrow> nat list \<Rightarrow> nat" where
  "ird_calc base w = (let r = wsum base w mod 11 in if r = 0 then 0 else 11 - r)"

text \<open>The body is padded on the left to eight digits; it never has more.\<close>

definition new_zealand_ird :: "rstr \<Rightarrow> bool" where
  "new_zealand_ird s = (let d = digits s in
     if \<not> (8 \<le> length d \<and> length d \<le> 9) then False
     else
       let check = last d;
           body = take (length d - 1) d;
           base = replicate (8 - length body) 0 @ body in
       if length base \<noteq> 8 then False
       else
         let cd = ird_calc base [3, 2, 7, 6, 5, 4, 3, 2] in
         if cd = 10 then
           let cd2 = ird_calc base [7, 4, 3, 2, 5, 2, 7, 6]
           in if cd2 = 10 then False else cd2 = check
         else cd = check)"

definition cnpj_dv :: "nat list \<Rightarrow> nat list \<Rightarrow> nat" where
  "cnpj_dv slice w = (let r = wsum slice w mod 11 in if r < 2 then 0 else 11 - r)"

definition brazil_cnpj :: "rstr \<Rightarrow> bool" where
  "brazil_cnpj s = (let d = digits s in
     if length d \<noteq> 14 then False
     else cnpj_dv (take 12 d) [5, 4, 3, 2, 9, 8, 7, 6, 5, 4, 3, 2] = d ! 12
        \<and> cnpj_dv (take 13 d) [6, 5, 4, 3, 2, 9, 8, 7, 6, 5, 4, 3, 2] = d ! 13)"

definition chile_rut :: "rstr \<Rightarrow> bool" where
  "chile_rut s = (let c = alnum_upper s in
     if length c < 2 then False
     else
       let body = take (length c - 1) c; check = drop (length c - 1) c in
       if \<not> list_all is_ascii_digit body then False
       else
         let tot = sum_list (map (\<lambda>(i, b). (b - 48) * (2 + i mod 6)) (enumerate 0 (rev body)));
             r = 11 - tot mod 11;
             expect = (if r = 11 then 48 else if r = 10 then 75 else 48 + r)
         in expect = check ! 0)"

definition argentina_cuit :: "rstr \<Rightarrow> bool" where
  "argentina_cuit s = (let d = digits s in
     if length d \<noteq> 11 then False
     else
       let r = wsum (take 10 d) [5, 4, 3, 2, 7, 6, 5, 4, 3, 2] mod 11;
           check = (if 11 - r = 11 then 0 else if 11 - r = 10 then 9 else 11 - r)
       in check = d ! 10)"

definition colombia_nit :: "rstr \<Rightarrow> bool" where
  "colombia_nit s = (let d = digits s in
     if \<not> (7 \<le> length d \<and> length d \<le> 16) then False
     else
       let body = take (length d - 1) d; check = drop (length d - 1) d;
           w = [3, 7, 13, 17, 19, 23, 29, 37, 41, 43, 47, 53, 59, 67, 71];
           tot = sum_list (map (\<lambda>(i, x). x * w ! i) (enumerate 0 (rev body)));
           m = tot mod 11;
           dv = (if m < 2 then m else 11 - m)
       in dv = check ! 0)"

definition uruguay_ci :: "rstr \<Rightarrow> bool" where
  "uruguay_ci s = (let d0 = digits s in
     if length d0 < 2 \<or> length d0 > 8 then False
     else
       let check = last d0; body = butlast d0;
           d = replicate (7 - length body) 0 @ body;
           tot = wsum d [2, 9, 8, 7, 6, 3, 4]
       in (10 - tot mod 10) mod 10 = check)"

definition israel_teudat_zehut :: "rstr \<Rightarrow> bool" where
  "israel_teudat_zehut s = (let d = digits s in
     if d = [] \<or> length d > 9 then False
     else luhn_slice (replicate (9 - length d) 0 @ d))"

definition uae_emirates_id :: "rstr \<Rightarrow> bool" where
  "uae_emirates_id s = (let d = digits s in
     length d = 15 \<and> d ! 0 = 7 \<and> d ! 1 = 8 \<and> d ! 2 = 4 \<and> luhn_slice d)"

definition saudi_arabia_id :: "rstr \<Rightarrow> bool" where
  "saudi_arabia_id s = (let d = digits s in
     length d = 10 \<and> (d ! 0 = 1 \<or> d ! 0 = 2) \<and> luhn_slice d)"

section \<open>Health care, finance, telecom\<close>

definition nhs_number :: "rstr \<Rightarrow> bool" where
  "nhs_number s = (let d = digits s in
     if length d \<noteq> 10 then False
     else
       let r = wsum (take 9 d) [10, 9, 8, 7, 6, 5, 4, 3, 2] mod 11; check = (11 - r) mod 11
       in check \<noteq> 10 \<and> check = d ! 9)"

definition lei :: "rstr \<Rightarrow> bool" where
  "lei s = (let c = filter is_ascii_alphanumeric s in length c = 20 \<and> alnum_mod97 c = 1)"

definition australia_ihi :: "rstr \<Rightarrow> bool" where
  "australia_ihi s = (let d = digits s in
     length d = 16 \<and> take 6 d = [8, 0, 0, 3, 6, 0] \<and> luhn_slice d)"

definition esim_eid :: "rstr \<Rightarrow> bool" where
  "esim_eid s = (let d = digits s in length d = 32 \<and> d ! 0 = 8 \<and> d ! 1 = 9 \<and> luhn_slice d)"

definition india_abha :: "rstr \<Rightarrow> bool" where
  "india_abha s = (let d = digits s in length d = 14 \<and> verhoeff_valid d)"

definition mbi_is_letter :: "nat \<Rightarrow> bool" where
  "mbi_is_letter b \<longleftrightarrow> is_ascii_uppercase b \<and> b \<notin> set (lit ''SLOIBZ'')"

definition mbi_is_alnum :: "nat \<Rightarrow> bool" where
  "mbi_is_alnum b \<longleftrightarrow> mbi_is_letter b \<or> is_ascii_digit b"

definition us_medicare_mbi :: "rstr \<Rightarrow> bool" where
  "us_medicare_mbi s = (let c = alnum_upper s in
     if length c \<noteq> 11 then False
     else (is_ascii_digit (c ! 0) \<and> c ! 0 \<noteq> 48)
        \<and> mbi_is_letter (c ! 1) \<and> mbi_is_alnum (c ! 2) \<and> is_ascii_digit (c ! 3)
        \<and> mbi_is_letter (c ! 4) \<and> mbi_is_alnum (c ! 5) \<and> is_ascii_digit (c ! 6)
        \<and> mbi_is_letter (c ! 7) \<and> mbi_is_letter (c ! 8)
        \<and> is_ascii_digit (c ! 9) \<and> is_ascii_digit (c ! 10))"

section \<open>The second European batch\<close>

definition hungary_vat :: "rstr \<Rightarrow> bool" where
  "hungary_vat s = (let d = digits s in
     length d = 8 \<and> wsum d [9, 7, 3, 1, 9, 7, 3, 1] mod 10 = 0)"

definition slovenia_vat :: "rstr \<Rightarrow> bool" where
  "slovenia_vat s = (let d = digits s in
     if length d \<noteq> 8 then False
     else
       let r = wsum (take 7 d) [8, 7, 6, 5, 4, 3, 2] mod 11; check = 11 - r
       in (if check = 11 then 0 else check) = d ! 7 \<and> check \<noteq> 10)"

definition estonia_vat :: "rstr \<Rightarrow> bool" where
  "estonia_vat s = (let d = digits s in
     length d = 9 \<and> wsum d [3, 7, 1, 3, 7, 1, 3, 7, 1] mod 10 = 0)"

definition malta_vat :: "rstr \<Rightarrow> bool" where
  "malta_vat s = (let d = digits s in
     length d = 8 \<and> wsum d [3, 4, 6, 7, 8, 9, 10, 1] mod 37 = 0)"

definition slovakia_vat :: "rstr \<Rightarrow> bool" where
  "slovakia_vat s = (let d = digits s in length d = 10 \<and> digits_mod d 11 = 0)"

definition latvia_vat :: "rstr \<Rightarrow> bool" where
  "latvia_vat s = (let d = digits s in
     length d = 11 \<and> d ! 0 > 3 \<and> wsum d [9, 1, 4, 8, 3, 10, 2, 5, 7, 6, 1] mod 11 = 3)"

definition lithuania_personal :: "rstr \<Rightarrow> bool" where
  "lithuania_personal s = (let d = digits s in
     length d = 11 \<and> two_pass_mod11 (take 10 d) = d ! 10)"

definition kazakhstan_iin :: "rstr \<Rightarrow> bool" where
  "kazakhstan_iin s = (let d = digits s in
     length d = 12 \<and> two_pass_mod11 (take 11 d) = d ! 11)"

definition latvia_personal :: "rstr \<Rightarrow> bool" where
  "latvia_personal s = (let d = digits s in
     if length d \<noteq> 11 then False
     else (1 + wsum (take 10 d) [10, 5, 8, 4, 2, 1, 6, 3, 7, 9]) mod 11 mod 10 = d ! 10)"

definition iran_national_id :: "rstr \<Rightarrow> bool" where
  "iran_national_id s = (let d = digits s in
     if length d \<noteq> 10 then False
     else
       let r = wsum (take 9 d) [10, 9, 8, 7, 6, 5, 4, 3, 2] mod 11;
           check = (if r < 2 then r else 11 - r)
       in check = d ! 9)"

text \<open>\<open>rem_euclid\<close> of the signed sum is HOL's \<open>mod\<close>.\<close>

definition ukraine_rnokpp :: "rstr \<Rightarrow> bool" where
  "ukraine_rnokpp s = (let d = digits s in
     if length d \<noteq> 10 then False
     else
       let t = sum_list (map (\<lambda>(x, w). int x * w) (zip (take 9 d) [-1, 5, 7, 9, 4, 6, 10, 5, 7]))
       in nat (t mod 11 mod 10) = d ! 9)"

definition kuwait_civil_id :: "rstr \<Rightarrow> bool" where
  "kuwait_civil_id s = (let d = digits s in
     if length d \<noteq> 12 \<or> \<not> (1 \<le> d ! 0 \<and> d ! 0 \<le> 3) then False
     else let r = wsum (take 11 d) [2, 1, 6, 3, 7, 9, 10, 5, 8, 4, 2] mod 11
          in 11 - r = d ! 11)"

definition ecuador_cedula :: "rstr \<Rightarrow> bool" where
  "ecuador_cedula s = (let d = digits s in
     if length d \<noteq> 10 then False
     else
       let prov = d ! 0 * 10 + d ! 1 in
       if \<not> ((1 \<le> prov \<and> prov \<le> 24) \<or> prov = 30) then False
       else
         let tot = sum_list (map (\<lambda>(i, x).
                     if i mod 2 = 0 then (let v = x * 2 in if v > 9 then v - 9 else v) else x)
                     (enumerate 0 (take 9 d)))
         in (10 - tot mod 10) mod 10 = d ! 9)"

definition dominican_cedula :: "rstr \<Rightarrow> bool" where
  "dominican_cedula s = (let d = digits s in length d = 11 \<and> luhn_slice d)"

end
