(* ===== verification/CryptoAddress.thy ===== *)
theory CryptoAddress
  imports IdsFinance "HOL-Library.Word"
begin

unbundle bit_operations_syntax

text \<open>
  The address validators of \<open>national_id.rs\<close>: Base58Check (Bitcoin, Litecoin, XRP), the
  EIP-55 capitalisation of Ethereum addresses and bech32. The hash functions are the crates
  \<open>sha2\<close> and \<open>sha3\<close>: parameters \<open>sha256\<close> and \<open>keccak256\<close> of the definitions.
\<close>

section \<open>Base58Check\<close>

text \<open>One pass of \<open>for b in bytes.iter_mut()\<close>: the little-endian bytes times 58 plus the
  carry, and what is left of the carry.\<close>

fun base58_mul :: "nat list \<Rightarrow> nat \<Rightarrow> nat list \<times> nat" where
  "base58_mul [] carry = ([], carry)"
| "base58_mul (b # bs) carry =
     (let c = carry + b * 58; (bs', carry') = base58_mul bs (c div 256)
      in (c mod 256 # bs', carry'))"

text \<open>\<open>while carry > 0\<close>: the bytes of the carry, least significant first.\<close>

fun carry_bytes :: "nat \<Rightarrow> nat list" where
  "carry_bytes carry = (if carry = 0 then [] else carry mod 256 # carry_bytes (carry div 256))"

declare carry_bytes.simps [simp del]

definition base58_push :: "nat list \<Rightarrow> nat \<Rightarrow> nat list" where
  "base58_push bytes val = (let (bs, carry) = base58_mul bytes val in bs @ carry_bytes carry)"

fun base58_decode :: "rstr \<Rightarrow> nat list \<Rightarrow> rstr \<Rightarrow> nat list option" where
  "base58_decode alphabet bytes [] = Some bytes"
| "base58_decode alphabet bytes (ch # s) =
     (case position (\<lambda>c. c = ch) alphabet of
        None \<Rightarrow> None
      | Some p \<Rightarrow> base58_decode alphabet (base58_push bytes p) s)"

definition base58check_alpha_ok :: "(nat list \<Rightarrow> nat list) \<Rightarrow> rstr \<Rightarrow> rstr \<Rightarrow> bool" where
  "base58check_alpha_ok sha256 s alphabet =
     (let zero = alphabet ! 0 in
      case base58_decode alphabet [0] s of
        None \<Rightarrow> False
      | Some bytes0 \<Rightarrow>
          let bytes = rev (bytes0 @ map (\<lambda>_. 0) (takeWhile (\<lambda>ch. ch = zero) s)) in
          if length bytes < 5 then False
          else
            let payload = take (length bytes - 4) bytes;
                checksum = drop (length bytes - 4) bytes;
                h2 = sha256 (sha256 payload)
            in take 4 h2 = checksum)"

definition BASE58_BTC :: rstr where
  "BASE58_BTC = lit ''123456789ABCDEFGHJKLMNPQRSTUVWXYZabcdefghijkmnopqrstuvwxyz''"

definition BASE58_RIPPLE :: rstr where
  "BASE58_RIPPLE = lit ''rpshnaf39wBUDNEGHJKLM4PQRST7VWXYZ2bcdeCg65jkm8oFqi1tuvAxyz''"

definition base58check_ok :: "(nat list \<Rightarrow> nat list) \<Rightarrow> rstr \<Rightarrow> bool" where
  "base58check_ok sha256 s = base58check_alpha_ok sha256 s BASE58_BTC"

definition xrp_address :: "(nat list \<Rightarrow> nat list) \<Rightarrow> rstr \<Rightarrow> bool" where
  "xrp_address sha256 s0 = (let s = trim s0 in
     25 \<le> length s \<and> length s \<le> 35 \<and> starts_with s (lit ''r'')
     \<and> base58check_alpha_ok sha256 s BASE58_RIPPLE)"

definition btc_address :: "(nat list \<Rightarrow> nat list) \<Rightarrow> rstr \<Rightarrow> bool" where
  "btc_address sha256 s0 = (let s = trim s0 in
     26 \<le> length s \<and> length s \<le> 35 \<and> (starts_with s (lit ''1'') \<or> starts_with s (lit ''3''))
     \<and> base58check_ok sha256 s)"

definition litecoin_address :: "(nat list \<Rightarrow> nat list) \<Rightarrow> rstr \<Rightarrow> bool" where
  "litecoin_address sha256 s0 = (let s = trim s0 in
     26 \<le> length s \<and> length s \<le> 35 \<and> (starts_with s (lit ''L'') \<or> starts_with s (lit ''M''))
     \<and> base58check_ok sha256 s)"

section \<open>EIP-55\<close>

definition eth_address :: "(nat list \<Rightarrow> nat list) \<Rightarrow> rstr \<Rightarrow> bool" where
  "eth_address keccak256 s =
     (let h = (case strip_prefix (lit ''0x'') s of
                 Some t \<Rightarrow> t
               | None \<Rightarrow> (case strip_prefix (lit ''0X'') s of Some t \<Rightarrow> t | None \<Rightarrow> s)) in
      if length h \<noteq> 40 \<or> \<not> list_all is_ascii_hexdigit h then False
      else
        let has_upper = list_ex is_ascii_uppercase h; has_lower = list_ex is_ascii_lowercase h in
        if \<not> (has_upper \<and> has_lower) then True
        else
          let hash = keccak256 (map to_ascii_lowercase h) in
          list_all (\<lambda>(i, ch).
            is_ascii_alphabetic ch \<longrightarrow>
              (let nibble = (if i mod 2 = 0 then hash ! (i div 2) div 16
                             else hash ! (i div 2) mod 16)
               in (nibble \<ge> 8) = is_ascii_uppercase ch)) (enumerate 0 h))"

section \<open>Bech32\<close>

type_synonym u32 = "32 word"

definition BECH32_GEN :: "u32 list" where
  "BECH32_GEN = [0x3b6a57b2, 0x26508e6d, 0x1ea119fa, 0x3d4233dd, 0x2a1462b3]"

definition bech32_gen_mix :: "u32 \<Rightarrow> u32 \<Rightarrow> u32" where
  "bech32_gen_mix topb chk =
     foldl (\<lambda>chk (i, g). if (drop_bit i topb) AND 1 = 1 then chk XOR g else chk) chk
       (enumerate 0 BECH32_GEN)"

definition bech32_step :: "u32 \<Rightarrow> nat \<Rightarrow> u32" where
  "bech32_step chk v =
     (let topb = drop_bit 25 chk; chk' = push_bit 5 (chk AND 0x1ffffff) XOR of_nat v
      in bech32_gen_mix topb chk')"

definition bech32_polymod :: "nat list \<Rightarrow> u32" where
  "bech32_polymod values = foldl bech32_step 1 values"

definition BECH32_CHARSET :: rstr where
  "BECH32_CHARSET = lit ''qpzry9x8gf2tvdw0s3jn54khce6mua7l''"

fun charset_values :: "rstr \<Rightarrow> nat list option" where
  "charset_values [] = Some []"
| "charset_values (c # cs) =
     (case position (\<lambda>x. x = c) BECH32_CHARSET of
        None \<Rightarrow> None
      | Some v \<Rightarrow> map_option (\<lambda>vs. v # vs) (charset_values cs))"

text \<open>The body of \<open>btc_bech32_address\<close> once the address is split at its last \<open>1\<close>.\<close>

definition bech32_verify :: "rstr \<Rightarrow> rstr \<Rightarrow> bool" where
  "bech32_verify hrp rest =
     (if hrp \<noteq> lit ''bc'' \<and> hrp \<noteq> lit ''tb'' then False
      else if length rest < 7 \<or> length rest > 87 then False
      else
        case charset_values rest of
          None \<Rightarrow> False
        | Some values \<Rightarrow>
            let witver = values ! 0 in
            if witver > 16 then False
            else
              let poly = map (\<lambda>b. b div 32) hrp @ [0] @ map (\<lambda>b. b mod 32) hrp @ values;
                  expected = (if witver = 0 then 1 else 0x2bc830a3)
              in bech32_polymod poly = expected)"

definition btc_bech32_address :: "rstr \<Rightarrow> bool" where
  "btc_bech32_address s0 =
     (let s = trim s0; has_upper = list_ex is_ascii_uppercase s;
          has_lower = list_ex is_ascii_lowercase s in
      if has_upper \<and> has_lower then False
      else
        let lower = map to_ascii_lowercase s in
        case rfind_byte (of_char (CHR ''1'')) lower of
          None \<Rightarrow> False
        | Some pos \<Rightarrow> bech32_verify (take pos lower) (drop (pos + 1) lower))"

section \<open>Base58 decoding is base conversion\<close>

fun le_value :: "nat list \<Rightarrow> nat" where
  "le_value [] = 0"
| "le_value (b # bs) = b + 256 * le_value bs"

definition base58_number :: "nat \<Rightarrow> nat list \<Rightarrow> nat" where
  "base58_number start vals = foldl (\<lambda>a v. a * 58 + v) start vals"

lemma le_value_append: "le_value (xs @ ys) = le_value xs + 256 ^ length xs * le_value ys"
  by (induction xs) (simp_all add: algebra_simps)

lemma le_value_carry: "le_value (carry_bytes c) = c"
proof (induction c rule: carry_bytes.induct)
  case (1 c)
  then show ?case
    by (cases "c = 0") (simp_all add: carry_bytes.simps [of c] carry_bytes.simps [of 0])
qed

lemma carry_bytes_less: "\<forall>b \<in> set (carry_bytes c). b < 256"
proof (induction c rule: carry_bytes.induct)
  case (1 c)
  then show ?case
    by (cases "c = 0") (simp_all add: carry_bytes.simps [of c] carry_bytes.simps [of 0])
qed

lemma base58_mul_value:
  "base58_mul bs c = (bs', c') \<Longrightarrow>
     length bs' = length bs \<and> le_value bs' + 256 ^ length bs * c' = le_value bs * 58 + c
     \<and> (\<forall>b \<in> set bs'. b < 256)"
proof (induction bs arbitrary: c bs' c')
  case Nil
  then show ?case by simp
next
  case (Cons b bs)
  let ?t = "c + b * 58"
  obtain bs1 c1 where rec: "base58_mul bs (?t div 256) = (bs1, c1)" by fastforce
  with Cons.prems have out: "bs' = ?t mod 256 # bs1" "c' = c1" by (simp_all add: Let_def)
  from Cons.IH [OF rec] have ih: "length bs1 = length bs"
    "le_value bs1 + 256 ^ length bs * c1 = le_value bs * 58 + ?t div 256"
    "\<forall>b \<in> set bs1. b < 256" by auto
  have "le_value bs' + 256 ^ length (b # bs) * c'
      = ?t mod 256 + 256 * (le_value bs1 + 256 ^ length bs * c1)"
    by (simp add: out algebra_simps)
  also have "\<dots> = 256 * (le_value bs * 58) + ?t"
    unfolding ih(2) by (simp add: algebra_simps)
  finally show ?case using ih out by (simp add: algebra_simps)
qed

lemma base58_push_value:
  "le_value (base58_push bytes v) = le_value bytes * 58 + v \<and> (\<forall>b \<in> set (base58_push bytes v). b < 256)"
proof -
  obtain bs c where m: "base58_mul bytes v = (bs, c)" by fastforce
  from base58_mul_value [OF m] carry_bytes_less [of c] show ?thesis
    by (auto simp: base58_push_def m le_value_append le_value_carry)
qed

lemma base58_decode_value:
  "base58_decode alphabet bytes s = Some out \<Longrightarrow> \<forall>b \<in> set bytes. b < 256 \<Longrightarrow>
     (\<forall>b \<in> set out. b < 256) \<and>
     le_value out
       = base58_number (le_value bytes) (map (\<lambda>ch. the (position (\<lambda>c. c = ch) alphabet)) s)"
proof (induction alphabet bytes s rule: base58_decode.induct)
  case (1 alphabet bytes)
  then show ?case by (simp add: base58_number_def)
next
  case (2 alphabet bytes ch s)
  then show ?case
    using base58_push_value by (auto split: option.splits simp: base58_number_def)
qed

section \<open>Bech32 detects every wrong character\<close>

text \<open>The generator is linear: what the five top bits mix in does not depend on the rest.\<close>

lemma gen_mix_xor: "bech32_gen_mix topb chk = chk XOR bech32_gen_mix topb 0"
  by (simp add: bech32_gen_mix_def BECH32_GEN_def ac_simps)

text \<open>The low five bits of the mixed-in words tell the 32 values of the top bits apart, and
  no generator reaches beyond bit 29.\<close>

lemma upt_32: "[0..<32] = [0, 1, 2, 3, 4, 5, 6, 7, 8, 9, 10, 11, 12, 13, 14, 15, 16, 17, 18, 19,
    20, 21, 22, 23, 24, 25, 26, 27, 28, 29, 30, 31]"
  by (simp add: upt_rec)

lemma gen_mix_table:
  "distinct (map (\<lambda>i. take_bit 5 (bech32_gen_mix (of_nat i) 0)) [0..<32])"
  "list_all (\<lambda>i. take_bit 30 (bech32_gen_mix (of_nat i) 0) = bech32_gen_mix (of_nat i) 0) [0..<32]"
  by (simp_all add: upt_32 bech32_gen_mix_def BECH32_GEN_def take_bit_word_eq_self)

lemma word_as_index: "x < (32 :: u32) \<Longrightarrow> \<exists>i < 32. x = of_nat i"
  by (intro exI [of _ "unat x"]) (simp add: word_less_nat_alt)

lemma gen_mix_inj:
  assumes "x < 32" "y < 32" "take_bit 5 (bech32_gen_mix x 0) = take_bit 5 (bech32_gen_mix y 0)"
  shows "x = y"
proof -
  obtain i j where ij: "i < 32" "j < 32" "x = of_nat i" "y = of_nat j"
    using assms(1,2) word_as_index by blast
  then have "i = j"
    using assms(3) distinct_map_inj [OF gen_mix_table(1), of i j] by simp
  with ij show ?thesis by simp
qed

lemma gen_mix_bits:
  assumes "x < 32"
  shows "take_bit 30 (bech32_gen_mix x 0) = bech32_gen_mix x 0"
proof -
  obtain i where "i < 32" "x = of_nat i" using assms word_as_index by blast
  then show ?thesis using gen_mix_table(2) unfolding list_all_upt by simp
qed

lemma top_bits_less:
  assumes "take_bit 30 s = (s :: u32)"
  shows "drop_bit 25 s < 32"
proof -
  have "drop_bit 25 s = drop_bit 25 (take_bit 30 s)" using assms by simp
  also have "\<dots> = take_bit 5 (drop_bit 25 s)" by (simp add: drop_bit_take_bit)
  finally have "unat (drop_bit 25 s) = take_bit 5 (unat (drop_bit 25 s))"
    by (metis unsigned_take_bit_eq)
  then have "unat (drop_bit 25 s) < 2 ^ 5" by (metis take_bit_nat_less_exp)
  then show ?thesis by (simp add: word_less_nat_alt)
qed

lemma low_bits: "(s :: u32) AND 0x1ffffff = take_bit 25 s"
  by (simp add: take_bit_eq_mask mask_eq_exp_minus_1)

lemma bech32_step_xor:
  "bech32_step s d = (push_bit 5 (take_bit 25 s) XOR of_nat d) XOR bech32_gen_mix (drop_bit 25 s) 0"
  unfolding bech32_step_def Let_def low_bits by (rule gen_mix_xor)

lemma symbol_bits: "d < 32 \<Longrightarrow> take_bit 5 (of_nat d :: u32) = of_nat d"
  by (simp add: take_bit_of_nat take_bit_nat_eq_self)


lemma push_low: "push_bit 5 (take_bit 25 (s :: u32)) = take_bit 30 (push_bit 5 s)"
  by (simp add: take_bit_push_bit)

lemma of_nat_symbol_inj:
  assumes "d < 32" "e < 32" "of_nat d = (of_nat e :: u32)"
  shows "d = e"
proof -
  from assms(1,2) have "take_bit 32 d = d" "take_bit 32 e = e" by (simp_all add: take_bit_nat_eq_self)
  with assms(3) show ?thesis by (simp add: word_of_nat_eq_iff)
qed

lemma push_bit_low_inj:
  assumes "push_bit 5 (take_bit 25 (s :: u32)) = push_bit 5 (take_bit 25 t)"
  shows "take_bit 25 s = take_bit 25 t"
proof (rule bit_eqI)
  fix n
  show "bit (take_bit 25 s) n \<longleftrightarrow> bit (take_bit 25 t) n"
  proof (cases "n < 25")
    case True
    have "bit (push_bit 5 (take_bit 25 s)) (n + 5) \<longleftrightarrow> bit (push_bit 5 (take_bit 25 t)) (n + 5)"
      unfolding assms ..
    with True show ?thesis by (simp add: bit_push_bit_iff)
  next
    case False
    then show ?thesis by (simp add: bit_take_bit_iff)
  qed
qed

lemma xor_cancel: "(a XOR c = b XOR c) = (a = (b :: u32))" "(c XOR a = c XOR b) = (a = b)"
proof -
  have *: "a = b" if "a XOR c = b XOR c" for a b :: u32
    using arg_cong [OF that, of "\<lambda>x. x XOR c"] by (simp add: xor.assoc)
  then show "(a XOR c = b XOR c) = (a = b)" by blast
  from * show "(c XOR a = c XOR b) = (a = b)" unfolding xor.commute [of c] by blast
qed

lemma low_five: "take_bit 5 (push_bit 5 a XOR b :: u32) = take_bit 5 b"
  by (simp add: take_bit_xor take_bit_push_bit)

interpretation bech32_auto: digit_automaton "\<lambda>_. bech32_step" "{s. take_bit 30 s = s}" 32
  "\<lambda>_ _. True"
proof unfold_locales
  fix s t :: u32 and d e :: nat
  show "bech32_step s d \<in> {s. take_bit 30 s = s}" if "s \<in> {s. take_bit 30 s = s}" "d < 32"
  proof -
    have "take_bit 30 (of_nat d :: u32) = of_nat d"
      using that(2) by (simp add: take_bit_of_nat take_bit_nat_eq_self)
    with that(1) show ?thesis
      by (simp add: bech32_step_xor push_low gen_mix_bits top_bits_less)
  qed
  show "d = e" if "d < 32" "e < 32" "bech32_step s d = bech32_step s e"
    using that by (auto simp: bech32_step_xor xor_cancel intro: of_nat_symbol_inj)
  show "s = t" if st: "s \<in> {s. take_bit 30 s = s}" "t \<in> {s. take_bit 30 s = s}" "d < 32"
    and eq: "bech32_step s d = bech32_step t d"
  proof -
    let ?G = "\<lambda>s. bech32_gen_mix (drop_bit 25 s) 0"
    from eq have eq': "push_bit 5 (take_bit 25 s) XOR ?G s = push_bit 5 (take_bit 25 t) XOR ?G t"
      unfolding bech32_step_xor xor.assoc xor.commute [of "of_nat d"]
      unfolding xor.assoc [symmetric] xor_cancel .
    then have "take_bit 5 (?G s) = take_bit 5 (?G t)"
      by (metis (no_types) low_five xor.commute)
    with st have top: "drop_bit 25 s = drop_bit 25 t" by (simp add: gen_mix_inj top_bits_less)
    with eq' have "push_bit 5 (take_bit 25 s) = push_bit 5 (take_bit 25 t)"
      by (simp add: xor_cancel)
    then have "take_bit 25 s = take_bit 25 t" by (rule push_bit_low_inj)
    with top show ?thesis by (metis bits_ident)
  qed
qed


text \<open>From the checksum to the address: the character table is injective, and an address
  whose symbols are all in the table is split at the separator behind the prefix.\<close>

lemma charset_distinct: "distinct BECH32_CHARSET" "length BECH32_CHARSET = 32"
  "list_all (\<lambda>c. is_ascii_lowercase c \<or> is_ascii_digit c \<and> c \<noteq> 49) BECH32_CHARSET"
  by (simp_all add: BECH32_CHARSET_def lit_def is_ascii_lowercase_def is_ascii_digit_def)

lemma charset_value_less: "position (\<lambda>x. x = c) BECH32_CHARSET = Some v \<Longrightarrow> v < 32"
  using position_SomeD [of "\<lambda>x. x = c" BECH32_CHARSET v] charset_distinct(2) by simp

lemma charset_value_inj:
  "position (\<lambda>x. x = c) BECH32_CHARSET = Some v \<Longrightarrow>
   position (\<lambda>x. x = c') BECH32_CHARSET = Some v \<Longrightarrow> c = c'"
  using position_SomeD [of "\<lambda>x. x = c" BECH32_CHARSET v]
    position_SomeD [of "\<lambda>x. x = c'" BECH32_CHARSET v] by simp

lemma charset_values_append:
  "charset_values (xs @ ys) = (case charset_values xs of None \<Rightarrow> None
     | Some us \<Rightarrow> (case charset_values ys of None \<Rightarrow> None | Some vs \<Rightarrow> Some (us @ vs)))"
  by (induction xs) (simp_all split: option.split del: position_None)

lemma charset_values_less:
  "charset_values xs = Some vs \<Longrightarrow> length vs = length xs \<and> (\<forall>v \<in> set vs. v < 32)"
  by (induction xs arbitrary: vs) (auto split: option.splits dest: charset_value_less)

definition hrp_values :: "rstr \<Rightarrow> nat list" where
  "hrp_values hrp = map (\<lambda>b. b div 32) hrp @ [0] @ map (\<lambda>b. b mod 32) hrp"

lemma hrp_values_less:
  "hrp = lit ''bc'' \<or> hrp = lit ''tb'' \<Longrightarrow> \<forall>v \<in> set (hrp_values hrp). v < 32"
  by (auto simp: hrp_values_def lit_def)

lemma bech32_verifyD:
  assumes "bech32_verify hrp (xs @ a # ys)" "xs \<noteq> []"
  shows "\<exists>us v ws. charset_values xs = Some us \<and> position (\<lambda>x. x = a) BECH32_CHARSET = Some v \<and>
    charset_values ys = Some ws \<and> (hrp = lit ''bc'' \<or> hrp = lit ''tb'') \<and>
    bech32_polymod ((hrp_values hrp @ us) @ v # ws) = (if us ! 0 = 0 then 1 else 0x2bc830a3)"
proof -
  obtain us where us: "charset_values xs = Some us"
    using assms(1) by (auto simp: bech32_verify_def charset_values_append split: if_splits option.splits)
  with assms(2) have "us \<noteq> []" using charset_values_less by fastforce
  with us assms(1) show ?thesis
    by (auto simp: bech32_verify_def charset_values_append hrp_values_def Let_def nth_append
        split: if_splits option.splits)
qed

lemma bech32_verify_substitution:
  assumes a: "bech32_verify hrp (xs @ a # ys)" and b: "bech32_verify hrp (xs @ b # ys)"
    and "xs \<noteq> []"
  shows "a = b"
proof -
  from bech32_verifyD [OF a assms(3)] obtain us v ws where 1:
    "charset_values xs = Some us" "position (\<lambda>x. x = a) BECH32_CHARSET = Some v"
    "charset_values ys = Some ws" "hrp = lit ''bc'' \<or> hrp = lit ''tb''"
    "bech32_polymod ((hrp_values hrp @ us) @ v # ws) = (if us ! 0 = 0 then 1 else 0x2bc830a3)"
    by blast
  from bech32_verifyD [OF b assms(3)] 1 obtain v' where 2:
    "position (\<lambda>x. x = b) BECH32_CHARSET = Some v'"
    "bech32_polymod ((hrp_values hrp @ us) @ v' # ws) = (if us ! 0 = 0 then 1 else 0x2bc830a3)"
    by auto
  have "v = v'"
  proof (rule bech32_auto.single_error)
    show "(1 :: u32) \<in> {s. take_bit 30 s = s}" by simp
    show "\<forall>d \<in> set (hrp_values hrp @ us) \<union> set ws. d < 32"
      using 1 hrp_values_less charset_values_less by auto
    show "v < 32" "v' < 32" using 1(2) 2(1) charset_value_less by blast+
    show "run_from (\<lambda>_. bech32_step) 0 1 ((hrp_values hrp @ us) @ v # ws)
      = run_from (\<lambda>_. bech32_step) 0 1 ((hrp_values hrp @ us) @ v' # ws)"
      unfolding run_from_foldl using 1(5) 2(2) unfolding bech32_polymod_def by simp
  qed simp
  with 1(2) 2(1) show ?thesis by (auto intro: charset_value_inj)
qed

lemma dropWhile_none: "\<forall>x \<in> set xs. \<not> P x \<Longrightarrow> dropWhile P xs = xs"
  by (cases xs) auto

lemma bech32_plain_trim:
  assumes "\<forall>c \<in> set s. is_ascii_lowercase c \<or> is_ascii_digit c"
  shows "trim s = s" "map to_ascii_lowercase s = s" "\<not> list_ex is_ascii_uppercase s"
proof -
  have "c < 128 \<and> \<not> is_whitespace c" if "is_ascii_lowercase c \<or> is_ascii_digit c" for c
    using that unfolding is_ascii_lowercase_def is_ascii_digit_def is_whitespace_def by linarith
  with assms have b: "\<forall>c \<in> set s. c < 128 \<and> \<not> is_whitespace c" by blast
  then have a: "is_ascii s" by (simp add: is_ascii_def)
  from b have "dropWhile is_whitespace s = s" "dropWhile is_whitespace (rev s) = rev s"
    by (simp_all add: dropWhile_none)
  with a show "trim s = s" by (simp add: trim_def utf8_ascii)
  show "map to_ascii_lowercase s = s" "\<not> list_ex is_ascii_uppercase s"
    using assms by (auto simp: map_idI to_ascii_lowercase_def list_ex_iff is_ascii_uppercase_def
        is_ascii_lowercase_def is_ascii_digit_def intro!: map_idI)
qed

lemma btc_bech32_split:
  assumes "hrp = lit ''bc'' \<or> hrp = lit ''tb''" "set rest \<subseteq> set BECH32_CHARSET"
  shows "btc_bech32_address (hrp @ 49 # rest) = bech32_verify hrp rest"
proof -
  let ?s = "hrp @ 49 # rest"
  have r: "\<forall>c \<in> set rest. (is_ascii_lowercase c \<or> is_ascii_digit c) \<and> c \<noteq> 49"
    using assms(2) charset_distinct(3) by (fastforce simp: list_all_iff is_ascii_lowercase_def)
  then have p: "\<forall>c \<in> set ?s. is_ascii_lowercase c \<or> is_ascii_digit c"
    using assms(1) by (auto simp: lit_def is_ascii_lowercase_def is_ascii_digit_def)
  have "position (\<lambda>x. x = 49) (rev ?s) = Some (length rest)"
    using r position_append [of "rev rest" "\<lambda>x. x = 49" 49 "rev hrp"] by simp
  then have "rfind_byte (of_char (CHR ''1'')) ?s = Some (length hrp)" by (simp add: rfind_byte_def)
  with bech32_plain_trim [OF p] show ?thesis by (simp add: btc_bech32_address_def)
qed

end
