(* ===== verification/IdDetection.thy ===== *)
theory IdDetection
  imports IdsWorld CryptoAddress
begin

text \<open>
  What the checksums of \<open>national_id.rs\<close> guarantee: which validators reject every number
  that differs from a valid one in a single digit, each by an interpretation of
  \<open>weighted_check\<close> on the weights its code uses, by \<open>long_remainder\<close>, or by the automata of
  Luhn, Verhoeff and ISO 7064; and the schemes whose check digit is folded and which
  therefore cannot.
\<close>

section \<open>Check digits as a weight of their own\<close>

lemma check_digit_complement:
  fixes t c m :: nat
  assumes "(m - t mod m) mod m = c" "0 < m"
  shows "(t + c) mod m = 0"
proof -
  have "(t mod m + (m - t mod m)) mod m = 0" using assms(2) by simp
  then have "(t + (m - t mod m)) mod m = 0" by (metis mod_add_left_eq)
  then show ?thesis unfolding assms(1) [symmetric] by (metis mod_add_right_eq)
qed

lemma check_digit_remainder: "t mod 11 = c \<Longrightarrow> (t + c * 10) mod 11 = (0::nat)"
proof -
  assume "t mod 11 = c"
  then have "(t + c * 10) mod 11 = (t mod 11 + t mod 11 * 10) mod 11"
    by (metis mod_add_left_eq)
  also have "t mod 11 + t mod 11 * 10 = t mod 11 * 11" by simp
  finally show ?thesis by simp
qed

lemma wsum_check_last:
  assumes "length d = Suc n" "length w = n"
  shows "wsum (take n d) w + d ! n * k = wsum d (w @ [k])"
proof -
  have "d = take n d @ [d ! n]"
    using assms(1) by (metis lessI take_Suc_conv_app_nth take_all_iff order_refl)
  moreover have "length (take n d) = length w" using assms by simp
  ultimately show ?thesis using wsum_append [of "take n d" w "[d ! n]" "[k]"] by simp
qed

section \<open>The weight vectors of the code\<close>

interpretation aba: weighted_check "[3, 7, 1, 3, 7, 1, 3, 7, 1]" 10 0
  by unfold_locales simp

interpretation tfn: weighted_check "[1, 4, 3, 7, 5, 8, 6, 9, 10]" 11 0
  by unfold_locales simp

interpretation cvr: weighted_check "[2, 7, 6, 5, 4, 3, 2, 1]" 11 0
  by unfold_locales simp

interpretation cpr: weighted_check "[4, 3, 2, 7, 6, 5, 4, 3, 2, 1]" 11 0
  by unfold_locales simp

interpretation hungary: weighted_check "[9, 7, 3, 1, 9, 7, 3, 1]" 10 0
  by unfold_locales simp

interpretation malta: weighted_check "[3, 4, 6, 7, 8, 9, 10, 1]" 37 0
  by unfold_locales simp

interpretation latvia: weighted_check "[9, 1, 4, 8, 3, 10, 2, 5, 7, 6, 1]" 11 3
  by unfold_locales simp

interpretation pesel: weighted_check "[1, 3, 7, 9, 1, 3, 7, 9, 1, 3] @ [1]" 10 0
  by unfold_locales simp

interpretation nip: weighted_check "[6, 5, 7, 2, 3, 4, 5, 6, 7] @ [10]" 11 0
  by unfold_locales simp

interpretation slovenia: weighted_check "[8, 7, 6, 5, 4, 3, 2] @ [1]" 11 0
  by unfold_locales simp

interpretation finland: weighted_check "[7, 9, 10, 5, 8, 4, 2] @ [1]" 11 0
  by unfold_locales simp

interpretation nhs: weighted_check "[10, 9, 8, 7, 6, 5, 4, 3, 2] @ [1]" 11 0
  by unfold_locales simp

interpretation norway: weighted_check "[5, 4, 3, 2, 7, 6, 5, 4, 3, 2] @ [1]" 11 0
  by unfold_locales simp

interpretation kuwait: weighted_check "[2, 1, 6, 3, 7, 9, 10, 5, 8, 4, 2] @ [1]" 11 0
  by unfold_locales simp

interpretation utr: weighted_check "1 # [6, 7, 8, 9, 10, 5, 4, 3, 2]" 11 0
  by unfold_locales simp

interpretation svnr: weighted_check "[3, 7, 9, 10, 5, 8, 4, 2, 1, 6]" 11 0
  by unfold_locales simp

interpretation ahv: weighted_check "[1, 3, 1, 3, 1, 3, 1, 3, 1, 3, 1, 3, 1]" 10 0
  by unfold_locales simp

lemmas direct_weight_defs =
  us_aba_routing_def australia_tfn_def denmark_cvr_def denmark_cpr_def hungary_vat_def
  estonia_vat_def malta_vat_def latvia_vat_def

lemma detects_direct:
  "detects_digit_error us_aba_routing" "detects_digit_error australia_tfn"
  "detects_digit_error denmark_cvr" "detects_digit_error denmark_cpr"
  "detects_digit_error hungary_vat" "detects_digit_error estonia_vat"
  "detects_digit_error malta_vat" "detects_digit_error latvia_vat"
  by (rule aba.detects_weighted tfn.detects_weighted cvr.detects_weighted cpr.detects_weighted
      hungary.detects_weighted malta.detects_weighted latvia.detects_weighted,
      auto simp: direct_weight_defs Let_def split: if_splits)+


text \<open>Every scheme with its check digit at the end: complement to the modulus
  (\<open>last_complement\<close>) or the remainder itself (\<open>last_remainder\<close>).\<close>

lemma last_complement:
  assumes "length d = Suc n" "length w = n" "(m - wsum (take n d) w mod m) mod m = d ! n" "0 < m"
  shows "length d = length (w @ [1]) \<and> wsum d (w @ [1]) mod m = 0"
  using assms(1,2) check_digit_complement [OF assms(3,4)] wsum_check_last [OF assms(1,2), of 1]
  by simp

lemma last_remainder:
  assumes "length d = Suc n" "length w = n" "wsum (take n d) w mod 11 = d ! n"
  shows "length d = length (w @ [10]) \<and> wsum d (w @ [10]) mod 11 = 0"
  using assms(1,2) check_digit_remainder [OF assms(3)] wsum_check_last [OF assms(1,2), of 10]
  by simp

lemma digits_nth_less: "i < length (digits s) \<Longrightarrow> digits s ! i < 10"
  using all_digits_digits [of s] unfolding all_digits_def by simp

lemma digits_nth_mod: "i < length (digits s) \<Longrightarrow> digits s ! i mod 11 = digits s ! i"
  using digits_nth_less [of i s] by simp

lemma detects_last:
  "detects_digit_error poland_pesel" "detects_digit_error poland_nip"
  "detects_digit_error nhs_number" "detects_digit_error norway_fodselsnummer"
  "detects_digit_error slovenia_vat" "detects_digit_error finland_vat"
  "detects_digit_error kuwait_civil_id"
proof -
  note [simp] = Let_def digits_nth_mod and [split] = if_splits
  show "detects_digit_error poland_pesel"
    by (rule pesel.detects_weighted, rule last_complement [where n = 10])
      (simp_all add: poland_pesel_def)
  show "detects_digit_error poland_nip"
    by (rule nip.detects_weighted, rule last_remainder [where n = 9])
      (simp_all add: poland_nip_def)
  show "detects_digit_error nhs_number"
    by (rule nhs.detects_weighted, rule last_complement [where n = 9])
      (simp_all add: nhs_number_def)
  show "detects_digit_error norway_fodselsnummer"
    by (rule norway.detects_weighted, rule last_complement [where n = 10])
      (simp_all add: norway_fodselsnummer_def)
  show "detects_digit_error slovenia_vat"
    by (rule slovenia.detects_weighted, rule last_complement [where n = 7])
      (auto simp: slovenia_vat_def)
  show "detects_digit_error finland_vat"
    by (rule finland.detects_weighted, rule last_complement [where n = 7])
      (auto simp: finland_vat_def)
  show "detects_digit_error kuwait_civil_id"
    by (rule kuwait.detects_weighted, rule last_complement [where n = 11])
      (auto simp: kuwait_civil_id_def)
qed

text \<open>Check digits in front, in the middle, and the alternating weights of EAN-13.\<close>

lemma detects_utr: "detects_digit_error uk_utr"
proof (rule utr.detects_weighted)
  fix s assume a: "uk_utr s"
  let ?d = "digits s" and ?w = "[6, 7, 8, 9, 10, 5, 4, 3, 2]"
  from a have len: "length ?d = 10" and c: "(11 - wsum (drop 1 ?d) ?w mod 11) mod 11 = ?d ! 0"
    by (auto simp: uk_utr_def Let_def split: if_splits)
  have "(wsum (drop 1 ?d) ?w + ?d ! 0) mod 11 = 0" by (rule check_digit_complement [OF c]) simp
  moreover have "wsum ?d (1 # ?w) = ?d ! 0 + wsum (drop 1 ?d) ?w"
    using len by (cases ?d) auto
  ultimately show "length ?d = length (1 # ?w) \<and> wsum ?d (1 # ?w) mod 11 = 0"
    using len by (simp add: add.commute)
qed

lemma sum_enumerate_wsum:
  "sum_list (map (\<lambda>(i, x). x * f i) (enumerate k d)) = wsum d (map f [k..<k + length d])"
proof (induction d arbitrary: k)
  case Nil
  then show ?case by simp
next
  case (Cons x d)
  have "[k..<k + length (x # d)] = k # [Suc k..<Suc k + length d]"
    using upt_conv_Cons [of k "k + length (x # d)"] by (simp del: upt_Suc)
  then show ?case using Cons [of "Suc k"] by (simp del: upt_Suc)
qed

lemma detects_svnr: "detects_digit_error austria_svnr"
proof (rule svnr.detects_weighted)
  fix s assume a: "austria_svnr s"
  let ?d = "digits s" and ?w = "[3, 7, 9, 0, 5, 8, 4, 2, 1, 6]"
  from a have len: "length ?d = 10" and c: "wsum ?d ?w mod 11 = ?d ! 3"
    by (auto simp: austria_svnr_def Let_def split: if_splits)
  have "wsum ?d [3, 7, 9, 10, 5, 8, 4, 2, 1, 6] = wsum ?d ?w + ?d ! 3 * 10"
  proof -
    have d: "?d = take 3 ?d @ ?d ! 3 # drop 4 ?d" 
      using id_take_nth_drop [of 3 ?d] len by simp
    have "wsum ?d ([3, 7, 9] @ x # [5, 8, 4, 2, 1, 6])
        = wsum (take 3 ?d) [3, 7, 9] + (?d ! 3 * x + wsum (drop 4 ?d) [5, 8, 4, 2, 1, 6])" for x
      using len by (subst d, subst wsum_append) simp_all
    from this [of 10] this [of 0] show ?thesis by simp
  qed
  with check_digit_remainder [OF c]
  show "length ?d = length [3, 7, 9, 10, 5, 8, 4, 2, 1, 6] \<and>
      wsum ?d [3, 7, 9, 10, 5, 8, 4, 2, 1, 6] mod 11 = 0"
    using len by simp
qed

lemma detects_ahv: "detects_digit_error switzerland_ahv"
proof (rule ahv.detects_weighted)
  fix s assume a: "switzerland_ahv s"
  let ?d = "digits s" and ?w = "[1, 3, 1, 3, 1, 3, 1, 3, 1, 3, 1, 3]"
  let ?t = "sum_list (map (\<lambda>(i, x). x * (if i mod 2 = 0 then 1 else 3)) (enumerate 0 (take 12 ?d)))"
  from a have len: "length ?d = Suc 12" and c: "(10 - ?t mod 10) mod 10 = ?d ! 12"
    by (auto simp: switzerland_ahv_def Let_def split: if_splits)
  have "?t = wsum (take 12 ?d) ?w"
    using len by (simp add: sum_enumerate_wsum upt_rec)
  with c have "(10 - wsum (take 12 ?d) ?w mod 10) mod 10 = ?d ! 12" by simp
  from last_complement [OF len _ this]
  show "length ?d = length [1, 3, 1, 3, 1, 3, 1, 3, 1, 3, 1, 3, 1] \<and>
      wsum ?d [1, 3, 1, 3, 1, 3, 1, 3, 1, 3, 1, 3, 1] mod 10 = 0"
    by simp
qed

section \<open>ISO 7064 and remainders of the whole number\<close>

lemma detects_iso7064:
  "detects_digit_error germany_tax_id" "detects_digit_error germany_vat"
  "detects_digit_error croatia_oib"
proof -
  note [simp] = Let_def iso7064_mod11_10_def and [split] = if_splits
  show "detects_digit_error germany_tax_id"
    by (rule detects_by_digits [OF _ separates_iso7064 [of 10]]) (simp add: germany_tax_id_def)
  show "detects_digit_error germany_vat"
    by (rule detects_by_digits [OF _ separates_iso7064 [of 8]]) (simp add: germany_vat_def)
  show "detects_digit_error croatia_oib"
    by (rule detects_by_digits [OF _ separates_iso7064 [of 10]]) (simp add: croatia_oib_def)
qed

lemma separates_mod11: "separates (\<lambda>d. digits_mod d 11 = k)"
  unfolding separates_def using mod11.digits_mod_single_error by metis

lemma detects_mod11: "detects_digit_error czech_rodne_cislo" "detects_digit_error slovakia_vat"
  by (rule detects_by_digits [OF _ separates_mod11 [of 0]];
      simp add: czech_rodne_cislo_def slovakia_vat_def Let_def)+

text \<open>Two check digits that spell a function of the remainder of the rest.\<close>

lemma separates_two_digits:
  assumes inj: "\<And>xs a b ys. all_digits xs \<Longrightarrow> all_digits ys \<Longrightarrow> a < 10 \<Longrightarrow> b < 10 \<Longrightarrow>
      f (xs @ a # ys) = f (xs @ b # ys) \<Longrightarrow> a = b"
  shows "separates (\<lambda>d. length d = n + 2 \<and> d ! n * 10 + d ! Suc n = f (take n d))"
  unfolding separates_def
proof (intro allI impI, elim conjE)
  fix xs a b ys
  assume d: "all_digits xs" "all_digits ys" "a < 10" "b < 10"
    and len: "length (xs @ a # ys) = n + 2"
    and eqa: "(xs @ a # ys) ! n * 10 + (xs @ a # ys) ! Suc n = f (take n (xs @ a # ys))"
    and eqb: "(xs @ b # ys) ! n * 10 + (xs @ b # ys) ! Suc n = f (take n (xs @ b # ys))"
  consider "length xs < n" | "length xs = n" | "length xs = Suc n"
    using len by fastforce
  then show "a = b"
  proof cases
    case 1
    then have "(xs @ c # ys) ! i = ys ! (i - Suc (length xs))" if "n \<le> i" for c i
      using that by (simp add: nth_append nth_Cons')
    with eqa eqb have "f (take n (xs @ a # ys)) = f (take n (xs @ b # ys))" by simp
    moreover have "take n (xs @ c # ys) = xs @ c # take (n - Suc (length xs)) ys" for c
      using 1 by (simp add: take_Cons')
    ultimately show ?thesis
      using inj [of xs "take (n - Suc (length xs)) ys" a b] d
      by (auto simp: all_digits_def dest: in_set_takeD)
  next
    case 2
    with eqa eqb show ?thesis by (simp add: nth_append)
  next
    case 3
    with eqa eqb show ?thesis by (simp add: nth_append)
  qed
qed

lemma detects_luxembourg: "detects_digit_error luxembourg_vat"
proof -
  have sep: "separates (\<lambda>d. length d = 6 + 2 \<and> d ! 6 * 10 + d ! Suc 6 = digits_mod (take 6 d) 89)"
    by (rule separates_two_digits) (rule mod89.digits_mod_single_error)
  show ?thesis
    by (rule detects_by_digits [OF _ sep]) (simp add: luxembourg_vat_def Let_def split: if_splits)
qed

lemma detects_belgium: "detects_digit_error belgium_vat"
proof -
  have sep: "separates (\<lambda>d. length d = 8 + 2 \<and> d ! 8 * 10 + d ! Suc 8 = 97 - digits_mod (take 8 d) 97)"
  proof (rule separates_two_digits)
    fix xs a b ys
    assume d: "all_digits xs" "all_digits ys" "a < 10" "b < 10"
      and eq: "97 - digits_mod (xs @ a # ys) 97 = 97 - digits_mod (xs @ b # ys) 97"
    have "digits_mod e 97 < 97" for e by (simp add: digits_mod_number)
    with eq have "digits_mod (xs @ a # ys) 97 = digits_mod (xs @ b # ys) 97"
      by (metis diff_diff_cancel less_imp_le)
    with d show "a = b" by (rule mod97.digits_mod_single_error)
  qed
  show ?thesis
    by (rule detects_by_digits [OF _ sep]) (simp add: belgium_vat_def Let_def split: if_splits)
qed

section \<open>Luhn and Verhoeff\<close>

lemma detects_luhn_family:
  "detects_digit_error luhn" "detects_digit_error credit_card" "detects_digit_error iccid"
  "detects_digit_error italy_vat" "detects_digit_error south_africa_id"
  "detects_digit_error greece_amka" "detects_digit_error uae_emirates_id"
  "detects_digit_error saudi_arabia_id" "detects_digit_error australia_ihi"
  "detects_digit_error esim_eid" "detects_digit_error dominican_cedula"
  by (rule detects_by_digits [OF _ separates_luhn];
      simp add: luhn_eq_slice credit_card_def iccid_def italy_vat_def south_africa_id_def
        greece_amka_def uae_emirates_id_def saudi_arabia_id_def australia_ihi_def esim_eid_def
        dominican_cedula_def Let_def split: if_splits)+

text \<open>A constant prefix or a padding that depends on the length only keeps the separation.\<close>

lemma separates_padded:
  assumes "\<And>n. all_digits (f n)"
  shows "separates (\<lambda>d. luhn_slice (f (length d) @ d))"
  unfolding separates_def
proof (intro allI impI)
  fix xs a b ys
  assume d: "all_digits xs" "all_digits ys" "a < 10" "b < 10"
    and v: "luhn_slice (f (length (xs @ a # ys)) @ xs @ a # ys)"
      "luhn_slice (f (length (xs @ b # ys)) @ xs @ b # ys)"
  let ?p = "f (length (xs @ a # ys))"
  have "luhn_slice ((?p @ xs) @ a # ys)" "luhn_slice ((?p @ xs) @ b # ys)" using v by simp_all
  moreover have "all_digits (?p @ xs)" using assms d by simp
  ultimately show "a = b" using separates_luhn d unfolding separates_def by blast
qed

lemma digits_to_digits_str: "all_digits d \<Longrightarrow> digits (to_digits_str d) = d"
  by (induction d) (simp_all add: to_digits_str_def digits_def is_ascii_digit_def)

lemma detects_npi: "detects_digit_error us_npi"
proof -
  have sep: "separates (\<lambda>d. luhn_slice ((\<lambda>_. [8, 0, 8, 4, 0]) (length d) @ d))"
    by (rule separates_padded) simp
  have d: "digits (lit ''80840'') = [8, 0, 8, 4, 0]"
    by (simp add: lit_def digits_def is_ascii_digit_def)
  show ?thesis
    by (rule detects_by_digits [OF _ sep])
      (simp add: us_npi_def luhn_eq_slice digits_to_digits_str Let_def d split: if_splits)
qed

lemma detects_israel: "detects_digit_error israel_teudat_zehut"
proof -
  have sep: "separates (\<lambda>d. luhn_slice ((\<lambda>n. replicate (9 - n) 0) (length d) @ d))"
    by (rule separates_padded) (simp add: all_digits_def)
  show ?thesis
    by (rule detects_by_digits [OF _ sep])
      (simp add: israel_teudat_zehut_def Let_def split: if_splits)
qed

lemma detects_verhoeff: "detects_digit_error aadhaar" "detects_digit_error india_abha"
  by (rule detects_by_digits [OF _ separates_verhoeff];
      simp add: aadhaar_def india_abha_def Let_def split: if_splits)+

text \<open>The suffix \<open>01\<close> of a Swedish VAT number is fixed, the Luhn digits are in front.\<close>

lemma detects_sweden_vat: "detects_digit_error sweden_vat"
proof -
  have sep: "separates (\<lambda>d. length d = 12 \<and> d ! 10 = 0 \<and> d ! 11 = 1 \<and> luhn_slice (take 10 d))"
    unfolding separates_def
  proof (intro allI impI, elim conjE)
    fix xs a b ys
    assume d: "all_digits xs" "all_digits ys" "a < 10" "b < 10"
      and len: "length (xs @ a # ys) = 12"
      and a: "(xs @ a # ys) ! 10 = 0" "(xs @ a # ys) ! 11 = 1" "luhn_slice (take 10 (xs @ a # ys))"
      and b: "(xs @ b # ys) ! 10 = 0" "(xs @ b # ys) ! 11 = 1" "luhn_slice (take 10 (xs @ b # ys))"
    consider "length xs < 10" | "length xs = 10" | "length xs = 11" using len by fastforce
    then show "a = b"
    proof cases
      case 1
      then have "take 10 (xs @ c # ys) = xs @ c # take (9 - length xs) ys" for c
        by (simp add: take_Cons')
      with a b d separates_luhn show ?thesis
        unfolding separates_def all_digits_def by (metis in_set_takeD)
    qed (use a b in \<open>simp_all add: nth_append\<close>)
  qed
  show ?thesis by (rule detects_by_digits [OF _ sep]) (simp add: sweden_vat_def Let_def)
qed

text \<open>French VAT: the key is a function of the nine digits of the SIREN behind it, and the
  SIREN itself carries a Luhn digit.\<close>

lemma detects_france_vat: "detects_digit_error france_vat"
proof -
  have sep: "separates (\<lambda>d. length d = 11 \<and>
      d ! 0 * 10 + d ! 1 = (12 + 3 * digits_mod (drop 2 d) 97) mod 97 \<and> luhn_slice (drop 2 d))"
    unfolding separates_def
  proof (intro allI impI, elim conjE)
    fix xs a b ys
    assume d: "all_digits xs" "all_digits ys" "a < 10" "b < 10"
      and a: "(xs @ a # ys) ! 0 * 10 + (xs @ a # ys) ! 1
          = (12 + 3 * digits_mod (drop 2 (xs @ a # ys)) 97) mod 97" "luhn_slice (drop 2 (xs @ a # ys))"
      and b: "(xs @ b # ys) ! 0 * 10 + (xs @ b # ys) ! 1
          = (12 + 3 * digits_mod (drop 2 (xs @ b # ys)) 97) mod 97" "luhn_slice (drop 2 (xs @ b # ys))"
    consider "length xs = 0" | "length xs = 1" | "2 \<le> length xs" by linarith
    then show "a = b"
    proof cases
      case 3
      then have "drop 2 (xs @ c # ys) = drop 2 xs @ c # ys" for c by simp
      with a b d separates_luhn show ?thesis
        unfolding separates_def all_digits_def by (metis in_set_dropD)
    qed (use a b in \<open>simp_all add: nth_append\<close>)
  qed
  show ?thesis
    by (rule detects_by_digits [OF _ sep]) (simp add: france_vat_def Let_def split: if_splits)
qed

text \<open>The Dutch number: the weight minus one is ten modulo eleven.\<close>

interpretation bsn: weighted_check "[9, 8, 7, 6, 5, 4, 3, 2, 10]" 11 0
  by unfold_locales simp

lemma bsn_sum:
  assumes "length d = 9" "sum_list (map (\<lambda>(x, wt). int x * wt) (zip d [9, 8, 7, 6, 5, 4, 3, 2, -1])) mod 11 = 0"
  shows "wsum d [9, 8, 7, 6, 5, 4, 3, 2, 10] mod 11 = 0"
proof -
  let ?s = "sum_list (map (\<lambda>(x, wt). int x * wt) (zip d [9, 8, 7, 6, 5, 4, 3, 2, -1]))"
  obtain d0 d1 d2 d3 d4 d5 d6 d7 d8 where d: "d = [d0, d1, d2, d3, d4, d5, d6, d7, d8]"
    using assms(1) by (auto simp: length_Suc_conv numeral_eq_Suc)
  have "int (wsum d [9, 8, 7, 6, 5, 4, 3, 2, 10]) = ?s + int d8 * 11" by (simp add: d)
  then have "int (wsum d [9, 8, 7, 6, 5, 4, 3, 2, 10]) mod 11 = 0" using assms(2) by simp
  then show ?thesis by (metis of_nat_0_eq_iff of_nat_numeral zmod_int)
qed

lemma detects_bsn: "detects_digit_error netherlands_bsn"
proof -
  let ?pad = "\<lambda>d. if length d = 8 then 0 # d else (d :: nat list)"
  let ?W = "\<lambda>d. length d = length [9, 8, 7, 6, 5, 4, 3, 2, 10 :: nat] \<and>
      wsum d [9, 8, 7, 6, 5, 4, 3, 2, 10] mod 11 = 0"
  have sep: "separates (\<lambda>d. ?W (?pad d))"
    unfolding separates_def
  proof (intro allI impI)
    fix xs a b ys
    assume d: "all_digits xs" "all_digits ys" "a < 10" "b < 10"
      and v: "?W (?pad (xs @ a # ys))" "?W (?pad (xs @ b # ys))"
    let ?xs = "if length (xs @ a # ys) = 8 then 0 # xs else xs"
    have p: "?pad (xs @ c # ys) = ?xs @ c # ys" for c by simp
    from v have "?W (?xs @ a # ys)" "?W (?xs @ b # ys)" unfolding p .
    moreover have "all_digits ?xs" using d by simp
    ultimately show "a = b"
      by (intro bsn.separates_weighted [unfolded separates_def, rule_format, of ?xs ys a b] d(2-4))
  qed
  show ?thesis
  proof (rule detects_by_digits [OF _ sep])
    fix s assume "netherlands_bsn s"
    then have "length (?pad (digits s)) = 9"
      "sum_list (map (\<lambda>(x, wt). int x * wt) (zip (?pad (digits s)) [9, 8, 7, 6, 5, 4, 3, 2, -1])) mod 11 = 0"
      unfolding netherlands_bsn_def Let_def by meson+
    with bsn_sum show "?W (?pad (digits s))" by simp
  qed
qed

section \<open>Adjacent transpositions\<close>

definition detects_transposition :: "(rstr \<Rightarrow> bool) \<Rightarrow> bool" where
  "detects_transposition V \<longleftrightarrow>
     (\<forall>pre c c' post. is_ascii_digit c \<longrightarrow> is_ascii_digit c' \<longrightarrow> c \<noteq> c' \<longrightarrow>
        V (pre @ c # c' # post) \<longrightarrow> \<not> V (pre @ c' # c # post))"

lemma transposition_by_verhoeff:
  assumes "\<And>s. V s \<Longrightarrow> verhoeff_valid (digits s)"
  shows "detects_transposition V"
  unfolding detects_transposition_def
proof (intro allI impI notI)
  fix pre c c' post
  assume c: "is_ascii_digit c" "is_ascii_digit c'" "c \<noteq> c'"
    and a: "V (pre @ c # c' # post)" "V (pre @ c' # c # post)"
  have "c - 48 = c' - 48"
    by (rule verhoeff_transposition [of "digits pre" "digits post"])
      (use c a [THEN assms] in \<open>simp_all add: digits_Cons is_ascii_digit_diff\<close>)
  with c show False by (auto simp: is_ascii_digit_def)
qed

end
