(* ===== verification/IdAlnum.thy ===== *)
theory IdAlnum
  imports IdsWorld
begin

text \<open>
  IBAN and LEI of \<open>national_id.rs\<close>: the running remainder over a mixed text is the
  remainder of the whole decimal expansion, and no valid number becomes another by
  replacing a digit by a digit or a letter by a letter.
\<close>

definition detects_alnum_error :: "(rstr \<Rightarrow> bool) \<Rightarrow> bool" where
  "detects_alnum_error V \<longleftrightarrow>
     (\<forall>pre c c' post.
        (is_ascii_digit c \<and> is_ascii_digit c') \<or> (is_ascii_alphabetic c \<and> is_ascii_alphabetic c') \<longrightarrow>
        to_ascii_uppercase c \<noteq> to_ascii_uppercase c' \<longrightarrow>
        V (pre @ c # post) \<longrightarrow> \<not> V (pre @ c' # post))"

text \<open>Symbols of one class: two digits, or two capitals.\<close>

definition same_class :: "nat \<Rightarrow> nat \<Rightarrow> bool" where
  "same_class b c \<longleftrightarrow>
     (is_ascii_digit b \<and> is_ascii_digit c) \<or> (is_ascii_uppercase b \<and> is_ascii_uppercase c)"

lemma coprime_97: "coprime 10 (97 :: nat)" "coprime 100 (97 :: nat)"
  by (simp_all add: coprime_iff_gcd_eq_1 gcd_non_0_nat)

lemma alnum_step_state:
  assumes "s < 97" "t < 97" "alnum_step s b = alnum_step t b"
  shows "s = t"
proof (cases "is_ascii_digit b")
  case True
  with assms(3) have "(b - 48 + s * 10) mod 97 = (b - 48 + t * 10) mod 97"
    by (simp add: alnum_step_def add.commute)
  then have "(s * 10) mod 97 = (t * 10) mod 97" by (rule add_mod_cancel)
  with assms coprime_97 show ?thesis using mult_mod_inj by blast
next
  case False
  let ?v = "to_ascii_uppercase b - 65 + 10"
  from False assms(3) have "(?v + s * 100) mod 97 = (?v + t * 100) mod 97"
    by (simp add: alnum_step_def algebra_simps)
  then have "(s * 100) mod 97 = (t * 100) mod 97" by (rule add_mod_cancel)
  with assms coprime_97 show ?thesis using mult_mod_inj by blast
qed

lemma alnum_step_symbol:
  assumes "same_class b c" "alnum_step s b = alnum_step s c"
  shows "b = c"
proof (cases "is_ascii_digit b")
  case True
  with assms have c: "is_ascii_digit c"
    by (auto simp: same_class_def is_ascii_digit_def is_ascii_uppercase_def)
  with True assms(2) have "(b - 48) mod 97 = (c - 48) mod 97"
    by (auto simp: alnum_step_def dest: add_mod_cancel)
  with True c show ?thesis by (auto simp: is_ascii_digit_def)
next
  case False
  with assms have u: "is_ascii_uppercase b" "is_ascii_uppercase c" "\<not> is_ascii_digit c"
    by (auto simp: same_class_def is_ascii_digit_def is_ascii_uppercase_def)
  then have "to_ascii_uppercase b = b" "to_ascii_uppercase c = c"
    by (auto simp: to_ascii_uppercase_def is_ascii_lowercase_def is_ascii_uppercase_def)
  with u False assms(2)
  have "(s * 100 + 10 + (b - 65)) mod 97 = (s * 100 + 10 + (c - 65)) mod 97"
    by (simp add: alnum_step_def algebra_simps)
  then have "(b - 65) mod 97 = (c - 65) mod 97" by (rule add_mod_cancel)
  with u show ?thesis by (auto simp: is_ascii_uppercase_def)
qed

interpretation alnum97: digit_automaton "\<lambda>_. alnum_step" "{..<97}" 128 same_class
proof unfold_locales
  fix s t d e :: nat
  show "alnum_step s d \<in> {..<97}" by (simp add: alnum_step_def)
  show "d = e" if "same_class d e" "alnum_step s d = alnum_step s e"
    using that by (rule alnum_step_symbol)
  show "s = t" if "s \<in> {..<97}" "t \<in> {..<97}" "alnum_step s d = alnum_step t d"
    using that alnum_step_state by simp
qed

lemma alnum_mod97_error:
  assumes "\<forall>x \<in> set xs \<union> set ys. x < 128" "a < 128" "b < 128" "same_class a b"
    "alnum_mod97 (xs @ a # ys) = alnum_mod97 (xs @ b # ys)"
  shows "a = b"
  using assms alnum97.single_error [of 0 xs ys a b 0]
  by (simp add: alnum_mod97_def run_from_foldl)

section \<open>Normalised text\<close>

lemma alnum_upper_append [simp]: "alnum_upper (s @ t) = alnum_upper s @ alnum_upper t"
  by (simp add: alnum_upper_def)

lemma alnum_upper_Cons:
  "alnum_upper (c # s) = (if is_ascii_alphanumeric c then [to_ascii_uppercase c] else []) @ alnum_upper s"
  by (simp add: alnum_upper_def)

lemma alnum_upper_bytes: "\<forall>x \<in> set (alnum_upper s). x < 128"
  by (auto simp: alnum_upper_def is_ascii_alphanumeric_def is_ascii_alphabetic_def
      is_ascii_uppercase_def is_ascii_lowercase_def is_ascii_digit_def to_ascii_uppercase_def)

lemma alnum_upper_class:
  "x \<in> set (alnum_upper s) \<Longrightarrow> is_ascii_digit x \<or> is_ascii_uppercase x"
  by (auto simp: alnum_upper_def is_ascii_alphanumeric_def is_ascii_alphabetic_def
      is_ascii_uppercase_def is_ascii_lowercase_def is_ascii_digit_def to_ascii_uppercase_def)

text \<open>On capitals and digits the IBAN loop is the LEI loop.\<close>

lemma iban_step_alnum:
  "is_ascii_digit b \<or> is_ascii_uppercase b \<Longrightarrow> iban_step r b = alnum_step r b"
  by (auto simp: iban_step_def alnum_step_def to_ascii_uppercase_def is_ascii_lowercase_def
      is_ascii_uppercase_def add.assoc)

lemma iban_fold_alnum:
  "\<forall>b \<in> set bs. is_ascii_digit b \<or> is_ascii_uppercase b \<Longrightarrow>
     foldl iban_step r bs = foldl alnum_step r bs"
  by (induction bs arbitrary: r) (simp_all add: iban_step_alnum)

definition iban_format :: "rstr \<Rightarrow> bool" where
  "iban_format c \<longleftrightarrow> 15 \<le> length c \<and> length c \<le> 34 \<and> is_ascii_alphabetic (c ! 0)
     \<and> is_ascii_alphabetic (c ! 1) \<and> is_ascii_digit (c ! 2) \<and> is_ascii_digit (c ! 3)"

lemma iban_unfold:
  "iban s \<longleftrightarrow> iban_format (alnum_upper s)
     \<and> alnum_mod97 (drop 4 (alnum_upper s) @ take 4 (alnum_upper s)) = 1"
proof -
  let ?c = "alnum_upper s"
  have "\<forall>b \<in> set (drop 4 ?c @ take 4 ?c). is_ascii_digit b \<or> is_ascii_uppercase b"
    using alnum_upper_class by (auto dest: in_set_dropD in_set_takeD)
  from iban_fold_alnum [OF this, of 0] show ?thesis
    by (auto simp: iban_def iban_format_def Let_def alnum_mod97_def not_less)
qed

lemma alnum_mod97_upper:
  "alnum_mod97 (filter is_ascii_alphanumeric s) = alnum_mod97 (alnum_upper s)"
proof -
  have "alnum_step r (to_ascii_uppercase b) = alnum_step r b" for r b
    by (auto simp: alnum_step_def to_ascii_uppercase_def is_ascii_lowercase_def is_ascii_digit_def)
  then have "foldl alnum_step r (map to_ascii_uppercase xs) = foldl alnum_step r xs" for r xs
    by (induction xs arbitrary: r) simp_all
  then show ?thesis by (simp add: alnum_mod97_def alnum_upper_def)
qed

lemma same_class_upper:
  assumes "(is_ascii_digit c \<and> is_ascii_digit c') \<or> (is_ascii_alphabetic c \<and> is_ascii_alphabetic c')"
  shows "same_class (to_ascii_uppercase c) (to_ascii_uppercase c')"
    "is_ascii_alphanumeric c" "is_ascii_alphanumeric c'"
    "to_ascii_uppercase c < 128" "to_ascii_uppercase c' < 128"
  using assms
  by (auto simp: same_class_def to_ascii_uppercase_def is_ascii_alphanumeric_def
      is_ascii_alphabetic_def is_ascii_digit_def is_ascii_uppercase_def is_ascii_lowercase_def)

text \<open>Rotating by four keeps a replaced symbol a replaced symbol.\<close>

lemma rotate_four:
  "\<exists>us vs. (\<forall>x. drop 4 (xs @ x # ys) @ take 4 (xs @ x # ys) = us @ x # vs)
     \<and> set us \<union> set vs \<subseteq> set xs \<union> set ys"
proof (cases "length xs < 4")
  case True
  let ?k = "3 - length xs"
  have "4 - length xs = Suc ?k" using True by simp
  with True show ?thesis
    by (intro exI [of _ "drop ?k ys @ xs"] exI [of _ "take ?k ys"])
      (auto dest: in_set_dropD in_set_takeD)
next
  case False
  then show ?thesis
    by (intro exI [of _ "drop 4 xs"] exI [of _ "ys @ take 4 xs"])
      (auto dest: in_set_dropD in_set_takeD)
qed

lemma detects_iban: "detects_alnum_error iban"
  unfolding detects_alnum_error_def
proof (intro allI impI notI)
  fix pre c c' post
  assume cls: "(is_ascii_digit c \<and> is_ascii_digit c') \<or> (is_ascii_alphabetic c \<and> is_ascii_alphabetic c')"
    and ne: "to_ascii_uppercase c \<noteq> to_ascii_uppercase c'"
    and v: "iban (pre @ c # post)" "iban (pre @ c' # post)"
  note C = same_class_upper [OF cls]
  let ?xs = "alnum_upper pre" and ?ys = "alnum_upper post"
  obtain us vs where r: "\<And>x. drop 4 (?xs @ x # ?ys) @ take 4 (?xs @ x # ?ys) = us @ x # vs"
    and sub: "set us \<union> set vs \<subseteq> set ?xs \<union> set ?ys" using rotate_four [of ?xs ?ys] by blast
  from v have "alnum_mod97 (us @ to_ascii_uppercase c # vs) = alnum_mod97 (us @ to_ascii_uppercase c' # vs)"
    unfolding iban_unfold alnum_upper_append alnum_upper_Cons using C(2,3)
    by (simp add: r del: drop_append take_append)
  moreover have "\<forall>x \<in> set us \<union> set vs. x < 128" using sub alnum_upper_bytes by blast
  ultimately show False using alnum_mod97_error C ne by blast
qed

lemma detects_lei: "detects_alnum_error lei"
  unfolding detects_alnum_error_def
proof (intro allI impI notI)
  fix pre c c' post
  assume cls: "(is_ascii_digit c \<and> is_ascii_digit c') \<or> (is_ascii_alphabetic c \<and> is_ascii_alphabetic c')"
    and ne: "to_ascii_uppercase c \<noteq> to_ascii_uppercase c'"
    and v: "lei (pre @ c # post)" "lei (pre @ c' # post)"
  note C = same_class_upper [OF cls]
  let ?xs = "alnum_upper pre" and ?ys = "alnum_upper post"
  from v have "alnum_mod97 (alnum_upper (pre @ c # post)) = 1"
    "alnum_mod97 (alnum_upper (pre @ c' # post)) = 1"
    unfolding lei_def Let_def alnum_mod97_upper by blast+
  then have "alnum_mod97 (?xs @ to_ascii_uppercase c # ?ys) = alnum_mod97 (?xs @ to_ascii_uppercase c' # ?ys)"
    unfolding alnum_upper_append alnum_upper_Cons using C(2,3) by simp
  moreover have "\<forall>x \<in> set ?xs \<union> set ?ys. x < 128" using alnum_upper_bytes by blast
  ultimately show False using alnum_mod97_error C ne by blast
qed

end
