(* ===== verification/IdProperties.thy ===== *)
theory IdProperties
  imports IdDetection IdAlnum
begin

text \<open>
  The properties of the identifier validators, each a few lines over the engines' lemmas.
\<close>

text \<open>Every validator whose only checksum is Luhn rejects each number that differs from a
  valid one in a single digit, in any formatting: cards, SIM and eSIM serials, the NPI with
  its constant prefix, the padded Israeli number, the VAT and national numbers on Luhn.\<close>

theorem luhn_schemes_detect_digit_error:
  "list_all detects_digit_error
     [luhn, credit_card, us_npi, iccid, esim_eid, australia_ihi, italy_vat, sweden_vat, france_vat,
      south_africa_id, greece_amka, uae_emirates_id, saudi_arabia_id, dominican_cedula,
      israel_teudat_zehut]"
  by (simp add: detects_luhn_family detects_npi detects_sweden_vat detects_france_vat
      detects_israel)

text \<open>The weighted sums the code uses modulo 10, 11 and 37 have no weight that hides a digit
  difference, wherever the check digit stands: none of these validators accepts two numbers
  that differ in one digit.\<close>

theorem weighted_schemes_detect_digit_error:
  "list_all detects_digit_error
     [us_aba_routing, australia_tfn, netherlands_bsn, poland_pesel, poland_nip, denmark_cvr,
      denmark_cpr, hungary_vat, estonia_vat, malta_vat, latvia_vat, slovenia_vat, finland_vat,
      nhs_number, norway_fodselsnummer, kuwait_civil_id, uk_utr, austria_svnr, switzerland_ahv]"
  by (simp add: detects_direct detects_last detects_bsn detects_utr detects_svnr detects_ahv)

text \<open>The same for the recursive schemes: ISO 7064 MOD 11,10, the remainders of the whole
  number modulo 11, 89 and 97, and the Verhoeff tables.\<close>

theorem recursive_schemes_detect_digit_error:
  "list_all detects_digit_error
     [germany_tax_id, germany_vat, croatia_oib, czech_rodne_cislo, slovakia_vat, luxembourg_vat,
      belgium_vat, aadhaar, india_abha]"
  by (simp add: detects_iso7064 detects_mod11 detects_luxembourg detects_belgium detects_verhoeff)

text \<open>The two Verhoeff validators also reject every swap of two neighbouring digits.\<close>

theorem verhoeff_schemes_detect_transposition:
  "list_all detects_transposition [aadhaar, india_abha]"
proof -
  have "detects_transposition aadhaar" "detects_transposition india_abha"
    by (rule transposition_by_verhoeff;
        simp add: aadhaar_def india_abha_def Let_def split: if_splits)+
  then show ?thesis by simp
qed

text \<open>\<open>verhoeff_check_digit\<close> computes the one digit that makes a payload pass
  \<open>verhoeff_valid\<close>: the generator and the checker agree for payloads of every length.\<close>

theorem verhoeff_check_digit_roundtrip:
  assumes "list_all (\<lambda>x. x < 10) payload" "c < 10"
  shows "verhoeff_valid (payload @ [c]) = (c = verhoeff_check_digit payload)"
proof -
  have "all_digits payload" using assms(1) by (simp add: all_digits_def list_all_iff)
  with assms(2) show ?thesis
    using verhoeff_check_digit_valid verhoeff_check_digit_unique by blast
qed

theorem verhoeff_check_digit_roundtrip_witness:
  "verhoeff_check_digit [2, 3, 6] = 3 \<and> verhoeff_valid [2, 3, 6, 3]"
  using verhoeff_check_digit_roundtrip [of "[2, 3, 6]" 3] by code_simp

text \<open>\<open>iban\<close> accepts exactly the texts of the IBAN form whose number - the four leading
  characters moved to the end, every letter written as its two digits - leaves the remainder 1
  modulo 97; the loop over machine integers computes that remainder of a number of up to 68
  digits.\<close>

theorem iban_iff_remainder_one:
  "iban s = (let c = alnum_upper s in
     iban_format c \<and> number (expand_bytes (drop 4 c @ take 4 c)) mod 97 = 1)"
  unfolding iban_unfold alnum_mod97_number Let_def ..

text \<open>\<open>lei\<close> accepts exactly the texts with twenty letters and digits whose decimal
  expansion leaves the remainder 1 modulo 97.\<close>

theorem lei_iff_remainder_one:
  "lei s = (let c = filter is_ascii_alphanumeric s in
     length c = 20 \<and> number (expand_bytes c) mod 97 = 1)"
  by (simp add: lei_def alnum_mod97_number Let_def)

text \<open>IBAN and LEI reject every text that differs from a valid one in one symbol, a digit
  replaced by a digit or a letter by another letter.\<close>

theorem mixed_schemes_detect_symbol_error:
  "list_all detects_alnum_error [iban, lei]"
  by (simp add: detects_iban detects_lei)

text \<open>A Bitcoin bech32 or bech32m address in which one character behind the version symbol
  is replaced is rejected.\<close>

theorem bech32_rejects_substitution:
  assumes "hrp = lit ''bc'' \<or> hrp = lit ''tb''" "xs \<noteq> []"
    and "set (xs @ a # ys) \<subseteq> set BECH32_CHARSET" "b \<in> set BECH32_CHARSET" "a \<noteq> b"
    and "btc_bech32_address (hrp @ 49 # xs @ a # ys)"
  shows "\<not> btc_bech32_address (hrp @ 49 # xs @ b # ys)"
  using assms btc_bech32_split [of hrp "xs @ a # ys"] btc_bech32_split [of hrp "xs @ b # ys"]
    bech32_verify_substitution [of hrp xs a ys b] by auto

lemma bip173_verify:
  "bech32_verify (lit ''bc'') (lit ''qw508d6qejxtdg4y5r3zarvary0c5xw7kv8f3t4'')"
  by (simp add: bech32_verify_def lit_def BECH32_CHARSET_def bech32_polymod_def bech32_step_def
      bech32_gen_mix_def BECH32_GEN_def)

theorem bech32_rejects_substitution_witness:
  "btc_bech32_address (lit ''bc'' @ 49 # lit ''qw508d6qejxtdg4y5r3zarvary0c5xw7kv8f3t'' @ 52 # [])
   \<and> \<not> btc_bech32_address (lit ''bc'' @ 49 # lit ''qw508d6qejxtdg4y5r3zarvary0c5xw7kv8f3t'' @ 53 # [])"
proof -
  let ?xs = "lit ''qw508d6qejxtdg4y5r3zarvary0c5xw7kv8f3t''"
  have chars: "set (?xs @ 52 # []) \<subseteq> set BECH32_CHARSET" "53 \<in> set BECH32_CHARSET" "?xs \<noteq> []"
    by (simp_all add: lit_def BECH32_CHARSET_def)
  have spelled: "lit ''qw508d6qejxtdg4y5r3zarvary0c5xw7kv8f3t4'' = ?xs @ 52 # []"
    by (simp add: lit_def)
  have "btc_bech32_address (lit ''bc'' @ 49 # ?xs @ 52 # [])"
    using bip173_verify [unfolded spelled] btc_bech32_split [OF _ chars(1), of "lit ''bc''"] by simp
  with chars show ?thesis
    using bech32_rejects_substitution [of "lit ''bc''" ?xs 52 "[]" 53] by simp
qed

text \<open>The in-place multiplication by 58 with its carry loop is base conversion: the bytes
  \<open>base58_decode\<close> returns are base-256 digits, least significant first, of the number the
  base-58 text denotes.\<close>

theorem base58_decode_is_base_conversion:
  assumes "base58_decode alphabet [0] s = Some out"
  shows "(\<forall>b \<in> set out. b < 256) \<and>
    le_value out = base58_number 0 (map (\<lambda>ch. the (position (\<lambda>c. c = ch) alphabet)) s)"
  using base58_decode_value [OF assms] by simp

theorem base58_decode_is_base_conversion_witness:
  "base58_decode BASE58_BTC [0] (lit ''2zU'') = Some [41, 26] \<and> le_value [41, 26] = 6697"
  using base58_decode_is_base_conversion [of BASE58_BTC "lit ''2zU''" "[41, 26]"] by code_simp

section \<open>EIP-55\<close>

lemma eth_address_mixed:
  assumes "eth_address K (lit ''0x'' @ h)" "list_ex is_ascii_uppercase h" "list_ex is_ascii_lowercase h"
    "i < length h" "is_ascii_alphabetic (h ! i)"
  shows "is_ascii_uppercase (h ! i) =
    ((if i mod 2 = 0 then K (map to_ascii_lowercase h) ! (i div 2) div 16
      else K (map to_ascii_lowercase h) ! (i div 2) mod 16) \<ge> 8)"
proof -
  have h: "(case strip_prefix (lit ''0x'') (lit ''0x'' @ h) of Some t \<Rightarrow> t
      | None \<Rightarrow> (case strip_prefix (lit ''0X'') (lit ''0x'' @ h) of Some t \<Rightarrow> t | None \<Rightarrow> lit ''0x'' @ h)) = h"
    by (simp add: strip_prefix_def lit_def)
  have "(i, h ! i) \<in> set (enumerate 0 h)" using assms(4) by (simp add: in_set_enumerate_eq)
  with assms show ?thesis
    unfolding eth_address_def Let_def h by (auto simp: list_all_iff split: if_splits)
qed

text \<open>EIP-55 fixes the capitalisation: two mixed-case addresses that \<open>eth_address\<close> accepts
  and that agree up to case are the same text, whatever the hash function is, so a single
  letter in the wrong case is always rejected.\<close>

theorem eip55_capitalisation_unique:
  assumes "eth_address K (lit ''0x'' @ h)" "eth_address K (lit ''0x'' @ h')"
    and "list_ex is_ascii_uppercase h" "list_ex is_ascii_lowercase h"
    and "list_ex is_ascii_uppercase h'" "list_ex is_ascii_lowercase h'"
    and "eq_ignore_ascii_case h h'"
  shows "h = h'"
proof -
  from assms(7) have low: "map to_ascii_lowercase h = map to_ascii_lowercase h'"
    by (simp add: eq_ignore_ascii_case_def)
  then have len: "length h = length h'" using map_eq_imp_length_eq by blast
  show ?thesis
  proof (rule nth_equalityI [OF len])
    fix i assume i: "i < length h"
    with low len have eq: "to_ascii_lowercase (h ! i) = to_ascii_lowercase (h' ! i)"
      by (metis nth_map)
    then have alpha: "is_ascii_alphabetic (h ! i) = is_ascii_alphabetic (h' ! i)"
      by (auto simp: to_ascii_lowercase_def is_ascii_alphabetic_def is_ascii_uppercase_def
          is_ascii_lowercase_def split: if_splits)
    have "is_ascii_uppercase (h ! i) = is_ascii_uppercase (h' ! i)" if "is_ascii_alphabetic (h ! i)"
      using eth_address_mixed [OF assms(1,3,4) i that] i len alpha that low
        eth_address_mixed [OF assms(2,5,6), of i] by simp
    with eq alpha show "h ! i = h' ! i"
      by (auto simp: to_ascii_lowercase_def is_ascii_alphabetic_def split: if_splits)
  qed
qed

theorem eip55_capitalisation_unique_witness:
  "eth_address (\<lambda>_. 128 # replicate 31 0) (lit ''0xAa00000000000000000000000000000000000000'')
   \<and> \<not> eth_address (\<lambda>_. 128 # replicate 31 0) (lit ''0xaA00000000000000000000000000000000000000'')"
proof -
  let ?K = "\<lambda>_. 128 # replicate 31 0"
  let ?h = "lit ''Aa00000000000000000000000000000000000000''"
    and ?h' = "lit ''aA00000000000000000000000000000000000000''"
  have spelled: "lit ''0xAa00000000000000000000000000000000000000'' = lit ''0x'' @ ?h"
    "lit ''0xaA00000000000000000000000000000000000000'' = lit ''0x'' @ ?h'" "?h \<noteq> ?h'"
    by (simp_all add: lit_def)
  have mixed: "list_ex is_ascii_uppercase ?h" "list_ex is_ascii_lowercase ?h"
    "list_ex is_ascii_uppercase ?h'" "list_ex is_ascii_lowercase ?h'" "eq_ignore_ascii_case ?h ?h'"
    by code_simp+
  have "eth_address ?K (lit ''0x'' @ ?h)" by code_simp
  then show ?thesis
    unfolding spelled(1,2) using eip55_capitalisation_unique [of ?K ?h ?h'] mixed spelled(3) by blast
qed

section \<open>What a folded check digit cannot see\<close>

text \<open>Schemes that fold the remainder ten into another check digit, or leave a digit out of
  the sum, are weaker: for each of these validators there are two accepted numbers that differ
  in a single digit.\<close>

theorem folded_schemes_miss_digit_errors:
  "list_all (\<lambda>V. \<not> detects_digit_error V)
     [bulgaria_egn, portugal_nif, greece_afm, romania_cnp, south_korea_rrn, thailand_national_id,
      iran_national_id, japan_my_number, iceland_kennitala]"
proof -
  have miss: "\<not> detects_digit_error V"
    if "V (lit pre @ of_char c # lit post)" "V (lit pre @ of_char c' # lit post)"
      "is_ascii_digit (of_char c)" "is_ascii_digit (of_char c')" "of_char c \<noteq> (of_char c' :: nat)"
    for V pre c c' post
    using that unfolding detects_digit_error_def by blast
  have "\<not> detects_digit_error bulgaria_egn"
    by (rule miss [of _ "[]" "CHR ''9''" "''283038830''" "CHR ''4''"]) code_simp+
  moreover have "\<not> detects_digit_error portugal_nif"
    by (rule miss [of _ "[]" "CHR ''9''" "''95748900''" "CHR ''4''"]) code_simp+
  moreover have "\<not> detects_digit_error greece_afm"
    by (rule miss [of _ "[]" "CHR ''9''" "''88360750''" "CHR ''5''"]) code_simp+
  moreover have "\<not> detects_digit_error romania_cnp"
    by (rule miss [of _ "[]" "CHR ''8''" "''867565088991''" "CHR ''9''"]) code_simp+
  moreover have "\<not> detects_digit_error south_korea_rrn"
    by (rule miss [of _ "''5''" "CHR ''0''" "''43419254121''" "CHR ''7''"]) code_simp+
  moreover have "\<not> detects_digit_error thailand_national_id"
    by (rule miss [of _ "''72''" "CHR ''4''" "''4757710467''" "CHR ''0''"]) code_simp+
  moreover have "\<not> detects_digit_error iran_national_id"
    by (rule miss [of _ "[]" "CHR ''1''" "''414839601''" "CHR ''3''"]) code_simp+
  moreover have "\<not> detects_digit_error japan_my_number"
    by (rule miss [of _ "[]" "CHR ''4''" "''98063513960''" "CHR ''6''"]) code_simp+
  moreover have "\<not> detects_digit_error iceland_kennitala"
    by (rule miss [of _ "''650004957''" "CHR ''0''" "[]" "CHR ''1''"]) code_simp+
  ultimately show ?thesis by simp
qed

end
