(* ===== verification/RedactSpan.thy ===== *)
theory RedactSpan
  imports RustText
begin

text \<open>
  \<open>screenpipe-redact/src/span.rs\<close>: the coarse labels with their placeholders and wire
  names, the known sub-types, the span record, and the policy that says which spans are
  rewritten. A \<open>BTreeSet<String>\<close> is a HOL set of byte strings.
\<close>

section \<open>Labels\<close>

text \<open>\<open>IdLabel\<close> is the source's \<open>Id\<close>.\<close>

datatype span_label =
  Person | Email | Phone | Address | Url | Company | Repo
  | Handle | Channel | IdLabel | Date | Secret | Sensitive

fun placeholder :: "span_label \<Rightarrow> rstr" where
  "placeholder Person = lit ''[PERSON]''"
| "placeholder Email = lit ''[EMAIL]''"
| "placeholder Phone = lit ''[PHONE]''"
| "placeholder Address = lit ''[ADDRESS]''"
| "placeholder Url = lit ''[URL]''"
| "placeholder Company = lit ''[COMPANY]''"
| "placeholder Repo = lit ''[REPO]''"
| "placeholder Handle = lit ''[HANDLE]''"
| "placeholder Channel = lit ''[CHANNEL]''"
| "placeholder IdLabel = lit ''[ID]''"
| "placeholder Date = lit ''[DATE]''"
| "placeholder Secret = lit ''[SECRET]''"
| "placeholder Sensitive = lit ''[SENSITIVE]''"

definition wire_table :: "(string \<times> span_label) list" where
  "wire_table =
     [(''person'', Person),
      (''email'', Email),
      (''phone'', Phone),
      (''address'', Address),
      (''url'', Url),
      (''company'', Company),
      (''repo'', Repo),
      (''handle'', Handle),
      (''channel'', Channel),
      (''id'', IdLabel),
      (''date'', Date),
      (''secret'', Secret),
      (''sensitive'', Sensitive)]"

definition from_wire :: "rstr \<Rightarrow> span_label option" where
  "from_wire s = map_of (map (\<lambda>(w, l). (lit w, l)) wire_table) (map to_ascii_lowercase (trim s))"

section \<open>Sub-types\<close>

definition known_subtype_names :: "string list" where
  "known_subtype_names = [
    ''us_ssn'', ''credit_card'', ''iban'', ''isin'', ''cusip'', ''sedol'', ''vin'',
    ''spain_dni'', ''spain_nie'', ''brazil_cpf'', ''india_aadhaar'', ''canada_sin'',
    ''australia_tfn'', ''australia_medicare'', ''netherlands_bsn'', ''us_npi'', ''us_dea'',
    ''us_aba_routing'', ''imei'', ''mac_address'', ''germany_tax_id'', ''poland_pesel'',
    ''turkey_tc_kimlik'', ''belgium_national_number'', ''norway_fodselsnummer'',
    ''sweden_personnummer'', ''finland_hetu'', ''france_nir'', ''italy_codice_fiscale'',
    ''china_resident_id'', ''south_korea_rrn'', ''south_africa_id'', ''uk_utr'',
    ''mexico_curp'', ''ipv6'', ''iccid'', ''btc_address'', ''btc_bech32_address'',
    ''litecoin_address'', ''ethereum_address'', ''xrp_address'', ''google_api_key'',
    ''gitlab_pat'', ''npm_token'', ''sendgrid_api_key'', ''slack_webhook_url'',
    ''digitalocean_token'', ''doppler_token'', ''linear_api_key'', ''postman_api_key'',
    ''shopify_token'', ''stripe_webhook_secret'', ''square_oauth_token'', ''databricks_token'',
    ''age_secret_key'', ''github_fine_grained_pat'', ''sentry_dsn'', ''atlassian_api_token'',
    ''hashicorp_vault_token'', ''figma_pat'', ''new_relic_api_key'', ''razorpay_key'',
    ''planetscale_token'', ''supabase_token'', ''tailscale_authkey'', ''flutterwave_secret'',
    ''fly_io_token'', ''notion_token'', ''pulumi_token'', ''posthog_project_key'',
    ''docker_hub_pat'', ''slack_app_token'', ''pypi_token'', ''germany_vat'', ''france_vat'',
    ''italy_vat'', ''belgium_vat'', ''austria_vat'', ''poland_nip'', ''denmark_cvr'',
    ''greece_afm'', ''croatia_oib'', ''portugal_nif'', ''finland_vat'', ''luxembourg_vat'',
    ''sweden_vat'', ''ireland_pps'', ''switzerland_ahv'', ''austria_svnr'', ''romania_cnp'',
    ''bulgaria_egn'', ''greece_amka'', ''iceland_kennitala'', ''estonia_isikukood'', ''jmbg'',
    ''russia_inn'', ''czech_rodne_cislo'', ''denmark_cpr'', ''singapore_nric'',
    ''hong_kong_hkid'', ''taiwan_id'', ''japan_my_number'', ''thailand_national_id'',
    ''new_zealand_ird'', ''brazil_cnpj'', ''chile_rut'', ''argentina_cuit'', ''colombia_nit'',
    ''uruguay_ci'', ''israel_teudat_zehut'', ''uae_emirates_id'', ''saudi_arabia_id'',
    ''indonesia_nik'', ''malaysia_mykad'', ''philippines_philsys'', ''egypt_national_id'',
    ''nigeria_nin'', ''nhs_number'', ''lei'', ''australia_ihi'', ''esim_eid'', ''india_abha'',
    ''us_medicare_mbi'', ''figi'', ''us_ndc'', ''us_cpt'', ''us_hcpcs'', ''icd9'',
    ''us_dod_edipi'', ''us_uscis'', ''imeisv'', ''meid'', ''mmsi'', ''us_dl_california'',
    ''us_dl_florida'', ''us_medicare_hicn'', ''hungary_vat'', ''slovenia_vat'', ''estonia_vat'',
    ''malta_vat'', ''slovakia_vat'', ''latvia_vat'', ''lithuania_personal'', ''kazakhstan_iin'',
    ''latvia_personal'', ''iran_national_id'', ''ukraine_rnokpp'', ''kuwait_civil_id'',
    ''ecuador_cedula'', ''dominican_cedula'', ''pakistan_cnic'', ''srilanka_nic'',
    ''vietnam_cccd'', ''morocco_cin'', ''qatar_qid'', ''ghana_card'', ''venezuela_ci'',
    ''peru_dni'', ''oman_civil'', ''jordan_national_no'', ''bahrain_cpr'', ''azerbaijan_fin'',
    ''panama_cedula'', ''us_dl_texas'', ''us_dl_new_york'', ''us_tsa_ktn'', ''mic'',
    ''us_license_plate'', ''kenya_id'', ''armenia_ssn'', ''georgia_personal'',
    ''bangladesh_nid'', ''bolivia_ci'', ''paraguay_ci'', ''costa_rica_cedula'', ''lebanon_id'',
    ''belarus_id'', ''tanzania_nin'', ''india_voter_epic'', ''imsi'', ''us_passport'',
    ''icd10'', ''uk_nino'', ''india_pan'', ''swift_bic'', ''us_ein'']"

definition KNOWN_SUBTYPES :: "rstr list" where
  "KNOWN_SUBTYPES = map lit known_subtype_names"

section \<open>Allow-list and policy\<close>

definition allow_step :: "span_label list \<Rightarrow> rstr \<Rightarrow> span_label list" where
  "allow_step out raw =
     (case from_wire raw of
        Some label \<Rightarrow> if label \<in> set out then out else out @ [label]
      | None \<Rightarrow> out)"

definition parse_allow_list :: "rstr list \<Rightarrow> span_label list" where
  "parse_allow_list labels = foldl allow_step [Secret] labels"

record redacted_span =
  span_start :: nat
  span_end :: nat
  span_lab :: span_label
  span_subtype :: "rstr option"
  span_text :: rstr

record redaction_policy =
  allow :: "span_label list"
  allow_subtypes :: "rstr set"

definition default_policy :: redaction_policy where
  "default_policy = \<lparr>allow = [Secret], allow_subtypes = {}\<rparr>"

definition subtype_step :: "rstr set \<Rightarrow> rstr \<Rightarrow> rstr set" where
  "subtype_step acc raw =
     (let norm = map to_ascii_lowercase (trim raw) in
      if from_wire norm = None \<and> norm \<in> set KNOWN_SUBTYPES then insert norm acc else acc)"

definition from_labels :: "rstr list \<Rightarrow> redaction_policy" where
  "from_labels labels =
     \<lparr>allow = parse_allow_list labels, allow_subtypes = foldl subtype_step {} labels\<rparr>"

definition allows :: "redaction_policy \<Rightarrow> span_label \<Rightarrow> rstr option \<Rightarrow> bool" where
  "allows p label subtype =
     (if label \<in> set (allow p) then True
      else case subtype of Some st \<Rightarrow> st \<in> allow_subtypes p | None \<Rightarrow> False)"

section \<open>What a setting means\<close>

lemma parse_allow_list_set:
  "set (foldl allow_step acc labels) = set acc \<union> {l. \<exists>raw \<in> set labels. from_wire raw = Some l}"
  by (induction labels arbitrary: acc) (auto simp: allow_step_def split: option.splits)

lemma parse_allow_list_distinct: "distinct acc \<Longrightarrow> distinct (foldl allow_step acc labels)"
  by (induction labels arbitrary: acc) (auto simp: allow_step_def split: option.splits)

lemma parse_allow_list_prefix: "\<exists>t. foldl allow_step acc labels = acc @ t"
proof (induction labels arbitrary: acc)
  case Nil
  then show ?case by simp
next
  case (Cons raw labels)
  have "\<exists>u. allow_step acc raw = acc @ u"
    by (cases "from_wire raw") (auto simp: allow_step_def)
  with Cons [of "allow_step acc raw"] show ?case by auto
qed

lemma subtypes_set:
  "foldl subtype_step acc labels = acc \<union> {n. \<exists>raw \<in> set labels.
     n = map to_ascii_lowercase (trim raw) \<and> from_wire n = None \<and> n \<in> set KNOWN_SUBTYPES}"
  by (induction labels arbitrary: acc) (auto simp: subtype_step_def Let_def)

lemma wire_keys_distinct: "distinct (map fst wire_table)"
  by (simp add: wire_table_def)

lemma lit_inj: "lit a = lit b \<longleftrightarrow> a = b"
  by (auto simp: lit_def inj_map_eq_map inj_of_char)

lemma subtypes_not_labels:
  "list_all (\<lambda>n. map_of wire_table n = None) known_subtype_names"
  by code_simp

lemma map_of_lit: "map_of (map (\<lambda>(w, l). (lit w, l)) t) (lit n) = map_of t n"
  by (induction t) (auto simp: lit_inj)

lemma lit_ascii_lower:
  "list_all (\<lambda>n. trim (lit n) = lit n \<and> map to_ascii_lowercase (lit n) = lit n) known_subtype_names"
  by code_simp

lemma known_subtype_not_wire: "n \<in> set KNOWN_SUBTYPES \<Longrightarrow> from_wire n = None"
  using subtypes_not_labels lit_ascii_lower
  by (auto simp: KNOWN_SUBTYPES_def list_all_iff from_wire_def map_of_lit)

end
