(* ===== verification/RedactEngine.thy ===== *)
theory RedactEngine
  imports RedactSpan "HOL-Library.Monad_Syntax" "HOL-Library.Product_Lexorder"
begin

text \<open>
  The deterministic redactor of \<open>screenpipe-redact/src/adapters/regex.rs\<close> and the policy
  step of \<open>pipeline.rs\<close>. The \<open>regex\<close> and \<open>aho_corasick\<close> crates are parameters:
  \<open>find_iter re text\<close> is \<open>Regex::find_iter\<close> (the byte ranges of the matches),
  \<open>set_matches res text\<close> is \<open>RegexSet::matches\<close> (indices, ascending) and
  \<open>ac_find ks text\<close> the pattern ids of \<open>AhoCorasick::find_overlapping_iter\<close>. The table
  \<open>PATTERNS\<close> is a parameter too. A value \<open>None\<close> is a panic: the only ones the code can
  raise are string slices off a character boundary.
\<close>

section \<open>Slices and windows\<close>

definition slice :: "rstr \<Rightarrow> nat \<Rightarrow> nat \<Rightarrow> rstr option" where
  "slice s a b =
     (if a \<le> b \<and> b \<le> length s \<and> is_char_boundary s a \<and> is_char_boundary s b
      then Some (take (b - a) (drop a s)) else None)"

text \<open>\<open>while bstart > 0 && !text.is_char_boundary(bstart)\<close>.\<close>

fun boundary_below :: "rstr \<Rightarrow> nat \<Rightarrow> nat" where
  "boundary_below s 0 = 0"
| "boundary_below s (Suc n) = (if is_char_boundary s (Suc n) then Suc n else boundary_below s n)"

function boundary_above :: "rstr \<Rightarrow> nat \<Rightarrow> nat" where
  "boundary_above s n =
     (if n < length s \<and> \<not> is_char_boundary s n then boundary_above s (n + 1) else n)"
  by pat_completeness auto
termination by (relation "measure (\<lambda>(s, n). length s - n)") auto

declare boundary_above.simps [simp del]

function whole_word_loop :: "rstr \<Rightarrow> rstr \<Rightarrow> nat \<Rightarrow> bool option" where
  "whole_word_loop hay needle frm =
     (case slice hay frm (length hay) of
        None \<Rightarrow> None
      | Some tail \<Rightarrow>
          (case find_str tail needle of
             None \<Rightarrow> Some False
           | Some rel \<Rightarrow>
               let i = frm + rel;
                   before_ok = (i = 0 \<or> \<not> is_ascii_alphanumeric (hay ! (i - 1)));
                   after = i + length needle;
                   after_ok = (after \<ge> length hay \<or> \<not> is_ascii_alphanumeric (hay ! after))
               in if before_ok \<and> after_ok then Some True
                  else whole_word_loop hay needle (i + 1)))"
  by pat_completeness auto
termination
  by (relation "measure (\<lambda>(hay, needle, frm). Suc (length hay) - frm)")
    (auto simp: slice_def split: if_splits)

declare whole_word_loop.simps [simp del]

definition whole_word_contains :: "rstr \<Rightarrow> rstr \<Rightarrow> bool option" where
  "whole_word_contains hay needle =
     (if needle = [] then Some False else whole_word_loop hay needle 0)"

fun any_key :: "rstr \<Rightarrow> rstr \<Rightarrow> rstr list \<Rightarrow> bool option" where
  "any_key before after [] = Some False"
| "any_key before after (k # ks) =
     do { b \<leftarrow> whole_word_contains before k;
          if b then Some True
          else do { a \<leftarrow> whole_word_contains after k;
                    if a then Some True else any_key before after ks } }"

definition has_context :: "rstr \<Rightarrow> nat \<Rightarrow> nat \<Rightarrow> rstr list \<Rightarrow> bool option" where
  "has_context txt m_start m_end ks =
     do { before \<leftarrow> slice txt (boundary_below txt (m_start - 48)) m_start;
          after \<leftarrow> slice txt m_end (boundary_above txt (min (m_end + 48) (length txt)));
          any_key (map to_ascii_lowercase before) (map to_ascii_lowercase after) ks }"

section \<open>Patterns and the prefilter\<close>

record 're pattern =
  re :: 're
  pat_label :: span_label
  pat_subtype :: "rstr option"
  context_keys :: "rstr list"
  validate :: "(rstr \<Rightarrow> bool) option"

record 're engine =
  noctx_set :: "'re list"
  noctx_map :: "nat list"
  ctx_indices :: "nat list"
  keyword_ac :: "rstr list"
  ctx_keyword_ids :: "nat list list"

text \<open>\<open>kw_index.entry(k).or_insert_with(..)\<close>: the keywords so far and their index.\<close>

type_synonym interner = "rstr list \<times> (rstr \<Rightarrow> nat option)"

fun intern :: "interner \<Rightarrow> rstr \<Rightarrow> nat \<times> interner" where
  "intern (kws, idx) k =
     (case idx k of
        Some kid \<Rightarrow> (kid, (kws, idx))
      | None \<Rightarrow> (length kws, (kws @ [k], idx(k \<mapsto> length kws))))"

fun intern_all :: "interner \<Rightarrow> rstr list \<Rightarrow> nat list \<times> interner" where
  "intern_all st [] = ([], st)"
| "intern_all st (k # ks) =
     (let (kid, st') = intern st k; (ids, st'') = intern_all st' ks in (kid # ids, st''))"

fun build_engine ::
  "(nat \<times> 're pattern) list \<Rightarrow> interner \<Rightarrow> 're engine \<Rightarrow> 're engine \<times> interner" where
  "build_engine [] st e = (e, st)"
| "build_engine ((i, p) # ps) st e =
     (if context_keys p = []
      then build_engine ps st (e\<lparr>noctx_set := noctx_set e @ [re p], noctx_map := noctx_map e @ [i]\<rparr>)
      else let (ids, st') = intern_all st (context_keys p)
           in build_engine ps st' (e\<lparr>ctx_indices := ctx_indices e @ [i],
                                      ctx_keyword_ids := ctx_keyword_ids e @ [ids]\<rparr>))"

definition ENGINE :: "'re pattern list \<Rightarrow> 're engine" where
  "ENGINE ps =
     (let (e, (kws, _)) = build_engine (enumerate 0 ps) ([], \<lambda>_. None)
            \<lparr>noctx_set = [], noctx_map = [], ctx_indices = [], keyword_ac = [], ctx_keyword_ids = []\<rparr>
      in e\<lparr>keyword_ac := kws\<rparr>)"

definition candidates ::
  "('re list \<Rightarrow> rstr \<Rightarrow> nat list) \<Rightarrow> (rstr list \<Rightarrow> rstr \<Rightarrow> nat list) \<Rightarrow> 're engine \<Rightarrow> rstr \<Rightarrow> nat list" where
  "candidates set_matches ac_find e txt =
     (let lower = map to_ascii_lowercase txt;
          cand = map (\<lambda>si. noctx_map e ! si) (set_matches (noctx_set e) txt);
          present = foldl (\<lambda>pr kid. pr[kid := True]) (replicate (length (keyword_ac e)) False)
                      (ac_find (keyword_ac e) lower)
      in cand @ map snd (filter (\<lambda>(j, pi). list_ex (\<lambda>kid. present ! kid) (ctx_keyword_ids e ! j))
                           (enumerate 0 (ctx_indices e))))"

section \<open>Redaction of one text\<close>

record redaction_output =
  input :: rstr
  redacted :: rstr
  spans :: "redacted_span list"

fun scan_matches ::
  "rstr \<Rightarrow> 're pattern \<Rightarrow> (nat \<times> nat) list \<Rightarrow> redacted_span list \<Rightarrow> redacted_span list option" where
  "scan_matches txt pat [] sps = Some sps"
| "scan_matches txt pat ((s, e) # ms) sps =
     do { matched \<leftarrow> slice txt s e;
          if (case validate pat of Some v \<Rightarrow> \<not> v matched | None \<Rightarrow> False)
          then scan_matches txt pat ms sps
          else do { ctx \<leftarrow> (if context_keys pat = [] then Some True
                            else has_context txt s e (context_keys pat));
                    if \<not> ctx then scan_matches txt pat ms sps
                    else if list_ex (\<lambda>sp. span_start sp < e \<and> span_end sp > s) sps
                    then scan_matches txt pat ms sps
                    else scan_matches txt pat ms
                           (sps @ [\<lparr>span_start = s, span_end = e, span_lab = pat_label pat,
                                    span_subtype = pat_subtype pat, span_text = matched\<rparr>]) } }"

fun scan_patterns ::
  "('re \<Rightarrow> rstr \<Rightarrow> (nat \<times> nat) list) \<Rightarrow> rstr \<Rightarrow> 're pattern list \<Rightarrow> redacted_span list \<Rightarrow> redacted_span list option" where
  "scan_patterns find_iter txt [] sps = Some sps"
| "scan_patterns find_iter txt (pat # ps) sps =
     do { sps' \<leftarrow> scan_matches txt pat (find_iter (re pat) txt) sps; scan_patterns find_iter txt ps sps' }"

fun render_loop :: "rstr \<Rightarrow> nat \<Rightarrow> redacted_span list \<Rightarrow> rstr option" where
  "render_loop txt cursor [] = slice txt cursor (length txt)"
| "render_loop txt cursor (sp # sps) =
     (if span_start sp < cursor then render_loop txt cursor sps
      else do { gap \<leftarrow> slice txt cursor (span_start sp);
                rest \<leftarrow> render_loop txt (span_end sp) sps;
                Some (gap @ placeholder (span_lab sp) @ rest) })"

definition render_redacted :: "rstr \<Rightarrow> redacted_span list \<Rightarrow> rstr option" where
  "render_redacted txt sps = (if sps = [] then Some txt else render_loop txt 0 sps)"

definition cand_key :: "'re pattern list \<Rightarrow> nat \<Rightarrow> bool \<times> nat" where
  "cand_key ps i = (pat_label (ps ! i) \<noteq> Secret, i)"

definition redact_one ::
  "('re \<Rightarrow> rstr \<Rightarrow> (nat \<times> nat) list) \<Rightarrow> ('re list \<Rightarrow> rstr \<Rightarrow> nat list) \<Rightarrow>
   (rstr list \<Rightarrow> rstr \<Rightarrow> nat list) \<Rightarrow> 're pattern list \<Rightarrow> rstr \<Rightarrow> redaction_output option" where
  "redact_one find_iter set_matches ac_find ps txt =
     (let cand = candidates set_matches ac_find (ENGINE ps) txt in
      if cand = [] then Some \<lparr>input = txt, redacted = txt, spans = []\<rparr>
      else
        do { sps \<leftarrow> scan_patterns find_iter txt (map (\<lambda>i. ps ! i) (sort_key (cand_key ps) cand)) [];
             let sorted_spans = sort_key (\<lambda>s. (span_start s, span_end s)) sps in
             do { out \<leftarrow> render_redacted txt sorted_spans;
                  Some \<lparr>input = txt, redacted = out, spans = sorted_spans\<rparr> } })"

section \<open>The policy step\<close>

text \<open>\<open>render_with_spans\<close> of \<open>pipeline.rs\<close> is a second copy of the renderer.\<close>

fun render_with_loop :: "rstr \<Rightarrow> nat \<Rightarrow> redacted_span list \<Rightarrow> rstr \<Rightarrow> rstr option" where
  "render_with_loop txt cursor [] out = map_option (\<lambda>t. out @ t) (slice txt cursor (length txt))"
| "render_with_loop txt cursor (sp # sps) out =
     (if span_start sp < cursor then render_with_loop txt cursor sps out
      else do { gap \<leftarrow> slice txt cursor (span_start sp);
                render_with_loop txt (span_end sp) sps (out @ gap @ placeholder (span_lab sp)) })"

definition render_with_spans :: "rstr \<Rightarrow> redacted_span list \<Rightarrow> rstr option" where
  "render_with_spans txt sps = (if sps = [] then Some txt else render_with_loop txt 0 sps [])"

definition apply_policy :: "redaction_output \<Rightarrow> redaction_policy \<Rightarrow> redaction_output option" where
  "apply_policy out policy =
     (let kept = filter (\<lambda>s. allows policy (span_lab s) (span_subtype s)) (spans out) in
      do { txt \<leftarrow> render_with_spans (input out) kept;
           Some \<lparr>input = input out, redacted = txt, spans = kept\<rparr> })"

end
