(* ===== verification/RedactCorrect.thy ===== *)
theory RedactCorrect
  imports RedactEngine
begin

text \<open>
  Correctness of the redactor: the spans it returns are sorted, inside the text and
  disjoint; a credential never loses an overlap to another label; the two-stage prefilter
  changes nothing; rendering replaces exactly the covered bytes; and where it can panic.
\<close>

section \<open>What the regex crates promise\<close>

text \<open>The documented behaviour the code relies on: a match is a byte range of the text on
  character boundaries, a set matches exactly the members that match alone, and the
  overlapping search reports exactly the keywords that occur.\<close>

definition find_laws :: "('re \<Rightarrow> rstr \<Rightarrow> (nat \<times> nat) list) \<Rightarrow> bool" where
  "find_laws find_iter \<longleftrightarrow>
     (\<forall>r txt s e. (s, e) \<in> set (find_iter r txt) \<longrightarrow>
        s \<le> e \<and> e \<le> length txt \<and> is_char_boundary txt s \<and> is_char_boundary txt e)"

definition set_laws ::
  "('re \<Rightarrow> rstr \<Rightarrow> (nat \<times> nat) list) \<Rightarrow> ('re list \<Rightarrow> rstr \<Rightarrow> nat list) \<Rightarrow> bool" where
  "set_laws find_iter set_matches \<longleftrightarrow>
     (\<forall>rs txt. distinct (set_matches rs txt) \<and>
        set (set_matches rs txt) = {i. i < length rs \<and> find_iter (rs ! i) txt \<noteq> []})"

definition keyword_laws :: "(rstr list \<Rightarrow> rstr \<Rightarrow> nat list) \<Rightarrow> bool" where
  "keyword_laws ac_find \<longleftrightarrow>
     (\<forall>ks txt. set (ac_find ks txt) = {i. i < length ks \<and> contains_str txt (ks ! i)})"

section \<open>Slices\<close>

lemma slice_Some [simp]:
  "slice s a b = Some t \<longleftrightarrow> a \<le> b \<and> b \<le> length s \<and> is_char_boundary s a \<and> is_char_boundary s b
     \<and> t = take (b - a) (drop a s)"
  by (auto simp: slice_def)

lemma slice_None [simp]:
  "slice s a b = None \<longleftrightarrow> \<not> (a \<le> b \<and> b \<le> length s \<and> is_char_boundary s a \<and> is_char_boundary s b)"
  by (simp add: slice_def)

lemma boundary_ends [simp]: "is_char_boundary s 0" "is_char_boundary s (length s)"
  by (simp_all add: is_char_boundary_def)

lemma boundary_below_ok: "is_char_boundary s (boundary_below s n) \<and> boundary_below s n \<le> n"
  by (induction n) auto

lemma boundary_above_ok:
  "n \<le> length s \<Longrightarrow> is_char_boundary s (boundary_above s n) \<and> n \<le> boundary_above s n
     \<and> boundary_above s n \<le> length s"
proof (induction s n rule: boundary_above.induct)
  case (1 s n)
  then show ?case
    by (cases "n < length s \<and> \<not> is_char_boundary s n")
      (auto simp: boundary_above.simps [of s n] Suc_leD)
qed

section \<open>The spans a scan records\<close>

definition overlaps :: "redacted_span \<Rightarrow> redacted_span \<Rightarrow> bool" where
  "overlaps a b \<longleftrightarrow> span_start a < span_end b \<and> span_end a > span_start b"

definition span_ok :: "rstr \<Rightarrow> redacted_span \<Rightarrow> bool" where
  "span_ok txt sp \<longleftrightarrow> slice txt (span_start sp) (span_end sp) = Some (span_text sp)"

definition spans_ok :: "rstr \<Rightarrow> redacted_span list \<Rightarrow> bool" where
  "spans_ok txt sps \<longleftrightarrow> list_all (span_ok txt) sps \<and> sorted_wrt (\<lambda>a b. \<not> overlaps a b) sps"

text \<open>A match that passes the validator and the context gate.\<close>

definition accepted :: "rstr \<Rightarrow> 're pattern \<Rightarrow> nat \<Rightarrow> nat \<Rightarrow> bool" where
  "accepted txt pat s e \<longleftrightarrow>
     (\<exists>m. slice txt s e = Some m \<and> (case validate pat of Some v \<Rightarrow> v m | None \<Rightarrow> True)) \<and>
     (context_keys pat = [] \<or> has_context txt s e (context_keys pat) = Some True)"

lemma scan_matches_inv:
  assumes "scan_matches txt pat ms sps = Some sps'" "spans_ok txt sps"
  shows "spans_ok txt sps' \<and> (\<exists>new. sps' = sps @ new \<and>
      list_all (\<lambda>sp. span_lab sp = pat_label pat \<and> span_subtype sp = pat_subtype pat) new)"
  using assms
proof (induction "txt" pat ms sps arbitrary: sps' rule: scan_matches.induct)
  case (1 "txt" pat sps)
  then show ?case by simp
next
  case (2 "txt" pat s e ms sps)
  let ?new = "\<lparr>span_start = s, span_end = e, span_lab = pat_label pat,
      span_subtype = pat_subtype pat, span_text = take (e - s) (drop s txt)\<rparr>"
  from 2(5) obtain m where m: "slice txt s e = Some m" by (cases "slice txt s e") simp_all
  show ?case
  proof (cases "(case validate pat of Some v \<Rightarrow> \<not> v m | None \<Rightarrow> False)")
    case True
    with 2(1) [OF m True] 2(5,6) m show ?thesis by simp
  next
    case False
    from 2(5) m False obtain c where
      c: "(if context_keys pat = [] then Some True else has_context txt s e (context_keys pat)) = Some c"
      by (cases "if context_keys pat = [] then Some True else has_context txt s e (context_keys pat)")
        (simp_all del: slice_Some)
    show ?thesis
    proof (cases c)
      case False': False
      with 2(2) [OF m False c] 2(5,6) m False c show ?thesis by (simp del: slice_Some)
    next
      case True
      show ?thesis
      proof (cases "list_ex (\<lambda>sp. span_start sp < e \<and> span_end sp > s) sps")
        case ov: True
        with 2(3) [OF m False c _ ov] True 2(5,6) m False c show ?thesis by (simp del: slice_Some)
      next
        case ov: False
        with True 2(5) m False c
        have rec: "scan_matches txt pat ms (sps @ [?new]) = Some sps'" by (simp del: slice_Some) simp
        from ov m 2(6) have "spans_ok txt (sps @ [?new])"
          by (auto simp: spans_ok_def span_ok_def overlaps_def sorted_wrt_append list_ex_iff
              list_all_iff)
        with 2(4) [OF m False c _ ov, of sps'] True rec m show ?thesis by auto
      qed
    qed
  qed
qed

text \<open>Every accepted match is recorded or overlaps a recorded span.\<close>

definition covered :: "redacted_span list \<Rightarrow> nat \<Rightarrow> nat \<Rightarrow> bool" where
  "covered sps s e \<longleftrightarrow> (\<exists>sp \<in> set sps. span_start sp < e \<and> span_end sp > s)"

lemma covered_append [simp]: "covered (xs @ ys) s e \<longleftrightarrow> covered xs s e \<or> covered ys s e"
  by (auto simp: covered_def)

lemma scan_matches_step:
  assumes "scan_matches txt pat ((s, e) # ms) sps = Some sps'"
  shows "\<exists>sps1. scan_matches txt pat ms sps1 = Some sps' \<and> (\<exists>new. sps1 = sps @ new) \<and>
    (accepted txt pat s e \<longrightarrow> s < e \<longrightarrow> covered sps1 s e)"
proof -
  let ?new = "\<lparr>span_start = s, span_end = e, span_lab = pat_label pat,
      span_subtype = pat_subtype pat, span_text = take (e - s) (drop s txt)\<rparr>"
  from assms obtain m where m: "slice txt s e = Some m" by (cases "slice txt s e") simp_all
  show ?thesis
  proof (cases "(case validate pat of Some v \<Rightarrow> \<not> v m | None \<Rightarrow> False)")
    case True
    with assms m have "scan_matches txt pat ms sps = Some sps'" "\<not> accepted txt pat s e"
      by (auto simp: accepted_def split: option.splits)
    then show ?thesis by auto
  next
    case False
    from assms m False obtain c where
      c: "(if context_keys pat = [] then Some True else has_context txt s e (context_keys pat)) = Some c"
      by (cases "if context_keys pat = [] then Some True else has_context txt s e (context_keys pat)")
        (simp_all del: slice_Some)
    show ?thesis
    proof (cases c)
      case False': False
      with assms m False c have "scan_matches txt pat ms sps = Some sps'" "\<not> accepted txt pat s e"
        by (auto simp: accepted_def split: if_splits)
      then show ?thesis by auto
    next
      case True
      show ?thesis
      proof (cases "list_ex (\<lambda>sp. span_start sp < e \<and> span_end sp > s) sps")
        case ov: True
        with True assms m False c have "scan_matches txt pat ms sps = Some sps'"
          by (simp del: slice_Some)
        with ov show ?thesis by (auto simp: covered_def list_ex_iff)
      next
        case ov: False
        with True assms m False c
        have "scan_matches txt pat ms (sps @ [?new]) = Some sps'" by (simp del: slice_Some) simp
        then show ?thesis by (intro exI [of _ "sps @ [?new]"]) (auto simp: covered_def)
      qed
    qed
  qed
qed

lemma scan_matches_covers:
  "scan_matches txt pat ms sps = Some sps' \<Longrightarrow> (s, e) \<in> set ms \<Longrightarrow> accepted txt pat s e \<Longrightarrow> s < e \<Longrightarrow>
     covered sps' s e"
proof (induction ms arbitrary: sps)
  case Nil
  then show ?case by simp
next
  case (Cons m ms)
  obtain s1 e1 where m: "m = (s1, e1)" by fastforce
  from scan_matches_step [OF Cons.prems(1) [unfolded m]] obtain sps1 where
    1: "scan_matches txt pat ms sps1 = Some sps'"
    "accepted txt pat s1 e1 \<longrightarrow> s1 < e1 \<longrightarrow> covered sps1 s1 e1" by blast
  show ?case
  proof (cases "(s, e) \<in> set ms")
    case True
    with Cons.IH [OF 1(1)] Cons.prems(3,4) show ?thesis by blast
  next
    case False
    with Cons.prems m have "s1 = s" "e1 = e" by auto
    with 1(2) Cons.prems(3,4) have c: "covered sps1 s e" by blast
    have "\<exists>new. sps' = sps1 @ new" using 1(1)
    proof (induction ms arbitrary: sps1)
      case Nil
      then show ?case by simp
    next
      case (Cons n ms)
      obtain s2 e2 where n: "n = (s2, e2)" by fastforce
      from scan_matches_step [OF Cons.prems [unfolded n]] Cons.IH show ?case
        by (metis append.assoc)
    qed
    with c show ?thesis by auto
  qed
qed

lemma scan_patterns_inv:
  "scan_patterns find_iter txt ps sps = Some sps' \<Longrightarrow> spans_ok txt sps \<Longrightarrow>
     spans_ok txt sps' \<and> (\<exists>new. sps' = sps @ new \<and>
       list_all (\<lambda>sp. \<exists>p \<in> set ps. span_lab sp = pat_label p \<and> span_subtype sp = pat_subtype p) new)"
proof (induction ps arbitrary: sps)
  case Nil
  then show ?case by simp
next
  case (Cons p ps)
  then obtain sps1 where 1: "scan_matches txt p (find_iter (re p) txt) sps = Some sps1"
    "scan_patterns find_iter txt ps sps1 = Some sps'"
    by (cases "scan_matches txt p (find_iter (re p) txt) sps") simp_all
  from scan_matches_inv [OF 1(1) Cons.prems(2)] obtain new1 where 2: "spans_ok txt sps1"
    "sps1 = sps @ new1" "list_all (\<lambda>sp. span_lab sp = pat_label p \<and> span_subtype sp = pat_subtype p) new1"
    by blast
  from Cons.IH [OF 1(2) 2(1)] obtain new2 where "spans_ok txt sps'" "sps' = sps1 @ new2"
    "list_all (\<lambda>sp. \<exists>p \<in> set ps. span_lab sp = pat_label p \<and> span_subtype sp = pat_subtype p) new2"
    by blast
  with 2 show ?case by (auto simp: list_all_iff)
qed

lemma scan_patterns_covers:
  "scan_patterns find_iter txt ps sps = Some sps' \<Longrightarrow> spans_ok txt sps \<Longrightarrow> p \<in> set ps \<Longrightarrow>
     (s, e) \<in> set (find_iter (re p) txt) \<Longrightarrow> accepted txt p s e \<Longrightarrow> s < e \<Longrightarrow> covered sps' s e"
proof (induction ps arbitrary: sps)
  case Nil
  then show ?case by simp
next
  case (Cons q ps)
  then obtain sps1 where 1: "scan_matches txt q (find_iter (re q) txt) sps = Some sps1"
    "scan_patterns find_iter txt ps sps1 = Some sps'"
    by (cases "scan_matches txt q (find_iter (re q) txt) sps") simp_all
  note ok = scan_matches_inv [OF 1(1) Cons.prems(2)]
  show ?case
  proof (cases "p \<in> set ps")
    case True
    with Cons.IH [OF 1(2)] ok Cons.prems show ?thesis by blast
  next
    case False
    with Cons.prems have "p = q" by simp
    with scan_matches_covers [OF 1(1)] Cons.prems have "covered sps1 s e" by blast
    moreover from scan_patterns_inv [OF 1(2)] ok obtain new where "sps' = sps1 @ new" by blast
    ultimately show ?thesis by simp
  qed
qed

lemma scan_patterns_append:
  "scan_patterns find_iter txt (ps @ qs) sps =
     Option.bind (scan_patterns find_iter txt ps sps) (scan_patterns find_iter txt qs)"
  by (induction ps arbitrary: sps) (auto split: bind_splits)

text \<open>When the credential patterns come first, their matches keep their label: each is
  covered by a span of label \<open>Secret\<close>, whatever the other patterns match.\<close>

lemma secret_priority:
  assumes "scan_patterns find_iter txt (ss @ os) [] = Some sps"
    and "list_all (\<lambda>p. pat_label p = Secret) ss" "p \<in> set ss"
    and "(s, e) \<in> set (find_iter (re p) txt)" "accepted txt p s e" "s < e"
  shows "covered (filter (\<lambda>sp. span_lab sp = Secret) sps) s e"
proof -
  from assms(1) obtain sps1 where 1: "scan_patterns find_iter txt ss [] = Some sps1"
    "scan_patterns find_iter txt os sps1 = Some sps"
    unfolding scan_patterns_append by (auto split: bind_splits)
  have ok: "spans_ok txt []" by (simp add: spans_ok_def)
  from scan_patterns_inv [OF 1(1) ok] have "spans_ok txt sps1"
    and "list_all (\<lambda>sp. \<exists>p \<in> set ss. span_lab sp = pat_label p \<and> span_subtype sp = pat_subtype p) sps1"
    by auto
  with assms(2) have sec: "filter (\<lambda>sp. span_lab sp = Secret) sps1 = sps1"
    by (force simp: list_all_iff filter_id_conv)
  from scan_patterns_covers [OF 1(1) ok assms(3-6)] have c: "covered sps1 s e" .
  from scan_patterns_inv [OF 1(2) \<open>spans_ok txt sps1\<close>] obtain new where "sps = sps1 @ new" by blast
  with c sec show ?thesis by simp
qed

section \<open>The engine the table is compiled to\<close>

definition interner_ok :: "interner \<Rightarrow> bool" where
  "interner_ok st \<longleftrightarrow> (\<forall>k i. snd st k = Some i \<longrightarrow> i < length (fst st) \<and> fst st ! i = k)"

lemma intern_ok:
  assumes "interner_ok st" "intern st k = (i, st')"
  shows "interner_ok st' \<and> (\<exists>ext. fst st' = fst st @ ext) \<and> i < length (fst st') \<and> fst st' ! i = k"
proof -
  obtain kws idx where st: "st = (kws, idx)" by fastforce
  show ?thesis
  proof (cases "idx k")
    case None
    with assms st show ?thesis
      by (auto simp: interner_ok_def nth_append less_Suc_eq split: if_splits)
  next
    case (Some j)
    with assms st show ?thesis by (auto simp: interner_ok_def)
  qed
qed

lemma intern_all_ok:
  "interner_ok st \<Longrightarrow> intern_all st ks = (ids, st') \<Longrightarrow>
     interner_ok st' \<and> (\<exists>ext. fst st' = fst st @ ext) \<and>
     list_all (\<lambda>i. i < length (fst st')) ids \<and> map ((!) (fst st')) ids = ks"
proof (induction ks arbitrary: st ids st')
  case Nil
  then show ?case by simp
next
  case (Cons k ks)
  obtain i st1 where 1: "intern st k = (i, st1)" by (cases "intern st k")
  obtain js st2 where 2: "intern_all st1 ks = (js, st2)" by (cases "intern_all st1 ks")
  from Cons.prems(2) 1 2 have o: "ids = i # js" "st' = st2" by simp_all
  from intern_ok [OF Cons.prems(1) 1] have a: "interner_ok st1" "i < length (fst st1)" "fst st1 ! i = k"
    and am: "\<exists>ext. fst st1 = fst st @ ext" by blast+
  from Cons.IH [OF a(1) 2] obtain ext where b: "interner_ok st2" "fst st2 = fst st1 @ ext"
    "list_all (\<lambda>i. i < length (fst st2)) js" "map ((!) (fst st2)) js = ks" by blast
  from a b have "i < length (fst st2)" "fst st2 ! i = k" by (simp_all add: nth_append)
  with am b o show ?case by auto
qed

definition ids_for :: "rstr list \<Rightarrow> nat list \<Rightarrow> 're pattern \<Rightarrow> bool" where
  "ids_for kws ids p \<longleftrightarrow>
     list_all (\<lambda>i. i < length kws) ids \<and> map ((!) kws) ids = context_keys p"

lemma ids_for_more:
  assumes "ids_for kws ids p"
  shows "ids_for (kws @ ext) ids p"
proof -
  have "map ((!) (kws @ ext)) ids = map ((!) kws) ids"
    using assms by (intro map_cong) (auto simp: ids_for_def list_all_iff nth_append)
  with assms show ?thesis
    unfolding ids_for_def list_all_iff by (metis length_append trans_less_add1)
qed

text \<open>What the loop over the table adds to the four parallel lists.\<close>

lemma build_engine_ok:
  "build_engine xs st e = (e', st') \<Longrightarrow> interner_ok st \<Longrightarrow>
     noctx_map e' = noctx_map e @ map fst (filter (\<lambda>(i, p). context_keys p = []) xs) \<and>
     noctx_set e' = noctx_set e @ map (\<lambda>(i, p). re p) (filter (\<lambda>(i, p). context_keys p = []) xs) \<and>
     ctx_indices e' = ctx_indices e @ map fst (filter (\<lambda>(i, p). context_keys p \<noteq> []) xs) \<and>
     (\<exists>new. ctx_keyword_ids e' = ctx_keyword_ids e @ new \<and>
        list_all2 (\<lambda>ids (i, p). ids_for (fst st') ids p) new (filter (\<lambda>(i, p). context_keys p \<noteq> []) xs)) \<and>
     (\<exists>ext. fst st' = fst st @ ext)"
proof (induction xs st e rule: build_engine.induct)
  case (1 st e)
  then show ?case by simp
next
  case (2 i p ps st e)
  show ?case
  proof (cases "context_keys p = []")
    case True
    with 2(1) [OF True] 2(3,4) show ?thesis by auto
  next
    case False
    obtain ids st1 where 1: "intern_all st (context_keys p) = (ids, st1)"
      by (cases "intern_all st (context_keys p)")
    from intern_all_ok [OF 2(4) 1] have ok: "interner_ok st1" "ids_for (fst st1) ids p"
      and m: "\<exists>ext. fst st1 = fst st @ ext" by (auto simp: ids_for_def)
    let ?e = "e\<lparr>ctx_indices := ctx_indices e @ [i], ctx_keyword_ids := ctx_keyword_ids e @ [ids]\<rparr>"
    from 2(3) False 1 have r: "build_engine ps st1 ?e = (e', st')" by simp
    from 2(2) [OF False 1 [symmetric] refl r ok(1)] obtain new ext where
      n: "ctx_keyword_ids e' = ctx_keyword_ids ?e @ new"
      "list_all2 (\<lambda>ids (i, p). ids_for (fst st') ids p) new (filter (\<lambda>(i, p). context_keys p \<noteq> []) ps)"
      "fst st' = fst st1 @ ext"
      and rest: "noctx_map e' = noctx_map ?e @ map fst (filter (\<lambda>(i, p). context_keys p = []) ps)"
      "noctx_set e' = noctx_set ?e @ map (\<lambda>(i, p). re p) (filter (\<lambda>(i, p). context_keys p = []) ps)"
      "ctx_indices e' = ctx_indices ?e @ map fst (filter (\<lambda>(i, p). context_keys p \<noteq> []) ps)"
      by blast
    from ok(2) n(3) have "ids_for (fst st') ids p" by (simp add: ids_for_more)
    with n False have "\<exists>new'. ctx_keyword_ids e' = ctx_keyword_ids e @ new' \<and>
        list_all2 (\<lambda>ids (i, p). ids_for (fst st') ids p) new'
          (filter (\<lambda>(i, p). context_keys p \<noteq> []) ((i, p) # ps))"
      by (intro exI [of _ "ids # new"]) simp
    with rest m n(3) False show ?thesis by auto
  qed
qed

lemma map_fst_filter_enumerate:
  "map fst (filter (\<lambda>(i, p). P p) (enumerate 0 ps)) = filter (\<lambda>i. P (ps ! i)) [0..<length ps]"
proof -
  have "filter (\<lambda>(i, p). P p) (enumerate 0 ps) = filter (\<lambda>(i, p). P (ps ! i)) (enumerate 0 ps)"
    by (rule filter_cong) (auto simp: in_set_enumerate_eq)
  also have "\<dots> = filter ((\<lambda>i. P (ps ! i)) \<circ> fst) (enumerate 0 ps)"
    by (rule filter_cong) auto
  also have "map fst \<dots> = filter (\<lambda>i. P (ps ! i)) (map fst (enumerate 0 ps))"
    by (rule filter_map [symmetric])
  finally show ?thesis by simp
qed

lemma filter_enumerate_snd:
  "map (\<lambda>(i, p). f p) (filter (\<lambda>(i, p). P p) (enumerate 0 ps))
     = map (\<lambda>i. f (ps ! i)) (filter (\<lambda>i. P (ps ! i)) [0..<length ps])"
proof -
  have "map (\<lambda>(i, p). f p) (filter (\<lambda>(i, p). P p) (enumerate 0 ps))
      = map (\<lambda>i. f (ps ! i)) (map fst (filter (\<lambda>(i, p). P p) (enumerate 0 ps)))"
    by (auto simp: in_set_enumerate_eq)
  then show ?thesis unfolding map_fst_filter_enumerate .
qed

lemma engine_lists:
  "noctx_map (ENGINE ps) = filter (\<lambda>i. context_keys (ps ! i) = []) [0..<length ps]"
  "noctx_set (ENGINE ps) = map (\<lambda>i. re (ps ! i)) (noctx_map (ENGINE ps))"
  "ctx_indices (ENGINE ps) = filter (\<lambda>i. context_keys (ps ! i) \<noteq> []) [0..<length ps]"
  "list_all2 (\<lambda>ids i. ids_for (keyword_ac (ENGINE ps)) ids (ps ! i))
     (ctx_keyword_ids (ENGINE ps)) (ctx_indices (ENGINE ps))"
proof -
  let ?e0 = "\<lparr>noctx_set = [], noctx_map = [], ctx_indices = [], keyword_ac = [], ctx_keyword_ids = []\<rparr>
    :: 'a engine"
  obtain e kws idx where b: "build_engine (enumerate 0 ps) ([], \<lambda>_. None) ?e0 = (e, (kws, idx))"
    by (metis prod_cases3)
  have E: "ENGINE ps = e\<lparr>keyword_ac := kws\<rparr>" by (simp add: ENGINE_def b)
  have "interner_ok ([], \<lambda>_. None)" by (simp add: interner_ok_def)
  note ok = build_engine_ok [OF b this]
  show n: "noctx_map (ENGINE ps) = filter (\<lambda>i. context_keys (ps ! i) = []) [0..<length ps]"
    and c: "ctx_indices (ENGINE ps) = filter (\<lambda>i. context_keys (ps ! i) \<noteq> []) [0..<length ps]"
    using ok by (simp_all add: E map_fst_filter_enumerate)
  show "noctx_set (ENGINE ps) = map (\<lambda>i. re (ps ! i)) (noctx_map (ENGINE ps))"
    unfolding n using ok by (simp add: E filter_enumerate_snd)
  have "list_all2 (\<lambda>ids (i, p). ids_for kws ids p) (ctx_keyword_ids e)
      (filter (\<lambda>(i, p). context_keys p \<noteq> []) (enumerate 0 ps))" using ok by auto
  then have "list_all2 (\<lambda>ids i. ids_for kws ids (ps ! i)) (ctx_keyword_ids e)
      (map fst (filter (\<lambda>(i, p). context_keys p \<noteq> []) (enumerate 0 ps)))"
    unfolding list_all2_map2 by (rule list.rel_mono_strong) (auto simp: in_set_enumerate_eq)
  then show "list_all2 (\<lambda>ids i. ids_for (keyword_ac (ENGINE ps)) ids (ps ! i))
      (ctx_keyword_ids (ENGINE ps)) (ctx_indices (ENGINE ps))"
    unfolding c by (simp add: E map_fst_filter_enumerate)
qed

section \<open>The prefilter changes nothing\<close>

lemma contains_str_iff: "contains_str s p \<longleftrightarrow> (\<exists>a b. s = a @ p @ b)"
proof
  assume "contains_str s p"
  then obtain i where "i \<le> length s" "take (length p) (drop i s) = p"
    unfolding contains_str_def find_str_None by blast
  then have "s = take i s @ p @ drop (length p) (drop i s)"
    by (metis append_take_drop_id)
  then show "\<exists>a b. s = a @ p @ b" by blast
next
  assume "\<exists>a b. s = a @ p @ b"
  then obtain a b where "s = a @ p @ b" by blast
  then have "length a \<le> length s" "take (length p) (drop (length a) s) = p" by simp_all
  then show "contains_str s p" unfolding contains_str_def find_str_None by blast
qed

text \<open>A pattern can only record something when this holds: it has no keyword and matches, or
  one of its keywords occurs in the lowercased text.\<close>

definition relevant ::
  "('re \<Rightarrow> rstr \<Rightarrow> (nat \<times> nat) list) \<Rightarrow> rstr \<Rightarrow> 're pattern \<Rightarrow> bool" where
  "relevant find_iter txt p \<longleftrightarrow>
     (if context_keys p = [] then find_iter (re p) txt \<noteq> []
      else list_ex (contains_str (map to_ascii_lowercase txt)) (context_keys p))"

lemma present_flags:
  "length (foldl (\<lambda>pr k. pr[k := True]) bs xs) = length bs \<and>
   (i < length bs \<longrightarrow> foldl (\<lambda>pr k. pr[k := True]) bs xs ! i = (bs ! i \<or> i \<in> set xs))"
proof (induction xs arbitrary: bs)
  case Nil
  then show ?case by simp
next
  case (Cons k xs)
  have "i < length bs \<Longrightarrow> bs[k := True] ! i = (bs ! i \<or> i = k)"
    by (cases "i = k") simp_all
  with Cons [of "bs[k := True]"] show ?case by auto
qed

lemma map_snd_filter_enumerate:
  assumes "\<And>j. j < length L \<Longrightarrow> Q j = R (L ! j)"
  shows "map snd (filter (\<lambda>(j, x). Q j) (enumerate 0 L)) = filter R L"
proof -
  have "filter (\<lambda>(j, x). Q j) (enumerate 0 L) = filter (R \<circ> snd) (enumerate 0 L)"
    using assms by (intro filter_cong) (auto simp: in_set_enumerate_eq)
  also have "map snd \<dots> = filter R (map snd (enumerate 0 L))" by (rule filter_map [symmetric])
  finally show ?thesis by simp
qed

lemma candidates_set:
  fixes ps :: "'re pattern list"
  assumes "set_laws find_iter set_matches" "keyword_laws ac_find"
  shows "distinct (candidates set_matches ac_find (ENGINE ps) txt) \<and>
    set (candidates set_matches ac_find (ENGINE ps) txt)
      = {i. i < length ps \<and> relevant find_iter txt (ps ! i)}"
proof -
  let ?E = "ENGINE ps" and ?low = "map to_ascii_lowercase txt"
  let ?nm = "noctx_map ?E"
  let ?present = "foldl (\<lambda>pr kid. pr[kid := True]) (replicate (length (keyword_ac ?E)) False)
      (ac_find (keyword_ac ?E) ?low)"
  let ?R = "\<lambda>i. list_ex (contains_str ?low) (context_keys (ps ! i))"
  have nm: "distinct ?nm" unfolding engine_lists(1) by simp
  have flag: "?present ! i = contains_str ?low (keyword_ac ?E ! i)" if "i < length (keyword_ac ?E)" for i
    using present_flags [of "replicate (length (keyword_ac ?E)) False" "ac_find (keyword_ac ?E) ?low" i]
      that assms(2) unfolding keyword_laws_def by simp
  have ids: "list_ex (\<lambda>kid. ?present ! kid) (ctx_keyword_ids ?E ! j) = ?R (ctx_indices ?E ! j)"
    if "j < length (ctx_indices ?E)" for j
  proof -
    from engine_lists(4) [of ps] that
    have f: "ids_for (keyword_ac ?E) (ctx_keyword_ids ?E ! j) (ps ! (ctx_indices ?E ! j))"
      by (simp add: list_all2_conv_all_nth)
    then have "list_ex (\<lambda>kid. ?present ! kid) (ctx_keyword_ids ?E ! j)
        = list_ex (\<lambda>kid. contains_str ?low (keyword_ac ?E ! kid)) (ctx_keyword_ids ?E ! j)"
      using flag unfolding ids_for_def by (auto simp: list_ex_iff list_all_iff)
    also have "\<dots> = list_ex (contains_str ?low) (map ((!) (keyword_ac ?E)) (ctx_keyword_ids ?E ! j))"
      by (simp add: list_ex_iff)
    finally show ?thesis using f by (simp add: ids_for_def)
  qed
  let ?c1 = "map (\<lambda>si. ?nm ! si) (set_matches (noctx_set ?E) txt)" and ?c2 = "filter ?R (ctx_indices ?E)"
  have cand: "candidates set_matches ac_find ?E txt = ?c1 @ ?c2"
    unfolding candidates_def Let_def
    by (simp only: map_snd_filter_enumerate [of "ctx_indices ?E"
          "\<lambda>j. list_ex (\<lambda>kid. ?present ! kid) (ctx_keyword_ids ?E ! j)" ?R, OF ids])
  have m: "distinct (set_matches (noctx_set ?E) txt)"
    "set (set_matches (noctx_set ?E) txt) = {si. si < length ?nm \<and> find_iter (re (ps ! (?nm ! si))) txt \<noteq> []}"
    using assms(1) unfolding set_laws_def engine_lists(2) by auto
  have "distinct ?c1"
    using m nm by (auto simp: distinct_map inj_on_def nth_eq_iff_index_eq)
  moreover have s1: "set ?c1 = {i. i < length ps \<and> context_keys (ps ! i) = [] \<and> find_iter (re (ps ! i)) txt \<noteq> []}"
  proof -
    have "set ?c1 = {i \<in> set ?nm. find_iter (re (ps ! i)) txt \<noteq> []}"
      using m(2) by (auto simp: in_set_conv_nth image_iff)
    then show ?thesis unfolding engine_lists(1) by auto
  qed
  moreover have s2: "set ?c2 = {i. i < length ps \<and> context_keys (ps ! i) \<noteq> [] \<and> ?R i}" "distinct ?c2"
    unfolding engine_lists(3) by auto
  ultimately show ?thesis unfolding cand relevant_def by auto
qed

lemma whole_word_absent:
  assumes "\<not> contains_str hay needle"
  shows "whole_word_contains hay needle = Some False"
  using assms
  by (simp add: whole_word_contains_def contains_str_def whole_word_loop.simps [of hay needle 0]
      slice_def)

lemma any_key_absent:
  "\<not> list_ex (contains_str before) ks \<Longrightarrow> \<not> list_ex (contains_str after) ks \<Longrightarrow>
     any_key before after ks = Some False"
  by (induction ks) (simp_all add: whole_word_absent)

lemma contains_window:
  assumes "contains_str (map to_ascii_lowercase (take n (drop a txt))) k"
  shows "contains_str (map to_ascii_lowercase txt) k"
proof -
  let ?L = "map to_ascii_lowercase"
  from assms obtain u v where "?L (take n (drop a txt)) = u @ k @ v"
    unfolding contains_str_iff by blast
  then have "?L txt = (?L (take a txt) @ u) @ k @ (v @ ?L (drop n (drop a txt)))"
    by (metis append_take_drop_id append.assoc map_append)
  then show ?thesis unfolding contains_str_iff by blast
qed

lemma has_context_absent:
  assumes "s \<le> e" "e \<le> length txt" "is_char_boundary txt s" "is_char_boundary txt e"
    and no: "\<not> list_ex (contains_str (map to_ascii_lowercase txt)) ks"
  shows "has_context txt s e ks = Some False"
proof -
  have b: "is_char_boundary txt (boundary_below txt (s - 48)) \<and> boundary_below txt (s - 48) \<le> s"
    using boundary_below_ok [of "txt" "s - 48"] by auto
  have a: "is_char_boundary txt (boundary_above txt (min (e + 48) (length txt))) \<and>
      e \<le> boundary_above txt (min (e + 48) (length txt)) \<and>
      boundary_above txt (min (e + 48) (length txt)) \<le> length txt"
    using boundary_above_ok [of "min (e + 48) (length txt)" "txt"] assms(2) by auto
  have w: "\<not> list_ex (contains_str (map to_ascii_lowercase (take n (drop k txt)))) ks" for n k
    using no contains_window [of n k "txt"] by (auto simp: list_ex_iff)
  show ?thesis
    using assms(1-4) a b
    by (simp add: has_context_def slice_def any_key_absent w)
qed

lemma scan_matches_irrelevant:
  assumes "\<forall>(s, e) \<in> set ms. s \<le> e \<and> e \<le> length txt \<and> is_char_boundary txt s \<and> is_char_boundary txt e"
    and "context_keys pat \<noteq> []"
    and "\<not> list_ex (contains_str (map to_ascii_lowercase txt)) (context_keys pat)"
  shows "scan_matches txt pat ms sps = Some sps"
  using assms(1)
proof (induction ms)
  case Nil
  then show ?case by simp
next
  case (Cons m ms)
  obtain s e where m: "m = (s, e)" by fastforce
  with Cons.prems assms(2,3) have "has_context txt s e (context_keys pat) = Some False"
    by (intro has_context_absent) auto
  with Cons m assms(2) show ?case by (simp add: slice_def)
qed

lemma scan_patterns_filter:
  assumes "\<And>i sps. i \<in> set L \<Longrightarrow> \<not> R i \<Longrightarrow> scan_matches txt (f i) (find_iter (re (f i)) txt) sps = Some sps"
  shows "scan_patterns find_iter txt (map f L) sps = scan_patterns find_iter txt (map f (filter R L)) sps"
  using assms by (induction L arbitrary: sps) (auto split: bind_splits)

text \<open>The reference: every pattern of the table is run, credentials first.\<close>

definition redact_reference ::
  "('re \<Rightarrow> rstr \<Rightarrow> (nat \<times> nat) list) \<Rightarrow> 're pattern list \<Rightarrow> rstr \<Rightarrow> redaction_output option" where
  "redact_reference find_iter ps txt =
     do { sps \<leftarrow> scan_patterns find_iter txt
            (filter (\<lambda>p. pat_label p = Secret) ps @ filter (\<lambda>p. pat_label p \<noteq> Secret) ps) [];
          let sorted_spans = sort_key (\<lambda>s. (span_start s, span_end s)) sps in
          do { out \<leftarrow> render_redacted txt sorted_spans;
               Some \<lparr>input = txt, redacted = out, spans = sorted_spans\<rparr> } }"

lemma filter_nth_upt: "map ((!) ps) (filter (\<lambda>i. P (ps ! i)) [0..<length ps]) = filter P ps"
proof -
  have "map ((!) ps) (filter (P \<circ> (!) ps) [0..<length ps]) = filter P (map ((!) ps) [0..<length ps])"
    by (rule filter_map [symmetric])
  then show ?thesis by (simp add: map_nth comp_def)
qed

lemma sorted_by_secret:
  fixes ps :: "'re pattern list"
  shows "sort_key (cand_key ps) [0..<length ps]
     = filter (\<lambda>i. pat_label (ps ! i) = Secret) [0..<length ps]
       @ filter (\<lambda>i. pat_label (ps ! i) \<noteq> Secret) [0..<length ps]" (is "_ = ?s @ ?o")
proof (rule sort_key_inj_key_eq)
  have "set [0..<length ps] = set (?s @ ?o)" by auto
  then show "mset [0..<length ps] = mset (?s @ ?o)"
    by (subst set_eq_iff_mset_eq_distinct [symmetric]) auto
  show "inj_on (cand_key ps) (set [0..<length ps])" by (auto simp: inj_on_def cand_key_def)
  have inc: "sorted (map (cand_key ps) (filter (\<lambda>i. (pat_label (ps ! i) = Secret) = b) [0..<length ps]))" for b
    unfolding sorted_map
    by (rule sorted_wrt_mono_rel [OF _ sorted_wrt_filter [OF sorted_wrt_upt]])
      (auto simp: cand_key_def less_eq_prod_def)
  from inc [of True] inc [of False] show "sorted (map (cand_key ps) (?s @ ?o))"
    by (auto simp: sorted_append cand_key_def less_eq_prod_def)
qed

lemma scan_candidates:
  assumes "find_laws find_iter" "set_laws find_iter set_matches" "keyword_laws ac_find"
  shows "scan_patterns find_iter txt
      (map (\<lambda>i. ps ! i) (sort_key (cand_key ps) (candidates set_matches ac_find (ENGINE ps) txt))) []
    = scan_patterns find_iter txt
      (filter (\<lambda>p. pat_label p = Secret) ps @ filter (\<lambda>p. pat_label p \<noteq> Secret) ps) []"
proof -
  let ?cand = "candidates set_matches ac_find (ENGINE ps) txt"
  let ?R = "\<lambda>i. relevant find_iter txt (ps ! i)"
  let ?all = "sort_key (cand_key ps) [0..<length ps]"
  have inj: "inj_on (cand_key ps) A" for A by (auto simp: inj_on_def cand_key_def)
  from candidates_set [OF assms(2,3), of ps "txt"]
  have c: "distinct ?cand" "set ?cand = {i. i < length ps \<and> ?R i}" by blast+
  have "sort_key (cand_key ps) ?cand = filter ?R ?all"
  proof (rule sort_key_inj_key_eq [OF _ inj])
    have "set ?cand = set (filter ?R ?all)" unfolding c(2) by auto
    then show "mset ?cand = mset (filter ?R ?all)"
      by (subst set_eq_iff_mset_eq_distinct [symmetric]) (use c(1) in auto)
    show "sorted (map (cand_key ps) (filter ?R ?all))" by (rule sorted_filter) simp
  qed
  moreover have "scan_patterns find_iter txt (map ((!) ps) ?all) []
      = scan_patterns find_iter txt (map ((!) ps) (filter ?R ?all)) []"
  proof (rule scan_patterns_filter)
    fix i sps assume i: "i \<in> set ?all" "\<not> ?R i"
    show "scan_matches txt (ps ! i) (find_iter (re (ps ! i)) txt) sps = Some sps"
    proof (cases "context_keys (ps ! i) = []")
      case True
      with i(2) show ?thesis by (simp add: relevant_def)
    next
      case False
      with i(2) assms(1) show ?thesis
        by (intro scan_matches_irrelevant) (auto simp: relevant_def find_laws_def)
    qed
  qed
  moreover have "map ((!) ps) ?all
      = filter (\<lambda>p. pat_label p = Secret) ps @ filter (\<lambda>p. pat_label p \<noteq> Secret) ps"
    using filter_nth_upt [of ps "\<lambda>p. pat_label p = Secret"]
      filter_nth_upt [of ps "\<lambda>p. pat_label p \<noteq> Secret"]
    by (simp add: sorted_by_secret)
  ultimately show ?thesis by simp
qed

lemma redact_one_reference:
  assumes "find_laws find_iter" "set_laws find_iter set_matches" "keyword_laws ac_find"
  shows "redact_one find_iter set_matches ac_find ps txt = redact_reference find_iter ps txt"
proof (cases "candidates set_matches ac_find (ENGINE ps) txt = []")
  case True
  then show ?thesis
    unfolding redact_one_def redact_reference_def scan_candidates [OF assms, symmetric]
    by (simp add: render_redacted_def)
next
  case False
  with scan_candidates [OF assms, of "txt" ps] show ?thesis
    by (simp add: redact_one_def redact_reference_def)
qed

section \<open>The spans of the output\<close>

text \<open>Sorted by position, each inside the text with its own bytes, no two overlapping.\<close>

definition well_formed :: "rstr \<Rightarrow> redacted_span list \<Rightarrow> bool" where
  "well_formed txt sps \<longleftrightarrow> list_all (span_ok txt) sps \<and>
     sorted_wrt (\<lambda>a b. span_start a \<le> span_start b \<and> \<not> overlaps a b) sps"

lemma overlaps_sym: "overlaps a b = overlaps b a"
  by (auto simp: overlaps_def)

lemma pairwise_perm:
  assumes "sorted_wrt (\<lambda>a b. \<not> overlaps a b) xs" "mset ys = mset xs"
  shows "sorted_wrt (\<lambda>a b. \<not> overlaps a b) ys"
  using assms
proof (induction ys arbitrary: xs)
  case Nil
  then show ?case by simp
next
  case (Cons y ys)
  from Cons.prems(2) have "y \<in> set xs" by (metis list.set_intros(1) mset_eq_setD)
  then obtain us vs where xs: "xs = us @ y # vs" by (meson split_list)
  with Cons.prems(2) have m: "mset ys = mset (us @ vs)" by simp
  have s: "sorted_wrt (\<lambda>a b. \<not> overlaps a b) (us @ vs)"
    using Cons.prems(1) unfolding xs by (auto simp: sorted_wrt_append)
  have "\<forall>z \<in> set (us @ vs). \<not> overlaps y z"
    using Cons.prems(1) unfolding xs by (auto simp: sorted_wrt_append overlaps_sym)
  with m have "\<forall>z \<in> set ys. \<not> overlaps y z" by (metis mset_eq_setD)
  with Cons.IH [OF s m] show ?case by simp
qed

lemma well_formed_sort:
  assumes "spans_ok txt sps"
  shows "well_formed txt (sort_key (\<lambda>s. (span_start s, span_end s)) sps)"
proof -
  let ?f = "\<lambda>s. (span_start s, span_end s)" and ?ys = "sort_key (\<lambda>s. (span_start s, span_end s)) sps"
  have "sorted_wrt (\<lambda>a b. ?f a \<le> ?f b) ?ys" using sorted_sort_key [of ?f sps] by (simp only: sorted_map)
  moreover have "sorted_wrt (\<lambda>a b. \<not> overlaps a b) ?ys"
    using assms by (simp add: pairwise_perm [of sps] spans_ok_def)
  ultimately have both: "sorted_wrt (\<lambda>a b. ?f a \<le> ?f b \<and> \<not> overlaps a b) ?ys"
    unfolding sorted_wrt_iff_nth_less by blast
  have "sorted_wrt (\<lambda>a b. span_start a \<le> span_start b \<and> \<not> overlaps a b) ?ys"
    by (rule sorted_wrt_mono_rel [OF _ both]) (auto simp: less_eq_prod_def)
  with assms show ?thesis by (auto simp: well_formed_def spans_ok_def list_all_iff)
qed

lemma redact_reference_parts:
  assumes "redact_reference find_iter ps txt = Some out"
  obtains sps where
    "scan_patterns find_iter txt
       (filter (\<lambda>p. pat_label p = Secret) ps @ filter (\<lambda>p. pat_label p \<noteq> Secret) ps) [] = Some sps"
    "spans out = sort_key (\<lambda>s. (span_start s, span_end s)) sps" "input out = txt"
    "render_redacted txt (spans out) = Some (redacted out)" "well_formed txt (spans out)"
proof -
  from assms obtain sps where
    1: "scan_patterns find_iter txt
       (filter (\<lambda>p. pat_label p = Secret) ps @ filter (\<lambda>p. pat_label p \<noteq> Secret) ps) [] = Some sps"
    and 2: "spans out = sort_key (\<lambda>s. (span_start s, span_end s)) sps" "input out = txt"
    "render_redacted txt (spans out) = Some (redacted out)"
    unfolding redact_reference_def Let_def by (auto split: bind_splits)
  have "spans_ok txt []" by (simp add: spans_ok_def)
  from scan_patterns_inv [OF 1 this] have "well_formed txt (spans out)"
    unfolding 2(1) by (intro well_formed_sort) blast
  with 1 2 that show ?thesis by blast
qed

section \<open>Rendering\<close>

text \<open>What stands at byte \<open>i\<close> of the rendered text: the placeholder of a span that starts there,
  and the byte itself unless a span covers it.\<close>

definition position_output :: "rstr \<Rightarrow> redacted_span list \<Rightarrow> nat \<Rightarrow> rstr" where
  "position_output txt sps i =
     concat (map (\<lambda>sp. placeholder (span_lab sp)) (filter (\<lambda>sp. span_start sp = i) sps))
     @ (if list_ex (\<lambda>sp. span_start sp \<le> i \<and> i < span_end sp) sps then [] else [txt ! i])"

definition nonempty_spans :: "redacted_span list \<Rightarrow> bool" where
  "nonempty_spans sps \<longleftrightarrow> list_all (\<lambda>sp. span_start sp < span_end sp) sps"

lemma upt_split3: "a \<le> b \<Longrightarrow> b \<le> c \<Longrightarrow> c \<le> d \<Longrightarrow> [a..<d] = [a..<b] @ [b..<c] @ [c..<d]"
  by (metis le_Suc_ex upt_add_eq_append le_trans)

lemma take_drop_nths: "b \<le> length s \<Longrightarrow> take (b - a) (drop a s) = map ((!) s) [a..<b]"
  by (auto simp: list_eq_iff_nth_eq)

lemma concat_singletons: "concat (map (\<lambda>i. [f i]) xs) = map f xs"
  by (induction xs) auto

lemma concat_map_nil: "\<forall>x \<in> set xs. f x = [] \<Longrightarrow> concat (map f xs) = []"
  by (induction xs) auto

lemma position_output_Nil: "position_output txt [] = (\<lambda>i. [txt ! i])"
  by (simp add: position_output_def fun_eq_iff)

lemma render_loop_pointwise:
  "well_formed txt sps \<Longrightarrow> nonempty_spans sps \<Longrightarrow> list_all (\<lambda>sp. cursor \<le> span_start sp) sps \<Longrightarrow>
     is_char_boundary txt cursor \<Longrightarrow> cursor \<le> length txt \<Longrightarrow>
     render_loop txt cursor sps = Some (concat (map (position_output txt sps) [cursor..<length txt]))"
proof (induction sps arbitrary: cursor)
  case Nil
  have "concat (map (position_output txt []) [cursor..<length txt]) = map ((!) txt) [cursor..<length txt]"
    by (simp add: position_output_Nil concat_singletons)
  moreover have "drop cursor txt = map ((!) txt) [cursor..<length txt]"
    by (auto simp: list_eq_iff_nth_eq)
  ultimately show ?case using Nil by (simp add: slice_def)
next
  case (Cons sp sps)
  let ?s = "span_start sp" and ?e = "span_end sp"
  from Cons.prems have ok: "span_ok txt sp" "?s < ?e" "cursor \<le> ?s" "well_formed txt sps" "nonempty_spans sps"
    by (auto simp: well_formed_def nonempty_spans_def)
  then have b: "?e \<le> length txt" "is_char_boundary txt ?s" "is_char_boundary txt ?e"
    by (auto simp: span_ok_def)
  have after: "?e \<le> span_start q" if "q \<in> set sps" for q
  proof -
    from Cons.prems(1) that have "?s \<le> span_start q" "\<not> overlaps sp q" by (auto simp: well_formed_def)
    moreover from that ok(5) have "span_start q < span_end q" by (auto simp: nonempty_spans_def list_all_iff)
    ultimately show ?thesis by (simp add: overlaps_def)
  qed
  have rec: "render_loop txt ?e sps = Some (concat (map (position_output txt sps) [?e..<length txt]))"
    by (rule Cons.IH) (use ok b after in \<open>auto simp: list_all_iff\<close>)
  let ?o = "position_output txt (sp # sps)"
  have before: "?o i = [txt ! i]" if "i < ?s" for i
    using that after ok(2) by (auto simp: position_output_def list_ex_iff filter_empty_conv dest: after)
  have first: "?o ?s = placeholder (span_lab sp)"
    using ok(2) after by (auto simp: position_output_def filter_empty_conv dest: after)
  have inner: "?o i = []" if "?s < i" "i < ?e" for i
    using that after by (auto simp: position_output_def filter_empty_conv dest: after)
  have rest: "?o i = position_output txt sps i" if "?e \<le> i" for i
    using that ok(2) by (auto simp: position_output_def)
  have "[?s..<?e] = ?s # [Suc ?s..<?e]" using ok(2) by (rule upt_conv_Cons)
  then have mid: "concat (map ?o [?s..<?e]) = placeholder (span_lab sp)"
    using inner first by (simp add: concat_map_nil)
  have "map ?o [cursor..<?s] = map (\<lambda>i. [txt ! i]) [cursor..<?s]" using before by simp
  then have "concat (map ?o [cursor..<?s]) = map ((!) txt) [cursor..<?s]"
    by (simp only: concat_singletons)
  moreover have "concat (map ?o [?e..<length txt]) = concat (map (position_output txt sps) [?e..<length txt])"
    by (rule arg_cong [where f = concat], rule map_cong) (simp_all add: rest)
  ultimately have "concat (map ?o [cursor..<length txt]) = map ((!) txt) [cursor..<?s] @
      placeholder (span_lab sp) @ concat (map (position_output txt sps) [?e..<length txt])"
    using upt_split3 [of cursor ?s ?e "length txt"] ok b mid by simp
  moreover have "slice txt cursor ?s = Some (map ((!) txt) [cursor..<?s])"
    using ok b Cons.prems(4) by (simp add: take_drop_nths)
  ultimately show ?case using ok(3) rec by (simp del: slice_Some)
qed

lemma render_pointwise:
  assumes "well_formed txt sps" "nonempty_spans sps"
  shows "render_redacted txt sps = Some (concat (map (position_output txt sps) [0..<length txt]))"
proof (cases "sps = []")
  case True
  then show ?thesis
    by (simp add: render_redacted_def position_output_Nil concat_singletons map_nth)
next
  case False
  with render_loop_pointwise [OF assms, of 0] show ?thesis
    by (simp add: render_redacted_def list_all_iff)
qed

lemma render_with_loop_eq:
  "render_with_loop txt cursor sps out = map_option (\<lambda>t. out @ t) (render_loop txt cursor sps)"
proof (induction sps arbitrary: cursor out)
  case Nil
  then show ?case by simp
next
  case (Cons sp sps)
  then show ?case
    by (cases "slice txt cursor (span_start sp)"; cases "render_loop txt (span_end sp) sps")
      (simp_all del: slice_Some slice_None)
qed

lemma render_with_spans_eq: "render_with_spans txt sps = render_redacted txt sps"
  by (simp add: render_with_spans_def render_redacted_def render_with_loop_eq option.map_ident)

lemma well_formed_filter: "well_formed txt sps \<Longrightarrow> well_formed txt (filter P sps)"
  by (auto simp: well_formed_def list_all_iff sorted_wrt_filter)

lemma nonempty_filter: "nonempty_spans sps \<Longrightarrow> nonempty_spans (filter P sps)"
  by (auto simp: nonempty_spans_def list_all_iff)

text \<open>Matches of patterns that never match the empty string give nonempty spans.\<close>

definition nonempty_matches :: "('re \<Rightarrow> rstr \<Rightarrow> (nat \<times> nat) list) \<Rightarrow> bool" where
  "nonempty_matches find_iter \<longleftrightarrow> (\<forall>r txt s e. (s, e) \<in> set (find_iter r txt) \<longrightarrow> s < e)"

lemma scan_matches_nonempty:
  "scan_matches txt pat ms sps = Some sps' \<Longrightarrow> \<forall>(s, e) \<in> set ms. s < e \<Longrightarrow> nonempty_spans sps \<Longrightarrow>
     nonempty_spans sps'"
  by (induction "txt" pat ms sps arbitrary: sps' rule: scan_matches.induct)
    (auto simp: nonempty_spans_def split: bind_splits if_splits)

lemma scan_patterns_nonempty:
  "nonempty_matches find_iter \<Longrightarrow> scan_patterns find_iter txt ps sps = Some sps' \<Longrightarrow> nonempty_spans sps \<Longrightarrow>
     nonempty_spans sps'"
proof (induction ps arbitrary: sps)
  case Nil
  then show ?case by simp
next
  case (Cons p ps)
  then obtain sps1 where "scan_matches txt p (find_iter (re p) txt) sps = Some sps1"
    "scan_patterns find_iter txt ps sps1 = Some sps'"
    by (cases "scan_matches txt p (find_iter (re p) txt) sps") simp_all
  moreover have "\<forall>(s, e) \<in> set (find_iter (re p) txt). s < e"
    using Cons.prems(1) by (auto simp: nonempty_matches_def)
  ultimately show ?case using Cons scan_matches_nonempty by blast
qed

section \<open>Where the redactor can panic\<close>

text \<open>In valid UTF-8 the byte after an ASCII byte starts a character.\<close>

definition valid_text :: "rstr \<Rightarrow> bool" where
  "valid_text s \<longleftrightarrow> successively (\<lambda>a b. a < 128 \<longrightarrow> \<not> is_continuation b) s"

lemma successively_nth: "successively P xs \<Longrightarrow> Suc i < length xs \<Longrightarrow> P (xs ! i) (xs ! Suc i)"
  by (simp add: successively_conv_nth)

lemma valid_text_lower: "valid_text (map to_ascii_lowercase s) = valid_text s"
  unfolding valid_text_def successively_map
  by (rule successively_cong)
    (auto simp: to_ascii_lowercase_def is_ascii_uppercase_def is_continuation_def)

lemma valid_text_window: "valid_text s \<Longrightarrow> valid_text (take n (drop a s))"
  by (auto simp: valid_text_def successively_conv_nth)

lemma encode_char_valid: "valid_text (encode_char c) \<and> (\<forall>b. last (encode_char c) = b \<longrightarrow> b < 128 \<longrightarrow> c < 128)"
  by (auto simp: encode_char_def valid_text_def is_continuation_def)

lemma encode_char_lead: "encode_char c \<noteq> [] \<and> \<not> is_continuation (hd (encode_char c))"
  by (auto simp: encode_char_def is_continuation_def)

lemma utf8_valid: "valid_text (utf8 cs)"
proof (induction cs)
  case Nil
  then show ?case by (simp add: utf8_def valid_text_def)
next
  case (Cons c cs)
  have hd: "utf8 cs \<noteq> [] \<Longrightarrow> \<not> is_continuation (hd (utf8 cs))"
    using encode_char_lead by (cases cs) (auto simp: utf8_def)
  have "utf8 (c # cs) = encode_char c @ utf8 cs" by (simp add: utf8_def)
  with Cons encode_char_valid [of c] hd show ?case
    by (auto simp: valid_text_def successively_append_iff)
qed

definition ascii_initial :: "rstr \<Rightarrow> bool" where
  "ascii_initial k \<longleftrightarrow> k \<noteq> [] \<and> k ! 0 < 128"

lemma whole_word_loop_total:
  "valid_text hay \<Longrightarrow> ascii_initial needle \<Longrightarrow> frm \<le> length hay \<Longrightarrow> is_char_boundary hay frm \<Longrightarrow>
     whole_word_loop hay needle frm \<noteq> None"
proof (induction hay needle frm rule: whole_word_loop.induct)
  case (1 hay needle frm)
  have sl: "slice hay frm (length hay) = Some (drop frm hay)"
    using "1.prems" by (simp add: slice_def)
  show ?case
  proof (cases "find_str (drop frm hay) needle")
    case None
    then show ?thesis by (subst whole_word_loop.simps) (simp add: sl del: slice_Some)
  next
    case (Some rel)
    let ?i = "frm + rel"
    from find_str_SomeD [OF Some] have b: "rel + length needle \<le> length (drop frm hay)"
      "take (length needle) (drop rel (drop frm hay)) = needle" by auto
    from "1.prems"(2) have n: "needle \<noteq> []" "needle ! 0 < 128" by (auto simp: ascii_initial_def)
    with b have len: "?i < length hay" by (cases needle) auto
    have "hay ! ?i = take (length needle) (drop rel (drop frm hay)) ! 0"
      using n len by (simp add: add.commute)
    with b(2) n have "hay ! ?i < 128" by simp
    with "1.prems"(1) len have bd: "is_char_boundary hay (?i + 1)"
      by (cases "Suc ?i = length hay")
        (auto simp: is_char_boundary_def valid_text_def dest: successively_nth [of _ hay ?i])
    have rec: "whole_word_loop hay needle (?i + 1) \<noteq> None"
      if "\<not> ((?i = 0 \<or> \<not> is_ascii_alphanumeric (hay ! (?i - 1))) \<and>
         (?i + length needle \<ge> length hay \<or> \<not> is_ascii_alphanumeric (hay ! (?i + length needle))))"
      by (rule "1.IH" [OF sl Some refl refl refl refl that]) (use "1.prems" len bd in auto)
    show ?thesis
      by (subst whole_word_loop.simps) (use rec in \<open>auto simp: sl Some Let_def simp del: slice_Some\<close>)
  qed
qed

lemma any_key_total:
  "valid_text before \<Longrightarrow> valid_text after \<Longrightarrow> list_all ascii_initial ks \<Longrightarrow> any_key before after ks \<noteq> None"
proof (induction ks)
  case Nil
  then show ?case by simp
next
  case (Cons k ks)
  have "whole_word_contains h k \<noteq> None" if "valid_text h" for h
    using Cons.prems(3) that whole_word_loop_total [of h k 0]
    by (auto simp: whole_word_contains_def)
  with Cons.prems obtain b a where "whole_word_contains before k = Some b"
    "whole_word_contains after k = Some a" by blast
  with Cons show ?case by auto
qed

lemma has_context_total:
  assumes "valid_text txt" "list_all ascii_initial ks"
    and "s \<le> e" "e \<le> length txt" "is_char_boundary txt s" "is_char_boundary txt e"
  shows "has_context txt s e ks \<noteq> None"
proof -
  have b: "is_char_boundary txt (boundary_below txt (s - 48)) \<and> boundary_below txt (s - 48) \<le> s"
    using boundary_below_ok [of "txt" "s - 48"] by auto
  have a: "is_char_boundary txt (boundary_above txt (min (e + 48) (length txt))) \<and>
      e \<le> boundary_above txt (min (e + 48) (length txt)) \<and>
      boundary_above txt (min (e + 48) (length txt)) \<le> length txt"
    using boundary_above_ok [of "min (e + 48) (length txt)" "txt"] assms(4) by auto
  have "any_key (map to_ascii_lowercase (take n (drop i txt))) (map to_ascii_lowercase (take m (drop j txt))) ks \<noteq> None"
    for n i m j
    using assms(1,2) by (intro any_key_total) (simp_all add: valid_text_lower valid_text_window)
  with assms(3-6) a b show ?thesis by (simp add: has_context_def slice_def)
qed

lemma scan_matches_total:
  assumes "valid_text txt" "list_all ascii_initial (context_keys pat)"
    "\<forall>(s, e) \<in> set ms. s \<le> e \<and> e \<le> length txt \<and> is_char_boundary txt s \<and> is_char_boundary txt e"
  shows "scan_matches txt pat ms sps \<noteq> None"
  using assms(3)
proof (induction ms arbitrary: sps)
  case Nil
  then show ?case by simp
next
  case (Cons m ms)
  obtain s e where m: "m = (s, e)" by fastforce
  with Cons.prems have b: "s \<le> e" "e \<le> length txt" "is_char_boundary txt s" "is_char_boundary txt e"
    by auto
  from has_context_total [OF assms(1,2) b] obtain c where c: "has_context txt s e (context_keys pat) = Some c"
    by blast
  from Cons have IH: "scan_matches txt pat ms sps' \<noteq> None" for sps' by simp
  from b have "slice txt s e = Some (take (e - s) (drop s txt))" by simp
  with IH c show ?case by (simp add: m del: slice_Some slice_None)
qed

lemma scan_patterns_total:
  assumes "find_laws find_iter" "valid_text txt"
    "list_all (\<lambda>p. list_all ascii_initial (context_keys p)) ps"
  shows "scan_patterns find_iter txt ps sps \<noteq> None"
  using assms(3)
proof (induction ps arbitrary: sps)
  case Nil
  then show ?case by simp
next
  case (Cons p ps)
  have "scan_matches txt p (find_iter (re p) txt) sps \<noteq> None"
    by (rule scan_matches_total) (use assms Cons.prems in \<open>auto simp: find_laws_def\<close>)
  with Cons show ?case by auto
qed

lemma render_loop_total:
  "list_all (span_ok txt) sps \<Longrightarrow> is_char_boundary txt cursor \<Longrightarrow> cursor \<le> length txt \<Longrightarrow>
     render_loop txt cursor sps \<noteq> None"
proof (induction sps arbitrary: cursor)
  case Nil
  then show ?case by (simp del: not_None_eq)
next
  case (Cons sp sps)
  have sp: "span_start sp \<le> length txt" "span_end sp \<le> length txt" "is_char_boundary txt (span_start sp)"
    "is_char_boundary txt (span_end sp)"
    using Cons.prems(1) by (auto simp: span_ok_def)
  have "render_loop txt (span_end sp) sps \<noteq> None" by (rule Cons.IH) (use Cons.prems sp in auto)
  moreover have "render_loop txt cursor sps \<noteq> None" by (rule Cons.IH) (use Cons.prems in auto)
  moreover have "slice txt cursor (span_start sp) = Some (take (span_start sp - cursor) (drop cursor txt))"
    if "\<not> span_start sp < cursor"
    using that Cons.prems sp by simp
  ultimately show ?case by (auto simp del: slice_Some slice_None)
qed

lemma redact_reference_total:
  assumes "find_laws find_iter" "valid_text txt"
    "list_all (\<lambda>p. list_all ascii_initial (context_keys p)) ps"
  shows "redact_reference find_iter ps txt \<noteq> None"
proof -
  let ?ps = "filter (\<lambda>p. pat_label p = Secret) ps @ filter (\<lambda>p. pat_label p \<noteq> Secret) ps"
  have "scan_patterns find_iter txt ?ps [] \<noteq> None"
    by (rule scan_patterns_total [OF assms(1,2)]) (use assms(3) in \<open>auto simp: list_all_iff\<close>)
  then obtain sps where sps: "scan_patterns find_iter txt ?ps [] = Some sps" by blast
  have "spans_ok txt []" by (simp add: spans_ok_def)
  from scan_patterns_inv [OF sps this]
  have "list_all (span_ok txt) (sort_key (\<lambda>s. (span_start s, span_end s)) sps)"
    by (auto simp: spans_ok_def list_all_iff)
  then have "render_redacted txt (sort_key (\<lambda>s. (span_start s, span_end s)) sps) \<noteq> None"
    using render_loop_total [of "txt" "sort_key (\<lambda>s. (span_start s, span_end s)) sps" 0]
    by (simp add: render_redacted_def del: not_None_eq)
  then show ?thesis using sps by (auto simp: redact_reference_def Let_def)
qed

end
