(* ===== verification/RedactPipeline.thy ===== *)
theory RedactPipeline
  imports RedactCorrect
begin

text \<open>
  \<open>pipeline.rs\<close> and \<open>cache.rs\<close>: the regex pass, the policy, the optional AI pass and the
  cache. The AI adapter is a parameter, a function from the state of the world and the text
  it is sent to a result and the next state; the cache (\<open>moka\<close>) is a map from which entries
  may have gone at any moment (\<open>keep\<close>); \<open>sha256\<close> is a parameter. \<open>None\<close> is a panic.
\<close>

section \<open>Errors and adapters\<close>

datatype redact_error =
  Http rstr | HttpStatus nat rstr | Runtime rstr | Unavailable rstr | Database rstr | Unexpected rstr

record 'w ai_adapter =
  ai_name :: rstr
  ai_version :: nat
  ai_redact :: "'w \<Rightarrow> rstr \<Rightarrow> (redact_error + redaction_output) \<times> 'w"

record pipeline_config =
  ai_min_chars :: nat
  ai_skip_if_regex_spans :: nat
  policy :: redaction_policy

definition default_config :: pipeline_config where
  "default_config = \<lparr>ai_min_chars = 12, ai_skip_if_regex_spans = 5, policy = default_policy\<rparr>"

record 'w pipeline =
  regex :: "rstr \<Rightarrow> redaction_output option"
  ai :: "'w ai_adapter option"
  cfg :: pipeline_config

definition regex_only_with_policy ::
  "(rstr \<Rightarrow> redaction_output option) \<Rightarrow> redaction_policy \<Rightarrow> 'w pipeline" where
  "regex_only_with_policy rx pol =
     \<lparr>regex = rx, ai = None, cfg = default_config\<lparr>policy := pol\<rparr>\<rparr>"

definition regex_only :: "(rstr \<Rightarrow> redaction_output option) \<Rightarrow> 'w pipeline" where
  "regex_only rx = regex_only_with_policy rx default_policy"

definition regex_then_ai ::
  "(rstr \<Rightarrow> redaction_output option) \<Rightarrow> 'w ai_adapter \<Rightarrow> pipeline_config \<Rightarrow> 'w pipeline" where
  "regex_then_ai rx a c = \<lparr>regex = rx, ai = Some a, cfg = c\<rparr>"

definition REGEX_REDACTOR_VERSION :: nat where
  "REGEX_REDACTOR_VERSION = 2"

definition pipeline_name :: "'w pipeline \<Rightarrow> rstr" where
  "pipeline_name P =
     (case map_option ai_name (ai P) of
        None \<Rightarrow> lit ''pipeline+regex''
      | Some n \<Rightarrow> if n = lit ''tinfoil'' then lit ''pipeline+tinfoil''
                  else if contains_str n (lit ''onnx'') then lit ''pipeline+onnx''
                  else lit ''pipeline+ai'')"

definition pipeline_version :: "'w pipeline \<Rightarrow> nat" where
  "pipeline_version P =
     REGEX_REDACTOR_VERSION * 1000 + (case ai P of None \<Rightarrow> 0 | Some a \<Rightarrow> ai_version a)"

section \<open>The cache\<close>

type_synonym cache_map = "nat list \<Rightarrow> redaction_output option"

definition le_bytes4 :: "nat \<Rightarrow> nat list" where
  "le_bytes4 v = map (\<lambda>i. v div 256 ^ i mod 256) [0..<4]"

definition cache_key :: "(nat list \<Rightarrow> nat list) \<Rightarrow> rstr \<Rightarrow> rstr \<Rightarrow> nat \<Rightarrow> nat list" where
  "cache_key sha256 txt name version = sha256 (txt @ [0] @ name @ [0] @ le_bytes4 version)"

record 'w pipe_state =
  world :: 'w
  cache :: cache_map

definition cache_get :: "('w \<Rightarrow> nat list \<Rightarrow> bool) \<Rightarrow> 'w pipe_state \<Rightarrow> nat list \<Rightarrow> redaction_output option" where
  "cache_get keep st k = (if keep (world st) k then cache st k else None)"

section \<open>One text, then a batch\<close>

definition want_ai :: "'w pipeline \<Rightarrow> redaction_output \<Rightarrow> bool" where
  "want_ai P current \<longleftrightarrow> ai P \<noteq> None
     \<and> length (chars (input current)) \<ge> ai_min_chars (cfg P)
     \<and> length (spans current) < ai_skip_if_regex_spans (cfg P)"

text \<open>What the code does with the adapter's answer.\<close>

fun use_answer ::
  "redaction_policy \<Rightarrow> redaction_output \<Rightarrow> redact_error + redaction_output \<Rightarrow> redaction_output option" where
  "use_answer pol current (Inr ai_out) =
     (if spans ai_out = [] then Some (current\<lparr>redacted := redacted ai_out\<rparr>)
      else do { r \<leftarrow> apply_policy ai_out pol; Some (current\<lparr>redacted := redacted r\<rparr>) })"
| "use_answer pol current (Inl (Unavailable _)) = Some current"
| "use_answer pol current (Inl _) = Some current"

definition redact_text :: "'w pipeline \<Rightarrow> 'w \<Rightarrow> rstr \<Rightarrow> (redaction_output \<times> 'w) option" where
  "redact_text P w txt =
     do { regex_out \<leftarrow> regex P txt;
          current \<leftarrow> apply_policy regex_out (policy (cfg P));
          if want_ai P current then
            (let (ans, w') = ai_redact (the (ai P)) w (redacted current)
             in do { out \<leftarrow> use_answer (policy (cfg P)) current ans; Some (out, w') })
          else Some (current, w) }"

fun redact_batch ::
  "(nat list \<Rightarrow> nat list) \<Rightarrow> ('w \<Rightarrow> nat list \<Rightarrow> bool) \<Rightarrow> 'w pipeline \<Rightarrow> 'w pipe_state \<Rightarrow> rstr list \<Rightarrow>
   (redaction_output list \<times> 'w pipe_state) option" where
  "redact_batch sha256 keep P st [] = Some ([], st)"
| "redact_batch sha256 keep P st (txt # txts) =
     (let key = cache_key sha256 txt (pipeline_name P) (pipeline_version P) in
      case cache_get keep st key of
        Some hit \<Rightarrow>
          do { (outs, st') \<leftarrow> redact_batch sha256 keep P st txts; Some (hit # outs, st') }
      | None \<Rightarrow>
          do { (out, w) \<leftarrow> redact_text P (world st) txt;
               (outs, st') \<leftarrow> redact_batch sha256 keep P
                  \<lparr>world = w, cache = (cache st)(key \<mapsto> out)\<rparr> txts;
               Some (out # outs, st') })"

section \<open>Cached results are the results\<close>

text \<open>An adapter whose answers depend on the text only.\<close>

definition pure_ai :: "'w pipeline \<Rightarrow> (rstr \<Rightarrow> redact_error + redaction_output) \<Rightarrow> bool" where
  "pure_ai P g \<longleftrightarrow> (\<forall>a w t. ai P = Some a \<longrightarrow> ai_redact a w t = (g t, w))"

definition pure_result ::
  "'w pipeline \<Rightarrow> (rstr \<Rightarrow> redact_error + redaction_output) \<Rightarrow> rstr \<Rightarrow> redaction_output option" where
  "pure_result P g txt =
     do { regex_out \<leftarrow> regex P txt;
          current \<leftarrow> apply_policy regex_out (policy (cfg P));
          if want_ai P current then use_answer (policy (cfg P)) current (g (redacted current))
          else Some current }"

lemma redact_text_pure:
  assumes "pure_ai P g"
  shows "redact_text P w txt = map_option (\<lambda>out. (out, w)) (pure_result P g txt)"
proof -
  have "ai_redact (the (ai P)) w t = (g t, w)" if "want_ai P c" for c t
    using that assms by (auto simp: want_ai_def pure_ai_def)
  then show ?thesis
  proof (cases "regex P txt")
    case (Some r)
    with \<open>\<And>c t. want_ai P c \<Longrightarrow> ai_redact (the (ai P)) w t = (g t, w)\<close> show ?thesis
      by (cases "apply_policy r (policy (cfg P))")
        (auto simp: redact_text_def pure_result_def split: bind_splits)
  qed (simp add: redact_text_def pure_result_def)
qed

definition cache_ok ::
  "(nat list \<Rightarrow> nat list) \<Rightarrow> 'w pipeline \<Rightarrow> (rstr \<Rightarrow> redact_error + redaction_output) \<Rightarrow> 'w pipe_state \<Rightarrow> bool" where
  "cache_ok sha256 P g st \<longleftrightarrow> (\<forall>txt v.
     cache st (cache_key sha256 txt (pipeline_name P) (pipeline_version P)) = Some v \<longrightarrow>
     pure_result P g txt = Some v)"

lemma cache_key_inj:
  "inj sha256 \<Longrightarrow> cache_key sha256 a n v = cache_key sha256 b n v \<Longrightarrow> a = b"
  by (simp add: cache_key_def inj_eq)

fun all_results :: "(rstr \<Rightarrow> redaction_output option) \<Rightarrow> rstr list \<Rightarrow> redaction_output list option" where
  "all_results f [] = Some []"
| "all_results f (t # ts) = do { r \<leftarrow> f t; rs \<leftarrow> all_results f ts; Some (r # rs) }"

lemma redact_batch_pure:
  assumes "inj sha256" "pure_ai P g" "cache_ok sha256 P g st"
    and "redact_batch sha256 keep P st txts = Some (outs, st')"
  shows "all_results (pure_result P g) txts = Some outs \<and> cache_ok sha256 P g st'"
  using assms(3,4)
proof (induction txts arbitrary: st outs)
  case Nil
  then show ?case by simp
next
  case (Cons t ts)
  let ?key = "\<lambda>t. cache_key sha256 t (pipeline_name P) (pipeline_version P)"
  show ?case
  proof (cases "cache_get keep st (?key t)")
    case (Some hit)
    with Cons.prems(2) obtain os where
      1: "redact_batch sha256 keep P st ts = Some (os, st')" "outs = hit # os"
      by (auto simp: Let_def split: bind_splits)
    from Some Cons.prems(1) have "pure_result P g t = Some hit"
      by (auto simp: cache_get_def cache_ok_def split: if_splits)
    with Cons.IH [OF Cons.prems(1) 1(1)] 1(2) show ?thesis by simp
  next
    case None
    with Cons.prems(2) obtain out w os where
      1: "redact_text P (world st) t = Some (out, w)" "outs = out # os"
      "redact_batch sha256 keep P \<lparr>world = w, cache = (cache st)(?key t \<mapsto> out)\<rparr> ts = Some (os, st')"
      by (auto simp: Let_def split: bind_splits)
    from 1(1) have r: "pure_result P g t = Some out"
      unfolding redact_text_pure [OF assms(2)] by auto
    with Cons.prems(1) have "cache_ok sha256 P g \<lparr>world = w, cache = (cache st)(?key t \<mapsto> out)\<rparr>"
      by (auto simp: cache_ok_def dest: cache_key_inj [OF assms(1)] split: if_splits)
    from Cons.IH [OF this 1(3)] r 1(2) show ?thesis by simp
  qed
qed

end
