(* ===== verification/RedactProperties.thy ===== *)
theory RedactProperties
  imports RedactPipeline IdsEurope
begin

text \<open>
  The properties of the redactor, with literal search as the concrete matcher of the
  witnesses: a regex that is a literal, a set and a keyword search built on it.
\<close>

section \<open>A concrete matcher\<close>

definition literal_find :: "rstr \<Rightarrow> rstr \<Rightarrow> (nat \<times> nat) list" where
  "literal_find r t =
     (case find_str t r of
        None \<Rightarrow> []
      | Some i \<Rightarrow> if r \<noteq> [] \<and> is_char_boundary t i \<and> is_char_boundary t (i + length r)
                 then [(i, i + length r)] else [])"

definition literal_set :: "rstr list \<Rightarrow> rstr \<Rightarrow> nat list" where
  "literal_set rs t = filter (\<lambda>i. literal_find (rs ! i) t \<noteq> []) [0..<length rs]"

definition literal_keywords :: "rstr list \<Rightarrow> rstr \<Rightarrow> nat list" where
  "literal_keywords ks t = filter (\<lambda>i. contains_str t (ks ! i)) [0..<length ks]"

lemma literal_laws:
  "find_laws literal_find" "set_laws literal_find literal_set" "keyword_laws literal_keywords"
  "nonempty_matches literal_find"
  by (auto simp: find_laws_def set_laws_def keyword_laws_def nonempty_matches_def literal_find_def
      literal_set_def literal_keywords_def dest: find_str_SomeD find_str_SomeD [OF sym] split: option.splits if_splits)

definition literal_pattern :: "string \<Rightarrow> span_label \<Rightarrow> rstr pattern" where
  "literal_pattern s l =
     \<lparr>re = lit s, pat_label = l, pat_subtype = None, context_keys = [], validate = None\<rparr>"

definition demo_patterns :: "rstr pattern list" where
  "demo_patterns = [literal_pattern ''c@x'' Email, literal_pattern ''sk-abc'' Secret]"

definition demo_text :: rstr where
  "demo_text = lit ''my sk-abc@x key''"

definition demo_output :: redaction_output where
  "demo_output = \<lparr>input = demo_text, redacted = lit ''my [SECRET]@x key'',
     spans = [\<lparr>span_start = 3, span_end = 9, span_lab = Secret, span_subtype = None,
               span_text = lit ''sk-abc''\<rparr>]\<rparr>"

lemma demo_run:
  "redact_one literal_find literal_set literal_keywords demo_patterns demo_text = Some demo_output"
  by code_simp

section \<open>The regex redactor\<close>

text \<open>C2: What \<open>redact_one\<close> returns is well formed: the input unchanged, the spans sorted by
  position, inside the text, each with its own bytes, no two overlapping, and the redacted text
  is the rendering of exactly these spans.\<close>

theorem redact_one_well_formed:
  assumes "find_laws find_iter" "set_laws find_iter set_matches" "keyword_laws ac_find"
    and "redact_one find_iter set_matches ac_find ps txt = Some out"
  shows "input out = txt \<and> well_formed txt (spans out) \<and>
    render_redacted txt (spans out) = Some (redacted out)"
  using assms(4) unfolding redact_one_reference [OF assms(1-3)]
  by (elim redact_reference_parts) simp

theorem redact_one_well_formed_witness:
  "well_formed demo_text (spans demo_output) \<and>
   render_redacted demo_text (spans demo_output) = Some (redacted demo_output)"
  using redact_one_well_formed [OF literal_laws(1-3) demo_run] by simp

text \<open>C17: The two-stage prefilter - a regex set for the patterns without a keyword, one keyword
  scan for the others - loses nothing: the result is that of running every pattern of the table
  over the text, credentials first and each tier in table order, panics included.\<close>

theorem redact_one_prefilter_equivalent:
  assumes "find_laws find_iter" "set_laws find_iter set_matches" "keyword_laws ac_find"
  shows "redact_one find_iter set_matches ac_find ps txt = redact_reference find_iter ps txt"
  by (rule redact_one_reference [OF assms])

theorem redact_one_prefilter_equivalent_witness:
  "redact_reference literal_find demo_patterns demo_text = Some demo_output"
  using redact_one_prefilter_equivalent [OF literal_laws(1-3)] demo_run by metis

text \<open>C3: A credential never loses an overlap to another label: every accepted match of a
  \<open>Secret\<close> pattern overlaps a span of label \<open>Secret\<close> in the output, and under the default policy
  that span is still there after \<open>apply_policy\<close>.\<close>

theorem secrets_win_overlaps:
  assumes "find_laws find_iter" "set_laws find_iter set_matches" "keyword_laws ac_find"
    and "redact_one find_iter set_matches ac_find ps txt = Some out"
    and "apply_policy out default_policy = Some kept"
    and "p \<in> set ps" "pat_label p = Secret" "(s, e) \<in> set (find_iter (re p) txt)"
    and "accepted txt p s e" "s < e"
  shows "covered (filter (\<lambda>sp. span_lab sp = Secret) (spans out)) s e \<and> covered (spans kept) s e"
proof -
  from assms(4) have "redact_reference find_iter ps txt = Some out"
    unfolding redact_one_reference [OF assms(1-3)] .
  then obtain sps where
    1: "scan_patterns find_iter txt
       (filter (\<lambda>p. pat_label p = Secret) ps @ filter (\<lambda>p. pat_label p \<noteq> Secret) ps) [] = Some sps"
    "spans out = sort_key (\<lambda>s. (span_start s, span_end s)) sps"
    by (elim redact_reference_parts)
  have "covered (filter (\<lambda>sp. span_lab sp = Secret) sps) s e"
    by (rule secret_priority [OF 1(1) _ _ assms(8-10)]) (use assms(6,7) in \<open>auto simp: list_all_iff\<close>)
  then have c: "covered (filter (\<lambda>sp. span_lab sp = Secret) (spans out)) s e"
    using 1(2) by (auto simp: covered_def)
  moreover have "spans kept = filter (\<lambda>sp. span_lab sp = Secret) (spans out)"
  proof -
    have "allows default_policy l st = (l = Secret)" for l st
      by (auto simp: allows_def default_policy_def split: option.splits)
    with assms(5) show ?thesis by (auto simp: apply_policy_def Let_def split: bind_splits)
  qed
  ultimately show ?thesis by simp
qed

theorem secrets_win_overlaps_witness:
  "covered (filter (\<lambda>sp. span_lab sp = Secret) (spans demo_output)) 3 9"
proof -
  have "apply_policy demo_output default_policy = Some demo_output" by code_simp
  moreover have "demo_patterns ! 1 \<in> set demo_patterns" "pat_label (demo_patterns ! 1) = Secret"
    by (simp_all add: demo_patterns_def literal_pattern_def)
  moreover have "(3, 9) \<in> set (literal_find (re (demo_patterns ! 1)) demo_text)" by code_simp
  moreover have "accepted demo_text (demo_patterns ! 1) 3 9"
    unfolding accepted_def
    by (simp add: demo_patterns_def literal_pattern_def demo_text_def lit_def is_char_boundary_def
        is_continuation_def)
  ultimately show ?thesis
    using secrets_win_overlaps [OF literal_laws(1-3) demo_run, of demo_output "demo_patterns ! 1" 3 9]
    by simp
qed



section \<open>Panics\<close>

text \<open>On valid UTF-8 the redactor always returns when every context keyword of the table
  starts with an ASCII character: no slice it takes is off a character boundary.\<close>

theorem redact_one_returns:
  assumes "find_laws find_iter" "set_laws find_iter set_matches" "keyword_laws ac_find"
    and "list_all (\<lambda>p. list_all ascii_initial (context_keys p)) ps"
  shows "redact_one find_iter set_matches ac_find ps (utf8 cs) \<noteq> None"
  unfolding redact_one_reference [OF assms(1-3)]
  by (rule redact_reference_total [OF assms(1) utf8_valid assms(4)])

theorem redact_one_returns_witness:
  "redact_one literal_find literal_set literal_keywords demo_patterns (utf8 [233, 233]) \<noteq> None"
proof -
  have "list_all (\<lambda>p. list_all ascii_initial (context_keys p)) demo_patterns"
    by (simp add: demo_patterns_def literal_pattern_def)
  from redact_one_returns [OF literal_laws(1-3) this] show ?thesis .
qed

text \<open>The table's entry for the South Korean number, with its third keyword in UTF-8. The regex
  is a parameter.\<close>

definition south_korea_rrn_pattern :: "'re \<Rightarrow> 're pattern" where
  "south_korea_rrn_pattern r =
     \<lparr>re = r, pat_label = IdLabel, pat_subtype = Some (lit ''south_korea_rrn''),
      context_keys = [lit ''resident registration'', lit ''rrn'', utf8 [51452, 48124]],
      validate = Some south_korea_rrn\<rparr>"

definition rrn_text :: rstr where
  "rrn_text = utf8 [51452, 48124] @ lit ''A 900101-1234568''"

text \<open>The table has keywords that start with a multi-byte character, and there the redactor
  panics: after an occurrence that is not a whole word, \<open>whole_word_contains\<close> resumes the search
  at the next byte, inside that character. The text is valid UTF-8 with a valid number and the
  Korean keyword followed by a letter.\<close>

theorem multibyte_keyword_panics:
  "redact_one literal_find literal_set literal_keywords
     [south_korea_rrn_pattern (lit ''900101-1234568'')] rrn_text = None
   \<and> rrn_text = utf8 ([51452, 48124] @ chars (lit ''A 900101-1234568''))
   \<and> south_korea_rrn (lit ''900101-1234568'')"
  by code_simp

text \<open>The keyword gate is weaker than its description: a keyword counts although it occurs
  in the text only as the end of a longer word, when the 48-byte window cuts that word.\<close>

theorem context_window_cuts_words:
  "has_context (lit ''cousin'' @ replicate 45 32 @ lit ''046454286'') 51 60 [lit ''sin''] = Some True
   \<and> whole_word_contains (lit ''cousin'' @ replicate 45 32 @ lit ''046454286'') (lit ''sin'') = Some False"
  by code_simp

section \<open>Settings\<close>

text \<open>What a \<open>piiRedactionLabels\<close> setting switches on: a span is rewritten exactly if it is
  a \<open>Secret\<close>, or the setting names its label in any case and padding, or it names the span's
  sub-type and the sub-type is known. No setting switches \<open>Secret\<close> off.\<close>

theorem settings_meaning:
  "allows (from_labels names) l st =
     (l = Secret \<or> list_ex (\<lambda>raw. from_wire raw = Some l) names
      \<or> list_ex (\<lambda>raw. st = Some (map to_ascii_lowercase (trim raw))
                        \<and> map to_ascii_lowercase (trim raw) \<in> set KNOWN_SUBTYPES) names)"
proof -
  have "allows (from_labels names) l st =
      (l \<in> set (foldl allow_step [Secret] names) \<or> (\<exists>n. st = Some n \<and> n \<in> foldl subtype_step {} names))"
    by (auto simp: allows_def from_labels_def parse_allow_list_def split: option.splits)
  then show ?thesis
    by (auto simp: parse_allow_list_set subtypes_set list_ex_iff known_subtype_not_wire)
qed

section \<open>The pipeline\<close>


definition demo_ai :: "nat ai_adapter" where
  "demo_ai = \<lparr>ai_name = lit ''tinfoil'', ai_version = 1,
     ai_redact = (\<lambda>w t. (if w = 0 then Inl (Http (lit ''refused''))
                         else Inr \<lparr>input = t, redacted = lit ''[PERSON]'', spans = []\<rparr>, w + 1))\<rparr>"

definition demo_pipeline :: "nat pipeline" where
  "demo_pipeline = regex_then_ai
     (redact_one literal_find literal_set literal_keywords demo_patterns) demo_ai default_config"




text \<open>The cache is transparent: with an adapter whose answers depend on the text only and a
  hash without collisions, a batch gives for every text the result of computing it, in order,
  whatever entries the cache has or has lost, and the cache stays correct.\<close>

theorem cache_is_transparent:
  assumes "inj sha256" "pure_ai P g" "cache_ok sha256 P g st"
    and "redact_batch sha256 keep P st txts = Some (outs, st')"
  shows "all_results (pure_result P g) txts = Some outs \<and> cache_ok sha256 P g st'"
  by (rule redact_batch_pure [OF assms])

theorem cache_is_transparent_witness:
  "all_results (pure_result (regex_only
       (redact_one literal_find literal_set literal_keywords demo_patterns) :: nat pipeline)
      (\<lambda>_. Inl (Unavailable []))) [demo_text, demo_text] = Some [demo_output, demo_output]"
proof -
  let ?P = "regex_only (redact_one literal_find literal_set literal_keywords demo_patterns) :: nat pipeline"
  let ?g = "\<lambda>_. Inl (Unavailable [])"
  let ?st = "\<lparr>world = 0 :: nat, cache = \<lambda>_. None\<rparr>"
  have pure: "pure_ai ?P ?g" by (simp add: pure_ai_def regex_only_def regex_only_with_policy_def)
  have ok: "cache_ok (\<lambda>x. x) ?P ?g ?st" and inj: "inj (\<lambda>x :: nat list. x)"
    by (simp_all add: cache_ok_def inj_on_def)
  have "map_option fst (redact_batch (\<lambda>x. x) (\<lambda>_ _. True) ?P ?st [demo_text, demo_text])
      = Some [demo_output, demo_output]" by code_simp
  then obtain st' where run: "redact_batch (\<lambda>x. x) (\<lambda>_ _. True) ?P ?st [demo_text, demo_text]
      = Some ([demo_output, demo_output], st')" by auto
  from cache_is_transparent [OF inj pure ok run] show ?thesis by (rule conjunct1)
qed

text \<open>The output is not a function of the text and the version, as the cache assumes: after one
  failed call the regex-only text is cached, and the next batch returns it although the adapter
  is back and answers.\<close>

theorem failed_ai_call_is_cached:
  "(let st0 = \<lparr>world = 0, cache = \<lambda>_. None\<rparr>;
        first = redact_batch (\<lambda>x. x) (\<lambda>_ _. True) demo_pipeline st0 [demo_text];
        st1 = snd (the first);
        second = redact_batch (\<lambda>x. x) (\<lambda>_ _. True) demo_pipeline st1 [demo_text]
    in map redacted (fst (the second)) = [lit ''my [SECRET]@x key'']
       \<and> map_option (\<lambda>(o1, w). redacted o1) (redact_text demo_pipeline (world st1) demo_text)
           = Some (lit ''[PERSON]''))"
  by code_simp

end
