(* ===== verification/FrameLinker.thy ===== *)
theory FrameLinker
  imports Prelude "HOL-Library.AList"
begin

text \<open>
  \<open>screenpipe-engine/src/frame_linker.rs\<close>: the state machine that pairs persisted UI events
  with the frames they triggered, in whichever order the two arrive. The \<open>HashMap\<close> of
  pending events is an association list with distinct keys; the order in which the map is
  iterated is a parameter \<open>iter\<close> (any enumeration of the entries). An \<open>Instant\<close> is a
  natural number of milliseconds.
\<close>

section \<open>Messages and state\<close>

type_synonym correlation_id = nat

record event_persisted =
  ev_corr :: correlation_id
  ev_row :: int

record frame_captured =
  fc_frame :: int
  fc_corrs :: "correlation_id list"

record link_update =
  up_row :: int
  up_frame :: int

datatype drop_reason = Drm | Paused | Lagged | CaptureError | OtherDrop

record linker_config =
  ttl :: nat
  capacity :: nat

definition default_linker_config :: linker_config where
  "default_linker_config = \<lparr>ttl = 60000, capacity = 4096\<rparr>"

record pending_event =
  pe_row :: int
  pe_inserted :: nat

record pending_frame =
  pf_frame :: int
  unmatched :: "correlation_id list"
  pf_inserted :: nat

record frame_linker =
  config :: linker_config
  pending_events :: "(correlation_id \<times> pending_event) list"
  pending_frames :: "pending_frame list"

text \<open>The iteration order of the map: some enumeration of its entries.\<close>

type_synonym iteration = "(correlation_id \<times> pending_event) list \<Rightarrow> (correlation_id \<times> pending_event) list"

definition iterates :: "iteration \<Rightarrow> bool" where
  "iterates iter \<longleftrightarrow> (\<forall>m. mset (iter m) = mset m)"

definition new_linker :: "linker_config \<Rightarrow> frame_linker" where
  "new_linker c = \<lparr>config = c, pending_events = [], pending_frames = []\<rparr>"

section \<open>Eviction\<close>

definition evict_if_full_events :: "iteration \<Rightarrow> frame_linker \<Rightarrow> frame_linker" where
  "evict_if_full_events iter s =
     (if length (pending_events s) < capacity (config s) then s
      else case min_by_key (\<lambda>(_, pe). pe_inserted pe) (iter (pending_events s)) of
        Some (oldest_id, _) \<Rightarrow> s\<lparr>pending_events := AList.delete oldest_id (pending_events s)\<rparr>
      | None \<Rightarrow> s)"

definition evict_if_full_frames :: "frame_linker \<Rightarrow> frame_linker" where
  "evict_if_full_frames s =
     (if length (pending_frames s) < capacity (config s) then s
      else case min_by_key (\<lambda>(_, pf). pf_inserted pf) (enumerate 0 (pending_frames s)) of
        Some (idx, _) \<Rightarrow> s\<lparr>pending_frames := swap_remove idx (pending_frames s)\<rparr>
      | None \<Rightarrow> s)"

definition compact_pending_frames :: "frame_linker \<Rightarrow> frame_linker" where
  "compact_pending_frames s =
     s\<lparr>pending_frames := filter (\<lambda>pf. unmatched pf \<noteq> []) (pending_frames s)\<rparr>"

section \<open>The two arrivals and the clock\<close>

text \<open>The first pending frame that waits for the id, with the id taken out of it.\<close>

fun take_waiting :: "correlation_id \<Rightarrow> pending_frame list \<Rightarrow> (int \<times> pending_frame list) option" where
  "take_waiting c [] = None"
| "take_waiting c (pf # pfs) =
     (case position (\<lambda>x. x = c) (unmatched pf) of
        Some pos \<Rightarrow> Some (pf_frame pf, pf\<lparr>unmatched := swap_remove pos (unmatched pf)\<rparr> # pfs)
      | None \<Rightarrow> map_option (\<lambda>(f, rest). (f, pf # rest)) (take_waiting c pfs))"

definition on_event_persisted ::
  "iteration \<Rightarrow> frame_linker \<Rightarrow> event_persisted \<Rightarrow> nat \<Rightarrow> frame_linker \<times> link_update option" where
  "on_event_persisted iter s e now =
     (case take_waiting (ev_corr e) (pending_frames s) of
        Some (frame_id, pfs) \<Rightarrow>
          (compact_pending_frames (s\<lparr>pending_frames := pfs\<rparr>),
           Some \<lparr>up_row = ev_row e, up_frame = frame_id\<rparr>)
      | None \<Rightarrow>
          let s' = evict_if_full_events iter s in
          (s'\<lparr>pending_events := AList.update (ev_corr e) \<lparr>pe_row = ev_row e, pe_inserted = now\<rparr>
                (pending_events s')\<rparr>, None))"

fun match_corrs ::
  "int \<Rightarrow> correlation_id list \<Rightarrow> (correlation_id \<times> pending_event) list \<Rightarrow>
   link_update list \<times> correlation_id list \<times> (correlation_id \<times> pending_event) list" where
  "match_corrs f [] evs = ([], [], evs)"
| "match_corrs f (c # cs) evs =
     (case map_of evs c of
        Some pe \<Rightarrow>
          let (ups, un, evs') = match_corrs f cs (AList.delete c evs)
          in (\<lparr>up_row = pe_row pe, up_frame = f\<rparr> # ups, un, evs')
      | None \<Rightarrow> let (ups, un, evs') = match_corrs f cs evs in (ups, c # un, evs'))"

definition on_frame_captured ::
  "frame_linker \<Rightarrow> frame_captured \<Rightarrow> nat \<Rightarrow> frame_linker \<times> link_update list" where
  "on_frame_captured s c now =
     (let (ups, un, evs) = match_corrs (fc_frame c) (fc_corrs c) (pending_events s);
          s1 = s\<lparr>pending_events := evs\<rparr>
      in if un = [] then (s1, ups)
         else let s2 = evict_if_full_frames s1
              in (s2\<lparr>pending_frames := pending_frames s2 @
                     [\<lparr>pf_frame = fc_frame c, unmatched = un, pf_inserted = now\<rparr>]\<rparr>, ups))"

definition tick_linker :: "frame_linker \<Rightarrow> nat \<Rightarrow> frame_linker \<times> nat" where
  "tick_linker s now =
     (case checked_sub_nat now (ttl (config s)) of
        Some cutoff \<Rightarrow>
          let evs = filter (\<lambda>(_, pe). pe_inserted pe \<ge> cutoff) (pending_events s);
              pfs = filter (\<lambda>pf. pf_inserted pf \<ge> cutoff) (pending_frames s)
          in (s\<lparr>pending_events := evs, pending_frames := pfs\<rparr>,
              (length (pending_events s) - length evs) + (length (pending_frames s) - length pfs))
      | None \<Rightarrow> (s, 0))"

definition pending_len :: "frame_linker \<Rightarrow> nat \<times> nat" where
  "pending_len s = (length (pending_events s), length (pending_frames s))"

section \<open>Invariant\<close>

text \<open>The ids frames wait for.\<close>

definition waiting_ids :: "frame_linker \<Rightarrow> correlation_id set" where
  "waiting_ids s = (\<Union>pf \<in> set (pending_frames s). set (unmatched pf))"

definition linker_inv :: "frame_linker \<Rightarrow> bool" where
  "linker_inv s \<longleftrightarrow>
     distinct (map fst (pending_events s)) \<and>
     fst ` set (pending_events s) \<inter> waiting_ids s = {} \<and>
     list_all (\<lambda>pf. unmatched pf \<noteq> []) (pending_frames s) \<and>
     length (pending_events s) \<le> max (capacity (config s)) 1 \<and>
     length (pending_frames s) \<le> max (capacity (config s)) 1"

lemma new_linker_inv: "linker_inv (new_linker c)"
  by (simp add: linker_inv_def new_linker_def waiting_ids_def)

lemma take_waiting_Some:
  "take_waiting c pfs = Some (f, pfs') \<Longrightarrow>
     \<exists>us pf pos vs. pfs = us @ pf # vs \<and> pf_frame pf = f \<and> pos < length (unmatched pf) \<and>
       unmatched pf ! pos = c \<and> pfs' = us @ pf\<lparr>unmatched := swap_remove pos (unmatched pf)\<rparr> # vs \<and>
       (\<forall>q \<in> set us. c \<notin> set (unmatched q))"
proof (induction pfs arbitrary: pfs')
  case Nil
  then show ?case by simp
next
  case (Cons q pfs)
  show ?case
  proof (cases "position (\<lambda>x. x = c) (unmatched q)")
    case (Some pos)
    with Cons.prems position_SomeD [OF Some] show ?thesis by (intro exI [of _ "[]"]) auto
  next
    case None
    with Cons.prems obtain rest where r: "take_waiting c pfs = Some (f, rest)" "pfs' = q # rest"
      by auto
    from Cons.IH [OF r(1)] obtain us pf pos vs where
      "pfs = us @ pf # vs" "pf_frame pf = f" "pos < length (unmatched pf)" "unmatched pf ! pos = c"
      "rest = us @ pf\<lparr>unmatched := swap_remove pos (unmatched pf)\<rparr> # vs"
      "\<forall>q \<in> set us. c \<notin> set (unmatched q)" by blast
    with r None show ?thesis by (intro exI [of _ "q # us"]) auto
  qed
qed

lemma take_waiting_None: "take_waiting c pfs = None \<longleftrightarrow> (\<forall>pf \<in> set pfs. c \<notin> set (unmatched pf))"
proof (induction pfs)
  case Nil
  then show ?case by simp
next
  case (Cons q pfs)
  show ?case
  proof (cases "position (\<lambda>x. x = c) (unmatched q)")
    case None
    then have "c \<notin> set (unmatched q)" by auto
    with None Cons show ?thesis by (simp del: position_None)
  next
    case (Some pos)
    with position_SomeD [OF Some] nth_mem [of pos "unmatched q"] show ?thesis by auto
  qed
qed

lemma compact_simps [simp]:
  "config (compact_pending_frames s) = config s"
  "pending_events (compact_pending_frames s) = pending_events s"
  "waiting_ids (compact_pending_frames s) = waiting_ids s"
  by (auto simp: compact_pending_frames_def waiting_ids_def)

lemma evict_events_simps [simp]:
  "config (evict_if_full_events iter s) = config s"
  "pending_frames (evict_if_full_events iter s) = pending_frames s"
  by (auto simp: evict_if_full_events_def split: option.splits)

lemma set_delete_subset: "set (AList.delete k xs) \<subseteq> set xs"
  by (auto simp: AList.delete_eq)

lemma evict_events_subset: "set (pending_events (evict_if_full_events iter s)) \<subseteq> set (pending_events s)"
  by (auto simp: evict_if_full_events_def dest: set_delete_subset [THEN subsetD]
      split: option.splits)

lemma evict_events_distinct:
  "distinct (map fst (pending_events s)) \<Longrightarrow> distinct (map fst (pending_events (evict_if_full_events iter s)))"
  by (auto simp: evict_if_full_events_def AList.distinct_delete split: option.splits)

lemma length_delete_less: "k \<in> fst ` set xs \<Longrightarrow> length (AList.delete k xs) < length xs"
  by (induction xs) (auto simp: AList.delete_eq le_imp_less_Suc)

text \<open>After an eviction there is room for one more entry, except with capacity zero, where
  the map is empty then.\<close>

lemma evict_events_room:
  assumes "iterates iter" "length (pending_events s) \<le> max (capacity (config s)) 1"
  shows "length (pending_events (evict_if_full_events iter s)) < max (capacity (config s)) 1"
proof (cases "length (pending_events s) < capacity (config s)")
  case True
  then show ?thesis by (simp add: evict_if_full_events_def)
next
  case False
  let ?m = "iter (pending_events s)"
  have set: "set ?m = set (pending_events s)" using assms(1) unfolding iterates_def
    by (metis set_mset_mset)
  show ?thesis
  proof (cases "min_by_key (\<lambda>(_, pe). pe_inserted pe) ?m")
    case None
    then have "pending_events s = []" using set by simp
    with None show ?thesis by (simp add: evict_if_full_events_def)
  next
    case (Some x)
    obtain k pe where x: "x = (k, pe)" by fastforce
    from min_by_key_SomeD [OF Some] have "k \<in> fst ` set (pending_events s)"
      unfolding set x by force
    then have "length (AList.delete k (pending_events s)) < length (pending_events s)"
      by (rule length_delete_less)
    with assms(2) False Some x show ?thesis by (simp add: evict_if_full_events_def)
  qed
qed

lemma evict_frames_simps [simp]:
  "config (evict_if_full_frames s) = config s"
  "pending_events (evict_if_full_frames s) = pending_events s"
  by (auto simp: evict_if_full_frames_def split: option.splits)

lemma min_frame_index:
  assumes "min_by_key (\<lambda>(_, pf). pf_inserted pf) (enumerate 0 pfs) = Some (i, pf)"
  shows "i < length pfs \<and> pfs ! i = pf"
  using min_by_key_SomeD [OF assms] by (auto simp: in_set_enumerate_eq)

lemma evict_frames_subset: "set (pending_frames (evict_if_full_frames s)) \<subseteq> set (pending_frames s)"
  by (auto simp: evict_if_full_frames_def split: option.splits
      dest: min_frame_index set_swap_remove_subset [THEN subsetD, rotated])

lemma enumerate_Nil_iff: "enumerate n xs = [] \<longleftrightarrow> xs = []"
  by (metis length_0_conv length_enumerate)

lemma evict_frames_room:
  assumes "length (pending_frames s) \<le> max (capacity (config s)) 1"
  shows "length (pending_frames (evict_if_full_frames s)) < max (capacity (config s)) 1"
proof (cases "length (pending_frames s) < capacity (config s)")
  case True
  then show ?thesis by (simp add: evict_if_full_frames_def)
next
  case False
  show ?thesis
  proof (cases "min_by_key (\<lambda>(_, pf). pf_inserted pf) (enumerate 0 (pending_frames s))")
    case None
    then have "pending_frames s = []" by (simp add: enumerate_Nil_iff)
    with None show ?thesis by (simp add: evict_if_full_frames_def)
  next
    case (Some x)
    obtain i pf where x: "x = (i, pf)" by fastforce
    with min_frame_index [of "pending_frames s" i pf] Some have "i < length (pending_frames s)" by simp
    with assms False Some x show ?thesis by (simp add: evict_if_full_frames_def)
  qed
qed

text \<open>Every operation keeps the invariant.\<close>

lemma waiting_ids_mono:
  "set (pending_frames s) \<subseteq> set (pending_frames t) \<Longrightarrow> waiting_ids s \<subseteq> waiting_ids t"
  by (auto simp: waiting_ids_def)

lemma compact_inv:
  assumes "distinct (map fst (pending_events s))" "fst ` set (pending_events s) \<inter> waiting_ids s = {}"
    "length (pending_events s) \<le> max (capacity (config s)) 1"
    "length (pending_frames s) \<le> max (capacity (config s)) 1"
  shows "linker_inv (compact_pending_frames s)"
proof -
  have "list_all (\<lambda>pf. unmatched pf \<noteq> []) (pending_frames (compact_pending_frames s))"
    by (simp add: compact_pending_frames_def list_all_iff)
  moreover have "length (pending_frames (compact_pending_frames s)) \<le> length (pending_frames s)"
    by (simp add: compact_pending_frames_def)
  ultimately show ?thesis using assms by (simp add: linker_inv_def)
qed

text \<open>Taking an id out of a frame: what is waited for afterwards.\<close>

lemma take_waiting_ids:
  assumes "take_waiting c (pending_frames s) = Some (f, pfs)"
  shows "waiting_ids (s\<lparr>pending_frames := pfs\<rparr>) \<subseteq> waiting_ids s" "c \<in> waiting_ids s"
    "length pfs = length (pending_frames s)"
proof -
  from take_waiting_Some [OF assms] obtain us pf pos vs where
    t: "pending_frames s = us @ pf # vs" "pos < length (unmatched pf)" "unmatched pf ! pos = c"
    "pfs = us @ pf\<lparr>unmatched := swap_remove pos (unmatched pf)\<rparr> # vs" by blast
  from set_swap_remove_subset [OF t(2)] show "waiting_ids (s\<lparr>pending_frames := pfs\<rparr>) \<subseteq> waiting_ids s"
    by (auto simp: waiting_ids_def t(1,4))
  from t(2,3) show "c \<in> waiting_ids s" by (auto simp: waiting_ids_def t(1))
  show "length pfs = length (pending_frames s)" by (simp add: t(1,4))
qed

lemma disjoint_subset_insert: "A \<subseteq> insert c B \<Longrightarrow> B \<inter> W = {} \<Longrightarrow> c \<notin> W \<Longrightarrow> A \<inter> W = {}"
  by blast

lemma update_keys: "fst ` set (AList.update k v xs) \<subseteq> insert k (fst ` set xs)"
  by (induction xs) auto

lemma on_event_inv:
  assumes "iterates iter" "linker_inv s" "on_event_persisted iter s e now = (s', u)"
  shows "linker_inv s' \<and> config s' = config s"
proof (cases "take_waiting (ev_corr e) (pending_frames s)")
  case (Some x)
  obtain f pfs where x: "x = (f, pfs)" by fastforce
  note t = take_waiting_ids [OF Some [unfolded x]]
  have "linker_inv (compact_pending_frames (s\<lparr>pending_frames := pfs\<rparr>))"
    by (rule compact_inv) (use assms(2) t in \<open>auto simp: linker_inv_def\<close>)
  with assms(3) Some x show ?thesis by (auto simp: on_event_persisted_def)
next
  case None
  let ?s = "evict_if_full_events iter s"
  have c: "ev_corr e \<notin> waiting_ids s" using None by (auto simp: take_waiting_None waiting_ids_def)
  have w: "waiting_ids ?s = waiting_ids s" by (simp add: waiting_ids_def)
  from assms(1,2) have room: "length (pending_events ?s) < max (capacity (config s)) 1"
    by (intro evict_events_room) (simp_all add: linker_inv_def)
  have len: "length (AList.update k v xs) \<le> Suc (length xs)" for k and v :: pending_event and xs
    by (induction xs) auto
  let ?v = "\<lparr>pe_row = ev_row e, pe_inserted = now\<rparr>"
  let ?evs = "AList.update (ev_corr e) ?v (pending_events ?s)"
  have "fst ` set ?evs \<subseteq> insert (ev_corr e) (fst ` set (pending_events ?s))" by (rule update_keys)
  also have "\<dots> \<subseteq> insert (ev_corr e) (fst ` set (pending_events s))"
    using evict_events_subset by (intro insert_mono image_mono)
  finally have ks: "fst ` set ?evs \<subseteq> insert (ev_corr e) (fst ` set (pending_events s))" .
  have wT: "waiting_ids (?s\<lparr>pending_events := ?evs\<rparr>) = waiting_ids s" by (simp add: waiting_ids_def)
  have i: "fst ` set (pending_events s) \<inter> waiting_ids s = {}" "distinct (map fst (pending_events s))"
    "list_all (\<lambda>pf. unmatched pf \<noteq> []) (pending_frames s)"
    "length (pending_frames s) \<le> max (capacity (config s)) 1"
    using assms(2) by (simp_all add: linker_inv_def)
  from i(2) have d: "distinct (map fst ?evs)" by (simp add: evict_events_distinct AList.distinct_update)
  have l: "length ?evs \<le> max (capacity (config s)) 1"
    using len [of "ev_corr e" ?v "pending_events ?s"] room by linarith
  from ks i(1) c have n: "fst ` set ?evs \<inter> waiting_ids (?s\<lparr>pending_events := ?evs\<rparr>) = {}"
    unfolding wT by (rule disjoint_subset_insert)
  from n d l i(3,4) have "linker_inv (?s\<lparr>pending_events := ?evs\<rparr>)"
    unfolding linker_inv_def by simp
  with assms(3) None show ?thesis by (auto simp: on_event_persisted_def Let_def)
qed

lemma match_corrs_spec:
  "match_corrs f cs evs = (ups, un, evs') \<Longrightarrow> distinct (map fst evs) \<Longrightarrow>
     distinct (map fst evs') \<and> set evs' \<subseteq> set evs \<and> length evs' \<le> length evs \<and>
     set un \<subseteq> set cs \<and> set un \<inter> fst ` set evs' = {}"
proof (induction cs arbitrary: evs ups un)
  case Nil
  then show ?case by simp
next
  case (Cons c cs)
  show ?case
  proof (cases "map_of evs c")
    case None
    obtain us vs es where r: "match_corrs f cs evs = (us, vs, es)" by (metis prod_cases3)
    with Cons.prems None have o: "un = c # vs" "evs' = es" by auto
    from None have "c \<notin> fst ` set evs" by (simp add: map_of_eq_None_iff)
    with Cons.IH [of evs us vs] r o Cons.prems(2) show ?thesis by auto
  next
    case (Some pe)
    obtain us vs es where r: "match_corrs f cs (AList.delete c evs) = (us, vs, es)"
      by (metis prod_cases3)
    with Cons.prems Some have o: "un = vs" "evs' = es" by auto
    have "length (AList.delete c evs) \<le> length evs" by (rule AList.length_delete_le)
    with Cons.IH [of "AList.delete c evs" us vs] r o Cons.prems(2) set_delete_subset [of c evs]
    show ?thesis by (auto simp: AList.distinct_delete)
  qed
qed

lemma on_frame_inv:
  assumes "linker_inv s" "on_frame_captured s c now = (s', ups)"
  shows "linker_inv s' \<and> config s' = config s"
proof -
  obtain us un evs where m: "match_corrs (fc_frame c) (fc_corrs c) (pending_events s) = (us, un, evs)"
    by (metis prod_cases3)
  let ?s1 = "s\<lparr>pending_events := evs\<rparr>" and ?s2 = "evict_if_full_frames (s\<lparr>pending_events := evs\<rparr>)"
  have i: "fst ` set (pending_events s) \<inter> waiting_ids s = {}" "distinct (map fst (pending_events s))"
    "list_all (\<lambda>pf. unmatched pf \<noteq> []) (pending_frames s)"
    "length (pending_events s) \<le> max (capacity (config s)) 1"
    "length (pending_frames s) \<le> max (capacity (config s)) 1"
    using assms(1) by (simp_all add: linker_inv_def)
  from match_corrs_spec [OF m i(2)] have e: "distinct (map fst evs)" "set evs \<subseteq> set (pending_events s)"
    "length evs \<le> length (pending_events s)" "set un \<inter> fst ` set evs = {}" by auto
  then have dis: "fst ` set evs \<inter> waiting_ids s = {}" using i(1) by blast
  show ?thesis
  proof (cases "un = []")
    case True
    with assms(2) m have "s' = ?s1" by (simp add: on_frame_captured_def)
    with i e dis show ?thesis by (simp add: linker_inv_def waiting_ids_def)
  next
    case False
    let ?pf = "\<lparr>pf_frame = fc_frame c, unmatched = un, pf_inserted = now\<rparr>"
    from assms(2) m False have s': "s' = ?s2\<lparr>pending_frames := pending_frames ?s2 @ [?pf]\<rparr>"
      by (simp add: on_frame_captured_def Let_def)
    have sub: "set (pending_frames ?s2) \<subseteq> set (pending_frames s)"
      using evict_frames_subset [of ?s1] by simp
    then have w: "waiting_ids s' \<subseteq> waiting_ids s \<union> set un" by (auto simp: s' waiting_ids_def)
    have "length (pending_frames ?s2) < max (capacity (config s)) 1"
      using evict_frames_room [of ?s1] i(5) by simp
    then have l: "length (pending_frames s') \<le> max (capacity (config s)) 1" by (simp add: s')
    have u: "list_all (\<lambda>pf. unmatched pf \<noteq> []) (pending_frames s')"
      using i(3) sub False by (auto simp: s' list_all_iff)
    have n: "fst ` set (pending_events s') \<inter> waiting_ids s' = {}"
      using w dis e(4) by (auto simp: s')
    from e(1,3) i(4) l u n show ?thesis unfolding linker_inv_def by (simp add: s')
  qed
qed

lemma tick_inv:
  assumes "linker_inv s" "tick_linker s now = (s', n)"
  shows "linker_inv s' \<and> config s' = config s"
proof (cases "checked_sub_nat now (ttl (config s))")
  case None
  with assms show ?thesis by (simp add: tick_linker_def del: checked_sub_nat_None)
next
  case (Some cutoff)
  let ?evs = "filter (\<lambda>(_, pe). pe_inserted pe \<ge> cutoff) (pending_events s)"
    and ?pfs = "filter (\<lambda>pf. pf_inserted pf \<ge> cutoff) (pending_frames s)"
  from Some assms(2) have s': "s' = s\<lparr>pending_events := ?evs, pending_frames := ?pfs\<rparr>"
    by (simp add: tick_linker_def Let_def del: checked_sub_nat_Some)
  have "length ?evs \<le> max (capacity (config s)) 1" "length ?pfs \<le> max (capacity (config s)) 1"
    using assms(1) unfolding linker_inv_def by (blast intro: order_trans [OF length_filter_le])+
  moreover have "distinct (map fst ?evs)"
    using assms(1) by (simp add: linker_inv_def distinct_map_filter)
  moreover have "fst ` set ?evs \<inter> waiting_ids s' = {}"
    using assms(1) by (fastforce simp: linker_inv_def waiting_ids_def s')
  ultimately show ?thesis
    using assms(1) by (auto simp: linker_inv_def s' list_all_iff)
qed

end
