(* ===== verification/LinkerActor.thy ===== *)
theory LinkerActor
  imports FrameLinker
begin

text \<open>
  \<open>screenpipe-engine/src/frame_linker_actor.rs\<close>: the actor that owns the linker, its counters
  and the database updates. The interface the actor relies on is the locale
  \<open>pairing_linker\<close>: what the linker may know, what it may wait for, and that an update only
  pairs an event with a frame it was told about. It is interpreted on the linker of
  \<open>FrameLinker\<close>. The channel and the timer are the trace of messages, each with the instant
  it is handled at; the database is a parameter that says whether an update succeeds.
\<close>

section \<open>Messages\<close>

text \<open>\<open>LinkerTick\<close> is the timer branch of \<open>tokio::select!\<close>.\<close>

datatype linker_message =
  EventPersisted event_persisted
| FrameCaptured frame_captured
| TriggerDropped "correlation_id list" drop_reason
| LinkerTick

text \<open>What the linker is asked to do by a message: its next state, the updates, and the number
  of entries the timer evicted.\<close>

fun handle ::
  "('s \<Rightarrow> event_persisted \<Rightarrow> nat \<Rightarrow> 's \<times> link_update option) \<Rightarrow>
   ('s \<Rightarrow> frame_captured \<Rightarrow> nat \<Rightarrow> 's \<times> link_update list) \<Rightarrow> ('s \<Rightarrow> nat \<Rightarrow> 's \<times> nat) \<Rightarrow>
   's \<Rightarrow> nat \<Rightarrow> linker_message \<Rightarrow> 's \<times> link_update list \<times> nat" where
  "handle on_ev on_fr tick s now (EventPersisted e) =
     (let (s', u) = on_ev s e now in (s', case u of Some x \<Rightarrow> [x] | None \<Rightarrow> [], 0))"
| "handle on_ev on_fr tick s now (FrameCaptured c) = (let (s', us) = on_fr s c now in (s', us, 0))"
| "handle on_ev on_fr tick s now (TriggerDropped cs r) = (s, [], 0)"
| "handle on_ev on_fr tick s now LinkerTick = (let (s', n) = tick s now in (s', [], n))"

fun handle_all ::
  "('s \<Rightarrow> event_persisted \<Rightarrow> nat \<Rightarrow> 's \<times> link_update option) \<Rightarrow>
   ('s \<Rightarrow> frame_captured \<Rightarrow> nat \<Rightarrow> 's \<times> link_update list) \<Rightarrow> ('s \<Rightarrow> nat \<Rightarrow> 's \<times> nat) \<Rightarrow>
   's \<Rightarrow> (nat \<times> linker_message) list \<Rightarrow> 's \<times> link_update list" where
  "handle_all on_ev on_fr tick s [] = (s, [])"
| "handle_all on_ev on_fr tick s ((now, m) # ms) =
     (let (s', us, _) = handle on_ev on_fr tick s now m;
          (s'', us') = handle_all on_ev on_fr tick s' ms
      in (s'', us @ us'))"

text \<open>The pairs a trace tells the linker about.\<close>

fun events_of :: "linker_message \<Rightarrow> (correlation_id \<times> int) list" where
  "events_of (EventPersisted e) = [(ev_corr e, ev_row e)]"
| "events_of _ = []"

fun frames_of :: "linker_message \<Rightarrow> (correlation_id \<times> int) list" where
  "frames_of (FrameCaptured c) = map (\<lambda>i. (i, fc_frame c)) (fc_corrs c)"
| "frames_of _ = []"

definition all_events :: "(nat \<times> linker_message) list \<Rightarrow> (correlation_id \<times> int) list" where
  "all_events ms = concat (map (\<lambda>(_, m). events_of m) ms)"

definition all_frames :: "(nat \<times> linker_message) list \<Rightarrow> (correlation_id \<times> int) list" where
  "all_frames ms = concat (map (\<lambda>(_, m). frames_of m) ms)"

section \<open>The interface\<close>

locale pairing_linker =
  fixes on_ev :: "'s \<Rightarrow> event_persisted \<Rightarrow> nat \<Rightarrow> 's \<times> link_update option"
    and on_fr :: "'s \<Rightarrow> frame_captured \<Rightarrow> nat \<Rightarrow> 's \<times> link_update list"
    and tick :: "'s \<Rightarrow> nat \<Rightarrow> 's \<times> nat"
    and inv :: "'s \<Rightarrow> bool"
    and known waiting :: "'s \<Rightarrow> (correlation_id \<times> int) set"
  assumes ev_inv: "inv s \<Longrightarrow> inv (fst (on_ev s e now))"
    and fr_inv: "inv s \<Longrightarrow> inv (fst (on_fr s c now))"
    and tick_inv: "inv s \<Longrightarrow> inv (fst (tick s now))"
    and ev_learns: "inv s \<Longrightarrow> known (fst (on_ev s e now)) \<subseteq> insert (ev_corr e, ev_row e) (known s)
          \<and> waiting (fst (on_ev s e now)) \<subseteq> waiting s"
    and ev_pairs: "inv s \<Longrightarrow> snd (on_ev s e now) = Some u \<Longrightarrow>
          up_row u = ev_row e \<and> (ev_corr e, up_frame u) \<in> waiting s"
    and fr_learns: "inv s \<Longrightarrow> known (fst (on_fr s c now)) \<subseteq> known s
          \<and> waiting (fst (on_fr s c now)) \<subseteq> waiting s \<union> (\<lambda>i. (i, fc_frame c)) ` set (fc_corrs c)"
    and fr_pairs: "inv s \<Longrightarrow> u \<in> set (snd (on_fr s c now)) \<Longrightarrow>
          up_frame u = fc_frame c \<and> (\<exists>i \<in> set (fc_corrs c). (i, up_row u) \<in> known s)"
    and tick_learns: "inv s \<Longrightarrow> known (fst (tick s now)) \<subseteq> known s \<and> waiting (fst (tick s now)) \<subseteq> waiting s"
begin

lemma handle_inv: "inv s \<Longrightarrow> inv (fst (handle on_ev on_fr tick s now m))"
  using ev_inv fr_inv tick_inv by (cases m) (auto simp: case_prod_beta)

lemma handle_learns:
  assumes "inv s"
  shows "known (fst (handle on_ev on_fr tick s now m)) \<subseteq> known s \<union> set (events_of m)"
    "waiting (fst (handle on_ev on_fr tick s now m)) \<subseteq> waiting s \<union> set (frames_of m)"
  using ev_learns [OF assms] fr_learns [OF assms] tick_learns [OF assms]
  by (cases m; simp add: case_prod_beta; blast)+

lemma handle_pairs:
  assumes "inv s" "u \<in> set (fst (snd (handle on_ev on_fr tick s now m)))"
  shows "\<exists>i. (i, up_row u) \<in> known s \<union> set (events_of m) \<and> (i, up_frame u) \<in> waiting s \<union> set (frames_of m)"
proof (cases m)
  case (EventPersisted e)
  with assms(2) have "snd (on_ev s e now) = Some u"
    by (cases "snd (on_ev s e now)") (auto simp: case_prod_beta)
  with ev_pairs [OF assms(1)] EventPersisted show ?thesis by fastforce
next
  case (FrameCaptured c)
  with assms(2) have "u \<in> set (snd (on_fr s c now))" by (simp add: case_prod_beta)
  from fr_pairs [OF assms(1) this] FrameCaptured show ?thesis by auto
qed (use assms in \<open>auto simp: case_prod_beta\<close>)

text \<open>Along every trace, an update pairs a row with a frame that were reported with the same
  correlation id.\<close>

lemma updates_justified:
  assumes "inv s" "u \<in> set (snd (handle_all on_ev on_fr tick s ms))"
  shows "\<exists>i. (i, up_row u) \<in> known s \<union> set (all_events ms) \<and>
    (i, up_frame u) \<in> waiting s \<union> set (all_frames ms)"
  using assms
proof (induction ms arbitrary: s)
  case Nil
  then show ?case by simp
next
  case (Cons nm ms)
  obtain now m where nm: "nm = (now, m)" by fastforce
  let ?h = "handle on_ev on_fr tick s now m"
  have split: "snd (handle_all on_ev on_fr tick s (nm # ms))
      = fst (snd ?h) @ snd (handle_all on_ev on_fr tick (fst ?h) ms)"
    by (simp add: nm case_prod_beta)
  have ev: "set (events_of m) \<subseteq> set (all_events (nm # ms))" "set (all_events ms) \<subseteq> set (all_events (nm # ms))"
    and fr: "set (frames_of m) \<subseteq> set (all_frames (nm # ms))" "set (all_frames ms) \<subseteq> set (all_frames (nm # ms))"
    by (auto simp: all_events_def all_frames_def nm)
  show ?case
  proof (cases "u \<in> set (fst (snd ?h))")
    case True
    from handle_pairs [OF Cons.prems(1) True] ev(1) fr(1) show ?thesis by blast
  next
    case False
    with Cons.prems(2) split have "u \<in> set (snd (handle_all on_ev on_fr tick (fst ?h) ms))" by auto
    from Cons.IH [OF handle_inv [OF Cons.prems(1)] this]
      handle_learns [OF Cons.prems(1), of now m] ev fr show ?thesis by blast
  qed
qed

end

section \<open>The linker provides it\<close>

definition known_rows :: "frame_linker \<Rightarrow> (correlation_id \<times> int) set" where
  "known_rows s = (\<lambda>(c, pe). (c, pe_row pe)) ` set (pending_events s)"

definition awaited_frames :: "frame_linker \<Rightarrow> (correlation_id \<times> int) set" where
  "awaited_frames s = (\<Union>pf \<in> set (pending_frames s). (\<lambda>c. (c, pf_frame pf)) ` set (unmatched pf))"

text \<open>An iteration order that exists: insertion order.\<close>

lemma iterates_id: "iterates (\<lambda>m. m)"
  by (simp add: iterates_def)

lemma set_update_subset: "set (AList.update k v xs) \<subseteq> insert (k, v) (set xs)"
  by (induction xs) auto

lemma event_learns:
  assumes "on_event_persisted iter s e now = (s', u)"
  shows "known_rows s' \<subseteq> insert (ev_corr e, ev_row e) (known_rows s)" "awaited_frames s' \<subseteq> awaited_frames s"
    "u = Some x \<Longrightarrow> up_row x = ev_row e \<and> (ev_corr e, up_frame x) \<in> awaited_frames s"
proof -
  have *: "known_rows s' \<subseteq> insert (ev_corr e, ev_row e) (known_rows s) \<and> awaited_frames s' \<subseteq> awaited_frames s
    \<and> (u = Some x \<longrightarrow> up_row x = ev_row e \<and> (ev_corr e, up_frame x) \<in> awaited_frames s)"
  proof (cases "take_waiting (ev_corr e) (pending_frames s)")
    case (Some y)
    obtain f pfs where y: "y = (f, pfs)" by fastforce
    from take_waiting_Some [OF Some [unfolded y]] obtain us pf pos vs where
      t: "pending_frames s = us @ pf # vs" "pf_frame pf = f" "pos < length (unmatched pf)"
      "unmatched pf ! pos = ev_corr e"
      "pfs = us @ pf\<lparr>unmatched := swap_remove pos (unmatched pf)\<rparr> # vs" by blast
    from assms Some y have s': "s' = compact_pending_frames (s\<lparr>pending_frames := pfs\<rparr>)"
      "u = Some \<lparr>up_row = ev_row e, up_frame = f\<rparr>" by (simp_all add: on_event_persisted_def)
    have "awaited_frames s' \<subseteq> awaited_frames s"
      using set_swap_remove_subset [OF t(3)]
      by (auto simp: awaited_frames_def s' compact_pending_frames_def t(1,5))
    moreover have "(ev_corr e, f) \<in> awaited_frames s"
      using t nth_mem [OF t(3)] by (auto simp: awaited_frames_def)
    ultimately show ?thesis by (auto simp: s' known_rows_def)
  next
    case None
    let ?s = "evict_if_full_events iter s"
    from assms None have s': "s' = ?s\<lparr>pending_events := AList.update (ev_corr e)
        \<lparr>pe_row = ev_row e, pe_inserted = now\<rparr> (pending_events ?s)\<rparr>" "u = None"
      by (simp_all add: on_event_persisted_def Let_def)
    let ?v = "\<lparr>pe_row = ev_row e, pe_inserted = now\<rparr>"
    have "set (pending_events s') \<subseteq> insert (ev_corr e, ?v) (set (pending_events ?s))"
      unfolding s' by (simp add: set_update_subset)
    also have "\<dots> \<subseteq> insert (ev_corr e, ?v) (set (pending_events s))"
      by (intro insert_mono evict_events_subset)
    finally have "known_rows s' \<subseteq> insert (ev_corr e, ev_row e) (known_rows s)"
      by (force simp: known_rows_def)
    then show ?thesis by (simp add: s' awaited_frames_def)
  qed
  then show "known_rows s' \<subseteq> insert (ev_corr e, ev_row e) (known_rows s)" "awaited_frames s' \<subseteq> awaited_frames s"
    "u = Some x \<Longrightarrow> up_row x = ev_row e \<and> (ev_corr e, up_frame x) \<in> awaited_frames s" by blast+
qed

lemma match_corrs_pairs:
  "match_corrs f cs evs = (ups, un, evs') \<Longrightarrow>
     set evs' \<subseteq> set evs \<and> set un \<subseteq> set cs \<and>
     (\<forall>u \<in> set ups. up_frame u = f \<and> (\<exists>c \<in> set cs. \<exists>pe. (c, pe) \<in> set evs \<and> pe_row pe = up_row u))"
proof (induction cs arbitrary: evs ups un)
  case Nil
  then show ?case by simp
next
  case (Cons c cs)
  show ?case
  proof (cases "map_of evs c")
    case None
    obtain us vs es where r: "match_corrs f cs evs = (us, vs, es)" by (metis prod_cases3)
    with Cons.prems None have o: "un = c # vs" "evs' = es" "ups = us" by auto
    with Cons.IH [of evs us vs] r show ?thesis by auto
  next
    case (Some pe)
    obtain us vs es where r: "match_corrs f cs (AList.delete c evs) = (us, vs, es)"
      by (metis prod_cases3)
    with Cons.prems Some have o: "un = vs" "evs' = es" "ups = \<lparr>up_row = pe_row pe, up_frame = f\<rparr> # us"
      by auto
    have "(c, pe) \<in> set evs" using Some by (rule map_of_SomeD)
    with Cons.IH [of "AList.delete c evs" us vs] r o set_delete_subset [of c evs]
    show ?thesis by fastforce
  qed
qed

lemma frame_learns:
  assumes "on_frame_captured s c now = (s', ups)"
  shows "known_rows s' \<subseteq> known_rows s"
    "awaited_frames s' \<subseteq> awaited_frames s \<union> (\<lambda>i. (i, fc_frame c)) ` set (fc_corrs c)"
    "u \<in> set ups \<Longrightarrow> up_frame u = fc_frame c \<and> (\<exists>i \<in> set (fc_corrs c). (i, up_row u) \<in> known_rows s)"
proof -
  obtain us un evs where m: "match_corrs (fc_frame c) (fc_corrs c) (pending_events s) = (us, un, evs)"
    by (metis prod_cases3)
  note p = match_corrs_pairs [OF m]
  from assms m have e: "pending_events s' = evs" "ups = us"
    by (auto simp: on_frame_captured_def Let_def split: if_splits)
  from p show "known_rows s' \<subseteq> known_rows s" by (auto simp: known_rows_def e)
  from p show "u \<in> set ups \<Longrightarrow> up_frame u = fc_frame c \<and> (\<exists>i \<in> set (fc_corrs c). (i, up_row u) \<in> known_rows s)"
    by (force simp: known_rows_def e)
  have "set (pending_frames s') \<subseteq> insert \<lparr>pf_frame = fc_frame c, unmatched = un, pf_inserted = now\<rparr> (set (pending_frames s))"
    using assms m evict_frames_subset [of "s\<lparr>pending_events := evs\<rparr>"]
    by (auto simp: on_frame_captured_def Let_def split: if_splits)
  with p show "awaited_frames s' \<subseteq> awaited_frames s \<union> (\<lambda>i. (i, fc_frame c)) ` set (fc_corrs c)"
    by (fastforce simp: awaited_frames_def)
qed

lemma tick_linker_learns:
  "known_rows (fst (tick_linker s now)) \<subseteq> known_rows s" "awaited_frames (fst (tick_linker s now)) \<subseteq> awaited_frames s"
  by (auto simp: tick_linker_def Let_def known_rows_def awaited_frames_def split: option.splits)

text \<open>The map's iteration order only matters for which entry an eviction takes, so the
  interface holds for each of them.\<close>

lemma linker_provides:
  assumes "iterates iter"
  shows "pairing_linker (on_event_persisted iter) on_frame_captured tick_linker
    linker_inv known_rows awaited_frames"
proof unfold_locales
  fix s :: frame_linker and e :: event_persisted and c :: frame_captured and now u
  show "linker_inv (fst (on_event_persisted iter s e now))" if "linker_inv s"
    using on_event_inv [OF assms that] by (metis prod.collapse)
  show "linker_inv (fst (on_frame_captured s c now))" if "linker_inv s"
    using on_frame_inv [OF that] by (metis prod.collapse)
  show "linker_inv (fst (tick_linker s now))" if "linker_inv s"
    using tick_inv [OF that] by (metis prod.collapse)
  show "known_rows (fst (on_event_persisted iter s e now)) \<subseteq> insert (ev_corr e, ev_row e) (known_rows s)
      \<and> awaited_frames (fst (on_event_persisted iter s e now)) \<subseteq> awaited_frames s"
    using event_learns(1,2) by (metis prod.collapse)
  show "up_row u = ev_row e \<and> (ev_corr e, up_frame u) \<in> awaited_frames s"
    if "snd (on_event_persisted iter s e now) = Some u"
    using event_learns(3) that by (metis prod.collapse)
  show "known_rows (fst (on_frame_captured s c now)) \<subseteq> known_rows s
      \<and> awaited_frames (fst (on_frame_captured s c now)) \<subseteq> awaited_frames s \<union> (\<lambda>i. (i, fc_frame c)) ` set (fc_corrs c)"
    using frame_learns(1,2) by (metis prod.collapse)
  show "up_frame u = fc_frame c \<and> (\<exists>i \<in> set (fc_corrs c). (i, up_row u) \<in> known_rows s)"
    if "u \<in> set (snd (on_frame_captured s c now))"
    using frame_learns(3) that by (metis prod.collapse)
  show "known_rows (fst (tick_linker s now)) \<subseteq> known_rows s \<and> awaited_frames (fst (tick_linker s now)) \<subseteq> awaited_frames s"
    using tick_linker_learns by blast
qed

interpretation fl: pairing_linker "on_event_persisted (\<lambda>m. m)" on_frame_captured tick_linker
  linker_inv known_rows awaited_frames
  by (rule linker_provides [OF iterates_id])

section \<open>The actor\<close>

record linker_metrics =
  pairs_emitted :: nat
  updates_failed :: nat
  evicted_ttl :: nat
  dropped_drm :: nat
  dropped_paused :: nat
  dropped_lagged :: nat
  dropped_capture_error :: nat
  dropped_other :: nat

definition zero_metrics :: linker_metrics where
  "zero_metrics = \<lparr>pairs_emitted = 0, updates_failed = 0, evicted_ttl = 0, dropped_drm = 0,
     dropped_paused = 0, dropped_lagged = 0, dropped_capture_error = 0, dropped_other = 0\<rparr>"

text \<open>\<open>AtomicU64::fetch_add\<close> wraps around.\<close>

definition fetch_add :: "nat \<Rightarrow> nat \<Rightarrow> nat" where
  "fetch_add a n = (a + n) mod 2 ^ 64"

fun bump_dropped :: "drop_reason \<Rightarrow> nat \<Rightarrow> linker_metrics \<Rightarrow> linker_metrics" where
  "bump_dropped Drm n m = m\<lparr>dropped_drm := fetch_add (dropped_drm m) n\<rparr>"
| "bump_dropped Paused n m = m\<lparr>dropped_paused := fetch_add (dropped_paused m) n\<rparr>"
| "bump_dropped Lagged n m = m\<lparr>dropped_lagged := fetch_add (dropped_lagged m) n\<rparr>"
| "bump_dropped CaptureError n m =
     m\<lparr>dropped_capture_error := fetch_add (dropped_capture_error m) n\<rparr>"
| "bump_dropped OtherDrop n m = m\<lparr>dropped_other := fetch_add (dropped_other m) n\<rparr>"

record 'db actor =
  linker :: frame_linker
  metrics :: linker_metrics
  db :: 'db

text \<open>\<open>update_ui_event_frame_id\<close> of the database: its next state, and whether it succeeded.\<close>

definition apply_update :: "('db \<Rightarrow> link_update \<Rightarrow> 'db \<times> bool) \<Rightarrow> 'db actor \<Rightarrow> link_update \<Rightarrow> 'db actor" where
  "apply_update upd a u =
     (let (d, ok) = upd (db a) u;
          m = metrics a
      in a\<lparr>db := d,
           metrics := (if ok then m else m\<lparr>updates_failed := fetch_add (updates_failed m) 1\<rparr>)\<rparr>)"

fun actor_step ::
  "iteration \<Rightarrow> ('db \<Rightarrow> link_update \<Rightarrow> 'db \<times> bool) \<Rightarrow> 'db actor \<Rightarrow> nat \<Rightarrow> linker_message \<Rightarrow> 'db actor" where
  "actor_step iter upd a now (EventPersisted e) =
     (let (l, u) = on_event_persisted iter (linker a) e now; a' = a\<lparr>linker := l\<rparr>; m = metrics a in
      case u of
        Some x \<Rightarrow> apply_update upd
                    (a'\<lparr>metrics := m\<lparr>pairs_emitted := fetch_add (pairs_emitted m) 1\<rparr>\<rparr>) x
      | None \<Rightarrow> a')"
| "actor_step iter upd a now (FrameCaptured c) =
     (let (l, us) = on_frame_captured (linker a) c now; a' = a\<lparr>linker := l\<rparr>; m = metrics a;
          a'' = (if us \<noteq> []
                 then a'\<lparr>metrics := m\<lparr>pairs_emitted := fetch_add (pairs_emitted m) (length us)\<rparr>\<rparr>
                 else a')
      in foldl (apply_update upd) a'' us)"
| "actor_step iter upd a now (TriggerDropped cs reason) =
     (let n_corr = length cs; bump = (if n_corr = 0 then 1 else n_corr)
      in a\<lparr>metrics := bump_dropped reason bump (metrics a)\<rparr>)"
| "actor_step iter upd a now LinkerTick =
     (let (l, evicted) = tick_linker (linker a) now; m = metrics a
      in a\<lparr>linker := l,
           metrics := (if evicted > 0 then m\<lparr>evicted_ttl := fetch_add (evicted_ttl m) evicted\<rparr> else m)\<rparr>)"

text \<open>\<open>spawn_frame_linker\<close>: the loop until the channel closes or the stop flag is seen.\<close>

fun actor_run ::
  "iteration \<Rightarrow> ('db \<Rightarrow> link_update \<Rightarrow> 'db \<times> bool) \<Rightarrow> 'db actor \<Rightarrow> (nat \<times> linker_message) list \<Rightarrow> 'db actor" where
  "actor_run iter upd a [] = a"
| "actor_run iter upd a ((now, m) # ms) = actor_run iter upd (actor_step iter upd a now m) ms"

definition spawn_frame_linker :: "'db \<Rightarrow> 'db actor" where
  "spawn_frame_linker d = \<lparr>linker = new_linker default_linker_config, metrics = zero_metrics, db = d\<rparr>"

text \<open>\<open>next_correlation_id\<close>: the counter starts at one.\<close>

definition next_correlation_id :: "nat \<Rightarrow> correlation_id \<times> nat" where
  "next_correlation_id counter = (counter, fetch_add counter 1)"

end
