(* ===== verification/LinkerTrace.thy ===== *)
theory LinkerTrace
  imports LinkerActor
begin

text \<open>
  Traces of the linker and the actor: with room for the entries and no timer, the updates are
  exactly the pairs of rows and frames that share a correlation id, in whatever order the
  messages arrive; and the actor applies exactly the linker's updates and counts them.
\<close>

section \<open>The operations while nothing is evicted\<close>

lemma match_corrs_exact:
  "match_corrs f cs evs = (ups, un, evs') \<Longrightarrow> distinct cs \<Longrightarrow> distinct (map fst evs) \<Longrightarrow>
     un = filter (\<lambda>c. c \<notin> fst ` set evs) cs \<and>
     set evs' = {x \<in> set evs. fst x \<notin> set cs} \<and>
     (\<lambda>u. (up_row u, up_frame u)) ` set ups = (\<lambda>x. (pe_row (snd x), f)) ` {x \<in> set evs. fst x \<in> set cs}"
proof (induction cs arbitrary: evs ups un)
  case Nil
  then show ?case by auto
next
  case (Cons c cs)
  show ?case
  proof (cases "map_of evs c")
    case None
    then have c: "c \<notin> fst ` set evs" by (simp add: map_of_eq_None_iff)
    obtain us vs es where r: "match_corrs f cs evs = (us, vs, es)" by (metis prod_cases3)
    with Cons.prems None have o: "un = c # vs" "evs' = es" "ups = us" by auto
    from Cons.IH [of evs us vs] r o Cons.prems have ih: "vs = filter (\<lambda>c. c \<notin> fst ` set evs) cs"
      "set es = {x \<in> set evs. fst x \<notin> set cs}"
      "(\<lambda>u. (up_row u, up_frame u)) ` set us = (\<lambda>x. (pe_row (snd x), f)) ` {x \<in> set evs. fst x \<in> set cs}"
      by auto
    from c have "{x \<in> set evs. fst x \<notin> set (c # cs)} = {x \<in> set evs. fst x \<notin> set cs}"
      "{x \<in> set evs. fst x \<in> set (c # cs)} = {x \<in> set evs. fst x \<in> set cs}" by auto
    with ih o c show ?thesis by simp
  next
    case (Some pe)
    then have c: "(c, pe) \<in> set evs" by (rule map_of_SomeD)
    let ?evs = "AList.delete c evs"
    have d: "set ?evs = {x \<in> set evs. fst x \<noteq> c}" by (auto simp: AList.delete_eq)
    have uniq: "x = (c, pe)" if "x \<in> set evs" "fst x = c" for x
      using that c Cons.prems(3) by (metis eq_key_imp_eq_value prod.collapse)
    obtain us vs es where r: "match_corrs f cs ?evs = (us, vs, es)" by (metis prod_cases3)
    with Cons.prems Some have o: "un = vs" "evs' = es" "ups = \<lparr>up_row = pe_row pe, up_frame = f\<rparr> # us"
      by auto
    from Cons.IH [of ?evs us vs] r o Cons.prems have ih: "vs = filter (\<lambda>c. c \<notin> fst ` set ?evs) cs"
      "set es = {x \<in> set ?evs. fst x \<notin> set cs}"
      "(\<lambda>u. (up_row u, up_frame u)) ` set us = (\<lambda>x. (pe_row (snd x), f)) ` {x \<in> set ?evs. fst x \<in> set cs}"
      by (auto simp: AList.distinct_delete)
    have ncs: "c \<notin> set cs" using Cons.prems(2) by simp
    then have "filter (\<lambda>k. k \<notin> fst ` set ?evs) cs = filter (\<lambda>k. k \<notin> fst ` set evs) cs"
      unfolding d by (intro filter_cong) (auto simp: image_iff)
    moreover have "c \<in> fst ` set evs" using c by (rule image_eqI [rotated]) simp
    ultimately have u: "un = filter (\<lambda>k. k \<notin> fst ` set evs) (c # cs)" using ih(1) o(1) by simp
    have e: "set evs' = {x \<in> set evs. fst x \<notin> set (c # cs)}" using ih(2) o d by auto
    have i: "{x \<in> set evs. fst x \<in> set (c # cs)} = insert (c, pe) {x \<in> set ?evs. fst x \<in> set cs}"
    proof (rule set_eqI)
      fix x
      show "x \<in> {x \<in> set evs. fst x \<in> set (c # cs)} \<longleftrightarrow> x \<in> insert (c, pe) {x \<in> set ?evs. fst x \<in> set cs}"
      proof (cases "fst x = c")
        case True
        with uniq [of x] c ncs show ?thesis by (cases x) auto
      next
        case False
        then show ?thesis unfolding d by (cases x) auto
      qed
    qed
    have "(\<lambda>u. (up_row u, up_frame u)) ` set ups = (\<lambda>x. (pe_row (snd x), f)) ` {x \<in> set evs. fst x \<in> set (c # cs)}"
      unfolding i o(3) using ih(3) by simp
    with u e show ?thesis by (intro conjI)
  qed
qed

text \<open>The ids the frames wait for, with multiplicity.\<close>

definition waiting_list :: "frame_linker \<Rightarrow> correlation_id list" where
  "waiting_list s = concat (map unmatched (pending_frames s))"

lemma concat_filter_nonempty: "concat (map unmatched (filter (\<lambda>pf. unmatched pf \<noteq> []) pfs)) = concat (map unmatched pfs)"
  by (induction pfs) auto

lemma take_waiting_exact:
  assumes "take_waiting c (pending_frames s) = Some (f, pfs)" "distinct (waiting_list s)"
  defines "s' \<equiv> compact_pending_frames (s\<lparr>pending_frames := pfs\<rparr>)"
  shows "distinct (waiting_list s')" "(c, f) \<in> awaited_frames s"
    "awaited_frames s' = {(k, g). (k, g) \<in> awaited_frames s \<and> k \<noteq> c}"
proof -
  from take_waiting_Some [OF assms(1)] obtain us pf pos vs where
    t: "pending_frames s = us @ pf # vs" "pf_frame pf = f" "pos < length (unmatched pf)"
    "unmatched pf ! pos = c" "pfs = us @ pf\<lparr>unmatched := swap_remove pos (unmatched pf)\<rparr> # vs" by blast
  let ?C = "\<lambda>xs. concat (map unmatched xs)"
  have m: "mset (swap_remove pos (unmatched pf)) = mset (unmatched pf) - {#c#}"
    using mset_swap_remove [OF t(3)] t(4) by simp
  from assms(2) have dis: "distinct (?C us)" "distinct (unmatched pf)" "distinct (?C vs)"
    "set (?C us) \<inter> set (unmatched pf) = {}" "set (?C us) \<inter> set (?C vs) = {}"
    "set (unmatched pf) \<inter> set (?C vs) = {}"
    unfolding waiting_list_def t(1) by auto
  have c: "c \<in> set (unmatched pf)" using t(3,4) by auto
  from m have m1: "mset (swap_remove pos (unmatched pf)) = mset (remove1 c (unmatched pf))" by simp
  then have d: "distinct (swap_remove pos (unmatched pf))"
    using dis(2) mset_eq_imp_distinct_iff [OF m1] by simp
  have st: "set (swap_remove pos (unmatched pf)) = set (unmatched pf) - {c}"
    using mset_eq_setD [OF m1] dis(2) by (simp add: set_remove1_eq)
  show "(c, f) \<in> awaited_frames s" using c t(1,2) by (auto simp: awaited_frames_def)
  have wl: "waiting_list s' = ?C us @ swap_remove pos (unmatched pf) @ ?C vs"
    unfolding waiting_list_def s'_def compact_pending_frames_def
    by (simp add: concat_filter_nonempty t(5))
  have "set (swap_remove pos (unmatched pf)) \<subseteq> set (unmatched pf)" unfolding st by (rule Diff_subset)
  with dis(4,6) have "set (?C us) \<inter> set (swap_remove pos (unmatched pf)) = {}"
    "set (swap_remove pos (unmatched pf)) \<inter> set (?C vs) = {}" by (simp_all only: st) blast+
  with dis(1,3,5) d show "distinct (waiting_list s')"
    unfolding wl by (metis distinct_append set_append Int_Un_distrib Un_empty)
  have notin: "c \<notin> set (?C us)" "c \<notin> set (?C vs)" using c dis by blast+
  have "awaited_frames s' = awaited_frames (s\<lparr>pending_frames := pfs\<rparr>)"
    by (auto simp: s'_def awaited_frames_def compact_pending_frames_def)
  also have "\<dots> = {(k, g). (k, g) \<in> awaited_frames s \<and> k \<noteq> c}"
    using notin by (auto simp: awaited_frames_def t(1,5) st)
  finally show "awaited_frames s' = {(k, g). (k, g) \<in> awaited_frames s \<and> k \<noteq> c}" .
qed


lemma no_evict_events: "length (pending_events s) < capacity (config s) \<Longrightarrow> evict_if_full_events iter s = s"
  by (simp add: evict_if_full_events_def)

lemma no_evict_frames: "length (pending_frames s) < capacity (config s) \<Longrightarrow> evict_if_full_frames s = s"
  by (simp add: evict_if_full_frames_def)

lemma known_rows_keys: "fst ` known_rows s = fst ` set (pending_events s)"
  by (force simp: known_rows_def)

lemma awaited_keys: "fst ` awaited_frames s = set (waiting_list s)"
  by (force simp: awaited_frames_def waiting_list_def)

text \<open>An event that a frame waits for: it is paired with that frame and with nothing else.\<close>

lemma event_paired:
  assumes "on_event_persisted iter s e now = (s', u)" "distinct (waiting_list s)"
    "ev_corr e \<in> set (waiting_list s)"
  shows "\<exists>f. (ev_corr e, f) \<in> awaited_frames s \<and> u = Some \<lparr>up_row = ev_row e, up_frame = f\<rparr>"
    "known_rows s' = known_rows s" "awaited_frames s' = {x \<in> awaited_frames s. fst x \<noteq> ev_corr e}"
    "distinct (waiting_list s')"
proof -
  from assms(3) have "take_waiting (ev_corr e) (pending_frames s) \<noteq> None"
    by (auto simp: take_waiting_None waiting_list_def)
  then obtain f pfs where t: "take_waiting (ev_corr e) (pending_frames s) = Some (f, pfs)" by auto
  with assms(1) have s': "s' = compact_pending_frames (s\<lparr>pending_frames := pfs\<rparr>)"
    "u = Some \<lparr>up_row = ev_row e, up_frame = f\<rparr>" by (simp_all add: on_event_persisted_def)
  note x = take_waiting_exact [OF t assms(2), folded s'(1)]
  from x(2) s'(2) show "\<exists>f. (ev_corr e, f) \<in> awaited_frames s \<and> u = Some \<lparr>up_row = ev_row e, up_frame = f\<rparr>"
    by blast
  show "known_rows s' = known_rows s" by (simp add: s' known_rows_def)
  from x(3) show "awaited_frames s' = {x \<in> awaited_frames s. fst x \<noteq> ev_corr e}" by auto
  show "distinct (waiting_list s')" by (rule x(1))
qed

lemma event_stored:
  assumes "on_event_persisted iter s e now = (s', u)" "ev_corr e \<notin> set (waiting_list s)"
    "ev_corr e \<notin> fst ` set (pending_events s)" "length (pending_events s) < capacity (config s)"
  shows "u = None" "known_rows s' = insert (ev_corr e, ev_row e) (known_rows s)"
    "pending_frames s' = pending_frames s"
proof -
  have t: "take_waiting (ev_corr e) (pending_frames s) = None"
    using assms(2) by (auto simp: take_waiting_None waiting_list_def)
  have upd: "AList.update k v xs = xs @ [(k, v)]" if "k \<notin> fst ` set xs" for k and v :: pending_event and xs
    using that by (induction xs) auto
  have s': "s' = s\<lparr>pending_events := pending_events s @
      [(ev_corr e, \<lparr>pe_row = ev_row e, pe_inserted = now\<rparr>)]\<rparr>" and u: "u = None"
    using assms t by (simp_all add: on_event_persisted_def Let_def no_evict_events upd)
  show "u = None" by (rule u)
  show "known_rows s' = insert (ev_corr e, ev_row e) (known_rows s)" by (simp add: s' known_rows_def)
  show "pending_frames s' = pending_frames s" by (simp add: s')
qed

lemma frame_exact:
  assumes "on_frame_captured s c now = (s', ups)" "distinct (fc_corrs c)"
    "distinct (map fst (pending_events s))" "distinct (waiting_list s)"
    "set (fc_corrs c) \<inter> set (waiting_list s) = {}" "length (pending_frames s) < capacity (config s)"
  shows "known_rows s' = {x \<in> known_rows s. fst x \<notin> set (fc_corrs c)}"
    "awaited_frames s' = awaited_frames s \<union> {(i, fc_frame c) | i. i \<in> set (fc_corrs c) \<and> i \<notin> fst ` known_rows s}"
    "(\<lambda>u. (up_row u, up_frame u)) ` set ups = {(r, fc_frame c) | r i. i \<in> set (fc_corrs c) \<and> (i, r) \<in> known_rows s}"
    "distinct (waiting_list s')"
proof -
  obtain us un evs where m: "match_corrs (fc_frame c) (fc_corrs c) (pending_events s) = (us, un, evs)"
    by (metis prod_cases3)
  note x = match_corrs_exact [OF m assms(2,3)]
  have ev: "pending_events s' = evs" "ups = us"
    using assms(1) m by (auto simp: on_frame_captured_def Let_def split: if_splits)
  have pf: "un = [] \<Longrightarrow> pending_frames s' = pending_frames s" "un \<noteq> [] \<Longrightarrow> pending_frames s' =
      pending_frames s @ [\<lparr>pf_frame = fc_frame c, unmatched = un, pf_inserted = now\<rparr>]"
    using assms(1,6) m by (auto simp: on_frame_captured_def Let_def no_evict_frames)
  have un: "un = filter (\<lambda>i. i \<notin> fst ` known_rows s) (fc_corrs c)" using x by (simp add: known_rows_keys)
  have wl: "waiting_list s' = waiting_list s @ un" by (cases "un = []") (simp_all add: pf waiting_list_def)
  have aw: "awaited_frames s' = awaited_frames s \<union> (\<lambda>i. (i, fc_frame c)) ` set un"
    by (cases "un = []") (simp_all add: pf awaited_frames_def Un_commute)
  have ss: "set evs = {x \<in> set (pending_events s). fst x \<notin> set (fc_corrs c)}" using x by simp
  show "known_rows s' = {x \<in> known_rows s. fst x \<notin> set (fc_corrs c)}"
    unfolding known_rows_def ev(1) ss by auto
  show "awaited_frames s' = awaited_frames s \<union> {(i, fc_frame c) | i. i \<in> set (fc_corrs c) \<and> i \<notin> fst ` known_rows s}"
    unfolding aw un by auto
  have "(\<lambda>u. (up_row u, up_frame u)) ` set ups
      = (\<lambda>x. (pe_row (snd x), fc_frame c)) ` {x \<in> set (pending_events s). fst x \<in> set (fc_corrs c)}"
    unfolding ev(2) using x by simp
  also have "\<dots> = {(r, fc_frame c) | r i. i \<in> set (fc_corrs c) \<and> (i, r) \<in> known_rows s}"
    by (force simp: known_rows_def)
  finally show "(\<lambda>u. (up_row u, up_frame u)) ` set ups
      = {(r, fc_frame c) | r i. i \<in> set (fc_corrs c) \<and> (i, r) \<in> known_rows s}" .
  show "distinct (waiting_list s')" unfolding wl un using assms(2,4,5) by auto
qed

section \<open>What a trace leaves in the linker\<close>

text \<open>
  With the events \<open>E\<close> and the frames \<open>F\<close> seen so far, the linker holds the events no frame
  has named and the ids no event has brought, and it has paired all the others.
\<close>

abbreviation update_pairs :: "link_update list \<Rightarrow> (int \<times> int) set" where
  "update_pairs us \<equiv> (\<lambda>u. (up_row u, up_frame u)) ` set us"

definition exact_for ::
  "frame_linker \<Rightarrow> link_update list \<Rightarrow> (correlation_id \<times> int) set \<Rightarrow> (correlation_id \<times> int) set \<Rightarrow> bool" where
  "exact_for s us E F \<longleftrightarrow> linker_inv s \<and> inj_on fst F \<and> distinct (waiting_list s) \<and>
     known_rows s = {x \<in> E. fst x \<notin> fst ` F} \<and> awaited_frames s = {x \<in> F. fst x \<notin> fst ` E} \<and>
     update_pairs us = {(r, f) | r f c. (c, r) \<in> E \<and> (c, f) \<in> F}"

lemma fst_image_mem: "(a, b) \<in> E \<Longrightarrow> a \<in> fst ` E"
  by force

lemma exact_event:
  assumes "exact_for s us E F" "on_event_persisted iter s e now = (s', u)" "iterates iter"
    "ev_corr e \<notin> fst ` E" "length (pending_events s) < capacity (config s)"
  shows "exact_for s' (us @ (case u of Some x \<Rightarrow> [x] | None \<Rightarrow> [])) (insert (ev_corr e, ev_row e) E) F"
proof -
  note i = assms(1) [unfolded exact_for_def]
  from on_event_inv [OF assms(3) _ assms(2)] i have inv: "linker_inv s'" by blast
  show ?thesis
  proof (cases "ev_corr e \<in> fst ` F")
    case True
    then obtain f where f: "(ev_corr e, f) \<in> F" by force
    then have only: "g = f" if "(ev_corr e, g) \<in> F" for g
      using i that f inj_onD [of fst F "(ev_corr e, g)" "(ev_corr e, f)"] by simp
    have w: "ev_corr e \<in> set (waiting_list s)"
    proof -
      have "(ev_corr e, f) \<in> awaited_frames s" using i f assms(4) by simp
      then show ?thesis unfolding awaited_keys [symmetric] by (rule image_eqI [rotated]) simp
    qed
    have dw: "distinct (waiting_list s)" using i by blast
    note x = event_paired [OF assms(2) dw w]
    from x(1) i only have u: "u = Some \<lparr>up_row = ev_row e, up_frame = f\<rparr>" by auto
    have new: "{(r, g) | r g c. (c, r) \<in> insert (ev_corr e, ev_row e) E \<and> (c, g) \<in> F}
        = insert (ev_row e, f) {(r, g) | r g c. (c, r) \<in> E \<and> (c, g) \<in> F}"
      using f only by blast
    have "update_pairs (us @ [\<lparr>up_row = ev_row e, up_frame = f\<rparr>])
        = {(r, g) | r g c. (c, r) \<in> insert (ev_corr e, ev_row e) E \<and> (c, g) \<in> F}"
      unfolding new using i by simp
    moreover have "known_rows s' = {x \<in> insert (ev_corr e, ev_row e) E. fst x \<notin> fst ` F}"
      using i True x(2) by (auto dest: fst_image_mem)
    moreover have "awaited_frames s' = {x \<in> F. fst x \<notin> fst ` insert (ev_corr e, ev_row e) E}"
      using i x(3) by auto
    ultimately show ?thesis using inv i x(4) by (simp add: exact_for_def u)
  next
    case False
    have w: "ev_corr e \<notin> set (waiting_list s)"
      using i False unfolding awaited_keys [symmetric] by auto
    have k: "ev_corr e \<notin> fst ` set (pending_events s)"
      using i assms(4) unfolding known_rows_keys [symmetric] by auto
    note x = event_stored [OF assms(2) w k assms(5)]
    from i have iw: "distinct (waiting_list s)" "inj_on fst F" by blast+
    have sf: "awaited_frames s' = awaited_frames s" "waiting_list s' = waiting_list s"
      by (simp_all add: awaited_frames_def waiting_list_def x(3))
    have "known_rows s' = {x \<in> insert (ev_corr e, ev_row e) E. fst x \<notin> fst ` F}"
      using i False x(2) by (auto dest: fst_image_mem)
    moreover have "{x \<in> F. fst x \<notin> fst ` E} = {x \<in> F. fst x \<notin> fst ` insert (ev_corr e, ev_row e) E}"
      using False by (auto dest: fst_image_mem)
    moreover have "{(r, f) | r f c. (c, r) \<in> E \<and> (c, f) \<in> F}
        = {(r, f) | r f c. (c, r) \<in> insert (ev_corr e, ev_row e) E \<and> (c, f) \<in> F}"
      using False by force
    ultimately show ?thesis using inv i by (simp add: exact_for_def x(1) sf)
  qed
qed

lemma exact_frame:
  assumes "exact_for s us E F" "on_frame_captured s c now = (s', ups)" "distinct (fc_corrs c)"
    "set (fc_corrs c) \<inter> fst ` F = {}" "length (pending_frames s) < capacity (config s)"
  shows "exact_for s' (us @ ups) E (F \<union> (\<lambda>i. (i, fc_frame c)) ` set (fc_corrs c))"
proof -
  let ?N = "(\<lambda>i. (i, fc_frame c)) ` set (fc_corrs c)"
  note i = assms(1) [unfolded exact_for_def]
  from on_frame_inv [OF _ assms(2)] i have inv: "linker_inv s'" by blast
  have d: "distinct (map fst (pending_events s))" "distinct (waiting_list s)"
    using i by (auto simp: linker_inv_def)
  have dis: "set (fc_corrs c) \<inter> set (waiting_list s) = {}"
    using i assms(4) unfolding awaited_keys [symmetric] by auto
  note x = frame_exact [OF assms(2,3) d dis assms(5)]
  have fN: "fst ` (F \<union> ?N) = fst ` F \<union> set (fc_corrs c)" by force
  have inj: "inj_on fst (F \<union> ?N)"
    unfolding inj_on_Un
  proof (intro conjI)
    show "inj_on fst F" using i by blast
    show "inj_on fst ?N" by (auto simp: inj_on_def)
    show "fst ` (F - ?N) \<inter> fst ` (?N - F) = {}" using assms(4) by force
  qed
  have known: "known_rows s' = {x \<in> E. fst x \<notin> fst ` (F \<union> ?N)}" unfolding fN x(1) using i by auto
  have kk: "k \<in> fst ` known_rows s \<longleftrightarrow> k \<in> fst ` E" if "k \<in> set (fc_corrs c)" for k
    using i that assms(4) by force
  have "{(k, fc_frame c) | k. k \<in> set (fc_corrs c) \<and> k \<notin> fst ` known_rows s} = {x \<in> ?N. fst x \<notin> fst ` E}"
    using kk by (auto dest: fst_image_mem)
  moreover have "awaited_frames s = {x \<in> F. fst x \<notin> fst ` E}" using i by blast
  ultimately have "awaited_frames s' = {x \<in> F. fst x \<notin> fst ` E} \<union> {x \<in> ?N. fst x \<notin> fst ` E}"
    using x(2) by (simp only:)
  then have aw: "awaited_frames s' = {x \<in> F \<union> ?N. fst x \<notin> fst ` E}" by (simp only: Un_def) blast
  have rows: "(k, r) \<in> known_rows s \<longleftrightarrow> (k, r) \<in> E" if "k \<in> set (fc_corrs c)" for k r
    using i that assms(4) by auto
  have "update_pairs (us @ ups) = update_pairs us \<union> update_pairs ups" by (simp add: image_Un)
  also have "update_pairs us = {(r, f) | r f k. (k, r) \<in> E \<and> (k, f) \<in> F}" using i by blast
  also have "update_pairs ups = {(r, fc_frame c) | r k. k \<in> set (fc_corrs c) \<and> (k, r) \<in> E}"
    unfolding x(3) using rows by blast
  also have "{(r, f) | r f k. (k, r) \<in> E \<and> (k, f) \<in> F} \<union> {(r, fc_frame c) | r k. k \<in> set (fc_corrs c) \<and> (k, r) \<in> E}
      = {(r, f) | r f k. (k, r) \<in> E \<and> (k, f) \<in> F \<union> ?N}" by blast
  finally show ?thesis using inv inj known aw x(4) by (simp add: exact_for_def)
qed

lemma event_lengths:
  assumes "on_event_persisted iter s e now = (s', u)" "length (pending_events s) < capacity (config s)"
    "length (pending_events s) \<le> n" "length (pending_frames s) \<le> n"
  shows "length (pending_events s') \<le> Suc n \<and> length (pending_frames s') \<le> Suc n"
proof (cases "take_waiting (ev_corr e) (pending_frames s)")
  case (Some x)
  obtain f pfs where x: "x = (f, pfs)" by fastforce
  have "length pfs = length (pending_frames s)" by (rule take_waiting_ids(3) [OF Some [unfolded x]])
  moreover have "s' = s\<lparr>pending_frames := filter (\<lambda>pf. unmatched pf \<noteq> []) pfs\<rparr>"
    using assms(1) Some x by (simp add: on_event_persisted_def compact_pending_frames_def)
  ultimately show ?thesis using assms(3,4) length_filter_le [of "\<lambda>pf. unmatched pf \<noteq> []" pfs] by simp
next
  case None
  have len: "length (AList.update k v xs) \<le> Suc (length xs)" for k and v :: pending_event and xs
    by (induction xs) auto
  from assms(1,2) None have "s' = s\<lparr>pending_events := AList.update (ev_corr e)
      \<lparr>pe_row = ev_row e, pe_inserted = now\<rparr> (pending_events s)\<rparr>"
    by (simp add: on_event_persisted_def Let_def no_evict_events)
  with assms(3,4) len [of "ev_corr e" "\<lparr>pe_row = ev_row e, pe_inserted = now\<rparr>" "pending_events s"]
  show ?thesis by simp
qed

lemma match_corrs_length: "match_corrs f cs evs = (ups, un, evs') \<Longrightarrow> length evs' \<le> length evs"
proof (induction cs arbitrary: evs ups un)
  case Nil
  then show ?case by simp
next
  case (Cons c cs)
  show ?case
  proof (cases "map_of evs c")
    case None
    with Cons show ?thesis by (auto split: prod.splits)
  next
    case (Some pe)
    obtain us vs es where r: "match_corrs f cs (AList.delete c evs) = (us, vs, es)" by (metis prod_cases3)
    with Cons.prems Some have "evs' = es" by auto
    with Cons.IH [of "AList.delete c evs" us vs] r AList.length_delete_le [of c evs] show ?thesis by simp
  qed
qed

lemma frame_lengths:
  assumes "on_frame_captured s c now = (s', ups)" "length (pending_frames s) < capacity (config s)"
  shows "length (pending_events s') \<le> length (pending_events s)"
    "length (pending_frames s') \<le> Suc (length (pending_frames s))"
proof -
  obtain us un evs where m: "match_corrs (fc_frame c) (fc_corrs c) (pending_events s) = (us, un, evs)"
    by (metis prod_cases3)
  from match_corrs_length [OF m] assms m show "length (pending_events s') \<le> length (pending_events s)"
    "length (pending_frames s') \<le> Suc (length (pending_frames s))"
    by (auto simp: on_frame_captured_def Let_def no_evict_frames split: if_splits)
qed

section \<open>Traces that last no longer than the time to live\<close>

definition fresh :: "nat \<Rightarrow> frame_linker \<Rightarrow> bool" where
  "fresh t0 s \<longleftrightarrow> list_all (\<lambda>(_, pe). t0 \<le> pe_inserted pe) (pending_events s) \<and>
     list_all (\<lambda>pf. t0 \<le> pf_inserted pf) (pending_frames s)"

lemma tick_fresh:
  assumes "fresh t0 s" "now \<le> t0 + ttl (config s)"
  shows "tick_linker s now = (s, 0)"
proof (cases "checked_sub_nat now (ttl (config s))")
  case None
  then show ?thesis by (simp add: tick_linker_def del: checked_sub_nat_None)
next
  case (Some cutoff)
  then have "cutoff \<le> t0" using assms(2) by auto
  with assms(1) have "filter (\<lambda>(_, pe). pe_inserted pe \<ge> cutoff) (pending_events s) = pending_events s"
    "filter (\<lambda>pf. pf_inserted pf \<ge> cutoff) (pending_frames s) = pending_frames s"
    by (auto simp: fresh_def list_all_iff intro!: filter_True)
  with Some show ?thesis by (simp add: tick_linker_def Let_def del: checked_sub_nat_Some)
qed

lemma list_all_update:
  "list_all P xs \<Longrightarrow> P (k, v) \<Longrightarrow> list_all P (AList.update k v xs)"
  by (induction xs) auto

lemma take_waiting_fresh:
  "take_waiting c pfs = Some (f, pfs') \<Longrightarrow> list_all (\<lambda>pf. t0 \<le> pf_inserted pf) pfs \<Longrightarrow>
     list_all (\<lambda>pf. t0 \<le> pf_inserted pf) pfs'"
  by (induction pfs arbitrary: pfs') (auto split: option.splits simp del: position_None)

lemma event_fresh:
  assumes "on_event_persisted iter s e now = (s', u)" "fresh t0 s" "t0 \<le> now"
  shows "fresh t0 s'"
proof (cases "take_waiting (ev_corr e) (pending_frames s)")
  case (Some x)
  obtain f pfs where x: "x = (f, pfs)" by fastforce
  from assms(1) Some x have "s' = compact_pending_frames (s\<lparr>pending_frames := pfs\<rparr>)"
    by (simp add: on_event_persisted_def)
  with take_waiting_fresh [OF Some [unfolded x]] assms(2) show ?thesis
    by (auto simp: fresh_def compact_pending_frames_def list_all_iff)
next
  case None
  let ?s = "evict_if_full_events iter s"
  from assms(1) None have s': "s' = ?s\<lparr>pending_events := AList.update (ev_corr e)
      \<lparr>pe_row = ev_row e, pe_inserted = now\<rparr> (pending_events ?s)\<rparr>"
    by (simp add: on_event_persisted_def Let_def)
  from assms(2) evict_events_subset [of iter s]
  have "list_all (\<lambda>(_, pe). t0 \<le> pe_inserted pe) (pending_events ?s)" by (auto simp: fresh_def list_all_iff)
  then have "list_all (\<lambda>(_, pe). t0 \<le> pe_inserted pe) (pending_events s')"
    unfolding s' by (simp add: list_all_update assms(3))
  then show ?thesis using assms(2) by (simp add: fresh_def s')
qed

lemma frame_fresh:
  assumes "on_frame_captured s c now = (s', ups)" "fresh t0 s" "t0 \<le> now"
  shows "fresh t0 s'"
proof -
  obtain us un evs where m: "match_corrs (fc_frame c) (fc_corrs c) (pending_events s) = (us, un, evs)"
    by (metis prod_cases3)
  from match_corrs_pairs [OF m] have "set evs \<subseteq> set (pending_events s)" by blast
  with assms m evict_frames_subset [of "s\<lparr>pending_events := evs\<rparr>"] show ?thesis
    by (fastforce simp: on_frame_captured_def Let_def fresh_def list_all_iff split: if_splits)
qed

abbreviation linker_run :: "iteration \<Rightarrow> linker_config \<Rightarrow> (nat \<times> linker_message) list \<Rightarrow> frame_linker \<times> link_update list" where
  "linker_run iter cfg ms \<equiv>
     handle_all (on_event_persisted iter) on_frame_captured tick_linker (new_linker cfg) ms"

lemma handle_all_snoc:
  "handle_all a b c s (ms @ [(now, m)]) =
     (let (s', us) = handle_all a b c s ms; (s'', us', _) = handle a b c s' now m in (s'', us @ us'))"
  by (induction ms arbitrary: s) (auto simp: case_prod_beta Let_def)

lemma trace_append: "all_events (ms @ ns) = all_events ms @ all_events ns" "all_frames (ms @ ns) = all_frames ms @ all_frames ns"
  by (simp_all add: all_events_def all_frames_def)

definition settled_trace :: "nat \<Rightarrow> linker_config \<Rightarrow> (nat \<times> linker_message) list \<Rightarrow> bool" where
  "settled_trace t0 cfg ms \<longleftrightarrow>
     distinct (map fst (all_events ms)) \<and> distinct (map fst (all_frames ms)) \<and>
     list_all (\<lambda>(now, _). t0 \<le> now \<and> now \<le> t0 + ttl cfg) ms \<and> length ms \<le> capacity cfg"

definition holds_after :: "nat \<Rightarrow> linker_config \<Rightarrow> (nat \<times> linker_message) list \<Rightarrow> frame_linker \<Rightarrow> link_update list \<Rightarrow> bool" where
  "holds_after t0 cfg ms s us \<longleftrightarrow>
     exact_for s us (set (all_events ms)) (set (all_frames ms)) \<and> fresh t0 s \<and> config s = cfg \<and>
     length (pending_events s) \<le> length ms \<and> length (pending_frames s) \<le> length ms"

lemma holds_after_same:
  "holds_after t0 cfg ms s us \<Longrightarrow> events_of m = [] \<Longrightarrow> frames_of m = [] \<Longrightarrow> holds_after t0 cfg (ms @ [(now, m)]) s us"
  by (simp add: holds_after_def trace_append all_events_def [of "[_]"] all_frames_def [of "[_]"])

lemma holds_after_step:
  assumes "holds_after t0 cfg ms s us" "settled_trace t0 cfg (ms @ [(now, m)])" "iterates iter"
    "handle (on_event_persisted iter) on_frame_captured tick_linker s now m = (s', us', n)"
  shows "holds_after t0 cfg (ms @ [(now, m)]) s' (us @ us')"
proof -
  note h = assms(1) [unfolded holds_after_def]
  have e: "exact_for s us (set (all_events ms)) (set (all_frames ms))" "fresh t0 s" "config s = cfg"
    "length (pending_events s) < capacity (config s)" "length (pending_frames s) < capacity (config s)"
    "t0 \<le> now" "now \<le> t0 + ttl (config s)"
    using h assms(2) by (auto simp: settled_trace_def)
  have d: "distinct (map fst (all_events ms @ events_of m))" "distinct (map fst (all_frames ms @ frames_of m))"
    using assms(2) by (simp_all add: settled_trace_def trace_append all_events_def [of "[_]"] all_frames_def [of "[_]"])
  have E: "all_events (ms @ [(now, m)]) = all_events ms @ events_of m"
    and F: "all_frames (ms @ [(now, m)]) = all_frames ms @ frames_of m"
    by (simp_all add: trace_append all_events_def [of "[_]"] all_frames_def [of "[_]"])
  show ?thesis
  proof (cases m)
    case (EventPersisted ev)
    obtain t u where o: "on_event_persisted iter s ev now = (t, u)" by fastforce
    from assms(4) EventPersisted o have s': "s' = t" "us' = (case u of Some x \<Rightarrow> [x] | None \<Rightarrow> [])" by auto
    from d(1) EventPersisted have "ev_corr ev \<notin> fst ` set (all_events ms)" by simp
    from exact_event [OF e(1) o assms(3) this e(4)]
    have "exact_for t (us @ us') (set (all_events ms @ events_of m)) (set (all_frames ms @ frames_of m))"
      by (simp add: EventPersisted s')
    moreover have "fresh t0 t" by (rule event_fresh [OF o e(2,6)])
    moreover have "config t = cfg" using on_event_inv [OF assms(3) _ o] e(1,3) by (simp add: exact_for_def)
    moreover have "length (pending_events t) \<le> Suc (length ms) \<and> length (pending_frames t) \<le> Suc (length ms)"
      by (rule event_lengths [OF o e(4)]) (use h in simp_all)
    ultimately show ?thesis by (simp add: holds_after_def E F s')
  next
    case (FrameCaptured c)
    obtain t ups where o: "on_frame_captured s c now = (t, ups)" by fastforce
    from assms(4) FrameCaptured o have s': "s' = t" "us' = ups" by auto
    from d(2) FrameCaptured have c: "distinct (fc_corrs c)" "set (fc_corrs c) \<inter> fst ` set (all_frames ms) = {}"
      by (auto simp: comp_def)
    from exact_frame [OF e(1) o c e(5)]
    have "exact_for t (us @ us') (set (all_events ms @ events_of m)) (set (all_frames ms @ frames_of m))"
      by (simp add: FrameCaptured s')
    moreover have "fresh t0 t" by (rule frame_fresh [OF o e(2,6)])
    moreover have "config t = cfg" using on_frame_inv [OF _ o] e(1,3) by (simp add: exact_for_def)
    moreover have "length (pending_events t) \<le> Suc (length ms) \<and> length (pending_frames t) \<le> Suc (length ms)"
      using frame_lengths [OF o e(5)] h by simp
    ultimately show ?thesis by (simp add: holds_after_def E F s')
  next
    case (TriggerDropped cs r)
    with assms(4) holds_after_same [OF assms(1), of m now] show ?thesis by simp
  next
    case LinkerTick
    with assms(4) tick_fresh [OF e(2,7)] holds_after_same [OF assms(1), of m now] show ?thesis by simp
  qed
qed

lemma trace_exact:
  assumes "iterates iter" "settled_trace t0 cfg ms"
  shows "holds_after t0 cfg ms (fst (linker_run iter cfg ms)) (snd (linker_run iter cfg ms))"
  using assms(2)
proof (induction ms rule: rev_induct)
  case Nil
  show ?case by (simp add: holds_after_def exact_for_def all_events_def all_frames_def new_linker_inv)
      (simp add: fresh_def new_linker_def waiting_list_def known_rows_def awaited_frames_def)
next
  case (snoc nm ms)
  obtain now m where nm: "nm = (now, m)" by fastforce
  have "settled_trace t0 cfg ms"
    using snoc.prems by (auto simp: settled_trace_def trace_append)
  from snoc.IH [OF this] have h: "holds_after t0 cfg ms (fst (linker_run iter cfg ms)) (snd (linker_run iter cfg ms))" .
  obtain s us where r: "linker_run iter cfg ms = (s, us)" by fastforce
  obtain s' us' n where h': "handle (on_event_persisted iter) on_frame_captured tick_linker s now m = (s', us', n)"
    by (metis prod_cases3)
  from holds_after_step [OF h [unfolded r fst_conv snd_conv] snoc.prems [unfolded nm] assms(1) h']
  show ?case by (simp add: nm handle_all_snoc r h')
qed

end
