(* ===== verification/LinkerProperties.thy ===== *)
theory LinkerProperties
  imports LinkerTrace
begin

text \<open>
  The properties of the frame linker and its actor: exact pairing while nothing expires, no
  invented pair on any trace, bounded memory, and the actor as a refinement of the linker.
\<close>

section \<open>The linker\<close>

text \<open>C28: While the trace lasts no longer than the time to live and has no more messages than
  the capacity, and every correlation id occurs once on each side, the linker emits exactly the
  pairs of a row and a frame that were reported with the same id, whichever came first and
  whatever order the map is iterated in.\<close>

theorem linker_pairs_exactly:
  assumes "iterates iter" "settled_trace t0 cfg ms"
  shows "update_pairs (snd (linker_run iter cfg ms))
    = {(r, f) | r f c. (c, r) \<in> set (all_events ms) \<and> (c, f) \<in> set (all_frames ms)}"
  using trace_exact [OF assms] by (simp add: holds_after_def exact_for_def)

definition sample_trace :: "(nat \<times> linker_message) list" where
  "sample_trace =
    [(1, EventPersisted \<lparr>ev_corr = 7, ev_row = 100\<rparr>),
     (2, FrameCaptured \<lparr>fc_frame = 55, fc_corrs = [7, 8, 9]\<rparr>), (3, LinkerTick),
     (4, EventPersisted \<lparr>ev_corr = 9, ev_row = 300\<rparr>)]"

lemma sample_settled: "settled_trace 0 default_linker_config sample_trace"
  by (simp add: settled_trace_def sample_trace_def all_events_def all_frames_def default_linker_config_def)

lemma linker_pairs_exactly_witness:
  "update_pairs (snd (linker_run (\<lambda>m. m) default_linker_config sample_trace)) = {(100, 55), (300, 55)}"
  by (subst linker_pairs_exactly [OF iterates_id sample_settled])
     (auto simp: sample_trace_def all_events_def all_frames_def)

text \<open>On every trace, with evictions, expiry and repeated ids, an emitted update pairs a row
  with a frame that were reported with one and the same correlation id.\<close>

theorem linker_never_invents:
  assumes "iterates iter" "u \<in> set (snd (linker_run iter cfg ms))"
  shows "\<exists>c. (c, up_row u) \<in> set (all_events ms) \<and> (c, up_frame u) \<in> set (all_frames ms)"
  using pairing_linker.updates_justified [OF linker_provides [OF assms(1)] new_linker_inv assms(2)]
  by (simp add: known_rows_def awaited_frames_def new_linker_def)

lemma linker_never_invents_witness:
  "\<exists>c. (c, 100) \<in> set (all_events sample_trace) \<and> (c, 55) \<in> set (all_frames sample_trace)"
proof -
  have "\<lparr>up_row = 100, up_frame = 55\<rparr> \<in> set (snd (linker_run (\<lambda>m. m) default_linker_config sample_trace))"
    by (simp add: sample_trace_def new_linker_def default_linker_config_def on_event_persisted_def
        evict_if_full_events_def on_frame_captured_def evict_if_full_frames_def tick_linker_def
        checked_sub_nat_def Let_def)
  from linker_never_invents [OF iterates_id this] show ?thesis by simp
qed

text \<open>The invariant along a trace.\<close>

lemma handle_config:
  assumes "iterates iter" "linker_inv s"
  shows "config (fst (handle (on_event_persisted iter) on_frame_captured tick_linker s now m)) = config s"
proof (cases m)
  case (EventPersisted e)
  obtain s' u where o: "on_event_persisted iter s e now = (s', u)" by fastforce
  from on_event_inv [OF assms o] o EventPersisted show ?thesis by simp
next
  case (FrameCaptured c)
  obtain s' us where o: "on_frame_captured s c now = (s', us)" by fastforce
  from on_frame_inv [OF assms(2) o] o FrameCaptured show ?thesis by simp
next
  case LinkerTick
  obtain s' n where o: "tick_linker s now = (s', n)" by fastforce
  from tick_inv [OF assms(2) o] o LinkerTick show ?thesis by simp
qed simp

lemma linker_trace_inv:
  assumes "iterates iter"
  shows "linker_inv s \<Longrightarrow> config s = cfg \<Longrightarrow>
    linker_inv (fst (handle_all (on_event_persisted iter) on_frame_captured tick_linker s ms))
    \<and> config (fst (handle_all (on_event_persisted iter) on_frame_captured tick_linker s ms)) = cfg"
proof (induction ms arbitrary: s)
  case Nil
  then show ?case by simp
next
  case (Cons nm ms)
  obtain now m where nm: "nm = (now, m)" by fastforce
  let ?s = "fst (handle (on_event_persisted iter) on_frame_captured tick_linker s now m)"
  have "linker_inv ?s" by (rule pairing_linker.handle_inv [OF linker_provides [OF assms] Cons.prems(1)])
  moreover have "config ?s = config s" by (rule handle_config [OF assms Cons.prems(1)])
  ultimately show ?case using Cons.IH [of ?s] Cons.prems(2) by (simp add: nm case_prod_beta)
qed

text \<open>After every trace the linker's memory is bounded by its capacity (one entry when the
  capacity is zero), an id is never both a pending event and awaited by a frame, the pending
  events have distinct ids, and no frame is kept that waits for nothing.\<close>

theorem linker_memory_bounded:
  assumes "iterates iter" "linker_run iter cfg ms = (s, us)"
  shows "length (pending_events s) \<le> max (capacity cfg) 1 \<and> length (pending_frames s) \<le> max (capacity cfg) 1
    \<and> distinct (map fst (pending_events s)) \<and> fst ` set (pending_events s) \<inter> waiting_ids s = {}
    \<and> list_all (\<lambda>pf. unmatched pf \<noteq> []) (pending_frames s)"
proof -
  have "config (new_linker cfg) = cfg" by (simp add: new_linker_def)
  from linker_trace_inv [OF assms(1) new_linker_inv this, of ms] assms(2)
  have "linker_inv s" "config s = cfg" by simp_all
  then show ?thesis unfolding linker_inv_def by blast
qed

lemma linker_memory_bounded_witness:
  "length (pending_events (fst (linker_run (\<lambda>m. m) \<lparr>ttl = 5, capacity = 1\<rparr> sample_trace))) \<le> 1"
  using linker_memory_bounded [OF iterates_id surjective_pairing, of "\<lparr>ttl = 5, capacity = 1\<rparr>" sample_trace]
  by simp

section \<open>The clock\<close>

text \<open>A tick drops exactly the entries that are older than the time to live and reports how
  many it dropped; a tick before the first time to live has passed drops nothing.\<close>

theorem tick_drops_expired:
  "tick_linker s now =
     (s\<lparr>pending_events := filter (\<lambda>(_, pe). now \<le> pe_inserted pe + ttl (config s)) (pending_events s),
        pending_frames := filter (\<lambda>pf. now \<le> pf_inserted pf + ttl (config s)) (pending_frames s)\<rparr>,
      length (filter (\<lambda>(_, pe). pe_inserted pe + ttl (config s) < now) (pending_events s))
      + length (filter (\<lambda>pf. pf_inserted pf + ttl (config s) < now) (pending_frames s)))"
proof (cases "checked_sub_nat now (ttl (config s))")
  case None
  then have "now < ttl (config s)" by simp
  then have "now \<le> x + ttl (config s)" "\<not> x + ttl (config s) < now" for x by linarith+
  with None show ?thesis by (simp add: tick_linker_def case_prod_beta del: checked_sub_nat_None)
next
  case (Some cutoff)
  then have le: "cutoff \<le> x \<longleftrightarrow> now \<le> x + ttl (config s)" for x by auto
  have count: "length xs - length (filter P xs) = length (filter (\<lambda>x. \<not> P x) xs)" for P and xs :: "'x list"
    using sum_length_filter_compl [of P xs] by linarith
  from Some show ?thesis
    by (simp add: tick_linker_def Let_def count case_prod_unfold le not_le del: checked_sub_nat_Some)
qed

section \<open>The actor\<close>

lemma apply_update_simps [simp]:
  "linker (apply_update upd a u) = linker a" "db (apply_update upd a u) = fst (upd (db a) u)"
  "pairs_emitted (metrics (apply_update upd a u)) = pairs_emitted (metrics a)"
  by (simp_all add: apply_update_def case_prod_beta Let_def)

lemma foldl_apply_update:
  "linker (foldl (apply_update upd) a us) = linker a
   \<and> db (foldl (apply_update upd) a us) = foldl (\<lambda>d u. fst (upd d u)) (db a) us
   \<and> pairs_emitted (metrics (foldl (apply_update upd) a us)) = pairs_emitted (metrics a)"
  by (induction us arbitrary: a) simp_all

lemma bump_dropped_emitted: "pairs_emitted (bump_dropped r n m) = pairs_emitted m"
  by (cases r) simp_all

lemma actor_step_refines:
  assumes "handle (on_event_persisted iter) on_frame_captured tick_linker (linker a) now m = (l, us, n)"
  shows "linker (actor_step iter upd a now m) = l
    \<and> db (actor_step iter upd a now m) = foldl (\<lambda>d u. fst (upd d u)) (db a) us
    \<and> pairs_emitted (metrics (actor_step iter upd a now m)) mod 2 ^ 64
      = (pairs_emitted (metrics a) + length us) mod 2 ^ 64"
proof (cases m)
  case (EventPersisted e)
  obtain l' u where o: "on_event_persisted iter (linker a) e now = (l', u)" by fastforce
  with assms EventPersisted show ?thesis
    by (cases u) (auto simp: Let_def fetch_add_def)
next
  case (FrameCaptured c)
  obtain l' ups where o: "on_frame_captured (linker a) c now = (l', ups)" by fastforce
  with assms FrameCaptured show ?thesis by (auto simp: Let_def fetch_add_def foldl_apply_update)
next
  case (TriggerDropped cs r)
  with assms show ?thesis by (auto simp: Let_def bump_dropped_emitted)
next
  case LinkerTick
  obtain l' k where o: "tick_linker (linker a) now = (l', k)" by fastforce
  with assms LinkerTick show ?thesis by (auto simp: Let_def)
qed

lemma actor_run_refines:
  assumes "handle_all (on_event_persisted iter) on_frame_captured tick_linker (linker a) ms = (l, us)"
  shows "linker (actor_run iter upd a ms) = l
    \<and> db (actor_run iter upd a ms) = foldl (\<lambda>d u. fst (upd d u)) (db a) us
    \<and> pairs_emitted (metrics (actor_run iter upd a ms)) mod 2 ^ 64
      = (pairs_emitted (metrics a) + length us) mod 2 ^ 64"
  using assms
proof (induction ms arbitrary: a us)
  case Nil
  then show ?case by simp
next
  case (Cons nm ms)
  obtain now m where nm: "nm = (now, m)" by fastforce
  obtain l' us' n where h: "handle (on_event_persisted iter) on_frame_captured tick_linker (linker a) now m = (l', us', n)"
    by (metis prod_cases3)
  obtain vs where r: "handle_all (on_event_persisted iter) on_frame_captured tick_linker l' ms = (l, vs)"
    "us = us' @ vs"
    using Cons.prems h by (auto simp: nm split: prod.splits)
  let ?a = "actor_step iter upd a now m"
  note st = actor_step_refines [OF h, of upd]
  then have "handle_all (on_event_persisted iter) on_frame_captured tick_linker (linker ?a) ms = (l, vs)"
    using r(1) by simp
  note ih = Cons.IH [OF this]
  have "(pairs_emitted (metrics ?a) + length vs) mod 2 ^ 64
      = (pairs_emitted (metrics a) + length us' + length vs) mod 2 ^ 64"
    using st by (metis mod_add_left_eq)
  with ih st show ?case by (simp add: nm r(2) add.assoc)
qed

lemma pairs_emitted_bounded:
  "pairs_emitted (metrics a) < 2 ^ 64 \<Longrightarrow> pairs_emitted (metrics (actor_run iter upd a ms)) < 2 ^ 64"
proof (induction ms arbitrary: a)
  case Nil
  then show ?case by simp
next
  case (Cons nm ms)
  obtain now m where nm: "nm = (now, m)" by fastforce
  have "pairs_emitted (metrics (actor_step iter upd a now m)) < 2 ^ 64"
    using Cons.prems
    by (cases m) (auto simp: Let_def fetch_add_def foldl_apply_update bump_dropped_emitted
        split: option.splits prod.splits)
  with Cons.IH show ?case by (simp add: nm)
qed

text \<open>C40: The actor refines the linker: over every trace of messages its linker goes through the
  linker's own states, the database receives exactly the emitted updates in their order, failing
  ones included, a dropped trigger changes neither, and the emitted-pairs counter is their number
  modulo the width of the counter.\<close>

theorem actor_refines_linker:
  assumes "linker_run iter default_linker_config ms = (l, us)"
  shows "linker (actor_run iter upd (spawn_frame_linker d) ms) = l
    \<and> db (actor_run iter upd (spawn_frame_linker d) ms) = foldl (\<lambda>d u. fst (upd d u)) d us
    \<and> pairs_emitted (metrics (actor_run iter upd (spawn_frame_linker d) ms)) = length us mod 2 ^ 64"
proof -
  let ?a = "spawn_frame_linker d"
  have z: "linker ?a = new_linker default_linker_config" "db ?a = d" "pairs_emitted (metrics ?a) = 0"
    by (simp_all add: spawn_frame_linker_def zero_metrics_def)
  from actor_run_refines [of iter ?a ms l us upd] assms have r:
    "linker (actor_run iter upd ?a ms) = l" "db (actor_run iter upd ?a ms) = foldl (\<lambda>d u. fst (upd d u)) d us"
    "pairs_emitted (metrics (actor_run iter upd ?a ms)) mod 2 ^ 64 = length us mod 2 ^ 64"
    by (simp_all add: z)
  moreover have "pairs_emitted (metrics (actor_run iter upd ?a ms)) < 2 ^ 64"
    by (rule pairs_emitted_bounded) (simp add: z)
  ultimately show ?thesis by simp
qed

lemma actor_refines_linker_witness:
  "pairs_emitted (metrics (actor_run (\<lambda>m. m) (\<lambda>d u. (u # d, True)) (spawn_frame_linker []) sample_trace)) = 2"
proof -
  have "linker_run (\<lambda>m. m) default_linker_config sample_trace
     = (\<lparr>config = default_linker_config, pending_events = [],
         pending_frames = [\<lparr>pf_frame = 55, unmatched = [8], pf_inserted = 2\<rparr>]\<rparr>,
        [\<lparr>up_row = 100, up_frame = 55\<rparr>, \<lparr>up_row = 300, up_frame = 55\<rparr>])"
    by (simp add: sample_trace_def new_linker_def default_linker_config_def on_event_persisted_def
        evict_if_full_events_def on_frame_captured_def evict_if_full_frames_def tick_linker_def
        checked_sub_nat_def Let_def swap_remove_def compact_pending_frames_def)
  from actor_refines_linker [OF this, of "\<lambda>d u. (u # d, True)" "[]"] show ?thesis by simp
qed

end
