(* ===== verification/MeetingProfiles.thy ===== *)
theory MeetingProfiles
  imports RustText
begin

text \<open>
  The data of \<open>screenpipe-engine/src/meeting_detector.rs\<close>: how a meeting app is recognised
  (\<open>AppIdentifiers\<close>), which elements of its accessibility tree show that a call is in progress
  (\<open>CallSignal\<close>), and the built-in table of profiles. Two of its rows are compiled for one
  platform only (\<open>#[cfg(target_os = ..)]\<close>), so the table depends on the platform.
\<close>

record app_identifiers_t =
  macos_app_names :: "rstr list"
  windows_process_names :: "rstr list"
  browser_url_patterns :: "rstr list"
  browser_title_patterns :: "rstr list"

datatype call_signal =
  AutomationId rstr
| AutomationIdContains rstr
| KeyboardShortcut rstr
| RoleWithName rstr rstr
| MenuBarItem rstr
| MenuItemId rstr
| NameContains rstr
| WindowTitle rstr

record detection_profile =
  app_identifiers :: app_identifiers_t
  call_signals :: "call_signal list"
  min_signals_required :: nat

datatype platform = MacOS | Windows | OtherOS

definition teams_profile :: detection_profile where
  "teams_profile = \<lparr>
    app_identifiers = \<lparr>
     macos_app_names =
     [lit ''microsoft teams'', lit ''teams'', lit ''msteams''],
     windows_process_names =
     [lit ''ms-teams.exe'', lit ''teams.exe''],
     browser_url_patterns =
     [lit ''teams.microsoft.com'', lit ''teams.live.com'', lit ''Microsoft Teams''],
     browser_title_patterns = []\<rparr>,
    call_signals =
     [AutomationId (lit ''hangup-button''),
      KeyboardShortcut (lit ''Ctrl+Shift+H''),
      KeyboardShortcut ([226, 140, 152, 226, 135, 167] @ lit ''H''),
      RoleWithName (lit ''AXButton'') (lit ''hang up''),
      RoleWithName (lit ''AXButton'') (lit ''leave''),
      NameContains (lit ''leave''),
      RoleWithName (lit ''AXCheckBox'') (lit ''Mute mic'')],
    min_signals_required = 1\<rparr>"

definition zoom_profile :: detection_profile where
  "zoom_profile = \<lparr>
    app_identifiers = \<lparr>
     macos_app_names =
     [lit ''zoom.us'', lit ''zoom''],
     windows_process_names =
     [lit ''zoom.exe''],
     browser_url_patterns =
     [lit ''zoom.us/j'', lit ''zoom.us/wc'', lit ''zoom.us/my'', lit ''zoom meeting''],
     browser_title_patterns = []\<rparr>,
    call_signals =
     [WindowTitle (lit ''Zoom Meeting''),
      NameContains (lit ''Return to meeting''),
      NameContains (lit ''In a Zoom Meeting''),
      NameContains (lit ''Zoom Video Container''),
      RoleWithName (lit ''AXButton'') (lit ''leave''),
      RoleWithName (lit ''AXButton'') (lit ''end meeting''),
      NameContains (lit ''Stop Share''),
      NameContains (lit ''Pause Share''),
      NameContains (lit ''You are screen sharing''),
      AutomationIdContains (lit ''leave''),
      KeyboardShortcut (lit ''Alt+Q'')],
    min_signals_required = 1\<rparr>"

definition google_meet_profile :: detection_profile where
  "google_meet_profile = \<lparr>
    app_identifiers = \<lparr>
     macos_app_names = [],
     windows_process_names = [],
     browser_url_patterns =
     [lit ''meet.google.com''],
     browser_title_patterns =
     [lit ''Meet'']\<rparr>,
    call_signals =
     [RoleWithName (lit ''AXButton'') (lit ''leave call''),
      RoleWithName (lit ''AXButton'') (lit ''end call''),
      NameContains (lit ''leave call'')],
    min_signals_required = 1\<rparr>"

definition slack_profile :: detection_profile where
  "slack_profile = \<lparr>
    app_identifiers = \<lparr>
     macos_app_names =
     [lit ''slack''],
     windows_process_names =
     [lit ''slack.exe''],
     browser_url_patterns =
     [lit ''app.slack.com/huddle''],
     browser_title_patterns = []\<rparr>,
    call_signals =
     [RoleWithName (lit ''AXButton'') (lit ''leave huddle''),
      RoleWithName (lit ''AXButton'') (lit ''leave'')],
    min_signals_required = 1\<rparr>"

definition facetime_profile :: detection_profile where
  "facetime_profile = \<lparr>
    app_identifiers = \<lparr>
     macos_app_names =
     [lit ''facetime''],
     windows_process_names = [],
     browser_url_patterns = [],
     browser_title_patterns = []\<rparr>,
    call_signals =
     [RoleWithName (lit ''AXButton'') (lit ''end''),
      RoleWithName (lit ''AXButton'') (lit ''leave'')],
    min_signals_required = 1\<rparr>"

definition webex_profile :: detection_profile where
  "webex_profile = \<lparr>
    app_identifiers = \<lparr>
     macos_app_names =
     [lit ''webex'', lit ''cisco webex meetings''],
     windows_process_names =
     [lit ''webexmta.exe'', lit ''ciscowebex.exe''],
     browser_url_patterns =
     [lit ''webex.com''],
     browser_title_patterns = []\<rparr>,
    call_signals =
     [AutomationIdContains (lit ''leave''),
      RoleWithName (lit ''AXButton'') (lit ''leave''),
      RoleWithName (lit ''AXButton'') (lit ''end meeting'')],
    min_signals_required = 1\<rparr>"

definition discord_macos_profile :: detection_profile where
  "discord_macos_profile = \<lparr>
    app_identifiers = \<lparr>
     macos_app_names =
     [lit ''discord''],
     windows_process_names = [],
     browser_url_patterns = [],
     browser_title_patterns = []\<rparr>,
    call_signals =
     [MenuBarItem (lit ''Disconnect''),
      RoleWithName (lit ''AXButton'') (lit ''Disconnect''),
      NameContains (lit ''Disconnect''),
      MenuBarItem (lit ''Mute'')],
    min_signals_required = 2\<rparr>"

definition discord_windows_profile :: detection_profile where
  "discord_windows_profile = \<lparr>
    app_identifiers = \<lparr>
     macos_app_names = [],
     windows_process_names =
     [lit ''discord.exe''],
     browser_url_patterns = [],
     browser_title_patterns = []\<rparr>,
    call_signals =
     [RoleWithName (lit ''AXButton'') (lit ''Disconnect''),
      NameContains (lit ''Disconnect'')],
    min_signals_required = 1\<rparr>"

definition discord_browser_profile :: detection_profile where
  "discord_browser_profile = \<lparr>
    app_identifiers = \<lparr>
     macos_app_names = [],
     windows_process_names = [],
     browser_url_patterns =
     [lit ''discord.com'', lit ''discordapp.com''],
     browser_title_patterns = []\<rparr>,
    call_signals =
     [NameContains (lit ''Voice Connected''),
      RoleWithName (lit ''AXButton'') (lit ''disconnect'')],
    min_signals_required = 2\<rparr>"

definition signal_app_profile :: detection_profile where
  "signal_app_profile = \<lparr>
    app_identifiers = \<lparr>
     macos_app_names =
     [lit ''signal''],
     windows_process_names =
     [lit ''signal.exe''],
     browser_url_patterns = [],
     browser_title_patterns = []\<rparr>,
    call_signals =
     [RoleWithName (lit ''AXButton'') (lit ''end call''),
      RoleWithName (lit ''AXButton'') (lit ''hang up''),
      NameContains (lit ''End Call''),
      NameContains (lit ''Hang Up''),
      RoleWithName (lit ''Button'') (lit ''End call''),
      RoleWithName (lit ''Button'') (lit ''Hang up'')],
    min_signals_required = 1\<rparr>"

definition whatsapp_profile :: detection_profile where
  "whatsapp_profile = \<lparr>
    app_identifiers = \<lparr>
     macos_app_names =
     [lit ''whatsapp''],
     windows_process_names =
     [lit ''whatsapp.exe''],
     browser_url_patterns =
     [lit ''web.whatsapp.com''],
     browser_title_patterns = []\<rparr>,
    call_signals =
     [RoleWithName (lit ''AXButton'') (lit ''end call''),
      RoleWithName (lit ''AXButton'') (lit ''hang up''),
      NameContains (lit ''End call''),
      RoleWithName (lit ''Button'') (lit ''End call'')],
    min_signals_required = 1\<rparr>"

definition telegram_profile :: detection_profile where
  "telegram_profile = \<lparr>
    app_identifiers = \<lparr>
     macos_app_names =
     [lit ''telegram''],
     windows_process_names =
     [lit ''telegram.exe''],
     browser_url_patterns =
     [lit ''web.telegram.org''],
     browser_title_patterns = []\<rparr>,
    call_signals =
     [RoleWithName (lit ''AXButton'') (lit ''end call''),
      RoleWithName (lit ''AXButton'') (lit ''hang up''),
      NameContains (lit ''End Call''),
      NameContains (lit ''Hang Up''),
      RoleWithName (lit ''Button'') (lit ''End call'')],
    min_signals_required = 1\<rparr>"

definition generic_profile :: detection_profile where
  "generic_profile = \<lparr>
    app_identifiers = \<lparr>
     macos_app_names =
     [lit ''skype'', lit ''skype for business'', lit ''around'', lit ''whereby'',
      lit ''tuple'', lit ''pop'', lit ''tandem'', lit ''riverside'',
      lit ''gather'', lit ''butter'', lit ''ringcentral'', lit ''ringcentral meetings'',
      lit ''bluejeans'', lit ''gotomeeting'', lit ''goto meeting'', lit ''dialpad'',
      lit ''lifesize'', lit ''vonage'', lit ''8x8 meet'', lit ''8x8 work'',
      lit ''jitsi meet'', lit ''chime'', lit ''amazon chime'', lit ''google meet'',
      lit ''cal.com'', lit ''daily.co''],
     windows_process_names =
     [lit ''skype.exe'', lit ''lync.exe'', lit ''ringcentral.exe'', lit ''bluejeans.exe'',
      lit ''gotomeeting.exe''],
     browser_url_patterns =
     [lit ''meet.jit.si'', lit ''jitsi'', lit ''riverside.fm'', lit ''gather.town'',
      lit ''app.gather.town'', lit ''butter.us'', lit ''livestorm.co'', lit ''ping.gg'',
      lit ''cal.com/video'', lit ''daily.co'', lit ''app.daily.co'', lit ''pop.com'',
      lit ''tuple.app'', lit ''tandem.chat'', lit ''meet.ringcentral.com'', lit ''bluejeans.com'',
      lit ''gotomeeting.com'', lit ''app.chime.aws'', lit ''dialpad.com/meetings'', lit ''8x8.vc''],
     browser_title_patterns = []\<rparr>,
    call_signals =
     [RoleWithName (lit ''AXButton'') (lit ''leave''),
      RoleWithName (lit ''AXButton'') (lit ''hangup''),
      RoleWithName (lit ''AXButton'') (lit ''hang up''),
      RoleWithName (lit ''AXButton'') (lit ''end call''),
      RoleWithName (lit ''AXButton'') (lit ''end meeting''),
      RoleWithName (lit ''AXButton'') (lit ''disconnect'')],
    min_signals_required = 1\<rparr>"

definition load_detection_profiles :: "platform \<Rightarrow> detection_profile list" where
  "load_detection_profiles p =
     [teams_profile, zoom_profile, google_meet_profile, slack_profile, facetime_profile, webex_profile]
     @ (case p of MacOS \<Rightarrow> [discord_macos_profile] | Windows \<Rightarrow> [discord_windows_profile] | OtherOS \<Rightarrow> [])
     @ [discord_browser_profile, signal_app_profile, whatsapp_profile, telegram_profile, generic_profile]"

lemmas profile_defs =
  teams_profile_def zoom_profile_def google_meet_profile_def slack_profile_def facetime_profile_def
  webex_profile_def discord_macos_profile_def discord_windows_profile_def discord_browser_profile_def
  signal_app_profile_def whatsapp_profile_def telegram_profile_def generic_profile_def

lemma profiles_require_a_signal: "list_all (\<lambda>p. 1 \<le> min_signals_required p) (load_detection_profiles os)"
  by (cases os) (simp_all add: load_detection_profiles_def profile_defs)

end
