(* ===== verification/MeetingSignals.thy ===== *)
theory MeetingSignals
  imports MeetingProfiles
begin

text \<open>
  \<open>screenpipe-engine/src/meeting_detector.rs\<close>: matching one accessibility element against the
  signals of a profile, and the two scanners that search an app's elements for them: the tree
  walk of macOS and the UI-Automation search of Windows. What the operating system answers (the
  elements, their attributes, whether a query fails) is data given to the scanner. Unicode case
  mapping is a parameter: \<open>low\<close> is \<open>str::to_lowercase\<close>, \<open>lowc\<close> is \<open>char::to_lowercase\<close>; so is
  the clock: \<open>late n\<close> says whether the \<open>n\<close>-th look at it is past the deadline.
\<close>

section \<open>One element\<close>

text \<open>\<open>o.is_some_and(|x| p(x))\<close>.\<close>

definition is_some_and :: "'a option \<Rightarrow> ('a \<Rightarrow> bool) \<Rightarrow> bool" where
  "is_some_and x p = (case x of Some y \<Rightarrow> p y | None \<Rightarrow> False)"

record attr_needs =
  need_title :: bool
  need_desc :: bool
  need_ident :: bool

definition no_needs :: attr_needs where
  "no_needs = \<lparr>need_title = False, need_desc = False, need_ident = False\<rparr>"

fun add_needs :: "call_signal \<Rightarrow> attr_needs \<Rightarrow> attr_needs" where
  "add_needs (AutomationId _) n = n\<lparr>need_ident := True\<rparr>"
| "add_needs (AutomationIdContains _) n = n\<lparr>need_ident := True\<rparr>"
| "add_needs (MenuItemId _) n = n\<lparr>need_ident := True\<rparr>"
| "add_needs (KeyboardShortcut _) n = n\<lparr>need_title := True, need_desc := True\<rparr>"
| "add_needs (RoleWithName _ _) n = n\<lparr>need_title := True, need_desc := True\<rparr>"
| "add_needs (NameContains _) n = n\<lparr>need_title := True, need_desc := True\<rparr>"
| "add_needs (MenuBarItem _) n = n\<lparr>need_title := True\<rparr>"
| "add_needs (WindowTitle _) n = n\<lparr>need_title := True\<rparr>"

text \<open>The loop stops once everything is needed.\<close>

fun needs_loop :: "attr_needs \<Rightarrow> call_signal list \<Rightarrow> attr_needs" where
  "needs_loop n [] = n"
| "needs_loop n (s # ss) =
     (let n' = add_needs s n in
      if need_title n' \<and> need_desc n' \<and> need_ident n' then n' else needs_loop n' ss)"

definition from_call_signals :: "call_signal list \<Rightarrow> attr_needs" where
  "from_call_signals = needs_loop no_needs"

record precomputed_signal =
  ps_signal :: call_signal
  ps_lower :: rstr

fun signal_lower :: "(rstr \<Rightarrow> rstr) \<Rightarrow> call_signal \<Rightarrow> rstr" where
  "signal_lower low (AutomationId i) = i"
| "signal_lower low (AutomationIdContains s) = low s"
| "signal_lower low (KeyboardShortcut s) = low s"
| "signal_lower low (RoleWithName r n) = low n"
| "signal_lower low (MenuBarItem t) = low t"
| "signal_lower low (MenuItemId i) = i"
| "signal_lower low (NameContains n) = low n"
| "signal_lower low (WindowTitle t) = low t"

definition from_signals :: "(rstr \<Rightarrow> rstr) \<Rightarrow> call_signal list \<Rightarrow> precomputed_signal list" where
  "from_signals low ss = map (\<lambda>s. \<lparr>ps_signal = s, ps_lower = signal_lower low s\<rparr>) ss"

definition needs_of :: "precomputed_signal list \<Rightarrow> attr_needs" where
  "needs_of ps = from_call_signals (map ps_signal ps)"

text \<open>\<open>check_signal_match_precomputed\<close> (macOS): the element's fields come lowercased.\<close>

fun check_signal_match_precomputed ::
  "precomputed_signal \<Rightarrow> rstr \<Rightarrow> rstr option \<Rightarrow> rstr option \<Rightarrow> rstr option \<Rightarrow> bool" where
  "check_signal_match_precomputed ps role title_l desc_l ident_l =
     (case ps_signal ps of
        AutomationId i \<Rightarrow> is_some_and ident_l (\<lambda>x. eq_ignore_ascii_case x i)
      | AutomationIdContains _ \<Rightarrow> is_some_and ident_l (\<lambda>x. contains_str x (ps_lower ps))
      | KeyboardShortcut _ \<Rightarrow>
          is_some_and desc_l (\<lambda>x. contains_str x (ps_lower ps)) \<or> is_some_and title_l (\<lambda>x. contains_str x (ps_lower ps))
      | RoleWithName r _ \<Rightarrow>
          if role \<noteq> r then False
          else is_some_and title_l (\<lambda>x. contains_str x (ps_lower ps)) \<or> is_some_and desc_l (\<lambda>x. contains_str x (ps_lower ps))
      | MenuBarItem _ \<Rightarrow>
          if role \<noteq> lit ''AXMenuBarItem'' then False else is_some_and title_l (\<lambda>x. contains_str x (ps_lower ps))
      | MenuItemId _ \<Rightarrow>
          if role \<noteq> lit ''AXMenuItem'' then False else is_some_and ident_l (\<lambda>x. x = ps_lower ps)
      | NameContains _ \<Rightarrow>
          is_some_and title_l (\<lambda>x. contains_str x (ps_lower ps)) \<or> is_some_and desc_l (\<lambda>x. contains_str x (ps_lower ps))
      | WindowTitle _ \<Rightarrow> is_some_and title_l (\<lambda>x. contains_str x (ps_lower ps)))"

text \<open>\<open>role_matches\<close> and \<open>check_signal_match\<close> (Windows).\<close>

definition normalise :: "(nat \<Rightarrow> nat list) \<Rightarrow> rstr \<Rightarrow> nat list" where
  "normalise lowc s =
     (let trimmed = (case strip_prefix (lit ''AX'') s of
        Some t \<Rightarrow> t
      | None \<Rightarrow> (case strip_prefix (lit ''ax'') s of Some t \<Rightarrow> t | None \<Rightarrow> s))
      in concat (map lowc (filter (\<lambda>c. \<not> is_whitespace c) (chars trimmed))))"

definition role_matches :: "(nat \<Rightarrow> nat list) \<Rightarrow> rstr \<Rightarrow> rstr \<Rightarrow> bool" where
  "role_matches lowc actual expected =
     (if eq_ignore_ascii_case actual expected then True
      else normalise lowc actual = normalise lowc expected)"

fun check_signal_match ::
  "(rstr \<Rightarrow> rstr) \<Rightarrow> (nat \<Rightarrow> nat list) \<Rightarrow> call_signal \<Rightarrow> rstr \<Rightarrow> rstr option \<Rightarrow> rstr option \<Rightarrow> rstr option \<Rightarrow> bool" where
  "check_signal_match low lowc (AutomationId i) role title desc ident =
     is_some_and ident (\<lambda>x. eq_ignore_ascii_case x i)"
| "check_signal_match low lowc (AutomationIdContains s) role title desc ident =
     is_some_and ident (\<lambda>x. contains_str (low x) (low s))"
| "check_signal_match low lowc (KeyboardShortcut s) role title desc ident =
     (is_some_and desc (\<lambda>x. contains_str (low x) (low s)) \<or> is_some_and title (\<lambda>x. contains_str (low x) (low s)))"
| "check_signal_match low lowc (RoleWithName r s) role title desc ident =
     (if \<not> role_matches lowc role r then False
      else is_some_and title (\<lambda>x. contains_str (low x) (low s)) \<or> is_some_and desc (\<lambda>x. contains_str (low x) (low s)))"
| "check_signal_match low lowc (MenuBarItem s) role title desc ident =
     (if \<not> role_matches lowc role (lit ''AXMenuBarItem'') then False
      else is_some_and title (\<lambda>x. contains_str (low x) (low s)))"
| "check_signal_match low lowc (MenuItemId i) role title desc ident =
     (if \<not> role_matches lowc role (lit ''AXMenuItem'') then False else ident = Some i)"
| "check_signal_match low lowc (NameContains s) role title desc ident =
     (is_some_and title (\<lambda>x. contains_str (low x) (low s)) \<or> is_some_and desc (\<lambda>x. contains_str (low x) (low s)))"
| "check_signal_match low lowc (WindowTitle s) role title desc ident =
     is_some_and title (\<lambda>x. contains_str (low x) (low s))"

text \<open>\<open>format_signal_match\<close>: the label under which a match is counted.\<close>

definition label_of :: "rstr option \<Rightarrow> rstr" where
  "label_of x = (case x of Some y \<Rightarrow> y | None \<Rightarrow> lit ''?'')"

definition or_else :: "'a option \<Rightarrow> 'a option \<Rightarrow> 'a option" where
  "or_else x y = (case x of Some _ \<Rightarrow> x | None \<Rightarrow> y)"

fun format_signal_match :: "call_signal \<Rightarrow> rstr \<Rightarrow> rstr option \<Rightarrow> rstr option \<Rightarrow> rstr" where
  "format_signal_match (AutomationId i) role title desc = lit ''automation_id='' @ i"
| "format_signal_match (AutomationIdContains s) role title desc = lit ''automation_id_contains='' @ s"
| "format_signal_match (KeyboardShortcut s) role title desc = lit ''shortcut='' @ s"
| "format_signal_match (RoleWithName r n) role title desc =
     lit ''role_match='' @ role @ lit '':'' @ n @ lit '' ('' @ label_of (or_else title desc) @ lit '')''"
| "format_signal_match (MenuBarItem t) role title desc =
     lit ''menu_bar_item='' @ t @ lit '' ('' @ label_of title @ lit '')''"
| "format_signal_match (MenuItemId i) role title desc = lit ''menu_item_id='' @ i"
| "format_signal_match (NameContains n) role title desc =
     lit ''name_contains='' @ n @ lit '' ('' @ label_of (or_else title desc) @ lit '')''"
| "format_signal_match (WindowTitle t) role title desc =
     lit ''window_title='' @ t @ lit '' ('' @ label_of title @ lit '')''"

section \<open>The tree walk of macOS\<close>

datatype ax_node = Ax
  (ax_role: "rstr option") (ax_title: "rstr option") (ax_desc: "rstr option")
  (ax_ident: "rstr option") (ax_dom_ident: "rstr option") (ax_children: "ax_node list option")

definition get_ax_identifier :: "ax_node \<Rightarrow> rstr option" where
  "get_ax_identifier e =
     (if is_some_and (ax_ident e) (\<lambda>v. v \<noteq> []) then ax_ident e
      else if is_some_and (ax_dom_ident e) (\<lambda>v. v \<noteq> []) then ax_dom_ident e
      else None)"

definition push_new :: "rstr list \<Rightarrow> rstr \<Rightarrow> rstr list" where
  "push_new found label = (if label \<in> set found then found else found @ [label])"

text \<open>The attributes of an element that the walk looks at, and the labels it adds for them.\<close>

definition fetched_title :: "attr_needs \<Rightarrow> ax_node \<Rightarrow> rstr option" where
  "fetched_title needs e = (if need_title needs then ax_title e else None)"

definition fetched_desc :: "attr_needs \<Rightarrow> ax_node \<Rightarrow> rstr option" where
  "fetched_desc needs e = (if need_desc needs then ax_desc e else None)"

definition fetched_ident :: "attr_needs \<Rightarrow> ax_node \<Rightarrow> rstr option" where
  "fetched_ident needs e = (if need_ident needs then get_ax_identifier e else None)"

definition node_matches :: "(rstr \<Rightarrow> rstr) \<Rightarrow> attr_needs \<Rightarrow> rstr \<Rightarrow> ax_node \<Rightarrow> precomputed_signal \<Rightarrow> bool" where
  "node_matches low needs role e ps =
     check_signal_match_precomputed ps role (map_option low (fetched_title needs e))
       (map_option low (fetched_desc needs e)) (map_option low (fetched_ident needs e))"

definition node_label :: "attr_needs \<Rightarrow> rstr \<Rightarrow> ax_node \<Rightarrow> precomputed_signal \<Rightarrow> rstr" where
  "node_label needs role e ps =
     format_signal_match (ps_signal ps) role (fetched_title needs e) (fetched_desc needs e)"

definition check_node ::
  "(rstr \<Rightarrow> rstr) \<Rightarrow> precomputed_signal list \<Rightarrow> attr_needs \<Rightarrow> rstr \<Rightarrow> ax_node \<Rightarrow> rstr list \<Rightarrow> rstr list" where
  "check_node low pss needs role e found =
     foldl (\<lambda>fd ps. if node_matches low needs role e ps then push_new fd (node_label needs role e ps) else fd)
       found pss"

definition content_roles :: "rstr list" where
  "content_roles = [lit ''AXTextArea'', lit ''AXTextField'', lit ''AXTable'', lit ''AXList'',
     lit ''AXOutline'', lit ''AXStaticText'']"

text \<open>What does not change along the walk.\<close>

record walk_env =
  w_low :: "rstr \<Rightarrow> rstr"
  w_late :: "nat \<Rightarrow> bool"
  w_signals :: "precomputed_signal list"
  w_needs :: attr_needs
  w_max_depth :: nat
  w_min_required :: nat

text \<open>The state is the labels found and how often the clock was read.\<close>

type_synonym walk_state = "rstr list \<times> nat"

fun walk_for_signals :: "walk_env \<Rightarrow> nat \<Rightarrow> ax_node \<Rightarrow> walk_state \<Rightarrow> walk_state"
and walk_children :: "walk_env \<Rightarrow> nat \<Rightarrow> ax_node list \<Rightarrow> walk_state \<Rightarrow> walk_state" where
  "walk_for_signals w depth (Ax role title desc ident dom_id children) (found, n) =
     (if depth \<ge> w_max_depth w then (found, n)
      else if w_late w n \<or> length found \<ge> w_min_required w then (found, Suc n)
      else case role of
        None \<Rightarrow> (found, Suc n)
      | Some r \<Rightarrow>
          let found' = check_node (w_low w) (w_signals w) (w_needs w) r
                         (Ax role title desc ident dom_id children) found
          in if length found' \<ge> w_min_required w then (found', Suc n)
             else if r \<in> set content_roles then (found', Suc n)
             else case children of
               None \<Rightarrow> (found', Suc n)
             | Some cs \<Rightarrow> walk_children w depth cs (found', Suc n))"
| "walk_children w depth [] st = st"
| "walk_children w depth (c # cs) (found, n) =
     (if w_late w n \<or> length found \<ge> w_min_required w then (found, Suc n)
      else walk_children w depth cs (walk_for_signals w (depth + 1) c (found, Suc n)))"

text \<open>The loop over an app's windows.\<close>

fun scan_windows :: "walk_env \<Rightarrow> ax_node list \<Rightarrow> walk_state \<Rightarrow> walk_state" where
  "scan_windows w [] st = st"
| "scan_windows w (c # cs) (found, n) =
     (if w_late w n then (found, Suc n)
      else let (found', n') = walk_for_signals w 0 c (found, Suc n)
           in if length found' \<ge> w_min_required w then (found', n') else scan_windows w cs (found', n'))"

record scan_result =
  sr_app_name :: rstr
  sr_profile_index :: nat
  signals_found :: nat
  is_in_call :: bool
  matched_signals :: "rstr list"

fun show_nat :: "nat \<Rightarrow> rstr" where
  "show_nat n = (if n < 10 then [48 + n] else show_nat (n div 10) @ [48 + n mod 10])"

definition show_int :: "int \<Rightarrow> rstr" where
  "show_int i = (if i < 0 then lit ''-'' @ show_nat (nat (- i)) else show_nat (nat i))"

text \<open>What asking the app for its windows gives: a panic of the bindings, an error, or windows.\<close>

datatype ax_answer = AxPanic | AxError | AxWindows "ax_node list"

record scanner =
  max_depth :: nat
  scan_timeout :: nat

definition new_scanner :: scanner where
  "new_scanner = \<lparr>max_depth = 25, scan_timeout = 5000\<rparr>"

definition walk_env_for :: "scanner \<Rightarrow> (rstr \<Rightarrow> rstr) \<Rightarrow> (nat \<Rightarrow> bool) \<Rightarrow> detection_profile \<Rightarrow> walk_env" where
  "walk_env_for sc low late p =
     (let pre = from_signals low (call_signals p)
      in \<lparr>w_low = low, w_late = late, w_signals = pre, w_needs = needs_of pre,
          w_max_depth = max_depth sc, w_min_required = min_signals_required p\<rparr>)"

definition make_scan_result :: "rstr \<Rightarrow> nat \<Rightarrow> rstr list \<Rightarrow> scan_result" where
  "make_scan_result name required found =
     \<lparr>sr_app_name = name, sr_profile_index = 0, signals_found = length found,
      is_in_call = length found \<ge> required, matched_signals = found\<rparr>"

text \<open>\<open>scan_process\<close> on macOS.\<close>

definition scan_process_macos ::
  "scanner \<Rightarrow> (rstr \<Rightarrow> rstr) \<Rightarrow> (nat \<Rightarrow> bool) \<Rightarrow> rstr option \<Rightarrow> ax_answer \<Rightarrow> int \<Rightarrow> detection_profile \<Rightarrow> scan_result" where
  "scan_process_macos sc low late app_name answer pid p =
     (let name = (case app_name of Some n \<Rightarrow> n | None \<Rightarrow> lit ''pid:'' @ show_int pid);
          found = (case answer of
             AxPanic \<Rightarrow> []
           | AxError \<Rightarrow> []
           | AxWindows ws \<Rightarrow> fst (scan_windows (walk_env_for sc low late p) ws ([], 0)))
      in make_scan_result name (min_signals_required p) found)"

definition scan_process_other :: "int \<Rightarrow> detection_profile \<Rightarrow> scan_result" where
  "scan_process_other pid p =
     \<lparr>sr_app_name = lit ''pid:'' @ show_int pid, sr_profile_index = 0, signals_found = 0,
      is_in_call = False, matched_signals = []\<rparr>"

section \<open>The UI-Automation search of Windows\<close>

datatype uia_condition = ByAutomationId rstr | ByName rstr

fun signal_condition :: "call_signal \<Rightarrow> uia_condition option" where
  "signal_condition (AutomationId i) = Some (ByAutomationId i)"
| "signal_condition (NameContains n) = Some (ByName n)"
| "signal_condition (RoleWithName r n) = Some (ByName n)"
| "signal_condition _ = None"

record uia_candidate =
  c_name :: "rstr option"
  c_auto_id :: "rstr option"
  c_role :: "rstr option"

text \<open>A window: its element's name and what \<open>FindAll\<close> answers to the conditions; each candidate
  may fail to resolve.\<close>

record uia_window =
  u_name :: "rstr option"
  u_find_all :: "uia_condition list \<Rightarrow> uia_candidate option list option"

text \<open>What the automation service does: whether it starts, creates a condition, and joins the
  first \<open>k\<close> conditions.\<close>

record uia_service =
  u_starts :: bool
  u_creates :: "uia_condition \<Rightarrow> bool"
  u_joins :: "uia_condition list \<Rightarrow> bool"

definition build_conditions :: "uia_service \<Rightarrow> call_signal list \<Rightarrow> uia_condition list" where
  "build_conditions u ss = filter (u_creates u) (List.map_filter signal_condition ss)"

definition combined_ok :: "uia_service \<Rightarrow> uia_condition list \<Rightarrow> bool" where
  "combined_ok u cs \<longleftrightarrow> length cs = 1 \<or> list_all (\<lambda>k. u_joins u (take k cs)) [2..<Suc (length cs)]"

fun title_labels :: "(rstr \<Rightarrow> rstr) \<Rightarrow> rstr \<Rightarrow> call_signal list \<Rightarrow> rstr list \<Rightarrow> rstr list" where
  "title_labels low name [] found = found"
| "title_labels low name (WindowTitle t # ss) found =
     title_labels low name ss
       (if contains_str (low name) (low t)
        then push_new found (lit ''window_title='' @ t @ lit '' ('' @ name @ lit '')'') else found)"
| "title_labels low name (_ # ss) found = title_labels low name ss found"

text \<open>The first signal that matches the candidate is counted; the others are not tried.\<close>

fun candidate_label ::
  "(rstr \<Rightarrow> rstr) \<Rightarrow> (nat \<Rightarrow> nat list) \<Rightarrow> call_signal list \<Rightarrow> uia_candidate \<Rightarrow> rstr list \<Rightarrow> rstr list" where
  "candidate_label low lowc [] c found = found"
| "candidate_label low lowc (s # ss) c found =
     (let role = (case c_role c of Some r \<Rightarrow> r | None \<Rightarrow> []) in
      if check_signal_match low lowc s role (c_name c) None (c_auto_id c)
      then push_new found (format_signal_match s role (c_name c) None)
      else candidate_label low lowc ss c found)"

fun candidates_loop ::
  "(rstr \<Rightarrow> rstr) \<Rightarrow> (nat \<Rightarrow> nat list) \<Rightarrow> call_signal list \<Rightarrow> nat \<Rightarrow> uia_candidate option list \<Rightarrow> rstr list \<Rightarrow> rstr list" where
  "candidates_loop low lowc ss required [] found = found"
| "candidates_loop low lowc ss required (c # cs) found =
     (if length found \<ge> required then found
      else candidates_loop low lowc ss required cs
        (case c of Some x \<Rightarrow> candidate_label low lowc ss x found | None \<Rightarrow> found))"

fun uia_windows_loop ::
  "(rstr \<Rightarrow> rstr) \<Rightarrow> (nat \<Rightarrow> nat list) \<Rightarrow> (nat \<Rightarrow> bool) \<Rightarrow> uia_service \<Rightarrow> call_signal list \<Rightarrow> nat \<Rightarrow>
   uia_condition list \<Rightarrow> uia_window option list \<Rightarrow> nat \<Rightarrow> rstr list \<Rightarrow> rstr list" where
  "uia_windows_loop low lowc late u ss required conds [] n found = found"
| "uia_windows_loop low lowc late u ss required conds (w # ws) n found =
     (if late n \<or> length found \<ge> required then found
      else case w of
        None \<Rightarrow> uia_windows_loop low lowc late u ss required conds ws (Suc n) found
      | Some x \<Rightarrow>
          let found1 = (case u_name x of Some name \<Rightarrow> title_labels low name ss found | None \<Rightarrow> found)
          in if u_name x \<noteq> None \<and> length found1 \<ge> required then found1
             else
               let found2 = (if conds \<noteq> [] \<and> combined_ok u conds
                     then (case u_find_all x conds of
                             Some cs \<Rightarrow> candidates_loop low lowc ss required cs found1
                           | None \<Rightarrow> found1)
                     else found1)
               in uia_windows_loop low lowc late u ss required conds ws (Suc n) found2)"

definition windows_scan_process_uia ::
  "(rstr \<Rightarrow> rstr) \<Rightarrow> (nat \<Rightarrow> nat list) \<Rightarrow> (nat \<Rightarrow> bool) \<Rightarrow> uia_service \<Rightarrow> uia_window option list \<Rightarrow>
   call_signal list \<Rightarrow> nat \<Rightarrow> rstr list option" where
  "windows_scan_process_uia low lowc late u ws ss required =
     (if \<not> u_starts u then None
      else Some (uia_windows_loop low lowc late u ss required (build_conditions u ss) ws 0 []))"

text \<open>\<open>scan_process\<close> on Windows; \<open>panicked\<close> says whether the search unwound.\<close>

definition scan_process_windows ::
  "(rstr \<Rightarrow> rstr) \<Rightarrow> (nat \<Rightarrow> nat list) \<Rightarrow> (nat \<Rightarrow> bool) \<Rightarrow> uia_service \<Rightarrow> bool \<Rightarrow> rstr option \<Rightarrow>
   uia_window option list \<Rightarrow> int \<Rightarrow> detection_profile \<Rightarrow> scan_result" where
  "scan_process_windows low lowc late u panicked app_name ws pid p =
     (let name = (case app_name of Some n \<Rightarrow> n | None \<Rightarrow> lit ''pid:'' @ show_int pid);
          found = (if panicked then []
            else case windows_scan_process_uia low lowc late u ws (call_signals p) (min_signals_required p) of
              Some fs \<Rightarrow> fs
            | None \<Rightarrow> [])
      in make_scan_result name (min_signals_required p) found)"

end
