(* ===== verification/MeetingScan.thy ===== *)
theory MeetingScan
  imports MeetingSignals
begin

text \<open>
  What the tree walk computes: the labels of the matching elements among those the walk can see,
  whatever order they come in, and independently of which attributes are fetched.
\<close>

section \<open>Fetching only the needed attributes\<close>

definition needs_cover :: "attr_needs \<Rightarrow> call_signal \<Rightarrow> bool" where
  "needs_cover n s \<longleftrightarrow> add_needs s n = n"

lemma add_needs_same [simp]: "needs_cover (add_needs s n) s"
  by (cases s) (simp_all add: needs_cover_def)

lemma add_needs_keeps: "needs_cover n s \<Longrightarrow> needs_cover (add_needs t n) s"
  by (cases s; cases t; cases n) (auto simp: needs_cover_def)

lemma full_needs_cover: "need_title n \<Longrightarrow> need_desc n \<Longrightarrow> need_ident n \<Longrightarrow> needs_cover n s"
  by (cases s; cases n) (auto simp: needs_cover_def)

lemma needs_loop_keeps: "needs_cover n s \<Longrightarrow> needs_cover (needs_loop n ss) s"
  by (induction n ss rule: needs_loop.induct) (simp_all add: Let_def add_needs_keeps)

lemma needs_loop_covers: "s \<in> set ss \<Longrightarrow> needs_cover (needs_loop n ss) s"
proof (induction n ss rule: needs_loop.induct)
  case (1 n)
  then show ?case by simp
next
  case (2 n t ss)
  show ?case
  proof (cases "need_title (add_needs t n) \<and> need_desc (add_needs t n) \<and> need_ident (add_needs t n)")
    case True
    then show ?thesis by (simp add: Let_def full_needs_cover)
  next
    case False
    then have eq: "needs_loop n (t # ss) = needs_loop (add_needs t n) ss"
      by (simp only: needs_loop.simps Let_def if_False)
    show ?thesis
    proof (cases "s = t")
      case True
      then show ?thesis unfolding eq by (simp add: needs_loop_keeps)
    next
      case neq: False
      with 2(2) have "s \<in> set ss" by simp
      from 2(1) [OF refl False this] show ?thesis unfolding eq .
    qed
  qed
qed

definition all_needs :: attr_needs where
  "all_needs = \<lparr>need_title = True, need_desc = True, need_ident = True\<rparr>"

lemma covered_matches:
  assumes "needs_cover n (ps_signal ps)"
  shows "node_matches low n r e ps = node_matches low all_needs r e ps" "node_label n r e ps = node_label all_needs r e ps"
  using assms
  by (cases "ps_signal ps"; simp add: needs_cover_def node_matches_def node_label_def all_needs_def
      fetched_title_def fetched_desc_def fetched_ident_def; cases n; simp)+

lemma check_node_full:
  assumes "\<And>ps. ps \<in> set pss \<Longrightarrow> needs_cover n (ps_signal ps)"
  shows "check_node low pss n r e found = check_node low pss all_needs r e found"
  unfolding check_node_def
  by (rule foldl_cong) (simp_all add: covered_matches [OF assms])

section \<open>The elements the walk sees\<close>

fun visible :: "nat \<Rightarrow> nat \<Rightarrow> ax_node \<Rightarrow> (rstr \<times> ax_node) list"
and visible_children :: "nat \<Rightarrow> nat \<Rightarrow> ax_node list \<Rightarrow> (rstr \<times> ax_node) list" where
  "visible maxd depth (Ax role title desc ident dom_id children) =
     (if depth \<ge> maxd then []
      else case role of None \<Rightarrow> []
      | Some r \<Rightarrow> (r, Ax role title desc ident dom_id children) #
          (if r \<in> set content_roles then []
           else case children of None \<Rightarrow> [] | Some cs \<Rightarrow> visible_children maxd depth cs))"
| "visible_children maxd depth [] = []"
| "visible_children maxd depth (c # cs) = visible maxd (depth + 1) c @ visible_children maxd depth cs"

text \<open>Checking one element after the other until enough labels are found.\<close>

abbreviation check_in :: "walk_env \<Rightarrow> rstr \<Rightarrow> ax_node \<Rightarrow> rstr list \<Rightarrow> rstr list" where
  "check_in w \<equiv> check_node (w_low w) (w_signals w) (w_needs w)"

fun check_until :: "walk_env \<Rightarrow> (rstr \<times> ax_node) list \<Rightarrow> rstr list \<Rightarrow> rstr list" where
  "check_until w [] found = found"
| "check_until w ((r, e) # ns) found =
     (if length found \<ge> w_min_required w then found else check_until w ns (check_in w r e found))"

lemma check_until_enough [simp]: "length found \<ge> w_min_required w \<Longrightarrow> check_until w ns found = found"
  by (cases ns) (auto simp: split_paired_all)

lemma check_until_append: "check_until w (xs @ ys) found = check_until w ys (check_until w xs found)"
  by (induction w xs found rule: check_until.induct) auto

lemma walk_is_check_until:
  "w_late w = (\<lambda>_. False) \<Longrightarrow>
     fst (walk_for_signals w d e st) = check_until w (visible (w_max_depth w) d e) (fst st)"
  "w_late w = (\<lambda>_. False) \<Longrightarrow>
     fst (walk_children w d cs st) = check_until w (visible_children (w_max_depth w) d cs) (fst st)"
proof (induction w d e st and w d cs st rule: walk_for_signals_walk_children.induct)
  case (1 w depth role title desc ident dom_id children found n)
  then show ?case by (auto simp: Let_def split: option.splits)
next
  case (2 w depth st)
  then show ?case by simp
next
  case (3 w depth c cs found n)
  then show ?case by (auto simp: check_until_append)
qed

definition visible_in_windows :: "nat \<Rightarrow> ax_node list \<Rightarrow> (rstr \<times> ax_node) list" where
  "visible_in_windows maxd ws = concat (map (visible maxd 0) ws)"

lemma scan_is_check_until:
  "w_late w = (\<lambda>_. False) \<Longrightarrow>
     fst (scan_windows w cs st) = check_until w (visible_in_windows (w_max_depth w) cs) (fst st)"
proof (induction w cs st rule: scan_windows.induct)
  case (1 w st)
  then show ?case by (simp add: visible_in_windows_def)
next
  case (2 w c cs found n)
  obtain fd k where k: "walk_for_signals w 0 c (found, Suc n) = (fd, k)" by fastforce
  then have fd: "fd = check_until w (visible (w_max_depth w) 0 c) found"
    using walk_is_check_until(1) [OF 2(2), of 0 c "(found, Suc n)"] by simp
  show ?case using 2 k fd by (auto simp: check_until_append visible_in_windows_def)
qed

section \<open>Labels\<close>

definition labels :: "walk_env \<Rightarrow> (rstr \<times> ax_node) list \<Rightarrow> rstr set" where
  "labels w ns = {node_label (w_needs w) r e ps | r e ps. (r, e) \<in> set ns \<and> ps \<in> set (w_signals w)
     \<and> node_matches (w_low w) (w_needs w) r e ps}"

lemma set_push_new: "set (push_new found l) = insert l (set found)"
  by (auto simp: push_new_def)

lemma distinct_push_new: "distinct found \<Longrightarrow> distinct (push_new found l)"
  by (simp add: push_new_def)

lemma check_node_spec:
  "set (check_node low pss needs r e found)
     = set found \<union> {node_label needs r e ps | ps. ps \<in> set pss \<and> node_matches low needs r e ps}
   \<and> (distinct found \<longrightarrow> distinct (check_node low pss needs r e found))
   \<and> (\<exists>more. check_node low pss needs r e found = found @ more)"
proof (induction pss arbitrary: found)
  case Nil
  then show ?case by (simp add: check_node_def)
next
  case (Cons ps pss)
  let ?f = "if node_matches low needs r e ps then push_new found (node_label needs r e ps) else found"
  have step: "check_node low (ps # pss) needs r e found = check_node low pss needs r e ?f"
    by (simp add: check_node_def)
  have pre: "\<exists>m. ?f = found @ m" by (auto simp: push_new_def)
  from Cons.IH [of ?f] pre show ?case unfolding step
    by (auto simp: set_push_new distinct_push_new)
qed

text \<open>All elements checked, without stopping.\<close>

definition check_all :: "walk_env \<Rightarrow> (rstr \<times> ax_node) list \<Rightarrow> rstr list \<Rightarrow> rstr list" where
  "check_all w ns found = foldl (\<lambda>fd (r, e). check_in w r e fd) found ns"

lemma check_all_spec:
  "set (check_all w ns found) = set found \<union> labels w ns
   \<and> (distinct found \<longrightarrow> distinct (check_all w ns found)) \<and> length found \<le> length (check_all w ns found)"
proof (induction ns arbitrary: found)
  case Nil
  then show ?case by (simp add: check_all_def labels_def)
next
  case (Cons x ns)
  obtain r e where x: "x = (r, e)" by fastforce
  have step: "check_all w (x # ns) found = check_all w ns (check_in w r e found)"
    by (simp add: check_all_def x)
  have l: "labels w (x # ns) = {node_label (w_needs w) r e ps | ps. ps \<in> set (w_signals w)
      \<and> node_matches (w_low w) (w_needs w) r e ps} \<union> labels w ns"
    by (auto simp: labels_def x)
  note c = check_node_spec [of "w_low w" "w_signals w" "w_needs w" r e found]
  then have "length found \<le> length (check_in w r e found)" by (metis length_append le_add1)
  with Cons.IH [of "check_in w r e found"] c show ?case unfolding step l
    by (auto simp: Un_assoc intro: order_trans)
qed

lemma card_labels: "length (check_all w ns []) = card (labels w ns)"
  using check_all_spec [of w ns "[]"] by (metis Un_empty_left distinct.simps(1) distinct_card list.set(1))

text \<open>Stopping early does not change whether enough labels are found, and only labels of
  visible elements are ever found.\<close>

lemma check_until_all:
  "length (check_until w ns found) \<ge> w_min_required w \<longleftrightarrow> length (check_all w ns found) \<ge> w_min_required w"
proof (induction w ns found rule: check_until.induct)
  case (1 w found)
  then show ?case by (simp add: check_all_def)
next
  case (2 w r e ns found)
  show ?case
  proof (cases "length found \<ge> w_min_required w")
    case True
    moreover have "length found \<le> length (check_all w ((r, e) # ns) found)" using check_all_spec by blast
    ultimately show ?thesis by simp
  next
    case False
    with 2 show ?thesis by (simp add: check_all_def)
  qed
qed

lemma labels_Cons: "labels w (x # ns) = labels w [x] \<union> labels w ns"
  by (auto simp: labels_def)

lemma labels_append: "labels w (xs @ ys) = labels w xs \<union> labels w ys"
  by (auto simp: labels_def)

lemma check_in_labels: "set (check_in w r e found) = set found \<union> labels w [(r, e)]"
  using check_node_spec [of "w_low w" "w_signals w" "w_needs w" r e found] by (auto simp: labels_def)

lemma walk_node_cases:
  assumes e: "e = Ax role title desc ident dom_id children"
  shows "fst (walk_for_signals w depth e (found, n)) = found
    \<or> (\<exists>r. fst (walk_for_signals w depth e (found, n)) = check_in w r e found
           \<and> set [(r, e)] \<subseteq> set (visible (w_max_depth w) depth e))
    \<or> (\<exists>r cs. role = Some r \<and> children = Some cs \<and> \<not> w_max_depth w \<le> depth
           \<and> \<not> (w_late w n \<or> length found \<ge> w_min_required w)
           \<and> \<not> length (check_in w r e found) \<ge> w_min_required w \<and> r \<notin> set content_roles)"
proof (cases "w_max_depth w \<le> depth \<or> w_late w n \<or> length found \<ge> w_min_required w \<or> role = None")
  case True
  then have "fst (walk_for_signals w depth e (found, n)) = found" by (auto simp: e split: option.splits)
  then show ?thesis ..
next
  case False
  then obtain r where r: "role = Some r" by auto
  show ?thesis
  proof (cases "length (check_in w r e found) \<ge> w_min_required w \<or> r \<in> set content_roles \<or> children = None")
    case True
    with False r have "fst (walk_for_signals w depth e (found, n)) = check_in w r e found
        \<and> set [(r, e)] \<subseteq> set (visible (w_max_depth w) depth e)"
      by (auto simp: e Let_def split: option.splits)
    then show ?thesis by blast
  next
    case deep: False
    with False r show ?thesis by auto
  qed
qed

lemma walk_labels:
  "set (fst (walk_for_signals w d e st)) \<subseteq> set (fst st) \<union> labels w (visible (w_max_depth w) d e)"
  "set (fst (walk_children w d cs st)) \<subseteq> set (fst st) \<union> labels w (visible_children (w_max_depth w) d cs)"
proof (induction w d e st and w d cs st rule: walk_for_signals_walk_children.induct)
  case (1 w depth role title desc ident dom_id children found n)
  let ?e = "Ax role title desc ident dom_id children"
  consider (nothing) "fst (walk_for_signals w depth ?e (found, n)) = found"
    | (stops) r where "fst (walk_for_signals w depth ?e (found, n)) = check_in w r ?e found"
        "set [(r, ?e)] \<subseteq> set (visible (w_max_depth w) depth ?e)"
    | (deeper) r cs where "role = Some r" "children = Some cs" "\<not> w_max_depth w \<le> depth"
        "\<not> (w_late w n \<or> length found \<ge> w_min_required w)"
        "\<not> length (check_in w r ?e found) \<ge> w_min_required w" "r \<notin> set content_roles"
    using walk_node_cases [OF refl, of w depth role title desc ident dom_id children found n] by blast
  then show ?case
  proof cases
    case nothing
    then show ?thesis by (simp only: fst_conv) (rule Un_upper1)
  next
    case (stops r)
    have "labels w [(r, ?e)] \<subseteq> labels w (visible (w_max_depth w) depth ?e)"
      using stops(2) unfolding labels_def by blast
    then show ?thesis unfolding stops(1) check_in_labels fst_conv by (intro Un_mono subset_refl)
  next
    case (deeper r cs)
    let ?f = "check_in w r ?e found"
    have eq: "walk_for_signals w depth ?e (found, n) = walk_children w depth cs (?f, Suc n)"
      using deeper by (simp add: Let_def)
    have vis: "visible (w_max_depth w) depth ?e = (r, ?e) # visible_children (w_max_depth w) depth cs"
      using deeper by simp
    have "set (fst (walk_children w depth cs (?f, Suc n)))
        \<subseteq> set (fst (?f, Suc n)) \<union> labels w (visible_children (w_max_depth w) depth cs)"
      by (rule 1 [OF deeper(3,4,1) refl deeper(5,6,2)])
    then show ?thesis unfolding eq vis labels_Cons [of w "(r, ?e)" "visible_children (w_max_depth w) depth cs"] fst_conv check_in_labels
      by (simp only: Un_assoc)
  qed
next
  case (2 w depth st)
  then show ?case by (simp only: walk_children.simps) (rule Un_upper1)
next
  case (3 w depth c cs found n)
  show ?case
  proof (cases "w_late w n \<or> length found \<ge> w_min_required w")
    case True
    then show ?thesis by auto
  next
    case False
    with 3 show ?thesis by (simp add: labels_append) blast
  qed
qed

lemma scan_labels:
  "set (fst (scan_windows w cs st)) \<subseteq> set (fst st) \<union> labels w (visible_in_windows (w_max_depth w) cs)"
proof (induction w cs st rule: scan_windows.induct)
  case (1 w st)
  then show ?case by simp
next
  case (2 w c cs found n)
  obtain fd k where k: "walk_for_signals w 0 c (found, Suc n) = (fd, k)" by fastforce
  with walk_labels(1) [of w 0 c "(found, Suc n)"]
  have fd: "set fd \<subseteq> set found \<union> labels w (visible (w_max_depth w) 0 c)" by simp
  have vis: "labels w (visible_in_windows (w_max_depth w) (c # cs))
      = labels w (visible (w_max_depth w) 0 c) \<union> labels w (visible_in_windows (w_max_depth w) cs)"
    by (simp add: visible_in_windows_def labels_append)
  show ?case
  proof (cases "w_late w n \<or> w_min_required w \<le> length fd")
    case True
    then show ?thesis using k fd unfolding vis by auto
  next
    case False
    then have eq: "scan_windows w (c # cs) (found, n) = scan_windows w cs (fd, k)" using k by simp
    from 2 False k have "set (fst (scan_windows w cs (fd, k)))
        \<subseteq> set fd \<union> labels w (visible_in_windows (w_max_depth w) cs)" by auto
    with fd show ?thesis unfolding eq vis fst_conv by blast
  qed
qed

end
