(* ===== verification/MeetingScanProperties.thy ===== *)
theory MeetingScanProperties
  imports MeetingScan
begin

text \<open>
  The properties of the two scanners: what the tree walk decides, that no label is invented, and
  the inputs on which counting labels is not counting signals.
\<close>

section \<open>macOS\<close>

text \<open>The labels of the elements a scan can see, with all their attributes.\<close>

definition match_labels :: "(rstr \<Rightarrow> rstr) \<Rightarrow> detection_profile \<Rightarrow> (rstr \<times> ax_node) list \<Rightarrow> rstr set" where
  "match_labels low p ns =
     {node_label all_needs r e ps | r e ps. (r, e) \<in> set ns \<and> ps \<in> set (from_signals low (call_signals p))
        \<and> node_matches low all_needs r e ps}"

lemma walk_env_needs:
  "ps \<in> set (w_signals (walk_env_for sc low late p)) \<Longrightarrow> needs_cover (w_needs (walk_env_for sc low late p)) (ps_signal ps)"
  by (simp add: walk_env_for_def Let_def needs_of_def from_call_signals_def needs_loop_covers)

lemma labels_walk_env: "labels (walk_env_for sc low late p) ns = match_labels low p ns"
proof -
  let ?w = "walk_env_for sc low late p"
  have c: "node_matches low (w_needs ?w) r e ps = node_matches low all_needs r e ps"
    "node_label (w_needs ?w) r e ps = node_label all_needs r e ps"
    if "ps \<in> set (w_signals ?w)" for r e ps
    using covered_matches [OF walk_env_needs [OF that]] by blast+
  have sig: "w_signals ?w = from_signals low (call_signals p)" "w_low ?w = low"
    by (simp_all add: walk_env_for_def Let_def)
  show ?thesis unfolding labels_def match_labels_def sig(2) using c unfolding sig(1)
    by (intro Collect_cong) metis
qed

text \<open>With time to finish, the macOS scan reports a call exactly when the matching elements
  it can reach (not below the maximal depth, not inside document content, not below an element
  without a role) carry at least the required number of different labels; the order of the tree,
  the early exits and the attributes it does not fetch make no difference.\<close>

theorem scan_detects_iff_labels:
  "is_in_call (scan_process_macos sc low (\<lambda>_. False) nm (AxWindows ws) pid p)
   \<longleftrightarrow> min_signals_required p \<le> card (match_labels low p (visible_in_windows (max_depth sc) ws))"
proof -
  let ?w = "walk_env_for sc low (\<lambda>_. False) p"
  have w: "w_late ?w = (\<lambda>_. False)" "w_max_depth ?w = max_depth sc" "w_min_required ?w = min_signals_required p"
    by (simp_all add: walk_env_for_def Let_def)
  have "is_in_call (scan_process_macos sc low (\<lambda>_. False) nm (AxWindows ws) pid p)
      \<longleftrightarrow> w_min_required ?w \<le> length (check_until ?w (visible_in_windows (max_depth sc) ws) [])"
    unfolding scan_process_macos_def make_scan_result_def
    by (simp add: Let_def scan_is_check_until [OF w(1)] w)
  also have "\<dots> \<longleftrightarrow> min_signals_required p \<le> card (match_labels low p (visible_in_windows (max_depth sc) ws))"
    unfolding check_until_all card_labels labels_walk_env unfolding w(3) ..
  finally show ?thesis .
qed

text \<open>Whatever the clock does, every signal the macOS scan reports is the label of a reachable
  element that matches a signal of the profile, and nothing is reported when the accessibility
  interface fails or panics.\<close>

theorem scan_reports_only_matches:
  "set (matched_signals (scan_process_macos sc low late nm answer pid p))
   \<subseteq> (case answer of AxWindows ws \<Rightarrow> match_labels low p (visible_in_windows (max_depth sc) ws)
      | AxError \<Rightarrow> {} | AxPanic \<Rightarrow> {})"
proof -
  let ?w = "walk_env_for sc low late p"
  have w: "w_max_depth ?w = max_depth sc" by (simp add: walk_env_for_def Let_def)
  show ?thesis
  proof (cases answer)
    case (AxWindows ws)
    from scan_labels [of ?w ws "([], 0)"] show ?thesis
      by (simp add: scan_process_macos_def make_scan_result_def AxWindows w labels_walk_env Let_def)
  qed (simp_all add: scan_process_macos_def make_scan_result_def)
qed

section \<open>Labels are not signals\<close>

abbreviation ascii_low :: "rstr \<Rightarrow> rstr" where
  "ascii_low \<equiv> map to_ascii_lowercase"

definition leaf :: "string \<Rightarrow> string \<Rightarrow> ax_node" where
  "leaf role title = Ax (Some (lit role)) (Some (lit title)) None None None (Some [])"

definition window_of :: "ax_node list \<Rightarrow> ax_node" where
  "window_of cs = Ax (Some (lit ''AXWindow'')) (Some (lit ''app'')) None None None (Some cs)"

definition scan_demo :: "detection_profile \<Rightarrow> ax_node list \<Rightarrow> scan_result" where
  "scan_demo p cs =
     scan_process_macos new_scanner ascii_low (\<lambda>_. False) None (AxWindows [window_of cs]) 7 p"

text \<open>The threshold counts labels, which contain the title of the element, so one signal can
  count twice and one element for several signals: the browser profile of Discord, which asks for
  a voice bar and a disconnect button, reports a call for two voice bars with different titles;
  its native profile reports one for a single disconnect button without the mute item; and a
  window-title signal of Zoom is met by a link inside the window.\<close>

theorem labels_are_not_distinct_signals:
  "is_in_call (scan_demo discord_browser_profile
     [leaf ''AXGroup'' ''Voice Connected / General'', leaf ''AXGroup'' ''Voice Connected / Lobby''])
   \<and> is_in_call (scan_demo discord_macos_profile [leaf ''AXButton'' ''Disconnect''])
   \<and> is_in_call (scan_demo zoom_profile [leaf ''AXLink'' ''Join a Zoom Meeting''])"
  by code_simp

text \<open>On macOS a menu-item identifier with an upper-case letter is never found: the element's
  identifier is lowercased before the comparison and the signal's is not. The Windows comparison
  finds it.\<close>

theorem menu_item_id_case:
  assumes "\<And>x. low x \<noteq> i"
  shows "\<not> node_matches low needs role e \<lparr>ps_signal = MenuItemId i, ps_lower = signal_lower low (MenuItemId i)\<rparr>
    \<and> check_signal_match low lowc (MenuItemId i) (lit ''AXMenuItem'') None None (Some i)"
proof
  show "\<not> node_matches low needs role e \<lparr>ps_signal = MenuItemId i, ps_lower = signal_lower low (MenuItemId i)\<rparr>"
    using assms by (cases "fetched_ident needs e") (auto simp: node_matches_def is_some_and_def)
  show "check_signal_match low lowc (MenuItemId i) (lit ''AXMenuItem'') None None (Some i)"
    by (simp add: role_matches_def eq_ignore_ascii_case_def)
qed

lemma ascii_low_no_upper: "ascii_low x \<noteq> lit ''onMuteAudio:''"
proof
  assume "ascii_low x = lit ''onMuteAudio:''"
  then have "77 \<in> set (ascii_low x)" by (simp add: lit_def)
  then show False by (auto simp: to_ascii_lowercase_def is_ascii_uppercase_def split: if_splits)
qed

lemma menu_item_id_case_witness:
  "\<not> node_matches ascii_low all_needs (lit ''AXMenuItem'')
      (Ax (Some (lit ''AXMenuItem'')) None None (Some (lit ''onMuteAudio:'')) None None)
      \<lparr>ps_signal = MenuItemId (lit ''onMuteAudio:''), ps_lower = lit ''onMuteAudio:''\<rparr>"
  using menu_item_id_case [OF ascii_low_no_upper, THEN conjunct1] by simp

section \<open>Windows\<close>

definition uia_labels :: "(rstr \<Rightarrow> rstr) \<Rightarrow> (nat \<Rightarrow> nat list) \<Rightarrow> call_signal list \<Rightarrow> uia_candidate list \<Rightarrow> rstr set" where
  "uia_labels low lowc ss cs = {format_signal_match s role (c_name c) None | s role c. s \<in> set ss \<and> c \<in> set cs
     \<and> role = (case c_role c of Some r \<Rightarrow> r | None \<Rightarrow> []) \<and> check_signal_match low lowc s role (c_name c) None (c_auto_id c)}"

definition uia_title_labels :: "(rstr \<Rightarrow> rstr) \<Rightarrow> call_signal list \<Rightarrow> uia_window option list \<Rightarrow> rstr set" where
  "uia_title_labels low ss ws = {lit ''window_title='' @ t @ lit '' ('' @ name @ lit '')'' | t name x.
     WindowTitle t \<in> set ss \<and> Some x \<in> set ws \<and> u_name x = Some name \<and> contains_str (low name) (low t)}"

lemma set_push_new_subset: "set (push_new found l) \<subseteq> insert l (set found)"
  by (simp add: push_new_def subset_insertI)

lemma title_labels_sound:
  "set (title_labels low name ss found)
   \<subseteq> set found \<union> {lit ''window_title='' @ t @ lit '' ('' @ name @ lit '')'' | t. WindowTitle t \<in> set ss \<and> contains_str (low name) (low t)}"
  by (induction low name ss found rule: title_labels.induct) (auto simp: set_push_new split: if_splits)

lemma candidate_label_sound:
  "set (candidate_label low lowc ss c found) \<subseteq> set found \<union> uia_labels low lowc ss [c]"
proof (induction ss)
  case Nil
  then show ?case by simp
next
  case (Cons s ss)
  have "uia_labels low lowc ss [c] \<subseteq> uia_labels low lowc (s # ss) [c]" by (auto simp: uia_labels_def)
  with Cons show ?case by (auto simp: Let_def set_push_new uia_labels_def)
qed

text \<open>A candidate adds at most one label.\<close>

lemma candidate_label_one: "length (candidate_label low lowc ss c found) \<le> Suc (length found)"
  by (induction ss) (simp_all add: Let_def push_new_def)

definition resolved :: "uia_candidate option list \<Rightarrow> uia_candidate list" where
  "resolved cs = List.map_filter (\<lambda>c. c) cs"

lemma uia_labels_append: "uia_labels low lowc ss (xs @ ys) = uia_labels low lowc ss xs \<union> uia_labels low lowc ss ys"
  by (auto simp: uia_labels_def)

lemma candidates_loop_sound:
  "set (candidates_loop low lowc ss required cs found) \<subseteq> set found \<union> uia_labels low lowc ss (resolved cs)"
proof (induction low lowc ss required cs found rule: candidates_loop.induct)
  case (1 low lowc ss required found)
  then show ?case by simp
next
  case (2 low lowc ss required c cs found)
  have split: "resolved (c # cs) = resolved [c] @ resolved cs" by (simp add: resolved_def map_filter_def)
  have one: "set (case c of Some x \<Rightarrow> candidate_label low lowc ss x found | None \<Rightarrow> found)
      \<subseteq> set found \<union> uia_labels low lowc ss (resolved [c])"
    by (cases c) (simp_all add: resolved_def map_filter_def candidate_label_sound)
  show ?case
  proof (cases "required \<le> length found")
    case True
    then show ?thesis by simp
  next
    case False
    then show ?thesis using 2 one unfolding split uia_labels_append by simp blast
  qed
qed

definition uia_answers :: "uia_condition list \<Rightarrow> uia_window option list \<Rightarrow> uia_candidate list" where
  "uia_answers conds ws = concat (map (\<lambda>w. case w of None \<Rightarrow> []
     | Some x \<Rightarrow> (case u_find_all x conds of Some cs \<Rightarrow> resolved cs | None \<Rightarrow> [])) ws)"

lemma uia_title_labels_Cons:
  "uia_title_labels low ss (w # ws) = uia_title_labels low ss [w] \<union> uia_title_labels low ss ws"
  by (auto simp: uia_title_labels_def)

lemma uia_titles_in_window:
  "set (case u_name x of Some name \<Rightarrow> title_labels low name ss found | None \<Rightarrow> found)
   \<subseteq> set found \<union> uia_title_labels low ss [Some x]"
proof (cases "u_name x")
  case (Some name)
  have "{lit ''window_title='' @ t @ lit '' ('' @ name @ lit '')'' | t. WindowTitle t \<in> set ss \<and> contains_str (low name) (low t)}
      \<subseteq> uia_title_labels low ss [Some x]"
    using Some by (auto simp: uia_title_labels_def)
  with title_labels_sound [of low name ss found] Some show ?thesis by auto
qed simp

lemma uia_loop_sound:
  "set (uia_windows_loop low lowc late u ss required conds ws n found)
   \<subseteq> set found \<union> uia_title_labels low ss ws \<union> uia_labels low lowc ss (uia_answers conds ws)"
proof (induction ws arbitrary: n found)
  case Nil
  then show ?case by auto
next
  case (Cons w ws)
  let ?L = "uia_labels low lowc ss"
  have ans: "uia_answers conds (w # ws) = uia_answers conds [w] @ uia_answers conds ws"
    by (simp add: uia_answers_def)
  show ?case
  proof (cases "late n \<or> required \<le> length found")
    case True
    then show ?thesis by auto
  next
    case False
    show ?thesis
    proof (cases w)
      case None
      with False Cons.IH [of "Suc n" found] show ?thesis
        unfolding ans uia_labels_append uia_title_labels_Cons [of low ss w ws] by auto
    next
      case (Some x)
      define f1 where "f1 = (case u_name x of Some name \<Rightarrow> title_labels low name ss found | None \<Rightarrow> found)"
      define f2 where "f2 = (if conds \<noteq> [] \<and> combined_ok u conds
        then (case u_find_all x conds of Some cs \<Rightarrow> candidates_loop low lowc ss required cs f1 | None \<Rightarrow> f1) else f1)"
      have f1: "set f1 \<subseteq> set found \<union> uia_title_labels low ss [w]"
        unfolding Some f1_def by (rule uia_titles_in_window)
      have f2: "set f2 \<subseteq> set f1 \<union> ?L (uia_answers conds [w])"
        using candidates_loop_sound unfolding f2_def by (cases "u_find_all x conds") (auto simp: uia_answers_def Some)
      have eq: "uia_windows_loop low lowc late u ss required conds (w # ws) n found
        = (if u_name x \<noteq> None \<and> length f1 \<ge> required then f1
           else uia_windows_loop low lowc late u ss required conds ws (Suc n) f2)"
        unfolding Some uia_windows_loop.simps option.case Let_def f1_def [symmetric] f2_def [symmetric]
        using False by simp
      note ih = Cons.IH [of "Suc n" f2]
      show ?thesis
      proof (cases "u_name x \<noteq> None \<and> length f1 \<ge> required")
        case True
        then show ?thesis using f1 unfolding eq uia_title_labels_Cons [of low ss w ws] if_P [OF True] by blast
      next
        case more: False
        show ?thesis using f1 f2 ih
          unfolding eq if_not_P [OF more] ans uia_labels_append uia_title_labels_Cons [of low ss w ws] by blast
      qed
    qed
  qed
qed

text \<open>On Windows every reported signal is the title of one of the app's windows that contains
  a window-title signal, or an element returned by the search that matches a signal of the
  profile; a search that fails or panics reports nothing.\<close>

theorem windows_scan_reports_only_matches:
  "set (matched_signals (scan_process_windows low lowc late u panicked nm ws pid p))
   \<subseteq> (if u_starts u \<and> \<not> panicked
      then uia_title_labels low (call_signals p) ws
        \<union> uia_labels low lowc (call_signals p) (uia_answers (build_conditions u (call_signals p)) ws)
      else {})"
  using uia_loop_sound [of low lowc late u "call_signals p" "min_signals_required p" "build_conditions u (call_signals p)" ws 0 "[]"]
  by (simp add: scan_process_windows_def windows_scan_process_uia_def make_scan_result_def Let_def)

end
