(* ===== verification/MeetingDiscovery.thy ===== *)
theory MeetingDiscovery
  imports MeetingSignals
begin

text \<open>
  \<open>screenpipe-engine/src/meeting_detector.rs\<close>: which running processes are meeting apps. The
  processes, window titles and database rows the operating system and the database answer with
  are data; the matching rules, the order of the loops and their early exits are the code's.
\<close>

section \<open>Names and titles\<close>

definition BROWSER_NAMES :: "rstr list" where
  "BROWSER_NAMES = [lit ''google chrome'', lit ''arc'', lit ''firefox'', lit ''safari'',
     lit ''microsoft edge'', lit ''brave browser'', lit ''chromium'', lit ''opera'', lit ''vivaldi'',
     lit ''zen browser'', lit ''orion'', lit ''floorp'']"

definition browser_title_matches_pattern :: "(rstr \<Rightarrow> rstr) \<Rightarrow> rstr \<Rightarrow> rstr \<Rightarrow> bool" where
  "browser_title_matches_pattern low title_lower pat =
     (let p_lower = low pat in
      if p_lower = [] then False
      else if title_lower = p_lower then True
      else if length title_lower \<le> length p_lower \<or> \<not> starts_with title_lower p_lower then False
      else \<not> is_ascii_alphanumeric (title_lower ! length p_lower))"

definition is_browser_app :: "(rstr \<Rightarrow> rstr) \<Rightarrow> rstr \<Rightarrow> bool" where
  "is_browser_app low app_name =
     (let lower = low app_name in
      list_ex (\<lambda>b. contains_str lower b) BROWSER_NAMES
      \<or> (ends_with lower (lit ''.exe'')
         \<and> list_ex (\<lambda>b. contains_str lower b)
             [lit ''chrome.exe'', lit ''firefox.exe'', lit ''msedge.exe'', lit ''brave.exe'', lit ''opera.exe'']))"

record running_meeting_app =
  ra_pid :: int
  ra_name :: rstr
  ra_profile :: nat
  ra_url :: "rstr option"

definition meeting_app_is_ignored :: "(rstr \<Rightarrow> rstr) \<Rightarrow> rstr \<Rightarrow> detection_profile \<Rightarrow> rstr list \<Rightarrow> bool" where
  "meeting_app_is_ignored low app_name p ignored =
     (if ignored = [] then False
      else
        let app_name_lc = low app_name; ids = app_identifiers p in
        list_ex (\<lambda>raw.
          let t = low (trim raw) in
          if t = [] then False
          else contains_str app_name_lc t
            \<or> list_ex (\<lambda>n. contains_str n t) (macos_app_names ids)
            \<or> list_ex (\<lambda>n. contains_str (low n) t) (windows_process_names ids)
            \<or> list_ex (\<lambda>n. contains_str (low n) t) (browser_url_patterns ids)
            \<or> list_ex (\<lambda>n. contains_str (low n) t) (browser_title_patterns ids)) ignored)"

record active_tracking =
  at_pid :: int
  at_profile :: nat

section \<open>macOS\<close>

text \<open>A window's page URL and title, and an app with its windows (or the error of asking).\<close>

record mac_window =
  mw_document :: "rstr option"
  mw_title :: "rstr option"

record mac_app =
  ma_pid :: int
  ma_name :: "rstr option"
  ma_windows :: "mac_window list option"

definition window_has_url :: "(rstr \<Rightarrow> rstr) \<Rightarrow> rstr list \<Rightarrow> mac_window \<Rightarrow> bool" where
  "window_has_url low pats w \<longleftrightarrow>
     is_some_and (mw_document w) (\<lambda>d. list_ex (\<lambda>p. contains_str (low d) (low p)) pats)
     \<or> is_some_and (mw_title w)
         (\<lambda>t. list_ex (\<lambda>p. contains_str (low t) (low p)) (filter (\<lambda>p. contains_str p (lit ''.'')) pats))"

definition has_browser_meeting_url :: "(rstr \<Rightarrow> rstr) \<Rightarrow> mac_window list option \<Rightarrow> rstr list \<Rightarrow> bool" where
  "has_browser_meeting_url low ws pats =
     (case ws of None \<Rightarrow> False | Some xs \<Rightarrow> list_ex (window_has_url low pats) xs)"

fun match_profile_macos ::
  "(rstr \<Rightarrow> rstr) \<Rightarrow> mac_app \<Rightarrow> rstr \<Rightarrow> nat \<Rightarrow> detection_profile list \<Rightarrow> running_meeting_app list" where
  "match_profile_macos low a name idx [] = []"
| "match_profile_macos low a name idx (p # ps) =
     (let name_lower = low name; ids = app_identifiers p;
          hit = [\<lparr>ra_pid = ma_pid a, ra_name = name, ra_profile = idx, ra_url = None\<rparr>] in
      if list_ex (\<lambda>n. name_lower = n) (macos_app_names ids) then hit
      else if browser_url_patterns ids \<noteq> [] \<and> list_ex (\<lambda>b. contains_str name_lower b) BROWSER_NAMES
              \<and> has_browser_meeting_url low (ma_windows a) (browser_url_patterns ids) then hit
      else match_profile_macos low a name (Suc idx) ps)"

definition find_one_macos ::
  "(rstr \<Rightarrow> rstr) \<Rightarrow> detection_profile list \<Rightarrow> active_tracking option \<Rightarrow> mac_app \<Rightarrow> running_meeting_app list" where
  "find_one_macos low ps tracking a =
     (case ma_name a of
        None \<Rightarrow> []
      | Some name \<Rightarrow>
          if is_some_and tracking (\<lambda>t. ma_pid a = at_pid t)
          then [\<lparr>ra_pid = ma_pid a, ra_name = name, ra_profile = at_profile (the tracking), ra_url = None\<rparr>]
          else match_profile_macos low a name 0 ps)"

definition find_running_meeting_apps_macos ::
  "(rstr \<Rightarrow> rstr) \<Rightarrow> detection_profile list \<Rightarrow> active_tracking option \<Rightarrow> mac_app list \<Rightarrow> running_meeting_app list" where
  "find_running_meeting_apps_macos low ps tracking apps = concat (map (find_one_macos low ps tracking) apps)"

section \<open>Windows\<close>

record windows_process =
  wp_pid :: nat
  wp_parent :: nat
  wp_name :: rstr

text \<open>\<open>pid as i32\<close> and \<open>pid as u32\<close>.\<close>

definition i32_of :: "nat \<Rightarrow> int" where
  "i32_of p = (if p < 2 ^ 31 then int p else int p - 2 ^ 32)"

definition u32_of :: "int \<Rightarrow> nat" where
  "u32_of i = nat (i mod 2 ^ 32)"

definition UI_CHILD_PROCESS_NAMES :: "rstr list" where
  "UI_CHILD_PROCESS_NAMES = [lit ''msedgewebview2.exe'', lit ''webview2.exe'']"

definition browser_process_names :: "rstr list" where
  "browser_process_names = [lit ''chrome.exe'', lit ''msedge.exe'', lit ''firefox.exe'', lit ''brave.exe'',
     lit ''arc.exe'', lit ''opera.exe'', lit ''vivaldi.exe'']"

text \<open>The results so far and the process ids already taken.\<close>

type_synonym discovered = "running_meeting_app list \<times> int set"

definition discover :: "running_meeting_app \<Rightarrow> discovered \<Rightarrow> discovered" where
  "discover a st = (fst st @ [a], insert (ra_pid a) (snd st))"

definition find_process :: "nat \<Rightarrow> windows_process list \<Rightarrow> windows_process option" where
  "find_process p procs = List.find (\<lambda>q. wp_pid q = p) procs"

definition tracked_process :: "windows_process list \<Rightarrow> active_tracking option \<Rightarrow> discovered" where
  "tracked_process procs tracking =
     (case tracking of
        None \<Rightarrow> ([], {})
      | Some t \<Rightarrow>
          (case find_process (u32_of (at_pid t)) procs of
             Some q \<Rightarrow> discover \<lparr>ra_pid = at_pid t, ra_name = wp_name q, ra_profile = at_profile t, ra_url = None\<rparr> ([], {})
           | None \<Rightarrow> ([], {})))"

definition add_child :: "nat \<Rightarrow> windows_process \<Rightarrow> discovered \<Rightarrow> windows_process \<Rightarrow> discovered" where
  "add_child idx q st child =
     (if wp_parent child = wp_pid q \<and> i32_of (wp_pid child) \<notin> snd st
         \<and> list_ex (\<lambda>n. eq_ignore_ascii_case (wp_name child) n) UI_CHILD_PROCESS_NAMES
      then discover \<lparr>ra_pid = i32_of (wp_pid child), ra_name = wp_name q @ lit '' ('' @ wp_name child @ lit '')'',
             ra_profile = idx, ra_url = None\<rparr> st
      else st)"

definition add_native ::
  "(rstr \<Rightarrow> rstr) \<Rightarrow> windows_process list \<Rightarrow> nat \<Rightarrow> detection_profile \<Rightarrow> discovered \<Rightarrow> windows_process \<Rightarrow> discovered" where
  "add_native low procs idx p st q =
     (if list_ex (\<lambda>n. low (wp_name q) = low n) (windows_process_names (app_identifiers p))
         \<and> i32_of (wp_pid q) \<notin> snd st
      then foldl (add_child idx q)
             (discover \<lparr>ra_pid = i32_of (wp_pid q), ra_name = wp_name q, ra_profile = idx, ra_url = None\<rparr> st) procs
      else st)"

fun add_natives ::
  "(rstr \<Rightarrow> rstr) \<Rightarrow> windows_process list \<Rightarrow> nat \<Rightarrow> detection_profile list \<Rightarrow> discovered \<Rightarrow> discovered" where
  "add_natives low procs idx [] st = st"
| "add_natives low procs idx (p # ps) st =
     add_natives low procs (Suc idx) ps (foldl (add_native low procs idx p) st procs)"

text \<open>The windows of browsers: a profile stops at its first matching window.\<close>

fun add_window ::
  "(rstr \<Rightarrow> rstr) \<Rightarrow> windows_process list \<Rightarrow> nat \<Rightarrow> app_identifiers_t \<Rightarrow> (int \<times> rstr) list \<Rightarrow> discovered \<Rightarrow> discovered" where
  "add_window low procs idx ids [] st = st"
| "add_window low procs idx ids ((pid, title) # ws) st =
     (if pid \<in> snd st then add_window low procs idx ids ws st
      else
        let proc_name = map_option (\<lambda>q. low (wp_name q)) (find_process (u32_of pid) procs) in
        if \<not> is_some_and proc_name (\<lambda>n. list_ex (\<lambda>b. n = b) browser_process_names)
        then add_window low procs idx ids ws st
        else
          let title_lower = low title;
              url_match = list_ex (\<lambda>p. contains_str title_lower (low p)) (browser_url_patterns ids);
              title_match = list_ex (browser_title_matches_pattern low title_lower) (browser_title_patterns ids) in
          if url_match \<or> title_match
          then discover \<lparr>ra_pid = pid, ra_name = the proc_name, ra_profile = idx, ra_url = Some title\<rparr> st
          else add_window low procs idx ids ws st)"

fun add_windows ::
  "(rstr \<Rightarrow> rstr) \<Rightarrow> windows_process list \<Rightarrow> (int \<times> rstr) list \<Rightarrow> nat \<Rightarrow> detection_profile list \<Rightarrow> discovered \<Rightarrow> discovered" where
  "add_windows low procs ws idx [] st = st"
| "add_windows low procs ws idx (p # ps) st =
     (let ids = app_identifiers p in
      add_windows low procs ws (Suc idx) ps
        (if browser_url_patterns ids = [] \<and> browser_title_patterns ids = [] then st
         else add_window low procs idx ids ws st))"

definition find_running_meeting_apps_windows ::
  "(rstr \<Rightarrow> rstr) \<Rightarrow> detection_profile list \<Rightarrow> active_tracking option \<Rightarrow> windows_process list \<Rightarrow> (int \<times> rstr) list
   \<Rightarrow> running_meeting_app list" where
  "find_running_meeting_apps_windows low ps tracking procs ws =
     fst (add_windows low procs ws 0 ps (add_natives low procs 0 ps (tracked_process procs tracking)))"

definition find_running_meeting_apps_other :: "running_meeting_app list" where
  "find_running_meeting_apps_other = []"

section \<open>Hints from the database, and the user's ignore list\<close>

text \<open>A row: app name, window name, browser URL.\<close>

type_synonym title_row = "rstr \<times> rstr \<times> rstr option"

definition row_matches :: "(rstr \<Rightarrow> rstr) \<Rightarrow> title_row \<Rightarrow> detection_profile \<Rightarrow> bool" where
  "row_matches low row p =
     (let (app_name, window_name, url) = row;
          window_lower = low window_name;
          url_lower = low (case url of Some u \<Rightarrow> u | None \<Rightarrow> []);
          ids = app_identifiers p
      in list_ex (\<lambda>q. contains_str window_lower (low q) \<or> contains_str url_lower (low q)) (browser_url_patterns ids)
         \<or> list_ex (browser_title_matches_pattern low window_lower) (browser_title_patterns ids))"

definition lookup_pid :: "platform \<Rightarrow> (rstr \<Rightarrow> rstr) \<Rightarrow> mac_app list \<Rightarrow> rstr \<Rightarrow> int" where
  "lookup_pid os low apps app_name =
     (case os of
        MacOS \<Rightarrow>
          (case List.find (\<lambda>a. is_some_and (ma_name a) (\<lambda>n. low n = low app_name)) apps of
             Some a \<Rightarrow> ma_pid a
           | None \<Rightarrow> -1)
      | _ \<Rightarrow> -1)"

definition row_hint ::
  "platform \<Rightarrow> (rstr \<Rightarrow> rstr) \<Rightarrow> mac_app list \<Rightarrow> detection_profile list \<Rightarrow> title_row \<Rightarrow> running_meeting_app list" where
  "row_hint os low apps ps row =
     (case position (row_matches low row) ps of
        None \<Rightarrow> []
      | Some idx \<Rightarrow>
          let pid = lookup_pid os low apps (fst row) in
          if pid > 0
          then [\<lparr>ra_pid = pid, ra_name = fst row, ra_profile = idx, ra_url = Some (fst (snd row))\<rparr>]
          else [])"

definition db_find_browser_meetings ::
  "platform \<Rightarrow> (rstr \<Rightarrow> rstr) \<Rightarrow> mac_app list \<Rightarrow> detection_profile list \<Rightarrow> title_row list \<Rightarrow> running_meeting_app list" where
  "db_find_browser_meetings os low apps ps rows = concat (map (row_hint os low apps ps) rows)"

text \<open>The loop adds a hint when no app of its profile is known yet.\<close>

definition merge_hints :: "running_meeting_app list \<Rightarrow> running_meeting_app list \<Rightarrow> running_meeting_app list" where
  "merge_hints = foldl (\<lambda>apps hint.
     if list_ex (\<lambda>a. ra_profile a = ra_profile hint) apps then apps else apps @ [hint])"

definition drop_ignored ::
  "(rstr \<Rightarrow> rstr) \<Rightarrow> detection_profile list \<Rightarrow> rstr list \<Rightarrow> running_meeting_app list \<Rightarrow> running_meeting_app list" where
  "drop_ignored low ps ignored apps =
     (if ignored = [] then apps
      else filter (\<lambda>a. if ra_profile a < length ps
             then \<not> meeting_app_is_ignored low (ra_name a) (ps ! ra_profile a) ignored else True) apps)"

section \<open>What the title rule accepts\<close>

lemma browser_title_matches_iff:
  "browser_title_matches_pattern low t p \<longleftrightarrow>
     low p \<noteq> [] \<and> (t = low p \<or> (\<exists>c rest. t = low p @ c # rest \<and> \<not> is_ascii_alphanumeric c))"
proof (cases "low p = [] \<or> t = low p")
  case True
  then show ?thesis by (auto simp: browser_title_matches_pattern_def)
next
  case False
  show ?thesis
  proof (cases "\<exists>c rest. t = low p @ c # rest")
    case True
    with False show ?thesis
      by (auto simp: browser_title_matches_pattern_def starts_with_append nth_append Let_def)
  next
    case no: False
    have "length t \<le> length (low p) \<or> \<not> starts_with t (low p)"
    proof (rule ccontr)
      assume "\<not> ?thesis"
      then obtain s where s: "t = low p @ s" "s \<noteq> []" by (auto simp: starts_with_append)
      then obtain c rest where "s = c # rest" by (cases s) auto
      with s no show False by blast
    qed
    with False no show ?thesis by (auto simp: browser_title_matches_pattern_def)
  qed
qed

section \<open>No process is taken twice\<close>

definition discovered_ok :: "discovered \<Rightarrow> bool" where
  "discovered_ok st \<longleftrightarrow> snd st = ra_pid ` set (fst st) \<and> distinct (map ra_pid (fst st))"

lemma discover_ok: "discovered_ok st \<Longrightarrow> ra_pid a \<notin> snd st \<Longrightarrow> discovered_ok (discover a st)"
  by (auto simp: discovered_ok_def discover_def)

lemma tracked_ok: "discovered_ok (tracked_process procs tracking)"
  by (auto simp: tracked_process_def discovered_ok_def discover_def split: option.splits)

lemma add_child_ok: "discovered_ok st \<Longrightarrow> discovered_ok (add_child idx q st c)"
  by (simp add: add_child_def discover_ok)

lemma foldl_keeps: "P st \<Longrightarrow> (\<And>st x. P st \<Longrightarrow> P (f st x)) \<Longrightarrow> P (foldl f st xs)"
  by (induction xs arbitrary: st) auto

lemma add_native_ok: "discovered_ok st \<Longrightarrow> discovered_ok (add_native low procs idx p st q)"
  by (auto simp: add_native_def intro!: foldl_keeps [of discovered_ok] discover_ok add_child_ok)

lemma add_natives_ok: "discovered_ok st \<Longrightarrow> discovered_ok (add_natives low procs idx ps st)"
  by (induction low procs idx ps st rule: add_natives.induct)
    (auto intro!: foldl_keeps [of discovered_ok] add_native_ok)

lemma add_window_ok: "discovered_ok st \<Longrightarrow> discovered_ok (add_window low procs idx ids ws st)"
  by (induction low procs idx ids ws st rule: add_window.induct) (simp_all add: Let_def discover_ok)

lemma add_windows_ok: "discovered_ok st \<Longrightarrow> discovered_ok (add_windows low procs ws idx ps st)"
  by (induction low procs ws idx ps st rule: add_windows.induct) (simp_all add: Let_def add_window_ok)

end
