(* ===== verification/MeetingMachine.thy ===== *)
theory MeetingMachine
  imports MeetingDiscovery
begin

text \<open>
  \<open>screenpipe-engine/src/meeting_detector.rs\<close>: the state machine of meeting detection. The code
  reads the monotonic clock (\<open>Instant::now\<close>, \<open>elapsed\<close>) and the wall clock (\<open>Utc::now\<close>) inside
  a transition; here a transition is given both as \<open>now\<close> (milliseconds) and \<open>utc\<close>. Logging is
  left out.
\<close>

section \<open>States and actions\<close>

datatype meeting_state =
  Idle
| Confirming (conf_since: nat) (conf_app: rstr) (conf_profile: nat)
| Active (act_id: int) (act_app: rstr) (act_started: int) (act_seen: nat) (act_browser: bool)
| Ending (end_id: int) (end_app: rstr) (end_started: int) (end_since: nat) (end_browser: bool) (end_count: nat)

datatype state_action = StartMeeting rstr | EndMeeting int

fun state_name :: "meeting_state \<Rightarrow> rstr" where
  "state_name Idle = lit ''Idle''"
| "state_name (Confirming _ _ _) = lit ''Confirming''"
| "state_name (Active _ _ _ _ _) = lit ''Active''"
| "state_name (Ending _ _ _ _ _ _) = lit ''Ending''"

definition CONFIRM_TIMEOUT :: nat where "CONFIRM_TIMEOUT = 15000"
definition ENDING_TIMEOUT :: nat where "ENDING_TIMEOUT = 30000"
definition ENDING_TIMEOUT_BROWSER :: nat where "ENDING_TIMEOUT_BROWSER = 300000"
definition REENTRY_HYSTERESIS_SCANS :: nat where "REENTRY_HYSTERESIS_SCANS = 2"

text \<open>\<open>Instant::elapsed\<close> saturates at zero.\<close>

definition elapsed_ms :: "nat \<Rightarrow> nat \<Rightarrow> nat" where
  "elapsed_ms now since = now - since"

definition ending_timeout :: "bool \<Rightarrow> nat" where
  "ending_timeout browser = (if browser then ENDING_TIMEOUT_BROWSER else ENDING_TIMEOUT)"

definition best_active :: "scan_result list \<Rightarrow> scan_result option" where
  "best_active rs = max_by_key signals_found (filter is_in_call rs)"

section \<open>A scan with running apps\<close>

fun advance_state ::
  "(rstr \<Rightarrow> rstr) \<Rightarrow> nat \<Rightarrow> int \<Rightarrow> meeting_state \<Rightarrow> scan_result list \<Rightarrow> bool \<Rightarrow> meeting_state \<times> state_action option" where
  "advance_state low now utc Idle rs audio =
     (case best_active rs of
        Some r \<Rightarrow> (Confirming now (sr_app_name r) (sr_profile_index r), None)
      | None \<Rightarrow> (Idle, None))"
| "advance_state low now utc (Confirming since app idx) rs audio =
     (case best_active rs of
        Some r \<Rightarrow> (Active (-1) (sr_app_name r) utc now (is_browser_app low (sr_app_name r)),
                   Some (StartMeeting (sr_app_name r)))
      | None \<Rightarrow> if elapsed_ms now since \<ge> CONFIRM_TIMEOUT then (Idle, None) else (Confirming since app idx, None))"
| "advance_state low now utc (Active mid app started seen browser) rs audio =
     (case best_active rs of
        Some r \<Rightarrow> (Active mid (sr_app_name r) started now browser, None)
      | None \<Rightarrow> (Ending mid app started now browser 0, None))"
| "advance_state low now utc (Ending mid app started since browser seen) rs audio =
     (case best_active rs of
        Some r \<Rightarrow>
          let next_count = saturating_add_u8 seen 1 in
          if next_count \<ge> REENTRY_HYSTERESIS_SCANS
          then (Active mid (sr_app_name r) started now browser, None)
          else (Ending mid app started since browser next_count, None)
      | None \<Rightarrow>
          if audio then (Active mid app started now browser, None)
          else if elapsed_ms now since \<ge> ending_timeout browser then (Idle, Some (EndMeeting mid))
          else (Ending mid app started since browser 0, None))"

section \<open>No meeting app is running\<close>

fun handle_no_apps_running :: "nat \<Rightarrow> meeting_state \<Rightarrow> bool \<Rightarrow> meeting_state \<times> int option" where
  "handle_no_apps_running now (Active mid app started seen browser) audio =
     (if audio then (Active mid app started now browser, None)
      else (Ending mid app started now False 0, None))"
| "handle_no_apps_running now (Confirming since app idx) audio = (Idle, None)"
| "handle_no_apps_running now (Ending mid app started since browser seen) audio =
     (if audio then (Active mid app started now browser, None)
      else if elapsed_ms now since \<ge> ending_timeout browser
      then (Idle, if mid \<ge> 0 then Some mid else None)
      else (Ending mid app started since browser seen, None))"
| "handle_no_apps_running now Idle audio = (Idle, None)"

section \<open>Scan intervals\<close>

definition ACTIVE_SCAN_INTERVAL :: nat where "ACTIVE_SCAN_INTERVAL = 5000"
definition IDLE_APPS_SCAN_INTERVAL :: nat where "IDLE_APPS_SCAN_INTERVAL = 10000"
definition IDLE_NO_APPS_SCAN_INTERVAL :: nat where "IDLE_NO_APPS_SCAN_INTERVAL = 30000"
definition IDLE_QUIET_SCAN_INTERVAL :: nat where "IDLE_QUIET_SCAN_INTERVAL = 30000"

definition apps_present_scan_interval :: "bool \<Rightarrow> bool \<Rightarrow> nat \<Rightarrow> nat" where
  "apps_present_scan_interval is_idle audio_recent base =
     (if is_idle then if audio_recent then IDLE_APPS_SCAN_INTERVAL else IDLE_QUIET_SCAN_INTERVAL else base)"

section \<open>Calendar events\<close>

text \<open>The start and the end are \<open>parse_from_rfc3339\<close> of the texts, none when they do not parse.\<close>

record calendar_event =
  cal_title :: rstr
  cal_start :: "int option"
  cal_end :: "int option"
  cal_attendees :: "rstr list"
  cal_all_day :: bool

definition event_covers :: "calendar_event \<Rightarrow> int \<Rightarrow> bool" where
  "event_covers e utc =
     (case (cal_start e, cal_end e) of (Some s, Some t) \<Rightarrow> s \<le> utc \<and> t \<ge> utc | _ \<Rightarrow> False)"

fun find_overlapping_calendar_event :: "calendar_event list \<Rightarrow> int \<Rightarrow> rstr option \<times> rstr list option" where
  "find_overlapping_calendar_event [] utc = (None, None)"
| "find_overlapping_calendar_event (e # es) utc =
     (if event_covers e utc
      then (Some (cal_title e), if cal_attendees e = [] then None else Some (cal_attendees e))
      else find_overlapping_calendar_event es utc)"

definition has_active_calendar_event :: "calendar_event list \<Rightarrow> int \<Rightarrow> bool" where
  "has_active_calendar_event es utc \<longleftrightarrow> list_ex (\<lambda>e. if cal_all_day e then False else event_covers e utc) es"

section \<open>Facts about single transitions\<close>

definition is_active :: "meeting_state \<Rightarrow> bool" where
  "is_active s = (case s of Active _ _ _ _ _ \<Rightarrow> True | _ \<Rightarrow> False)"

definition is_ending :: "meeting_state \<Rightarrow> bool" where
  "is_ending s = (case s of Ending _ _ _ _ _ _ \<Rightarrow> True | _ \<Rightarrow> False)"

text \<open>The meeting a state is about.\<close>

definition tracked_id :: "meeting_state \<Rightarrow> int option" where
  "tracked_id s = (case s of Active mid _ _ _ _ \<Rightarrow> Some mid | Ending mid _ _ _ _ _ \<Rightarrow> Some mid | _ \<Rightarrow> None)"

lemma state_kind_simps [simp]:
  "\<not> is_active Idle" "\<not> is_active (Confirming a b c)" "is_active (Active d e f g h)" "\<not> is_active (Ending i j k l m n)"
  "\<not> is_ending Idle" "\<not> is_ending (Confirming a b c)" "\<not> is_ending (Active d e f g h)" "is_ending (Ending i j k l m n)"
  "tracked_id Idle = None" "tracked_id (Confirming a b c) = None" "tracked_id (Active d e f g h) = Some d"
  "tracked_id (Ending i j k l m n) = Some i"
  by (simp_all add: is_active_def is_ending_def tracked_id_def)

lemma tracked_id_None: "tracked_id s = None \<longleftrightarrow> s = Idle \<or> (\<exists>a b c. s = Confirming a b c)"
  by (cases s) auto

lemma best_active_None: "best_active rs = None \<longleftrightarrow> \<not> list_ex is_in_call rs"
  by (auto simp: best_active_def filter_empty_conv list_ex_iff)

lemma best_active_SomeD: "best_active rs = Some r \<Longrightarrow> r \<in> set rs \<and> is_in_call r
    \<and> (\<forall>q \<in> set rs. is_in_call q \<longrightarrow> signals_found q \<le> signals_found r)"
  unfolding best_active_def by (drule max_by_key_SomeD) auto

lemma end_count_bounded:
  assumes "advance_state low now utc s rs audio = (Ending i a st si b n, act)"
  shows "n < REENTRY_HYSTERESIS_SCANS"
  using assms by (cases s) (auto simp: REENTRY_HYSTERESIS_SCANS_def Let_def split: option.splits if_splits)

end
