(* ===== verification/MeetingLoop.thy ===== *)
theory MeetingLoop
  imports MeetingMachine
begin

text \<open>
  \<open>run_meeting_detection_loop\<close> of \<open>screenpipe-engine/src/meeting_detector.rs\<close>: one turn of the
  loop as a function of the loop's variables and of what the turn reads (the clocks, the events
  waiting in the subscriptions, the running apps, the scans, the answers of the database), giving
  the next variables and the effects in their order. A \<open>continue\<close> of the code is an early result.
  Logging and telemetry are left out.
\<close>

section \<open>Variables, inputs, effects\<close>

record loop_vars =
  lv_state :: meeting_state
  lv_interval :: nat
  lv_flag :: bool
  lv_manual :: "int option"
  lv_calendar :: "calendar_event list"
  lv_last_stop :: "int option"
  lv_idle_scans :: nat

record stop_signal =
  stop_id :: int
  stop_app :: rstr

record recent_meeting =
  recent_id :: int
  recent_title :: "rstr option"

datatype end_reason = GraceTimeout | AutoEnd | Shutdown

text \<open>A database answer is the value, or none when the query fails. \<open>in_manual\<close> is the shared
  manual meeting as the API left it before this turn.\<close>

record turn_input =
  in_now :: nat
  in_utc :: int
  in_manual :: "int option"
  in_calendar :: "calendar_event list list"
  in_stop :: "stop_signal option"
  in_auto_end :: "int option"
  in_locked :: bool
  in_hints :: "running_meeting_app list option"
  in_apps :: "running_meeting_app list"
  in_scan :: "int \<Rightarrow> detection_profile \<Rightarrow> scan_result"
  in_output_audio :: "bool option"
  in_audio_recent :: "bool option"
  in_end_ok :: "int \<Rightarrow> bool"
  in_recent :: "rstr \<Rightarrow> recent_meeting option option"
  in_reopen_ok :: "int \<Rightarrow> bool"
  in_insert :: "rstr \<Rightarrow> int option"
  in_status_ok :: bool

datatype effect =
  DbCloseOrphans
| DbEnd int end_reason
| DbReopen int
| DbEnrich int "rstr option" "rstr option"
| DbInsert rstr "rstr option" "rstr option"
| EmitStarted int
| EmitEnded int
| EmitStatus

record loop_config =
  cf_low :: "rstr \<Rightarrow> rstr"
  cf_profiles :: "detection_profile list"
  cf_base_interval :: nat
  cf_ignored :: "rstr list"

definition has_browser_profiles :: "loop_config \<Rightarrow> bool" where
  "has_browser_profiles cf \<longleftrightarrow> list_ex (\<lambda>p. browser_url_patterns (app_identifiers p) \<noteq> []
     \<or> browser_title_patterns (app_identifiers p) \<noteq> []) (cf_profiles cf)"

definition status_effect :: "turn_input \<Rightarrow> effect list" where
  "status_effect i = (if in_status_ok i then [EmitStatus] else [])"

section \<open>Subscriptions\<close>

definition drain_calendar :: "turn_input \<Rightarrow> loop_vars \<Rightarrow> loop_vars" where
  "drain_calendar i v =
     foldl (\<lambda>v batch. v\<lparr>lv_calendar := filter (\<lambda>e. \<not> cal_all_day e) batch\<rparr>) v (in_calendar i)"

definition state_app :: "meeting_state \<Rightarrow> rstr option" where
  "state_app s = (case s of Active _ a _ _ _ \<Rightarrow> Some a | Ending _ a _ _ _ _ \<Rightarrow> Some a | _ \<Rightarrow> None)"

definition handle_stop :: "turn_input \<Rightarrow> loop_vars \<Rightarrow> loop_vars" where
  "handle_stop i v =
     (case in_stop i of
        None \<Rightarrow> v
      | Some s \<Rightarrow>
          if tracked_id (lv_state v) = Some (stop_id s) \<and> state_app (lv_state v) = Some (stop_app s)
          then v\<lparr>lv_state := Idle, lv_interval := IDLE_APPS_SCAN_INTERVAL, lv_flag := False,
                 lv_last_stop := Some (stop_id s)\<rparr>
          else v)"

definition handle_auto_end :: "turn_input \<Rightarrow> loop_vars \<Rightarrow> loop_vars \<times> effect list" where
  "handle_auto_end i v =
     (case in_auto_end i of
        None \<Rightarrow> (v, [])
      | Some rid \<Rightarrow>
          let manual_matches = (lv_manual v = Some rid);
              detector_matches = (tracked_id (lv_state v) = Some rid) in
          if \<not> (manual_matches \<or> detector_matches) then (v, [])
          else if \<not> in_end_ok i rid then (v, [DbEnd rid AutoEnd])
          else
            let v1 = (if manual_matches then v\<lparr>lv_manual := None\<rparr> else v);
                v2 = (if detector_matches then v1\<lparr>lv_state := Idle, lv_interval := IDLE_APPS_SCAN_INTERVAL\<rparr> else v1)
            in (v2\<lparr>lv_flag := False\<rparr>, [DbEnd rid AutoEnd] @ status_effect i @ [EmitEnded rid]))"

section \<open>The two kinds of scan\<close>

definition answer_or_false :: "bool option \<Rightarrow> bool" where
  "answer_or_false b = (case b of Some x \<Rightarrow> x | None \<Rightarrow> False)"

text \<open>Ending a meeting after its grace period.\<close>

definition end_naturally :: "turn_input \<Rightarrow> int \<Rightarrow> effect list" where
  "end_naturally i mid =
     (if in_end_ok i mid then [DbEnd mid GraceTimeout, EmitEnded mid] @ status_effect i else [DbEnd mid GraceTimeout])"

definition no_apps_turn :: "loop_config \<Rightarrow> turn_input \<Rightarrow> loop_vars \<Rightarrow> loop_vars \<times> effect list" where
  "no_apps_turn cf i v =
     (let keep_alive = (if is_active (lv_state v) \<or> is_ending (lv_state v)
            then answer_or_false (in_output_audio i) \<or> has_active_calendar_event (lv_calendar v) (in_utc i)
            else False);
          (s', ended) = handle_no_apps_running (in_now i) (lv_state v) keep_alive;
          effects = (case ended of Some mid \<Rightarrow> end_naturally i mid | None \<Rightarrow> []);
          v1 = v\<lparr>lv_state := s', lv_flag := is_active s'\<rparr>
      in (if s' = Idle
          then v1\<lparr>lv_interval := IDLE_NO_APPS_SCAN_INTERVAL, lv_idle_scans := lv_idle_scans v + 1\<rparr>
          else v1\<lparr>lv_interval := cf_base_interval cf\<rparr>, effects))"

definition scan_apps :: "loop_config \<Rightarrow> turn_input \<Rightarrow> running_meeting_app list \<Rightarrow> scan_result list" where
  "scan_apps cf i apps =
     (if list_all (\<lambda>a. ra_profile a < length (cf_profiles cf)) apps
      then map (\<lambda>a. (in_scan i (ra_pid a) (cf_profiles cf ! ra_profile a))
                 \<lparr>sr_profile_index := ra_profile a, sr_app_name := ra_name a\<rparr>) apps
      else [])"

text \<open>\<open>insert_new_meeting\<close>: the new id, or -1.\<close>

definition insert_new_meeting :: "turn_input \<Rightarrow> rstr \<Rightarrow> rstr option \<Rightarrow> rstr option \<Rightarrow> int \<times> effect list" where
  "insert_new_meeting i app title attendees =
     (case in_insert i app of
        Some mid \<Rightarrow> (mid, [DbInsert app title attendees, EmitStarted mid])
      | None \<Rightarrow> (-1, [DbInsert app title attendees]))"

definition join_names :: "rstr list \<Rightarrow> rstr" where
  "join_names ns = (case ns of [] \<Rightarrow> [] | x # xs \<Rightarrow> x @ concat (map (\<lambda>y. lit '', '' @ y) xs))"

definition merge_candidate :: "turn_input \<Rightarrow> int option \<Rightarrow> rstr \<Rightarrow> recent_meeting option" where
  "merge_candidate i last_stop app =
     (case in_recent i app of
        Some (Some r) \<Rightarrow> if last_stop = Some (recent_id r) then None else Some r
      | _ \<Rightarrow> None)"

text \<open>The \<open>StartMeeting\<close> action: reopen the recent meeting of the app or insert a new one.\<close>

definition start_meeting :: "turn_input \<Rightarrow> loop_vars \<Rightarrow> rstr \<Rightarrow> int \<times> effect list" where
  "start_meeting i v app =
     (let (title, names) = find_overlapping_calendar_event (lv_calendar v) (in_utc i);
          attendees = map_option join_names names in
      case merge_candidate i (lv_last_stop v) app of
        None \<Rightarrow> insert_new_meeting i app title attendees
      | Some r \<Rightarrow>
          if in_reopen_ok i (recent_id r)
          then (recent_id r,
                DbReopen (recent_id r) #
                (if title \<noteq> None \<and> (case recent_title r of None \<Rightarrow> True | Some t \<Rightarrow> t = [])
                 then [DbEnrich (recent_id r) title attendees] else []))
          else let (mid, es) = insert_new_meeting i app title attendees in (mid, DbReopen (recent_id r) # es))"

definition with_meeting_id :: "int \<Rightarrow> meeting_state \<Rightarrow> meeting_state" where
  "with_meeting_id mid s =
     (case s of Active _ a started seen browser \<Rightarrow> Active mid a started seen browser | _ \<Rightarrow> s)"

text \<open>Carrying out the action of a transition: the state with the meeting's id, and the effects.\<close>

fun perform_action :: "turn_input \<Rightarrow> loop_vars \<Rightarrow> state_action option \<Rightarrow> meeting_state \<times> effect list" where
  "perform_action i v None = (lv_state v, [])"
| "perform_action i v (Some (StartMeeting app)) =
     (let (mid, es) = start_meeting i v app in (with_meeting_id mid (lv_state v), es @ status_effect i))"
| "perform_action i v (Some (EndMeeting mid)) = (lv_state v, if mid \<ge> 0 then end_naturally i mid else [])"

definition apps_keep_alive :: "turn_input \<Rightarrow> loop_vars \<Rightarrow> bool" where
  "apps_keep_alive i v =
     (let has_output_audio = (if is_ending (lv_state v) then answer_or_false (in_output_audio i) else False)
      in has_output_audio \<or> (is_ending (lv_state v) \<and> has_active_calendar_event (lv_calendar v) (in_utc i)))"

definition apps_turn ::
  "loop_config \<Rightarrow> turn_input \<Rightarrow> running_meeting_app list \<Rightarrow> loop_vars \<Rightarrow> loop_vars \<times> effect list" where
  "apps_turn cf i apps v =
     (let (s', action) = advance_state (cf_low cf) (in_now i) (in_utc i) (lv_state v) (scan_apps cf i apps)
                           (apps_keep_alive i v);
          audio_recent = (case in_audio_recent i of Some b \<Rightarrow> b | None \<Rightarrow> True);
          v1 = v\<lparr>lv_state := s', lv_idle_scans := 0,
                 lv_interval := apps_present_scan_interval (s' = Idle) audio_recent (cf_base_interval cf)\<rparr>;
          (s'', effects) = perform_action i v1 action
      in (v1\<lparr>lv_state := s'', lv_flag := is_active s''\<rparr>, effects))"

definition known_apps :: "loop_config \<Rightarrow> turn_input \<Rightarrow> running_meeting_app list" where
  "known_apps cf i =
     (let hints = (if has_browser_profiles cf
                   then (case in_hints i of Some hs \<Rightarrow> hs | None \<Rightarrow> []) else [])
      in drop_ignored (cf_low cf) (cf_profiles cf) (cf_ignored cf) (merge_hints (in_apps i) hints))"

section \<open>The loop\<close>

definition loop_turn :: "loop_config \<Rightarrow> turn_input \<Rightarrow> loop_vars \<Rightarrow> loop_vars \<times> effect list" where
  "loop_turn cf i v =
     (let v1 = handle_stop i (drain_calendar i (v\<lparr>lv_manual := in_manual i\<rparr>));
          (v2, es) = handle_auto_end i v1 in
      if lv_manual v2 \<noteq> None then (v2, es)
      else if in_locked i then (v2, es)
      else
        let apps = known_apps cf i;
            (v3, es') = (if apps = [] then no_apps_turn cf i v2 else apps_turn cf i apps v2)
        in (v3, es @ es'))"

definition start_effects :: "bool \<Rightarrow> effect list" where
  "start_effects close_orphaned_meetings_on_start =
     (if close_orphaned_meetings_on_start then [DbCloseOrphans] else [])"

text \<open>Before the loop: an active meeting of the database is tracked again. \<open>started\<close> is its parsed
  start, or the current time.\<close>

definition start_loop :: "loop_config \<Rightarrow> nat \<Rightarrow> int \<Rightarrow> (int \<times> rstr \<times> int option) option \<Rightarrow> loop_vars" where
  "start_loop cf now utc active =
     (let v = \<lparr>lv_state = Idle, lv_interval = cf_base_interval cf, lv_flag = False, lv_manual = None,
               lv_calendar = [], lv_last_stop = None, lv_idle_scans = 0\<rparr> in
      case active of
        None \<Rightarrow> v
      | Some (mid, app, started) \<Rightarrow>
          v\<lparr>lv_state := Active mid app (case started of Some t \<Rightarrow> t | None \<Rightarrow> utc) now False, lv_flag := True\<rparr>)"

definition shutdown_loop :: "loop_vars \<Rightarrow> loop_vars \<times> effect list" where
  "shutdown_loop v =
     (v\<lparr>lv_flag := False\<rparr>,
      case tracked_id (lv_state v) of Some mid \<Rightarrow> if mid \<ge> 0 then [DbEnd mid Shutdown] else [] | None \<Rightarrow> [])"

fun run_loop :: "loop_config \<Rightarrow> turn_input list \<Rightarrow> loop_vars \<Rightarrow> loop_vars \<times> effect list" where
  "run_loop cf [] v = (v, [])"
| "run_loop cf (i # is) v =
     (let (v', es) = loop_turn cf i v; (v'', es') = run_loop cf is v' in (v'', es @ es'))"

end
