(* ===== verification/MeetingProperties.thy ===== *)
theory MeetingProperties
  imports MeetingLoop
begin

text \<open>
  Properties of the meeting detector: the rules of the state machine, what the loop may write to
  the database and when, the in-meeting flag, and that a silent meeting ends.
\<close>

section \<open>Discovery\<close>

text \<open>On Windows no process is scanned twice in a turn, however it was found: tracked, by its
  name, as a helper of another process, or by a browser window.\<close>

theorem windows_discovery_distinct:
  "distinct (map ra_pid (find_running_meeting_apps_windows low ps tracking procs ws))"
proof -
  have "discovered_ok (add_windows low procs ws 0 ps (add_natives low procs 0 ps (tracked_process procs tracking)))"
    by (intro add_windows_ok add_natives_ok tracked_ok)
  then show ?thesis by (simp add: find_running_meeting_apps_windows_def discovered_ok_def)
qed

section \<open>The state machine\<close>

text \<open>A meeting starts only when a possible meeting is confirmed by a scan with a call, with
  the app of the scan that found the most signals; a tracked meeting stays the same meeting until
  it ends; and it ends only after its grace period, in a scan without a call and without a sign of
  life.\<close>

theorem advance_state_protocol:
  assumes "advance_state low now utc s rs audio = (s', act)"
  shows "act = (case s of
      Confirming _ _ _ \<Rightarrow> map_option (\<lambda>r. StartMeeting (sr_app_name r)) (best_active rs)
    | Ending mid _ _ since browser _ \<Rightarrow>
        if \<not> list_ex is_in_call rs \<and> \<not> audio \<and> ending_timeout browser \<le> now - since then Some (EndMeeting mid) else None
    | _ \<Rightarrow> None)
    \<and> (tracked_id s' = (case act of Some (StartMeeting _) \<Rightarrow> Some (-1) | Some (EndMeeting _) \<Rightarrow> None | None \<Rightarrow> tracked_id s))"
  using assms
  by (cases s) (auto simp: best_active_None [symmetric] elapsed_ms_def Let_def split: option.splits if_splits)

definition call_scan :: scan_result where
  "call_scan = \<lparr>sr_app_name = lit ''zoom.us'', sr_profile_index = 1, signals_found = 2, is_in_call = True, matched_signals = []\<rparr>"

lemma advance_state_protocol_witness:
  "snd (advance_state (\<lambda>x. x) 20000 0 (Confirming 5000 (lit ''zoom.us'') 1) [call_scan] False)
   = Some (StartMeeting (lit ''zoom.us''))"
  using advance_state_protocol [OF surjective_pairing, of "\<lambda>x. x" 20000 0 "Confirming 5000 (lit ''zoom.us'') 1" "[call_scan]" False]
  by (simp add: best_active_def call_scan_def)

text \<open>A scan that finds no running meeting app forgets two things: it keeps the re-entry counter
  of a meeting that is ending, so that two scans with controls that are not consecutive revive it;
  and it clears the browser flag of an active meeting, which stays cleared when output audio
  revives the meeting, so that the meeting then ends after the short grace period.\<close>

theorem no_apps_scan_forgets:
  "advance_state low 3 u (fst (handle_no_apps_running 2 (fst (advance_state low 1 u (Ending mid app st 0 False 0) [call_scan] False)) False))
     [call_scan] False
   = (Active mid (sr_app_name call_scan) st 3 False, None)
   \<and> fst (handle_no_apps_running 2 (fst (handle_no_apps_running 1 (Active mid app st 0 True) False)) True) = Active mid app st 2 False"
  by (simp_all add: best_active_def call_scan_def saturating_add_u8_def u8_max_def REENTRY_HYSTERESIS_SCANS_def
      ending_timeout_def elapsed_ms_def ENDING_TIMEOUT_def)

section \<open>The loop\<close>

lemma handle_stop_cases:
  "handle_stop i v = v \<or> (lv_state (handle_stop i v) = Idle \<and> \<not> lv_flag (handle_stop i v)
     \<and> lv_manual (handle_stop i v) = lv_manual v \<and> lv_calendar (handle_stop i v) = lv_calendar v)"
  by (auto simp: handle_stop_def split: option.splits)

lemma drain_calendar_simps [simp]:
  "lv_state (drain_calendar i v) = lv_state v" "lv_flag (drain_calendar i v) = lv_flag v"
  "lv_manual (drain_calendar i v) = lv_manual v"
proof -
  have *: "lv_state (foldl (\<lambda>v b. v\<lparr>lv_calendar := f b\<rparr>) v bs) = lv_state v
    \<and> lv_flag (foldl (\<lambda>v b. v\<lparr>lv_calendar := f b\<rparr>) v bs) = lv_flag v
    \<and> lv_manual (foldl (\<lambda>v b. v\<lparr>lv_calendar := f b\<rparr>) v bs) = lv_manual v" for f and bs :: "calendar_event list list" and v
    by (induction bs arbitrary: v) simp_all
  show "lv_state (drain_calendar i v) = lv_state v" "lv_flag (drain_calendar i v) = lv_flag v"
    "lv_manual (drain_calendar i v) = lv_manual v"
    unfolding drain_calendar_def using * by blast+
qed

lemma handle_auto_end_spec:
  assumes "handle_auto_end i v = (v', es)"
  shows "(v' = v \<and> es = []) \<or> (\<exists>rid. in_auto_end i = Some rid \<and> (lv_manual v = Some rid \<or> tracked_id (lv_state v) = Some rid)
     \<and> (if in_end_ok i rid then es = [DbEnd rid AutoEnd] @ status_effect i @ [EmitEnded rid] \<and> \<not> lv_flag v'
          \<and> (lv_state v' = Idle \<or> lv_state v' = lv_state v)
        else es = [DbEnd rid AutoEnd] \<and> v' = v))"
  using assms by (auto simp: handle_auto_end_def Let_def split: option.splits if_splits)

lemma handle_auto_end_calendar:
  "lv_calendar (fst (handle_auto_end i v)) = lv_calendar v" "lv_last_stop (fst (handle_auto_end i v)) = lv_last_stop v"
  by (simp_all add: handle_auto_end_def Let_def split: option.split)

text \<open>Before it scans, a turn leaves the state as it is or sets it to idle.\<close>

definition before_scan :: "turn_input \<Rightarrow> loop_vars \<Rightarrow> loop_vars \<times> effect list" where
  "before_scan i v = handle_auto_end i (handle_stop i (drain_calendar i (v\<lparr>lv_manual := in_manual i\<rparr>)))"

lemma loop_turn_before_scan:
  "loop_turn cf i v =
     (let (v2, es) = before_scan i v in
      if lv_manual v2 \<noteq> None \<or> in_locked i then (v2, es)
      else let (v3, es') = (if known_apps cf i = [] then no_apps_turn cf i v2 else apps_turn cf i (known_apps cf i) v2)
           in (v3, es @ es'))"
  by (simp add: loop_turn_def before_scan_def Let_def case_prod_beta)

lemma before_scan_state:
  assumes "before_scan i v = (v2, es)"
  shows "(lv_state v2 = Idle \<and> \<not> lv_flag v2) \<or>
    (lv_state v2 = lv_state v \<and> (lv_flag v2 = lv_flag v \<or> \<not> lv_flag v2))"
proof -
  let ?d = "drain_calendar i (v\<lparr>lv_manual := in_manual i\<rparr>)"
  have d: "lv_state ?d = lv_state v" "lv_flag ?d = lv_flag v" by simp_all
  from assms have h: "handle_auto_end i (handle_stop i ?d) = (v2, es)" by (simp add: before_scan_def)
  from handle_auto_end_spec [OF h] handle_stop_cases [of i ?d] d show ?thesis
    by (auto split: if_splits)
qed

lemma before_scan_effects:
  assumes "before_scan i v = (v2, es)" "x \<in> set es"
  shows "x = EmitStatus \<or> (\<exists>rid. in_auto_end i = Some rid \<and> (in_manual i = Some rid \<or> tracked_id (lv_state v) = Some rid)
    \<and> (x = DbEnd rid AutoEnd \<or> x = EmitEnded rid))"
proof -
  let ?d = "drain_calendar i (v\<lparr>lv_manual := in_manual i\<rparr>)"
  have d: "lv_state ?d = lv_state v" "lv_manual ?d = in_manual i" by simp_all
  from assms(1) have h: "handle_auto_end i (handle_stop i ?d) = (v2, es)" by (simp add: before_scan_def)
  have st: "lv_manual (handle_stop i ?d) = in_manual i \<and> (tracked_id (lv_state (handle_stop i ?d)) = Some rid \<longrightarrow> tracked_id (lv_state v) = Some rid)" for rid
    using handle_stop_cases [of i ?d] d by auto
  from handle_auto_end_spec [OF h] st assms(2) show ?thesis
    by (fastforce simp: status_effect_def split: if_splits)
qed

text \<open>The in-meeting flag is only ever set while a meeting is active: after any number of turns
  from the start of the loop, whatever the detector reads, a set flag means the state is Active.\<close>

theorem meeting_flag_sound:
  assumes "lv_flag (fst (run_loop cf is (start_loop cf now utc active)))"
  shows "is_active (lv_state (fst (run_loop cf is (start_loop cf now utc active))))"
proof -
  have turn: "lv_flag (fst (loop_turn cf i v)) \<longrightarrow> is_active (lv_state (fst (loop_turn cf i v)))"
    if "lv_flag v \<longrightarrow> is_active (lv_state v)" for i v
  proof -
    obtain v2 es where b: "before_scan i v = (v2, es)" by fastforce
    from before_scan_state [OF b] that have "lv_flag v2 \<longrightarrow> is_active (lv_state v2)" by auto
    then show ?thesis
      by (auto simp: loop_turn_before_scan b no_apps_turn_def apps_turn_def Let_def case_prod_beta)
  qed
  have "lv_flag (fst (run_loop cf is v)) \<longrightarrow> is_active (lv_state (fst (run_loop cf is v)))"
    if "lv_flag v \<longrightarrow> is_active (lv_state v)" for v
    using that by (induction "is" arbitrary: v) (simp_all add: case_prod_beta turn)
  moreover have "lv_flag (start_loop cf now utc active) \<longrightarrow> is_active (lv_state (start_loop cf now utc active))"
    by (cases active) (auto simp: start_loop_def Let_def)
  ultimately show ?thesis using assms by blast
qed

definition quiet_turn :: "nat \<Rightarrow> turn_input" where
  "quiet_turn now = \<lparr>in_now = now, in_utc = 0, in_manual = None, in_calendar = [], in_stop = None, in_auto_end = None,
     in_locked = False, in_hints = Some [], in_apps = [], in_scan = (\<lambda>_ _. call_scan), in_output_audio = Some True,
     in_audio_recent = None, in_end_ok = (\<lambda>_. True), in_recent = (\<lambda>_. Some None), in_reopen_ok = (\<lambda>_. True),
     in_insert = (\<lambda>_. Some 9), in_status_ok = True\<rparr>"

definition plain_config :: loop_config where
  "plain_config = \<lparr>cf_low = (\<lambda>x. x), cf_profiles = [zoom_profile], cf_base_interval = 5000, cf_ignored = []\<rparr>"

lemma known_apps_none: "in_hints i = Some [] \<Longrightarrow> in_apps i = [] \<Longrightarrow> known_apps cf i = []"
  by (simp add: known_apps_def merge_hints_def drop_ignored_def split: if_split)

lemmas turn_simps = loop_turn_def before_scan_def quiet_turn_def plain_config_def drain_calendar_def handle_stop_def
  handle_auto_end_def known_apps_none no_apps_turn_def apps_turn_def answer_or_false_def
  has_active_calendar_event_def start_loop_def

lemma meeting_flag_sound_witness:
  "is_active (lv_state (fst (run_loop plain_config [quiet_turn 10, quiet_turn 20] (start_loop plain_config 0 0 (Some (4, [], None))))))"
  by (rule meeting_flag_sound) (simp add: turn_simps)

lemma end_naturally_iff: "DbEnd m r \<in> set (end_naturally i mid) \<longleftrightarrow> m = mid \<and> r = GraceTimeout"
  by (auto simp: end_naturally_def status_effect_def)

text \<open>The conditions for ending a meeting after its grace period.\<close>

definition grace_over :: "turn_input \<Rightarrow> calendar_event list \<Rightarrow> scan_result list \<Rightarrow> meeting_state \<Rightarrow> int \<Rightarrow> bool" where
  "grace_over i cal rs s m =
     (case s of
        Ending mid _ _ since browser _ \<Rightarrow> mid = m \<and> 0 \<le> m \<and> ending_timeout browser \<le> in_now i - since
          \<and> \<not> answer_or_false (in_output_audio i) \<and> \<not> has_active_calendar_event cal (in_utc i) \<and> \<not> list_ex is_in_call rs
      | _ \<Rightarrow> False)"

lemma no_apps_turn_ends:
  assumes "no_apps_turn cf i v = (v', es)" "DbEnd m r \<in> set es"
  shows "r = GraceTimeout \<and> grace_over i (lv_calendar v') [] (lv_state v) m"
  using assms
  by (cases "lv_state v")
     (auto simp: no_apps_turn_def Let_def end_naturally_iff grace_over_def elapsed_ms_def split: if_splits)

lemma insert_no_end: "DbEnd m r \<notin> set (snd (insert_new_meeting i app t a))"
  by (simp add: insert_new_meeting_def split: option.split)

lemma start_meeting_no_end: "DbEnd m r \<notin> set (snd (start_meeting i v app))"
  using insert_no_end [of m r]
  by (auto simp: start_meeting_def Let_def case_prod_beta split: option.splits)

lemma perform_action_ends:
  "DbEnd m r \<in> set (snd (perform_action i v act)) \<Longrightarrow> act = Some (EndMeeting m) \<and> r = GraceTimeout \<and> 0 \<le> m"
  using start_meeting_no_end [of m r i v]
  by (induction i v act rule: perform_action.induct)
     (auto simp: end_naturally_iff case_prod_beta status_effect_def split: if_splits)

lemma advance_state_ends:
  assumes "advance_state low (in_now i) utc s rs audio = (s', Some (EndMeeting m))" "0 \<le> m"
    "answer_or_false (in_output_audio i) \<or> has_active_calendar_event cal (in_utc i) \<Longrightarrow> is_ending s \<Longrightarrow> audio"
  shows "grace_over i cal rs s m"
  using assms
  by (cases s) (auto simp: grace_over_def best_active_None [symmetric] elapsed_ms_def Let_def split: option.splits if_splits)

lemma apps_turn_ends:
  assumes "apps_turn cf i apps v = (v', es)" "DbEnd m r \<in> set es"
  shows "r = GraceTimeout \<and> grace_over i (lv_calendar v') (scan_apps cf i apps) (lv_state v) m"
proof -
  obtain s' act where a: "advance_state (cf_low cf) (in_now i) (in_utc i) (lv_state v) (scan_apps cf i apps)
      (apps_keep_alive i v) = (s', act)" by fastforce
  have cal: "lv_calendar v' = lv_calendar v" using assms(1) by (auto simp: apps_turn_def Let_def case_prod_beta)
  from assms(1) a obtain v1 where "es = snd (perform_action i v1 act)"
    by (auto simp: apps_turn_def Let_def case_prod_beta)
  with assms(2) have act: "act = Some (EndMeeting m)" "r = GraceTimeout" "0 \<le> m"
    using perform_action_ends [of m r i v1 act] by auto
  have "grace_over i (lv_calendar v) (scan_apps cf i apps) (lv_state v) m"
    by (rule advance_state_ends [OF a [unfolded act(1)] act(3)]) (auto simp: apps_keep_alive_def)
  then show ?thesis by (simp add: cal act(2))
qed

text \<open>The loop ends a meeting in the database only for one of two reasons: an auto-end request
  for the manual meeting or for the tracked one; or its grace period is over: it was already
  ending, no output audio and no calendar event kept it alive, and no scan of the turn saw a
  call. A meeting that was never stored is not ended.\<close>

theorem loop_ends_only_silent_meetings:
  assumes "loop_turn cf i v = (v', es)" "DbEnd m r \<in> set es"
  shows "(r = AutoEnd \<and> in_auto_end i = Some m \<and> (in_manual i = Some m \<or> tracked_id (lv_state v) = Some m))
    \<or> (r = GraceTimeout \<and> in_manual i \<in> {None, in_auto_end i} \<and> \<not> in_locked i
       \<and> grace_over i (lv_calendar v') (scan_apps cf i (known_apps cf i)) (lv_state v) m)"
proof -
  obtain v2 es2 where b: "before_scan i v = (v2, es2)" by fastforce
  show ?thesis
  proof (cases "DbEnd m r \<in> set es2")
    case True
    from before_scan_effects [OF b True] show ?thesis by auto
  next
    case False
    with assms b have go: "lv_manual v2 = None" "\<not> in_locked i"
      by (auto simp: loop_turn_before_scan split: if_splits)
    have man: "in_manual i \<in> {None, in_auto_end i}"
      using b go(1) handle_stop_cases [of i "drain_calendar i (v\<lparr>lv_manual := in_manual i\<rparr>)"]
      by (auto simp: before_scan_def handle_auto_end_def Let_def split: option.splits if_splits)
    obtain v3 es3 where t: "(if known_apps cf i = [] then no_apps_turn cf i v2 else apps_turn cf i (known_apps cf i) v2) = (v3, es3)"
      by fastforce
    with assms(1) b go have "v' = v3" "es = es2 @ es3" by (simp_all add: loop_turn_before_scan)
    with t assms(2) False have t: "(if known_apps cf i = [] then no_apps_turn cf i v2 else apps_turn cf i (known_apps cf i) v2) = (v', es3)"
      "DbEnd m r \<in> set es3" by simp_all
    have e: "scan_apps cf i [] = []" by (simp add: scan_apps_def)
    from t no_apps_turn_ends [of cf i v2 v' es3 m r] apps_turn_ends [of cf i "known_apps cf i" v2 v' es3 m r]
    have g: "r = GraceTimeout \<and> grace_over i (lv_calendar v') (scan_apps cf i (known_apps cf i)) (lv_state v2) m"
      by (auto simp: e split: if_splits)
    then have "lv_state v2 \<noteq> Idle" by (auto simp: grace_over_def)
    with before_scan_state [OF b] have "lv_state v2 = lv_state v" by auto
    with g go man show ?thesis by auto
  qed
qed

lemma loop_ends_only_silent_meetings_witness:
  "grace_over (quiet_turn 100000\<lparr>in_output_audio := None\<rparr>) [] [] (Ending 4 [] 0 60000 False 0) 4"
proof -
  let ?i = "quiet_turn 100000\<lparr>in_output_audio := None\<rparr>"
  let ?v = "start_loop plain_config 0 0 None\<lparr>lv_state := Ending 4 [] 0 60000 False 0\<rparr>"
  have "DbEnd 4 GraceTimeout \<in> set (snd (loop_turn plain_config ?i ?v))"
    by (simp add: turn_simps elapsed_ms_def ending_timeout_def ENDING_TIMEOUT_def end_naturally_def)
  from loop_ends_only_silent_meetings [OF surjective_pairing this] show ?thesis
    by (simp add: turn_simps Let_def elapsed_ms_def ending_timeout_def ENDING_TIMEOUT_def scan_apps_def)
qed

section \<open>Starting a meeting\<close>

fun is_start :: "effect \<Rightarrow> bool" where
  "is_start (DbInsert _ _ _) = True"
| "is_start (DbReopen _) = True"
| "is_start (EmitStarted _) = True"
| "is_start _ = False"

lemma end_naturally_no_start: "x \<in> set (end_naturally i m) \<Longrightarrow> \<not> is_start x"
  by (auto simp: end_naturally_def status_effect_def split: if_splits)

lemma insert_not_reopen: "DbReopen m \<notin> set (snd (insert_new_meeting i app t a))"
  by (simp add: insert_new_meeting_def split: option.split)

lemma start_meeting_reopens: "DbReopen m \<in> set (snd (start_meeting i v app)) \<Longrightarrow> lv_last_stop v \<noteq> Some m"
  using insert_not_reopen [of m i]
  by (auto simp: start_meeting_def merge_candidate_def Let_def case_prod_beta split: option.splits if_splits)

lemma perform_action_starts:
  assumes "x \<in> set (snd (perform_action i v act))" "is_start x"
  shows "\<exists>app. act = Some (StartMeeting app) \<and> (\<forall>m. x = DbReopen m \<longrightarrow> lv_last_stop v \<noteq> Some m)"
  using assms start_meeting_reopens
  by (induction i v act rule: perform_action.induct)
     (auto simp: case_prod_beta status_effect_def dest: end_naturally_no_start split: if_splits)

lemma advance_state_starts:
  assumes "advance_state low now utc s rs audio = (s', Some (StartMeeting app))"
  shows "(\<exists>since a idx. s = Confirming since a idx) \<and> list_ex is_in_call rs"
proof -
  have "best_active rs \<noteq> None \<and> (\<exists>since a idx. s = Confirming since a idx)"
    using assms by (cases s) (auto simp: Let_def split: option.splits if_splits)
  then show ?thesis by (simp add: best_active_None)
qed

lemma no_apps_no_start:
  assumes "no_apps_turn cf i v = (v', es)" "x \<in> set es"
  shows "\<not> is_start x"
proof -
  obtain s' ended where h: "handle_no_apps_running (in_now i) (lv_state v)
      (if is_active (lv_state v) \<or> is_ending (lv_state v)
       then answer_or_false (in_output_audio i) \<or> has_active_calendar_event (lv_calendar v) (in_utc i) else False) = (s', ended)"
    by fastforce
  with assms(1) have "es = (case ended of Some mid \<Rightarrow> end_naturally i mid | None \<Rightarrow> [])"
    by (auto simp: no_apps_turn_def Let_def)
  with assms(2) show ?thesis by (auto dest: end_naturally_no_start split: option.splits)
qed

text \<open>A meeting is stored, or a recent one reopened, only when the state was Confirming and a
  scan of this turn sees a call again, so never on a single scan; and the meeting the user
  stopped last is not reopened.\<close>

theorem loop_starts_only_confirmed_meetings:
  assumes "loop_turn cf i v = (v', es)" "x \<in> set es" "is_start x"
  shows "(\<exists>since a idx. lv_state v = Confirming since a idx) \<and> list_ex is_in_call (scan_apps cf i (known_apps cf i))
    \<and> (\<forall>m. x = DbReopen m \<longrightarrow> lv_last_stop v' \<noteq> Some m)"
proof -
  obtain v2 es2 where b: "before_scan i v = (v2, es2)" by fastforce
  from before_scan_effects [OF b, of x] assms(3) have nb: "x \<notin> set es2" by auto
  with assms b have go: "lv_manual v2 = None" "\<not> in_locked i" by (auto simp: loop_turn_before_scan split: if_splits)
  obtain v3 es3 where t: "(if known_apps cf i = [] then no_apps_turn cf i v2 else apps_turn cf i (known_apps cf i) v2) = (v3, es3)"
    by fastforce
  with assms(1) b go have v3: "v' = v3" "es = es2 @ es3" by (simp_all add: loop_turn_before_scan)
  with nb assms(2) have x: "x \<in> set es3" by simp
  with t assms(3) no_apps_no_start [of cf i v2 v3 es3 x] have apps: "apps_turn cf i (known_apps cf i) v2 = (v3, es3)"
    by (auto split: if_splits)
  obtain s' act where a: "advance_state (cf_low cf) (in_now i) (in_utc i) (lv_state v2)
      (scan_apps cf i (known_apps cf i)) (apps_keep_alive i v2) = (s', act)" by fastforce
  from apps a obtain v4 where v4: "es3 = snd (perform_action i v4 act)" "lv_last_stop v4 = lv_last_stop v3"
    by (auto simp: apps_turn_def Let_def case_prod_beta)
  from perform_action_starts [OF x [unfolded v4(1)] assms(3)] obtain app where
    p: "act = Some (StartMeeting app)" "\<forall>m. x = DbReopen m \<longrightarrow> lv_last_stop v4 \<noteq> Some m" by blast
  from advance_state_starts [OF a [unfolded p(1)]] have s: "\<exists>since a idx. lv_state v2 = Confirming since a idx"
    "list_ex is_in_call (scan_apps cf i (known_apps cf i))" by blast+
  with before_scan_state [OF b] have "\<exists>since a idx. lv_state v = Confirming since a idx" by auto
  with s p(2) v4(2) v3(1) show ?thesis by simp
qed

definition zoom_app :: running_meeting_app where
  "zoom_app = \<lparr>ra_pid = 5, ra_name = lit ''zoom.us'', ra_profile = 0, ra_url = None\<rparr>"

lemma known_apps_zoom: "in_hints i = Some [] \<Longrightarrow> in_apps i = [zoom_app] \<Longrightarrow> known_apps plain_config i = [zoom_app]"
  by (simp add: known_apps_def merge_hints_def drop_ignored_def plain_config_def split: if_split)

lemma loop_starts_only_confirmed_meetings_witness:
  "list_ex is_in_call (scan_apps plain_config (quiet_turn 100\<lparr>in_apps := [zoom_app]\<rparr>) [zoom_app])"
proof -
  define i where "i = quiet_turn 100\<lparr>in_apps := [zoom_app]\<rparr>"
  have sel: "in_calendar i = []" "in_stop i = None" "in_auto_end i = None" "in_manual i = None" "\<not> in_locked i"
    "in_hints i = Some []" "in_apps i = [zoom_app]" "in_scan i = (\<lambda>_ _. call_scan)" "in_recent i = (\<lambda>_. Some None)"
    "in_insert i = (\<lambda>_. Some 9)" by (simp_all add: i_def quiet_turn_def)
  let ?v = "start_loop plain_config 0 0 None\<lparr>lv_state := Confirming 50 [] 0\<rparr>"
  have k: "known_apps plain_config i = [zoom_app]" by (rule known_apps_zoom) (simp_all add: sel)
  have best: "best_active (scan_apps plain_config i [zoom_app]) \<noteq> None"
    by (simp add: best_active_None scan_apps_def plain_config_def zoom_app_def sel call_scan_def)
  then obtain r where r: "best_active (scan_apps plain_config i [zoom_app]) = Some r" by blast
  have "EmitStarted 9 \<in> set (snd (loop_turn plain_config i ?v))"
    by (simp add: loop_turn_def k apps_turn_def r Let_def drain_calendar_def handle_stop_def handle_auto_end_def start_loop_def
        start_meeting_def merge_candidate_def insert_new_meeting_def sel case_prod_beta)
  from loop_starts_only_confirmed_meetings [OF surjective_pairing this] show ?thesis unfolding k by (simp add: i_def)
qed

section \<open>A silent meeting ends\<close>

text \<open>A turn that runs its scan and in which nothing speaks for a call.\<close>

definition silent :: "turn_input \<Rightarrow> bool" where
  "silent i \<longleftrightarrow> in_manual i = None \<and> \<not> in_locked i \<and> in_calendar i = [] \<and> \<not> answer_or_false (in_output_audio i)
     \<and> (\<forall>pid p. \<not> is_in_call (in_scan i pid p))"

definition state_since :: "meeting_state \<Rightarrow> nat" where
  "state_since s = (case s of Confirming since _ _ \<Rightarrow> since | Ending _ _ _ since _ _ \<Rightarrow> since | _ \<Rightarrow> 0)"

text \<open>The state is idle, or on a timer that is over at the given time.\<close>

definition ends_by :: "nat \<Rightarrow> meeting_state \<Rightarrow> bool" where
  "ends_by t s = (case s of
      Idle \<Rightarrow> True
    | Confirming since _ _ \<Rightarrow> since + CONFIRM_TIMEOUT \<le> t
    | Active _ _ _ _ _ \<Rightarrow> False
    | Ending _ _ _ since browser _ \<Rightarrow> since + ending_timeout browser \<le> t)"

lemmas timeout_defs = CONFIRM_TIMEOUT_def ENDING_TIMEOUT_def ENDING_TIMEOUT_BROWSER_def ending_timeout_def

lemma silent_no_call: "silent i \<Longrightarrow> best_active (scan_apps cf i apps) = None"
  by (auto simp: best_active_None silent_def scan_apps_def list_ex_iff)

text \<open>The scan of a silent turn.\<close>

lemma silent_scan:
  assumes "silent i" "lv_calendar v = []"
    "v' = fst (if known_apps cf i = [] then no_apps_turn cf i v else apps_turn cf i (known_apps cf i) v)"
  shows "lv_calendar v' = []"
    "state_since (lv_state v) \<le> in_now i \<Longrightarrow> ends_by (in_now i + ENDING_TIMEOUT_BROWSER) (lv_state v')"
    "ends_by t (lv_state v) \<Longrightarrow> ends_by t (lv_state v') \<and> (t \<le> in_now i \<longrightarrow> lv_state v' = Idle)"
proof -
  have cal: "\<not> has_active_calendar_event [] u" for u
    by (simp add: has_active_calendar_event_def)
  have aud: "\<not> answer_or_false (in_output_audio i)" using assms(1) by (simp add: silent_def)
  have alive: "\<not> apps_keep_alive i v" by (simp add: apps_keep_alive_def assms(2) cal aud)
  note none = silent_no_call [OF assms(1), of cf "known_apps cf i"]
  have "lv_calendar v' = [] \<and>
    (state_since (lv_state v) \<le> in_now i \<longrightarrow> ends_by (in_now i + ENDING_TIMEOUT_BROWSER) (lv_state v')) \<and>
    (ends_by t (lv_state v) \<longrightarrow> ends_by t (lv_state v') \<and> (t \<le> in_now i \<longrightarrow> lv_state v' = Idle))"
  proof (cases "known_apps cf i = []")
    case True
    then have v': "v' = fst (no_apps_turn cf i v)" using assms(3) by simp
    show ?thesis unfolding v'
      by (cases "lv_state v")
        (auto simp: no_apps_turn_def Let_def cal aud assms(2) ends_by_def state_since_def elapsed_ms_def timeout_defs)
  next
    case False
    then have v': "v' = fst (apps_turn cf i (known_apps cf i) v)" using assms(3) by simp
    show ?thesis unfolding v'
      by (cases "lv_state v")
        (auto simp: apps_turn_def Let_def none alive assms(2) case_prod_beta ends_by_def state_since_def elapsed_ms_def timeout_defs)
  qed
  then show "lv_calendar v' = []"
    "state_since (lv_state v) \<le> in_now i \<Longrightarrow> ends_by (in_now i + ENDING_TIMEOUT_BROWSER) (lv_state v')"
    "ends_by t (lv_state v) \<Longrightarrow> ends_by t (lv_state v') \<and> (t \<le> in_now i \<longrightarrow> lv_state v' = Idle)" by blast+
qed

lemma silent_turn:
  assumes "silent i" "lv_calendar v = []" "v' = fst (loop_turn cf i v)"
  shows "lv_calendar v' = []"
    "state_since (lv_state v) \<le> in_now i \<Longrightarrow> ends_by (in_now i + ENDING_TIMEOUT_BROWSER) (lv_state v')"
    "ends_by t (lv_state v) \<Longrightarrow> ends_by t (lv_state v') \<and> (t \<le> in_now i \<longrightarrow> lv_state v' = Idle)"
proof -
  obtain v2 es where b: "before_scan i v = (v2, es)" by fastforce
  have d: "drain_calendar i w = w" for w using assms(1) by (simp add: drain_calendar_def silent_def)
  from b have v2: "v2 = fst (handle_auto_end i (handle_stop i (v\<lparr>lv_manual := in_manual i\<rparr>)))"
    by (simp add: before_scan_def d)
  have c: "lv_calendar v2 = []" unfolding v2 handle_auto_end_calendar
    by (simp add: handle_stop_def assms(2) split: option.split)
  have m: "lv_manual v2 = None" unfolding v2
    using assms(1) by (simp add: handle_auto_end_def handle_stop_def Let_def silent_def split: option.split)
  have v': "v' = fst (if known_apps cf i = [] then no_apps_turn cf i v2 else apps_turn cf i (known_apps cf i) v2)"
    using assms(1,3) by (simp add: loop_turn_before_scan b m silent_def case_prod_beta)
  from before_scan_state [OF b] have st: "lv_state v2 = Idle \<or> lv_state v2 = lv_state v" by blast
  note sc = silent_scan [OF assms(1) c v']
  show "lv_calendar v' = []" by (rule sc(1))
  show "state_since (lv_state v) \<le> in_now i \<Longrightarrow> ends_by (in_now i + ENDING_TIMEOUT_BROWSER) (lv_state v')"
    using st sc(2) by (auto simp: state_since_def)
  show "ends_by t (lv_state v) \<Longrightarrow> ends_by t (lv_state v') \<and> (t \<le> in_now i \<longrightarrow> lv_state v' = Idle)"
    using st sc(3) by (auto simp: ends_by_def)
qed

lemma silent_run:
  "list_all silent is \<Longrightarrow> lv_calendar v = [] \<Longrightarrow> ends_by t (lv_state v) \<Longrightarrow>
     ends_by t (lv_state (fst (run_loop cf is v))) \<and> lv_calendar (fst (run_loop cf is v)) = []"
proof (induction "is" arbitrary: v)
  case Nil
  then show ?case by simp
next
  case (Cons i "is")
  note st = silent_turn [OF _ Cons.prems(2) refl, of i]
  from Cons.prems st have "ends_by t (lv_state (fst (loop_turn cf i v)))" "lv_calendar (fst (loop_turn cf i v)) = []" by auto
  with Cons.IH [of "fst (loop_turn cf i v)"] Cons.prems(1) show ?case by (simp add: case_prod_beta)
qed

lemma run_loop_append:
  "fst (run_loop cf (xs @ ys) v) = fst (run_loop cf ys (fst (run_loop cf xs v)))"
  by (induction xs arbitrary: v) (simp_all add: case_prod_beta)

text \<open>C39: Every meeting ends: from any state, when no turn finds a call, output audio or a calendar
  event, and no manual meeting or locked screen suspends the scans, the detector is idle after
  the first turn that comes five minutes or more after the first of them, whatever its app and
  whatever the turns between.\<close>

theorem silent_meeting_ends:
  assumes "list_all silent (i # is @ [j])" "lv_calendar v = []" "state_since (lv_state v) \<le> in_now i"
    "in_now i + ENDING_TIMEOUT_BROWSER \<le> in_now j"
  shows "lv_state (fst (run_loop cf (i # is @ [j]) v)) = Idle"
proof -
  let ?v1 = "fst (loop_turn cf i v)"
  have s: "silent i" "list_all silent is" "silent j" using assms(1) by simp_all
  note b = silent_run [OF s(2) silent_turn(1) [OF s(1) assms(2) refl, of cf]
      silent_turn(2) [OF s(1) assms(2) refl assms(3), of cf], of cf]
  from silent_turn(3) [OF s(3) b [THEN conjunct2] refl b [THEN conjunct1]] assms(4) have "lv_state (fst (loop_turn cf j (fst (run_loop cf is ?v1)))) = Idle" by blast
  then show ?thesis by (simp add: run_loop_append case_prod_beta)
qed

lemma silent_meeting_ends_witness:
  "lv_state (fst (run_loop plain_config [quiet_turn 0\<lparr>in_output_audio := None, in_scan := (\<lambda>_ _. call_scan\<lparr>is_in_call := False\<rparr>)\<rparr>,
       quiet_turn 300000\<lparr>in_output_audio := None, in_scan := (\<lambda>_ _. call_scan\<lparr>is_in_call := False\<rparr>)\<rparr>]
     (start_loop plain_config 0 0 (Some (4, [], None))))) = Idle"
  using silent_meeting_ends [of "quiet_turn 0\<lparr>in_output_audio := None, in_scan := (\<lambda>_ _. call_scan\<lparr>is_in_call := False\<rparr>)\<rparr>" "[]"
      "quiet_turn 300000\<lparr>in_output_audio := None, in_scan := (\<lambda>_ _. call_scan\<lparr>is_in_call := False\<rparr>)\<rparr>"
      "start_loop plain_config 0 0 (Some (4, [], None))" plain_config]
  by (simp add: silent_def quiet_turn_def answer_or_false_def start_loop_def state_since_def ENDING_TIMEOUT_BROWSER_def)

end
