(* ===== verification/RustTime.thy ===== *)
theory RustTime
  imports RustText Complex_Main
begin

text \<open>
  Rust's clock and the numbers around it, as the capture side of the engine uses them: an
  \<open>Instant\<close> and a \<open>Duration\<close> are natural numbers of nanoseconds (an instant counts from the
  origin of the monotonic clock), a \<open>DateTime\<close> is the integer number of nanoseconds since the Unix epoch, and
  a floating-point literal is the rational it writes.
\<close>

named_theorems capture_simps

type_synonym instant = nat
type_synonym duration = nat
type_synonym f64 = rat
type_synonym timestamp = int

definition from_millis :: "nat \<Rightarrow> duration" where "from_millis n = n * 1000000"
definition from_secs :: "nat \<Rightarrow> duration" where "from_secs n = n * 1000000000"
definition as_millis :: "duration \<Rightarrow> nat" where "as_millis d = d div 1000000"
definition as_secs :: "duration \<Rightarrow> nat" where "as_secs d = d div 1000000000"

text \<open>\<open>Instant::elapsed\<close> and \<open>duration_since\<close> saturate at zero.\<close>

definition elapsed :: "instant \<Rightarrow> instant \<Rightarrow> duration" where
  "elapsed now t = now - t"

text \<open>\<open>now.checked_sub(d).unwrap_or(now)\<close>.\<close>

definition back_dated :: "instant \<Rightarrow> duration \<Rightarrow> instant" where
  "back_dated now d = (case checked_sub_nat now d of Some t \<Rightarrow> t | None \<Rightarrow> now)"

lemma from_millis_mono [simp]: "from_millis a \<le> from_millis b \<longleftrightarrow> a \<le> b"
  by (simp add: from_millis_def)

lemma back_dated_le: "back_dated now d \<le> now"
  by (auto simp: back_dated_def split: option.splits)

lemma elapsed_mono: "a \<le> b \<Longrightarrow> elapsed a t \<le> elapsed b t"
  by (simp add: elapsed_def)

section \<open>Numbers in text\<close>

definition digits_value :: "nat list \<Rightarrow> nat" where
  "digits_value ds = foldl (\<lambda>a d. 10 * a + d) 0 ds"

text \<open>\<open>str::parse\<close> to an unsigned type whose largest value is \<open>m\<close>: an optional plus, then at least one
  digit.\<close>

definition parse_uint :: "nat \<Rightarrow> rstr \<Rightarrow> nat option" where
  "parse_uint m s =
     (let ds = (case s of c # rest \<Rightarrow> if c = 43 then rest else s | [] \<Rightarrow> []) in
      if ds = [] \<or> \<not> list_all is_ascii_digit ds then None
      else let v = digits_value (map (\<lambda>c. c - 48) ds) in if v \<le> m then Some v else None)"

definition parse_u8 :: "rstr \<Rightarrow> nat option" where "parse_u8 = parse_uint u8_max"
definition parse_u32 :: "rstr \<Rightarrow> nat option" where "parse_u32 = parse_uint (2 ^ 32 - 1)"
definition parse_u64 :: "rstr \<Rightarrow> nat option" where "parse_u64 = parse_uint (2 ^ 64 - 1)"

text \<open>\<open>str::split\<close> on an ASCII character, and \<open>str::lines\<close>: the pieces that end in a line feed lose
  it and a carriage return before it; a last piece is kept when it is not empty.\<close>

fun split_byte :: "byte \<Rightarrow> rstr \<Rightarrow> rstr list" where
  "split_byte b [] = [[]]"
| "split_byte b (c # cs) =
     (if c = b then [] # split_byte b cs
      else case split_byte b cs of [] \<Rightarrow> [[c]] | p # ps \<Rightarrow> (c # p) # ps)"

definition strip_cr :: "rstr \<Rightarrow> rstr" where
  "strip_cr l = (if l \<noteq> [] \<and> last l = 13 then butlast l else l)"

definition lines :: "rstr \<Rightarrow> rstr list" where
  "lines s = (let ps = split_byte 10 s in
     map strip_cr (butlast ps) @ (if last ps = [] then [] else [last ps]))"

lemma split_byte_not_Nil [simp]: "split_byte b s \<noteq> []"
  by (cases s) (auto split: list.splits)

lemma split_byte_absent: "b \<notin> set s \<Longrightarrow> split_byte b s = [s]"
  by (induction s) auto

lemma split_byte_append:
  "b \<notin> set l \<Longrightarrow> split_byte b (l @ b # rest) = l # split_byte b rest"
  by (induction l) auto

section \<open>Decimal numbers\<close>

lemma digits_value_snoc: "digits_value (ds @ [d]) = 10 * digits_value ds + d"
  by (simp add: digits_value_def)

fun decimal :: "nat \<Rightarrow> rstr" where
  "decimal n = (if n < 10 then [48 + n] else decimal (n div 10) @ [48 + n mod 10])"

declare decimal.simps [simp del]

lemma decimal_digits: "list_all is_ascii_digit (decimal n) \<and> decimal n \<noteq> [] \<and> hd (decimal n) \<noteq> 43"
proof (induction n rule: decimal.induct)
  case (1 n)
  show ?case
  proof (cases "n < 10")
    case True
    then show ?thesis by (simp add: decimal.simps [of n] is_ascii_digit_def)
  next
    case False
    from 1 [OF False] False show ?thesis
      by (simp add: decimal.simps [of n] is_ascii_digit_def hd_append)
  qed
qed

lemma decimal_value: "digits_value (map (\<lambda>c. c - 48) (decimal n)) = n"
proof (induction n rule: decimal.induct)
  case (1 n)
  show ?case
  proof (cases "n < 10")
    case True
    then show ?thesis by (simp add: decimal.simps [of n] digits_value_def)
  next
    case False
    have "10 * (n div 10) + n mod 10 = n" by simp
    with 1 [OF False] False show ?thesis
      by (simp add: decimal.simps [of n] digits_value_snoc)
  qed
qed

lemma parse_uint_decimal: "n \<le> m \<Longrightarrow> parse_uint m (decimal n) = Some n"
proof -
  assume n: "n \<le> m"
  obtain c cs where c: "decimal n = c # cs" "c \<noteq> 43" using decimal_digits [of n] by (cases "decimal n") auto
  have d: "list_all is_ascii_digit (c # cs)" "digits_value (map (\<lambda>c. c - 48) (c # cs)) = n"
    using decimal_digits [of n] decimal_value [of n] c by auto
  show ?thesis using d n c(2) by (simp add: parse_uint_def c(1) Let_def del: list.map)
qed

end
