(* ===== verification/CaptureTriggers.thy ===== *)
theory CaptureTriggers
  imports RustTime LinkerActor "HOL-Library.Product_Lexorder"
begin

text \<open>
  The pieces of \<open>screenpipe-engine/src/event_driven_capture.rs\<close> around the capture loop: the
  triggers and how a burst of them is reduced to one, the debounce and idle clocks, which
  monitor a trigger belongs to, and the throttles. The broadcast channel is the list of answers
  its receiver gives.
\<close>

section \<open>Triggers\<close>

datatype capture_trigger =
  AppSwitch rstr "(int \<times> int) option"
| WindowFocus rstr "(int \<times> int) option"
| Click int int
| TypingPause
| ScrollStop
| KeyPress
| Clipboard
| VisualChange
| IdleTrigger
| Manual

record trigger_msg =
  tm_trigger :: capture_trigger
  tm_corr :: "correlation_id option"

definition corr_list :: "trigger_msg \<Rightarrow> correlation_id list" where
  "corr_list m = (case tm_corr m of Some c \<Rightarrow> [c] | None \<Rightarrow> [])"

fun trigger_name :: "capture_trigger \<Rightarrow> rstr" where
  "trigger_name (AppSwitch _ _) = lit ''app_switch''"
| "trigger_name (WindowFocus _ _) = lit ''window_focus''"
| "trigger_name (Click _ _) = lit ''click''"
| "trigger_name TypingPause = lit ''typing_pause''"
| "trigger_name ScrollStop = lit ''scroll_stop''"
| "trigger_name KeyPress = lit ''key_press''"
| "trigger_name Clipboard = lit ''clipboard''"
| "trigger_name VisualChange = lit ''visual_change''"
| "trigger_name IdleTrigger = lit ''idle''"
| "trigger_name Manual = lit ''manual''"

fun target_point :: "capture_trigger \<Rightarrow> (int \<times> int) option" where
  "target_point (AppSwitch _ t) = t"
| "target_point (WindowFocus _ t) = t"
| "target_point (Click x y) = Some (x, y)"
| "target_point _ = None"

fun is_workflow_checkpoint_trigger :: "capture_trigger \<Rightarrow> bool" where
  "is_workflow_checkpoint_trigger (Click _ _) = False"
| "is_workflow_checkpoint_trigger VisualChange = False"
| "is_workflow_checkpoint_trigger _ = True"

fun bypasses_capture_throttles :: "capture_trigger \<Rightarrow> bool" where
  "bypasses_capture_throttles (Click _ _) = False"
| "bypasses_capture_throttles VisualChange = False"
| "bypasses_capture_throttles IdleTrigger = False"
| "bypasses_capture_throttles _ = True"

definition trigger_reduce_priority :: "capture_trigger \<Rightarrow> nat" where
  "trigger_reduce_priority t = (if is_workflow_checkpoint_trigger t then 2 else 1)"

section \<open>Reducing a burst\<close>

definition reduce_step ::
  "capture_trigger option \<times> correlation_id list \<Rightarrow> trigger_msg \<Rightarrow> capture_trigger option \<times> correlation_id list" where
  "reduce_step acc m =
     (let (trigger, ids) = acc;
          ids' = ids @ corr_list m;
          candidate = trigger_reduce_priority (tm_trigger m);
          current = (case trigger of Some t \<Rightarrow> trigger_reduce_priority t | None \<Rightarrow> 0)
      in if trigger = None \<or> current \<le> candidate then (Some (tm_trigger m), ids') else (trigger, ids'))"

definition reduce_drained_triggers :: "trigger_msg list \<Rightarrow> capture_trigger option \<times> correlation_id list" where
  "reduce_drained_triggers msgs = foldl reduce_step (None, []) msgs"

section \<open>The channel\<close>

datatype try_recv_answer = TryMsg trigger_msg | TryEmpty | TryClosed | TryLagged

fun drain_pending_corr_ids :: "try_recv_answer list \<Rightarrow> correlation_id list" where
  "drain_pending_corr_ids [] = []"
| "drain_pending_corr_ids (TryMsg m # rs) = corr_list m @ drain_pending_corr_ids rs"
| "drain_pending_corr_ids (TryEmpty # rs) = []"
| "drain_pending_corr_ids (TryClosed # rs) = []"
| "drain_pending_corr_ids (TryLagged # rs) = drain_pending_corr_ids rs"

text \<open>\<open>report_triggers_dropped\<close>: the message to the linker, when there is a linker and something to
  tell it. \<open>try_send\<close> never blocks; whether the linker's channel has room is not modelled.\<close>

definition report_triggers_dropped :: "bool \<Rightarrow> correlation_id list \<Rightarrow> drop_reason \<Rightarrow> linker_message list" where
  "report_triggers_dropped has_linker correlation_ids reason =
     (if \<not> has_linker then []
      else if correlation_ids = [] \<and> reason \<noteq> Lagged then []
      else [TriggerDropped correlation_ids reason])"

section \<open>Configuration and clocks\<close>

record capture_config =
  ec_min_capture_interval_ms :: nat
  ec_idle_capture_interval_ms :: nat
  ec_jpeg_quality :: nat
  ec_capture_on_click :: bool
  ec_capture_on_keystroke :: bool
  ec_capture_on_clipboard :: bool
  ec_visual_check_interval_ms :: nat
  ec_visual_change_threshold :: f64

definition default_capture_config :: capture_config where
  "default_capture_config = \<lparr>ec_min_capture_interval_ms = 200, ec_idle_capture_interval_ms = 30000,
     ec_jpeg_quality = 80, ec_capture_on_click = True, ec_capture_on_keystroke = True,
     ec_capture_on_clipboard = True, ec_visual_check_interval_ms = 3000,
     ec_visual_change_threshold = 5 / 100\<rparr>"

record event_capture =
  es_config :: capture_config
  es_last_capture :: instant
  es_last_idle_reference :: instant
  es_last_idle_ms :: nat

definition new_event_capture :: "instant \<Rightarrow> capture_config \<Rightarrow> event_capture" where
  "new_event_capture now c =
     \<lparr>es_config = c, es_last_capture = now, es_last_idle_reference = now, es_last_idle_ms = 0\<rparr>"

definition can_capture :: "instant \<Rightarrow> event_capture \<Rightarrow> bool" where
  "can_capture now s \<longleftrightarrow>
     from_millis (ec_min_capture_interval_ms (es_config s)) \<le> elapsed now (es_last_capture s)"

definition mark_captured :: "instant \<Rightarrow> event_capture \<Rightarrow> event_capture" where
  "mark_captured now s = s\<lparr>es_last_capture := now, es_last_idle_reference := now\<rparr>"

definition phase_next_idle_capture :: "instant \<Rightarrow> duration \<Rightarrow> event_capture \<Rightarrow> event_capture" where
  "phase_next_idle_capture now delay s =
     (let idle_interval = from_millis (ec_idle_capture_interval_ms (es_config s)) in
      s\<lparr>es_last_idle_reference :=
          (if idle_interval \<le> delay then now else back_dated now (idle_interval - delay))\<rparr>)"

definition needs_idle_capture :: "instant \<Rightarrow> event_capture \<Rightarrow> bool" where
  "needs_idle_capture now s \<longleftrightarrow>
     from_millis (ec_idle_capture_interval_ms (es_config s)) \<le> elapsed now (es_last_idle_reference s)"

definition poll_activity :: "instant \<Rightarrow> nat \<Rightarrow> event_capture \<Rightarrow> event_capture \<times> capture_trigger option" where
  "poll_activity now idle_ms s =
     (if needs_idle_capture now s then (s, Some IdleTrigger) else (s\<lparr>es_last_idle_ms := idle_ms\<rparr>, None))"

definition quiet_activity_window_ms :: "duration \<Rightarrow> nat" where
  "quiet_activity_window_ms visual_check_interval =
     min (min (as_millis visual_check_interval * 2) (2 ^ 128 - 1)) u64_max"

definition should_run_visual_check ::
  "capture_trigger option \<Rightarrow> bool \<Rightarrow> bool \<Rightarrow> bool \<Rightarrow> bool \<Rightarrow> duration \<Rightarrow> duration \<Rightarrow> nat \<Rightarrow> bool" where
  "should_run_visual_check trigger enabled can drm schedule since_check interval keyboard_idle_ms \<longleftrightarrow>
     trigger = None \<and> enabled \<and> can \<and> \<not> drm \<and> \<not> schedule \<and> interval \<le> since_check
     \<and> quiet_activity_window_ms interval \<le> keyboard_idle_ms"

definition should_release_on_pause_entry :: "bool \<Rightarrow> bool \<Rightarrow> bool" where
  "should_release_on_pause_entry was_paused is_paused \<longleftrightarrow> is_paused \<and> \<not> was_paused"

text \<open>\<open>dedup_applies\<close>.\<close>

definition dedup_applies :: "capture_trigger \<Rightarrow> bool \<Rightarrow> duration \<Rightarrow> bool" where
  "dedup_applies trigger hd_active since_last_db_write \<longleftrightarrow>
     \<not> hd_active \<and> \<not> is_workflow_checkpoint_trigger trigger \<and> since_last_db_write < from_secs 30"

section \<open>Monitors\<close>

record monitor =
  mo_id :: nat
  mo_x :: int
  mo_y :: int
  mo_width :: nat
  mo_height :: nat

type_synonym rect = "int \<times> int \<times> int \<times> int"

text \<open>\<open>u32 as i32\<close>.\<close>

definition u32_as_i32 :: "nat \<Rightarrow> int" where
  "u32_as_i32 n = (if n < 2 ^ 31 then int n else int n - 2 ^ 32)"

definition monitor_bounds :: "monitor \<Rightarrow> rect" where
  "monitor_bounds m =
     (mo_x m, mo_y m, saturating_add_i32 (mo_x m) (u32_as_i32 (mo_width m)),
      saturating_add_i32 (mo_y m) (u32_as_i32 (mo_height m)))"

definition point_in_bounds :: "rect \<Rightarrow> int \<Rightarrow> int \<Rightarrow> bool" where
  "point_in_bounds b x y = (case b of (l, t, r, d) \<Rightarrow> l \<le> x \<and> x < r \<and> t \<le> y \<and> y < d)"

definition trigger_applies_to_monitor :: "capture_trigger \<Rightarrow> monitor \<Rightarrow> rect list \<Rightarrow> bool" where
  "trigger_applies_to_monitor trigger m all_bounds =
     (case target_point trigger of
        None \<Rightarrow> True
      | Some (x, y) \<Rightarrow>
          if \<not> list_ex (\<lambda>b. point_in_bounds b x y) all_bounds then True
          else point_in_bounds (monitor_bounds m) x y)"

definition idle_phase_delay :: "monitor \<Rightarrow> monitor list \<Rightarrow> nat \<Rightarrow> duration" where
  "idle_phase_delay m ms idle_interval_ms =
     (let count = max (length ms) 1;
          ordered = sort_key (\<lambda>c. (mo_x c, mo_y c, mo_id c)) ms;
          index = (case position (\<lambda>c. mo_id c = mo_id m) ordered of Some i \<Rightarrow> i | None \<Rightarrow> mo_id m mod count);
          delay_ms = saturating_mul_u64 idle_interval_ms (index + 1) div count
      in from_millis (max delay_ms 1))"

section \<open>What the reduction keeps\<close>

lemma reduce_ids: "snd (foldl reduce_step acc msgs) = snd acc @ concat (map corr_list msgs)"
  by (induction msgs arbitrary: acc) (simp_all add: reduce_step_def Let_def case_prod_beta)

lemma reduce_trigger_in:
  "fst (foldl reduce_step acc msgs) = Some t \<Longrightarrow> fst acc = Some t \<or> t \<in> tm_trigger ` set msgs"
proof (induction msgs arbitrary: acc)
  case Nil
  then show ?case by simp
next
  case (Cons m ms)
  from Cons.IH [of "reduce_step acc m"] Cons.prems show ?case
    by (auto simp: reduce_step_def Let_def case_prod_beta split: if_splits)
qed

lemma reduce_None_iff: "fst (foldl reduce_step acc msgs) = None \<longleftrightarrow> fst acc = None \<and> msgs = []"
proof (induction msgs arbitrary: acc)
  case Nil
  then show ?case by simp
next
  case (Cons m ms)
  have "fst (reduce_step acc m) \<noteq> None"
    by (simp add: reduce_step_def Let_def case_prod_beta)
  with Cons.IH [of "reduce_step acc m"] show ?case by simp
qed

text \<open>The reduced trigger: the last checkpoint, or the last trigger when there is none.\<close>

definition last_checkpoint :: "trigger_msg list \<Rightarrow> capture_trigger option" where
  "last_checkpoint msgs =
     (let ts = map tm_trigger msgs; cs = filter is_workflow_checkpoint_trigger ts in
      if cs \<noteq> [] then Some (last cs) else if ts \<noteq> [] then Some (last ts) else None)"

lemma last_checkpoint_priority:
  "(case last_checkpoint ms of Some u \<Rightarrow> trigger_reduce_priority u | None \<Rightarrow> 0) =
     (if filter is_workflow_checkpoint_trigger (map tm_trigger ms) \<noteq> [] then 2 else if ms \<noteq> [] then 1 else 0)"
proof -
  define ts where "ts = map tm_trigger ms"
  have a: "is_workflow_checkpoint_trigger (last (filter is_workflow_checkpoint_trigger ts))"
    if "filter is_workflow_checkpoint_trigger ts \<noteq> []"
    using last_in_set [OF that] by simp
  have b: "\<not> is_workflow_checkpoint_trigger (last ts)"
    if "filter is_workflow_checkpoint_trigger ts = []" "ts \<noteq> []"
    using that last_in_set [OF that(2)] by (auto simp: filter_empty_conv)
  show ?thesis
    unfolding last_checkpoint_def Let_def ts_def [symmetric]
    using a b by (auto simp: trigger_reduce_priority_def ts_def)
qed

lemma last_checkpoint_snoc:
  "last_checkpoint (ms @ [m]) =
     (if is_workflow_checkpoint_trigger (tm_trigger m)
         \<or> filter is_workflow_checkpoint_trigger (map tm_trigger ms) = []
      then Some (tm_trigger m) else last_checkpoint ms)"
  by (simp add: last_checkpoint_def Let_def)

lemma last_checkpoint_None: "last_checkpoint ms = None \<longleftrightarrow> ms = []"
  by (auto simp: last_checkpoint_def Let_def)

lemma reduce_is_last_checkpoint: "reduce_drained_triggers msgs = (last_checkpoint msgs, concat (map corr_list msgs))"
proof -
  have "fst (reduce_drained_triggers msgs) = last_checkpoint msgs"
  proof (induction msgs rule: rev_induct)
    case Nil
    then show ?case by (simp add: reduce_drained_triggers_def last_checkpoint_def)
  next
    case (snoc m ms)
    have "fst (reduce_drained_triggers (ms @ [m])) = fst (reduce_step (reduce_drained_triggers ms) m)"
      by (simp add: reduce_drained_triggers_def)
    also have "\<dots> = (if last_checkpoint ms = None
          \<or> (case last_checkpoint ms of Some u \<Rightarrow> trigger_reduce_priority u | None \<Rightarrow> 0) \<le> trigger_reduce_priority (tm_trigger m)
        then Some (tm_trigger m) else last_checkpoint ms)"
      by (simp add: reduce_step_def Let_def case_prod_beta snoc.IH)
    also have "\<dots> = last_checkpoint (ms @ [m])"
      unfolding last_checkpoint_priority last_checkpoint_snoc last_checkpoint_None
      by (simp add: trigger_reduce_priority_def)
    finally show ?case .
  qed
  moreover have "snd (reduce_drained_triggers msgs) = concat (map corr_list msgs)"
    by (simp add: reduce_drained_triggers_def reduce_ids)
  ultimately show ?thesis by (metis prod.collapse)
qed

end
