(* ===== verification/WalkBudget.thy ===== *)
theory WalkBudget
  imports RustTime
begin

text \<open>
  \<open>screenpipe-a11y/src/budget.rs\<close>: how often the accessibility tree of an app may be walked,
  from what its recent walks cost. The \<open>HashMap\<close> of apps is a map, the clock is an argument.
\<close>

section \<open>The cost of one app\<close>

datatype walk_tier = Light | Moderate | Heavy | CriticalTier

record walk_decision =
  wd_walk :: bool
  wd_max_nodes :: nat
  wd_timeout :: duration
  wd_tier :: walk_tier

record app_cost =
  ac_durations :: "duration list"
  ac_truncations :: nat
  ac_last_walk :: instant
  ac_tier :: walk_tier

definition WINDOW_SIZE :: nat where "WINDOW_SIZE = 8"
definition MODERATE_THRESHOLD :: duration where "MODERATE_THRESHOLD = from_millis 50"
definition HEAVY_THRESHOLD :: duration where "HEAVY_THRESHOLD = from_millis 150"
definition CRITICAL_THRESHOLD :: duration where "CRITICAL_THRESHOLD = from_millis 250"
definition TRUNCATION_ESCALATE_FRACTION :: nat where "TRUNCATION_ESCALATE_FRACTION = 3"

definition new_cost :: "instant \<Rightarrow> app_cost" where
  "new_cost now = \<lparr>ac_durations = [], ac_truncations = 0, ac_last_walk = back_dated now (from_secs 600),
     ac_tier = Light\<rparr>"

definition avg_duration :: "duration list \<Rightarrow> duration" where
  "avg_duration ds = (if ds = [] then 0 else sum_list ds div length ds)"

definition compute_tier :: "duration list \<Rightarrow> nat \<Rightarrow> walk_tier" where
  "compute_tier ds truncations =
     (if TRUNCATION_ESCALATE_FRACTION \<le> truncations then CriticalTier
      else let avg = avg_duration ds in
           if CRITICAL_THRESHOLD \<le> avg then CriticalTier
           else if HEAVY_THRESHOLD \<le> avg then Heavy
           else if MODERATE_THRESHOLD \<le> avg then Moderate
           else Light)"

definition record_cost :: "instant \<Rightarrow> duration \<Rightarrow> bool \<Rightarrow> app_cost \<Rightarrow> app_cost" where
  "record_cost now duration truncated c =
     (let (ds, tr) = (if WINDOW_SIZE \<le> length (ac_durations c)
                      then (tl (ac_durations c), ac_truncations c - 1)
                      else (ac_durations c, ac_truncations c));
          ds' = ds @ [duration];
          tr' = (if truncated then tr + 1 else tr)
      in c\<lparr>ac_durations := ds', ac_truncations := tr', ac_last_walk := now, ac_tier := compute_tier ds' tr'\<rparr>)"

definition maybe_decay :: "instant \<Rightarrow> app_cost \<Rightarrow> app_cost" where
  "maybe_decay now c =
     (if from_secs 30 < elapsed now (ac_last_walk c) \<and> ac_tier c \<noteq> Light \<and> 2 < length (ac_durations c)
      then let ds = drop (length (ac_durations c) div 2) (ac_durations c); tr = ac_truncations c - 2
           in c\<lparr>ac_durations := ds, ac_truncations := tr, ac_tier := compute_tier ds tr\<rparr>
      else c)"

section \<open>The budget of all apps\<close>

type_synonym walk_budget = "rstr \<rightharpoonup> app_cost"

fun tier_limits :: "walk_tier \<Rightarrow> duration \<times> nat \<times> duration" where
  "tier_limits Light = (from_millis 200, 5000, from_millis 250)"
| "tier_limits Moderate = (from_secs 2, 2000, from_millis 200)"
| "tier_limits Heavy = (from_secs 5, 1000, from_millis 150)"
| "tier_limits CriticalTier = (from_secs 60, 500, from_millis 100)"

definition cost_of :: "instant \<Rightarrow> rstr \<Rightarrow> walk_budget \<Rightarrow> app_cost" where
  "cost_of now app b = (case b app of Some c \<Rightarrow> c | None \<Rightarrow> new_cost now)"

definition should_walk :: "instant \<Rightarrow> rstr \<Rightarrow> walk_budget \<Rightarrow> walk_budget \<times> walk_decision" where
  "should_walk now app b =
     (let c = maybe_decay now (cost_of now app b);
          (min_interval, max_nodes, timeout) = tier_limits (ac_tier c)
      in (b(app \<mapsto> c),
          \<lparr>wd_walk = (min_interval \<le> elapsed now (ac_last_walk c)), wd_max_nodes = max_nodes,
           wd_timeout = timeout, wd_tier = ac_tier c\<rparr>))"

definition record_walk :: "instant \<Rightarrow> rstr \<Rightarrow> duration \<Rightarrow> bool \<Rightarrow> walk_budget \<Rightarrow> walk_budget" where
  "record_walk now app duration truncated b =
     b(app \<mapsto> record_cost now duration truncated (cost_of now app b))"

section \<open>Traces\<close>

text \<open>The calls of a capture loop on its budget, each at its instant.\<close>

datatype budget_call = ShouldWalk rstr | RecordWalk rstr duration bool

fun budget_step :: "instant \<times> budget_call \<Rightarrow> walk_budget \<Rightarrow> walk_budget" where
  "budget_step (now, ShouldWalk a) b = fst (should_walk now a b)"
| "budget_step (now, RecordWalk a d t) b = record_walk now a d t b"

text \<open>What every entry satisfies: a window of at most eight walks, and the tier is the one computed
  from the window and the truncation count.\<close>

definition cost_ok :: "app_cost \<Rightarrow> bool" where
  "cost_ok c \<longleftrightarrow> length (ac_durations c) \<le> WINDOW_SIZE
     \<and> ac_tier c = compute_tier (ac_durations c) (ac_truncations c)"

lemma compute_tier_Nil: "compute_tier [] 0 = Light"
  by (simp add: compute_tier_def avg_duration_def TRUNCATION_ESCALATE_FRACTION_def
      CRITICAL_THRESHOLD_def HEAVY_THRESHOLD_def MODERATE_THRESHOLD_def from_millis_def)

lemma cost_ok_new [capture_simps]: "cost_ok (new_cost now)"
  by (simp add: cost_ok_def new_cost_def compute_tier_Nil)

lemma cost_ok_record [capture_simps]: "cost_ok c \<Longrightarrow> cost_ok (record_cost now d t c)"
  by (auto simp: cost_ok_def record_cost_def Let_def WINDOW_SIZE_def)

lemma cost_ok_decay [capture_simps]: "cost_ok c \<Longrightarrow> cost_ok (maybe_decay now c)"
  by (auto simp: cost_ok_def maybe_decay_def Let_def)

end
