(* ===== verification/WindowPattern.thy ===== *)
theory WindowPattern
  imports RustText
begin

text \<open>
  \<open>screenpipe-core/src/window_pattern.rs\<close>: the patterns by which a user excludes or includes
  windows, optionally scoped to an app. \<open>low\<close> is Unicode lowercasing (\<open>str::to_lowercase\<close>).
\<close>

section \<open>Patterns\<close>

record window_pattern =
  wp_app :: "rstr option"
  wp_title :: rstr

text \<open>\<open>str::split_once\<close>: the parts before and after the leftmost occurrence.\<close>

definition split_once :: "rstr \<Rightarrow> rstr \<Rightarrow> (rstr \<times> rstr) option" where
  "split_once sep s = map_option (\<lambda>i. (take i s, drop (i + length sep) s)) (find_str s sep)"

definition parse_pattern :: "(rstr \<Rightarrow> rstr) \<Rightarrow> rstr \<Rightarrow> window_pattern option" where
  "parse_pattern low raw =
     (let trimmed = trim raw in
      if trimmed = [] then None
      else case split_once (lit ''::'') trimmed of
        Some (app_raw, title_raw) \<Rightarrow>
          (let app = low (trim app_raw); title = low (trim title_raw) in
           if app = [] \<and> title = [] then None
           else Some \<lparr>wp_app = (if app = [] then None else Some app), wp_title = title\<rparr>)
      | None \<Rightarrow> Some \<lparr>wp_app = None, wp_title = low trimmed\<rparr>)"

definition parse_list :: "(rstr \<Rightarrow> rstr) \<Rightarrow> rstr list \<Rightarrow> window_pattern list" where
  "parse_list low raw = List.map_filter (parse_pattern low) raw"

definition is_scoped :: "window_pattern \<Rightarrow> bool" where
  "is_scoped p \<longleftrightarrow> wp_app p \<noteq> None"

definition pattern_matches :: "window_pattern \<Rightarrow> rstr \<Rightarrow> rstr \<Rightarrow> bool" where
  "pattern_matches p app_lc title_lc =
     (case wp_app p of
        Some app_constraint \<Rightarrow>
          if \<not> contains_str app_lc app_constraint then False
          else if wp_title p = [] then True
          else contains_str title_lc (wp_title p)
      | None \<Rightarrow>
          if wp_title p = [] then False
          else contains_str app_lc (wp_title p) \<or> contains_str title_lc (wp_title p))"

definition matches_any :: "window_pattern list \<Rightarrow> rstr \<Rightarrow> rstr \<Rightarrow> bool" where
  "matches_any ps app_lc title_lc = list_ex (\<lambda>p. pattern_matches p app_lc title_lc) ps"

section \<open>Include lists\<close>

text \<open>The four bits the single pass keeps.\<close>

record include_bits =
  has_app_scoped :: bool
  app_scoped_matched :: bool
  has_global :: bool
  global_matched :: bool

definition include_step :: "rstr \<Rightarrow> rstr \<Rightarrow> include_bits \<Rightarrow> window_pattern \<Rightarrow> include_bits" where
  "include_step app_lc title_lc b p =
     (case wp_app p of
        Some app_constraint \<Rightarrow>
          if contains_str app_lc app_constraint then
            (let b1 = b\<lparr>has_app_scoped := True\<rparr> in
             if \<not> app_scoped_matched b1 \<and> (wp_title p = [] \<or> contains_str title_lc (wp_title p))
             then b1\<lparr>app_scoped_matched := True\<rparr> else b1)
          else b
      | None \<Rightarrow>
          (let b1 = b\<lparr>has_global := True\<rparr> in
           if \<not> global_matched b1 \<and> (contains_str app_lc (wp_title p) \<or> contains_str title_lc (wp_title p))
           then b1\<lparr>global_matched := True\<rparr> else b1))"

definition passes_includes :: "window_pattern list \<Rightarrow> rstr \<Rightarrow> rstr \<Rightarrow> bool" where
  "passes_includes ps app_lc title_lc =
     (if ps = [] then True
      else let b = foldl (include_step app_lc title_lc)
                     \<lparr>has_app_scoped = False, app_scoped_matched = False, has_global = False, global_matched = False\<rparr> ps
           in if has_app_scoped b then app_scoped_matched b
              else if has_global b then global_matched b
              else True)"

section \<open>What the single pass computes\<close>

definition targets :: "rstr \<Rightarrow> window_pattern \<Rightarrow> bool" where
  "targets app_lc p \<longleftrightarrow> (case wp_app p of Some a \<Rightarrow> contains_str app_lc a | None \<Rightarrow> False)"

lemma include_fold:
  "foldl (include_step app t) b ps =
     \<lparr>has_app_scoped = (has_app_scoped b \<or> list_ex (targets app) ps),
      app_scoped_matched = (app_scoped_matched b
        \<or> list_ex (\<lambda>p. targets app p \<and> (wp_title p = [] \<or> contains_str t (wp_title p))) ps),
      has_global = (has_global b \<or> list_ex (\<lambda>p. wp_app p = None) ps),
      global_matched = (global_matched b
        \<or> list_ex (\<lambda>p. wp_app p = None \<and> (contains_str app (wp_title p) \<or> contains_str t (wp_title p))) ps)\<rparr>"
proof (induction ps arbitrary: b)
  case Nil
  then show ?case by simp
next
  case (Cons p ps)
  then show ?case
    by (cases b) (auto simp: include_step_def targets_def Let_def split: option.splits)
qed

text \<open>\<open>parse\<close> never yields an empty legacy pattern, so on parsed lists an include of a window is the
  match of a pattern of its group.\<close>

lemma parse_pattern_cases:
  assumes "parse_pattern low raw = Some p"
  shows "trim raw \<noteq> []"
    "split_once (lit ''::'') (trim raw) = None \<Longrightarrow> p = \<lparr>wp_app = None, wp_title = low (trim raw)\<rparr>"
    "split_once (lit ''::'') (trim raw) = Some (a, t) \<Longrightarrow>
       \<not> (low (trim a) = [] \<and> low (trim t) = [])
       \<and> p = \<lparr>wp_app = (if low (trim a) = [] then None else Some (low (trim a))), wp_title = low (trim t)\<rparr>"
  using assms unfolding parse_pattern_def Let_def
  by (simp_all split: if_split_asm)

lemma parse_pattern_title:
  assumes "parse_pattern low raw = Some p" "wp_app p = None" and low: "low (trim raw) \<noteq> []"
  shows "wp_title p \<noteq> []"
proof (cases "split_once (lit ''::'') (trim raw)")
  case None
  from parse_pattern_cases(2) [OF assms(1) None] low show ?thesis by simp
next
  case (Some at)
  obtain a t where at: "at = (a, t)" by (cases at)
  with Some have "split_once (lit ''::'') (trim raw) = Some (a, t)" by simp
  from parse_pattern_cases(3) [OF assms(1) this] assms(2) show ?thesis
    by (simp split: if_split_asm)
qed

lemma contains_str_Nil [simp]: "contains_str s []"
  by (cases s) (auto simp: contains_str_def)

lemma passes_includes_iff:
  "passes_includes ps app t =
     (if ps = [] then True
      else if list_ex (targets app) ps
      then list_ex (\<lambda>p. targets app p \<and> (wp_title p = [] \<or> contains_str t (wp_title p))) ps
      else if list_ex (\<lambda>p. wp_app p = None) ps
      then list_ex (\<lambda>p. wp_app p = None \<and> (contains_str app (wp_title p) \<or> contains_str t (wp_title p))) ps
      else True)"
  by (simp add: passes_includes_def include_fold Let_def)

end
