(* ===== verification/DrmGate.thy ===== *)
theory DrmGate
  imports RustTime
begin

text \<open>
  The gates in front of a capture: \<open>screenpipe-engine/src/drm_detector.rs\<close> (protected content in
  the foreground), \<open>schedule_monitor.rs\<close> (outside the user's working hours) and the lock flag of
  \<open>sleep_monitor.rs\<close>. The three global flags are one record. What the accessibility and window
  list APIs answer is data; \<open>low\<close> is Unicode lowercasing.
\<close>

section \<open>Flags\<close>

record gate_flags =
  gf_drm :: bool
  gf_locked :: bool
  gf_schedule :: bool

definition set_drm_paused :: "bool \<Rightarrow> gate_flags \<Rightarrow> gate_flags" where
  "set_drm_paused paused g = g\<lparr>gf_drm := paused\<rparr>"

definition set_screen_locked :: "bool \<Rightarrow> gate_flags \<Rightarrow> gate_flags" where
  "set_screen_locked locked g = g\<lparr>gf_locked := locked\<rparr>"

section \<open>Protected apps and pages\<close>

definition DRM_APPS :: "rstr list" where
  "DRM_APPS = [lit ''netflix'', lit ''disney+'', lit ''hulu'', lit ''prime video'', lit ''apple tv'',
     lit ''peacock'', lit ''paramount+'', lit ''hbo max'', lit ''max'', lit ''crunchyroll'', lit ''dazn'',
     lit ''horizon client'']"

definition is_drm_app :: "(rstr \<Rightarrow> rstr) \<Rightarrow> rstr \<Rightarrow> bool" where
  "is_drm_app low app_name =
     (let lower = low app_name in
      list_ex (\<lambda>drm. if drm = lit ''max'' then lower = lit ''max'' else contains_str lower drm) DRM_APPS)"

definition DRM_DOMAINS :: "rstr list" where
  "DRM_DOMAINS = [lit ''netflix.com'', lit ''disneyplus.com'', lit ''hulu.com'', lit ''primevideo.com'',
     lit ''tv.apple.com'', lit ''peacocktv.com'', lit ''paramountplus.com'', lit ''play.max.com'',
     lit ''crunchyroll.com'', lit ''dazn.com'']"

definition DRM_URL_PATHS :: "(rstr \<times> rstr) list" where
  "DRM_URL_PATHS = [(lit ''amazon.com'', lit ''/gp/video/'')]"

text \<open>The text without the first of the given prefixes it starts with.\<close>

definition without_prefix :: "rstr \<Rightarrow> rstr \<Rightarrow> rstr" where
  "without_prefix p s = (case strip_prefix p s of Some t \<Rightarrow> t | None \<Rightarrow> s)"

definition url_normalized :: "rstr \<Rightarrow> rstr" where
  "url_normalized lower =
     without_prefix (lit ''www.'')
       (case strip_prefix (lit ''https://'') lower of
          Some t \<Rightarrow> t | None \<Rightarrow> without_prefix (lit ''http://'') lower)"

definition host_matches :: "rstr \<Rightarrow> rstr \<Rightarrow> bool" where
  "host_matches host domain \<longleftrightarrow>
     host = domain
     \<or> (ends_with host domain \<and> ends_with (take (length host - length domain) host) (lit ''.''))"

definition is_drm_url :: "(rstr \<Rightarrow> rstr) \<Rightarrow> rstr \<Rightarrow> bool" where
  "is_drm_url low url =
     (let normalized = url_normalized (low url); host = hd (split_byte 47 normalized) in
      list_ex (host_matches host) DRM_DOMAINS
      \<or> list_ex (\<lambda>(domain, path). starts_with normalized domain
            \<and> starts_with (drop (length domain) normalized) path) DRM_URL_PATHS)"

definition is_drm_content :: "(rstr \<Rightarrow> rstr) \<Rightarrow> rstr \<Rightarrow> rstr option \<Rightarrow> bool" where
  "is_drm_content low app_name url \<longleftrightarrow>
     is_drm_app low app_name \<or> (case url of Some u \<Rightarrow> is_drm_url low u | None \<Rightarrow> False)"

definition check_and_update_drm_state ::
  "(rstr \<Rightarrow> rstr) \<Rightarrow> bool \<Rightarrow> rstr option \<Rightarrow> rstr option \<Rightarrow> gate_flags \<Rightarrow> gate_flags \<times> bool" where
  "check_and_update_drm_state low pause_on_drm_content app_name browser_url g =
     (if \<not> pause_on_drm_content
      then (if gf_drm g then (set_drm_paused False g, False) else (g, False))
      else let app = (case app_name of Some a \<Rightarrow> a | None \<Rightarrow> []) in
           if is_drm_content low app browser_url then (set_drm_paused True g, True)
           else if app \<noteq> [] then (set_drm_paused False g, False)
           else (g, gf_drm g))"

section \<open>The focused app (macOS)\<close>

definition BROWSER_APPS :: "rstr list" where
  "BROWSER_APPS = [lit ''arc'', lit ''google chrome'', lit ''chrome'', lit ''safari'', lit ''firefox'',
     lit ''microsoft edge'', lit ''edge'', lit ''brave browser'', lit ''brave'', lit ''opera'',
     lit ''vivaldi'', lit ''chromium'', lit ''zen browser'', lit ''orion'', lit ''comet'']"

definition is_browser :: "(rstr \<Rightarrow> rstr) \<Rightarrow> rstr \<Rightarrow> bool" where
  "is_browser low app_name = list_ex (\<lambda>b. contains_str (low app_name) b) BROWSER_APPS"

text \<open>What the accessibility API answers for the focused app: its name, its focused window when
  there is one (title and document attribute), and what the two AppleScripts print.\<close>

record focused_app =
  fa_name :: "rstr option"
  fa_window :: bool
  fa_title :: "rstr option"
  fa_document :: "rstr option"
  fa_safari :: "rstr option"
  fa_arc :: "rstr option"

definition is_http :: "rstr \<Rightarrow> bool" where
  "is_http u \<longleftrightarrow> starts_with u (lit ''http://'') \<or> starts_with u (lit ''https://'')"

definition http_only :: "rstr option \<Rightarrow> rstr option" where
  "http_only u = (case u of Some x \<Rightarrow> if is_http x then Some x else None | None \<Rightarrow> None)"

definition get_browser_url_ax :: "(rstr \<Rightarrow> rstr) \<Rightarrow> focused_app \<Rightarrow> rstr \<Rightarrow> rstr option" where
  "get_browser_url_ax low f app_name =
     (if \<not> fa_window f then None
      else case http_only (fa_document f) of
        Some u \<Rightarrow> Some u
      | None \<Rightarrow>
          if contains_str (low app_name) (lit ''safari'') then http_only (map_option trim (fa_safari f))
          else if contains_str (low app_name) (lit ''arc'') then http_only (map_option trim (fa_arc f))
          else None)"

definition TITLE_ALIASES :: "(rstr \<times> rstr) list" where
  "TITLE_ALIASES = [(lit ''disney+'', lit ''disneyplus.com''), (lit ''disney plus'', lit ''disneyplus.com''),
     (lit ''hbo max'', lit ''play.max.com'')]"

text \<open>The base name of a domain: what comes before its first dot.\<close>

definition domain_base :: "rstr \<Rightarrow> rstr" where
  "domain_base d = hd (split_byte 46 d)"

definition title_domain :: "rstr \<Rightarrow> rstr option" where
  "title_domain title_lower =
     (case find (\<lambda>(keyword, d). contains_str title_lower keyword) TITLE_ALIASES of
        Some (keyword, d) \<Rightarrow> Some d
      | None \<Rightarrow> find (\<lambda>d. contains_str title_lower (domain_base d)) DRM_DOMAINS)"

definition get_drm_url_from_window_title :: "(rstr \<Rightarrow> rstr) \<Rightarrow> focused_app \<Rightarrow> rstr option" where
  "get_drm_url_from_window_title low f =
     (if \<not> fa_window f then None
      else case fa_title f of
        None \<Rightarrow> None
      | Some t \<Rightarrow> map_option (\<lambda>d. lit ''https://'' @ d) (title_domain (low t)))"

definition get_focused_app_info :: "(rstr \<Rightarrow> rstr) \<Rightarrow> focused_app option \<Rightarrow> (rstr \<times> rstr option) option" where
  "get_focused_app_info low f =
     (case f of
        None \<Rightarrow> None
      | Some a \<Rightarrow>
          (case fa_name a of
             None \<Rightarrow> None
           | Some name \<Rightarrow>
               Some (name,
                 if is_browser low name
                 then (case get_browser_url_ax low a name of
                         Some u \<Rightarrow> Some u | None \<Rightarrow> get_drm_url_from_window_title low a)
                 else None)))"

text \<open>The query may panic (\<open>catch_unwind\<close>): then there is no answer.\<close>

datatype app_query = Panicked | Answered "focused_app option"

definition pre_capture_blocks :: "(rstr \<Rightarrow> rstr) \<Rightarrow> rstr option \<Rightarrow> app_query \<Rightarrow> bool" where
  "pre_capture_blocks low trigger_app_name query =
     (case trigger_app_name of
        Some app \<Rightarrow>
          if is_drm_app low app then True
          else if is_browser low app
          then (case query of
                  Panicked \<Rightarrow> False
                | Answered f \<Rightarrow>
                    (case get_focused_app_info low f of
                       Some (name, Some u) \<Rightarrow> is_drm_url low u
                     | _ \<Rightarrow> False))
          else False
      | None \<Rightarrow>
          (case query of
             Panicked \<Rightarrow> False
           | Answered f \<Rightarrow>
               (case get_focused_app_info low f of
                  Some (name, url) \<Rightarrow> is_drm_content low name url
                | None \<Rightarrow> False)))"

definition pre_capture_drm_check_macos ::
  "(rstr \<Rightarrow> rstr) \<Rightarrow> bool \<Rightarrow> rstr option \<Rightarrow> app_query \<Rightarrow> gate_flags \<Rightarrow> gate_flags \<times> bool" where
  "pre_capture_drm_check_macos low pause_on_drm_content trigger_app_name query g =
     (if \<not> pause_on_drm_content then (g, False)
      else if gf_drm g then (g, True)
      else if pre_capture_blocks low trigger_app_name query then (set_drm_paused True g, True)
      else (g, False))"

definition pre_capture_drm_check_other :: "gate_flags \<Rightarrow> gate_flags \<times> bool" where
  "pre_capture_drm_check_other g = (g, False)"

section \<open>Leaving the pause\<close>

text \<open>A window of the window list: its layer, owner and name, each when the list has it.\<close>

record screen_window =
  sw_layer :: "int option"
  sw_owner :: "rstr option"
  sw_name :: "rstr option"

definition window_is_drm :: "(rstr \<Rightarrow> rstr) \<Rightarrow> screen_window \<Rightarrow> bool" where
  "window_is_drm low w =
     (if (case sw_layer w of Some l \<Rightarrow> l \<noteq> 0 | None \<Rightarrow> False) then False
      else case sw_owner w of
        None \<Rightarrow> False
      | Some owner \<Rightarrow>
          is_drm_app low owner
          \<or> (is_browser low owner
             \<and> (case sw_name w of
                  Some n \<Rightarrow> list_ex (\<lambda>d. contains_str (low n) (domain_base d)) DRM_DOMAINS
                | None \<Rightarrow> False)))"

definition any_drm_window_on_screen :: "(rstr \<Rightarrow> rstr) \<Rightarrow> screen_window list option \<Rightarrow> bool" where
  "any_drm_window_on_screen low ws =
     (case ws of None \<Rightarrow> False | Some xs \<Rightarrow> list_ex (window_is_drm low) xs)"

definition poll_drm_clear_macos ::
  "(rstr \<Rightarrow> rstr) \<Rightarrow> app_query \<Rightarrow> screen_window list option \<Rightarrow> gate_flags \<Rightarrow> gate_flags \<times> bool" where
  "poll_drm_clear_macos low query ws g =
     (case query of
        Panicked \<Rightarrow> (g, True)
      | Answered f \<Rightarrow>
          (case get_focused_app_info low f of
             None \<Rightarrow> (g, True)
           | Some (app_name, url) \<Rightarrow>
               if is_drm_app low app_name then (g, True)
               else if is_browser low app_name
                       \<and> (case url of Some u \<Rightarrow> is_drm_url low u | None \<Rightarrow> False) then (g, True)
               else if any_drm_window_on_screen low ws then (g, True)
               else (set_drm_paused False g, False)))"

definition poll_drm_clear_other :: "gate_flags \<Rightarrow> gate_flags \<times> bool" where
  "poll_drm_clear_other g = (set_drm_paused False g, False)"

section \<open>Working hours (schedule\_monitor.rs)\<close>

record schedule_rule =
  ru_day :: nat
  ru_start :: rstr
  ru_end :: rstr
  ru_mode :: rstr

text \<open>The local time as the code reads it: the day of the week from Monday, and \<open>%H:%M\<close>.\<close>

definition hh_mm :: "nat \<Rightarrow> nat \<Rightarrow> rstr" where
  "hh_mm h m = [48 + h div 10, 48 + h mod 10, 58, 48 + m div 10, 48 + m mod 10]"

definition rule_covers :: "rstr \<Rightarrow> schedule_rule \<Rightarrow> bool" where
  "rule_covers current_time r \<longleftrightarrow> str_le (ru_start r) current_time \<and> str_less current_time (ru_end r)"

definition is_within_schedule :: "schedule_rule list \<Rightarrow> nat \<Rightarrow> rstr \<Rightarrow> bool" where
  "is_within_schedule rules day current_time =
     (let day_rules = filter (\<lambda>r. ru_day r = day) rules in
      if day_rules = [] then False else list_ex (rule_covers current_time) day_rules)"

definition current_record_mode :: "schedule_rule list \<Rightarrow> nat \<Rightarrow> rstr \<Rightarrow> rstr option" where
  "current_record_mode rules day current_time =
     map_option ru_mode (find (\<lambda>r. ru_day r = day \<and> rule_covers current_time r) rules)"

definition schedule_tick :: "schedule_rule list \<Rightarrow> nat \<Rightarrow> rstr \<Rightarrow> gate_flags \<Rightarrow> gate_flags" where
  "schedule_tick rules day current_time g = g\<lparr>gf_schedule := \<not> is_within_schedule rules day current_time\<rparr>"

definition reset_schedule_paused :: "gate_flags \<Rightarrow> gate_flags" where
  "reset_schedule_paused g = g\<lparr>gf_schedule := False\<rparr>"

end
