(* ===== verification/PairedCapture.thy ===== *)
theory PairedCapture
  imports RustTime
begin

text \<open>
  \<open>screenpipe-capture/src/paired_capture.rs\<close>: from a screenshot and an accessibility snapshot to
  the row that is inserted into the database. OCR, the JPEG writer, JSON, hashing, the removal of
  personal data and the insertion itself are arguments of the model; which of their results
  reach the row, and in which form, is the code's.
\<close>

section \<open>Snapshots\<close>

record tree_node =
  tn_role :: rstr
  tn_text :: rstr

record tree_snapshot =
  ts_app :: rstr
  ts_window :: rstr
  ts_text :: rstr
  ts_nodes :: "tree_node list"
  ts_url :: "rstr option"
  ts_document :: "rstr option"
  ts_walk_duration :: duration
  ts_content_hash :: nat
  ts_simhash :: nat
  ts_truncated :: bool

text \<open>\<open>u64 as i64\<close>.\<close>

definition u64_as_i64 :: "nat \<Rightarrow> int" where
  "u64_as_i64 n = (if n < 2 ^ 63 then int n else int n - 2 ^ 64)"

record capture_context =
  cx_app :: "rstr option"
  cx_window :: "rstr option"
  cx_url :: "rstr option"
  cx_document :: "rstr option"
  cx_trigger :: rstr
  cx_pii_removal :: bool
  cx_elements_ref :: "int option"
  cx_screenshot_disabled :: bool

record capture_result =
  cr_frame_id :: int
  cr_snapshot_path :: rstr
  cr_text :: "rstr option"
  cr_text_source :: "rstr option"
  cr_app :: "rstr option"
  cr_window :: "rstr option"
  cr_url :: "rstr option"
  cr_content_hash :: "int option"

text \<open>The row the database is asked to insert.\<close>

record frame_row =
  fr_path :: rstr
  fr_app :: "rstr option"
  fr_window :: "rstr option"
  fr_url :: "rstr option"
  fr_document :: "rstr option"
  fr_trigger :: rstr
  fr_text :: "rstr option"
  fr_source :: "rstr option"
  fr_tree_json :: "rstr option"
  fr_hash :: "int option"
  fr_simhash :: "int option"
  fr_ocr :: "(rstr \<times> rstr) option"
  fr_elements_ref :: "int option"

section \<open>Thin accessibility text\<close>

definition CANVAS_APP_PATTERNS :: "rstr list" where
  "CANVAS_APP_PATTERNS = [lit ''google docs'', lit ''google sheets'', lit ''google slides'',
     lit ''google drawings'', lit ''figma'', lit ''excalidraw'', lit ''miro'', lit ''canva'', lit ''tldraw'']"

definition MEETING_APP_PATTERNS :: "rstr list" where
  "MEETING_APP_PATTERNS = [lit ''zoom'', lit ''teams'', lit ''slack'', lit ''webex'', lit ''skype'',
     lit ''facetime'', lit ''google meet'', lit ''discord'', lit ''around'', lit ''tuple'', lit ''pop'',
     lit ''gather'', lit ''butter'', lit ''ringcentral'', lit ''bluejeans'', lit ''gotomeeting'',
     lit ''goto meeting'', lit ''dialpad'', lit ''chime'', lit ''jitsi'', lit ''whereby'', lit ''loom'',
     lit ''riverside'']"

definition MEETING_URL_PATTERNS :: "rstr list" where
  "MEETING_URL_PATTERNS = [lit ''meet.google.com'', lit ''zoom.us/wc'', lit ''zoom.us/j'',
     lit ''app.zoom.us/wc'', lit ''teams.microsoft.com'', lit ''teams.live.com'', lit ''webex.com/meet'',
     lit ''.webex.com/meet'', lit ''meet.jit.si'', lit ''whereby.com'', lit ''riverside.fm/studio'']"

definition CANVAS_URL_PATTERNS :: "rstr list" where
  "CANVAS_URL_PATTERNS = [lit ''docs.google.com'', lit ''sheets.google.com'', lit ''slides.google.com'',
     lit ''figma.com'', lit ''excalidraw.com'', lit ''miro.com'', lit ''tldraw.com'']"

definition CHROME_ROLES :: "rstr list" where
  "CHROME_ROLES = [lit ''AXButton'', lit ''AXMenuItem'', lit ''AXMenuBar'', lit ''AXMenu'', lit ''AXToolbar'',
     lit ''AXTabGroup'', lit ''AXTab'', lit ''AXPopUpButton'', lit ''AXCheckBox'', lit ''AXRadioButton'',
     lit ''AXDisclosureTriangle'', lit ''AXSlider'', lit ''AXIncrementor'', lit ''AXComboBox'', lit ''AXScrollBar'']"

definition contains_any :: "rstr \<Rightarrow> rstr list \<Rightarrow> bool" where
  "contains_any s ps = list_ex (contains_str s) ps"

text \<open>The counts of the density heuristic: bytes of content and bytes in all.\<close>

fun density :: "tree_node list \<Rightarrow> nat \<times> nat" where
  "density [] = (0, 0)"
| "density (n # ns) =
     (let (c, t) = density ns; len = length (tn_text n) in
      if len = 0 then (c, t)
      else (if tn_role n \<in> set CHROME_ROLES then c else c + len, t + len))"

definition is_known_thin :: "(rstr \<Rightarrow> rstr) \<Rightarrow> rstr option \<Rightarrow> rstr option \<Rightarrow> rstr option \<Rightarrow> bool" where
  "is_known_thin low window_name browser_url app_name \<longleftrightarrow>
     (case window_name of Some w \<Rightarrow> contains_any (low w) CANVAS_APP_PATTERNS | None \<Rightarrow> False)
     \<or> (case browser_url of
          Some u \<Rightarrow> contains_any (low u) CANVAS_URL_PATTERNS \<or> contains_any (low u) MEETING_URL_PATTERNS
        | None \<Rightarrow> False)
     \<or> (case app_name of Some a \<Rightarrow> contains_any (low a) MEETING_APP_PATTERNS | None \<Rightarrow> False)"

definition a11y_content_is_thin ::
  "(rstr \<Rightarrow> rstr) \<Rightarrow> tree_snapshot \<Rightarrow> rstr option \<Rightarrow> rstr option \<Rightarrow> rstr option \<Rightarrow> bool" where
  "a11y_content_is_thin low snap window_name browser_url app_name =
     (if is_known_thin low window_name browser_url app_name then True
      else let (content_chars, total_chars) = density (ts_nodes snap) in
           if total_chars < 100 then True else 10 * content_chars < 3 * total_chars)"

section \<open>Which text is stored\<close>

definition OCR_APPS :: "rstr list" where
  "OCR_APPS = [lit ''wezterm'', lit ''alacritty'', lit ''kitty'', lit ''hyper'', lit ''warp'']"

definition app_prefers_ocr :: "(rstr \<Rightarrow> rstr) \<Rightarrow> rstr option \<Rightarrow> bool" where
  "app_prefers_ocr low app = (case app of Some n \<Rightarrow> contains_any (low n) OCR_APPS | None \<Rightarrow> False)"

text \<open>The library the code calls: OCR (text and JSON of the boxes, empty when it fails), stripping
  of line-number gutters, hashing, JSON of the nodes, removal of personal data from a text and
  from the boxes.\<close>

record capture_lib =
  lb_low :: "rstr \<Rightarrow> rstr"
  lb_ocr :: "rstr \<times> rstr"
  lb_strip_gutter :: "rstr \<Rightarrow> rstr"
  lb_hash :: "rstr \<Rightarrow> nat"
  lb_nodes_json :: "tree_node list \<Rightarrow> rstr option"
  lb_remove_pii :: "rstr \<Rightarrow> rstr"
  lb_sanitize_json :: "rstr \<Rightarrow> rstr"

definition tree_has_text :: "tree_snapshot option \<Rightarrow> bool" where
  "tree_has_text snap = (case snap of Some s \<Rightarrow> ts_text s \<noteq> [] | None \<Rightarrow> False)"

definition has_accessibility_text :: "capture_lib \<Rightarrow> capture_context \<Rightarrow> tree_snapshot option \<Rightarrow> bool" where
  "has_accessibility_text lb cx snap \<longleftrightarrow> \<not> app_prefers_ocr (lb_low lb) (cx_app cx) \<and> tree_has_text snap"

definition is_thin :: "capture_lib \<Rightarrow> capture_context \<Rightarrow> tree_snapshot option \<Rightarrow> bool" where
  "is_thin lb cx snap \<longleftrightarrow> has_accessibility_text lb cx snap
     \<and> (case snap of Some s \<Rightarrow> a11y_content_is_thin (lb_low lb) s (cx_window cx) (cx_url cx) (cx_app cx)
        | None \<Rightarrow> False)"

definition run_ocr :: "capture_lib \<Rightarrow> capture_context \<Rightarrow> tree_snapshot option \<Rightarrow> rstr \<times> rstr" where
  "run_ocr lb cx snap =
     (if \<not> has_accessibility_text lb cx snap \<or> is_thin lb cx snap
      then (lb_strip_gutter lb (fst (lb_ocr lb)), snd (lb_ocr lb))
      else ([], lit ''[]''))"

text \<open>The text, the JSON of the tree, the content hash and the locality-sensitive hash.\<close>

definition ocr_choice :: "capture_lib \<Rightarrow> rstr \<Rightarrow> rstr option \<times> rstr option \<times> int option \<times> int option" where
  "ocr_choice lb ocr_text =
     (if ocr_text = [] then (None, None, None, None)
      else (Some ocr_text, None, Some (u64_as_i64 (lb_hash lb ocr_text)), None))"

definition choose_text ::
  "capture_lib \<Rightarrow> capture_context \<Rightarrow> tree_snapshot option \<Rightarrow> rstr \<Rightarrow>
   rstr option \<times> rstr option \<times> int option \<times> int option" where
  "choose_text lb cx snap ocr_text =
     (if app_prefers_ocr (lb_low lb) (cx_app cx) then ocr_choice lb ocr_text
      else case snap of
        Some s \<Rightarrow>
          if ts_text s \<noteq> []
          then (Some (ts_text s), lb_nodes_json lb (ts_nodes s), Some (u64_as_i64 (ts_content_hash s)),
                Some (u64_as_i64 (ts_simhash s)))
          else ocr_choice lb ocr_text
      | None \<Rightarrow> ocr_choice lb ocr_text)"

definition source_of :: "rstr option \<Rightarrow> rstr option \<Rightarrow> bool \<Rightarrow> rstr \<Rightarrow> rstr option \<times> rstr option" where
  "source_of acc tree_json thin ocr_text =
     (case acc of
        None \<Rightarrow> (None, None)
      | Some t \<Rightarrow>
          if t = [] then (None, None)
          else if tree_json \<noteq> None \<and> thin \<and> ocr_text \<noteq> [] then (Some t, Some (lit ''hybrid''))
          else if tree_json \<noteq> None then (Some t, Some (lit ''accessibility''))
          else (Some t, Some (lit ''ocr'')))"

text \<open>The row for a snapshot at the given path.\<close>

definition frame_row_of :: "capture_lib \<Rightarrow> capture_context \<Rightarrow> tree_snapshot option \<Rightarrow> rstr \<Rightarrow> frame_row" where
  "frame_row_of lb cx snap path =
     (let (ocr_text, ocr_json) = run_ocr lb cx snap;
          (acc, tree_json, hash, simhash) = choose_text lb cx snap ocr_text;
          (final_text, source) = source_of acc tree_json (is_thin lb cx snap) ocr_text;
          clean = cx_pii_removal cx;
          sanitized = (if clean then map_option (lb_remove_pii lb) final_text else final_text);
          s_ocr = (if clean \<and> ocr_text \<noteq> [] then lb_remove_pii lb ocr_text else ocr_text);
          s_json = (if clean \<and> ocr_text \<noteq> [] then lb_sanitize_json lb ocr_json else ocr_json)
      in \<lparr>fr_path = path, fr_app = cx_app cx, fr_window = cx_window cx, fr_url = cx_url cx,
          fr_document = cx_document cx, fr_trigger = cx_trigger cx, fr_text = sanitized, fr_source = source,
          fr_tree_json = tree_json, fr_hash = hash, fr_simhash = simhash,
          fr_ocr = (if s_ocr \<noteq> [] then Some (s_ocr, s_json) else None),
          fr_elements_ref = cx_elements_ref cx\<rparr>)"

text \<open>\<open>written\<close> is the path of the JPEG, or none when it cannot be written; \<open>insert\<close> gives the id of
  the row, or none when the insertion fails. The result is none on an error; the row that was
  inserted is part of it.\<close>

definition paired_capture ::
  "capture_lib \<Rightarrow> rstr option \<Rightarrow> (frame_row \<Rightarrow> int option) \<Rightarrow> capture_context \<Rightarrow> tree_snapshot option \<Rightarrow>
   (capture_result \<times> frame_row) option" where
  "paired_capture lb written insert_row cx snap =
     (case (if cx_screenshot_disabled cx then Some [] else written) of
        None \<Rightarrow> None
      | Some path \<Rightarrow>
          (let row = frame_row_of lb cx snap path;
               ocr_text = fst (run_ocr lb cx snap);
               (acc, tree_json, hash, simhash) = choose_text lb cx snap ocr_text
           in case insert_row row of
                None \<Rightarrow> None
              | Some frame_id \<Rightarrow>
                  Some (\<lparr>cr_frame_id = frame_id, cr_snapshot_path = path, cr_text = acc,
                         cr_text_source = fr_source row, cr_app = cx_app cx, cr_window = cx_window cx,
                         cr_url = cx_url cx, cr_content_hash = hash\<rparr>, row)))"

end
