(* ===== verification/CaptureOnce.thy ===== *)
theory CaptureOnce
  imports CaptureTriggers WalkBudget WindowPattern DrmGate PairedCapture
begin

text \<open>
  \<open>do_capture\<close> of \<open>screenpipe-engine/src/event_driven_capture.rs\<close>: one capture, with every early
  return: black frames, the throttles, filtered windows, unchanged content, the lock screen,
  ignored windows, protected content. The walk budget, the throttle table (a process-wide
  static) and the gate flags are threaded; what the system answers during the capture is a record.
\<close>

section \<open>Black frames\<close>

text \<open>An image is its width, height and pixels; the two loops step over the sampling grid.\<close>

record rgb_image =
  im_width :: nat
  im_height :: nat
  im_pixel :: "nat \<Rightarrow> nat \<Rightarrow> nat \<times> nat \<times> nat"

definition is_black :: "nat \<times> nat \<times> nat \<Rightarrow> bool" where
  "is_black px = (case px of (r, g, b) \<Rightarrow> r + g + b < 15)"

function sample_row :: "rgb_image \<Rightarrow> nat \<Rightarrow> nat \<Rightarrow> nat \<Rightarrow> nat \<times> nat \<Rightarrow> nat \<times> nat" where
  "sample_row im step_x y x acc =
     (if x < im_width im
      then let (black, total) = acc in
           sample_row im step_x y (x + max step_x 1)
             (if is_black (im_pixel im x y) then black + 1 else black, total + 1)
      else acc)"
  by pat_completeness auto
termination
  by (relation "measure (\<lambda>(im, step_x, y, x, acc). im_width im - x)") auto

function sample_rows :: "rgb_image \<Rightarrow> nat \<Rightarrow> nat \<Rightarrow> nat \<Rightarrow> nat \<times> nat \<Rightarrow> nat \<times> nat" where
  "sample_rows im step_x step_y y acc =
     (if y < im_height im
      then sample_rows im step_x step_y (y + max step_y 1) (sample_row im step_x y 0 acc)
      else acc)"
  by pat_completeness auto
termination
  by (relation "measure (\<lambda>(im, step_x, step_y, y, acc). im_height im - y)") auto

declare sample_row.simps [simp del] sample_rows.simps [simp del]

definition is_frame_mostly_black :: "rgb_image \<Rightarrow> bool" where
  "is_frame_mostly_black im =
     (if im_width im = 0 \<or> im_height im = 0 then True
      else let (black, total) = sample_rows im (im_width im div 15) (im_height im div 15) 0 (0, 0)
           in 19 * total < 20 * black)"

section \<open>Metadata and throttles\<close>

definition resolve_capture_metadata ::
  "tree_snapshot option \<Rightarrow> capture_trigger \<Rightarrow> rstr option \<Rightarrow>
   rstr option \<times> rstr option \<times> rstr option \<times> rstr option" where
  "resolve_capture_metadata snap trigger lightweight_app_name =
     (let (app, window, url, document) =
            (case snap of
               Some s \<Rightarrow> (Some (ts_app s), Some (ts_window s), ts_url s, ts_document s)
             | None \<Rightarrow> (None, None, None, None));
          app1 = (if app = None
                  then (case lightweight_app_name of Some n \<Rightarrow> if n \<noteq> [] then Some n else None | None \<Rightarrow> None)
                  else app)
      in case trigger of
           AppSwitch name _ \<Rightarrow> (if name \<noteq> [] then Some name else app1, window, url, document)
         | WindowFocus name _ \<Rightarrow> (app1, if name \<noteq> [] then Some name else window, url, document)
         | _ \<Rightarrow> (app1, window, url, document))"

type_synonym throttle_table = "rstr \<rightharpoonup> instant"

definition terminal_ocr_throttled ::
  "(rstr \<Rightarrow> rstr) \<Rightarrow> instant \<Rightarrow> rstr \<Rightarrow> throttle_table \<Rightarrow> throttle_table \<times> bool" where
  "terminal_ocr_throttled low now app_name t =
     (let n = low app_name;
          is_ocr_only = contains_any n OCR_APPS;
          is_electron_editor = (n = lit ''obsidian'')
      in if \<not> is_ocr_only \<and> \<not> is_electron_editor then (t, False)
         else case t n of
                Some l \<Rightarrow> if elapsed now l < from_secs 30 then (t, True) else (t(n \<mapsto> now), False)
              | None \<Rightarrow> (t(n \<mapsto> now), False))"

section \<open>One capture\<close>

text \<open>Settings of the loop that a capture reads.\<close>

record capture_params =
  cp_low :: "rstr \<Rightarrow> rstr"
  cp_macos :: bool
  cp_ignored_windows :: "rstr list"
  cp_pause_on_drm :: bool
  cp_pii_removal :: bool
  cp_lib :: capture_lib

datatype walk_result = Found tree_snapshot | Skipped | NotFound

text \<open>The answers: the screenshot, the focused app (asked on macOS only), the walk (none when its
  task fails), the JPEG path, the insertion, and the two instants at which the budget is read.\<close>

record capture_answers =
  an_now :: instant
  an_after_walk :: instant
  an_screenshot :: "rgb_image option"
  an_focused_app :: "rstr option"
  an_walk :: "walk_result option"
  an_written :: "rstr option"
  an_insert :: "frame_row \<Rightarrow> int option"

record capture_world =
  wo_budget :: walk_budget
  wo_throttle :: throttle_table
  wo_flags :: gate_flags

text \<open>The output: what was stored (with its row), or nothing; whether elements were shared.\<close>

record capture_output =
  co_result :: "(capture_result \<times> frame_row) option"
  co_deduped :: bool

definition no_capture :: capture_output where
  "no_capture = \<lparr>co_result = None, co_deduped = False\<rparr>"

definition trigger_app :: "capture_params \<Rightarrow> capture_trigger \<Rightarrow> capture_answers \<Rightarrow> rstr option" where
  "trigger_app p trigger a =
     (case trigger of
        AppSwitch name _ \<Rightarrow> Some name
      | _ \<Rightarrow> if cp_macos p then an_focused_app a else None)"

text \<open>The two throttles: the world after them, and whether the capture goes on.\<close>

definition pass_throttles ::
  "capture_params \<Rightarrow> capture_trigger \<Rightarrow> capture_answers \<Rightarrow> capture_world \<Rightarrow> capture_world \<times> bool" where
  "pass_throttles p trigger a w =
     (case trigger_app p trigger a of
        None \<Rightarrow> (w, True)
      | Some app \<Rightarrow>
          (let (t, throttled) = terminal_ocr_throttled (cp_low p) (an_now a) app (wo_throttle w);
               w1 = w\<lparr>wo_throttle := t\<rparr>
           in if throttled \<and> \<not> bypasses_capture_throttles trigger then (w1, False)
              else let (b, d) = should_walk (an_now a) app (wo_budget w1);
                       w2 = w1\<lparr>wo_budget := b\<rparr>
                   in if \<not> wd_walk d \<and> \<not> bypasses_capture_throttles trigger then (w2, False) else (w2, True)))"

definition record_cost_of_walk :: "capture_answers \<Rightarrow> walk_result \<Rightarrow> walk_budget \<Rightarrow> walk_budget" where
  "record_cost_of_walk a r b =
     (case r of
        Found s \<Rightarrow>
          (let b1 = record_walk (an_after_walk a) (ts_app s) (ts_walk_duration s) (ts_truncated s) b
           in if from_millis 100 < ts_walk_duration s then fst (should_walk (an_after_walk a) (ts_app s) b1) else b1)
      | _ \<Rightarrow> b)"

definition content_unchanged ::
  "capture_trigger \<Rightarrow> bool \<Rightarrow> duration \<Rightarrow> int option \<Rightarrow> tree_snapshot option \<Rightarrow> bool" where
  "content_unchanged trigger hd_active since_db_write previous snap \<longleftrightarrow>
     dedup_applies trigger hd_active since_db_write
     \<and> (case snap of
          Some s \<Rightarrow> ts_text s \<noteq> [] \<and> previous = Some (u64_as_i64 (ts_content_hash s))
                     \<and> u64_as_i64 (ts_content_hash s) \<noteq> 0
        | None \<Rightarrow> False)"

definition lock_apps :: "rstr list" where
  "lock_apps = [lit ''loginwindow'', lit ''screensaverengine'', lit ''lockscreen'']"

text \<open>The lock gate: the flags after it, and whether the capture goes on.\<close>

definition lock_gate :: "(rstr \<Rightarrow> rstr) \<Rightarrow> rstr option \<Rightarrow> gate_flags \<Rightarrow> gate_flags \<times> bool" where
  "lock_gate low app g =
     (case app of
        Some name \<Rightarrow>
          if low name \<in> set lock_apps then (set_screen_locked True g, False)
          else if gf_locked g then (set_screen_locked False g, True)
          else (g, True)
      | None \<Rightarrow> (g, \<not> gf_locked g))"

definition or_empty :: "rstr option \<Rightarrow> rstr" where
  "or_empty s = (case s of Some x \<Rightarrow> x | None \<Rightarrow> [])"

text \<open>From the resolved metadata to the stored frame.\<close>

definition store_capture ::
  "capture_params \<Rightarrow> capture_trigger \<Rightarrow> capture_answers \<Rightarrow> int option \<Rightarrow> bool \<Rightarrow> tree_snapshot option \<Rightarrow>
   rstr option \<times> rstr option \<times> rstr option \<times> rstr option \<Rightarrow> capture_world \<Rightarrow>
   capture_world \<times> capture_output option" where
  "store_capture p trigger a elements_ref screenshot_disabled snap meta w =
     (let (app, window, url, document) = meta;
          (g1, unlocked) = lock_gate (cp_low p) app (wo_flags w);
          w1 = w\<lparr>wo_flags := g1\<rparr>;
          patterns = parse_list (cp_low p) (cp_ignored_windows p)
      in if \<not> unlocked then (w1, Some no_capture)
         else if matches_any patterns (cp_low p (or_empty app)) (cp_low p (or_empty window)) then (w1, Some no_capture)
         else
           let (g2, drm) = check_and_update_drm_state (cp_low p) (cp_pause_on_drm p) app url g1;
               w2 = w1\<lparr>wo_flags := g2\<rparr>
           in if drm then (w2, Some no_capture)
              else
                let cx = \<lparr>cx_app = app, cx_window = window, cx_url = url, cx_document = document,
                          cx_trigger = trigger_name trigger, cx_pii_removal = cp_pii_removal p,
                          cx_elements_ref = elements_ref, cx_screenshot_disabled = screenshot_disabled\<rparr>
                in case paired_capture (cp_lib p) (an_written a) (an_insert a) cx snap of
                     None \<Rightarrow> (w2, None)
                   | Some r \<Rightarrow> (w2, Some \<lparr>co_result = Some r, co_deduped = (elements_ref \<noteq> None)\<rparr>))"

definition do_capture ::
  "capture_params \<Rightarrow> capture_trigger \<Rightarrow> int option \<Rightarrow> duration \<Rightarrow> int option \<Rightarrow> bool \<Rightarrow> bool \<Rightarrow>
   capture_answers \<Rightarrow> capture_world \<Rightarrow> capture_world \<times> capture_output option" where
  "do_capture p trigger previous since_db_write elements_ref screenshot_disabled hd_active a w =
     (case an_screenshot a of
        None \<Rightarrow> (w, None)
      | Some im \<Rightarrow>
          if is_frame_mostly_black im then (w, Some no_capture)
          else
            let (w1, go_on) = pass_throttles p trigger a w in
            if \<not> go_on then (w1, Some no_capture)
            else case an_walk a of
              None \<Rightarrow> (w1, None)
            | Some r \<Rightarrow>
                (let w2 = w1\<lparr>wo_budget := record_cost_of_walk a r (wo_budget w1)\<rparr> in
                 if r = Skipped then (w2, Some no_capture)
                 else
                   let snap = (case r of Found s \<Rightarrow> Some s | _ \<Rightarrow> None);
                       app = trigger_app p trigger a
                   in if snap = None
                         \<and> (case app of
                              Some x \<Rightarrow> matches_any (parse_list (cp_low p) (cp_ignored_windows p)) (cp_low p x) []
                            | None \<Rightarrow> False)
                      then (w2, Some no_capture)
                      else if content_unchanged trigger hd_active since_db_write previous snap
                      then (w2, Some no_capture)
                      else store_capture p trigger a elements_ref screenshot_disabled snap
                             (resolve_capture_metadata snap trigger app) w2))"

end
