(* ===== verification/FocusControl.thy ===== *)
theory FocusControl
  imports RustTime
begin

text \<open>
  \<open>screenpipe-engine/src/focus_aware_controller.rs\<close> and the monitor identity of
  \<open>focus_tracker/mod.rs\<close>: which monitors are captured at full rate, which are only watched and
  which are left alone, from the focus events of the platform's tracker. The tracker is the
  sequence of its events, each with the instant it is handled at. The notifies of sleeping
  loops and the locks are left out; a call of \<open>state_for_identity\<close> has its instant as argument.
\<close>

section \<open>Identities\<close>

record monitor_identity =
  mi_id :: nat
  mi_stable :: "rstr option"

definition runtime_id :: "nat \<Rightarrow> monitor_identity" where
  "runtime_id i = \<lparr>mi_id = i, mi_stable = None\<rparr>"

definition identity_matches :: "monitor_identity \<Rightarrow> monitor_identity \<Rightarrow> bool" where
  "identity_matches a b =
     (case (mi_stable a, mi_stable b) of
        (Some x, Some y) \<Rightarrow>
          if x \<noteq> [] \<and> x = y then True
          else if x \<noteq> [] \<and> y \<noteq> [] then False
          else mi_id a = mi_id b
      | _ \<Rightarrow> mi_id a = mi_id b)"

datatype monitor_key = StableKey rstr | RuntimeKey nat

definition key_of :: "monitor_identity \<Rightarrow> monitor_key" where
  "key_of i = (case mi_stable i of
     Some s \<Rightarrow> if s \<noteq> [] then StableKey s else RuntimeKey (mi_id i)
   | None \<Rightarrow> RuntimeKey (mi_id i))"

section \<open>The controller\<close>

datatype capture_state = ActiveCapture | Warm | Cold

definition STALE_FOCUS_CUTOFF :: duration where "STALE_FOCUS_CUTOFF = from_secs 30"
definition WARM_CUTOFF :: duration where "WARM_CUTOFF = from_millis 2000"
definition COLD_CUTOFF :: duration where "COLD_CUTOFF = from_millis 60000"

datatype focus_event = Focused monitor_identity | UnknownFocus

record focus_controller =
  fo_lost :: "monitor_key \<rightharpoonup> instant"
  fo_current :: "monitor_identity option"
  fo_last_event :: instant

definition new_focus_controller :: "instant \<Rightarrow> focus_controller" where
  "new_focus_controller now = \<lparr>fo_lost = Map.empty, fo_current = None, fo_last_event = now\<rparr>"

definition apply_focus :: "instant \<Rightarrow> monitor_identity \<Rightarrow> focus_controller \<Rightarrow> focus_controller" where
  "apply_focus now identity c =
     (let c1 = c\<lparr>fo_current := Some identity\<rparr>;
          c2 = (case fo_current c of
                  Some prev \<Rightarrow>
                    if \<not> identity_matches prev identity
                    then c1\<lparr>fo_lost := (fo_lost c1)(key_of prev \<mapsto> now)\<rparr> else c1
                | None \<Rightarrow> c1)
      in c2\<lparr>fo_last_event := now\<rparr>)"

definition apply_unknown :: "instant \<Rightarrow> focus_controller \<Rightarrow> focus_controller" where
  "apply_unknown now c = c\<lparr>fo_current := None, fo_last_event := now\<rparr>"

definition apply_event :: "instant \<times> focus_event \<Rightarrow> focus_controller \<Rightarrow> focus_controller" where
  "apply_event e c = (case e of (now, Focused i) \<Rightarrow> apply_focus now i c | (now, UnknownFocus) \<Rightarrow> apply_unknown now c)"

definition state_for_identity :: "instant \<Rightarrow> monitor_identity \<Rightarrow> focus_controller \<Rightarrow> capture_state" where
  "state_for_identity now identity c =
     (if STALE_FOCUS_CUTOFF \<le> elapsed now (fo_last_event c) then ActiveCapture
      else case fo_current c of
        None \<Rightarrow> ActiveCapture
      | Some current \<Rightarrow>
          if identity_matches current identity then ActiveCapture
          else case fo_lost c (key_of identity) of
            None \<Rightarrow> Cold
          | Some t \<Rightarrow>
              if elapsed now t < WARM_CUTOFF then ActiveCapture
              else if elapsed now t < COLD_CUTOFF then Warm
              else Cold)"

text \<open>The subscriber task: the events in order, from the controller's creation.\<close>

definition run_focus :: "instant \<Rightarrow> (instant \<times> focus_event) list \<Rightarrow> focus_controller" where
  "run_focus start es = fold apply_event es (new_focus_controller start)"

lemma identity_matches_refl [simp]: "identity_matches i i"
  by (auto simp: identity_matches_def split: option.splits)

lemma identity_matches_sym: "identity_matches a b = identity_matches b a"
  by (auto simp: identity_matches_def split: option.splits)

lemma run_focus_snoc: "run_focus s (es @ [e]) = apply_event e (run_focus s es)"
  by (simp add: run_focus_def)

lemma last_event_of_run:
  "fo_last_event (run_focus s es) = (if es = [] then s else fst (last es))"
proof (cases es rule: rev_cases)
  case Nil
  then show ?thesis by (simp add: run_focus_def new_focus_controller_def)
next
  case (snoc ys e)
  then show ?thesis
    by (cases e; cases "snd e")
      (auto simp: run_focus_snoc apply_event_def apply_focus_def apply_unknown_def Let_def split: option.splits)
qed

lemma current_of_run:
  "fo_current (run_focus s es) =
     (if es = [] then None else case snd (last es) of Focused i \<Rightarrow> Some i | UnknownFocus \<Rightarrow> None)"
proof (cases es rule: rev_cases)
  case Nil
  then show ?thesis by (simp add: run_focus_def new_focus_controller_def)
next
  case (snoc ys e)
  then show ?thesis
    by (cases e; cases "snd e")
      (auto simp: run_focus_snoc apply_event_def apply_focus_def apply_unknown_def Let_def split: option.splits)
qed

end
