(* ===== verification/HighFps.thy ===== *)
theory HighFps
  imports RustTime
begin

text \<open>
  \<open>screenpipe-engine/src/high_fps_controller.rs\<close>: sessions of dense (HD) capture and how they
  end, and \<open>HighFpsBookkeeping\<close> of \<open>event_driven_capture.rs\<close>: which capture interval is in
  force while a session comes and goes. The mutex makes each operation atomic, so an operation
  is a function of the controller, of the instant it runs at and of what the meeting detector
  reports (\<open>None\<close> when there is none); the locks and the log are left out.
\<close>

section \<open>The controller\<close>

definition MIN_INTERVAL_MS :: nat where "MIN_INTERVAL_MS = 33"
definition DEFAULT_INTERVAL_MS :: nat where "DEFAULT_INTERVAL_MS = 100"
definition MAX_MEETING_DURATION :: duration where "MAX_MEETING_DURATION = from_secs (4 * 3600)"
definition MAX_TIMER_DURATION :: duration where "MAX_TIMER_DURATION = from_secs (2 * 3600)"
definition MIN_TIMER_DURATION :: duration where "MIN_TIMER_DURATION = from_secs 60"
definition PREWARM_WAIT :: duration where "PREWARM_WAIT = from_secs (30 * 60)"
definition STALE_MEETING_FALLBACK :: duration where "STALE_MEETING_FALLBACK = from_secs (30 * 60)"

datatype session_kind = MeetingSession int | TimerSession | PrewarmPending

datatype default_mode = Ask | Always | Never

fun as_i8 :: "default_mode \<Rightarrow> int" where
  "as_i8 Never = -1"
| "as_i8 Ask = 0"
| "as_i8 Always = 1"

definition from_i8 :: "int \<Rightarrow> default_mode" where
  "from_i8 v = (if v = -1 then Never else if v = 1 then Always else Ask)"

record session =
  se_kind :: session_kind
  se_started :: instant
  se_expires :: instant

record hd_snapshot =
  hs_active :: bool
  hs_interval_ms :: nat
  hs_kind :: "session_kind option"
  hs_elapsed_secs :: "nat option"
  hs_remaining_secs :: "nat option"
  hs_mode :: default_mode
  hs_meeting :: "bool option"

definition effective_interval_ms :: "hd_snapshot \<Rightarrow> nat option" where
  "effective_interval_ms s = (if hs_active s then Some (hs_interval_ms s) else None)"

record hd_controller =
  hc_session :: "session option"
  hc_mode :: int
  hc_interval :: nat

definition new_hd_controller :: "default_mode \<Rightarrow> nat \<Rightarrow> hd_controller" where
  "new_hd_controller mode interval_ms =
     \<lparr>hc_session = None, hc_mode = as_i8 mode, hc_interval = max interval_ms MIN_INTERVAL_MS\<rparr>"

definition hd_snapshot_at :: "instant \<Rightarrow> bool option \<Rightarrow> hd_controller \<Rightarrow> hd_controller \<times> hd_snapshot" where
  "hd_snapshot_at now meeting c =
     (let session = (case hc_session c of
            Some s \<Rightarrow> if se_expires s \<le> now then None else Some s
          | None \<Rightarrow> None);
          c' = c\<lparr>hc_session := session\<rparr>
      in case session of
           Some s \<Rightarrow>
             (c', \<lparr>hs_active = True, hs_interval_ms = hc_interval c, hs_kind = Some (se_kind s),
                   hs_elapsed_secs = Some (as_secs (elapsed now (se_started s))),
                   hs_remaining_secs = Some (as_secs (elapsed (se_expires s) now)),
                   hs_mode = from_i8 (hc_mode c), hs_meeting = meeting\<rparr>)
         | None \<Rightarrow>
             (c', \<lparr>hs_active = False, hs_interval_ms = hc_interval c, hs_kind = None,
                   hs_elapsed_secs = None, hs_remaining_secs = None,
                   hs_mode = from_i8 (hc_mode c), hs_meeting = meeting\<rparr>))"

definition start_meeting_session ::
  "instant \<Rightarrow> bool option \<Rightarrow> int \<Rightarrow> hd_controller \<Rightarrow> hd_controller \<times> hd_snapshot" where
  "start_meeting_session now meeting meeting_id c =
     (let in_meeting = (case meeting of Some b \<Rightarrow> b | None \<Rightarrow> False);
          (kind, expires_at) =
            (if in_meeting then (MeetingSession meeting_id, now + MAX_MEETING_DURATION)
             else (TimerSession, now + STALE_MEETING_FALLBACK))
      in hd_snapshot_at now meeting
           (c\<lparr>hc_session := Some \<lparr>se_kind = kind, se_started = now, se_expires = expires_at\<rparr>\<rparr>))"

definition start_prewarm_pending_session ::
  "instant \<Rightarrow> bool option \<Rightarrow> hd_controller \<Rightarrow> hd_controller \<times> hd_snapshot" where
  "start_prewarm_pending_session now meeting c =
     hd_snapshot_at now meeting
       (c\<lparr>hc_session := Some \<lparr>se_kind = PrewarmPending, se_started = now, se_expires = now + PREWARM_WAIT\<rparr>\<rparr>)"

definition try_upgrade_pending_to_meeting :: "instant \<Rightarrow> int \<Rightarrow> hd_controller \<Rightarrow> hd_controller" where
  "try_upgrade_pending_to_meeting now meeting_id c =
     (case hc_session c of
        Some s \<Rightarrow>
          if se_kind s = PrewarmPending
          then c\<lparr>hc_session := Some \<lparr>se_kind = MeetingSession meeting_id, se_started = se_started s,
                                    se_expires = now + MAX_MEETING_DURATION\<rparr>\<rparr>
          else c
      | None \<Rightarrow> c)"

definition extend_session ::
  "instant \<Rightarrow> bool option \<Rightarrow> duration \<Rightarrow> hd_controller \<Rightarrow> hd_controller \<times> hd_snapshot" where
  "extend_session now meeting additional c =
     (let bumped = min additional MAX_TIMER_DURATION in
      hd_snapshot_at now meeting
        (c\<lparr>hc_session := map_option (\<lambda>s. s\<lparr>se_expires := se_expires s + bumped\<rparr>) (hc_session c)\<rparr>))"

definition start_timer_session ::
  "instant \<Rightarrow> bool option \<Rightarrow> duration \<Rightarrow> hd_controller \<Rightarrow> hd_controller \<times> hd_snapshot" where
  "start_timer_session now meeting duration c =
     (let clamped = min (max duration MIN_TIMER_DURATION) MAX_TIMER_DURATION in
      hd_snapshot_at now meeting
        (c\<lparr>hc_session := Some \<lparr>se_kind = TimerSession, se_started = now, se_expires = now + clamped\<rparr>\<rparr>))"

definition stop_session :: "instant \<Rightarrow> bool option \<Rightarrow> hd_controller \<Rightarrow> hd_controller \<times> hd_snapshot" where
  "stop_session now meeting c = hd_snapshot_at now meeting (c\<lparr>hc_session := None\<rparr>)"

definition handle_meeting_ended :: "int \<Rightarrow> hd_controller \<Rightarrow> hd_controller" where
  "handle_meeting_ended meeting_id c =
     (case hc_session c of
        Some s \<Rightarrow> if se_kind s = MeetingSession meeting_id then c\<lparr>hc_session := None\<rparr> else c
      | None \<Rightarrow> c)"

definition set_default_mode :: "default_mode \<Rightarrow> hd_controller \<Rightarrow> hd_controller" where
  "set_default_mode mode c = c\<lparr>hc_mode := as_i8 mode\<rparr>"

definition set_interval_ms :: "nat \<Rightarrow> hd_controller \<Rightarrow> hd_controller \<times> nat" where
  "set_interval_ms interval_ms c =
     (let clamped = max interval_ms MIN_INTERVAL_MS in (c\<lparr>hc_interval := clamped\<rparr>, clamped))"

text \<open>The operations as calls, each with its instant and the detector's report.\<close>

datatype hd_call =
  Snapshot
| StartMeetingSession int
| StartPrewarm
| TryUpgrade int
| Extend duration
| StartTimer duration
| StopSession
| MeetingEnded int
| SetMode default_mode
| SetInterval nat

fun hd_step :: "instant \<times> bool option \<times> hd_call \<Rightarrow> hd_controller \<Rightarrow> hd_controller" where
  "hd_step (now, m, Snapshot) c = fst (hd_snapshot_at now m c)"
| "hd_step (now, m, StartMeetingSession i) c = fst (start_meeting_session now m i c)"
| "hd_step (now, m, StartPrewarm) c = fst (start_prewarm_pending_session now m c)"
| "hd_step (now, m, TryUpgrade i) c = try_upgrade_pending_to_meeting now i c"
| "hd_step (now, m, Extend d) c = fst (extend_session now m d c)"
| "hd_step (now, m, StartTimer d) c = fst (start_timer_session now m d c)"
| "hd_step (now, m, StopSession) c = fst (stop_session now m c)"
| "hd_step (now, m, MeetingEnded i) c = handle_meeting_ended i c"
| "hd_step (now, m, SetMode d) c = set_default_mode d c"
| "hd_step (now, m, SetInterval n) c = fst (set_interval_ms n c)"

definition hd_run :: "(instant \<times> bool option \<times> hd_call) list \<Rightarrow> hd_controller \<Rightarrow> hd_controller" where
  "hd_run cs c = fold hd_step cs c"

section \<open>The interval in force (event\_driven\_capture.rs)\<close>

record bookkeeping =
  bk_active_ms :: "nat option"
  bk_baseline_ms :: nat

definition new_bookkeeping :: "nat \<Rightarrow> bookkeeping" where
  "new_bookkeeping initial_baseline_ms = \<lparr>bk_active_ms = None, bk_baseline_ms = initial_baseline_ms\<rparr>"

definition on_baseline_change :: "nat \<Rightarrow> bookkeeping \<Rightarrow> bookkeeping \<times> nat" where
  "on_baseline_change new_baseline_ms b =
     (b\<lparr>bk_baseline_ms := new_baseline_ms\<rparr>,
      case bk_active_ms b of Some ms \<Rightarrow> ms | None \<Rightarrow> new_baseline_ms)"

definition on_controller_state :: "nat option \<Rightarrow> nat \<Rightarrow> bookkeeping \<Rightarrow> bookkeeping \<times> nat option" where
  "on_controller_state controller_ms current_live_ms b =
     (case (bk_active_ms b, controller_ms) of
        (None, None) \<Rightarrow> (b, None)
      | (None, Some new_ms) \<Rightarrow> (\<lparr>bk_active_ms = Some new_ms, bk_baseline_ms = current_live_ms\<rparr>, Some new_ms)
      | (Some _, None) \<Rightarrow> (b\<lparr>bk_active_ms := None\<rparr>, Some (bk_baseline_ms b))
      | (Some prev_ms, Some new_ms) \<Rightarrow>
          if prev_ms = new_ms then (b, None) else (b\<lparr>bk_active_ms := Some new_ms\<rparr>, Some new_ms))"

section \<open>What a session is bound to\<close>

text \<open>Bounds that hold of every controller: the mode is one of the three codes, the interval is at
  least the minimum, and a session starts no later than it was last touched.\<close>

definition hd_well_formed :: "instant \<Rightarrow> hd_controller \<Rightarrow> bool" where
  "hd_well_formed now c \<longleftrightarrow>
     hc_mode c \<in> {-1, 0, 1} \<and> MIN_INTERVAL_MS \<le> hc_interval c
     \<and> (case hc_session c of None \<Rightarrow> True | Some s \<Rightarrow> se_started s \<le> now \<and> se_started s \<le> se_expires s)"

lemma from_as_i8 [simp]: "from_i8 (as_i8 m) = m"
  by (cases m) (auto simp: from_i8_def)

lemma as_i8_range [simp]: "as_i8 m = -1 \<or> as_i8 m = 0 \<or> as_i8 m = 1"
  by (cases m) auto

lemma as_i8_zero [simp]: "as_i8 m \<noteq> -1 \<Longrightarrow> as_i8 m \<noteq> 1 \<Longrightarrow> as_i8 m = 0"
  by (cases m) auto

lemmas hd_defs = hd_snapshot_at_def start_meeting_session_def start_prewarm_pending_session_def
  try_upgrade_pending_to_meeting_def extend_session_def start_timer_session_def stop_session_def
  handle_meeting_ended_def set_default_mode_def set_interval_ms_def

lemma snapshot_active_iff:
  "hs_active (snd (hd_snapshot_at now m c)) \<longleftrightarrow>
     (case hc_session c of Some s \<Rightarrow> now < se_expires s | None \<Rightarrow> False)"
  by (auto simp: hd_snapshot_at_def Let_def split: option.splits if_splits)

lemma snapshot_interval [simp]: "hs_interval_ms (snd (hd_snapshot_at now m c)) = hc_interval c"
  by (auto simp: hd_snapshot_at_def Let_def split: option.splits)

lemma snapshot_controller:
  "hc_mode (fst (hd_snapshot_at now m c)) = hc_mode c"
  "hc_interval (fst (hd_snapshot_at now m c)) = hc_interval c"
  "hc_session (fst (hd_snapshot_at now m c)) =
     (case hc_session c of Some s \<Rightarrow> if se_expires s \<le> now then None else Some s | None \<Rightarrow> None)"
  by (auto simp: hd_snapshot_at_def Let_def split: option.splits)

end
