(* ===== verification/PowerProfile.thy ===== *)
theory PowerProfile
  imports RustTime
begin

text \<open>
  \<open>screenpipe-engine/src/power\<close>: the power state read from the operating system
  (\<open>monitor.rs\<close>), the profile it selects (\<open>profile.rs\<close>) and the manager that publishes it
  (\<open>manager.rs\<close>). The answers of the operating system are arguments; the raw objective-C and
  kernel32 calls are not modelled.
\<close>

section \<open>State of the machine (monitor.rs)\<close>

datatype thermal_state = Nominal | Fair | Serious | Critical

record power_state =
  battery_pct :: "nat option"
  on_ac :: bool
  thermal :: thermal_state
  os_low_power :: bool

definition default_power_state :: power_state where
  "default_power_state = \<lparr>battery_pct = None, on_ac = True, thermal = Nominal, os_low_power = False\<rparr>"

definition POLL_INTERVAL :: duration where "POLL_INTERVAL = from_secs 10"

text \<open>The number before the first percent sign of a line.\<close>

definition line_pct :: "rstr \<Rightarrow> nat option" where
  "line_pct line =
     (case position (\<lambda>c. c = 37) line of
        None \<Rightarrow> None
      | Some i \<Rightarrow> map_option (min 100) (parse_u8 (rev (takeWhile is_ascii_digit (rev (take i line))))))"

fun first_pct :: "rstr list \<Rightarrow> nat option" where
  "first_pct [] = None"
| "first_pct (l # ls) = (case line_pct l of Some p \<Rightarrow> Some p | None \<Rightarrow> first_pct ls)"

definition parse_macos_battery_pct :: "rstr \<Rightarrow> nat option" where
  "parse_macos_battery_pct pmset_output = first_pct (lines pmset_output)"

definition thermal_of_raw :: "int \<Rightarrow> thermal_state" where
  "thermal_of_raw r = (if r = 1 then Fair else if r = 2 then Serious else if r = 3 then Critical else Nominal)"

text \<open>\<open>output\<close> is what \<open>pmset -g batt\<close> prints, or none when it cannot be run; \<open>info\<close> is what the
  blocking task reads from the system, or none when the task fails.\<close>

definition macos_battery_state :: "rstr option \<Rightarrow> (int \<times> bool) option \<Rightarrow> power_state \<Rightarrow> power_state" where
  "macos_battery_state output info s =
     (let s1 = (case output of
          Some out \<Rightarrow>
            (let s0 = s\<lparr>on_ac := contains_str out (lit ''AC Power'')\<rparr> in
             case parse_macos_battery_pct out of Some p \<Rightarrow> s0\<lparr>battery_pct := Some p\<rparr> | None \<Rightarrow> s0)
        | None \<Rightarrow> s\<lparr>on_ac := True\<rparr>);
          (t, lp) = (case info of Some (r, b) \<Rightarrow> (thermal_of_raw r, b) | None \<Rightarrow> (Nominal, False))
      in s1\<lparr>thermal := t, os_low_power := lp\<rparr>)"

text \<open>The three bytes of \<open>SYSTEM_POWER_STATUS\<close> the code reads, when the call succeeds.\<close>

definition windows_battery_state :: "(nat \<times> nat \<times> nat) option \<Rightarrow> power_state \<Rightarrow> power_state" where
  "windows_battery_state status s =
     (case status of
        None \<Rightarrow> s
      | Some (ac_line, pct, flag) \<Rightarrow>
          (let s1 = s\<lparr>on_ac := (ac_line = 1)\<rparr>;
               s2 = (if pct \<le> 100 then s1\<lparr>battery_pct := Some pct\<rparr> else s1)
           in s2\<lparr>os_low_power := (flag = 1)\<rparr>))"

text \<open>\<open>read\<close> gives the content of the files capacity and status of a battery directory.\<close>

fun linux_batteries :: "(rstr option \<times> rstr option) list \<Rightarrow> power_state \<Rightarrow> power_state" where
  "linux_batteries [] s = s"
| "linux_batteries ((capacity, status) # bs) s =
     (let s1 = (case capacity of
            Some c \<Rightarrow> (case parse_u8 (trim c) of Some p \<Rightarrow> s\<lparr>battery_pct := Some (min p 100)\<rparr> | None \<Rightarrow> s)
          | None \<Rightarrow> s);
          s2 = (case status of
            Some t \<Rightarrow> s1\<lparr>on_ac := trim t \<in> {lit ''Charging'', lit ''Full'', lit ''Not charging''}\<rparr>
          | None \<Rightarrow> s1)
      in if battery_pct s2 \<noteq> None then s2 else linux_batteries bs s2)"

definition linux_battery_state :: "(rstr option \<times> rstr option) list \<Rightarrow> power_state \<Rightarrow> power_state" where
  "linux_battery_state files s =
     (let s1 = linux_batteries files s in if battery_pct s1 = None then s1\<lparr>on_ac := True\<rparr> else s1)"

section \<open>Profiles (profile.rs)\<close>

datatype power_mode = Auto | PreferPerformance | BatterySaver

datatype profile_name = Performance | Balanced | Saver | AudioPaused | FullPause

fun tier_rank :: "profile_name \<Rightarrow> nat" where
  "tier_rank Performance = 0"
| "tier_rank Balanced = 1"
| "tier_rank Saver = 2"
| "tier_rank AudioPaused = 3"
| "tier_rank FullPause = 4"

definition is_downgrade_from :: "profile_name \<Rightarrow> profile_name \<Rightarrow> bool" where
  "is_downgrade_from a b \<longleftrightarrow> tier_rank a > tier_rank b"

record power_profile =
  pp_name :: profile_name
  pp_min_capture_interval_ms :: nat
  pp_idle_capture_interval_ms :: nat
  pp_visual_check_interval_ms :: nat
  pp_visual_change_threshold :: f64
  pp_jpeg_quality :: nat
  pp_fps_interval_multiplier :: f64
  pp_vad_min_speech_ratio :: f64
  pp_audio_disabled :: bool
  pp_screenshot_disabled :: bool
  pp_capture_paused :: bool
  pp_video_quality_override :: "rstr option"

definition performance :: power_profile where
  "performance = \<lparr>pp_name = Performance, pp_min_capture_interval_ms = 200,
     pp_idle_capture_interval_ms = 30000, pp_visual_check_interval_ms = 3000,
     pp_visual_change_threshold = 5 / 100, pp_jpeg_quality = 80, pp_fps_interval_multiplier = 1,
     pp_vad_min_speech_ratio = 2 / 100, pp_audio_disabled = False, pp_screenshot_disabled = False,
     pp_capture_paused = False, pp_video_quality_override = None\<rparr>"

definition balanced :: power_profile where
  "balanced = \<lparr>pp_name = Balanced, pp_min_capture_interval_ms = 500,
     pp_idle_capture_interval_ms = 60000, pp_visual_check_interval_ms = 10000,
     pp_visual_change_threshold = 10 / 100, pp_jpeg_quality = 60, pp_fps_interval_multiplier = 2,
     pp_vad_min_speech_ratio = 5 / 100, pp_audio_disabled = False, pp_screenshot_disabled = False,
     pp_capture_paused = False, pp_video_quality_override = Some (lit ''low'')\<rparr>"

definition saver :: power_profile where
  "saver = \<lparr>pp_name = Saver, pp_min_capture_interval_ms = 1000,
     pp_idle_capture_interval_ms = 120000, pp_visual_check_interval_ms = 30000,
     pp_visual_change_threshold = 15 / 100, pp_jpeg_quality = 40, pp_fps_interval_multiplier = 4,
     pp_vad_min_speech_ratio = 10 / 100, pp_audio_disabled = False, pp_screenshot_disabled = False,
     pp_capture_paused = False, pp_video_quality_override = Some (lit ''low'')\<rparr>"

definition audio_paused :: power_profile where
  "audio_paused = \<lparr>pp_name = AudioPaused, pp_min_capture_interval_ms = 1000,
     pp_idle_capture_interval_ms = 120000, pp_visual_check_interval_ms = 30000,
     pp_visual_change_threshold = 15 / 100, pp_jpeg_quality = 40, pp_fps_interval_multiplier = 4,
     pp_vad_min_speech_ratio = 1, pp_audio_disabled = True, pp_screenshot_disabled = True,
     pp_capture_paused = False, pp_video_quality_override = Some (lit ''low'')\<rparr>"

definition full_pause :: power_profile where
  "full_pause = \<lparr>pp_name = FullPause, pp_min_capture_interval_ms = 2000,
     pp_idle_capture_interval_ms = 300000, pp_visual_check_interval_ms = 60000,
     pp_visual_change_threshold = 20 / 100, pp_jpeg_quality = 40, pp_fps_interval_multiplier = 8,
     pp_vad_min_speech_ratio = 1, pp_audio_disabled = True, pp_screenshot_disabled = True,
     pp_capture_paused = True, pp_video_quality_override = Some (lit ''low'')\<rparr>"

definition battery_profile :: "nat option \<Rightarrow> power_profile" where
  "battery_profile b =
     (case b of
        Some pct \<Rightarrow> if pct \<le> 10 then full_pause else if pct \<le> 20 then audio_paused
                     else if pct \<le> 40 then saver else balanced
      | None \<Rightarrow> balanced)"

definition for_state :: "power_state \<Rightarrow> power_mode \<Rightarrow> power_profile" where
  "for_state s pref =
     (case pref of
        PreferPerformance \<Rightarrow> performance
      | BatterySaver \<Rightarrow> saver
      | Auto \<Rightarrow>
          if thermal s = Serious \<or> thermal s = Critical then saver
          else if on_ac s \<and> \<not> os_low_power s then performance
          else let p = battery_profile (battery_pct s) in
               if os_low_power s \<and> tier_rank (pp_name p) < tier_rank Saver then saver else p)"

section \<open>The manager (manager.rs)\<close>

definition dominant_reason :: "power_state \<Rightarrow> rstr" where
  "dominant_reason s =
     (if thermal s = Critical then lit ''thermal_critical''
      else if thermal s = Serious then lit ''thermal_serious''
      else if os_low_power s then lit ''os_low_power''
      else case battery_pct s of
             Some pct \<Rightarrow>
               if pct \<le> 10 then lit ''battery_critical''
               else if pct \<le> 20 then lit ''battery_low''
               else if pct \<le> 40 then lit ''battery_medium''
               else if \<not> on_ac s then lit ''battery''
               else lit ''ac_power''
           | None \<Rightarrow> if on_ac s then lit ''ac_power'' else lit ''unknown'')"

text \<open>What the manager keeps: the published profile, the last state and the preference; and what a
  step does to the outside: the speech ratio of the voice detector and the change event.\<close>

record power_manager =
  pm_profile :: power_profile
  pm_state :: power_state
  pm_pref :: power_mode

record profile_changed =
  pc_from :: profile_name
  pc_to :: profile_name
  pc_battery :: "nat option"
  pc_downgrade :: bool
  pc_reason :: rstr

datatype power_effect = SetSpeechRatio f64 | ProfileChanged profile_changed | SendProfile power_profile

definition start_power_manager_with_pref :: "power_mode \<Rightarrow> power_manager" where
  "start_power_manager_with_pref pref =
     \<lparr>pm_profile = performance, pm_state = default_power_state, pm_pref = pref\<rparr>"

definition set_user_pref :: "power_mode \<Rightarrow> power_manager \<Rightarrow> power_manager \<times> power_effect list" where
  "set_user_pref pref m =
     (let p = for_state (pm_state m) pref
      in (m\<lparr>pm_pref := pref, pm_profile := p\<rparr>, [SendProfile p]))"

definition initial_poll :: "power_state \<Rightarrow> power_manager \<Rightarrow> power_manager \<times> power_effect list" where
  "initial_poll s m =
     (let p = for_state s (pm_pref m)
      in (m\<lparr>pm_state := s, pm_profile := p\<rparr>, [SetSpeechRatio (pp_vad_min_speech_ratio p), SendProfile p]))"

definition poll_step :: "power_state \<Rightarrow> power_manager \<Rightarrow> power_manager \<times> power_effect list" where
  "poll_step s m =
     (let p = for_state s (pm_pref m);
          current = pp_name (pm_profile m);
          event = (if pp_name p \<noteq> current
                   then [ProfileChanged \<lparr>pc_from = current, pc_to = pp_name p, pc_battery = battery_pct s,
                           pc_downgrade = is_downgrade_from (pp_name p) current, pc_reason = dominant_reason s\<rparr>]
                   else [])
      in (m\<lparr>pm_state := s, pm_profile := p\<rparr>, event @ [SetSpeechRatio (pp_vad_min_speech_ratio p), SendProfile p]))"

text \<open>After the first poll: the manager's life is a sequence of polls and preference changes.\<close>

datatype power_input = Poll power_state | SetPref power_mode

definition power_step :: "power_input \<Rightarrow> power_manager \<Rightarrow> power_manager \<times> power_effect list" where
  "power_step st m = (case st of Poll s \<Rightarrow> poll_step s m | SetPref p \<Rightarrow> set_user_pref p m)"

fun power_run :: "power_input list \<Rightarrow> power_manager \<Rightarrow> power_manager \<times> power_effect list" where
  "power_run [] m = (m, [])"
| "power_run (st # sts) m =
     (let (m1, es) = power_step st m; (m2, es') = power_run sts m1 in (m2, es @ es'))"

end
