(* ===== verification/CaptureLoop.thy ===== *)
theory CaptureLoop
  imports CaptureOnce FocusControl HighFps PowerProfile
begin

text \<open>
  \<open>event_driven_capture_loop\<close> of \<open>screenpipe-engine/src/event_driven_capture.rs\<close>, for one monitor:
  the start-up capture and one turn of the loop as functions of the loop's variables and of what
  the turn reads (clocks, focus, flags, power profile, HD snapshot, channel, screen), giving the
  next variables and the effects in their order. A \<open>continue\<close> of the code is an early result.
  Logging and the invalidation of streams after a wake are left out; the frame comparer is
  represented by the differences it reports.
\<close>

section \<open>Variables, inputs, effects\<close>

record capture_vars =
  cv_state :: event_capture
  cv_visual_enabled :: bool
  cv_visual_interval :: duration
  cv_visual_threshold :: f64
  cv_screenshot_disabled :: bool
  cv_high_fps :: bookkeeping
  cv_channel_closed :: bool
  cv_last_visual :: instant
  cv_last_warm :: instant
  cv_last_hash :: "int option"
  cv_last_frame :: "int option"
  cv_last_db_write :: instant
  cv_elements :: "(int \<times> int) option"
  cv_errors :: nat
  cv_hd_active :: bool
  cv_was_cold :: bool
  cv_was_paused :: bool
  cv_world :: capture_world

datatype recv_answer = RecvMsg trigger_msg | RecvLagged | RecvClosed | RecvElapsed

text \<open>\<open>ti_timeout\<close> is the world a capture leaves behind when it is cut off after fifteen seconds.\<close>

record turn_reads =
  ti_now :: instant
  ti_focus :: focus_controller
  ti_flags :: gate_flags
  ti_throttle :: throttle_table
  ti_drained :: "try_recv_answer list"
  ti_warm_diff :: "f64 option"
  ti_profile :: "power_profile option"
  ti_profile_changed :: bool
  ti_hd :: "hd_snapshot option"
  ti_recv :: recv_answer
  ti_rest :: "try_recv_answer list"
  ti_idle_ms :: nat
  ti_keyboard_idle_ms :: nat
  ti_later :: instant
  ti_visual_diff :: "f64 option"
  ti_drm_query :: app_query
  ti_answers :: capture_answers
  ti_timeout :: "capture_world option"
  ti_done :: instant

record hot_frame =
  hf_frame_id :: int
  hf_app :: rstr
  hf_window :: rstr
  hf_preview :: rstr
  hf_path :: rstr
  hf_url :: "rstr option"
  hf_trigger :: rstr

datatype loop_effect =
  ReleaseStream
| SetQuality nat
| ToLinker linker_message
| CaptureAttempt
| FrameStored capture_result frame_row
| PushHot hot_frame
| DedupSkip
| Sleep duration
| WaitFocus

record loop_env =
  le_params :: capture_params
  le_monitor :: monitor
  le_identity :: monitor_identity
  le_bounds :: "rect list"
  le_idle_phase :: duration
  le_has_linker :: bool
  le_has_comparer :: bool
  le_hot_cache :: bool

definition poll_interval :: duration where "poll_interval = from_millis 250"

definition dropped :: "loop_env \<Rightarrow> correlation_id list \<Rightarrow> drop_reason \<Rightarrow> loop_effect list" where
  "dropped env ids reason = map ToLinker (report_triggers_dropped (le_has_linker env) ids reason)"

text \<open>A report that is sent only when there are ids.\<close>

definition dropped_ids :: "loop_env \<Rightarrow> correlation_id list \<Rightarrow> drop_reason \<Rightarrow> loop_effect list" where
  "dropped_ids env ids reason = (if ids = [] then [] else dropped env ids reason)"

definition linked :: "loop_env \<Rightarrow> int \<Rightarrow> correlation_id list \<Rightarrow> loop_effect list" where
  "linked env frame_id ids =
     (if ids \<noteq> [] \<and> le_has_linker env
      then [ToLinker (FrameCaptured \<lparr>fc_frame = frame_id, fc_corrs = ids\<rparr>)] else [])"

definition push_to_hot_cache :: "capture_result \<Rightarrow> capture_trigger \<Rightarrow> hot_frame" where
  "push_to_hot_cache r trigger =
     \<lparr>hf_frame_id = cr_frame_id r, hf_app = or_empty (cr_app r), hf_window = or_empty (cr_window r),
      hf_preview = utf8 (take 200 (chars (or_empty (cr_text r)))), hf_path = cr_snapshot_path r,
      hf_url = cr_url r, hf_trigger = trigger_name trigger\<rparr>"

section \<open>The gates\<close>

text \<open>Focus: either the turn ends here, or it goes on, possibly with a forced trigger.\<close>

definition focus_gate ::
  "loop_env \<Rightarrow> turn_reads \<Rightarrow> capture_vars \<Rightarrow> capture_vars \<times> loop_effect list \<times> capture_trigger option option" where
  "focus_gate env i v =
     (let st = state_for_identity (ti_now i) (le_identity env) (ti_focus i);
          release = (if st = Cold \<and> \<not> cv_was_cold v then [ReleaseStream] else []);
          v1 = v\<lparr>cv_was_cold := (st = Cold)\<rparr>
      in case st of
           ActiveCapture \<Rightarrow> (v1, release, Some None)
         | Warm \<Rightarrow>
             if elapsed (ti_now i) (cv_last_warm v) < from_secs 5 then (v1, release @ [Sleep (from_millis 250)], None)
             else
               let v2 = v1\<lparr>cv_last_warm := ti_now i\<rparr> in
               if \<not> le_has_comparer env then (v2, release @ [Sleep (from_millis 250)], None)
               else (case ti_warm_diff i of
                       Some diff \<Rightarrow>
                         if cv_visual_threshold v < diff then (v2, release, Some (Some VisualChange))
                         else (v2, release @ [Sleep (from_millis 250)], None)
                     | None \<Rightarrow> (v2, release @ [Sleep (from_millis 250)], None))
         | Cold \<Rightarrow>
             (v1, release @ dropped_ids env (drain_pending_corr_ids (ti_drained i)) OtherDrop @ [WaitFocus], None))"

definition in_pause_state :: "turn_reads \<Rightarrow> bool" where
  "in_pause_state i \<longleftrightarrow>
     gf_locked (ti_flags i)
     \<or> (case ti_profile i of Some p \<Rightarrow> pp_capture_paused p | None \<Rightarrow> False)
     \<or> gf_drm (ti_flags i) \<or> gf_schedule (ti_flags i)"

definition pause_gate :: "loop_env \<Rightarrow> turn_reads \<Rightarrow> capture_vars \<Rightarrow> capture_vars \<times> loop_effect list \<times> bool" where
  "pause_gate env i v =
     (if in_pause_state i
      then (v\<lparr>cv_was_paused := True\<rparr>,
            (if should_release_on_pause_entry (cv_was_paused v) True then [ReleaseStream] else [])
            @ dropped_ids env (drain_pending_corr_ids (ti_drained i)) Paused
            @ [Sleep poll_interval], False)
      else (v\<lparr>cv_was_paused := False\<rparr>, [], True))"

section \<open>Settings that change while the loop runs\<close>

definition apply_profile :: "power_profile \<Rightarrow> capture_vars \<Rightarrow> capture_vars \<times> loop_effect list" where
  "apply_profile p v =
     (let (bk, ms) = on_baseline_change (pp_min_capture_interval_ms p) (cv_high_fps v);
          cfg = es_config (cv_state v);
          effective_q = min (pp_jpeg_quality p) (ec_jpeg_quality cfg);
          cfg' = cfg\<lparr>ec_min_capture_interval_ms := ms,
                     ec_idle_capture_interval_ms := pp_idle_capture_interval_ms p,
                     ec_jpeg_quality := effective_q\<rparr>
      in (v\<lparr>cv_high_fps := bk, cv_state := (cv_state v)\<lparr>es_config := cfg'\<rparr>,
            cv_visual_interval := from_millis (pp_visual_check_interval_ms p),
            cv_visual_threshold := pp_visual_change_threshold p,
            cv_visual_enabled := (0 < pp_visual_check_interval_ms p),
            cv_screenshot_disabled := pp_screenshot_disabled p\<rparr>,
          [SetQuality effective_q]))"

definition apply_profile_change :: "turn_reads \<Rightarrow> capture_vars \<Rightarrow> capture_vars \<times> loop_effect list" where
  "apply_profile_change i v =
     (case ti_profile i of
        Some p \<Rightarrow> if ti_profile_changed i then apply_profile p v else (v, [])
      | None \<Rightarrow> (v, []))"

definition apply_hd :: "turn_reads \<Rightarrow> capture_vars \<Rightarrow> capture_vars" where
  "apply_hd i v =
     (case ti_hd i of
        None \<Rightarrow> v
      | Some snap \<Rightarrow>
          (let cfg = es_config (cv_state v);
               (bk, new_ms) = on_controller_state (effective_interval_ms snap) (ec_min_capture_interval_ms cfg)
                                (cv_high_fps v);
               v1 = v\<lparr>cv_hd_active := hs_active snap, cv_high_fps := bk\<rparr>
           in case new_ms of
                Some ms \<Rightarrow> v1\<lparr>cv_state := (cv_state v1)\<lparr>es_config := cfg\<lparr>ec_min_capture_interval_ms := ms\<rparr>\<rparr>\<rparr>
              | None \<Rightarrow> v1))"

section \<open>Where the trigger comes from\<close>

text \<open>Draining the channel after the first message: the messages, the number of lags, and whether the
  channel is closed.\<close>

fun drain_channel :: "try_recv_answer list \<Rightarrow> trigger_msg list \<times> nat \<times> bool" where
  "drain_channel [] = ([], 0, False)"
| "drain_channel (TryMsg m # rs) = (let (ms, n, c) = drain_channel rs in (m # ms, n, c))"
| "drain_channel (TryEmpty # rs) = ([], 0, False)"
| "drain_channel (TryClosed # rs) = ([], 0, True)"
| "drain_channel (TryLagged # rs) = (let (ms, n, c) = drain_channel rs in (ms, Suc n, c))"

definition receive :: "turn_reads \<Rightarrow> trigger_msg list \<times> nat \<times> bool" where
  "receive i =
     (case ti_recv i of
        RecvMsg m \<Rightarrow> (let (ms, n, c) = drain_channel (ti_rest i) in (m # ms, n, c))
      | RecvLagged \<Rightarrow> (let (ms, n, c) = drain_channel (ti_rest i) in (ms, Suc n, c))
      | RecvClosed \<Rightarrow> ([], 0, True)
      | RecvElapsed \<Rightarrow> drain_channel (ti_rest i))"

definition poll_vars :: "turn_reads \<Rightarrow> capture_vars \<Rightarrow> capture_vars \<times> capture_trigger option" where
  "poll_vars i v =
     (let (s, t) = poll_activity (ti_later i) (ti_idle_ms i) (cv_state v) in (v\<lparr>cv_state := s\<rparr>, t))"

definition gather ::
  "loop_env \<Rightarrow> turn_reads \<Rightarrow> capture_trigger option \<Rightarrow> capture_vars \<Rightarrow>
   capture_vars \<times> loop_effect list \<times> capture_trigger option \<times> correlation_id list" where
  "gather env i warm v =
     (case warm of
        Some t \<Rightarrow> (v, [], Some t, [])
      | None \<Rightarrow>
          if cv_channel_closed v then
            (let (v1, t) = poll_vars i v
             in (v1, if t = None then [Sleep poll_interval] else [], t, []))
          else
            (let (msgs, lags, closed) = receive i;
                 reports = concat (replicate lags (dropped env [] Lagged));
                 v1 = (if closed then v\<lparr>cv_channel_closed := True\<rparr> else v);
                 kept = filter (\<lambda>m. trigger_applies_to_monitor (tm_trigger m) (le_monitor env) (le_bounds env)) msgs;
                 (t, ids) = reduce_drained_triggers kept;
                 t1 = (if t = None \<and> 0 < lags then Some Manual else t)
             in if t1 = None
                then let (v2, t2) = poll_vars i v1 in (v2, reports, t2, ids)
                else (v1, reports, t1, ids)))"

definition visual_check ::
  "loop_env \<Rightarrow> turn_reads \<Rightarrow> capture_trigger option \<Rightarrow> capture_vars \<Rightarrow> capture_vars \<times> capture_trigger option" where
  "visual_check env i trigger v =
     (if should_run_visual_check trigger (cv_visual_enabled v) (can_capture (ti_later i) (cv_state v))
           (gf_drm (ti_flags i)) (gf_schedule (ti_flags i)) (elapsed (ti_later i) (cv_last_visual v))
           (cv_visual_interval v) (ti_keyboard_idle_ms i)
      then (v\<lparr>cv_last_visual := ti_later i\<rparr>,
            if le_has_comparer env
            then (case ti_visual_diff i of
                    Some diff \<Rightarrow> if cv_visual_threshold v < diff then Some VisualChange else trigger
                  | None \<Rightarrow> trigger)
            else trigger)
      else (v, trigger))"

section \<open>A capture\<close>

fun resets_context :: "capture_trigger \<Rightarrow> bool" where
  "resets_context (AppSwitch _ _) = True"
| "resets_context (WindowFocus _ _) = True"
| "resets_context _ = False"

definition reset_context :: "capture_trigger \<Rightarrow> capture_vars \<Rightarrow> capture_vars" where
  "reset_context t v = (if resets_context t then v\<lparr>cv_last_hash := None, cv_elements := None\<rparr> else v)"

definition elements_ref :: "capture_vars \<Rightarrow> int option" where
  "elements_ref v =
     (case (cv_last_hash v, cv_elements v) of
        (Some h, Some (prev_frame_id, prev_hash)) \<Rightarrow> if h = prev_hash \<and> h \<noteq> 0 then Some prev_frame_id else None
      | _ \<Rightarrow> None)"

definition pre_drm_check :: "loop_env \<Rightarrow> turn_reads \<Rightarrow> rstr option \<Rightarrow> gate_flags \<Rightarrow> gate_flags \<times> bool" where
  "pre_drm_check env i app g =
     (if cp_macos (le_params env)
      then pre_capture_drm_check_macos (cp_low (le_params env)) (cp_pause_on_drm (le_params env)) app (ti_drm_query i) g
      else pre_capture_drm_check_other g)"

fun switch_app :: "capture_trigger \<Rightarrow> rstr option" where
  "switch_app (AppSwitch name _) = Some name"
| "switch_app _ = None"

text \<open>After a capture that stored a frame.\<close>

definition stored_vars :: "instant \<Rightarrow> capture_result \<Rightarrow> bool \<Rightarrow> capture_vars \<Rightarrow> capture_vars" where
  "stored_vars done_at r deduped v =
     v\<lparr>cv_last_hash := cr_content_hash r, cv_last_frame := Some (cr_frame_id r), cv_last_db_write := done_at,
       cv_elements := (if deduped then cv_elements v
                       else case cr_content_hash r of Some h \<Rightarrow> Some (cr_frame_id r, h) | None \<Rightarrow> cv_elements v)\<rparr>"

definition stored_effects ::
  "loop_env \<Rightarrow> capture_result \<Rightarrow> frame_row \<Rightarrow> capture_trigger \<Rightarrow> correlation_id list \<Rightarrow> loop_effect list" where
  "stored_effects env r row t ids =
     FrameStored r row # (if le_hot_cache env then [PushHot (push_to_hot_cache r t)] else [])
     @ linked env (cr_frame_id r) ids"

definition backoff :: "nat \<Rightarrow> loop_effect list" where
  "backoff errors = (if 3 \<le> errors then [Sleep (from_secs (min (errors div 3) 30))] else [])"

definition captured ::
  "loop_env \<Rightarrow> turn_reads \<Rightarrow> capture_trigger \<Rightarrow> correlation_id list \<Rightarrow> capture_world \<Rightarrow> capture_output option \<Rightarrow>
   capture_vars \<Rightarrow> capture_vars \<times> loop_effect list" where
  "captured env i t ids w out v =
     (let v1 = v\<lparr>cv_world := w, cv_state := mark_captured (ti_done i) (cv_state v)\<rparr> in
      case out of
        None \<Rightarrow>
          (let n = cv_errors v + 1 in
           (v1\<lparr>cv_errors := n\<rparr>, dropped_ids env ids CaptureError @ backoff n))
      | Some o1 \<Rightarrow>
          (let v2 = v1\<lparr>cv_errors := 0\<rparr> in
           case co_result o1 of
             Some (r, row) \<Rightarrow> (stored_vars (ti_done i) r (co_deduped o1) v2, stored_effects env r row t ids)
           | None \<Rightarrow>
               (v2, DedupSkip # (case cv_last_frame v of Some fid \<Rightarrow> linked env fid ids | None \<Rightarrow> []))))"

definition attempt ::
  "loop_env \<Rightarrow> turn_reads \<Rightarrow> capture_trigger \<Rightarrow> correlation_id list \<Rightarrow> capture_vars \<Rightarrow> capture_vars \<times> loop_effect list" where
  "attempt env i t ids v =
     (let (g, blocked) = pre_drm_check env i (switch_app t) (wo_flags (cv_world v));
          v1 = v\<lparr>cv_world := (cv_world v)\<lparr>wo_flags := g\<rparr>\<rparr>
      in if blocked then (v1, dropped_ids env ids Drm @ [Sleep poll_interval])
         else case ti_timeout i of
           Some w \<Rightarrow>
             (v1\<lparr>cv_world := w, cv_errors := cv_errors v + 1, cv_state := mark_captured (ti_done i) (cv_state v)\<rparr>,
              CaptureAttempt # dropped_ids env ids CaptureError)
         | None \<Rightarrow>
             (let (w, out) = do_capture (le_params env) t (cv_last_hash v1)
                     (elapsed (an_now (ti_answers i)) (cv_last_db_write v1)) (elements_ref v1)
                     (cv_screenshot_disabled v1) (cv_hd_active v1) (ti_answers i) (cv_world v1);
                  (v2, es) = captured env i t ids w out v1
              in (v2, CaptureAttempt # es)))"

definition debounced :: "loop_env \<Rightarrow> correlation_id list \<Rightarrow> capture_vars \<Rightarrow> loop_effect list" where
  "debounced env ids v =
     (if ids = [] then []
      else case cv_last_frame v of
        Some fid \<Rightarrow> if le_has_linker env then linked env fid ids else dropped env ids OtherDrop
      | None \<Rightarrow> dropped env ids OtherDrop)"

definition handle_trigger ::
  "loop_env \<Rightarrow> turn_reads \<Rightarrow> capture_trigger option \<Rightarrow> correlation_id list \<Rightarrow> capture_vars \<Rightarrow>
   capture_vars \<times> loop_effect list" where
  "handle_trigger env i trigger ids v =
     (case trigger of
        None \<Rightarrow> (v, [])
      | Some t \<Rightarrow>
          (let v1 = reset_context t v in
           if can_capture (ti_later i) (cv_state v1) \<or> is_workflow_checkpoint_trigger t
           then attempt env i t ids v1
           else (v1, debounced env ids v1)))"

section \<open>The loop\<close>

definition capture_turn :: "loop_env \<Rightarrow> turn_reads \<Rightarrow> capture_vars \<Rightarrow> capture_vars \<times> loop_effect list" where
  "capture_turn env i v =
     (let v0 = v\<lparr>cv_world := (cv_world v)\<lparr>wo_flags := ti_flags i, wo_throttle := ti_throttle i\<rparr>\<rparr>;
          (v1, es1, warm) = focus_gate env i v0
      in case warm of
           None \<Rightarrow> (v1, es1)
         | Some w \<Rightarrow>
             (let (v2, es2, go_on) = pause_gate env i v1 in
              if \<not> go_on then (v2, es1 @ es2)
              else
                let (v3, es3) = apply_profile_change i v2;
                    v4 = apply_hd i v3;
                    (v5, es4, t, ids) = gather env i w v4;
                    (v6, t') = visual_check env i t v5;
                    (v7, es5) = handle_trigger env i t' ids v6
                in (v7, es1 @ es3 @ es4 @ es5)))"

fun capture_run :: "loop_env \<Rightarrow> turn_reads list \<Rightarrow> capture_vars \<Rightarrow> capture_vars \<times> loop_effect list" where
  "capture_run env [] v = (v, [])"
| "capture_run env (i # is) v =
     (let (v', es) = capture_turn env i v; (v'', es') = capture_run env is v' in (v'', es @ es'))"

text \<open>Before the loop. \<open>gates\<close> are the flags at start-up; the start-up capture runs at \<open>now\<close>.\<close>

definition initial_vars :: "instant \<Rightarrow> capture_config \<Rightarrow> capture_world \<Rightarrow> capture_vars" where
  "initial_vars now cfg w =
     \<lparr>cv_state = new_event_capture now cfg, cv_visual_enabled = (0 < ec_visual_check_interval_ms cfg),
      cv_visual_interval = from_millis (ec_visual_check_interval_ms cfg),
      cv_visual_threshold = ec_visual_change_threshold cfg, cv_screenshot_disabled = False,
      cv_high_fps = new_bookkeeping (ec_min_capture_interval_ms cfg), cv_channel_closed = False,
      cv_last_visual = now, cv_last_warm = back_dated now (from_secs 10), cv_last_hash = None,
      cv_last_frame = None, cv_last_db_write = now, cv_elements = None, cv_errors = 0,
      cv_hd_active = False, cv_was_cold = False, cv_was_paused = False, cv_world = w\<rparr>"

definition startup_captured :: "loop_env \<Rightarrow> turn_reads \<Rightarrow> capture_vars \<Rightarrow> capture_vars \<times> loop_effect list" where
  "startup_captured env i v =
     (let v1 = v\<lparr>cv_state := (cv_state v)\<lparr>es_last_capture := back_dated (ti_later i) (from_millis 500)\<rparr>\<rparr>
      in case ti_timeout i of
           Some w \<Rightarrow> (v1\<lparr>cv_world := w\<rparr>, [])
         | None \<Rightarrow>
             (let (w, out) = do_capture (le_params env) Manual None
                     (elapsed (an_now (ti_answers i)) (cv_last_db_write v1)) None False False (ti_answers i) (cv_world v1);
                  v2 = v1\<lparr>cv_world := w\<rparr>
              in case out of
                   None \<Rightarrow> (v2, [])
                 | Some o1 \<Rightarrow>
                     (let v3 = v2\<lparr>cv_state := mark_captured (ti_done i) (cv_state v2)\<rparr> in
                      case co_result o1 of
                        Some (r, row) \<Rightarrow> (stored_vars (ti_done i) r False v3, stored_effects env r row Manual [])
                      | None \<Rightarrow> (v3, [DedupSkip]))))"

definition start_capture :: "loop_env \<Rightarrow> turn_reads \<Rightarrow> capture_config \<Rightarrow> capture_world \<Rightarrow> capture_vars \<times> loop_effect list" where
  "start_capture env i cfg w =
     (let v = initial_vars (ti_now i) cfg (w\<lparr>wo_flags := ti_flags i, wo_throttle := ti_throttle i\<rparr>);
          (v1, es) =
            (if gf_locked (ti_flags i) then (v, [])
             else let (g, blocked) = pre_drm_check env i None (ti_flags i);
                      v' = v\<lparr>cv_world := (cv_world v)\<lparr>wo_flags := g\<rparr>\<rparr>
                  in if blocked \<or> gf_schedule g then (v', []) else startup_captured env i v')
      in (v1\<lparr>cv_state := phase_next_idle_capture (ti_done i) (le_idle_phase env) (cv_state v1)\<rparr>, es))"

end
