(* ===== verification/CaptureFacts.thy ===== *)
theory CaptureFacts
  imports CaptureLoop
begin

text \<open>
  Facts about one capture and one turn of the capture loop that the properties share: what a
  stored frame went through, which correlation ids a turn reports, and which frames it names.
\<close>

section \<open>What a stored frame went through\<close>

definition frame_allowed :: "capture_params \<Rightarrow> frame_row \<Rightarrow> bool" where
  "frame_allowed p row \<longleftrightarrow>
     \<not> matches_any (parse_list (cp_low p) (cp_ignored_windows p))
         (cp_low p (or_empty (fr_app row))) (cp_low p (or_empty (fr_window row)))
     \<and> (case fr_app row of Some a \<Rightarrow> cp_low p a \<notin> set lock_apps | None \<Rightarrow> True)
     \<and> (if cp_pause_on_drm p then \<not> is_drm_content (cp_low p) (or_empty (fr_app row)) (fr_url row) else True)"

lemma paired_capture_row:
  assumes "paired_capture lb written ins cx snap = Some (r, row)"
  shows "fr_app row = cx_app cx" "fr_window row = cx_window cx" "fr_url row = cx_url cx"
    "ins row = Some (cr_frame_id r)" "row = frame_row_of lb cx snap (cr_snapshot_path r)"
    "cr_content_hash r = fr_hash row" "cr_app r = cx_app cx" "cr_window r = cx_window cx"
    "fr_trigger row = cx_trigger cx"
  using assms
  by (auto simp: paired_capture_def frame_row_of_def Let_def case_prod_beta split: option.splits if_split_asm)

lemma lock_gate_open:
  "lock_gate low app g = (g', True) \<Longrightarrow> (case app of Some a \<Rightarrow> low a \<notin> set lock_apps | None \<Rightarrow> \<not> gf_locked g)"
  by (auto simp: lock_gate_def split: option.splits if_split_asm)

lemma drm_state_clear:
  "check_and_update_drm_state low pause app url g = (g', False) \<Longrightarrow> pause \<Longrightarrow>
     \<not> is_drm_content low (or_empty app) url"
  by (auto simp: check_and_update_drm_state_def or_empty_def Let_def split: option.splits if_split_asm)

lemma store_capture_allowed:
  assumes "store_capture p t a eref sd snap (app, window, url, document) w = (w', Some o1)"
    "co_result o1 = Some (r, row)"
  shows "frame_allowed p row" "an_insert a row = Some (cr_frame_id r)" "fr_app row = app" "fr_window row = window"
    "co_deduped o1 = (eref \<noteq> None)" "cr_content_hash r = fr_hash row" "fr_trigger row = trigger_name t"
proof -
  obtain g1 unlocked where l: "lock_gate (cp_low p) app (wo_flags w) = (g1, unlocked)" by fastforce
  obtain g2 drm where d: "check_and_update_drm_state (cp_low p) (cp_pause_on_drm p) app url g1 = (g2, drm)" by fastforce
  define ps where "ps = parse_list (cp_low p) (cp_ignored_windows p)"
  define m where "m = matches_any ps (cp_low p (or_empty app)) (cp_low p (or_empty window))"
  define cx where "cx = \<lparr>cx_app = app, cx_window = window, cx_url = url, cx_document = document,
      cx_trigger = trigger_name t, cx_pii_removal = cp_pii_removal p, cx_elements_ref = eref,
      cx_screenshot_disabled = sd\<rparr>"
  have eq: "store_capture p t a eref sd snap (app, window, url, document) w =
      (if \<not> unlocked then (w\<lparr>wo_flags := g1\<rparr>, Some no_capture)
       else if m then (w\<lparr>wo_flags := g1\<rparr>, Some no_capture)
       else if drm then (w\<lparr>wo_flags := g2\<rparr>, Some no_capture)
       else case paired_capture (cp_lib p) (an_written a) (an_insert a) cx snap of
              None \<Rightarrow> (w\<lparr>wo_flags := g2\<rparr>, None)
            | Some r \<Rightarrow> (w\<lparr>wo_flags := g2\<rparr>, Some \<lparr>co_result = Some r, co_deduped = (eref \<noteq> None)\<rparr>))"
    by (simp add: store_capture_def l d m_def ps_def cx_def Let_def split: option.split)
  have u: "unlocked" "\<not> m" "\<not> drm"
    using assms unfolding eq by (auto simp: no_capture_def split: if_split_asm)
  with assms have pc: "paired_capture (cp_lib p) (an_written a) (an_insert a) cx snap = Some (r, row)"
    and dd: "co_deduped o1 = (eref \<noteq> None)"
    unfolding eq by (auto split: option.splits)
  note row = paired_capture_row [OF pc]
  have f: "fr_app row = app" "fr_window row = window" "fr_url row = url" using row by (simp_all add: cx_def)
  from lock_gate_open [of "cp_low p" app "wo_flags w" g1] l u(1)
  have lk: "case app of Some a \<Rightarrow> cp_low p a \<notin> set lock_apps | None \<Rightarrow> \<not> gf_locked (wo_flags w)" by simp
  then have lk': "case app of Some a \<Rightarrow> cp_low p a \<notin> set lock_apps | None \<Rightarrow> True" by (cases app) simp_all
  from d u(3) have "cp_pause_on_drm p \<Longrightarrow> \<not> is_drm_content (cp_low p) (or_empty app) url"
    by (auto dest: drm_state_clear)
  with u(2) lk' show "frame_allowed p row"
    unfolding frame_allowed_def f m_def ps_def by simp
  show "an_insert a row = Some (cr_frame_id r)" "fr_app row = app" "fr_window row = window"
    "co_deduped o1 = (eref \<noteq> None)" "cr_content_hash r = fr_hash row" "fr_trigger row = trigger_name t"
    using row f dd by (simp_all add: cx_def)
qed

lemma do_capture_stored:
  assumes "do_capture p t prev since eref sd hi a w = (w', Some o1)" "co_result o1 = Some (r, row)"
  shows "frame_allowed p row" "an_insert a row = Some (cr_frame_id r)" "co_deduped o1 = (eref \<noteq> None)"
    "cr_content_hash r = fr_hash row" "fr_trigger row = trigger_name t"
    "an_walk a \<noteq> Some Skipped"
    "\<exists>snap. \<not> content_unchanged t hi since prev snap
       \<and> fr_app row = fst (resolve_capture_metadata snap t (trigger_app p t a))
       \<and> fr_window row = fst (snd (resolve_capture_metadata snap t (trigger_app p t a)))"
proof -
  obtain im where im: "an_screenshot a = Some im" and nb: "\<not> is_frame_mostly_black im"
    using assms by (auto simp: do_capture_def no_capture_def split: option.splits if_split_asm)
  obtain w1 go where pt: "pass_throttles p t a w = (w1, go)" by fastforce
  have go: "go" using assms im nb pt by (auto simp: do_capture_def no_capture_def split: if_split_asm)
  obtain wr where wr: "an_walk a = Some wr"
    using assms im nb pt go by (auto simp: do_capture_def split: option.splits)
  define w2 where "w2 = w1\<lparr>wo_budget := record_cost_of_walk a wr (wo_budget w1)\<rparr>"
  define snap where "snap = (case wr of Found s \<Rightarrow> Some s | _ \<Rightarrow> None)"
  define app where "app = trigger_app p t a"
  define c where "c \<longleftrightarrow> snap = None \<and> (case app of
      Some x \<Rightarrow> matches_any (parse_list (cp_low p) (cp_ignored_windows p)) (cp_low p x) [] | None \<Rightarrow> False)"
  have eq: "do_capture p t prev since eref sd hi a w =
      (if wr = Skipped then (w2, Some no_capture)
       else if c then (w2, Some no_capture)
       else if content_unchanged t hi since prev snap then (w2, Some no_capture)
       else store_capture p t a eref sd snap (resolve_capture_metadata snap t app) w2)"
    by (simp add: do_capture_def im nb pt go wr w2_def snap_def app_def c_def Let_def)
  obtain m1 m2 m3 m4 where meta: "resolve_capture_metadata snap t app = (m1, m2, m3, m4)"
    by (metis surj_pair)
  have k: "wr \<noteq> Skipped" "\<not> c" "\<not> content_unchanged t hi since prev snap"
    using assms unfolding eq by (auto simp: no_capture_def split: if_split_asm)
  with assms(1) have sc: "store_capture p t a eref sd snap (m1, m2, m3, m4) w2 = (w', Some o1)"
    unfolding eq meta by simp
  note s = store_capture_allowed [OF sc assms(2)]
  show "frame_allowed p row" "an_insert a row = Some (cr_frame_id r)" "co_deduped o1 = (eref \<noteq> None)"
    "cr_content_hash r = fr_hash row" "fr_trigger row = trigger_name t" using s by blast+
  show "an_walk a \<noteq> Some Skipped" using k(1) wr by simp
  show "\<exists>snap. \<not> content_unchanged t hi since prev snap
       \<and> fr_app row = fst (resolve_capture_metadata snap t (trigger_app p t a))
       \<and> fr_window row = fst (snd (resolve_capture_metadata snap t (trigger_app p t a)))"
    using k(3) s meta unfolding app_def by (intro exI [of _ snap]) simp
qed

section \<open>Which correlation ids a turn reports\<close>

fun msg_ids :: "linker_message \<Rightarrow> correlation_id list" where
  "msg_ids (FrameCaptured c) = fc_corrs c"
| "msg_ids (TriggerDropped ids _) = ids"
| "msg_ids _ = []"

fun effect_ids :: "loop_effect \<Rightarrow> correlation_id list" where
  "effect_ids (ToLinker m) = msg_ids m"
| "effect_ids _ = []"

definition reported :: "loop_effect list \<Rightarrow> correlation_id list" where
  "reported es = concat (map effect_ids es)"

lemma reported_simps [simp]:
  "reported [] = []"
  "reported (e # es) = effect_ids e @ reported es"
  "reported (es @ es') = reported es @ reported es'"
  by (simp_all add: reported_def)

lemma reported_dropped [simp]: "le_has_linker env \<Longrightarrow> reported (dropped env ids r) = ids"
  by (simp add: dropped_def report_triggers_dropped_def)

lemma reported_dropped_ids [simp]: "le_has_linker env \<Longrightarrow> reported (dropped_ids env ids r) = ids"
  by (simp add: dropped_ids_def)

lemma reported_linked [simp]: "le_has_linker env \<Longrightarrow> reported (linked env f ids) = ids"
  by (simp add: linked_def)

lemma reported_lagged [simp]: "le_has_linker env \<Longrightarrow> reported (concat (replicate n (dropped env [] r))) = []"
  by (induction n) simp_all

lemma reported_backoff [simp]: "reported (backoff n) = []"
  by (simp add: backoff_def)

text \<open>What a turn takes from the channel and owes the linker a report for.\<close>

definition kept_msgs :: "loop_env \<Rightarrow> turn_reads \<Rightarrow> trigger_msg list" where
  "kept_msgs env i =
     filter (\<lambda>m. trigger_applies_to_monitor (tm_trigger m) (le_monitor env) (le_bounds env)) (fst (receive i))"

definition owed :: "loop_env \<Rightarrow> turn_reads \<Rightarrow> capture_vars \<Rightarrow> correlation_id list" where
  "owed env i v =
     (case state_for_identity (ti_now i) (le_identity env) (ti_focus i) of
        Cold \<Rightarrow> drain_pending_corr_ids (ti_drained i)
      | st \<Rightarrow>
          (case snd (snd (focus_gate env i v)) of
             None \<Rightarrow> []
           | Some warm \<Rightarrow>
               if in_pause_state i then drain_pending_corr_ids (ti_drained i)
               else if warm \<noteq> None \<or> cv_channel_closed v then []
               else concat (map corr_list (kept_msgs env i))))"

definition with_reads :: "turn_reads \<Rightarrow> capture_vars \<Rightarrow> capture_vars" where
  "with_reads i v = v\<lparr>cv_world := (cv_world v)\<lparr>wo_flags := ti_flags i, wo_throttle := ti_throttle i\<rparr>\<rparr>"

lemma focus_gate_world:
  "snd (focus_gate env i (v\<lparr>cv_world := w\<rparr>)) = snd (focus_gate env i v)"
  by (simp add: focus_gate_def Let_def split: capture_state.split option.split)

lemma focus_gate_keeps:
  "cv_last_frame (fst (focus_gate env i v)) = cv_last_frame v"
  "cv_channel_closed (fst (focus_gate env i v)) = cv_channel_closed v"
  "cv_state (fst (focus_gate env i v)) = cv_state v"
  "cv_high_fps (fst (focus_gate env i v)) = cv_high_fps v"
  "cv_world (fst (focus_gate env i v)) = cv_world v"
  by (simp_all add: focus_gate_def Let_def split: capture_state.split option.split)

lemma pause_gate_keeps:
  "cv_last_frame (fst (pause_gate env i v)) = cv_last_frame v"
  "cv_channel_closed (fst (pause_gate env i v)) = cv_channel_closed v"
  "cv_state (fst (pause_gate env i v)) = cv_state v"
  "cv_high_fps (fst (pause_gate env i v)) = cv_high_fps v"
  "cv_world (fst (pause_gate env i v)) = cv_world v"
  "snd (snd (pause_gate env i v)) \<longleftrightarrow> \<not> in_pause_state i"
  by (simp_all add: pause_gate_def)

lemma profile_keeps:
  "cv_last_frame (fst (apply_profile_change i v)) = cv_last_frame v"
  "cv_channel_closed (fst (apply_profile_change i v)) = cv_channel_closed v"
  "cv_world (fst (apply_profile_change i v)) = cv_world v"
  by (simp_all add: apply_profile_change_def apply_profile_def Let_def case_prod_beta split: option.split)

lemma hd_keeps:
  "cv_last_frame (apply_hd i v) = cv_last_frame v"
  "cv_channel_closed (apply_hd i v) = cv_channel_closed v"
  "cv_world (apply_hd i v) = cv_world v"
  by (simp_all add: apply_hd_def Let_def case_prod_beta split: option.split)

lemma reported_profile [simp]: "reported (snd (apply_profile_change i v)) = []"
  by (simp add: apply_profile_change_def apply_profile_def Let_def case_prod_beta split: option.split)

text \<open>The trigger and the ids a turn gathers.\<close>

lemma gather_facts:
  assumes "gather env i warm v = (v', es, t, ids)"
  shows "ids = (if warm \<noteq> None \<or> cv_channel_closed v then [] else concat (map corr_list (kept_msgs env i)))"
    "t = None \<Longrightarrow> ids = []"
    "le_has_linker env \<Longrightarrow> reported es = []"
    "cv_last_frame v' = cv_last_frame v" "cv_world v' = cv_world v" "cv_high_fps v' = cv_high_fps v"
    "es_config (cv_state v') = es_config (cv_state v)"
    "es_last_capture (cv_state v') = es_last_capture (cv_state v)"
proof -
  have r: "reduce_drained_triggers (kept_msgs env i) = (last_checkpoint (kept_msgs env i), concat (map corr_list (kept_msgs env i)))"
    by (rule reduce_is_last_checkpoint)
  have p: "cv_last_frame (fst (poll_vars i u)) = cv_last_frame u" "cv_world (fst (poll_vars i u)) = cv_world u"
    "cv_high_fps (fst (poll_vars i u)) = cv_high_fps u"
    "es_config (cv_state (fst (poll_vars i u))) = es_config (cv_state u)"
    "es_last_capture (cv_state (fst (poll_vars i u))) = es_last_capture (cv_state u)" for u
    by (simp_all add: poll_vars_def poll_activity_def)
  obtain ms lags cl where rc: "receive i = (ms, lags, cl)" by (metis surj_pair)
  have k: "kept_msgs env i = filter (\<lambda>m. trigger_applies_to_monitor (tm_trigger m) (le_monitor env) (le_bounds env)) ms"
    by (simp add: kept_msgs_def rc)
  define u where "u = (if cl then v\<lparr>cv_channel_closed := True\<rparr> else v)"
  have u: "cv_last_frame u = cv_last_frame v" "cv_world u = cv_world v" "cv_high_fps u = cv_high_fps v"
    "cv_state u = cv_state v" by (simp_all add: u_def)
  have lc: "last_checkpoint (kept_msgs env i) = None \<Longrightarrow> concat (map corr_list (kept_msgs env i)) = []"
    by (simp add: last_checkpoint_None)
  have main: "gather env i None v = (if cv_channel_closed v then
        (let (v1, t) = poll_vars i v in (v1, if t = None then [Sleep poll_interval] else [], t, []))
      else (let t1 = (if last_checkpoint (kept_msgs env i) = None \<and> 0 < lags then Some Manual
                      else last_checkpoint (kept_msgs env i));
                reports = concat (replicate lags (dropped env [] Lagged));
                ids = concat (map corr_list (kept_msgs env i))
            in if t1 = None then let (v2, t2) = poll_vars i u in (v2, reports, t2, ids) else (u, reports, t1, ids)))"
    by (cases "last_checkpoint (kept_msgs env i)")
       (simp_all add: gather_def rc Let_def r k [symmetric] u_def [symmetric])
  show "ids = (if warm \<noteq> None \<or> cv_channel_closed v then [] else concat (map corr_list (kept_msgs env i)))"
    "t = None \<Longrightarrow> ids = []" "le_has_linker env \<Longrightarrow> reported es = []"
    "cv_last_frame v' = cv_last_frame v" "cv_world v' = cv_world v" "cv_high_fps v' = cv_high_fps v"
    "es_config (cv_state v') = es_config (cv_state v)"
    "es_last_capture (cv_state v') = es_last_capture (cv_state v)"
    using assms main p u lc
    by (cases warm; auto simp: gather_def Let_def case_prod_beta split: if_split_asm)+
qed

text \<open>The last part of a turn: every outcome reports the ids, but for a capture that stored nothing
  when no frame has ever been stored.\<close>

lemma captured_reports:
  assumes "le_has_linker env"
  shows "reported (snd (captured env i t ids w out v)) = ids
    \<or> (cv_last_frame v = None \<and> DedupSkip \<in> set (snd (captured env i t ids w out v))
       \<and> reported (snd (captured env i t ids w out v)) = [])"
  using assms
  by (cases out; cases "cv_last_frame v")
    (auto simp: captured_def stored_effects_def Let_def split: option.split prod.split)

lemma attempt_reports:
  assumes "le_has_linker env"
  shows "reported (snd (attempt env i t ids v)) = ids
    \<or> (cv_last_frame v = None \<and> DedupSkip \<in> set (snd (attempt env i t ids v))
       \<and> reported (snd (attempt env i t ids v)) = [])"
proof -
  obtain g blocked where g: "pre_drm_check env i (switch_app t) (wo_flags (cv_world v)) = (g, blocked)"
    by fastforce
  define v1 where "v1 = v\<lparr>cv_world := (cv_world v)\<lparr>wo_flags := g\<rparr>\<rparr>"
  obtain w out where d: "do_capture (le_params env) t (cv_last_hash v1)
      (elapsed (an_now (ti_answers i)) (cv_last_db_write v1)) (elements_ref v1)
      (cv_screenshot_disabled v1) (cv_hd_active v1) (ti_answers i) (cv_world v1) = (w, out)" by fastforce
  show ?thesis
  proof (cases "blocked \<or> ti_timeout i \<noteq> None")
    case True
    then show ?thesis using assms
      by (auto simp: attempt_def g Let_def)
  next
    case False
    then have "snd (attempt env i t ids v) = CaptureAttempt # snd (captured env i t ids w out v1)"
      by (simp add: attempt_def g v1_def [symmetric] d Let_def case_prod_beta)
    moreover have "cv_last_frame v1 = cv_last_frame v" by (simp add: v1_def)
    ultimately show ?thesis using captured_reports [OF assms, of i t ids w out v1] by auto
  qed
qed

lemma reset_context_keeps [simp]:
  "cv_last_frame (reset_context t v) = cv_last_frame v"
  "cv_state (reset_context t v) = cv_state v"
  "cv_world (reset_context t v) = cv_world v"
  "cv_high_fps (reset_context t v) = cv_high_fps v"
  by (simp_all add: reset_context_def)

lemma debounced_reports: "le_has_linker env \<Longrightarrow> reported (debounced env ids v) = ids"
  by (auto simp: debounced_def split: option.split)

lemma handle_trigger_reports:
  assumes "le_has_linker env" "t = None \<Longrightarrow> ids = []"
  shows "reported (snd (handle_trigger env i t ids v)) = ids
    \<or> (cv_last_frame v = None \<and> DedupSkip \<in> set (snd (handle_trigger env i t ids v))
       \<and> reported (snd (handle_trigger env i t ids v)) = [])"
  using assms attempt_reports [OF assms(1), of i "the t" ids "reset_context (the t) v"]
  by (cases t) (auto simp: handle_trigger_def Let_def debounced_reports)

lemma visual_check_keeps:
  assumes "visual_check env i t v = (v', t')"
  shows "cv_last_frame v' = cv_last_frame v" "cv_world v' = cv_world v" "cv_state v' = cv_state v"
    "cv_high_fps v' = cv_high_fps v"
    "t' = None \<Longrightarrow> t = None" "t' = t \<or> t' = Some VisualChange" "t \<noteq> None \<Longrightarrow> t' = t"
  using assms by (auto simp: visual_check_def should_run_visual_check_def split: if_split_asm option.splits)

text \<open>A turn that passes the gates, in its parts.\<close>

lemma capture_turn_parts:
  obtains (stopped) v1 es1 where "focus_gate env i (with_reads i v) = (v1, es1, None)"
      "capture_turn env i v = (v1, es1)"
  | (paused) v1 es1 w where "focus_gate env i (with_reads i v) = (v1, es1, Some w)" "in_pause_state i"
      "capture_turn env i v = (fst (pause_gate env i v1), es1 @ fst (snd (pause_gate env i v1)))"
  | (runs) v1 es1 w v4 es3 v5 es4 t ids v6 t' where
      "focus_gate env i (with_reads i v) = (v1, es1, Some w)" "\<not> in_pause_state i"
      "v4 = apply_hd i (fst (apply_profile_change i (fst (pause_gate env i v1))))"
      "es3 = snd (apply_profile_change i (fst (pause_gate env i v1)))"
      "gather env i w v4 = (v5, es4, t, ids)" "visual_check env i t v5 = (v6, t')"
      "capture_turn env i v = (fst (handle_trigger env i t' ids v6),
         es1 @ es3 @ es4 @ snd (handle_trigger env i t' ids v6))"
proof -
  obtain v1 es1 warm where f: "focus_gate env i (with_reads i v) = (v1, es1, warm)" by (metis surj_pair)
  show thesis
  proof (cases warm)
    case None
    with f show thesis by (intro stopped) (simp_all add: capture_turn_def with_reads_def Let_def)
  next
    case (Some w)
    show thesis
    proof (cases "in_pause_state i")
      case True
      have "\<not> snd (snd (pause_gate env i v1))" using True by (simp add: pause_gate_keeps)
      with f Some True show thesis
        by (intro paused [of v1 es1 w])
          (auto simp: capture_turn_def with_reads_def [symmetric] Let_def case_prod_beta)
    next
      case False
      have pg: "snd (pause_gate env i v1) = ([], True)" using False by (simp add: pause_gate_def)
      define v4 where "v4 = apply_hd i (fst (apply_profile_change i (fst (pause_gate env i v1))))"
      obtain v5 es4 t ids where g: "gather env i w v4 = (v5, es4, t, ids)" by (metis surj_pair)
      obtain v6 t' where vc: "visual_check env i t v5 = (v6, t')" by fastforce
      have eq: "capture_turn env i v = (fst (handle_trigger env i t' ids v6),
          es1 @ snd (apply_profile_change i (fst (pause_gate env i v1))) @ es4 @ snd (handle_trigger env i t' ids v6))"
        using f Some pg g vc
        by (simp add: capture_turn_def with_reads_def [symmetric] Let_def case_prod_beta v4_def)
      from runs [OF _ False v4_def refl g vc eq] f Some show thesis by simp
    qed
  qed
qed

lemma owed_cases:
  "snd (snd (focus_gate env i (with_reads i v))) = snd (snd (focus_gate env i v))"
  by (simp add: with_reads_def focus_gate_world)

theorem turn_reports:
  assumes "le_has_linker env"
  shows "reported (snd (capture_turn env i v)) = owed env i v
    \<or> (cv_last_frame v = None \<and> DedupSkip \<in> set (snd (capture_turn env i v))
       \<and> reported (snd (capture_turn env i v)) = [])"
proof (cases rule: capture_turn_parts [of env i v])
  case (stopped v1 es1)
  have w: "snd (snd (focus_gate env i v)) = None" using stopped(1) owed_cases [of env i v] by simp
  show ?thesis
  proof (cases "state_for_identity (ti_now i) (le_identity env) (ti_focus i)")
    case Cold
    have "es1 = snd (capture_turn env i v)" using stopped(2) by simp
    moreover have "reported es1 = drain_pending_corr_ids (ti_drained i)"
      using stopped(1) Cold assms by (auto simp: focus_gate_def Let_def)
    ultimately show ?thesis using Cold by (simp add: owed_def)
  next
    case Warm
    have "reported es1 = []"
      using stopped(1) Warm by (auto simp: focus_gate_def Let_def split: if_split_asm option.splits)
    with stopped(2) Warm w show ?thesis by (simp add: owed_def)
  next
    case ActiveCapture
    have "reported es1 = []"
      using stopped(1) ActiveCapture by (auto simp: focus_gate_def Let_def split: if_split_asm)
    with stopped(2) ActiveCapture w show ?thesis by (simp add: owed_def)
  qed
next
  case (paused v1 es1 w)
  have ns: "state_for_identity (ti_now i) (le_identity env) (ti_focus i) \<noteq> Cold"
    using paused(1) by (auto simp: focus_gate_def Let_def)
  have w: "snd (snd (focus_gate env i v)) = Some w" using paused(1) owed_cases [of env i v] by simp
  have e: "reported es1 = []"
    using paused(1) by (auto simp: focus_gate_def Let_def split: if_split_asm option.splits capture_state.splits)
  have "reported (fst (snd (pause_gate env i v1))) = drain_pending_corr_ids (ti_drained i)"
    using paused(2) assms by (simp add: pause_gate_def)
  with e paused(2,3) ns w show ?thesis by (cases "state_for_identity (ti_now i) (le_identity env) (ti_focus i)") (auto simp: owed_def)
next
  case (runs v1 es1 w v4 es3 v5 es4 t ids v6 t')
  have ns: "state_for_identity (ti_now i) (le_identity env) (ti_focus i) \<noteq> Cold"
    using runs(1) by (auto simp: focus_gate_def Let_def)
  have w: "snd (snd (focus_gate env i v)) = Some w" using runs(1) owed_cases [of env i v] by simp
  have e: "reported es1 = []"
    using runs(1) by (auto simp: focus_gate_def Let_def split: if_split_asm option.splits capture_state.splits)
  note g = gather_facts [OF runs(5)] and vc = visual_check_keeps [OF runs(6)]
  have cc: "cv_channel_closed v4 = cv_channel_closed v" "cv_last_frame v4 = cv_last_frame v"
    using runs(1) focus_gate_keeps [of env i "with_reads i v"]
    by (simp_all add: runs(3) hd_keeps profile_keeps pause_gate_keeps with_reads_def)
  have o: "owed env i v = ids"
    using ns w runs(2) g(1) cc(1)
    by (cases "state_for_identity (ti_now i) (le_identity env) (ti_focus i)") (auto simp: owed_def)
  have lf: "cv_last_frame v6 = cv_last_frame v" using vc(1) g(4) cc(2) by simp
  have n: "t' = None \<Longrightarrow> ids = []" using vc(5) g(2) by blast
  from handle_trigger_reports [OF assms n, where i = i and v = v6] e g(3) [OF assms] o lf runs(4,7)
  show ?thesis by auto
qed

section \<open>Which frames the messages name\<close>

fun frame_of_effect :: "loop_effect \<Rightarrow> int list" where
  "frame_of_effect (FrameStored r row) = [cr_frame_id r]"
| "frame_of_effect _ = []"

fun names_frame :: "loop_effect \<Rightarrow> int list" where
  "names_frame (ToLinker m) = (case m of FrameCaptured c \<Rightarrow> [fc_frame c] | _ \<Rightarrow> [])"
| "names_frame _ = []"

definition stored_ids :: "loop_effect list \<Rightarrow> int list" where
  "stored_ids es = concat (map frame_of_effect es)"

text \<open>Every frame named in a message was stored before it, or is in the list to begin with.\<close>

fun frames_known :: "int list \<Rightarrow> loop_effect list \<Rightarrow> bool" where
  "frames_known known [] = True"
| "frames_known known (e # es) =
     (list_all (\<lambda>f. f \<in> set known) (names_frame e) \<and> frames_known (frame_of_effect e @ known) es)"

lemma stored_ids_simps [simp]:
  "stored_ids [] = []" "stored_ids (e # es) = frame_of_effect e @ stored_ids es"
  "stored_ids (es @ es') = stored_ids es @ stored_ids es'"
  by (simp_all add: stored_ids_def)

lemma frames_known_mono: "frames_known k es \<Longrightarrow> set k \<subseteq> set k' \<Longrightarrow> frames_known k' es"
proof (induction es arbitrary: k k')
  case Nil
  then show ?case by simp
next
  case (Cons e es)
  have "set (frame_of_effect e @ k) \<subseteq> set (frame_of_effect e @ k')" using Cons.prems(2) by auto
  with Cons show ?case by (auto simp: list_all_iff)
qed

lemma frames_known_cong: "set k = set k' \<Longrightarrow> frames_known k es = frames_known k' es"
  using frames_known_mono [of k es k'] frames_known_mono [of k' es k] by blast

lemma frames_known_append:
  "frames_known k (es @ es') \<longleftrightarrow> frames_known k es \<and> frames_known (stored_ids es @ k) es'"
proof (induction es arbitrary: k)
  case Nil
  then show ?case by simp
next
  case (Cons e es)
  have "set (stored_ids es @ frame_of_effect e @ k) = set ((frame_of_effect e @ stored_ids es) @ k)" by auto
  from frames_known_cong [OF this, of es'] show ?case by (simp add: Cons.IH)
qed

lemma frames_known_plain:
  "list_all (\<lambda>e. names_frame e = []) es \<Longrightarrow> frames_known k es"
  by (induction es arbitrary: k) auto

lemma names_dropped [simp]:
  "list_all (\<lambda>e. names_frame e = []) (dropped env ids r)"
  "list_all (\<lambda>e. names_frame e = []) (dropped_ids env ids r)"
  "list_all (\<lambda>e. names_frame e = []) (backoff n)"
  by (simp_all add: dropped_def dropped_ids_def report_triggers_dropped_def backoff_def)

lemma stored_dropped [simp]:
  "stored_ids (dropped env ids r) = []" "stored_ids (dropped_ids env ids r) = []" "stored_ids (backoff n) = []"
  "stored_ids (linked env f ids) = []"
  by (simp_all add: dropped_def dropped_ids_def report_triggers_dropped_def backoff_def linked_def)

lemma names_lagged [simp]:
  "list_all (\<lambda>e. names_frame e = []) (concat (replicate n (dropped env ids r)))"
  by (induction n) simp_all

lemma stored_lagged [simp]: "stored_ids (concat (replicate n (dropped env ids r))) = []"
  by (induction n) simp_all

lemma known_linked: "f \<in> set k \<Longrightarrow> frames_known k (linked env f ids)"
  by (simp add: linked_def)

definition last_known :: "int list \<Rightarrow> capture_vars \<Rightarrow> bool" where
  "last_known k v \<longleftrightarrow> (case cv_last_frame v of Some f \<Rightarrow> f \<in> set k | None \<Rightarrow> True)"

lemma captured_known:
  assumes "last_known k v"
  shows "frames_known k (snd (captured env i t ids w out v))"
    "last_known (stored_ids (snd (captured env i t ids w out v)) @ k) (fst (captured env i t ids w out v))"
  using assms
  by (auto simp: captured_def Let_def last_known_def frames_known_append frames_known_plain stored_effects_def
      stored_vars_def known_linked split: option.splits prod.splits)

lemma attempt_known:
  assumes "last_known k v"
  shows "frames_known k (snd (attempt env i t ids v))"
    "last_known (stored_ids (snd (attempt env i t ids v)) @ k) (fst (attempt env i t ids v))"
proof -
  obtain g blocked where g: "pre_drm_check env i (switch_app t) (wo_flags (cv_world v)) = (g, blocked)"
    by fastforce
  define v1 where "v1 = v\<lparr>cv_world := (cv_world v)\<lparr>wo_flags := g\<rparr>\<rparr>"
  obtain w out where d: "do_capture (le_params env) t (cv_last_hash v1)
      (elapsed (an_now (ti_answers i)) (cv_last_db_write v1)) (elements_ref v1)
      (cv_screenshot_disabled v1) (cv_hd_active v1) (ti_answers i) (cv_world v1) = (w, out)" by fastforce
  have lk: "last_known k v1" using assms by (simp add: last_known_def v1_def)
  have "frames_known k (snd (attempt env i t ids v))
    \<and> last_known (stored_ids (snd (attempt env i t ids v)) @ k) (fst (attempt env i t ids v))"
  proof (cases "blocked \<or> ti_timeout i \<noteq> None")
    case True
    then show ?thesis using assms
      by (auto simp: attempt_def g Let_def last_known_def frames_known_append frames_known_plain split: option.splits)
  next
    case False
    then have "attempt env i t ids v =
        (fst (captured env i t ids w out v1), CaptureAttempt # snd (captured env i t ids w out v1))"
      by (simp add: attempt_def g v1_def [symmetric] d Let_def case_prod_beta)
    with captured_known [OF lk, of env i t ids w out] show ?thesis by simp
  qed
  then show "frames_known k (snd (attempt env i t ids v))"
    "last_known (stored_ids (snd (attempt env i t ids v)) @ k) (fst (attempt env i t ids v))" by blast+
qed

lemma handle_trigger_known:
  assumes "last_known k v"
  shows "frames_known k (snd (handle_trigger env i t ids v))"
    "last_known (stored_ids (snd (handle_trigger env i t ids v)) @ k) (fst (handle_trigger env i t ids v))"
proof -
  have r: "last_known k (reset_context u v)" for u using assms by (simp add: last_known_def)
  have d: "frames_known k (debounced env ids u) \<and> stored_ids (debounced env ids u) = []" if "last_known k u" for u
    using that by (auto simp: debounced_def last_known_def frames_known_plain known_linked split: option.split)
  show "frames_known k (snd (handle_trigger env i t ids v))"
    "last_known (stored_ids (snd (handle_trigger env i t ids v)) @ k) (fst (handle_trigger env i t ids v))"
    using attempt_known [OF r] d [OF r] r assms
    by (auto simp: handle_trigger_def Let_def split: option.split)
qed

lemma focus_gate_names:
  "list_all (\<lambda>e. names_frame e = []) (fst (snd (focus_gate env i v)))"
  "stored_ids (fst (snd (focus_gate env i v))) = []"
  by (simp_all add: focus_gate_def Let_def split: capture_state.split option.split)

lemma pause_gate_names:
  "list_all (\<lambda>e. names_frame e = []) (fst (snd (pause_gate env i v)))"
  "stored_ids (fst (snd (pause_gate env i v))) = []"
  by (simp_all add: pause_gate_def)

lemma profile_names:
  "list_all (\<lambda>e. names_frame e = []) (snd (apply_profile_change i v))"
  "stored_ids (snd (apply_profile_change i v)) = []"
  by (simp_all add: apply_profile_change_def apply_profile_def Let_def case_prod_beta split: option.split)

lemma gather_names:
  "list_all (\<lambda>e. names_frame e = []) (fst (snd (gather env i w v)))"
  "stored_ids (fst (snd (gather env i w v))) = []"
  by (auto simp: gather_def Let_def case_prod_beta split: option.split)

theorem turn_known:
  assumes "last_known k v"
  shows "frames_known k (snd (capture_turn env i v))
    \<and> last_known (stored_ids (snd (capture_turn env i v)) @ k) (fst (capture_turn env i v))"
proof (cases rule: capture_turn_parts [of env i v])
  case (stopped v1 es1)
  have "list_all (\<lambda>e. names_frame e = []) es1" "stored_ids es1 = []" "cv_last_frame v1 = cv_last_frame v"
    using focus_gate_names [of env i "with_reads i v"] focus_gate_keeps(1) [of env i "with_reads i v"] stopped(1)
    by (simp_all add: with_reads_def)
  with stopped(2) assms show ?thesis by (simp add: frames_known_plain last_known_def)
next
  case (paused v1 es1 w)
  have "list_all (\<lambda>e. names_frame e = []) es1" "stored_ids es1 = []" "cv_last_frame v1 = cv_last_frame v"
    using focus_gate_names [of env i "with_reads i v"] focus_gate_keeps(1) [of env i "with_reads i v"] paused(1)
    by (simp_all add: with_reads_def)
  with paused(3) assms pause_gate_names [of env i v1] show ?thesis
    by (simp add: frames_known_append frames_known_plain last_known_def pause_gate_keeps)
next
  case (runs v1 es1 w v4 es3 v5 es4 t ids v6 t')
  have a: "list_all (\<lambda>e. names_frame e = []) es1" "stored_ids es1 = []" "cv_last_frame v1 = cv_last_frame v"
    using focus_gate_names [of env i "with_reads i v"] focus_gate_keeps(1) [of env i "with_reads i v"] runs(1)
    by (simp_all add: with_reads_def)
  have b: "list_all (\<lambda>e. names_frame e = []) es3" "stored_ids es3 = []"
    unfolding runs(4) by (rule profile_names)+
  have c: "list_all (\<lambda>e. names_frame e = []) es4" "stored_ids es4 = []"
    using gather_names [of env i w v4] runs(5) by simp_all
  have "cv_last_frame v6 = cv_last_frame v"
    using visual_check_keeps(1) [OF runs(6)] gather_facts(4) [OF runs(5)] a(3)
    by (simp add: runs(3) hd_keeps profile_keeps pause_gate_keeps)
  then have "last_known k v6" using assms by (simp add: last_known_def)
  from handle_trigger_known [OF this, of env i t' ids] a b c runs(7) show ?thesis
    by (simp add: frames_known_append frames_known_plain)
qed

section \<open>When a turn captures\<close>

fun is_capture :: "loop_effect \<Rightarrow> bool" where
  "is_capture CaptureAttempt = True"
| "is_capture (FrameStored _ _) = True"
| "is_capture _ = False"

lemma no_capture_effects [simp]:
  "list_all (\<lambda>e. \<not> is_capture e) (dropped env ids r)"
  "list_all (\<lambda>e. \<not> is_capture e) (dropped_ids env ids r)"
  "list_all (\<lambda>e. \<not> is_capture e) (linked env f ids)"
  "list_all (\<lambda>e. \<not> is_capture e) (backoff n)"
  "list_all (\<lambda>e. \<not> is_capture e) (debounced env ids v)"
  "list_all (\<lambda>e. \<not> is_capture e) (fst (snd (focus_gate env i v)))"
  "list_all (\<lambda>e. \<not> is_capture e) (fst (snd (pause_gate env i v)))"
  "list_all (\<lambda>e. \<not> is_capture e) (snd (apply_profile_change i v))"
  by (simp_all add: dropped_def dropped_ids_def report_triggers_dropped_def linked_def backoff_def debounced_def
      focus_gate_def pause_gate_def apply_profile_change_def apply_profile_def Let_def case_prod_beta list_all_iff
      split: option.split capture_state.split)

lemma no_capture_lagged [simp]: "list_all (\<lambda>e. \<not> is_capture e) (concat (replicate n (dropped env ids r)))"
  by (induction n) simp_all

lemma no_capture_gather [simp]: "list_all (\<lambda>e. \<not> is_capture e) (fst (snd (gather env i w v)))"
  by (auto simp: gather_def Let_def case_prod_beta split: option.split)

lemma attempt_captures:
  assumes "list_ex is_capture (snd (attempt env i t ids v))"
  shows "\<not> snd (pre_drm_check env i (switch_app t) (wo_flags (cv_world v)))"
    "es_last_capture (cv_state (fst (attempt env i t ids v))) = ti_done i"
    "es_config (cv_state (fst (attempt env i t ids v))) = es_config (cv_state v)"
    "FrameStored r row \<in> set (snd (attempt env i t ids v)) \<Longrightarrow>
       frame_allowed (le_params env) row \<and> fr_trigger row = trigger_name t
       \<and> an_insert (ti_answers i) row = Some (cr_frame_id r) \<and> an_walk (ti_answers i) \<noteq> Some Skipped"
proof -
  obtain g blocked where g: "pre_drm_check env i (switch_app t) (wo_flags (cv_world v)) = (g, blocked)"
    by fastforce
  define v1 where "v1 = v\<lparr>cv_world := (cv_world v)\<lparr>wo_flags := g\<rparr>\<rparr>"
  obtain w out where d: "do_capture (le_params env) t (cv_last_hash v1)
      (elapsed (an_now (ti_answers i)) (cv_last_db_write v1)) (elements_ref v1)
      (cv_screenshot_disabled v1) (cv_hd_active v1) (ti_answers i) (cv_world v1) = (w, out)" by fastforce
  have nb: "\<not> blocked"
    using assms no_capture_effects(2) [of env ids Drm]
    by (auto simp: attempt_def g Let_def list_ex_iff list_all_iff)
  then show "\<not> snd (pre_drm_check env i (switch_app t) (wo_flags (cv_world v)))" by (simp add: g)
  have eq: "attempt env i t ids v = (case ti_timeout i of
        Some w \<Rightarrow> (v1\<lparr>cv_world := w, cv_errors := cv_errors v + 1, cv_state := mark_captured (ti_done i) (cv_state v)\<rparr>,
              CaptureAttempt # dropped_ids env ids CaptureError)
      | None \<Rightarrow> (fst (captured env i t ids w out v1), CaptureAttempt # snd (captured env i t ids w out v1)))"
    using nb by (simp add: attempt_def g v1_def [symmetric] d Let_def case_prod_beta split: option.split)
  have st: "cv_state (fst (captured env i t ids w out v1)) = mark_captured (ti_done i) (cv_state v)"
    by (simp add: captured_def Let_def stored_vars_def v1_def split: option.split prod.split)
  show "es_last_capture (cv_state (fst (attempt env i t ids v))) = ti_done i"
    "es_config (cv_state (fst (attempt env i t ids v))) = es_config (cv_state v)"
    unfolding eq by (simp_all add: st mark_captured_def split: option.split)
  show "frame_allowed (le_params env) row \<and> fr_trigger row = trigger_name t
       \<and> an_insert (ti_answers i) row = Some (cr_frame_id r) \<and> an_walk (ti_answers i) \<noteq> Some Skipped"
    if stored: "FrameStored r row \<in> set (snd (attempt env i t ids v))"
  proof -
    have nd: "FrameStored r row \<notin> set (dropped_ids env ids c)" "FrameStored r row \<notin> set (linked env f ids)"
      "FrameStored r row \<notin> set (backoff n)" for c f n
      using no_capture_effects(2) [of env ids c] no_capture_effects(3) [of env f ids] no_capture_effects(4) [of n]
      by (auto simp: list_all_iff)
    have nt: "ti_timeout i = None"
      using stored nd unfolding eq by (auto split: option.splits)
    with stored have "FrameStored r row \<in> set (snd (captured env i t ids w out v1))"
      unfolding eq by simp
    then obtain o1 where "out = Some o1" "co_result o1 = Some (r, row)"
      using nd by (auto simp: captured_def Let_def stored_effects_def split: option.splits prod.splits if_split_asm)
    with d have "do_capture (le_params env) t (cv_last_hash v1)
      (elapsed (an_now (ti_answers i)) (cv_last_db_write v1)) (elements_ref v1)
      (cv_screenshot_disabled v1) (cv_hd_active v1) (ti_answers i) (cv_world v1) = (w, Some o1)" by simp
    from do_capture_stored [OF this \<open>co_result o1 = Some (r, row)\<close>] show ?thesis by simp
  qed
qed

lemma handle_trigger_captures:
  assumes "list_ex is_capture (snd (handle_trigger env i t ids v))"
  obtains u where "t = Some u"
    "can_capture (ti_later i) (cv_state v) \<or> is_workflow_checkpoint_trigger u"
    "handle_trigger env i t ids v = attempt env i u ids (reset_context u v)"
    "list_ex is_capture (snd (attempt env i u ids (reset_context u v)))"
proof (cases t)
  case None
  with assms show ?thesis by (simp add: handle_trigger_def)
next
  case (Some u)
  have c: "can_capture (ti_later i) (cv_state v) \<or> is_workflow_checkpoint_trigger u"
    using assms Some no_capture_effects(5) [of env ids "reset_context u v"]
    by (auto simp: handle_trigger_def Let_def list_ex_iff list_all_iff split: if_split_asm)
  then have "handle_trigger env i t ids v = attempt env i u ids (reset_context u v)"
    using Some by (auto simp: handle_trigger_def Let_def)
  with that [OF Some c this] assms show ?thesis by simp
qed

theorem turn_captures:
  assumes cap: "list_ex is_capture (snd (capture_turn env i v))"
  shows "state_for_identity (ti_now i) (le_identity env) (ti_focus i) \<noteq> Cold \<and> \<not> in_pause_state i
    \<and> (\<exists>t. \<not> snd (pre_drm_check env i (switch_app t) (ti_flags i))
        \<and> (if is_workflow_checkpoint_trigger t then True
           else from_millis (ec_min_capture_interval_ms (es_config (cv_state (fst (capture_turn env i v)))))
                  \<le> elapsed (ti_later i) (es_last_capture (cv_state v)))
        \<and> (\<forall>r row. FrameStored r row \<in> set (snd (capture_turn env i v)) \<longrightarrow>
             frame_allowed (le_params env) row \<and> fr_trigger row = trigger_name t
             \<and> an_insert (ti_answers i) row = Some (cr_frame_id r) \<and> an_walk (ti_answers i) \<noteq> Some Skipped))
    \<and> es_last_capture (cv_state (fst (capture_turn env i v))) = ti_done i"
proof (cases rule: capture_turn_parts [of env i v])
  case (stopped v1 es1)
  have "es1 = fst (snd (focus_gate env i (with_reads i v)))" using stopped(1) by simp
  with cap stopped(2) no_capture_effects(6) [of env i "with_reads i v"] show ?thesis
    by (auto simp: list_ex_iff list_all_iff)
next
  case (paused v1 es1 w)
  have "es1 = fst (snd (focus_gate env i (with_reads i v)))" using paused(1) by simp
  with cap paused(3) no_capture_effects(6) [of env i "with_reads i v"] no_capture_effects(7) [of env i v1]
  show ?thesis by (auto simp: list_ex_iff list_all_iff)
next
  case (runs v1 es1 w v4 es3 v5 es4 t ids v6 t')
  have ns: "state_for_identity (ti_now i) (le_identity env) (ti_focus i) \<noteq> Cold"
    using runs(1) by (auto simp: focus_gate_def Let_def)
  have es1: "es1 = fst (snd (focus_gate env i (with_reads i v)))" using runs(1) by simp
  have es4: "es4 = fst (snd (gather env i w v4))" using runs(5) by simp
  have rest: "list_all (\<lambda>e. \<not> is_capture e) (es1 @ es3 @ es4)"
    by (simp add: es1 es4 runs(4))
  then have "list_ex is_capture (snd (handle_trigger env i t' ids v6))"
    using cap runs(7) by (auto simp: list_ex_iff list_all_iff)
  then obtain u where u: "t' = Some u"
    "can_capture (ti_later i) (cv_state v6) \<or> is_workflow_checkpoint_trigger u"
    "handle_trigger env i t' ids v6 = attempt env i u ids (reset_context u v6)"
    "list_ex is_capture (snd (attempt env i u ids (reset_context u v6)))"
    by (rule handle_trigger_captures)
  note a = attempt_captures [OF u(4)]
  note g = gather_facts [OF runs(5)] and vc = visual_check_keeps [OF runs(6)]
  have fl: "wo_flags (cv_world (reset_context u v6)) = ti_flags i"
    using runs(1) focus_gate_keeps(5) [of env i "with_reads i v"] g(5) vc(2)
    by (simp add: runs(3) hd_keeps profile_keeps pause_gate_keeps with_reads_def)
  have lc: "es_last_capture (cv_state v6) = es_last_capture (cv_state v)"
  proof -
    have "es_last_capture (cv_state v4) = es_last_capture (cv_state v1)"
      by (simp add: runs(3) apply_hd_def apply_profile_change_def apply_profile_def Let_def case_prod_beta
          pause_gate_keeps split: option.split)
    moreover have "cv_state v1 = cv_state v"
      using runs(1) focus_gate_keeps(3) [of env i "with_reads i v"] by (simp add: with_reads_def)
    ultimately show ?thesis using g(8) vc(3) by simp
  qed
  have eqv: "capture_turn env i v = (fst (attempt env i u ids (reset_context u v6)),
      es1 @ es3 @ es4 @ snd (attempt env i u ids (reset_context u v6)))"
    using runs(7) u(3) by simp
  have stored: "FrameStored r row \<in> set (snd (attempt env i u ids (reset_context u v6)))"
    if "FrameStored r row \<in> set (snd (capture_turn env i v))" for r row
  proof -
    have "FrameStored r row \<notin> set (es1 @ es3 @ es4)" using rest is_capture.simps(2) by (metis list_all_iff)
    with that show ?thesis by (simp add: eqv)
  qed
  have sp: "if is_workflow_checkpoint_trigger u then True
           else from_millis (ec_min_capture_interval_ms (es_config (cv_state (fst (capture_turn env i v)))))
                  \<le> elapsed (ti_later i) (es_last_capture (cv_state v))"
    using u(2) a(3) lc by (auto simp: eqv can_capture_def)
  have "es_last_capture (cv_state (fst (capture_turn env i v))) = ti_done i" using a(2) by (simp add: eqv)
  moreover have "\<not> snd (pre_drm_check env i (switch_app u) (ti_flags i))" using a(1) fl by simp
  moreover have "\<forall>r row. FrameStored r row \<in> set (snd (capture_turn env i v)) \<longrightarrow>
             frame_allowed (le_params env) row \<and> fr_trigger row = trigger_name u
             \<and> an_insert (ti_answers i) row = Some (cr_frame_id r) \<and> an_walk (ti_answers i) \<noteq> Some Skipped"
    using stored a(4) by blast
  ultimately show ?thesis using ns runs(2) sp by blast
qed

section \<open>The settings a turn leaves\<close>

lemma captured_settings:
  "es_config (cv_state (fst (captured env i t ids w out v))) = es_config (cv_state v)"
  "cv_high_fps (fst (captured env i t ids w out v)) = cv_high_fps v"
  by (simp_all add: captured_def Let_def stored_vars_def mark_captured_def split: option.split prod.split)

lemma handle_trigger_settings:
  "es_config (cv_state (fst (handle_trigger env i t ids v))) = es_config (cv_state v)"
  "cv_high_fps (fst (handle_trigger env i t ids v)) = cv_high_fps v"
  by (auto simp: handle_trigger_def attempt_def Let_def case_prod_beta captured_settings mark_captured_def
      split: option.split)

text \<open>The settings after a turn: unchanged when the gates stop it, otherwise those of the profile and
  the HD session.\<close>

definition settled :: "turn_reads \<Rightarrow> capture_vars \<Rightarrow> capture_vars" where
  "settled i v = apply_hd i (fst (apply_profile_change i v))"

lemma settled_cong:
  assumes "cv_state v = cv_state u" "cv_high_fps v = cv_high_fps u"
  shows "cv_state (settled i v) = cv_state (settled i u)" "cv_high_fps (settled i v) = cv_high_fps (settled i u)"
  using assms
  by (simp_all add: settled_def apply_hd_def apply_profile_change_def apply_profile_def Let_def case_prod_beta
      split: option.split)

definition passes_gates :: "loop_env \<Rightarrow> turn_reads \<Rightarrow> capture_vars \<Rightarrow> bool" where
  "passes_gates env i v \<longleftrightarrow> snd (snd (focus_gate env i v)) \<noteq> None \<and> \<not> in_pause_state i"

lemma turn_settings:
  "es_config (cv_state (fst (capture_turn env i v))) =
     es_config (cv_state (if passes_gates env i v then settled i v else v))"
  "cv_high_fps (fst (capture_turn env i v)) = cv_high_fps (if passes_gates env i v then settled i v else v)"
proof -
  have "es_config (cv_state (fst (capture_turn env i v))) =
      es_config (cv_state (if passes_gates env i v then settled i v else v))
    \<and> cv_high_fps (fst (capture_turn env i v)) = cv_high_fps (if passes_gates env i v then settled i v else v)"
  proof (cases rule: capture_turn_parts [of env i v])
    case (stopped v1 es1)
    have "\<not> passes_gates env i v" using stopped(1) owed_cases [of env i v] by (simp add: passes_gates_def)
    with stopped focus_gate_keeps [of env i "with_reads i v"] show ?thesis by (simp add: with_reads_def)
  next
    case (paused v1 es1 w)
    have "\<not> passes_gates env i v" using paused(2) by (simp add: passes_gates_def)
    with paused focus_gate_keeps [of env i "with_reads i v"] show ?thesis
      by (simp add: with_reads_def pause_gate_keeps)
  next
    case (runs v1 es1 w v4 es3 v5 es4 t ids v6 t')
    have "snd (snd (focus_gate env i v)) = Some w" using runs(1) owed_cases [of env i v] by simp
    with runs(2) have p: "passes_gates env i v" by (simp add: passes_gates_def)
    note g = gather_facts [OF runs(5)] and vc = visual_check_keeps [OF runs(6)]
    have "cv_state (fst (pause_gate env i v1)) = cv_state v" "cv_high_fps (fst (pause_gate env i v1)) = cv_high_fps v"
      using runs(1) focus_gate_keeps [of env i "with_reads i v"] by (simp_all add: with_reads_def pause_gate_keeps)
    from settled_cong [OF this, of i]
    have "cv_state v4 = cv_state (settled i v)" "cv_high_fps v4 = cv_high_fps (settled i v)"
      by (simp_all add: runs(3) settled_def)
    with g(6,7) vc(3,4) p show ?thesis by (simp add: runs(7) handle_trigger_settings)
  qed
  then show "es_config (cv_state (fst (capture_turn env i v))) =
     es_config (cv_state (if passes_gates env i v then settled i v else v))"
    "cv_high_fps (fst (capture_turn env i v)) = cv_high_fps (if passes_gates env i v then settled i v else v)"
    by blast+
qed

lemma settled_quality:
  "ec_jpeg_quality (es_config (cv_state (settled i v))) \<le> ec_jpeg_quality (es_config (cv_state v))"
  by (simp add: settled_def apply_hd_def apply_profile_change_def apply_profile_def Let_def case_prod_beta
      split: option.split)

text \<open>The capture interval in force: the HD session's while one is active, the baseline otherwise.\<close>

definition interval_in_force :: "bookkeeping \<Rightarrow> nat" where
  "interval_in_force b = (case bk_active_ms b of Some ms \<Rightarrow> ms | None \<Rightarrow> bk_baseline_ms b)"

definition live_ok :: "capture_vars \<Rightarrow> bool" where
  "live_ok v \<longleftrightarrow> ec_min_capture_interval_ms (es_config (cv_state v)) = interval_in_force (cv_high_fps v)"

lemma settled_live: "live_ok v \<Longrightarrow> live_ok (settled i v)"
  by (auto simp: live_ok_def settled_def apply_hd_def apply_profile_change_def apply_profile_def Let_def
      case_prod_beta interval_in_force_def on_baseline_change_def on_controller_state_def
      split: option.split)

lemma turn_live: "live_ok v \<Longrightarrow> live_ok (fst (capture_turn env i v))"
  using settled_live [of v i] by (simp add: live_ok_def turn_settings)

text \<open>The specification of the interval: a baseline and an override, changed by the profile and the HD
  snapshot a turn applies.\<close>

type_synonym interval_spec = "nat \<times> nat option"

definition spec_of :: "bookkeeping \<Rightarrow> interval_spec" where
  "spec_of b = (bk_baseline_ms b, bk_active_ms b)"

definition spec_settings :: "turn_reads \<Rightarrow> interval_spec \<Rightarrow> interval_spec" where
  "spec_settings i s =
     (case ti_profile i of
        Some p \<Rightarrow> if ti_profile_changed i then pp_min_capture_interval_ms p else fst s
      | None \<Rightarrow> fst s,
      case ti_hd i of Some h \<Rightarrow> effective_interval_ms h | None \<Rightarrow> snd s)"

lemma profile_spec:
  "live_ok v \<Longrightarrow> live_ok (fst (apply_profile_change i v))
    \<and> spec_of (cv_high_fps (fst (apply_profile_change i v))) =
        (fst (spec_settings i (spec_of (cv_high_fps v))), snd (spec_of (cv_high_fps v)))"
  by (auto simp: live_ok_def apply_profile_change_def apply_profile_def Let_def interval_in_force_def
      on_baseline_change_def spec_of_def spec_settings_def split: option.split)

lemma hd_spec:
  "live_ok v \<Longrightarrow> spec_of (cv_high_fps (apply_hd i v)) =
     (fst (spec_of (cv_high_fps v)), case ti_hd i of Some h \<Rightarrow> effective_interval_ms h | None \<Rightarrow> snd (spec_of (cv_high_fps v)))"
  by (auto simp: live_ok_def apply_hd_def Let_def case_prod_beta interval_in_force_def
      on_controller_state_def spec_of_def split: option.split)

lemma settled_spec: "live_ok v \<Longrightarrow> spec_of (cv_high_fps (settled i v)) = spec_settings i (spec_of (cv_high_fps v))"
  using profile_spec [of v i] hd_spec [of "fst (apply_profile_change i v)" i]
  by (simp add: settled_def spec_settings_def split: option.split)

end
