(* ===== verification/CaptureProperties.thy ===== *)
theory CaptureProperties
  imports CaptureFacts LinkerTrace
begin

text \<open>
  The properties of the capture loop: every trigger it takes is answered to the linker, the frames
  it names exist, what it stores was allowed to be stored, when it captures, and, together with
  the frame linker, that a UI event is linked to the frame its trigger produced.
\<close>

section \<open>Runs\<close>

fun owed_run :: "loop_env \<Rightarrow> turn_reads list \<Rightarrow> capture_vars \<Rightarrow> correlation_id list" where
  "owed_run env [] v = []"
| "owed_run env (i # is) v = owed env i v @ owed_run env is (fst (capture_turn env i v))"

lemma capture_run_Cons:
  "capture_run env (i # is) v =
     (fst (capture_run env is (fst (capture_turn env i v))),
      snd (capture_turn env i v) @ snd (capture_run env is (fst (capture_turn env i v))))"
  by (simp add: case_prod_beta)

declare capture_run.simps(2) [simp del]
declare capture_run_Cons [simp]

lemma capture_run_append:
  "capture_run env (is @ js) v =
     (fst (capture_run env js (fst (capture_run env is v))),
      snd (capture_run env is v) @ snd (capture_run env js (fst (capture_run env is v))))"
  by (induction "is" arbitrary: v) simp_all

lemma captured_last: "cv_last_frame (fst (captured env i t ids w out v)) = None \<Longrightarrow> cv_last_frame v = None"
  by (auto simp: captured_def Let_def stored_vars_def split: option.splits prod.splits)

lemma turn_last_frame: "cv_last_frame (fst (capture_turn env i v)) = None \<Longrightarrow> cv_last_frame v = None"
proof (cases rule: capture_turn_parts [of env i v])
  case (stopped v1 es1)
  with focus_gate_keeps [of env i "with_reads i v"]
  show "cv_last_frame (fst (capture_turn env i v)) = None \<Longrightarrow> cv_last_frame v = None"
    by (simp add: with_reads_def)
next
  case (paused v1 es1 w)
  with focus_gate_keeps [of env i "with_reads i v"]
  show "cv_last_frame (fst (capture_turn env i v)) = None \<Longrightarrow> cv_last_frame v = None"
    by (simp add: with_reads_def pause_gate_keeps)
next
  case (runs v1 es1 w v4 es3 v5 es4 t ids v6 t')
  note g = gather_facts [OF runs(5)] and vc = visual_check_keeps [OF runs(6)]
  have l: "cv_last_frame v6 = cv_last_frame v"
    using runs(1) focus_gate_keeps [of env i "with_reads i v"] g(4) vc(1)
    by (simp add: runs(3) hd_keeps profile_keeps pause_gate_keeps with_reads_def)
  have "cv_last_frame (fst (handle_trigger env i t' ids v6)) = None \<Longrightarrow> cv_last_frame v6 = None"
    by (auto simp: handle_trigger_def attempt_def Let_def case_prod_beta dest!: captured_last
        split: option.splits if_split_asm)
  with l runs(7) show "cv_last_frame (fst (capture_turn env i v)) = None \<Longrightarrow> cv_last_frame v = None"
    by simp
qed

lemma run_reports:
  assumes "le_has_linker env"
  shows "cv_last_frame v \<noteq> None \<Longrightarrow> reported (snd (capture_run env is v)) = owed_run env is v"
proof (induction "is" arbitrary: v)
  case Nil
  then show ?case by simp
next
  case (Cons i js)
  have "reported (snd (capture_turn env i v)) = owed env i v"
    using turn_reports [OF assms, of i v] Cons.prems by simp
  moreover have "cv_last_frame (fst (capture_turn env i v)) \<noteq> None"
    using turn_last_frame [of env i v] Cons.prems by blast
  ultimately show ?case using Cons.IH by simp
qed

lemma run_known:
  "last_known k v \<Longrightarrow> frames_known k (snd (capture_run env is v))
     \<and> last_known (stored_ids (snd (capture_run env is v)) @ k) (fst (capture_run env is v))"
proof (induction "is" arbitrary: k v)
  case Nil
  then show ?case by simp
next
  case (Cons i js)
  from turn_known [OF Cons.prems, of env i]
  have t: "frames_known k (snd (capture_turn env i v))"
    "last_known (stored_ids (snd (capture_turn env i v)) @ k) (fst (capture_turn env i v))" by blast+
  from Cons.IH [OF t(2)] t(1) show ?case
    by (auto simp: frames_known_append last_known_def split: option.splits)
qed

lemma startup_known:
  assumes "cv_last_frame v = None"
  shows "frames_known k (snd (startup_captured env i v))
    \<and> last_known (stored_ids (snd (startup_captured env i v)) @ k) (fst (startup_captured env i v))"
  using assms
  by (auto simp: startup_captured_def Let_def case_prod_beta last_known_def stored_effects_def stored_vars_def
      linked_def frames_known_append split: option.split prod.split)

lemma start_cases:
  obtains v where "cv_last_frame v = None" "es_config (cv_state v) = cfg"
      "cv_high_fps v = new_bookkeeping (ec_min_capture_interval_ms cfg)"
      "snd (start_capture env i cfg w) = []"
      "fst (start_capture env i cfg w) = v\<lparr>cv_state := phase_next_idle_capture (ti_done i) (le_idle_phase env) (cv_state v)\<rparr>"
  | v where "cv_last_frame v = None" "es_config (cv_state v) = cfg"
      "cv_high_fps v = new_bookkeeping (ec_min_capture_interval_ms cfg)"
      "snd (start_capture env i cfg w) = snd (startup_captured env i v)"
      "fst (start_capture env i cfg w) = (fst (startup_captured env i v))
         \<lparr>cv_state := phase_next_idle_capture (ti_done i) (le_idle_phase env) (cv_state (fst (startup_captured env i v)))\<rparr>"
proof -
  define u where "u = initial_vars (ti_now i) cfg (w\<lparr>wo_flags := ti_flags i, wo_throttle := ti_throttle i\<rparr>)"
  obtain g blocked where g: "pre_drm_check env i None (ti_flags i) = (g, blocked)" by fastforce
  define u' where "u' = u\<lparr>cv_world := (cv_world u)\<lparr>wo_flags := g\<rparr>\<rparr>"
  have u: "cv_last_frame u = None" "es_config (cv_state u) = cfg"
    "cv_high_fps u = new_bookkeeping (ec_min_capture_interval_ms cfg)"
    and u': "cv_last_frame u' = None" "es_config (cv_state u') = cfg"
    "cv_high_fps u' = new_bookkeeping (ec_min_capture_interval_ms cfg)"
    by (simp_all add: u'_def u_def initial_vars_def new_event_capture_def)
  have eq: "start_capture env i cfg w =
      (let (v1, es) = (if gf_locked (ti_flags i) then (u, [])
          else if blocked \<or> gf_schedule g then (u', []) else startup_captured env i u')
       in (v1\<lparr>cv_state := phase_next_idle_capture (ti_done i) (le_idle_phase env) (cv_state v1)\<rparr>, es))"
    by (simp add: start_capture_def g u_def [symmetric] u'_def Let_def)
  show thesis
  proof (cases "gf_locked (ti_flags i)")
    case True
    with eq u that(1) [of u] show thesis by simp
  next
    case False
    show thesis
    proof (cases "blocked \<or> gf_schedule g")
      case True
      with eq False u' that(1) [of u'] show thesis by simp
    next
      case False2: False
      with eq False u' that(2) [of u'] show thesis by (simp add: case_prod_beta)
    qed
  qed
qed

lemma start_known:
  "frames_known k (snd (start_capture env i cfg w))
   \<and> last_known (stored_ids (snd (start_capture env i cfg w)) @ k) (fst (start_capture env i cfg w))"
proof (cases rule: start_cases [of cfg env i w])
  case (1 v)
  then show ?thesis by (simp add: last_known_def)
next
  case (2 v)
  from startup_known [OF 2(1), of k env i] 2(4,5) show ?thesis by (simp add: last_known_def)
qed

section \<open>A sample monitor\<close>

text \<open>The concrete input of the witnesses: one monitor of 100 by 100, a white screen, no accessibility
  tree, a key press with correlation id 7, and a database that answers 55.\<close>

definition sample_lib :: capture_lib where
  "sample_lib = \<lparr>lb_low = (\<lambda>s. s), lb_ocr = (lit ''terminal'', lit ''[]''), lb_strip_gutter = (\<lambda>s. s),
     lb_hash = (\<lambda>s. length s), lb_nodes_json = (\<lambda>ns. Some []), lb_remove_pii = (\<lambda>s. s),
     lb_sanitize_json = (\<lambda>s. s)\<rparr>"

definition sample_params :: capture_params where
  "sample_params = \<lparr>cp_low = (\<lambda>s. s), cp_macos = False, cp_ignored_windows = [lit ''bank''],
     cp_pause_on_drm = True, cp_pii_removal = False, cp_lib = sample_lib\<rparr>"

definition sample_env :: loop_env where
  "sample_env = \<lparr>le_params = sample_params,
     le_monitor = \<lparr>mo_id = 0, mo_x = 0, mo_y = 0, mo_width = 100, mo_height = 100\<rparr>,
     le_identity = runtime_id 0, le_bounds = [(0, 0, 100, 100)], le_idle_phase = 0,
     le_has_linker = True, le_has_comparer = True, le_hot_cache = False\<rparr>"

definition sample_flags :: gate_flags where
  "sample_flags = \<lparr>gf_drm = False, gf_locked = False, gf_schedule = False\<rparr>"

definition sample_world :: capture_world where
  "sample_world = \<lparr>wo_budget = Map.empty, wo_throttle = Map.empty, wo_flags = sample_flags\<rparr>"

definition sample_now :: instant where "sample_now = from_secs 100"

definition sample_answers :: capture_answers where
  "sample_answers = \<lparr>an_now = sample_now, an_after_walk = sample_now,
     an_screenshot = Some \<lparr>im_width = 1, im_height = 1, im_pixel = (\<lambda>x y. (255, 255, 255))\<rparr>,
     an_focused_app = None, an_walk = Some NotFound, an_written = Some (lit ''f.jpg''),
     an_insert = (\<lambda>row. Some 55)\<rparr>"

definition sample_reads :: turn_reads where
  "sample_reads = \<lparr>ti_now = sample_now, ti_focus = new_focus_controller 0, ti_flags = sample_flags,
     ti_throttle = Map.empty, ti_drained = [], ti_warm_diff = None, ti_profile = None,
     ti_profile_changed = False, ti_hd = None, ti_recv = RecvMsg \<lparr>tm_trigger = KeyPress, tm_corr = Some 7\<rparr>,
     ti_rest = [TryEmpty], ti_idle_ms = 0, ti_keyboard_idle_ms = 0, ti_later = sample_now,
     ti_visual_diff = None, ti_drm_query = Panicked, ti_answers = sample_answers, ti_timeout = None,
     ti_done = sample_now\<rparr>"

definition sample_start :: capture_vars where
  "sample_start = initial_vars 0 default_capture_config sample_world"

definition sample_frame_row :: frame_row where
  "sample_frame_row = \<lparr>fr_path = lit ''f.jpg'', fr_app = None, fr_window = None, fr_url = None, fr_document = None,
     fr_trigger = lit ''key_press'', fr_text = Some (lit ''terminal''), fr_source = Some (lit ''ocr''),
     fr_tree_json = None, fr_hash = Some 8, fr_simhash = None, fr_ocr = Some (lit ''terminal'', lit ''[]''),
     fr_elements_ref = None\<rparr>"

definition sample_result :: capture_result where
  "sample_result = \<lparr>cr_frame_id = 55, cr_snapshot_path = lit ''f.jpg'', cr_text = Some (lit ''terminal''),
     cr_text_source = Some (lit ''ocr''), cr_app = None, cr_window = None, cr_url = None, cr_content_hash = Some 8\<rparr>"

lemma sample_turn:
  "snd (capture_turn sample_env sample_reads sample_start) =
     [CaptureAttempt, FrameStored sample_result sample_frame_row,
      ToLinker (FrameCaptured \<lparr>fc_frame = 55, fc_corrs = [7]\<rparr>)]"
  by code_simp

lemma sample_captures: "list_ex is_capture (snd (capture_turn sample_env sample_reads sample_start))"
  by (simp add: sample_turn)

lemma sample_owed: "owed sample_env sample_reads sample_start = [7]"
  by code_simp

section \<open>Triggers are answered\<close>

text \<open>C10: Once a frame has been stored on the monitor, the correlation ids that the loop reports to
  the frame linker over any sequence of turns are exactly the ids it took from its channel for
  this monitor, in order and each once: as a frame, or as a dropped trigger. The focus, lock,
  power, protected-content and schedule gates, capture errors, timeouts, unchanged content and
  the debounce lose none.\<close>

theorem every_trigger_is_answered:
  assumes "le_has_linker env" "cv_last_frame v \<noteq> None"
  shows "reported (snd (capture_run env is v)) = owed_run env is v"
  by (rule run_reports [OF assms])

lemma every_trigger_is_answered_witness:
  "reported (snd (capture_run sample_env [sample_reads, sample_reads] (sample_start\<lparr>cv_last_frame := Some 1\<rparr>))) = [7, 7]"
proof -
  have "owed_run sample_env [sample_reads, sample_reads] (sample_start\<lparr>cv_last_frame := Some 1\<rparr>) = [7, 7]"
    by code_simp
  with every_trigger_is_answered [of sample_env "sample_start\<lparr>cv_last_frame := Some 1\<rparr>" "[sample_reads, sample_reads]"]
  show ?thesis by (simp add: sample_env_def)
qed

text \<open>Every frame that the loop names in a message to the linker was stored by this loop earlier,
  from the start-up capture on.\<close>

theorem linked_frames_were_stored:
  "frames_known [] (snd (start_capture env i cfg w)
     @ snd (capture_run env is (fst (start_capture env i cfg w))))"
  using start_known [of "[]" env i cfg w] run_known
  by (simp add: frames_known_append)

section \<open>What may be stored\<close>

definition all_allowed :: "capture_params \<Rightarrow> loop_effect list \<Rightarrow> bool" where
  "all_allowed p es = list_all (\<lambda>e. case e of FrameStored r row \<Rightarrow> frame_allowed p row | _ \<Rightarrow> True) es"

lemma all_allowed_append [simp]: "all_allowed p (es @ es') \<longleftrightarrow> all_allowed p es \<and> all_allowed p es'"
  by (simp add: all_allowed_def)

lemma turn_allowed: "all_allowed (le_params env) (snd (capture_turn env i v))"
proof (cases "list_ex is_capture (snd (capture_turn env i v))")
  case True
  from turn_captures [OF True] have
    "FrameStored r row \<in> set (snd (capture_turn env i v)) \<Longrightarrow> frame_allowed (le_params env) row" for r row by blast
  then show ?thesis by (auto simp: all_allowed_def list_all_iff split: loop_effect.split)
next
  case False
  then have "FrameStored r row \<notin> set (snd (capture_turn env i v))" for r row
    by (auto simp: list_ex_iff)
  then show ?thesis by (auto simp: all_allowed_def list_all_iff split: loop_effect.split)
qed

lemma run_allowed: "all_allowed (le_params env) (snd (capture_run env is v))"
proof (induction "is" arbitrary: v)
  case Nil
  then show ?case by (simp add: all_allowed_def)
next
  case (Cons i js)
  then show ?case by (simp add: turn_allowed)
qed

lemma startup_allowed: "all_allowed (le_params env) (snd (startup_captured env i v))"
proof -
  obtain w out where d: "do_capture (le_params env) Manual None
      (elapsed (an_now (ti_answers i)) (cv_last_db_write v)) None False False (ti_answers i) (cv_world v) = (w, out)"
    by fastforce
  have a: "frame_allowed (le_params env) row" if "out = Some o1" "co_result o1 = Some (r, row)" for o1 r row
    using do_capture_stored(1) [of "le_params env" Manual None _ None False False "ti_answers i" "cv_world v" w o1 r row]
      d that by simp
  show ?thesis
    by (auto simp: startup_captured_def Let_def d all_allowed_def stored_effects_def linked_def a
        split: option.split prod.split)
qed

text \<open>C35: Nothing the loop stores, from the start-up capture on, comes from a window the user excluded:
  the app and title of every stored row match none of the ignored patterns (whatever the trigger
  claimed and whatever the tree walk returned), the app is not the lock screen, and, when the
  user asked for it, neither the app nor the page is protected content.\<close>

theorem stored_frames_are_allowed:
  "all_allowed (le_params env) (snd (start_capture env i cfg w)
     @ snd (capture_run env is (fst (start_capture env i cfg w))))"
proof -
  have "all_allowed (le_params env) (snd (start_capture env i cfg w))"
    by (cases rule: start_cases [of cfg env i w]) (simp_all add: startup_allowed all_allowed_def [of _ "[]"])
  then show ?thesis by (simp add: run_allowed)
qed



section \<open>The settings in force\<close>

lemma startup_settings:
  "es_config (cv_state (fst (startup_captured env i v))) = es_config (cv_state v)"
  "cv_high_fps (fst (startup_captured env i v)) = cv_high_fps v"
  by (auto simp: startup_captured_def Let_def mark_captured_def stored_vars_def split: option.split prod.split)

lemma start_high_fps:
  "cv_high_fps (fst (start_capture env i cfg w)) = new_bookkeeping (ec_min_capture_interval_ms cfg)"
  by (cases rule: start_cases [of cfg env i w]) (simp_all add: startup_settings)

lemma start_live: "live_ok (fst (start_capture env i cfg w))"
proof -
  show ?thesis
    by (cases rule: start_cases [of cfg env i w])
      (simp_all add: live_ok_def phase_next_idle_capture_def Let_def interval_in_force_def new_bookkeeping_def startup_settings)
qed

lemma run_live: "live_ok v \<Longrightarrow> live_ok (fst (capture_run env is v))"
  by (induction "is" arbitrary: v) (simp_all add: turn_live)

text \<open>The specification along a run.\<close>

fun spec_run :: "loop_env \<Rightarrow> turn_reads list \<Rightarrow> capture_vars \<Rightarrow> interval_spec \<Rightarrow> interval_spec" where
  "spec_run env [] v s = s"
| "spec_run env (i # is) v s =
     spec_run env is (fst (capture_turn env i v)) (if passes_gates env i v then spec_settings i s else s)"

lemma run_spec:
  "live_ok v \<Longrightarrow> spec_of (cv_high_fps (fst (capture_run env is v))) = spec_run env is v (spec_of (cv_high_fps v))"
proof (induction "is" arbitrary: v)
  case Nil
  then show ?case by simp
next
  case (Cons i js)
  then show ?case using turn_live [OF Cons.prems, of env i] settled_spec [OF Cons.prems, of i]
    by (simp add: turn_settings)
qed

text \<open>The debounce interval the loop uses refines a baseline and an override: whatever power
  profiles and HD sessions come and go, in any order, the interval is the override of the last HD
  snapshot when it has one, and otherwise the last profile's interval (the configured one before
  any profile); a profile that arrives during an HD session takes effect when the session ends.\<close>

theorem interval_refines_spec:
  "(let v0 = fst (start_capture env i cfg w); v = fst (capture_run env is v0);
        (base, override) = spec_run env is v0 (ec_min_capture_interval_ms cfg, None)
    in ec_min_capture_interval_ms (es_config (cv_state v)) = (case override of Some ms \<Rightarrow> ms | None \<Rightarrow> base))"
proof -
  define v0 where "v0 = fst (start_capture env i cfg w)"
  have l: "live_ok v0" unfolding v0_def by (rule start_live)
  have "spec_of (cv_high_fps v0) = (ec_min_capture_interval_ms cfg, None)"
    unfolding v0_def using start_high_fps [of env i cfg w] by (simp add: spec_of_def new_bookkeeping_def)
  with run_spec [OF l, of env "is"]
  have s: "spec_run env is v0 (ec_min_capture_interval_ms cfg, None) = spec_of (cv_high_fps (fst (capture_run env is v0)))"
    by simp
  show ?thesis
    using run_live [OF l, of env "is"] unfolding Let_def v0_def [symmetric] s
    by (simp add: live_ok_def interval_in_force_def spec_of_def)
qed

lemma run_quality:
  "ec_jpeg_quality (es_config (cv_state (fst (capture_run env is v)))) \<le> ec_jpeg_quality (es_config (cv_state v))"
proof (induction "is" arbitrary: v)
  case Nil
  then show ?case by simp
next
  case (Cons i js)
  have "ec_jpeg_quality (es_config (cv_state (fst (capture_turn env i v)))) \<le> ec_jpeg_quality (es_config (cv_state v))"
    using settled_quality [of i v] by (simp add: turn_settings)
  with Cons.IH show ?case by (metis capture_run_Cons fst_conv order_trans)
qed

text \<open>The JPEG quality never rises while the loop runs: applying a profile overwrites the user's
  baseline with the lower value, so a stay on the saver profile leaves the quality at 40 when
  the performance profile (80) is back.\<close>

theorem jpeg_quality_never_recovers:
  "ec_jpeg_quality (es_config (cv_state (fst (capture_run env is v)))) \<le> ec_jpeg_quality (es_config (cv_state v))
   \<and> (let v0 = initial_vars 0 default_capture_config w;
          v1 = fst (apply_profile saver v0); v2 = fst (apply_profile performance v1)
      in (ec_jpeg_quality (es_config (cv_state v0)), ec_jpeg_quality (es_config (cv_state v1)),
          ec_jpeg_quality (es_config (cv_state v2)), pp_jpeg_quality performance) = (80, 40, 40, 80))"
  using run_quality [of env "is" v]
  by (simp add: initial_vars_def new_event_capture_def default_capture_config_def apply_profile_def saver_def
      performance_def on_baseline_change_def new_bookkeeping_def Let_def)

section \<open>From a UI event to its frame\<close>

fun to_linker :: "loop_effect \<Rightarrow> linker_message list" where
  "to_linker (ToLinker m) = [m]"
| "to_linker _ = []"

definition messages :: "loop_effect list \<Rightarrow> linker_message list" where
  "messages es = concat (map to_linker es)"

lemma messages_mem: "ToLinker m \<in> set es \<Longrightarrow> m \<in> set (messages es)"
  by (force simp: messages_def)

lemma captured_links:
  assumes "FrameStored r row \<in> set (snd (captured env i t ids w out v))" "le_has_linker env" "ids \<noteq> []"
  shows "ToLinker (FrameCaptured \<lparr>fc_frame = cr_frame_id r, fc_corrs = ids\<rparr>)
    \<in> set (snd (captured env i t ids w out v))"
proof -
  have nd: "FrameStored r row \<notin> set (dropped_ids env ids c)" "FrameStored r row \<notin> set (linked env f ids)"
    "FrameStored r row \<notin> set (backoff n)" for c f n
    using no_capture_effects(2) [of env ids c] no_capture_effects(3) [of env f ids] no_capture_effects(4) [of n]
    by (auto simp: list_all_iff)
  show ?thesis
    using assms nd
    by (auto simp: captured_def Let_def stored_effects_def linked_def split: option.splits prod.splits if_split_asm)
qed

lemma attempt_links:
  assumes "FrameStored r row \<in> set (snd (attempt env i t ids v))" "le_has_linker env" "ids \<noteq> []"
  shows "ToLinker (FrameCaptured \<lparr>fc_frame = cr_frame_id r, fc_corrs = ids\<rparr>) \<in> set (snd (attempt env i t ids v))"
proof -
  obtain g blocked where g: "pre_drm_check env i (switch_app t) (wo_flags (cv_world v)) = (g, blocked)"
    by fastforce
  define v1 where "v1 = v\<lparr>cv_world := (cv_world v)\<lparr>wo_flags := g\<rparr>\<rparr>"
  obtain w out where d: "do_capture (le_params env) t (cv_last_hash v1)
      (elapsed (an_now (ti_answers i)) (cv_last_db_write v1)) (elements_ref v1)
      (cv_screenshot_disabled v1) (cv_hd_active v1) (ti_answers i) (cv_world v1) = (w, out)" by fastforce
  have nd: "FrameStored r row \<notin> set (dropped_ids env ids c)" for c
    using no_capture_effects(2) [of env ids c] by (auto simp: list_all_iff)
  have ok: "\<not> blocked" "ti_timeout i = None"
    using assms(1) nd by (auto simp: attempt_def g Let_def split: if_split_asm option.splits)
  then have "snd (attempt env i t ids v) = CaptureAttempt # snd (captured env i t ids w out v1)"
    by (simp add: attempt_def g v1_def [symmetric] d Let_def case_prod_beta)
  with captured_links [of r row env i t ids w out v1] assms show ?thesis by simp
qed

lemma turn_links:
  assumes "FrameStored r row \<in> set (snd (capture_turn env i v))" "le_has_linker env" "owed env i v \<noteq> []"
  shows "ToLinker (FrameCaptured \<lparr>fc_frame = cr_frame_id r, fc_corrs = owed env i v\<rparr>)
    \<in> set (snd (capture_turn env i v))"
proof (cases rule: capture_turn_parts [of env i v])
  case (stopped v1 es1)
  have "es1 = fst (snd (focus_gate env i (with_reads i v)))" using stopped(1) by simp
  with assms(1) stopped(2) no_capture_effects(6) [of env i "with_reads i v"] show ?thesis
    by (auto simp: list_all_iff)
next
  case (paused v1 es1 w)
  have "es1 = fst (snd (focus_gate env i (with_reads i v)))" using paused(1) by simp
  with assms(1) paused(3) no_capture_effects(6) [of env i "with_reads i v"] no_capture_effects(7) [of env i v1]
  show ?thesis by (auto simp: list_all_iff)
next
  case (runs v1 es1 w v4 es3 v5 es4 t ids v6 t')
  have ns: "state_for_identity (ti_now i) (le_identity env) (ti_focus i) \<noteq> Cold"
    using runs(1) by (auto simp: focus_gate_def Let_def)
  have w: "snd (snd (focus_gate env i v)) = Some w" using runs(1) owed_cases [of env i v] by simp
  have cc: "cv_channel_closed v4 = cv_channel_closed v"
    using runs(1) focus_gate_keeps [of env i "with_reads i v"]
    by (simp add: runs(3) hd_keeps profile_keeps pause_gate_keeps with_reads_def)
  have o: "owed env i v = ids"
    using ns w runs(2) gather_facts(1) [OF runs(5)] cc
    by (cases "state_for_identity (ti_now i) (le_identity env) (ti_focus i)") (auto simp: owed_def)
  have es1: "es1 = fst (snd (focus_gate env i (with_reads i v)))" using runs(1) by simp
  have es4: "es4 = fst (snd (gather env i w v4))" using runs(5) by simp
  have rest: "list_all (\<lambda>e. \<not> is_capture e) (es1 @ es3 @ es4)" by (simp add: es1 es4 runs(4))
  have "FrameStored r row \<notin> set (es1 @ es3 @ es4)" using rest is_capture.simps(2) by (metis list_all_iff)
  then have st: "FrameStored r row \<in> set (snd (handle_trigger env i t' ids v6))" using assms(1) runs(7) by simp
  then have "list_ex is_capture (snd (handle_trigger env i t' ids v6))"
    by (metis is_capture.simps(2) list_ex_iff)
  then obtain u where u: "handle_trigger env i t' ids v6 = attempt env i u ids (reset_context u v6)"
    by (rule handle_trigger_captures)
  from attempt_links [of r row env i u ids "reset_context u v6"] st assms(2,3) o u
  have "ToLinker (FrameCaptured \<lparr>fc_frame = cr_frame_id r, fc_corrs = ids\<rparr>)
      \<in> set (snd (handle_trigger env i t' ids v6))" by simp
  with o runs(7) show ?thesis by simp
qed

text \<open>C33: End to end with the frame linker: when a turn of the loop stores a frame for a burst of
  triggers, every persisted UI event whose correlation id is in the burst is linked to that
  frame, provided the loop's messages reach the linker (\<open>ms\<close> is what the linker handles, from
  every sender, in any order) within its time to live and capacity, each id once on each side.\<close>

theorem event_gets_its_frame:
  assumes "iterates iter" "settled_trace t0 lcfg ms" "le_has_linker env"
    and sent: "set (messages (snd (capture_run env (is1 @ i # is2) v))) \<subseteq> snd ` set ms"
    and here: "v_i = fst (capture_run env is1 v)"
    and stored: "FrameStored r row \<in> set (snd (capture_turn env i v_i))"
    and mem: "c \<in> set (owed env i v_i)" and ev: "(c, row_id) \<in> set (all_events ms)"
  shows "(row_id, cr_frame_id r) \<in> update_pairs (snd (linker_run iter lcfg ms))"
proof -
  have "owed env i v_i \<noteq> []" using mem by auto
  from turn_links [OF stored assms(3) this]
  have "FrameCaptured \<lparr>fc_frame = cr_frame_id r, fc_corrs = owed env i v_i\<rparr>
      \<in> set (messages (snd (capture_run env (is1 @ i # is2) v)))"
    by (intro messages_mem) (simp add: capture_run_append here)
  with sent obtain now where m: "(now, FrameCaptured \<lparr>fc_frame = cr_frame_id r, fc_corrs = owed env i v_i\<rparr>) \<in> set ms"
    by fastforce
  then have "(c, cr_frame_id r) \<in> set (all_frames ms)"
    using mem by (force simp: all_frames_def)
  moreover have "update_pairs (snd (linker_run iter lcfg ms))
    = {(r, f) | r f c. (c, r) \<in> set (all_events ms) \<and> (c, f) \<in> set (all_frames ms)}"
    using trace_exact [OF assms(1,2)] by (simp add: holds_after_def exact_for_def)
  ultimately show ?thesis using ev by blast
qed

lemma event_gets_its_frame_witness:
  "(100, 55) \<in> update_pairs (snd (linker_run (\<lambda>m. m) default_linker_config
     [(1, EventPersisted \<lparr>ev_corr = 7, ev_row = 100\<rparr>), (2, FrameCaptured \<lparr>fc_frame = 55, fc_corrs = [7]\<rparr>)]))"
proof -
  let ?ms = "[(1, EventPersisted \<lparr>ev_corr = 7, ev_row = 100\<rparr>), (2, FrameCaptured \<lparr>fc_frame = 55, fc_corrs = [7]\<rparr>)]"
  have s: "settled_trace 0 default_linker_config ?ms"
    by (simp add: settled_trace_def all_events_def all_frames_def default_linker_config_def)
  have m: "set (messages (snd (capture_run sample_env ([] @ sample_reads # []) sample_start))) \<subseteq> snd ` set ?ms"
    by (simp add: sample_turn messages_def)
  have e: "(7, 100) \<in> set (all_events ?ms)" by (simp add: all_events_def)
  have h: "le_has_linker sample_env" by (simp add: sample_env_def)
  have f: "FrameStored sample_result sample_frame_row \<in> set (snd (capture_turn sample_env sample_reads sample_start))"
    and o: "7 \<in> set (owed sample_env sample_reads sample_start)"
    by (simp_all add: sample_turn sample_owed)
  have "sample_start = fst (capture_run sample_env [] sample_start)" by simp
  from event_gets_its_frame [OF iterates_id s h m this f o e] show ?thesis by (simp add: sample_result_def)
qed

end
