(* ===== verification/ControlProperties.thy ===== *)
theory ControlProperties
  imports CaptureLoop
begin

text \<open>
  Properties of what controls the capture loop: power profiles and their manager, HD sessions,
  focus, excluded windows, protected content, the schedule, and what reaches the database.
\<close>

section \<open>Power\<close>

text \<open>A battery that drains never makes the profile less aggressive, in every mode and state; capture
  is paused exactly in automatic mode, on a machine that is not hot, with at most ten percent,
  when it is on battery or the low-power mode of the system is on.\<close>

theorem power_tiers:
  assumes "b \<le> b'"
  shows "tier_rank (pp_name (for_state (s\<lparr>battery_pct := Some b'\<rparr>) m))
      \<le> tier_rank (pp_name (for_state (s\<lparr>battery_pct := Some b\<rparr>) m))
    \<and> pp_capture_paused (for_state s m) =
        (m = Auto \<and> thermal s \<notin> {Serious, Critical} \<and> (if on_ac s then os_low_power s else True)
         \<and> (case battery_pct s of Some p \<Rightarrow> p \<le> 10 | None \<Rightarrow> False))"
  using assms
  by (cases m; cases "thermal s")
    (auto simp: for_state_def battery_profile_def performance_def saver_def balanced_def audio_paused_def
      full_pause_def Let_def split: option.split)

lemma power_tiers_witness:
  "tier_rank (pp_name (for_state (default_power_state\<lparr>on_ac := False, battery_pct := Some 80\<rparr>) Auto))
     \<le> tier_rank (pp_name (for_state (default_power_state\<lparr>on_ac := False, battery_pct := Some 5\<rparr>) Auto))"
  using power_tiers [of 5 80 "default_power_state\<lparr>on_ac := False\<rparr>" Auto] by simp

lemma power_run_consistent:
  "pm_profile m = for_state (pm_state m) (pm_pref m) \<Longrightarrow>
     pm_profile (fst (power_run sts m)) = for_state (pm_state (fst (power_run sts m))) (pm_pref (fst (power_run sts m)))"
proof (induction sts arbitrary: m)
  case Nil
  then show ?case by simp
next
  case (Cons st sts)
  have "pm_profile (fst (power_step st m)) = for_state (pm_state (fst (power_step st m))) (pm_pref (fst (power_step st m)))"
    by (simp add: power_step_def poll_step_def set_user_pref_def Let_def split: power_input.split)
  from Cons.IH [OF this] show ?case by (simp add: case_prod_beta)
qed

definition event_ok :: "power_effect \<Rightarrow> bool" where
  "event_ok e = (case e of
     ProfileChanged c \<Rightarrow> pc_from c \<noteq> pc_to c \<and> pc_downgrade c = (tier_rank (pc_from c) < tier_rank (pc_to c))
   | _ \<Rightarrow> True)"

lemma power_run_events: "list_all event_ok (snd (power_run sts m))"
proof (induction sts arbitrary: m)
  case Nil
  then show ?case by simp
next
  case (Cons st sts)
  have "list_all event_ok (snd (power_step st m))"
    by (auto simp: power_step_def poll_step_def set_user_pref_def Let_def event_ok_def is_downgrade_from_def
        split: power_input.split)
  with Cons.IH show ?case by (simp add: case_prod_beta)
qed

fun published :: "power_effect list \<Rightarrow> power_profile \<Rightarrow> power_profile" where
  "published [] p = p"
| "published (e # es) p = published es (case e of SendProfile q \<Rightarrow> q | _ \<Rightarrow> p)"

lemma published_append: "published (es @ es') p = published es' (published es p)"
  by (induction es arbitrary: p) simp_all

lemma power_run_published: "published (snd (power_run sts m)) (pm_profile m) = pm_profile (fst (power_run sts m))"
proof (induction sts arbitrary: m)
  case Nil
  then show ?case by simp
next
  case (Cons st sts)
  have "published (snd (power_step st m)) (pm_profile m) = pm_profile (fst (power_step st m))"
    by (simp add: power_step_def poll_step_def set_user_pref_def Let_def split: power_input.split)
  with Cons.IH [of "fst (power_step st m)"] show ?case by (simp add: case_prod_beta published_append)
qed

text \<open>After the first poll, whatever polls and preference changes follow, the profile that subscribers
  see is the one selected for the last polled state and the last preference; and every change that
  is announced is a real change, labelled as a downgrade exactly when the tier rises.\<close>

theorem power_manager_consistent:
  "(let m0 = fst (initial_poll s0 (start_power_manager_with_pref pref));
        (m, es) = power_run sts m0
    in pm_profile m = for_state (pm_state m) (pm_pref m) \<and> published es (pm_profile m0) = pm_profile m
       \<and> list_all event_ok es)"
proof -
  define m0 where "m0 = fst (initial_poll s0 (start_power_manager_with_pref pref))"
  have "pm_profile m0 = for_state (pm_state m0) (pm_pref m0)"
    by (simp add: m0_def initial_poll_def Let_def)
  from power_run_consistent [OF this, of sts] show ?thesis
    unfolding Let_def m0_def [symmetric]
    by (simp add: case_prod_beta power_run_events power_run_published)
qed

section \<open>The battery level in the output of pmset\<close>

lemma parse_decimal: "n \<le> 255 \<Longrightarrow> parse_u8 (decimal n) = Some n"
  by (simp add: parse_u8_def u8_max_def parse_uint_decimal)

lemma takeWhile_digits:
  "list_all P ds \<Longrightarrow> \<not> P c \<Longrightarrow> rev (takeWhile P (rev (pre @ c # ds))) = ds"
proof -
  assume a: "list_all P ds" "\<not> P c"
  have "takeWhile P (rev ds @ c # rev pre) = rev ds @ takeWhile P (c # rev pre)"
    by (rule takeWhile_append2) (use a(1) in \<open>simp add: list_all_iff\<close>)
  with a(2) show ?thesis by simp
qed

lemma line_pct_decimal:
  assumes "37 \<notin> set pre" "\<not> is_ascii_digit c" "c \<noteq> 37" "n \<le> 100"
  shows "line_pct (pre @ c # decimal n @ 37 # post) = Some n"
proof -
  let ?l = "pre @ c # decimal n"
  have nd: "\<not> list_ex (\<lambda>c. c = 37) ?l"
    using assms(1,3) decimal_digits [of n] by (auto simp: list_ex_iff list_all_iff is_ascii_digit_def)
  have p: "position (\<lambda>c. c = 37) (?l @ 37 # post) = Some (length ?l)"
    by (rule position_append) (use nd in \<open>auto simp: list_ex_iff\<close>)
  have t: "rev (takeWhile is_ascii_digit (rev ?l)) = decimal n"
    by (rule takeWhile_digits) (use assms(2) decimal_digits [of n] in auto)
  have "line_pct (?l @ 37 # post) = map_option (min 100) (parse_u8 (rev (takeWhile is_ascii_digit (rev ?l))))"
    unfolding line_pct_def p by simp
  also have "\<dots> = Some n" using assms(4) unfolding t by (simp add: parse_decimal)
  finally show ?thesis by simp
qed

lemma first_pct_skip: "line_pct l = None \<Longrightarrow> first_pct (l # ls) = first_pct ls"
  by simp

lemma line_without_pct: "37 \<notin> set l \<Longrightarrow> line_pct l = None"
proof -
  assume "37 \<notin> set l"
  then have "position (\<lambda>c. c = 37) l = None" by auto
  then show ?thesis by (simp add: line_pct_def del: position_None)
qed

lemma lines_two:
  assumes "10 \<notin> set a" "10 \<notin> set b" "b \<noteq> []"
  shows "lines (a @ 10 # b) = [strip_cr a, b]"
  using assms by (simp add: lines_def split_byte_append split_byte_absent)

lemma strip_cr_subset: "set (strip_cr l) \<subseteq> set l"
  by (auto simp: strip_cr_def dest: in_set_butlastD)

text \<open>Reading back what the power tool prints: from a first line without a percent sign and a second
  line that has the level before its first percent sign, the level is recovered for every level up to
  one hundred, whatever surrounds it.\<close>

theorem battery_level_roundtrip:
  assumes "10 \<notin> set first" "37 \<notin> set first" "10 \<notin> set pre" "37 \<notin> set pre"
    "\<not> is_ascii_digit c" "c \<noteq> 37" "c \<noteq> 10" "10 \<notin> set post" "n \<le> 100"
  shows "parse_macos_battery_pct (first @ 10 # pre @ c # decimal n @ 37 # post) = Some n"
proof -
  let ?b = "pre @ c # decimal n @ 37 # post"
  have "10 \<notin> set (decimal n)"
    using decimal_digits [of n] by (auto simp: list_all_iff is_ascii_digit_def)
  then have l: "lines (first @ 10 # ?b) = [strip_cr first, ?b]"
    using assms by (intro lines_two) auto
  have "37 \<notin> set (strip_cr first)" using assms(2) strip_cr_subset by blast
  then have f: "line_pct (strip_cr first) = None" by (rule line_without_pct)
  show ?thesis
    unfolding parse_macos_battery_pct_def l first_pct_skip [OF f]
    by (simp add: line_pct_decimal [OF assms(4,5,6,9)])
qed

lemma battery_level_roundtrip_witness:
  "parse_macos_battery_pct (lit ''AC Power'' @ 10 # lit ''Battery-0'' @ 9 # decimal 85 @ 37 # lit ''; charging'') = Some 85"
  by (rule battery_level_roundtrip) (simp_all add: lit_def is_ascii_digit_def)

section \<open>HD sessions\<close>

fun is_extend :: "hd_call \<Rightarrow> bool" where
  "is_extend (Extend _) = True"
| "is_extend _ = False"

definition hd_within :: "nat \<Rightarrow> instant \<Rightarrow> hd_controller \<Rightarrow> bool" where
  "hd_within n t c \<longleftrightarrow>
     (case hc_session c of
        None \<Rightarrow> True
      | Some s \<Rightarrow> se_expires s \<le> t + MAX_MEETING_DURATION + n * MAX_TIMER_DURATION)"

lemmas hd_limits = MAX_MEETING_DURATION_def MAX_TIMER_DURATION_def MIN_TIMER_DURATION_def PREWARM_WAIT_def
  STALE_MEETING_FALLBACK_def from_secs_def

lemma snapshot_within: "hd_within n t c \<Longrightarrow> hd_within n t (fst (hd_snapshot_at now m c))"
  by (auto simp: hd_within_def snapshot_controller split: option.splits)

lemma hd_step_within:
  assumes "hd_within n t c" "now \<le> t"
  shows "hd_within (n + (if is_extend call then 1 else 0)) t (hd_step (now, m, call) c)"
proof (cases call)
  case (StartMeetingSession i)
  have "hd_within n t (c\<lparr>hc_session := Some \<lparr>se_kind = k, se_started = now, se_expires = now + d\<rparr>\<rparr>)"
    if "d \<le> MAX_MEETING_DURATION" for k d
    using that assms(2) by (simp add: hd_within_def)
  then show ?thesis using StartMeetingSession
    by (auto simp: start_meeting_session_def Let_def hd_limits intro!: snapshot_within split: option.split)
next
  case StartPrewarm
  then show ?thesis using assms(2)
    by (auto simp: start_prewarm_pending_session_def hd_within_def hd_limits snapshot_controller split: option.splits)
next
  case (TryUpgrade i)
  then show ?thesis using assms
    by (auto simp: try_upgrade_pending_to_meeting_def hd_within_def split: option.splits)
next
  case (Extend d)
  have "hd_within (Suc n) t (c\<lparr>hc_session := map_option (\<lambda>s. s\<lparr>se_expires := se_expires s + min d MAX_TIMER_DURATION\<rparr>) (hc_session c)\<rparr>)"
    using assms(1) by (auto simp: hd_within_def split: option.splits)
  then show ?thesis using Extend by (simp add: extend_session_def Let_def snapshot_within)
next
  case (StartTimer d)
  have "min (max d MIN_TIMER_DURATION) MAX_TIMER_DURATION \<le> MAX_MEETING_DURATION" by (simp add: hd_limits)
  then have "hd_within n t (c\<lparr>hc_session := Some \<lparr>se_kind = TimerSession, se_started = now,
      se_expires = now + min (max d MIN_TIMER_DURATION) MAX_TIMER_DURATION\<rparr>\<rparr>)"
    using assms(2) by (simp add: hd_within_def)
  then show ?thesis using StartTimer by (simp add: start_timer_session_def Let_def snapshot_within)
next
  case StopSession
  then show ?thesis by (simp add: stop_session_def hd_within_def snapshot_controller)
next
  case (MeetingEnded i)
  then show ?thesis using assms(1) by (auto simp: handle_meeting_ended_def hd_within_def split: option.splits)
next
  case Snapshot
  then show ?thesis using assms(1) by (simp add: snapshot_within)
qed (use assms(1) in \<open>simp_all add: hd_within_def set_default_mode_def set_interval_ms_def Let_def\<close>)

lemma hd_run_within:
  "hd_within n t c \<Longrightarrow> list_all (\<lambda>(now, _). now \<le> t) cs \<Longrightarrow>
     hd_within (n + length (filter (\<lambda>(_, _, call). is_extend call) cs)) t (hd_run cs c)"
proof (induction cs arbitrary: n c)
  case Nil
  then show ?case by (simp add: hd_run_def)
next
  case (Cons x cs)
  obtain now m call where x: "x = (now, m, call)" by (metis surj_pair)
  have "hd_within (n + (if is_extend call then 1 else 0)) t (hd_step (now, m, call) c)"
    by (rule hd_step_within) (use Cons.prems x in auto)
  from Cons.IH [OF this] Cons.prems(2) show ?case
    by (cases "is_extend call") (simp_all add: hd_run_def x)
qed

text \<open>No HD session outlives its bound: whatever is called by instant \<open>t\<close>, in any order, a session is
  over four hours after \<open>t\<close>, plus two hours for every call that extended it; with no extension that
  is the four hours of a meeting, even when the end of the meeting is never reported.\<close>

theorem hd_sessions_end:
  assumes "list_all (\<lambda>(now, _). now \<le> t) cs"
    "t + MAX_MEETING_DURATION + length (filter (\<lambda>(_, _, call). is_extend call) cs) * MAX_TIMER_DURATION \<le> later"
  shows "\<not> hs_active (snd (hd_snapshot_at later m (hd_run cs (new_hd_controller mode ms))))"
proof -
  have "hd_within 0 t (new_hd_controller mode ms)" by (simp add: hd_within_def new_hd_controller_def)
  from hd_run_within [OF this assms(1)] assms(2) show ?thesis
    by (auto simp: snapshot_active_iff hd_within_def split: option.splits)
qed

lemma hd_sessions_end_witness:
  "\<not> hs_active (snd (hd_snapshot_at (from_secs 22000) None
      (hd_run [(0, Some True, StartMeetingSession 42), (from_secs 10, None, Extend (from_secs 100000))]
         (new_hd_controller Ask 5))))"
  by (rule hd_sessions_end [where t = "from_secs 10"]) (simp_all add: hd_limits)

text \<open>Extensions add up: \<open>k\<close> of them push the deadline by \<open>k\<close> times two hours.\<close>

lemma extensions_add_up:
  assumes "hc_session c = Some s" "now < se_expires s"
  shows "hc_session (hd_run (replicate k (now, m, Extend MAX_TIMER_DURATION)) c)
    = Some (s\<lparr>se_expires := se_expires s + k * MAX_TIMER_DURATION\<rparr>)"
  using assms
proof (induction k arbitrary: c s)
  case 0
  then show ?case by (simp add: hd_run_def)
next
  case (Suc k)
  let ?s = "s\<lparr>se_expires := se_expires s + MAX_TIMER_DURATION\<rparr>"
  have "hc_session (hd_step (now, m, Extend MAX_TIMER_DURATION) c) = Some ?s"
    using Suc.prems by (simp add: extend_session_def Let_def snapshot_controller)
  from Suc.IH [OF this] Suc.prems(2) show ?case by (simp add: hd_run_def add_ac)
qed

lemma hd_step_well_formed:
  assumes "hd_well_formed before c" "before \<le> now"
  shows "hd_well_formed now (hd_step (now, m, call) c)"
proof -
  have mode: "hc_mode c \<in> {-1, 0, 1}" and iv: "MIN_INTERVAL_MS \<le> hc_interval c"
    and ses: "case hc_session c of None \<Rightarrow> True | Some s \<Rightarrow> se_started s \<le> now \<and> se_started s \<le> se_expires s"
    using assms by (auto simp: hd_well_formed_def split: option.splits)
  show ?thesis
    using mode iv ses
    by (cases call)
      (auto simp: hd_well_formed_def hd_defs Let_def split: option.splits)
qed

text \<open>The controller stays well-formed: called in the order of the clock, it always holds one of the
  three mode codes (so the mode read back is the mode set), an interval of at least 33 ms, and a
  session that started in the past, before its deadline.\<close>

theorem hd_controller_well_formed:
  assumes "sorted (map fst cs @ [t])"
  shows "hd_well_formed t (hd_run cs (new_hd_controller mode ms))
    \<and> from_i8 (hc_mode (hd_run (cs @ [(t, m, SetMode mode')]) (new_hd_controller mode ms))) = mode'"
proof -
  have mono: "hd_well_formed a c \<Longrightarrow> a \<le> b \<Longrightarrow> hd_well_formed b c" for a b c
    by (auto simp: hd_well_formed_def split: option.splits)
  have run: "sorted (map fst cs) \<Longrightarrow> list_all (\<lambda>x. a \<le> fst x) cs \<Longrightarrow> list_all (\<lambda>x. fst x \<le> b) cs \<Longrightarrow> a \<le> b \<Longrightarrow>
      hd_well_formed a c \<Longrightarrow> hd_well_formed b (hd_run cs c)" for a b c
  proof (induction cs arbitrary: a c)
    case Nil
    then show ?case using mono by (simp add: hd_run_def)
  next
    case (Cons x cs)
    obtain now m call where x: "x = (now, m, call)" by (metis surj_pair)
    have w: "hd_well_formed now (hd_step (now, m, call) c)"
      by (rule hd_step_well_formed [OF Cons.prems(5)]) (use Cons.prems(2) x in simp)
    have "list_all (\<lambda>y. now \<le> fst y) cs" using Cons.prems(1) x by (auto simp: list_all_iff)
    from Cons.IH [OF _ this _ _ w] Cons.prems x show ?case by (simp add: hd_run_def)
  qed
  have new: "hd_well_formed 0 (new_hd_controller mode ms)"
    by (simp add: hd_well_formed_def new_hd_controller_def)
  have "sorted (map fst cs)" "list_all (\<lambda>x. fst x \<le> t) cs" "list_all (\<lambda>x. 0 \<le> fst x) cs"
    using assms by (auto simp: sorted_append list_all_iff)
  from run [OF this(1,3,2) _ new] have "hd_well_formed t (hd_run cs (new_hd_controller mode ms))" by simp
  then show ?thesis by (simp add: hd_run_def set_default_mode_def)
qed

lemma hd_controller_well_formed_witness:
  "hd_well_formed (from_secs 60) (hd_run [(0, Some False, StartMeetingSession 3), (from_secs 5, None, SetInterval 1)]
     (new_hd_controller Never 0))"
  using hd_controller_well_formed [of "[(0, Some False, StartMeetingSession 3), (from_secs 5, None, SetInterval 1)]"
      "from_secs 60" Never 0 None Ask]
  by (simp add: from_secs_def)

section \<open>Focus\<close>

text \<open>A monitor is held back only on good evidence: whatever focus events arrived, a monitor that is
  not captured at full rate at some instant lies outside the focus reported by the last event, that
  event is less than thirty seconds old, and the monitor has not held the focus in the last two
  seconds. So a stalled tracker, an unknown focus or no event at all leaves every monitor active.\<close>

theorem focus_never_starves:
  assumes "state_for_identity now m (run_focus start es) \<noteq> ActiveCapture"
  shows "es \<noteq> [] \<and> (\<exists>i. snd (last es) = Focused i \<and> \<not> identity_matches i m)
    \<and> elapsed now (fst (last es)) < from_secs 30
    \<and> (case fo_lost (run_focus start es) (key_of m) of Some t \<Rightarrow> from_millis 2000 \<le> elapsed now t | None \<Rightarrow> True)"
proof -
  let ?c = "run_focus start es"
  from assms have st: "\<not> STALE_FOCUS_CUTOFF \<le> elapsed now (fo_last_event ?c)"
    and cur: "fo_current ?c \<noteq> None"
    and nm: "\<not> identity_matches (the (fo_current ?c)) m"
    and lost: "case fo_lost ?c (key_of m) of Some t \<Rightarrow> \<not> elapsed now t < WARM_CUTOFF | None \<Rightarrow> True"
    by (auto simp: state_for_identity_def split: if_split_asm option.splits)
  have ne: "es \<noteq> []" using cur by (auto simp: current_of_run)
  obtain i where i: "snd (last es) = Focused i"
    using cur ne by (cases "snd (last es)") (auto simp: current_of_run)
  have "elapsed now (fst (last es)) < from_secs 30"
    using st ne by (simp add: last_event_of_run STALE_FOCUS_CUTOFF_def not_le)
  moreover have "\<not> identity_matches i m" using nm ne i by (simp add: current_of_run)
  moreover have "case fo_lost ?c (key_of m) of Some t \<Rightarrow> from_millis 2000 \<le> elapsed now t | None \<Rightarrow> True"
    using lost by (simp add: WARM_CUTOFF_def not_less split: option.splits)
  ultimately show ?thesis using ne i by blast
qed

lemma focus_never_starves_witness:
  "\<not> identity_matches (runtime_id 1) (runtime_id 2)"
proof -
  have "state_for_identity 5 (runtime_id 2) (run_focus 0 [(3, Focused (runtime_id 1))]) \<noteq> ActiveCapture"
    by (simp add: run_focus_def new_focus_controller_def apply_event_def apply_focus_def state_for_identity_def
        identity_matches_def runtime_id_def elapsed_def STALE_FOCUS_CUTOFF_def from_secs_def)
  from focus_never_starves [OF this] show ?thesis by simp
qed

section \<open>The schedule\<close>

lemma digit_pair_less:
  fixes a b c d :: nat
  assumes "b < 10" "d < 10"
  shows "10 * a + b < 10 * c + d \<longleftrightarrow> a < c \<or> (a = c \<and> b < d)"
  using assms by (cases a c rule: linorder_cases) auto

lemma two_digits_less:
  "(n::nat) < k \<longleftrightarrow> n div 10 < k div 10 \<or> (n div 10 = k div 10 \<and> n mod 10 < k mod 10)"
  using digit_pair_less [of "n mod 10" "k mod 10" "n div 10" "k div 10"] by simp

lemma two_digits_eq: "(n::nat) = k \<longleftrightarrow> n div 10 = k div 10 \<and> n mod 10 = k mod 10"
  by (metis div_mult_mod_eq)

lemma hh_mm_le:
  assumes "h < 100" "m < 60" "h' < 100" "m' < 60"
  shows "str_le (hh_mm h m) (hh_mm h' m') \<longleftrightarrow> 60 * h + m \<le> 60 * h' + m'"
proof -
  have "str_le (hh_mm h m) (hh_mm h' m') \<longleftrightarrow> h < h' \<or> (h = h' \<and> \<not> m' < m)"
    unfolding two_digits_less [of h h'] two_digits_eq [of h h'] two_digits_less [of m' m]
    by (auto simp: hh_mm_def)
  also have "\<dots> \<longleftrightarrow> 60 * h + m \<le> 60 * h' + m'"
    using assms by (cases h h' rule: linorder_cases) auto
  finally show ?thesis .
qed

lemma within_schedule_iff:
  "is_within_schedule rules day t \<longleftrightarrow> list_ex (\<lambda>r. ru_day r = day \<and> rule_covers t r) rules"
  by (induction rules) (auto simp: is_within_schedule_def Let_def list_ex_iff)

text \<open>On times written \<open>HH:MM\<close> the text comparison is the comparison of the minutes of the day: the
  schedule pauses recording exactly when no rule of the day covers the minute, from its start up to
  but not including its end; so a rule that ends before it starts (over midnight) covers nothing.\<close>

theorem schedule_means_minutes:
  assumes "h < 24" "m < 60"
    "list_all (\<lambda>(d, h1, m1, h2, m2, md). h1 < 100 \<and> m1 < 60 \<and> h2 < 100 \<and> m2 < 60) rules"
  shows "gf_schedule (schedule_tick
        (map (\<lambda>(d, h1, m1, h2, m2, md). \<lparr>ru_day = d, ru_start = hh_mm h1 m1, ru_end = hh_mm h2 m2, ru_mode = md\<rparr>) rules)
        day (hh_mm h m) g)
    = (\<not> list_ex (\<lambda>(d, h1, m1, h2, m2, md). d = day \<and> 60 * h1 + m1 \<le> 60 * h + m \<and> 60 * h + m < 60 * h2 + m2) rules)"
proof -
  have r: "rule_covers (hh_mm h m) \<lparr>ru_day = d, ru_start = hh_mm h1 m1, ru_end = hh_mm h2 m2, ru_mode = md\<rparr>
      \<longleftrightarrow> 60 * h1 + m1 \<le> 60 * h + m \<and> 60 * h + m < 60 * h2 + m2"
    if "h1 < 100" "m1 < 60" "h2 < 100" "m2 < 60" for d h1 m1 h2 m2 md
    using that assms(1,2) by (simp add: rule_covers_def str_less_def hh_mm_le not_le)
  have "list_ex (\<lambda>r. ru_day r = day \<and> rule_covers (hh_mm h m) r)
      (map (\<lambda>(d, h1, m1, h2, m2, md). \<lparr>ru_day = d, ru_start = hh_mm h1 m1, ru_end = hh_mm h2 m2, ru_mode = md\<rparr>) rules)
    \<longleftrightarrow> list_ex (\<lambda>(d, h1, m1, h2, m2, md). d = day \<and> 60 * h1 + m1 \<le> 60 * h + m \<and> 60 * h + m < 60 * h2 + m2) rules"
    using assms(3) by (induction rules) (auto simp: r)
  then show ?thesis by (simp add: schedule_tick_def within_schedule_iff)
qed

lemma schedule_means_minutes_witness:
  "gf_schedule (schedule_tick [\<lparr>ru_day = 0, ru_start = hh_mm 22 0, ru_end = hh_mm 6 0, ru_mode = []\<rparr>] 0 (hh_mm 23 30)
     \<lparr>gf_drm = False, gf_locked = False, gf_schedule = False\<rparr>)"
  using schedule_means_minutes [of 23 30 "[(0, 22, 0, 6, 0, [])]" 0 "\<lparr>gf_drm = False, gf_locked = False, gf_schedule = False\<rparr>"]
  by simp

section \<open>Protected content\<close>

lemma contains_play: "contains_str t (lit ''play'') \<Longrightarrow> title_domain t \<noteq> None"
proof -
  assume p: "contains_str t (lit ''play'')"
  have "lit ''play.max.com'' \<in> set DRM_DOMAINS" "domain_base (lit ''play.max.com'') = lit ''play''"
    by (simp_all add: DRM_DOMAINS_def domain_base_def lit_def)
  with p have "find (\<lambda>d. contains_str t (domain_base d)) DRM_DOMAINS \<noteq> None"
    by (auto simp: find_None_iff)
  then show ?thesis by (auto simp: title_domain_def split: option.splits)
qed

lemma alias_domains: "list_all (\<lambda>(k, d). d \<in> set DRM_DOMAINS) TITLE_ALIASES"
  by code_simp

lemma title_domain_mem: "title_domain t = Some d \<Longrightarrow> d \<in> set DRM_DOMAINS"
  using alias_domains by (auto simp: title_domain_def list_all_iff dest!: find_hit split: option.splits)

lemma guessed_urls_drm:
  "list_all (\<lambda>d. is_drm_url (map to_ascii_lowercase) (lit ''https://'' @ d)) DRM_DOMAINS"
  by code_simp

text \<open>Guessing a page from a window title pauses capture for ordinary pages: for every browser that
  does not tell its page, a title with \<open>play\<close> in it (a display setting, a playlist) is taken for a
  streaming page, blocks the capture and pauses every monitor.\<close>

theorem ordinary_titles_pause_capture:
  assumes "fa_name f = Some name" "is_browser (map to_ascii_lowercase) name" "fa_window f"
    "get_browser_url_ax (map to_ascii_lowercase) f name = None" "fa_title f = Some title"
    "contains_str (map to_ascii_lowercase title) (lit ''play'')" "\<not> gf_drm g"
  shows "pre_capture_drm_check_macos (map to_ascii_lowercase) True None (Answered (Some f)) g
    = (set_drm_paused True g, True)"
proof -
  obtain d where d: "title_domain (map to_ascii_lowercase title) = Some d" using contains_play [OF assms(6)] by blast
  from title_domain_mem [OF d] guessed_urls_drm have u: "is_drm_url (map to_ascii_lowercase) (lit ''https://'' @ d)"
    by (simp add: list_all_iff)
  have "get_focused_app_info (map to_ascii_lowercase) (Some f) = Some (name, Some (lit ''https://'' @ d))"
    using assms(1-5) d by (simp add: get_focused_app_info_def get_drm_url_from_window_title_def)
  then have "pre_capture_blocks (map to_ascii_lowercase) None (Answered (Some f))"
    using u by (simp add: pre_capture_blocks_def is_drm_content_def)
  with assms(7) show ?thesis by (simp add: pre_capture_drm_check_macos_def)
qed

lemma ordinary_titles_pause_capture_witness:
  "pre_capture_drm_check_macos (map to_ascii_lowercase) True None
     (Answered (Some \<lparr>fa_name = Some (lit ''Firefox''), fa_window = True, fa_title = Some (lit ''Display settings''),
        fa_document = None, fa_safari = None, fa_arc = None\<rparr>))
     \<lparr>gf_drm = False, gf_locked = False, gf_schedule = False\<rparr>
   = (\<lparr>gf_drm = True, gf_locked = False, gf_schedule = False\<rparr>, True)"
  using ordinary_titles_pause_capture [of "\<lparr>fa_name = Some (lit ''Firefox''), fa_window = True,
      fa_title = Some (lit ''Display settings''), fa_document = None, fa_safari = None, fa_arc = None\<rparr>"
      "lit ''Firefox''" "lit ''Display settings''" "\<lparr>gf_drm = False, gf_locked = False, gf_schedule = False\<rparr>"]
  by (simp add: is_browser_def BROWSER_APPS_def get_browser_url_ax_def http_only_def contains_str_def lit_def
      to_ascii_lowercase_def is_ascii_uppercase_def set_drm_paused_def)

section \<open>What reaches the database\<close>

text \<open>With the removal of personal data on, the text of a row and its OCR text went through the
  removal, but the accessibility tree of the same row is the JSON of the raw nodes, exactly as with
  the removal off, and so is the text kept for the hot cache.\<close>

theorem pii_removal_skips_tree:
  assumes "paired_capture lb written ins (cx\<lparr>cx_pii_removal := True\<rparr>) (Some s) = Some (r, row)"
    "ts_text s \<noteq> []" "\<not> app_prefers_ocr (lb_low lb) (cx_app cx)"
  shows "fr_text row = Some (lb_remove_pii lb (ts_text s)) \<and> fr_tree_json row = lb_nodes_json lb (ts_nodes s)
    \<and> cr_text r = Some (ts_text s) \<and> fr_window row = cx_window cx
    \<and> (case fr_ocr row of Some (t, j) \<Rightarrow> t = lb_remove_pii lb (fst (run_ocr lb cx (Some s))) | None \<Rightarrow> True)"
proof -
  let ?cx = "cx\<lparr>cx_pii_removal := True\<rparr>"
  have ch: "choose_text lb ?cx (Some s) o1 =
      (Some (ts_text s), lb_nodes_json lb (ts_nodes s), Some (u64_as_i64 (ts_content_hash s)), Some (u64_as_i64 (ts_simhash s)))" for o1
    using assms(2,3) by (simp add: choose_text_def)
  have ro: "run_ocr lb ?cx (Some s) = run_ocr lb cx (Some s)"
    by (simp add: run_ocr_def has_accessibility_text_def is_thin_def)
  obtain ot oj where o: "run_ocr lb cx (Some s) = (ot, oj)" by fastforce
  have so: "fst (source_of (Some (ts_text s)) j th u) = Some (ts_text s)" for j th u
    using assms(2) by (simp add: source_of_def)
  have row: "row = frame_row_of lb ?cx (Some s) (cr_snapshot_path r)"
    and cr: "cr_text r = Some (ts_text s)"
    using assms(1) by (auto simp: paired_capture_def Let_def ch ro o split: option.splits if_split_asm)
  have "fr_text row = Some (lb_remove_pii lb (ts_text s))" "fr_tree_json row = lb_nodes_json lb (ts_nodes s)"
    "fr_window row = cx_window cx"
    using so by (simp_all add: row frame_row_of_def Let_def ch ro o case_prod_beta)
  moreover have "case fr_ocr row of Some (t, j) \<Rightarrow> t = lb_remove_pii lb ot | None \<Rightarrow> True"
    by (auto simp: row frame_row_of_def Let_def ch ro o case_prod_beta)
  ultimately show ?thesis using cr o by (auto split: option.splits)
qed

lemma pii_removal_skips_tree_witness:
  "(let lb = \<lparr>lb_low = (\<lambda>s. s), lb_ocr = ([], lit ''[]''), lb_strip_gutter = (\<lambda>s. s), lb_hash = (\<lambda>s. 1),
              lb_nodes_json = (\<lambda>ns. Some (concat (map tn_text ns))), lb_remove_pii = (\<lambda>s. lit ''[EMAIL]''),
              lb_sanitize_json = (\<lambda>s. s)\<rparr>;
        cx = \<lparr>cx_app = None, cx_window = None, cx_url = None, cx_document = None, cx_trigger = lit ''click'',
              cx_pii_removal = True, cx_elements_ref = None, cx_screenshot_disabled = True\<rparr>;
        s = \<lparr>ts_app = [], ts_window = [], ts_text = lit ''a@b.c'', ts_nodes = [\<lparr>tn_role = [], tn_text = lit ''a@b.c''\<rparr>],
             ts_url = None, ts_document = None, ts_walk_duration = 0, ts_content_hash = 1, ts_simhash = 1,
             ts_truncated = False\<rparr>
    in case paired_capture lb None (\<lambda>row. Some 1) cx (Some s) of
         Some (r, row) \<Rightarrow> fr_text row = Some (lit ''[EMAIL]'') \<and> fr_tree_json row = Some (lit ''a@b.c'')
       | None \<Rightarrow> False)"
proof -
  define lb where "lb = \<lparr>lb_low = (\<lambda>s. s), lb_ocr = ([], lit ''[]''), lb_strip_gutter = (\<lambda>s. s), lb_hash = (\<lambda>s. 1),
      lb_nodes_json = (\<lambda>ns. Some (concat (map tn_text ns))), lb_remove_pii = (\<lambda>s. lit ''[EMAIL]''),
      lb_sanitize_json = (\<lambda>s. s)\<rparr>"
  define cx where "cx = \<lparr>cx_app = None, cx_window = None, cx_url = None, cx_document = None,
      cx_trigger = lit ''click'', cx_pii_removal = True, cx_elements_ref = None, cx_screenshot_disabled = True\<rparr>"
  define s where "s = \<lparr>ts_app = [], ts_window = [], ts_text = lit ''a@b.c'',
      ts_nodes = [\<lparr>tn_role = [], tn_text = lit ''a@b.c''\<rparr>], ts_url = None, ts_document = None,
      ts_walk_duration = 0, ts_content_hash = 1, ts_simhash = 1, ts_truncated = False\<rparr>"
  have cx: "cx\<lparr>cx_pii_removal := True\<rparr> = cx" "cx_app cx = None" "cx_screenshot_disabled cx"
    by (simp_all add: cx_def)
  obtain r row where pc: "paired_capture lb None (\<lambda>row. Some 1) cx (Some s) = Some (r, row)"
    by (cases "paired_capture lb None (\<lambda>row. Some 1) cx (Some s)")
      (auto simp: paired_capture_def cx(3) Let_def case_prod_beta split: option.splits)
  have t: "ts_text s \<noteq> []" "lb_remove_pii lb = (\<lambda>s. lit ''[EMAIL]'')" "lb_nodes_json lb (ts_nodes s) = Some (lit ''a@b.c'')"
    by (simp_all add: s_def lb_def lit_def)
  from pii_removal_skips_tree [of lb None "\<lambda>row. Some 1" cx s r row] pc t cx
  show ?thesis unfolding Let_def lb_def [symmetric] cx_def [symmetric] s_def [symmetric]
    by (simp add: app_prefers_ocr_def)
qed

section \<open>Black frames\<close>

function grid :: "nat \<Rightarrow> nat \<Rightarrow> nat \<Rightarrow> nat list" where
  "grid n d x = (if x < n then x # grid n d (x + max d 1) else [])"
  by pat_completeness auto
termination
  by (relation "measure (\<lambda>(n, d, x). n - x)") auto

declare grid.simps [simp del]

lemma sample_row_grid:
  "sample_row im d y x (b, t) =
     (b + length (filter (\<lambda>x. is_black (im_pixel im x y)) (grid (im_width im) d x)), t + length (grid (im_width im) d x))"
proof (induction "im_width im" d x arbitrary: b t rule: grid.induct)
  case (1 d x)
  show ?case
  proof (cases "x < im_width im")
    case True
    note g = grid.simps [of "im_width im" d x]
    from True 1 [OF True] show ?thesis
      by (subst sample_row.simps) (simp add: g Let_def)
  next
    case False
    then show ?thesis by (subst sample_row.simps) (simp add: grid.simps [of "im_width im" d x])
  qed
qed

definition sample_points :: "rgb_image \<Rightarrow> nat \<Rightarrow> nat \<Rightarrow> nat \<Rightarrow> (nat \<times> nat) list" where
  "sample_points im dx dy y =
     concat (map (\<lambda>y. map (\<lambda>x. (x, y)) (grid (im_width im) dx 0)) (grid (im_height im) dy y))"

lemma sample_rows_grid:
  "sample_rows im dx dy y (b, t) =
     (b + length (filter (\<lambda>(x, y). is_black (im_pixel im x y)) (sample_points im dx dy y)),
      t + length (sample_points im dx dy y))"
proof (induction "im_height im" dy y arbitrary: b t rule: grid.induct)
  case (1 dy y)
  show ?case
  proof (cases "y < im_height im")
    case True
    have p: "sample_points im dx dy y =
        map (\<lambda>x. (x, y)) (grid (im_width im) dx 0) @ sample_points im dx dy (y + max dy 1)"
      using True by (simp add: sample_points_def grid.simps [of "im_height im" dy y])
    from True 1 [OF True] show ?thesis
      by (subst sample_rows.simps) (simp add: sample_row_grid p filter_map comp_def)
  next
    case False
    then show ?thesis
      by (subst sample_rows.simps) (simp add: sample_points_def grid.simps [of "im_height im" dy y])
  qed
qed

lemma grid_length: "length (grid n d x) * max d 1 < n - x + max d 1"
proof (induction n d x rule: grid.induct)
  case (1 n d x)
  show ?case
  proof (cases "x < n")
    case True
    with 1 [OF True] show ?thesis
      by (cases "x + max d 1 < n") (auto simp: grid.simps [of n d x] grid.simps [of n d "x + max d 1"])
  next
    case False
    then show ?thesis by (simp add: grid.simps [of n d x])
  qed
qed

lemma grid_at_most: "length (grid n (n div 15) 0) \<le> 29"
proof (cases "n < 15")
  case True
  with grid_length [of n "n div 15" 0] show ?thesis by simp
next
  case False
  define s where "s = n div 15"
  have s: "1 \<le> s" "n < 15 * s + 15" using False by (auto simp: s_def)
  have "length (grid n s 0) * s < n + s" using grid_length [of n s 0] s by (simp add: max_def split: if_split_asm)
  then have "length (grid n s 0) * s < 30 * s" using s by linarith
  then show ?thesis using s by (simp add: s_def)
qed

lemma grid_nonempty: "0 < n \<Longrightarrow> 1 \<le> length (grid n d 0)"
  by (simp add: grid.simps [of n d 0])

lemma sample_points_length: "length (sample_points im dx dy 0) = length (grid (im_height im) dy 0) * length (grid (im_width im) dx 0)"
  by (simp add: sample_points_def length_concat comp_def sum_list_triv)

text \<open>The check for black frames ends on every image after between one and 841 samples (so the ratio is
  defined), samples exactly the points of the grid that starts in the corner, and calls the frame
  black when more than 95 percent of them are; an image without pixels is black.\<close>

theorem black_check_samples_grid:
  "(let pts = sample_points im (im_width im div 15) (im_height im div 15) 0;
        black = length (filter (\<lambda>(x, y). is_black (im_pixel im x y)) pts)
    in if im_width im = 0 \<or> im_height im = 0 then is_frame_mostly_black im
       else is_frame_mostly_black im = (19 * length pts < 20 * black)
            \<and> 1 \<le> length pts \<and> length pts \<le> 841)"
proof (cases "im_width im = 0 \<or> im_height im = 0")
  case True
  then show ?thesis by (simp add: is_frame_mostly_black_def Let_def)
next
  case False
  let ?pts = "sample_points im (im_width im div 15) (im_height im div 15) 0"
  have "length ?pts \<le> 29 * 29" unfolding sample_points_length by (intro mult_le_mono grid_at_most)
  moreover have "1 * 1 \<le> length ?pts" unfolding sample_points_length
    by (intro mult_le_mono grid_nonempty) (use False in auto)
  moreover have "is_frame_mostly_black im = (19 * length ?pts
      < 20 * length (filter (\<lambda>(x, y). is_black (im_pixel im x y)) ?pts))"
    using False by (simp add: is_frame_mostly_black_def sample_rows_grid Let_def)
  ultimately show ?thesis using False by (simp add: Let_def)
qed

section \<open>Budget and patterns\<close>

lemma budget_step_ok: "(\<forall>a c. b a = Some c \<longrightarrow> cost_ok c) \<Longrightarrow> budget_step x b a = Some c \<Longrightarrow> cost_ok c"
proof -
  assume b: "\<forall>a c. b a = Some c \<longrightarrow> cost_ok c" and s: "budget_step x b a = Some c"
  obtain now call where x: "x = (now, call)" by fastforce
  have co: "cost_ok (cost_of now n b)" for n
    using b by (auto simp: cost_of_def cost_ok_new split: option.split)
  show ?thesis
    using s b co by (cases call)
      (auto simp: x should_walk_def record_walk_def Let_def case_prod_beta cost_ok_decay cost_ok_record split: if_split_asm)
qed

text \<open>Along every sequence of decisions and recorded walks, each app's window holds at most eight walks
  and its tier is the one its window and truncation count give; yet the sixty seconds of the
  critical tier are not kept: three fast truncated walks make an app critical, and a decision
  thirty-one seconds later lets it be walked as a light one.\<close>

theorem walk_budget_tiers:
  "(case fold budget_step calls Map.empty app of Some c \<Rightarrow> cost_ok c | None \<Rightarrow> True)
   \<and> (let t = from_secs 1000;
          b = fold budget_step (replicate 3 (t, RecordWalk (lit ''app'') (from_millis 10) True)) Map.empty
      in wd_tier (snd (should_walk (t + from_secs 1) (lit ''app'') b)) = CriticalTier
         \<and> \<not> wd_walk (snd (should_walk (t + from_secs 30) (lit ''app'') b))
         \<and> snd (should_walk (t + from_secs 31) (lit ''app'') b)
             = \<lparr>wd_walk = True, wd_max_nodes = 5000, wd_timeout = from_millis 250, wd_tier = Light\<rparr>)"
proof -
  have "\<forall>a c. fold budget_step calls b a = Some c \<longrightarrow> cost_ok c" if "\<forall>a c. b a = Some c \<longrightarrow> cost_ok c" for b
    using that
  proof (induction calls arbitrary: b)
    case Nil
    then show ?case by simp
  next
    case (Cons x xs)
    have "\<forall>a c. budget_step x b a = Some c \<longrightarrow> cost_ok c"
      using budget_step_ok [OF Cons.prems] by blast
    from Cons.IH [OF this] show ?case by simp
  qed
  from this [of Map.empty] have "case fold budget_step calls Map.empty app of Some c \<Rightarrow> cost_ok c | None \<Rightarrow> True"
    by (auto split: option.split)
  moreover have "(let t = from_secs 1000;
          b = fold budget_step (replicate 3 (t, RecordWalk (lit ''app'') (from_millis 10) True)) Map.empty
      in wd_tier (snd (should_walk (t + from_secs 1) (lit ''app'') b)) = CriticalTier
         \<and> \<not> wd_walk (snd (should_walk (t + from_secs 30) (lit ''app'') b))
         \<and> snd (should_walk (t + from_secs 31) (lit ''app'') b)
             = \<lparr>wd_walk = True, wd_max_nodes = 5000, wd_timeout = from_millis 250, wd_tier = Light\<rparr>)"
    by code_simp
  ultimately show ?thesis by blast
qed

text \<open>The pattern \<open>App::\<close> is narrower than the plain \<open>App\<close>: it does not see titles.\<close>

lemma app_only_pattern_is_narrower:
  "(case (parse_pattern (map to_ascii_lowercase) (lit ''Slack::''), parse_pattern (map to_ascii_lowercase) (lit ''Slack'')) of
      (Some p, Some q) \<Rightarrow>
        \<not> pattern_matches p (lit ''firefox'') (lit ''slack | general'') \<and> pattern_matches q (lit ''firefox'') (lit ''slack | general'')
    | _ \<Rightarrow> False)"
  by code_simp

text \<open>An include list lets a window pass exactly as specified: an app that a scoped rule targets passes
  when one of its scoped rules matches the title; another app passes when a global rule matches its
  name or title, or when there is no global rule at all; the single pass with its four flags and
  early outs computes this for every order of the rules.\<close>

theorem include_list_meaning:
  "passes_includes ps app t =
     (if ps = [] then True
      else if list_ex (targets app) ps
      then list_ex (\<lambda>p. targets app p \<and> (wp_title p = [] \<or> contains_str t (wp_title p))) ps
      else if list_ex (\<lambda>p. wp_app p = None) ps
      then list_ex (\<lambda>p. wp_app p = None \<and> (contains_str app (wp_title p) \<or> contains_str t (wp_title p))) ps
      else True)"
  by (rule passes_includes_iff)

end
