(* ===== verification/GlobMatch.thy ===== *)
theory GlobMatch
  imports RustTime
begin

text \<open>
  \<open>glob_match\<close> of \<open>screenpipe-core/src/pipes/permissions.rs\<close>: a pattern with \<open>*\<close> (any bytes) and \<open>?\<close>
  (one byte) against a text, by the greedy loop that goes back to the last star. The loop always
  ends, and on a text without a star character it decides the match (\<open>globs\<close>). A star character in the
  text is another matter: the loop compares bytes before it looks for a star, so it takes the star of
  the pattern for that character.
\<close>

section \<open>Glob matching\<close>

text \<open>The loop of \<open>glob_match\<close> over byte indices; \<open>star\<close> is \<open>None\<close> where the code has \<open>usize::MAX\<close> in
  \<open>star_px\<close>. The result is none when the loop does not end (it always does).\<close>

partial_function (option) glob_loop ::
  "rstr \<Rightarrow> rstr \<Rightarrow> nat \<Rightarrow> nat \<Rightarrow> (nat \<times> nat) option \<Rightarrow> bool option" where
  "glob_loop pb tb px tx star =
     (if tx < length tb then
        if px < length pb \<and> (pb ! px = 63 \<or> pb ! px = tb ! tx) then glob_loop pb tb (px + 1) (tx + 1) star
        else if px < length pb \<and> pb ! px = 42 then glob_loop pb tb (px + 1) tx (Some (px, tx))
        else (case star of
                Some (star_px, star_tx) \<Rightarrow>
                  glob_loop pb tb (star_px + 1) (star_tx + 1) (Some (star_px, star_tx + 1))
              | None \<Rightarrow> Some False)
      else Some (list_all (\<lambda>c. c = 42) (drop px pb)))"

declare glob_loop.simps [code]

definition glob_match :: "rstr \<Rightarrow> rstr \<Rightarrow> bool" where
  "glob_match pattern s = (glob_loop pattern s 0 0 None = Some True)"

section \<open>What a pattern means\<close>

fun globs :: "rstr \<Rightarrow> rstr \<Rightarrow> bool" where
  "globs [] s = (s = [])"
| "globs (c # p) s =
     (if c = 42 then list_ex (\<lambda>k. globs p (drop k s)) [0..<length s + 1]
      else case s of [] \<Rightarrow> False | d # s' \<Rightarrow> (c = 63 \<or> c = d) \<and> globs p s')"


lemma globs_star: "globs (42 # p) s \<longleftrightarrow> (\<exists>k \<le> length s. globs p (drop k s))"
  by (simp add: list_ex_iff Bex_def less_Suc_eq_le del: upt_Suc)

lemma globs_plain:
  "list_all (\<lambda>c. c \<noteq> 42) w \<Longrightarrow>
     globs (w @ p) s \<longleftrightarrow> length w \<le> length s \<and> list_all2 (\<lambda>c d. c = 63 \<or> c = d) w (take (length w) s)
       \<and> globs p (drop (length w) s)"
  by (induction w arbitrary: s) (auto split: list.split)

lemma globs_stars: "globs p [] \<longleftrightarrow> list_all (\<lambda>c. c = 42) p"
  by (induction p) auto

text \<open>The invariant.\<close>

definition glob_inv :: "nat \<Rightarrow> rstr \<Rightarrow> rstr \<Rightarrow> nat \<Rightarrow> nat \<Rightarrow> (nat \<times> nat) option \<Rightarrow> bool" where
  "glob_inv t0 p s px tx star \<longleftrightarrow> px \<le> length p \<and> tx \<le> length s \<and> t0 \<le> tx \<and>
     (case star of None \<Rightarrow> True
      | Some (sp, st) \<Rightarrow> sp < px \<and> t0 \<le> st \<and> st \<le> tx \<and> px - (sp + 1) = tx - st
          \<and> list_all (\<lambda>c. c \<noteq> 42) (take (px - (sp + 1)) (drop (sp + 1) p)))"

definition rest_matches :: "rstr \<Rightarrow> rstr \<Rightarrow> nat \<Rightarrow> nat \<Rightarrow> bool" where
  "rest_matches p s px tx = globs (drop px p) (drop tx s)"

definition later_matches :: "rstr \<Rightarrow> rstr \<Rightarrow> (nat \<times> nat) option \<Rightarrow> bool" where
  "later_matches p s star =
     (case star of None \<Rightarrow> False
      | Some (sp, st) \<Rightarrow> \<exists>k. st < k \<and> k \<le> length s \<and> rest_matches p s (sp + 1) k)"

text \<open>A later match runs over the literals since the star.\<close>

lemma later_at:
  assumes "glob_inv t0 p s px tx (Some (sp, st))" "rest_matches p s (sp + 1) k" "k \<le> length s"
  shows "k + (tx - st) \<le> length s \<and> rest_matches p s px (k + (tx - st))"
proof -
  let ?w = "take (px - (sp + 1)) (drop (sp + 1) p)"
  have i: "px \<le> length p" "sp < px" "px - (sp + 1) = tx - st" "list_all (\<lambda>c. c \<noteq> 42) ?w"
    using assms(1) by (auto simp: glob_inv_def)
  have l: "length ?w = tx - st" using i by simp
  have "drop (px - (sp + 1)) (drop (sp + 1) p) = drop px p" using i(2) by simp
  then have d: "drop (sp + 1) p = ?w @ drop px p" by (metis append_take_drop_id)
  have "globs (?w @ drop px p) (drop k s)" using assms(2) d by (simp add: rest_matches_def)
  from this [unfolded globs_plain [OF i(4)]] l show ?thesis
    using assms(3) by (auto simp: rest_matches_def add.commute)
qed

lemma rest_step:
  "px < length p \<Longrightarrow> p ! px \<noteq> 42 \<Longrightarrow>
     rest_matches p s px tx \<longleftrightarrow> tx < length s \<and> (p ! px = 63 \<or> p ! px = s ! tx) \<and> rest_matches p s (px + 1) (tx + 1)"
  by (cases "tx < length s") (auto simp: rest_matches_def Cons_nth_drop_Suc [symmetric])

lemma rest_star:
  "px < length p \<Longrightarrow> p ! px = 42 \<Longrightarrow> tx \<le> length s \<Longrightarrow>
     rest_matches p s px tx \<longleftrightarrow> (\<exists>k. tx \<le> k \<and> k \<le> length s \<and> rest_matches p s (px + 1) k)"
proof -
  assume a: "px < length p" "p ! px = 42" "tx \<le> length s"
  then have d: "drop px p = 42 # drop (px + 1) p" by (simp add: Cons_nth_drop_Suc [symmetric])
  have "rest_matches p s px tx \<longleftrightarrow> (\<exists>k \<le> length s - tx. rest_matches p s (px + 1) (tx + k))"
    unfolding rest_matches_def d globs_star by (simp add: add.commute)
  also have "\<dots> \<longleftrightarrow> (\<exists>k. tx \<le> k \<and> k \<le> length s \<and> rest_matches p s (px + 1) k)"
    using a(3) by (metis add_diff_inverse_nat le_add1 le_diff_conv2 add.commute not_less)
  finally show ?thesis .
qed

section \<open>The loop ends\<close>

definition glob_wf :: "rstr \<Rightarrow> rstr \<Rightarrow> nat \<Rightarrow> nat \<Rightarrow> (nat \<times> nat) option \<Rightarrow> bool" where
  "glob_wf p s px tx star \<longleftrightarrow> px \<le> length p \<and> tx \<le> length s \<and>
     (case star of None \<Rightarrow> True | Some (sp, st) \<Rightarrow> sp < px \<and> st \<le> tx)"

text \<open>The start after the last star moves to the right; between two moves, the position does.\<close>

definition glob_fuel :: "rstr \<Rightarrow> rstr \<Rightarrow> nat \<Rightarrow> nat \<Rightarrow> (nat \<times> nat) option \<Rightarrow> nat" where
  "glob_fuel p s px tx star =
     (case star of None \<Rightarrow> length s + 1 | Some (sp, st) \<Rightarrow> length s - st) * (length s + length p + 1)
       + ((length s - tx) + (length p - px))"

lemma lex_less: "a' < a \<Longrightarrow> b' < k \<Longrightarrow> a' * k + b' < a * k + (b::nat)"
proof -
  assume a: "a' < a" "b' < k"
  then have "a' * k + b' < (a' + 1) * k" by simp
  also have "\<dots> \<le> a * k" by (rule mult_le_mono1) (use a in simp)
  finally show ?thesis by simp
qed

lemma fuel_literal:
  "px < length p \<Longrightarrow> tx < length s \<Longrightarrow> glob_fuel p s (px + 1) (tx + 1) star < glob_fuel p s px tx star"
  by (simp add: glob_fuel_def)

lemma fuel_star:
  assumes "glob_wf p s px tx star" "px < length p"
  shows "glob_fuel p s (px + 1) tx (Some (px, tx)) < glob_fuel p s px tx star"
proof (cases "\<exists>sp. star = Some (sp, tx)")
  case True
  then show ?thesis using assms(2) by (auto simp: glob_fuel_def)
next
  case False
  then have "length s - tx < (case star of None \<Rightarrow> length s + 1 | Some (sp, st) \<Rightarrow> length s - st)"
    using assms(1) by (auto simp: glob_wf_def split: option.splits)
  from lex_less [OF this, of "(length s - tx) + (length p - (px + 1))" "length s + length p + 1"]
  show ?thesis by (simp add: glob_fuel_def)
qed

lemma fuel_back:
  assumes "glob_wf p s px tx (Some (sp, st))" "tx < length s"
  shows "glob_fuel p s (sp + 1) (st + 1) (Some (sp, st + 1)) < glob_fuel p s px tx (Some (sp, st))"
proof -
  have "length s - (st + 1) < length s - st" using assms by (auto simp: glob_wf_def)
  from lex_less [OF this, of "(length s - (st + 1)) + (length p - (sp + 1))" "length s + length p + 1"]
  show ?thesis by (simp add: glob_fuel_def)
qed

section \<open>The loop decides the match\<close>

lemma inv_wf: "glob_inv t0 p s px tx star \<Longrightarrow> glob_wf p s px tx star"
  by (auto simp: glob_inv_def glob_wf_def split: option.splits)

lemma take_Suc_drop:
  "n < length xs - i \<Longrightarrow> take (Suc n) (drop i xs) = take n (drop i xs) @ [xs ! (i + n)]"
  by (simp add: take_Suc_conv_app_nth)

lemma inv_literal:
  assumes "glob_inv t0 p s px tx star" "px < length p" "tx < length s" "p ! px \<noteq> 42"
  shows "glob_inv t0 p s (px + 1) (tx + 1) star"
proof (cases star)
  case None
  then show ?thesis using assms by (simp add: glob_inv_def)
next
  case (Some ss)
  obtain sp st where ss: "ss = (sp, st)" by fastforce
  have i: "sp < px" "st \<le> tx" "t0 \<le> st" "px - (sp + 1) = tx - st"
      "list_all (\<lambda>c. c \<noteq> 42) (take (px - (sp + 1)) (drop (sp + 1) p))"
    using assms(1) by (auto simp: glob_inv_def Some ss)
  have n: "px + 1 - (sp + 1) = Suc (px - (sp + 1))" "sp + 1 + (px - (sp + 1)) = px" using i(1) by auto
  have "px - (sp + 1) < length p - (sp + 1)" using i(1) assms(2) by simp
  from take_Suc_drop [OF this] i(5) assms(4) have "list_all (\<lambda>c. c \<noteq> 42) (take (px + 1 - (sp + 1)) (drop (sp + 1) p))"
    unfolding n(1) by (simp only: n(2)) simp
  moreover have "px + 1 - (sp + 1) = tx + 1 - st" using i by simp
  ultimately show ?thesis using i(1-3) assms(2,3) by (simp add: glob_inv_def Some ss)
qed

lemma later_after_star:
  assumes "glob_inv t0 p s px tx star" "px < length p" "p ! px = 42"
  shows "rest_matches p s px tx \<or> later_matches p s star \<longleftrightarrow>
    rest_matches p s (px + 1) tx \<or> later_matches p s (Some (px, tx))"
proof -
  have tx: "tx \<le> length s" using assms(1) by (simp add: glob_inv_def)
  have star: "rest_matches p s px j \<longleftrightarrow> (\<exists>k. j \<le> k \<and> k \<le> length s \<and> rest_matches p s (px + 1) k)" if "j \<le> length s" for j
    by (rule rest_star [OF assms(2,3) that])
  have "rest_matches p s px tx" if l: "later_matches p s star"
  proof -
    from l obtain sp st k where k: "star = Some (sp, st)" "st < k" "k \<le> length s" "rest_matches p s (sp + 1) k"
      by (auto simp: later_matches_def split: option.splits)
    from later_at [OF assms(1) [unfolded k(1)] k(4,3)]
    have m: "k + (tx - st) \<le> length s" "rest_matches p s px (k + (tx - st))" by auto
    have "st \<le> tx" using assms(1) by (simp add: glob_inv_def k(1))
    with k(2) have "tx \<le> k + (tx - st)" by simp
    with m star [OF m(1)] star [OF tx] show ?thesis by (metis le_trans)
  qed
  moreover have "rest_matches p s px tx \<longleftrightarrow> rest_matches p s (px + 1) tx \<or> later_matches p s (Some (px, tx))"
    unfolding star [OF tx] later_matches_def using tx by (auto simp: le_less)
  ultimately show ?thesis by blast
qed

lemma later_after_back:
  assumes "st < length s"
  shows "later_matches p s (Some (sp, st)) \<longleftrightarrow>
    rest_matches p s (sp + 1) (st + 1) \<or> later_matches p s (Some (sp, st + 1))"
proof -
  have "st < k \<longleftrightarrow> k = st + 1 \<or> st + 1 < k" for k by auto
  with Suc_leI [OF assms] show ?thesis by (simp add: later_matches_def conj_disj_distribR ex_disj_distrib del: Suc_lessD)
qed

lemma later_at_end:
  assumes "glob_inv t0 p s px tx star" "tx = length s"
  shows "\<not> later_matches p s star"
proof
  assume "later_matches p s star"
  then obtain sp st k where k: "star = Some (sp, st)" "st < k" "k \<le> length s" "rest_matches p s (sp + 1) k"
    by (auto simp: later_matches_def split: option.splits)
  from later_at [OF assms(1) [unfolded k(1)] k(4,3)] have "k + (tx - st) \<le> length s" by blast
  moreover have "st \<le> tx" using assms(1) by (simp add: glob_inv_def k(1))
  ultimately show False using k(2) assms(2) by simp
qed

lemma rest_mismatch:
  assumes "\<not> (px < length p \<and> (p ! px = 63 \<or> p ! px = s ! tx))" "\<not> (px < length p \<and> p ! px = 42)"
    "tx < length s" "px \<le> length p"
  shows "\<not> rest_matches p s px tx"
proof (cases "px < length p")
  case True
  with assms rest_step [of px p s tx] show ?thesis by auto
next
  case False
  with assms show ?thesis by (simp add: rest_matches_def)
qed

theorem glob_loop_correct:
  "glob_wf p s px tx star \<Longrightarrow>
     \<exists>b. glob_loop p s px tx star = Some b
       \<and> (42 \<notin> set (drop t0 s) \<longrightarrow> glob_inv t0 p s px tx star \<longrightarrow> b = (rest_matches p s px tx \<or> later_matches p s star))"
proof (induction "glob_fuel p s px tx star" arbitrary: px tx star rule: less_induct)
  case less
  note wf = less.prems
  have bounds: "px \<le> length p" "tx \<le> length s" using wf by (auto simp: glob_wf_def)
  let ?lit = "px < length p \<and> (p ! px = 63 \<or> p ! px = s ! tx)" and ?star = "px < length p \<and> p ! px = 42"
  consider (over) "\<not> tx < length s" | (literal) "tx < length s" "?lit" | (star) "tx < length s" "\<not> ?lit" "?star"
    | (retry) sp st where "tx < length s" "\<not> ?lit" "\<not> ?star" "star = Some (sp, st)"
    | (fail) "tx < length s" "\<not> ?lit" "\<not> ?star" "star = None"
    by (cases star) fastforce+
  then show ?case
  proof cases
    case over
    then have e: "tx = length s" using bounds by simp
    have "rest_matches p s px tx = list_all (\<lambda>c. c = 42) (drop px p)" by (simp add: rest_matches_def e globs_stars)
    moreover have "glob_inv t0 p s px tx star \<longrightarrow> \<not> later_matches p s star" using later_at_end [OF _ e] by blast
    ultimately show ?thesis by (subst glob_loop.simps) (simp add: over)
  next
    case literal
    have wf': "glob_wf p s (px + 1) (tx + 1) star"
      using wf literal by (auto simp: glob_wf_def split: option.splits)
    from less.hyps [OF fuel_literal wf'] literal obtain b where
      b: "glob_loop p s (px + 1) (tx + 1) star = Some b"
        "42 \<notin> set (drop t0 s) \<longrightarrow> glob_inv t0 p s (px + 1) (tx + 1) star \<longrightarrow>
          b = (rest_matches p s (px + 1) (tx + 1) \<or> later_matches p s star)" by blast
    have "glob_loop p s px tx star = Some b" using literal b(1) by (subst glob_loop.simps) simp
    moreover have "b = (rest_matches p s px tx \<or> later_matches p s star)" if n: "42 \<notin> set (drop t0 s)" and i: "glob_inv t0 p s px tx star"
    proof -
      have "s ! tx \<in> set (drop t0 s)" using nth_mem [of "tx - t0" "drop t0 s"] i literal by (auto simp: glob_inv_def)
      with literal n have ns: "p ! px \<noteq> 42" by auto
      from inv_literal [OF i _ _ ns] literal have "glob_inv t0 p s (px + 1) (tx + 1) star" by blast
      with b(2) n rest_step [OF _ ns, of s tx] literal show ?thesis by blast
    qed
    ultimately show ?thesis by blast
  next
    case star
    have wf': "glob_wf p s (px + 1) tx (Some (px, tx))" using bounds star by (simp add: glob_wf_def)
    from less.hyps [OF fuel_star [OF wf] wf'] star obtain b where
      b: "glob_loop p s (px + 1) tx (Some (px, tx)) = Some b"
        "42 \<notin> set (drop t0 s) \<longrightarrow> glob_inv t0 p s (px + 1) tx (Some (px, tx)) \<longrightarrow>
          b = (rest_matches p s (px + 1) tx \<or> later_matches p s (Some (px, tx)))" by blast
    have "glob_loop p s px tx star = Some b" using star b(1) by (subst glob_loop.simps) auto
    moreover have "glob_inv t0 p s (px + 1) tx (Some (px, tx))" if "glob_inv t0 p s px tx star"
      using that bounds star by (simp add: glob_inv_def)
    ultimately show ?thesis using b(2) later_after_star star by blast
  next
    case retry
    have st: "st \<le> tx" "sp < px" using wf retry by (auto simp: glob_wf_def)
    have wf': "glob_wf p s (sp + 1) (st + 1) (Some (sp, st + 1))" using bounds retry st by (simp add: glob_wf_def)
    from less.hyps [OF _ wf'] fuel_back wf retry obtain b where
      b: "glob_loop p s (sp + 1) (st + 1) (Some (sp, st + 1)) = Some b"
        "42 \<notin> set (drop t0 s) \<longrightarrow> glob_inv t0 p s (sp + 1) (st + 1) (Some (sp, st + 1)) \<longrightarrow>
          b = (rest_matches p s (sp + 1) (st + 1) \<or> later_matches p s (Some (sp, st + 1)))" by blast
    have "glob_loop p s px tx star = Some b" using retry b(1) by (subst glob_loop.simps) auto
    moreover have "glob_inv t0 p s (sp + 1) (st + 1) (Some (sp, st + 1))" if "glob_inv t0 p s px tx star"
      using that bounds retry st by (simp add: glob_inv_def)
    moreover have "\<not> rest_matches p s px tx" by (rule rest_mismatch) (use retry bounds in auto)
    moreover have "st < length s" using st retry(1) by simp
    ultimately show ?thesis using b(2) later_after_back retry(4) by blast
  next
    case fail
    have "\<not> rest_matches p s px tx" by (rule rest_mismatch) (use fail bounds in auto)
    then show ?thesis using fail by (subst glob_loop.simps) (auto simp: later_matches_def)
  qed
qed

lemma glob_match_total: "glob_loop p s 0 0 None \<noteq> None"
  using glob_loop_correct [of p s 0 0 None 0] by (auto simp: glob_wf_def)

lemma glob_loop_suffix:
  "t0 \<le> length s \<Longrightarrow> q \<le> length p \<Longrightarrow> 42 \<notin> set (drop t0 s) \<Longrightarrow>
     glob_loop p s q t0 None = Some (globs (drop q p) (drop t0 s))"
  using glob_loop_correct [of p s q t0 None t0]
  by (auto simp: glob_wf_def glob_inv_def later_matches_def rest_matches_def)

lemma glob_match_globs: "42 \<notin> set s \<Longrightarrow> glob_match p s = globs p s"
  using glob_loop_suffix [of 0 s 0 p] by (simp add: glob_match_def)

text \<open>A star at the start of the text is taken literally, so the star of the pattern is used up.\<close>

lemma glob_match_starred_text:
  "42 \<notin> set s \<Longrightarrow> glob_match (42 # p) (42 # s) = globs p s"
  using glob_loop_suffix [of 1 "42 # s" 1 "42 # p"]
  by (simp add: glob_match_def glob_loop.simps [of "42 # p" "42 # s" 0 0 None])

end
