(* ===== verification/PipePermissions.thy ===== *)
theory PipePermissions
  imports GlobMatch
begin

text \<open>
  \<open>screenpipe-core/src/pipes/permissions.rs\<close>: what a pipe (a scheduled agent) may call and see. Rules
  are parsed from the pipe's manifest, a preset or a rule block resolves to a permission set, and the
  set is asked about endpoints, apps, windows, content types and times. \<open>low\<close> and \<open>up\<close> are Unicode
  \<open>str::to_lowercase\<close> and \<open>str::to_uppercase\<close>. The \<open>HashSet\<close> of days is a set.
\<close>

section \<open>Rules\<close>

datatype permission_rule =
  ApiRule (rule_method: rstr) (rule_path: rstr)
| AppRule rstr
| WindowRule rstr
| ContentRule rstr

definition is_api :: "permission_rule \<Rightarrow> bool" where
  "is_api r = (case r of ApiRule _ _ \<Rightarrow> True | _ \<Rightarrow> False)"

definition is_app :: "permission_rule \<Rightarrow> bool" where
  "is_app r = (case r of AppRule _ \<Rightarrow> True | _ \<Rightarrow> False)"

definition is_window :: "permission_rule \<Rightarrow> bool" where
  "is_window r = (case r of WindowRule _ \<Rightarrow> True | _ \<Rightarrow> False)"

definition is_content :: "permission_rule \<Rightarrow> bool" where
  "is_content r = (case r of ContentRule _ \<Rightarrow> True | _ \<Rightarrow> False)"

text \<open>\<open>splitn(2, ' ')\<close>: without a space there is no second part.\<close>

definition parse_bare_api :: "(rstr \<Rightarrow> rstr) \<Rightarrow> rstr \<Rightarrow> permission_rule option" where
  "parse_bare_api up s =
     (case position (\<lambda>c. c = 32) s of
        None \<Rightarrow> None
      | Some i \<Rightarrow>
          (let method = trim (take i s); path = trim (drop (i + 1) s) in
           if method = [] \<or> path = [] then None else Some (ApiRule (up method) path)))"

text \<open>The comma-separated values of a rule, each normalised by \<open>f\<close>, without the empty ones.\<close>

definition rule_values :: "(rstr \<Rightarrow> rstr) \<Rightarrow> rstr \<Rightarrow> rstr list" where
  "rule_values f inner = filter (\<lambda>v. v \<noteq> []) (map f (split_byte 44 inner))"

text \<open>The type and the inside of \<open>Type(inside)\<close>.\<close>

definition rule_parts :: "rstr \<Rightarrow> (rstr \<times> rstr) option" where
  "rule_parts trimmed =
     (if trimmed \<noteq> [] \<and> last trimmed = 41
      then (case position (\<lambda>c. c = 40) (butlast trimmed) of
              Some pos \<Rightarrow> Some (trim (take pos (butlast trimmed)), trim (drop (pos + 1) (butlast trimmed)))
            | None \<Rightarrow> None)
      else None)"

definition parse_rules :: "(rstr \<Rightarrow> rstr) \<Rightarrow> (rstr \<Rightarrow> rstr) \<Rightarrow> rstr \<Rightarrow> permission_rule list" where
  "parse_rules low up s =
     (let trimmed = trim s in
      case rule_parts trimmed of
        None \<Rightarrow> (case parse_bare_api up trimmed of Some r \<Rightarrow> [r] | None \<Rightarrow> [])
      | Some (rule_type, inner) \<Rightarrow>
          (let t = low rule_type in
           if t = lit ''api'' then (case parse_bare_api up inner of Some r \<Rightarrow> [r] | None \<Rightarrow> [])
           else if t = lit ''app'' then map AppRule (rule_values (low \<circ> trim) inner)
           else if t = lit ''window'' then map WindowRule (rule_values trim inner)
           else if t = lit ''content'' then map ContentRule (rule_values (low \<circ> trim) inner)
           else []))"

section \<open>Resolved permissions\<close>

record pipe_permissions =
  pipe_name :: rstr
  allow_rules :: "permission_rule list"
  deny_rules :: "permission_rule list"
  use_default_allowlist :: bool
  time_range :: "(nat \<times> nat \<times> nat \<times> nat) option"
  allowed_days :: "nat set option"
  pipe_token :: "rstr option"
  pipe_dir :: "rstr option"
  privacy_filter :: bool

datatype permissions_config =
  Preset rstr
| Rules (cfg_allow: "rstr list") (cfg_deny: "rstr list") (cfg_time: "rstr option") (cfg_days: "rstr option")

definition DEFAULT_ALLOWED_ENDPOINTS :: "rstr list" where
  "DEFAULT_ALLOWED_ENDPOINTS =
     [lit ''GET /search'', lit ''GET /activity-summary'', lit ''GET /elements'', lit ''GET /frames/*'',
      lit ''GET /meetings'', lit ''GET /meetings/*'', lit ''GET /meetings/status'', lit ''POST /notify'',
      lit ''GET /speakers'', lit ''POST /speakers/update'', lit ''GET /pipes/info'', lit ''GET /health'',
      lit ''GET /connections/*'']"

definition WRITER_ENDPOINTS :: "rstr list" where
  "WRITER_ENDPOINTS =
     [lit ''POST /meetings/start'', lit ''POST /meetings/stop'', lit ''PUT /meetings/*'',
      lit ''POST /meetings/merge'', lit ''POST /memories'', lit ''PUT /memories/*'',
      lit ''DELETE /memories/*'']"

definition parse_hhmm :: "rstr \<Rightarrow> (nat \<times> nat) option" where
  "parse_hhmm s =
     (case split_byte 58 s of
        [a, b] \<Rightarrow>
          (case (parse_u32 a, parse_u32 b) of
             (Some h, Some m) \<Rightarrow> if 23 < h \<or> 59 < m then None else Some (h, m)
           | _ \<Rightarrow> None)
      | _ \<Rightarrow> None)"

definition parse_time_range :: "rstr \<Rightarrow> (nat \<times> nat \<times> nat \<times> nat) option" where
  "parse_time_range s =
     (case split_byte 45 s of
        [a, b] \<Rightarrow>
          (case (parse_hhmm (trim a), parse_hhmm (trim b)) of
             (Some (sh, sm), Some (eh, em)) \<Rightarrow> Some (sh, sm, eh, em)
           | _ \<Rightarrow> None)
      | _ \<Rightarrow> None)"

definition DAY_NAMES :: "(rstr \<times> nat) list" where
  "DAY_NAMES =
     [(lit ''mon'', 0), (lit ''monday'', 0), (lit ''tue'', 1), (lit ''tuesday'', 1), (lit ''wed'', 2),
      (lit ''wednesday'', 2), (lit ''thu'', 3), (lit ''thursday'', 3), (lit ''fri'', 4), (lit ''friday'', 4),
      (lit ''sat'', 5), (lit ''saturday'', 5), (lit ''sun'', 6), (lit ''sunday'', 6)]"

definition parse_days :: "(rstr \<Rightarrow> rstr) \<Rightarrow> rstr \<Rightarrow> nat set" where
  "parse_days low s = set (List.map_filter (\<lambda>d. map_of DAY_NAMES (low (trim d))) (split_byte 44 s))"

definition resolve_rules ::
  "(rstr \<Rightarrow> rstr) \<Rightarrow> (rstr \<Rightarrow> rstr) \<Rightarrow> permissions_config \<Rightarrow>
   permission_rule list \<times> permission_rule list \<times> bool \<times> rstr option \<times> rstr option" where
  "resolve_rules low up config =
     (case config of
        Preset preset \<Rightarrow>
          (let p = low preset in
           if p = lit ''admin'' then ([ApiRule (lit ''*'') (lit ''/*'')], [], False, None, None)
           else if p = lit ''writer'' then (List.map_filter (parse_bare_api up) WRITER_ENDPOINTS, [], True, None, None)
           else if p = lit ''reader'' then ([], [], True, None, None)
           else ([], [], False, None, None))
      | Rules allow deny time days \<Rightarrow>
          (let allow_rules = concat (map (parse_rules low up) allow);
               deny_rules = concat (map (parse_rules low up) deny)
           in (allow_rules, deny_rules, \<not> list_ex is_api allow_rules, time, days)))"

definition from_config ::
  "(rstr \<Rightarrow> rstr) \<Rightarrow> (rstr \<Rightarrow> rstr) \<Rightarrow> rstr \<Rightarrow> permissions_config \<Rightarrow> bool \<Rightarrow> pipe_permissions" where
  "from_config low up name config privacy =
     (let (allow, deny, use_defaults, time, days) = resolve_rules low up config in
      \<lparr>pipe_name = name, allow_rules = allow, deny_rules = deny, use_default_allowlist = use_defaults,
       time_range = Option.bind time parse_time_range, allowed_days = map_option (parse_days low) days,
       pipe_token = None, pipe_dir = None, privacy_filter = privacy\<rparr>)"

definition has_any_restrictions :: "pipe_permissions \<Rightarrow> bool" where
  "has_any_restrictions p \<longleftrightarrow>
     allow_rules p \<noteq> [] \<or> deny_rules p \<noteq> [] \<or> use_default_allowlist p \<or> time_range p \<noteq> None
     \<or> allowed_days p \<noteq> None"

section \<open>Questions\<close>

text \<open>Does an \<open>Api\<close> rule cover a request?\<close>

definition api_hit :: "rstr \<Rightarrow> rstr \<Rightarrow> permission_rule \<Rightarrow> bool" where
  "api_hit m path r =
     (case r of ApiRule rm rp \<Rightarrow> (rm = lit ''*'' \<or> rm = m) \<and> glob_match rp path | _ \<Rightarrow> False)"

definition is_endpoint_allowed ::
  "(rstr \<Rightarrow> rstr) \<Rightarrow> pipe_permissions \<Rightarrow> rstr \<Rightarrow> rstr \<Rightarrow> bool" where
  "is_endpoint_allowed up p method path =
     (if \<not> (list_ex is_api (allow_rules p) \<or> list_ex is_api (deny_rules p) \<or> use_default_allowlist p) then True
      else let m = up method in
        if list_ex (api_hit m path) (deny_rules p) then False
        else if list_ex (api_hit m path) (allow_rules p) then True
        else if use_default_allowlist p
        then list_ex (\<lambda>e. case parse_bare_api up e of Some r \<Rightarrow> api_hit m path r | None \<Rightarrow> False)
               DEFAULT_ALLOWED_ENDPOINTS
        else False)"

definition app_hit :: "rstr \<Rightarrow> permission_rule \<Rightarrow> bool" where
  "app_hit lower r =
     (case r of AppRule name \<Rightarrow> contains_str lower name \<or> contains_str name lower | _ \<Rightarrow> False)"

definition is_app_allowed :: "(rstr \<Rightarrow> rstr) \<Rightarrow> pipe_permissions \<Rightarrow> rstr \<Rightarrow> bool" where
  "is_app_allowed low p app_name =
     (if \<not> (list_ex is_app (allow_rules p) \<or> list_ex is_app (deny_rules p)) then True
      else let lower = low app_name in
        if list_ex (app_hit lower) (deny_rules p) then False
        else if \<not> list_ex is_app (allow_rules p) then True
        else list_ex (app_hit lower) (allow_rules p))"

definition window_hit :: "(rstr \<Rightarrow> rstr) \<Rightarrow> rstr \<Rightarrow> permission_rule \<Rightarrow> bool" where
  "window_hit low lower r = (case r of WindowRule pattern \<Rightarrow> glob_match (low pattern) lower | _ \<Rightarrow> False)"

definition is_window_allowed :: "(rstr \<Rightarrow> rstr) \<Rightarrow> pipe_permissions \<Rightarrow> rstr \<Rightarrow> bool" where
  "is_window_allowed low p window_title =
     (if \<not> (list_ex is_window (allow_rules p) \<or> list_ex is_window (deny_rules p)) then True
      else let lower = low window_title in
        if list_ex (window_hit low lower) (deny_rules p) then False
        else if \<not> list_ex is_window (allow_rules p) then True
        else list_ex (window_hit low lower) (allow_rules p))"

definition content_hit :: "rstr \<Rightarrow> permission_rule \<Rightarrow> bool" where
  "content_hit content_type r = (case r of ContentRule ct \<Rightarrow> ct = content_type | _ \<Rightarrow> False)"

definition is_content_type_allowed :: "pipe_permissions \<Rightarrow> rstr \<Rightarrow> bool" where
  "is_content_type_allowed p content_type =
     (if \<not> (list_ex is_content (allow_rules p) \<or> list_ex is_content (deny_rules p)) then True
      else if list_ex (content_hit content_type) (deny_rules p) then False
      else if \<not> list_ex is_content (allow_rules p) then True
      else list_ex (content_hit content_type) (allow_rules p))"

definition is_time_in_range :: "pipe_permissions \<Rightarrow> nat \<Rightarrow> nat \<Rightarrow> bool" where
  "is_time_in_range p hour minute =
     (case time_range p of
        None \<Rightarrow> True
      | Some (sh, sm, eh, em) \<Rightarrow>
          (let t = hour * 60 + minute; start = sh * 60 + sm; finish = eh * 60 + em in
           if start \<le> finish then start \<le> t \<and> t \<le> finish else start \<le> t \<or> t \<le> finish))"

definition is_day_allowed :: "pipe_permissions \<Rightarrow> nat \<Rightarrow> bool" where
  "is_day_allowed p day_num = (case allowed_days p of None \<Rightarrow> True | Some days \<Rightarrow> day_num \<in> days)"

definition is_item_allowed ::
  "(rstr \<Rightarrow> rstr) \<Rightarrow> pipe_permissions \<Rightarrow> rstr option \<Rightarrow> rstr option \<Rightarrow> rstr \<Rightarrow> nat \<Rightarrow> nat \<Rightarrow> nat \<Rightarrow> bool" where
  "is_item_allowed low p app_name window_name content_type hour minute weekday =
     (if (case app_name of Some app \<Rightarrow> \<not> is_app_allowed low p app | None \<Rightarrow> False) then False
      else if (case window_name of Some win \<Rightarrow> \<not> is_window_allowed low p win | None \<Rightarrow> False) then False
      else if \<not> is_content_type_allowed p content_type then False
      else if \<not> is_time_in_range p hour minute then False
      else if \<not> is_day_allowed p weekday then False
      else True)"

section \<open>The contract of the three data checks\<close>

text \<open>Apps, windows and content types are decided in the same way: deny rules first, then, if there are
  allow rules of the kind, one of them has to match.\<close>

locale rule_check =
  fixes of_kind :: "permission_rule \<Rightarrow> bool"
    and hit :: "'a \<Rightarrow> permission_rule \<Rightarrow> bool"
    and allowed :: "pipe_permissions \<Rightarrow> 'a \<Rightarrow> bool"
  assumes hit_kind: "hit x r \<Longrightarrow> of_kind r"
    and decision: "allowed p x \<longleftrightarrow> \<not> list_ex (hit x) (deny_rules p)
      \<and> (list_ex of_kind (allow_rules p) \<longrightarrow> list_ex (hit x) (allow_rules p))"
begin

lemma deny_adds:
  "allowed (p\<lparr>deny_rules := deny_rules p @ extra\<rparr>) x \<longleftrightarrow> allowed p x \<and> \<not> list_ex (hit x) extra"
  by (auto simp: decision)

lemma no_rules: "\<not> list_ex of_kind (allow_rules p @ deny_rules p) \<Longrightarrow> allowed p x"
  using hit_kind by (auto simp: decision list_ex_iff)

text \<open>Order and repetition of the rules do not matter.\<close>

lemma same_rules:
  "set (allow_rules p) = set (allow_rules q) \<Longrightarrow> set (deny_rules p) = set (deny_rules q) \<Longrightarrow>
     allowed p x = allowed q x"
  by (simp add: decision list_ex_iff)

text \<open>More allow rules allow more, once there is one of the kind; the first one restricts.\<close>

lemma allow_adds:
  "list_ex of_kind (allow_rules p) \<Longrightarrow>
     allowed (p\<lparr>allow_rules := allow_rules p @ extra\<rparr>) x
       \<longleftrightarrow> allowed p x \<or> (\<not> list_ex (hit x) (deny_rules p) \<and> list_ex (hit x) extra)"
  by (auto simp: decision)

lemma first_allow_restricts:
  "\<not> list_ex of_kind (allow_rules p) \<Longrightarrow> of_kind r \<Longrightarrow>
     allowed (p\<lparr>allow_rules := r # allow_rules p\<rparr>) x \<longleftrightarrow> allowed p x \<and> hit x r"
  using hit_kind by (auto simp: decision list_ex_iff)

end

interpretation apps: rule_check is_app "\<lambda>a. app_hit (low a)" "is_app_allowed low" for low
  by unfold_locales
    (auto simp: app_hit_def is_app_def is_app_allowed_def Let_def list_ex_iff split: permission_rule.splits)

interpretation windows: rule_check is_window "\<lambda>w. window_hit low (low w)" "is_window_allowed low" for low
  by unfold_locales
    (auto simp: window_hit_def is_window_def is_window_allowed_def Let_def list_ex_iff split: permission_rule.splits)

interpretation contents: rule_check is_content content_hit is_content_type_allowed
  by unfold_locales
    (auto simp: content_hit_def is_content_def is_content_type_allowed_def Let_def list_ex_iff split: permission_rule.splits)

end
