(* ===== verification/PipeGate.thy ===== *)
theory PipeGate
  imports PipePermissions
begin

text \<open>
  \<open>screenpipe-engine/src/pipe_permissions_middleware.rs\<close>: how the server enforces the permissions of
  pipes. Tokens are registered when a pipe starts and removed when it is done; a request that carries
  a registered token is checked, and at most three queries of pipes run at once. The \<open>DashMap\<close> is a map,
  the rest of the server (\<open>next\<close>) is what a forwarded request reaches. Also the part of the search route
  that forces the filter of personal data.
\<close>

section \<open>Tokens\<close>

type_synonym token_registry = "rstr \<rightharpoonup> pipe_permissions"

definition register_token :: "rstr \<Rightarrow> pipe_permissions \<Rightarrow> token_registry \<Rightarrow> token_registry" where
  "register_token token perms r = r(token \<mapsto> perms)"

definition remove_token :: "rstr \<Rightarrow> token_registry \<Rightarrow> token_registry" where
  "remove_token token r = r(token := None)"

text \<open>\<open>auth\<close> is the value of the header \<open>authorization\<close>, when it is there and readable.\<close>

definition extract_pipe_token :: "rstr option \<Rightarrow> rstr option" where
  "extract_pipe_token auth =
     (case auth of
        None \<Rightarrow> None
      | Some h \<Rightarrow>
          (case strip_prefix (lit ''Bearer '') h of
             None \<Rightarrow> None
           | Some token \<Rightarrow> if starts_with token (lit ''sp_pipe_'') then Some token else None))"

section \<open>The permission layer\<close>

datatype layer_answer =
  NotPermitted rstr rstr rstr
| AudioNotPermitted
| Forwarded "pipe_permissions option"

definition pipe_permissions_layer ::
  "(rstr \<Rightarrow> rstr) \<Rightarrow> token_registry \<Rightarrow> rstr option \<Rightarrow> rstr \<Rightarrow> rstr \<Rightarrow> layer_answer" where
  "pipe_permissions_layer up registry auth method path =
     (case extract_pipe_token auth of
        None \<Rightarrow> Forwarded None
      | Some token \<Rightarrow>
          (case registry token of
             None \<Rightarrow> Forwarded None
           | Some perms \<Rightarrow>
               if \<not> is_endpoint_allowed up perms method path then NotPermitted (pipe_name perms) method path
               else if starts_with path (lit ''/speakers'') \<and> \<not> is_content_type_allowed perms (lit ''audio'')
               then AudioNotPermitted
               else Forwarded (Some perms)))"

text \<open>The search route: the filter of personal data a query runs with.\<close>

definition search_filter_pii :: "pipe_permissions option \<Rightarrow> bool \<Rightarrow> bool" where
  "search_filter_pii pipe_perms filter_pii =
     (case pipe_perms of
        Some perms \<Rightarrow> if privacy_filter perms then True else filter_pii
      | None \<Rightarrow> filter_pii)"

datatype registry_call = RegisterToken rstr pipe_permissions | RemoveToken rstr

fun registry_step :: "registry_call \<Rightarrow> token_registry \<Rightarrow> token_registry" where
  "registry_step (RegisterToken token perms) r = register_token token perms r"
| "registry_step (RemoveToken token) r = remove_token token r"

section \<open>Backpressure\<close>

text \<open>The semaphore's free permits and the requests that run, with the permissions they carry. A
  request of a pipe takes a permit or is rejected at once; it gives the permit back when it is done or
  after thirty seconds. Requests of the user take none.\<close>

record backpressure =
  free_permits :: nat
  running_pipes :: "nat list"
  running_users :: "nat list"

definition initial_backpressure :: backpressure where
  "initial_backpressure = \<lparr>free_permits = 3, running_pipes = [], running_users = []\<rparr>"

datatype query_answer = Run | TooMany

definition admit :: "nat \<Rightarrow> pipe_permissions option \<Rightarrow> backpressure \<Rightarrow> backpressure \<times> query_answer" where
  "admit req perms b =
     (case perms of
        None \<Rightarrow> (b\<lparr>running_users := req # running_users b\<rparr>, Run)
      | Some _ \<Rightarrow>
          if free_permits b = 0 then (b, TooMany)
          else (b\<lparr>free_permits := free_permits b - 1, running_pipes := req # running_pipes b\<rparr>, Run))"

definition finish_pipe :: "nat \<Rightarrow> backpressure \<Rightarrow> backpressure" where
  "finish_pipe req b = b\<lparr>free_permits := free_permits b + 1, running_pipes := remove1 req (running_pipes b)\<rparr>"

definition finish_user :: "nat \<Rightarrow> backpressure \<Rightarrow> backpressure" where
  "finish_user req b = b\<lparr>running_users := remove1 req (running_users b)\<rparr>"

text \<open>What can happen: a request arrives, a running one ends (with its response or by the timeout).\<close>

inductive backpressure_step :: "backpressure \<Rightarrow> backpressure \<Rightarrow> bool" where
  arrives: "admit req perms b = (b', a) \<Longrightarrow> backpressure_step b b'"
| pipe_ends: "req \<in> set (running_pipes b) \<Longrightarrow> backpressure_step b (finish_pipe req b)"
| user_ends: "req \<in> set (running_users b) \<Longrightarrow> backpressure_step b (finish_user req b)"

inductive backpressure_reachable :: "backpressure \<Rightarrow> bool" where
  init: "backpressure_reachable initial_backpressure"
| step: "backpressure_reachable b \<Longrightarrow> backpressure_step b b' \<Longrightarrow> backpressure_reachable b'"

lemma length_remove1_mem: "x \<in> set xs \<Longrightarrow> Suc (length (remove1 x xs)) = length xs"
  by (induction xs) auto

lemma backpressure_invariant: "backpressure_reachable b \<Longrightarrow> free_permits b + length (running_pipes b) = 3"
proof (induction rule: backpressure_reachable.induct)
  case init
  then show ?case by (simp add: initial_backpressure_def)
next
  case (step b b')
  from step.hyps(2) step.IH show ?case
    by cases
      (auto simp: admit_def finish_pipe_def finish_user_def split: option.splits if_splits
        dest: length_remove1_mem)
qed

end
