(* ===== verification/PipeProperties.thy ===== *)
theory PipeProperties
  imports PipeGate
begin

text \<open>
  The properties of pipe permissions: what a glob means, what a deny entry does, what the presets grant,
  what malformed times and days do, and what the server enforces for a token.
\<close>

section \<open>Globs\<close>

text \<open>C38: The glob matcher always returns; on a text without a star character its greedy loop with one
  point of return decides exactly the meaning of the pattern (a star stands for any bytes, a question
  mark for one byte, anything else for itself), for patterns with any number of stars.\<close>

theorem glob_decides_match:
  "glob_loop p s 0 0 None = Some (glob_match p s)
   \<and> (if 42 \<in> set s then True else glob_match p s = globs p s)"
  using glob_match_globs [of s p] glob_match_total [of p s] by (auto simp: glob_match_def)

lemma globs_contains_prefix:
  "42 \<notin> set w \<Longrightarrow> 63 \<notin> set w \<Longrightarrow> globs (w @ [42]) s \<longleftrightarrow> starts_with s w"
proof (induction w arbitrary: s)
  case Nil
  have "globs [42] s" by (auto simp: globs_star)
  then show ?case by simp
next
  case (Cons c w)
  then show ?case by (cases s) auto
qed

lemma lower_star [simp]: "to_ascii_lowercase 42 = 42"
  by (simp add: to_ascii_lowercase_def is_ascii_uppercase_def)

lemma lower_special: "to_ascii_lowercase c = 42 \<longleftrightarrow> c = 42" "to_ascii_lowercase c = 63 \<longleftrightarrow> c = 63"
  by (auto simp: to_ascii_lowercase_def is_ascii_uppercase_def)

text \<open>A deny rule \<open>*w*\<close> for windows does not see a title that starts with a star character, as editors
  mark unsaved files: for every word and every such title, the window is denied only when the title
  goes on with the word at once. So \<open>*bank*\<close> denies \<open>my bank - Editor\<close> but not \<open>*my bank - Editor\<close>.\<close>

theorem starred_titles_escape_deny:
  assumes "42 \<notin> set w" "63 \<notin> set w" "42 \<notin> set rest" "allow_rules p = []" "deny_rules p = [WindowRule (42 # w @ [42])]"
  shows "is_window_allowed (map to_ascii_lowercase) p (42 # rest)
    = (\<not> starts_with (map to_ascii_lowercase rest) (map to_ascii_lowercase w))"
proof -
  let ?w = "map to_ascii_lowercase w" and ?r = "map to_ascii_lowercase rest"
  have n: "42 \<notin> set ?w" "63 \<notin> set ?w" "42 \<notin> set ?r"
    using assms(1-3) by (auto simp: image_iff) (metis lower_special)+
  show ?thesis
    using glob_match_starred_text [OF n(3), of "?w @ [42]"] globs_contains_prefix [OF n(1,2)]
    by (simp add: is_window_allowed_def assms(4,5) window_hit_def is_window_def)
qed

lemma starred_titles_escape_deny_witness:
  "\<exists>p. deny_rules p = [WindowRule (lit ''*bank*'')]
     \<and> is_window_allowed (map to_ascii_lowercase) p (lit ''*my bank - Editor'')
     \<and> \<not> is_window_allowed (map to_ascii_lowercase) p (lit ''my bank - Editor'')"
proof -
  define p where "p = from_config (map to_ascii_lowercase) (map to_ascii_uppercase) [] (Rules [] [lit ''Window(*bank*)''] None None) False"
  have d: "allow_rules p = []" "deny_rules p = [WindowRule (42 # lit ''bank'' @ [42])]" unfolding p_def by code_simp+
  have "is_window_allowed (map to_ascii_lowercase) p (42 # lit ''my bank - Editor'')
      = (\<not> starts_with (map to_ascii_lowercase (lit ''my bank - Editor'')) (map to_ascii_lowercase (lit ''bank'')))"
    by (rule starred_titles_escape_deny [OF _ _ _ d]) code_simp+
  moreover have "\<not> starts_with (map to_ascii_lowercase (lit ''my bank - Editor'')) (map to_ascii_lowercase (lit ''bank''))"
    and "42 # lit ''my bank - Editor'' = lit ''*my bank - Editor''" and "42 # lit ''bank'' @ [42] = lit ''*bank*''"
    by code_simp+
  moreover have "\<not> is_window_allowed (map to_ascii_lowercase) p (lit ''my bank - Editor'')"
    unfolding p_def by code_simp
  ultimately show ?thesis using d by auto
qed

section \<open>Rules\<close>

text \<open>C29: Denying only takes away, whatever the manifest says otherwise: with further deny entries a pipe may
  call exactly the endpoints it could call before that no further entry covers, and sees exactly the
  items it saw before whose app, window and content type no further entry covers.\<close>

theorem deny_entries_subtract:
  "is_endpoint_allowed up (from_config low up n (Rules allow (deny @ extra) time days) pf) m path =
     (is_endpoint_allowed up (from_config low up n (Rules allow deny time days) pf) m path
      \<and> \<not> list_ex (api_hit (up m) path) (concat (map (parse_rules low up) extra)))
   \<and> is_item_allowed low (from_config low up n (Rules allow (deny @ extra) time days) pf) app win ct h mi wd =
     (is_item_allowed low (from_config low up n (Rules allow deny time days) pf) app win ct h mi wd
      \<and> \<not> list_ex (\<lambda>r. (case app of Some a \<Rightarrow> app_hit (low a) r | None \<Rightarrow> False)
             \<or> (case win of Some w \<Rightarrow> window_hit low (low w) r | None \<Rightarrow> False)
             \<or> content_hit ct r) (concat (map (parse_rules low up) extra)))"
proof -
  let ?rs = "concat (map (parse_rules low up) extra)"
  let ?p = "from_config low up n (Rules allow deny time days) pf"
  have q: "from_config low up n (Rules allow (deny @ extra) time days) pf = ?p\<lparr>deny_rules := deny_rules ?p @ ?rs\<rparr>"
    by (simp add: from_config_def resolve_rules_def Let_def)
  have d: "use_default_allowlist ?p \<or> list_ex is_api (allow_rules ?p)"
    by (auto simp: from_config_def resolve_rules_def Let_def)
  have e: "is_endpoint_allowed up (?p\<lparr>deny_rules := deny_rules ?p @ ?rs\<rparr>) m path
      = (is_endpoint_allowed up ?p m path \<and> \<not> list_ex (api_hit (up m) path) ?rs)"
    using d by (auto simp: is_endpoint_allowed_def Let_def)
  have t: "is_time_in_range (?p\<lparr>deny_rules := deny_rules ?p @ ?rs\<rparr>) h mi = is_time_in_range ?p h mi"
    "is_day_allowed (?p\<lparr>deny_rules := deny_rules ?p @ ?rs\<rparr>) wd = is_day_allowed ?p wd"
    by (simp_all add: is_time_in_range_def is_day_allowed_def)
  show ?thesis unfolding q e is_item_allowed_def t
    by (auto simp: apps.deny_adds windows.deny_adds contents.deny_adds list_ex_iff split: option.split)
qed


section \<open>Presets\<close>

lemma globs_literal: "42 \<notin> set p \<Longrightarrow> 63 \<notin> set p \<Longrightarrow> globs p s \<longleftrightarrow> s = p"
proof (induction p arbitrary: s)
  case Nil
  then show ?case by (cases s) auto
next
  case (Cons c p)
  then show ?case by (cases s) auto
qed

lemma glob_match_literal: "42 \<notin> set p \<Longrightarrow> 63 \<notin> set p \<Longrightarrow> 42 \<notin> set s \<Longrightarrow> glob_match p s \<longleftrightarrow> s = p"
  by (simp add: glob_match_globs globs_literal)

lemma glob_match_prefix:
  "42 \<notin> set p \<Longrightarrow> 63 \<notin> set p \<Longrightarrow> 42 \<notin> set s \<Longrightarrow> glob_match (p @ [42]) s \<longleftrightarrow> starts_with s p"
  by (simp add: glob_match_globs globs_contains_prefix)

definition READ_PATHS :: "rstr list" where
  "READ_PATHS = [lit ''/search'', lit ''/activity-summary'', lit ''/elements'', lit ''/meetings'',
     lit ''/speakers'', lit ''/pipes/info'', lit ''/health'']"

definition READ_TREES :: "rstr list" where
  "READ_TREES = [lit ''/frames/'', lit ''/meetings/'', lit ''/connections/'']"


lemma default_rules:
  "List.map_filter (parse_bare_api up) DEFAULT_ALLOWED_ENDPOINTS =
     (let get = ApiRule (up (lit ''GET'')); post = ApiRule (up (lit ''POST'')) in
      [get (lit ''/search''), get (lit ''/activity-summary''), get (lit ''/elements''), get (lit ''/frames/*''),
       get (lit ''/meetings''), get (lit ''/meetings/*''), get (lit ''/meetings/status''), post (lit ''/notify''),
       get (lit ''/speakers''), post (lit ''/speakers/update''), get (lit ''/pipes/info''), get (lit ''/health''),
       get (lit ''/connections/*'')])"
  by code_simp

lemma list_ex_map_filter:
  "list_ex (\<lambda>e. case f e of Some r \<Rightarrow> P r | None \<Rightarrow> False) xs = list_ex P (List.map_filter f xs)"
  by (induction xs) (auto simp: map_filter_simps split: option.splits)

lemma read_trees_bytes:
  "map (\<lambda>p. p @ [42]) READ_TREES = [lit ''/frames/*'', lit ''/meetings/*'', lit ''/connections/*'']"
  by code_simp

lemma default_rules_kinds:
  "list_ex P (List.map_filter (parse_bare_api up) DEFAULT_ALLOWED_ENDPOINTS) \<longleftrightarrow>
     list_ex P (map (ApiRule (up (lit ''GET''))) (lit ''/meetings/status'' # READ_PATHS))
     \<or> list_ex P (map (ApiRule (up (lit ''GET''))) (map (\<lambda>p. p @ [42]) READ_TREES))
     \<or> list_ex P (map (ApiRule (up (lit ''POST''))) [lit ''/notify'', lit ''/speakers/update''])"
  unfolding default_rules read_trees_bytes Let_def READ_PATHS_def by (simp; blast)

lemma literal_globs:
  "list_all (\<lambda>p. 42 \<notin> set p \<and> 63 \<notin> set p) ps \<Longrightarrow> 42 \<notin> set path \<Longrightarrow>
     list_ex (api_hit m path) (map (ApiRule k) ps) \<longleftrightarrow> (k = lit ''*'' \<or> k = m) \<and> path \<in> set ps"
  by (induction ps) (auto simp: api_hit_def glob_match_literal)

lemma tree_globs:
  "list_all (\<lambda>p. 42 \<notin> set p \<and> 63 \<notin> set p) ps \<Longrightarrow> 42 \<notin> set path \<Longrightarrow>
     list_ex (api_hit m path) (map (ApiRule k) (map (\<lambda>p. p @ [42]) ps))
       \<longleftrightarrow> (k = lit ''*'' \<or> k = m) \<and> list_ex (starts_with path) ps"
  by (induction ps) (auto simp: api_hit_def glob_match_prefix)

lemma read_literals:
  "list_all (\<lambda>p. 42 \<notin> set p \<and> 63 \<notin> set p) (lit ''/meetings/status'' # READ_PATHS)"
  "list_all (\<lambda>p. 42 \<notin> set p \<and> 63 \<notin> set p) READ_TREES"
  "list_all (\<lambda>p. 42 \<notin> set p \<and> 63 \<notin> set p) [lit ''/notify'', lit ''/speakers/update'']"
  "lit ''GET'' \<noteq> lit ''*''" "lit ''POST'' \<noteq> lit ''*''"
  "starts_with (lit ''/meetings/status'') (lit ''/meetings/'')" "lit ''/meetings/'' \<in> set READ_TREES"
  by code_simp+

text \<open>A pipe with the preset \<open>reader\<close> may, on every path without a star character, exactly get the
  seven read paths and everything under the three read trees, and post a notification or a speaker
  update; in particular it can start or stop no meeting and write no memory.\<close>

theorem reader_reads_only:
  assumes "low (lit ''reader'') = lit ''reader''" "up (lit ''GET'') = lit ''GET''" "up (lit ''POST'') = lit ''POST''"
    and "42 \<notin> set path"
  shows "is_endpoint_allowed up (from_config low up n (Preset (lit ''reader'')) pf) m path
    = ((up m = lit ''GET'' \<and> (path \<in> set READ_PATHS \<or> list_ex (starts_with path) READ_TREES))
       \<or> (up m = lit ''POST'' \<and> path \<in> set [lit ''/notify'', lit ''/speakers/update'']))"
proof -
  have p: "lit ''reader'' \<noteq> lit ''admin''" "lit ''reader'' \<noteq> lit ''writer''" by code_simp+
  have s: "path = lit ''/meetings/status'' \<Longrightarrow> list_ex (starts_with path) READ_TREES"
    using read_literals(6,7) by (auto simp: list_ex_iff)
  have status_path: "path \<in> set (lit ''/meetings/status'' # READ_PATHS)
      \<longleftrightarrow> path = lit ''/meetings/status'' \<or> path \<in> set READ_PATHS"
    by simp
  have "is_endpoint_allowed up (from_config low up n (Preset (lit ''reader'')) pf) m path
      = list_ex (api_hit (up m) path) (List.map_filter (parse_bare_api up) DEFAULT_ALLOWED_ENDPOINTS)"
    by (simp add: is_endpoint_allowed_def from_config_def resolve_rules_def assms(1) p Let_def list_ex_map_filter)
  also have "\<dots> = ((up m = lit ''GET'' \<and> (path \<in> set READ_PATHS \<or> list_ex (starts_with path) READ_TREES))
       \<or> (up m = lit ''POST'' \<and> path \<in> set [lit ''/notify'', lit ''/speakers/update'']))"
    unfolding default_rules_kinds literal_globs [OF read_literals(1) assms(4)] assms(2,3)
      literal_globs [OF read_literals(3) assms(4)] tree_globs [OF read_literals(2) assms(4)]
      status_path eq_commute [of _ "up m"]
    using s read_literals(4,5) by blast
  finally show ?thesis .
qed

lemma reader_reads_only_witness:
  "\<not> is_endpoint_allowed (map to_ascii_uppercase)
       (from_config (map to_ascii_lowercase) (map to_ascii_uppercase) [] (Preset (lit ''reader'')) False)
       (lit ''post'') (lit ''/meetings/stop'')
   \<and> is_endpoint_allowed (map to_ascii_uppercase)
       (from_config (map to_ascii_lowercase) (map to_ascii_uppercase) [] (Preset (lit ''reader'')) False)
       (lit ''get'') (lit ''/frames/42'')"
proof -
  have a: "map to_ascii_lowercase (lit ''reader'') = lit ''reader''" "map to_ascii_uppercase (lit ''GET'') = lit ''GET''"
    "map to_ascii_uppercase (lit ''POST'') = lit ''POST''" by code_simp+
  have r: "42 \<notin> set (lit ''/meetings/stop'')" "42 \<notin> set (lit ''/frames/42'')" by code_simp+
  have s: "map to_ascii_uppercase (lit ''post'') = lit ''POST''" "lit ''POST'' \<noteq> lit ''GET''" "map to_ascii_uppercase (lit ''get'') = lit ''GET''"
    "lit ''/meetings/stop'' \<notin> set [lit ''/notify'', lit ''/speakers/update'']" "list_ex (starts_with (lit ''/frames/42'')) READ_TREES"
    by code_simp+
  show ?thesis
    unfolding reader_reads_only [where low = "map to_ascii_lowercase" and up = "map to_ascii_uppercase", OF a r(1)]
      reader_reads_only [where low = "map to_ascii_lowercase" and up = "map to_ascii_uppercase", OF a r(2)] using s by simp
qed

text \<open>A preset that is not spelled like one of the three restricts nothing: a pipe whose manifest asks for
  \<open>readonly\<close> may call every endpoint and sees every item at all times.\<close>

theorem unknown_preset_opens:
  assumes "low w \<notin> set [lit ''admin'', lit ''writer'', lit ''reader'']"
  shows "\<not> has_any_restrictions (from_config low up n (Preset w) pf)
    \<and> is_endpoint_allowed up (from_config low up n (Preset w) pf) m path
    \<and> is_item_allowed low (from_config low up n (Preset w) pf) app win ct h mi wd"
proof -
  have r: "resolve_rules low up (Preset w) = ([], [], False, None, None)"
    using assms by (simp add: resolve_rules_def Let_def)
  show ?thesis
    by (simp add: from_config_def r has_any_restrictions_def is_endpoint_allowed_def is_item_allowed_def
        is_app_allowed_def is_window_allowed_def is_content_type_allowed_def is_time_in_range_def
        is_day_allowed_def split: option.split)
qed

lemma unknown_preset_opens_witness:
  "is_endpoint_allowed (map to_ascii_uppercase)
     (from_config (map to_ascii_lowercase) (map to_ascii_uppercase) [] (Preset (lit ''readonly'')) True)
     (lit ''DELETE'') (lit ''/memories/1'')"
proof -
  have "map to_ascii_lowercase (lit ''readonly'') \<notin> set [lit ''admin'', lit ''writer'', lit ''reader'']" by code_simp
  from unknown_preset_opens [where low = "map to_ascii_lowercase", OF this] show ?thesis by blast
qed

section \<open>Times and days\<close>

text \<open>Two decimal digits, as a manifest writes them.\<close>

definition two_digits :: "nat \<Rightarrow> rstr" where
  "two_digits n = [48 + n div 10, 48 + n mod 10]"

definition written_range :: "nat \<Rightarrow> nat \<Rightarrow> nat \<Rightarrow> nat \<Rightarrow> rstr" where
  "written_range sh sm eh em =
     two_digits sh @ [58] @ two_digits sm @ [45] @ two_digits eh @ [58] @ two_digits em"

lemma parse_two_digits: "n < 100 \<Longrightarrow> parse_u32 (two_digits n) = Some n"
proof -
  assume n: "n < 100"
  then have "n div 10 < 10" by simp
  then show ?thesis
    using n by (simp add: parse_u32_def parse_uint_def two_digits_def is_ascii_digit_def digits_value_def)
qed

lemma parse_hhmm_digits:
  "h < 24 \<Longrightarrow> m < 60 \<Longrightarrow> parse_hhmm (two_digits h @ 58 # two_digits m) = Some (h, m)"
proof -
  assume a: "h < 24" "m < 60"
  have "58 \<notin> set (two_digits h)" "58 \<notin> set (two_digits m)" using a by (auto simp: two_digits_def)
  then show ?thesis
    using a by (simp add: parse_hhmm_def split_byte_append split_byte_absent parse_two_digits)
qed

lemma trim_hhmm: "h < 24 \<Longrightarrow> m < 60 \<Longrightarrow> trim (two_digits h @ 58 # two_digits m) = two_digits h @ 58 # two_digits m"
  by (rule trim_ascii)
    (auto simp: two_digits_def is_ascii_def is_whitespace_def)

lemma parse_written_range:
  assumes "sh < 24" "sm < 60" "eh < 24" "em < 60"
  shows "parse_time_range (written_range sh sm eh em) = Some (sh, sm, eh, em)"
proof -
  have n: "45 \<notin> set (two_digits sh @ 58 # two_digits sm)" "45 \<notin> set (two_digits eh @ 58 # two_digits em)"
    using assms by (auto simp: two_digits_def)
  have w: "written_range sh sm eh em = (two_digits sh @ 58 # two_digits sm) @ 45 # (two_digits eh @ 58 # two_digits em)"
    by (simp add: written_range_def)
  show ?thesis
    unfolding w parse_time_range_def split_byte_append [OF n(1)] split_byte_absent [OF n(2)]
    by (simp add: trim_hhmm parse_hhmm_digits assms)
qed

lemma clock_arc:
  fixes s e t :: int
  assumes "0 \<le> s" "s < 1440" "0 \<le> e" "e < 1440" "0 \<le> t" "t < 1440"
  shows "(if s \<le> e then s \<le> t \<and> t \<le> e else s \<le> t \<or> t \<le> e) \<longleftrightarrow> (t - s) mod 1440 \<le> (e - s) mod 1440"
proof -
  have m: "(x - s) mod 1440 = (if s \<le> x then x - s else x - s + 1440)" if "0 \<le> x" "x < 1440" for x
  proof (cases "s \<le> x")
    case True
    with that assms show ?thesis by (simp add: mod_pos_pos_trivial)
  next
    case False
    have "(x - s) mod 1440 = (x - s + 1440) mod 1440" by simp
    also have "\<dots> = x - s + 1440" using False that assms by (intro mod_pos_pos_trivial) auto
    finally show ?thesis using False by simp
  qed
  show ?thesis unfolding m [OF assms(5,6)] m [OF assms(3,4)] using assms by auto
qed

text \<open>A time limit written \<open>HH:MM-HH:MM\<close> means the arc of the clock from the first time to the second,
  both ends included, over midnight when the second is earlier: a minute of the day is inside exactly
  when it is clockwise no further from the start than the end is.\<close>

theorem time_limit_is_clock_arc:
  assumes "sh < 24" "sm < 60" "eh < 24" "em < 60" "h < 24" "m < 60"
  shows "is_time_in_range (from_config low up n (Rules a d (Some (written_range sh sm eh em)) days) pf) h m
    = ((int (h * 60 + m) - int (sh * 60 + sm)) mod 1440 \<le> (int (eh * 60 + em) - int (sh * 60 + sm)) mod 1440)"
proof -
  have "is_time_in_range (from_config low up n (Rules a d (Some (written_range sh sm eh em)) days) pf) h m
      = (let t = int (h * 60 + m); s = int (sh * 60 + sm); e = int (eh * 60 + em) in
         if s \<le> e then s \<le> t \<and> t \<le> e else s \<le> t \<or> t \<le> e)"
    by (simp del: of_nat_add of_nat_mult add: from_config_def resolve_rules_def Let_def is_time_in_range_def
        parse_written_range assms(1-4))
  also have "\<dots> = ((int (h * 60 + m) - int (sh * 60 + sm)) mod 1440 \<le> (int (eh * 60 + em) - int (sh * 60 + sm)) mod 1440)"
    unfolding Let_def by (rule clock_arc) (use assms in simp_all)
  finally show ?thesis .
qed

lemma time_limit_is_clock_arc_witness:
  "is_time_in_range (from_config (map to_ascii_lowercase) (map to_ascii_uppercase) [] (Rules [] [] (Some (written_range 22 0 6 0)) None) False) 23 59
   \<and> \<not> is_time_in_range (from_config (map to_ascii_lowercase) (map to_ascii_uppercase) [] (Rules [] [] (Some (written_range 22 0 6 0)) None) False) 6 1"
  using time_limit_is_clock_arc [of 22 0 6 0 23 59] time_limit_is_clock_arc [of 22 0 6 0 6 1] by simp

text \<open>A mistyped limit fails in opposite directions: a time text that is no range limits nothing, while a
  day text that names no day hides every item for good, and the documented form \<open>Mon-Fri\<close> is such a text.\<close>

theorem mistyped_limits:
  assumes "parse_time_range t = None" "list_all (\<lambda>w. low (trim w) \<notin> fst ` set DAY_NAMES) (split_byte 44 d)"
  shows "is_time_in_range (from_config low up n (Rules allow deny (Some t) days) pf) h m
    \<and> \<not> is_item_allowed low (from_config low up n (Rules allow deny time (Some d)) pf) app win ct h m wd"
proof -
  have "List.map_filter (\<lambda>w. map_of DAY_NAMES (low (trim w))) ws = []"
    if "list_all (\<lambda>w. low (trim w) \<notin> fst ` set DAY_NAMES) ws" for ws
    using that by (induction ws) (simp_all add: map_filter_simps flip: map_of_eq_None_iff)
  from this [OF assms(2)] have "parse_days low d = {}" by (simp add: parse_days_def)
  then show ?thesis
    using assms(1) by (auto simp: is_time_in_range_def is_item_allowed_def is_day_allowed_def from_config_def resolve_rules_def Let_def)
qed

lemma mistyped_limits_witness:
  "\<not> is_item_allowed (map to_ascii_lowercase)
      (from_config (map to_ascii_lowercase) (map to_ascii_uppercase) [] (Rules [] [] (Some (lit ''9am-5pm'')) (Some (lit ''Mon-Fri''))) False)
      None None (lit ''ocr'') 12 0 2"
proof -
  have "parse_time_range (lit ''9am-5pm'') = None"
    "list_all (\<lambda>w. map to_ascii_lowercase (trim w) \<notin> fst ` set DAY_NAMES) (split_byte 44 (lit ''Mon-Fri''))" by code_simp+
  from mistyped_limits [where low = "map to_ascii_lowercase", OF this] show ?thesis by blast
qed

section \<open>The server\<close>

text \<open>The permissions of a token after a sequence of calls, read off the last call that names it.\<close>

definition last_word :: "rstr \<Rightarrow> registry_call list \<Rightarrow> pipe_permissions option" where
  "last_word tok calls =
     (case List.find (\<lambda>c. case c of RegisterToken t _ \<Rightarrow> t = tok | RemoveToken t \<Rightarrow> t = tok) (rev calls) of
        Some (RegisterToken _ p) \<Rightarrow> Some p
      | _ \<Rightarrow> None)"

lemma registry_last_word: "fold registry_step calls (\<lambda>_. None) tok = last_word tok calls"
proof (induction calls rule: rev_induct)
  case Nil
  then show ?case by (simp add: last_word_def)
next
  case (snoc c calls)
  then show ?case by (cases c) (auto simp: last_word_def register_token_def remove_token_def)
qed

text \<open>What the server does with a request that carries a pipe token is fixed by the last call that
  registered or removed this token, whatever happened to others: registered, the request is forwarded
  only when the permissions admit method and path, and under \<open>/speakers\<close> only when they admit audio;
  removed or never registered, it is forwarded without any permissions, as a request of the user is.\<close>

theorem gate_follows_last_call:
  "pipe_permissions_layer up (fold registry_step calls (\<lambda>_. None)) (Some (lit ''Bearer '' @ lit ''sp_pipe_'' @ k)) m path =
     (case last_word (lit ''sp_pipe_'' @ k) calls of
        None \<Rightarrow> pipe_permissions_layer up registry None m path
      | Some p \<Rightarrow>
          if \<not> is_endpoint_allowed up p m path then NotPermitted (pipe_name p) m path
          else if starts_with path (lit ''/speakers'') \<and> \<not> is_content_type_allowed p (lit ''audio'') then AudioNotPermitted
          else Forwarded (Some p))"
proof -
  have "strip_prefix (lit ''Bearer '') (lit ''Bearer '' @ x) = Some x" for x
    by (auto simp: strip_prefix_def starts_with_append)
  moreover have "starts_with (lit ''sp_pipe_'' @ k) (lit ''sp_pipe_'')" by (auto simp: starts_with_append)
  ultimately show ?thesis
    by (simp add: pipe_permissions_layer_def extract_pipe_token_def registry_last_word split: option.split)
qed

text \<open>However requests come and go, at most three queries of pipes run at once; a pipe's query is turned away
  exactly when three run already, and one that is admitted counts; the user's queries always run.\<close>

theorem three_pipe_queries:
  assumes "backpressure_reachable b"
  shows "length (running_pipes b) \<le> 3
    \<and> (snd (admit req (Some p) b) = TooMany) = (length (running_pipes b) = 3)
    \<and> length (running_pipes (fst (admit req (Some p) b))) = min 3 (Suc (length (running_pipes b)))
    \<and> snd (admit req None b) = Run"
  using backpressure_invariant [OF assms] by (auto simp: admit_def)

lemma three_pipe_queries_witness:
  "length (running_pipes (fst (admit 4 (Some (from_config (\<lambda>w. w) (\<lambda>w. w) [] (Rules [] [] None None) False))
     initial_backpressure))) = 1"
  using three_pipe_queries [OF backpressure_reachable.init, of 4
      "from_config (\<lambda>w. w) (\<lambda>w. w) [] (Rules [] [] None None) False"]
  by (simp add: initial_backpressure_def)

end
