(* ===== verification/PipeSchedule.thy ===== *)
theory PipeSchedule
  imports RustTime
begin

text \<open>
  \<open>screenpipe-core/src/pipes/mod.rs\<close>, the schedules of pipes: the text of a schedule is an interval, a
  cron expression, one point in time, or manual, and is asked whether the pipe should run now. A
  \<open>DateTime\<close> is the integer number of nanoseconds since the Unix epoch, a signed \<open>Duration\<close> an integer
  of nanoseconds. The crates \<open>chrono\<close> and \<open>cron\<close> are not part of the repository: \<open>rfc3339\<close> parses a
  timestamp, \<open>cron_from\<close> a cron expression of seven fields, and \<open>cron_after c t\<close> is the first slot of
  \<open>c\<close> strictly after \<open>t\<close>, in the time zone of the user. \<open>low\<close> is Unicode \<open>str::to_lowercase\<close>.
  Multiplications of \<open>u64\<close> wrap, as they do in a release build.
\<close>

definition hours :: "int \<Rightarrow> int" where "hours n = n * 3600000000000"
definition minutes :: "int \<Rightarrow> int" where "minutes n = n * 60000000000"

definition ONE_OFF_STALE_THRESHOLD :: int where "ONE_OFF_STALE_THRESHOLD = hours 1"
definition CRON_GRACE_WINDOW :: int where "CRON_GRACE_WINDOW = minutes 5"
definition CRON_CATCHUP_WINDOW :: int where "CRON_CATCHUP_WINDOW = hours 12"
definition UNIX_EPOCH :: timestamp where "UNIX_EPOCH = 0"

section \<open>Texts\<close>

definition strip_suffix :: "rstr \<Rightarrow> rstr \<Rightarrow> rstr option" where
  "strip_suffix p s = (if ends_with s p then Some (take (length s - length p) s) else None)"

text \<open>\<open>Option::or\<close>.\<close>

fun option_or :: "'a option \<Rightarrow> 'a option \<Rightarrow> 'a option" where
  "option_or (Some x) y = Some x"
| "option_or None y = y"

definition split_once :: "byte \<Rightarrow> rstr \<Rightarrow> (rstr \<times> rstr) option" where
  "split_once b s = map_option (\<lambda>i. (take i s, drop (i + 1) s)) (position (\<lambda>c. c = b) s)"

text \<open>\<open>split_whitespace().count()\<close>: how often a word begins; \<open>inside\<close> tells that the character before
  belongs to one.\<close>

fun word_starts :: "bool \<Rightarrow> nat list \<Rightarrow> nat" where
  "word_starts inside [] = 0"
| "word_starts inside (c # cs) =
     (if is_whitespace c then word_starts False cs
      else if inside then word_starts True cs else Suc (word_starts True cs))"

definition count_words :: "rstr \<Rightarrow> nat" where
  "count_words s = word_starts False (chars s)"

section \<open>Durations\<close>

text \<open>One of the three groups of unit suffixes: the first suffix that strips wins, whatever is left.\<close>

definition strip_first :: "rstr list \<Rightarrow> rstr \<Rightarrow> rstr option" where
  "strip_first suffixes s = foldl (\<lambda>r p. option_or r (strip_suffix p s)) None suffixes"

definition unit_seconds :: "rstr list \<Rightarrow> nat \<Rightarrow> rstr \<Rightarrow> nat option" where
  "unit_seconds suffixes factor s =
     (case strip_first suffixes s of
        Some num \<Rightarrow> (case parse_u64 (trim num) of Some n \<Rightarrow> Some (n * factor mod 2 ^ 64) | None \<Rightarrow> None)
      | None \<Rightarrow> None)"

definition HOUR_SUFFIXES :: "rstr list" where
  "HOUR_SUFFIXES = [lit ''h'', lit ''hr'', lit ''hours'', lit ''hour'']"
definition MINUTE_SUFFIXES :: "rstr list" where
  "MINUTE_SUFFIXES = [lit ''m'', lit ''min'', lit ''mins'', lit ''minutes'']"
definition SECOND_SUFFIXES :: "rstr list" where
  "SECOND_SUFFIXES = [lit ''s'', lit ''sec'', lit ''seconds'']"

definition without_every :: "rstr \<Rightarrow> rstr" where
  "without_every s = trim (case strip_prefix (lit ''every'') s of Some r \<Rightarrow> r | None \<Rightarrow> s)"

definition parse_duration_str :: "(rstr \<Rightarrow> rstr) \<Rightarrow> rstr \<Rightarrow> duration option" where
  "parse_duration_str low s0 =
     (let s = without_every (low (trim s0)) in
      case unit_seconds HOUR_SUFFIXES 3600 s of
        Some n \<Rightarrow> Some (from_secs n)
      | None \<Rightarrow>
          (case unit_seconds MINUTE_SUFFIXES 60 s of
             Some n \<Rightarrow> Some (from_secs n)
           | None \<Rightarrow> map_option from_secs (unit_seconds SECOND_SUFFIXES 1 s)))"

section \<open>Times of the day\<close>

text \<open>The twelve-hour clock: \<open>Some True\<close> is pm, \<open>Some False\<close> is am.\<close>

definition hour24 :: "bool option \<Rightarrow> nat \<Rightarrow> nat option" where
  "hour24 ampm hour =
     (case ampm of
        Some False \<Rightarrow> if hour = 12 then Some 0 else if hour \<le> 12 then Some hour else None
      | Some True \<Rightarrow> if hour = 12 then Some 12 else if hour \<le> 12 then Some (hour + 12) else None
      | None \<Rightarrow> if hour < 24 then Some hour else None)"

definition normalize_clock :: "rstr \<Rightarrow> rstr" where
  "normalize_clock s =
     replace_str (lit '' '') [] (replace_str (lit '' pm'') (lit ''pm'') (replace_str (lit '' am'') (lit ''am'')
       (replace_str (lit '' p.m'') (lit ''pm'') (replace_str (lit '' a.m'') (lit ''am'')
       (replace_str (lit '' p.m.'') (lit ''pm'') (replace_str (lit '' a.m.'') (lit ''am'') s))))))"

definition parse_hour_minute :: "rstr \<Rightarrow> (nat \<times> nat) option" where
  "parse_hour_minute s =
     (let normalized = normalize_clock s;
          (clock, ampm) =
            (case strip_suffix (lit ''am'') normalized of
               Some c \<Rightarrow> (c, Some False)
             | None \<Rightarrow> (case strip_suffix (lit ''pm'') normalized of
                 Some c \<Rightarrow> (c, Some True) | None \<Rightarrow> (normalized, None)))
      in case (case split_once 58 clock of
             Some (h, m) \<Rightarrow> (case (parse_u32 h, parse_u32 m) of (Some hour, Some minute) \<Rightarrow> Some (hour, minute) | _ \<Rightarrow> None)
           | None \<Rightarrow> map_option (\<lambda>hour. (hour, 0)) (parse_u32 clock)) of
           None \<Rightarrow> None
         | Some (hour, minute) \<Rightarrow>
             if 60 \<le> minute then None
             else map_option (\<lambda>h. (h, minute)) (hour24 ampm hour))"

definition parse_time_str :: "(rstr \<Rightarrow> rstr) \<Rightarrow> rstr \<Rightarrow> nat option" where
  "parse_time_str low s0 =
     (let s = low (trim s0) in
      case parse_hour_minute s of
        Some (hour, minute) \<Rightarrow> if minute \<noteq> 0 then None else Some hour
      | None \<Rightarrow>
          (case strip_suffix (lit ''am'') s of
             Some h \<Rightarrow> Option.bind (parse_u32 (trim h)) (hour24 (Some False))
           | None \<Rightarrow>
               (case strip_suffix (lit ''pm'') s of
                  Some h \<Rightarrow> Option.bind (parse_u32 (trim h)) (hour24 (Some True))
                | None \<Rightarrow> Option.bind (parse_u32 s) (hour24 None))))"

definition WEEKDAY_FIELDS :: "(rstr \<times> rstr) list" where
  "WEEKDAY_FIELDS =
     [(lit ''day'', lit '' * * * *''), (lit ''daily'', lit '' * * * *''),
      (lit ''monday'', lit '' * * 1 *''), (lit ''mon'', lit '' * * 1 *''),
      (lit ''tuesday'', lit '' * * 2 *''), (lit ''tue'', lit '' * * 2 *''),
      (lit ''wednesday'', lit '' * * 3 *''), (lit ''wed'', lit '' * * 3 *''),
      (lit ''thursday'', lit '' * * 4 *''), (lit ''thu'', lit '' * * 4 *''),
      (lit ''friday'', lit '' * * 5 *''), (lit ''fri'', lit '' * * 5 *''),
      (lit ''saturday'', lit '' * * 6 *''), (lit ''sat'', lit '' * * 6 *''),
      (lit ''sunday'', lit '' * * 0 *''), (lit ''sun'', lit '' * * 0 *'')]"

definition parse_human_schedule :: "(rstr \<Rightarrow> rstr) \<Rightarrow> (rstr \<Rightarrow> 'c option) \<Rightarrow> rstr \<Rightarrow> 'c option" where
  "parse_human_schedule low cron_from s0 =
     (let s = without_every (low s0) in
      case find_str s (lit '' at '') of
        None \<Rightarrow> None
      | Some at_pos \<Rightarrow>
          (case parse_time_str low (trim (drop (at_pos + 4) s)) of
             None \<Rightarrow> None
           | Some local_hour \<Rightarrow>
               (case map_of WEEKDAY_FIELDS (trim (take at_pos s)) of
                  None \<Rightarrow> None
                | Some fields \<Rightarrow> cron_from (lit ''0 0 '' @ decimal local_hour @ fields))))"

section \<open>Schedules\<close>

datatype 'c parsed_schedule = Interval duration | Cron 'c | Once timestamp

text \<open>The first parsers are tried in turn; the texts \<open>manual\<close> and one that nothing understands give none.\<close>

definition parse_schedule ::
  "(rstr \<Rightarrow> rstr) \<Rightarrow> (rstr \<Rightarrow> timestamp option) \<Rightarrow> (rstr \<Rightarrow> 'c option) \<Rightarrow> rstr \<Rightarrow> 'c parsed_schedule option" where
  "parse_schedule low rfc3339 cron_from schedule =
     (let s = trim schedule in
      if eq_ignore_ascii_case s (lit ''manual'') then None
      else case Option.bind (option_or (strip_prefix (lit ''at '') s) (strip_prefix (lit ''AT '') s))
                  (\<lambda>rest. rfc3339 (trim rest)) of
        Some t \<Rightarrow> Some (Once t)
      | None \<Rightarrow>
          if eq_ignore_ascii_case s (lit ''daily'') then Some (Interval (from_secs 86400))
          else if eq_ignore_ascii_case s (lit ''weekly'') \<or> eq_ignore_ascii_case s (lit ''every week'')
          then Some (Interval (from_secs (7 * 86400)))
          else case parse_duration_str low s of
            Some d \<Rightarrow> Some (Interval d)
          | None \<Rightarrow>
              (case parse_human_schedule low cron_from s of
                 Some cron \<Rightarrow> Some (Cron cron)
               | None \<Rightarrow>
                   (let padded = (if count_words s = 5 then lit ''0 '' @ s @ lit '' *''
                                  else if count_words s = 6 then s @ lit '' *'' else s)
                    in map_option Cron (cron_from padded))))"

definition cron_should_fire ::
  "('c \<Rightarrow> timestamp \<Rightarrow> timestamp option) \<Rightarrow> 'c \<Rightarrow> timestamp \<Rightarrow> timestamp \<Rightarrow> bool" where
  "cron_should_fire cron_after cron last_run now =
     (let search_from = (if last_run = UNIX_EPOCH then now - CRON_GRACE_WINDOW
                         else max last_run (now - CRON_CATCHUP_WINDOW))
      in case cron_after cron search_from of Some next \<Rightarrow> next \<le> now | None \<Rightarrow> False)"

text \<open>What \<open>should_run\<close> does with a schedule that is parsed.\<close>

definition schedule_due ::
  "('c \<Rightarrow> timestamp \<Rightarrow> timestamp option) \<Rightarrow> 'c parsed_schedule option \<Rightarrow> timestamp \<Rightarrow> timestamp \<Rightarrow> bool" where
  "schedule_due cron_after parsed last_run now =
     (case parsed of
        None \<Rightarrow> False
      | Some (Interval interval) \<Rightarrow> interval \<le> nat (now - last_run)
      | Some (Cron cron) \<Rightarrow> cron_should_fire cron_after cron last_run now
      | Some (Once run_at) \<Rightarrow>
          if ONE_OFF_STALE_THRESHOLD < now - run_at then False
          else run_at \<le> now \<and> last_run < run_at)"

definition should_run ::
  "(rstr \<Rightarrow> rstr) \<Rightarrow> (rstr \<Rightarrow> timestamp option) \<Rightarrow> (rstr \<Rightarrow> 'c option) \<Rightarrow> ('c \<Rightarrow> timestamp \<Rightarrow> timestamp option)
    \<Rightarrow> rstr \<Rightarrow> timestamp \<Rightarrow> timestamp \<Rightarrow> bool" where
  "should_run low rfc3339 cron_from cron_after schedule last_run now =
     schedule_due cron_after (parse_schedule low rfc3339 cron_from schedule) last_run now"

text \<open>The age in the message of a stale one-off, in minutes, hours or days; \<open>Inr\<close> is the fresh case.\<close>

definition validate_one_off_freshness ::
  "(rstr \<Rightarrow> rstr) \<Rightarrow> (rstr \<Rightarrow> timestamp option) \<Rightarrow> (rstr \<Rightarrow> 'c option) \<Rightarrow> rstr \<Rightarrow> timestamp \<Rightarrow> rstr + unit" where
  "validate_one_off_freshness low rfc3339 cron_from schedule now =
     (case parse_schedule low rfc3339 cron_from schedule of
        Some (Once run_at) \<Rightarrow>
          (let lateness = now - run_at in
           if ONE_OFF_STALE_THRESHOLD < lateness
           then (let mins = nat (lateness div minutes 1) in
                 Inl (if mins < 60 then decimal mins @ lit ''m''
                      else if mins < 1440 then decimal (mins div 60) @ lit ''h''
                      else decimal (mins div 1440) @ lit ''d''))
           else Inr ())
      | _ \<Rightarrow> Inr ())"

text \<open>The window of the past a run is told to look at.\<close>

definition lookback_duration :: "(rstr \<Rightarrow> rstr) \<Rightarrow> rstr \<Rightarrow> duration" where
  "lookback_duration low schedule =
     min (case parse_duration_str low schedule of Some d \<Rightarrow> d | None \<Rightarrow> from_secs 3600) (from_secs (8 * 3600))"

end
