(* ===== verification/PresetFallback.thy ===== *)
theory PresetFallback
  imports RustTime "HOL-Library.Word"
begin

text \<open>
  \<open>screenpipe-core/src/pipes/preset_fallback.rs\<close>: the circuit breakers of AI presets. Each preset has a
  breaker that opens with a cooldown when a run fails for a reason of the provider; the choice of a preset
  skips the open ones. The map of breakers is the registry's state (the copy on disk has the same content).
  Times are seconds since the epoch; counters are of type \<open>u32\<close> and wrap as in a release build.
\<close>

definition RETRYABLE_ERROR_TYPES :: "rstr list" where
  "RETRYABLE_ERROR_TYPES = [lit ''rate_limited'']"

definition NON_RETRYABLE_ERROR_TYPES :: "rstr list" where
  "NON_RETRYABLE_ERROR_TYPES = [lit ''auth_failed'', lit ''model_not_found'', lit ''context_overflow'', lit ''network'']"

definition MAX_FALLBACK_DEPTH :: nat where "MAX_FALLBACK_DEPTH = 4"

datatype breaker_state = Closed | Open | HalfOpen

datatype failure_reason = RateLimit | CreditsExhausted | ProviderError | Timeout

text \<open>In seconds.\<close>

fun base_cooldown :: "failure_reason \<Rightarrow> nat" where
  "base_cooldown RateLimit = 60"
| "base_cooldown CreditsExhausted = 1800"
| "base_cooldown ProviderError = 120"
| "base_cooldown Timeout = 30"

record preset_breaker =
  breaker_state :: breaker_state
  breaker_reason :: "failure_reason option"
  cooldown_until :: nat
  failure_count :: "32 word"
  success_streak :: "32 word"

definition default_breaker :: preset_breaker where
  "default_breaker = \<lparr>breaker_state = Closed, breaker_reason = None, cooldown_until = 0, failure_count = 0,
     success_streak = 0\<rparr>"

definition should_skip :: "preset_breaker \<Rightarrow> nat \<Rightarrow> bool" where
  "should_skip b now =
     (case breaker_state b of
        Closed \<Rightarrow> False
      | HalfOpen \<Rightarrow> False
      | Open \<Rightarrow> now < cooldown_until b)"

definition trip :: "failure_reason \<Rightarrow> nat \<Rightarrow> preset_breaker \<Rightarrow> preset_breaker" where
  "trip reason now b =
     (let count = failure_count b + 1;
          multiplier = 2 ^ unat (min (count - 1) 6);
          cooldown = min (base_cooldown reason * multiplier) 3600
      in b\<lparr>breaker_state := Open, breaker_reason := Some reason, failure_count := count, success_streak := 0,
           cooldown_until := now + cooldown\<rparr>)"

text \<open>\<open>PresetBreaker::record_success\<close> and \<open>PresetBreaker::check_recovery\<close>.\<close>

definition breaker_success :: "preset_breaker \<Rightarrow> preset_breaker" where
  "breaker_success b =
     (let streak = success_streak b + 1;
          b' = b\<lparr>breaker_state := Closed, success_streak := streak\<rparr>
      in if 5 \<le> streak then b'\<lparr>failure_count := 0\<rparr> else b')"

definition check_recovery :: "nat \<Rightarrow> preset_breaker \<Rightarrow> preset_breaker \<times> bool" where
  "check_recovery now b =
     (if breaker_state b = Open \<and> cooldown_until b \<le> now then (b\<lparr>breaker_state := HalfOpen\<rparr>, True) else (b, False))"

section \<open>The registry\<close>

type_synonym breakers = "rstr \<rightharpoonup> preset_breaker"

text \<open>\<open>entry(id).or_default()\<close>.\<close>

definition breaker_of :: "rstr \<Rightarrow> breakers \<Rightarrow> preset_breaker" where
  "breaker_of preset m = (case m preset of Some b \<Rightarrow> b | None \<Rightarrow> default_breaker)"

text \<open>The loop over the eligible presets with their indices. \<open>clock i\<close> are the two readings of the clock
  for the preset with index \<open>i\<close>, by \<open>check_recovery\<close> and by \<open>should_skip\<close>.\<close>

fun first_available :: "(nat \<Rightarrow> nat \<times> nat) \<Rightarrow> (nat \<times> rstr) list \<Rightarrow> breakers \<Rightarrow> breakers \<times> (rstr \<times> nat) option" where
  "first_available clock [] m = (m, None)"
| "first_available clock ((i, preset) # rest) m =
     (let b = fst (check_recovery (fst (clock i)) (breaker_of preset m)); m' = m(preset \<mapsto> b) in
      if \<not> should_skip b (snd (clock i)) then (m', Some (preset, i))
      else first_available clock rest m')"

lemma enumerate_drop_take:
  "drop f (take k (List.enumerate 0 xs)) = map (\<lambda>i. (i, xs ! i)) [f..<min k (length xs)]"
proof -
  have "List.enumerate 0 xs = map (\<lambda>i. (i, xs ! i)) [0..<length xs]"
    by (rule nth_equalityI) (auto simp: nth_enumerate_eq)
  moreover have "take k [0..<length xs] = [0..<min k (length xs)]" by (cases "k \<le> length xs") auto
  ultimately show ?thesis by (simp add: take_map drop_map)
qed

definition pick_preset_with_floor ::
  "(nat \<Rightarrow> nat \<times> nat) \<Rightarrow> rstr list \<Rightarrow> nat \<Rightarrow> breakers \<Rightarrow> breakers \<times> (rstr \<times> nat) option" where
  "pick_preset_with_floor clock presets floor0 m =
     (if presets = [] then (m, None)
      else let floor = min floor0 (length presets - 1) in
        case first_available clock (drop floor (take MAX_FALLBACK_DEPTH (List.enumerate 0 presets))) m of
          (m', Some r) \<Rightarrow> (m', Some r)
        | (m', None) \<Rightarrow> (m', Some (presets ! floor, floor)))"

definition pick_preset :: "(nat \<Rightarrow> nat \<times> nat) \<Rightarrow> rstr list \<Rightarrow> breakers \<Rightarrow> breakers \<times> (rstr \<times> nat) option" where
  "pick_preset clock presets m = pick_preset_with_floor clock presets 0 m"

definition record_success :: "rstr \<Rightarrow> breakers \<Rightarrow> breakers" where
  "record_success preset m = m(preset \<mapsto> breaker_success (breaker_of preset m))"

definition record_failure :: "rstr \<Rightarrow> rstr option \<Rightarrow> nat \<Rightarrow> breakers \<Rightarrow> breakers \<times> bool" where
  "record_failure preset error_type now m =
     (case error_type of
        None \<Rightarrow> (m, False)
      | Some et \<Rightarrow>
          if list_ex (contains_str et) RETRYABLE_ERROR_TYPES
          then (m(preset \<mapsto> trip (if contains_str et (lit ''rate_limit'') then RateLimit else ProviderError) now
                   (breaker_of preset m)), True)
          else if list_ex (contains_str et) NON_RETRYABLE_ERROR_TYPES then (m, False)
          else (m, False))"

text \<open>The reason read off the output of a run.\<close>

definition output_reason :: "rstr \<Rightarrow> failure_reason option" where
  "output_reason combined =
     (if list_ex (contains_str combined) [lit ''rate limit'', lit ''rate_limit'', lit ''usage limit'', lit ''429'']
      then Some RateLimit
      else if list_ex (contains_str combined)
                [lit ''insufficient'', lit ''credits'', lit ''402'', lit ''payment'', lit ''quota'']
      then Some CreditsExhausted
      else if list_ex (contains_str combined)
                [lit ''502'', lit ''503'', lit ''529'', lit ''overloaded'', lit ''service unavailable'']
      then Some ProviderError
      else if list_ex (contains_str combined) [lit ''timeout'', lit ''timed out''] then Some Timeout
      else None)"

definition record_failure_from_output ::
  "(rstr \<Rightarrow> rstr) \<Rightarrow> rstr \<Rightarrow> rstr \<Rightarrow> rstr \<Rightarrow> nat \<Rightarrow> breakers \<Rightarrow> breakers \<times> bool" where
  "record_failure_from_output low preset stderr stdout now m =
     (case output_reason (low (stderr @ lit '' '' @ stdout)) of
        Some reason \<Rightarrow> (m(preset \<mapsto> trip reason now (breaker_of preset m)), True)
      | None \<Rightarrow> (m, False))"

text \<open>One breaker at the start of the application.\<close>

definition recover_breaker :: "nat \<Rightarrow> preset_breaker \<Rightarrow> preset_breaker" where
  "recover_breaker now b =
     (let b1 = (if breaker_state b = Open \<and> cooldown_until b \<le> now
                then if 86400 < now - cooldown_until b
                     then b\<lparr>breaker_state := Closed, failure_count := 0, success_streak := 0\<rparr>
                     else b\<lparr>breaker_state := HalfOpen\<rparr>
                else b)
      in if now + 86400 < cooldown_until b1
         then b1\<lparr>cooldown_until := now, breaker_state := HalfOpen\<rparr> else b1)"

definition recover_on_startup :: "nat \<Rightarrow> breakers \<Rightarrow> breakers" where
  "recover_on_startup now m = (\<lambda>preset. map_option (recover_breaker now) (m preset))"

section \<open>Lists of presets\<close>

text \<open>The value of the field \<open>preset\<close>, as far as it matters: a text, an array (whose elements are texts or
  something else) or something else.\<close>

datatype preset_value = PresetText rstr | PresetArray "rstr option list" | PresetOther

definition parse_preset_list :: "preset_value \<Rightarrow> rstr list" where
  "parse_preset_list v =
     (case v of
        PresetText s \<Rightarrow> if trim s = [] then [] else [trim s]
      | PresetArray arr \<Rightarrow> filter (\<lambda>s. s \<noteq> []) (map trim (List.map_filter (\<lambda>x. x) arr))
      | PresetOther \<Rightarrow> [])"

end
