(* ===== verification/PipeRun.thy ===== *)
theory PipeRun
  imports PipeGate PipeSchedule PresetFallback
begin

text \<open>
  \<open>screenpipe-core/src/pipes/mod.rs\<close>, the runs of pipes: \<open>PipeManager\<close> as a record of its maps, the claim
  a run makes (running map and PID file), the preset it runs with, what is recorded when it ends, the retry
  with the next preset, and the calls that stop and delete a pipe. Everything outside the crate is a field
  of \<open>run_env\<close>: which agents exist and are installed, which processes live, the presets in the settings,
  what the agent's run gives, the random tokens and the clock, each for the attempt it belongs to. The
  rows written to the database are recorded in their order. The files of logs and sessions and the
  callbacks of the user interface are left out.
\<close>

section \<open>Errors read off the output\<close>

datatype error_type = RateLimited | AuthFailed | ModelNotFound | NetworkError | ContextOverflow

definition error_type_text :: "error_type \<Rightarrow> rstr" where
  "error_type_text e =
     (case e of RateLimited \<Rightarrow> lit ''rate_limited'' | AuthFailed \<Rightarrow> lit ''auth_failed''
      | ModelNotFound \<Rightarrow> lit ''model_not_found'' | NetworkError \<Rightarrow> lit ''network''
      | ContextOverflow \<Rightarrow> lit ''context_overflow'')"

definition parse_error_type :: "(rstr \<Rightarrow> rstr) \<Rightarrow> rstr \<Rightarrow> error_type option" where
  "parse_error_type low stderr =
     (let lower = low stderr in
      if list_ex (contains_str lower) [lit ''rate limit'', lit ''429'', lit ''rate_limit''] then Some RateLimited
      else if list_ex (contains_str lower) [lit ''unauthorized'', lit ''401'', lit ''invalid_api_key'', lit ''auth'']
      then Some AuthFailed
      else if list_ex (contains_str lower) [lit ''model_not_found'', lit ''model not found''] then Some ModelNotFound
      else if list_ex (contains_str lower) [lit ''connection refused'', lit ''network''] then Some NetworkError
      else if list_ex (contains_str lower)
                [lit ''prompt is too long'', lit ''context_length_exceeded'', lit ''maximum context length'']
      then Some ContextOverflow
      else None)"

definition parse_error_type_from_output :: "(rstr \<Rightarrow> rstr) \<Rightarrow> rstr \<Rightarrow> rstr \<Rightarrow> error_type option" where
  "parse_error_type_from_output low stderr stdout =
     (case parse_error_type low stderr of Some e \<Rightarrow> Some e | None \<Rightarrow> parse_error_type low stdout)"

text \<open>The lines of the output that are kept. The output is rebuilt from the front: a kept line is put on
  a line of its own once there is something before it.\<close>

definition streaming_event :: "rstr \<Rightarrow> bool" where
  "streaming_event trimmed \<longleftrightarrow>
     starts_with trimmed (lit ''{'') \<and> ends_with trimmed (lit ''}'')
     \<and> list_ex (contains_str trimmed)
         [34 # lit ''toolcall_delta'' @ [34], 34 # lit ''thinking_delta'' @ [34], 34 # lit ''text_delta'' @ [34]]"

definition filter_ndjson_stdout :: "rstr \<Rightarrow> rstr" where
  "filter_ndjson_stdout s =
     (if \<not> starts_with s (lit ''{'') then s
      else fold (\<lambda>line out.
        if trim line = [] then out
        else if streaming_event (trim line) then out
        else (if out \<noteq> [] then out @ [10] else out) @ line) (split_byte 10 s) [])"

text \<open>\<open>rsplit('/').next()\<close> is the part after the last slash.\<close>

definition url_to_pipe_name :: "rstr \<Rightarrow> rstr" where
  "url_to_pipe_name url =
     (let name = last (split_byte 47 url) in
      case strip_suffix (lit ''.md'') name of Some n \<Rightarrow> n | None \<Rightarrow> name)"

section \<open>Presets in the settings\<close>

record resolved_preset =
  res_model :: rstr
  res_provider :: "rstr option"
  res_url :: "rstr option"
  res_api_key :: "rstr option"
  res_prompt :: "rstr option"

text \<open>A preset as the settings hold it: the fields that are texts, and whether \<open>defaultPreset\<close> is the value true.\<close>

record stored_preset =
  sp_id :: "rstr option"
  sp_model :: "rstr option"
  sp_provider :: "rstr option"
  sp_url :: "rstr option"
  sp_api_key :: "rstr option"
  sp_prompt :: "rstr option"
  sp_default :: bool

definition non_empty :: "rstr option \<Rightarrow> rstr option" where
  "non_empty v = (case v of Some s \<Rightarrow> if s = [] then None else Some s | None \<Rightarrow> None)"

definition PROVIDERS :: "(rstr \<times> rstr) list" where
  "PROVIDERS = [(lit ''screenpipe-cloud'', lit ''screenpipe''), (lit ''pi'', lit ''screenpipe''),
     (lit ''native-ollama'', lit ''ollama''), (lit ''openai'', lit ''openai''),
     (lit ''openai-chatgpt'', lit ''openai-chatgpt''), (lit ''anthropic'', lit ''anthropic''),
     (lit ''custom'', lit ''custom'')]"

text \<open>\<open>oauth\<close> is the ChatGPT token of the secrets store.\<close>

definition resolve_preset :: "rstr option \<Rightarrow> stored_preset list \<Rightarrow> rstr \<Rightarrow> resolved_preset option" where
  "resolve_preset oauth presets preset_id =
     (let normalized = (if preset_id = lit ''pi-agent'' then lit ''screenpipe-cloud''
                        else if preset_id = lit ''auto'' then lit ''default'' else preset_id);
          found = (if normalized = lit ''default'' then List.find sp_default presets
                   else option_or (List.find (\<lambda>p. sp_id p = Some normalized) presets)
                          (List.find (\<lambda>p. sp_id p = Some preset_id) presets))
      in case found of
        None \<Rightarrow> None
      | Some p \<Rightarrow>
          (case sp_model p of
             None \<Rightarrow> None
           | Some model \<Rightarrow>
               (let provider = Option.bind (sp_provider p) (map_of PROVIDERS); key = non_empty (sp_api_key p) in
                Some \<lparr>res_model = model, res_provider = provider, res_url = non_empty (sp_url p),
                  res_api_key = (if provider = Some (lit ''openai-chatgpt'') \<and> key = None then oauth else key),
                  res_prompt = non_empty (sp_prompt p)\<rparr>)))"

section \<open>The manager\<close>

record pipe_config =
  pc_enabled :: bool
  pc_schedule :: rstr
  pc_agent :: rstr
  pc_model :: rstr
  pc_provider :: "rstr option"
  pc_preset :: "rstr list"
  pc_connections :: "rstr list"
  pc_permissions :: permissions_config
  pc_privacy :: bool
  pc_trigger :: "rstr list option"

record run_log =
  log_success :: bool
  log_stdout :: rstr
  log_stderr :: rstr

datatype run_trigger = Manual | Scheduled | Event

datatype run_status = Completed | FailedRun | TimedOutRun | Cancelled

text \<open>What is written to the database; the error is the text of the error column.\<close>

datatype db_call =
  CreateExecution rstr run_trigger rstr "rstr option"
| SetRunning int "nat option"
| FinishExecution int run_status "rstr option"
| UpsertScheduler rstr bool

record manager =
  m_pipes :: "rstr \<rightharpoonup> pipe_config"
  m_running :: "rstr \<rightharpoonup> nat"
  m_exec_ids :: "rstr \<rightharpoonup> int"
  m_pid_files :: "rstr \<rightharpoonup> nat"
  m_breakers :: breakers
  m_tokens :: token_registry
  m_logs :: "rstr \<Rightarrow> run_log list"
  m_db :: "db_call list"

datatype run_outcome = RunOutput bool rstr rstr | RunError rstr | RunTimeout

record run_env =
  env_low :: "rstr \<Rightarrow> rstr"
  env_up :: "rstr \<Rightarrow> rstr"
  executors :: "rstr \<rightharpoonup> bool"
  process_exists :: "nat \<Rightarrow> bool"
  kill_works :: "nat \<Rightarrow> bool"
  ai_presets :: "stored_preset list"
  oauth_token :: "rstr option"
  has_store :: bool
  new_execution :: "nat \<Rightarrow> int option"
  has_registry :: bool
  new_token :: "nat \<Rightarrow> rstr"
  pipe_path :: "rstr \<Rightarrow> rstr"
  agent_run :: "nat \<Rightarrow> resolved_preset \<Rightarrow> run_outcome"
  breaker_clock :: "nat \<Rightarrow> nat \<Rightarrow> nat \<times> nat"
  failure_clock :: "nat \<Rightarrow> nat"

datatype pipe_error =
  PipeNotFound
| AgentNotAvailable
| AgentNotInstalled
| AlreadyRunning
| OtherProcess nat
| NoPresets
| PresetNotFound rstr

text \<open>The PID 0 stands for a claim without a process.\<close>

definition is_process_alive :: "run_env \<Rightarrow> nat \<Rightarrow> bool" where
  "is_process_alive env pid = (if pid = 0 then False else process_exists env pid)"

definition append_log :: "rstr \<Rightarrow> run_log \<Rightarrow> manager \<Rightarrow> manager" where
  "append_log name lg m =
     (let entry = m_logs m name @ [lg] in
      m\<lparr>m_logs := (m_logs m)(name := if 50 < length entry then tl entry else entry)\<rparr>)"

section \<open>Runs\<close>

text \<open>The beginning of a run: the guards, the running map, the PID file.\<close>

definition claim_pipe :: "run_env \<Rightarrow> rstr \<Rightarrow> manager \<Rightarrow> manager \<times> (pipe_error + pipe_config)" where
  "claim_pipe env name m =
     (case m_pipes m name of
        None \<Rightarrow> (m, Inl PipeNotFound)
      | Some config \<Rightarrow>
          (case executors env (pc_agent config) of
             None \<Rightarrow> (m, Inl AgentNotAvailable)
           | Some available \<Rightarrow>
               if \<not> available then (m, Inl AgentNotInstalled)
               else if m_running m name \<noteq> None then (m, Inl AlreadyRunning)
               else let m1 = m\<lparr>m_running := (m_running m)(name \<mapsto> 0)\<rparr> in
                 (case m_pid_files m name of
                    Some pid \<Rightarrow>
                      if is_process_alive env pid
                      then (m1\<lparr>m_running := (m_running m1)(name := None)\<rparr>, Inl (OtherProcess pid))
                      else (m1\<lparr>m_pid_files := (m_pid_files m1)(name := None, name \<mapsto> 0)\<rparr>, Inr config)
                  | None \<Rightarrow> (m1\<lparr>m_pid_files := (m_pid_files m1)(name \<mapsto> 0)\<rparr>, Inr config))))"

definition own_preset :: "pipe_config \<Rightarrow> resolved_preset" where
  "own_preset config =
     \<lparr>res_model = pc_model config, res_provider = pc_provider config, res_url = None, res_api_key = None,
      res_prompt = None\<rparr>"

definition preset_named :: "run_env \<Rightarrow> rstr \<Rightarrow> resolved_preset option" where
  "preset_named env = resolve_preset (oauth_token env) (ai_presets env)"

text \<open>The preset of \<open>run_pipe\<close>, with its place in the list.\<close>

definition choose_preset ::
  "run_env \<Rightarrow> nat \<Rightarrow> pipe_config \<Rightarrow> manager \<Rightarrow> manager \<times> (pipe_error + resolved_preset \<times> (rstr \<times> nat) option)" where
  "choose_preset env retry_depth config m =
     (if pc_preset config \<noteq> [] then
        (case pick_preset_with_floor (breaker_clock env retry_depth) (pc_preset config) retry_depth (m_breakers m) of
           (bs, None) \<Rightarrow> (m\<lparr>m_breakers := bs\<rparr>, Inl NoPresets)
         | (bs, Some (preset_id, idx)) \<Rightarrow>
             (case preset_named env preset_id of
                Some resolved \<Rightarrow> (m\<lparr>m_breakers := bs\<rparr>, Inr (resolved, Some (preset_id, idx)))
              | None \<Rightarrow> (m\<lparr>m_breakers := bs\<rparr>, Inl (PresetNotFound preset_id))))
      else
        (case preset_named env (lit ''default'') of
           Some resolved \<Rightarrow> (m, Inr (resolved, None))
         | None \<Rightarrow> (m, Inr (own_preset config, None))))"

text \<open>The preset of the scheduler and of \<open>start_pipe_background\<close>: the first of the list only.\<close>

definition first_preset :: "run_env \<Rightarrow> pipe_config \<Rightarrow> resolved_preset" where
  "first_preset env config =
     (case preset_named env (case pc_preset config of p # _ \<Rightarrow> p | [] \<Rightarrow> lit ''default'') of
        Some resolved \<Rightarrow> resolved
      | None \<Rightarrow> own_preset config)"

definition begin_execution ::
  "run_env \<Rightarrow> nat \<Rightarrow> rstr \<Rightarrow> run_trigger \<Rightarrow> resolved_preset \<Rightarrow> manager \<Rightarrow> manager \<times> int option" where
  "begin_execution env attempt name trigger r m =
     (if has_store env
      then let m1 = m\<lparr>m_db := m_db m @ [CreateExecution name trigger (res_model r) (res_provider r)]\<rparr> in
        (case new_execution env attempt of
           Some eid \<Rightarrow> (m1\<lparr>m_exec_ids := (m_exec_ids m1)(name \<mapsto> eid), m_db := m_db m1 @ [SetRunning eid None]\<rparr>, Some eid)
         | None \<Rightarrow> (m1, None))
      else (m, None))"

text \<open>The token a run of the agent \<open>pi\<close> gets, registered with the permissions of the pipe.\<close>

definition setup_pipe_permissions ::
  "run_env \<Rightarrow> nat \<Rightarrow> rstr \<Rightarrow> pipe_config \<Rightarrow> manager \<Rightarrow> manager \<times> rstr option" where
  "setup_pipe_permissions env attempt name config m =
     (let t = new_token env attempt;
          perms = (from_config (env_low env) (env_up env) name (pc_permissions config) (pc_privacy config))
                    \<lparr>pipe_dir := Some (pipe_path env name), pipe_token := Some t\<rparr>
      in (if has_registry env then m\<lparr>m_tokens := register_token t perms (m_tokens m)\<rparr> else m, Some t))"

definition start_agent :: "run_env \<Rightarrow> nat \<Rightarrow> rstr \<Rightarrow> pipe_config \<Rightarrow> manager \<Rightarrow> manager \<times> rstr option" where
  "start_agent env attempt name config m =
     (if pc_agent config = lit ''pi'' then setup_pipe_permissions env attempt name config m else (m, None))"

definition cleanup_pipe_token :: "run_env \<Rightarrow> rstr option \<Rightarrow> manager \<Rightarrow> manager" where
  "cleanup_pipe_token env token m =
     (case token of
        Some t \<Rightarrow> if has_registry env then m\<lparr>m_tokens := remove_token t (m_tokens m)\<rparr> else m
      | None \<Rightarrow> m)"

text \<open>The end of a run gives back the claim.\<close>

definition release_pipe :: "rstr \<Rightarrow> manager \<Rightarrow> manager" where
  "release_pipe name m =
     m\<lparr>m_running := (m_running m)(name := None), m_exec_ids := (m_exec_ids m)(name := None),
       m_pid_files := (m_pid_files m)(name := None)\<rparr>"

text \<open>Status, error column and log of an outcome.\<close>

definition outcome_status :: "(rstr \<Rightarrow> rstr) \<Rightarrow> run_outcome \<Rightarrow> run_status \<times> rstr option" where
  "outcome_status low outcome =
     (case outcome of
        RunOutput success stdout stderr \<Rightarrow>
          if success then (Completed, None)
          else (FailedRun, map_option error_type_text (parse_error_type_from_output low stderr (filter_ndjson_stdout stdout)))
      | RunError e \<Rightarrow> (FailedRun, Some (lit ''crash''))
      | RunTimeout \<Rightarrow> (TimedOutRun, Some (lit ''timeout'')))"

definition outcome_log :: "run_outcome \<Rightarrow> run_log" where
  "outcome_log outcome =
     (case outcome of
        RunOutput success stdout stderr \<Rightarrow>
          \<lparr>log_success = success, log_stdout = filter_ndjson_stdout stdout, log_stderr = stderr\<rparr>
      | RunError e \<Rightarrow> \<lparr>log_success = False, log_stdout = [], log_stderr = e\<rparr>
      | RunTimeout \<Rightarrow> \<lparr>log_success = False, log_stdout = [], log_stderr = lit ''execution timed out''\<rparr>)"

definition finish_rows :: "run_env \<Rightarrow> rstr \<Rightarrow> int option \<Rightarrow> run_outcome \<Rightarrow> manager \<Rightarrow> manager" where
  "finish_rows env name exec_id outcome m =
     (if has_store env
      then let (status, err) = outcome_status (env_low env) outcome in
        m\<lparr>m_db := m_db m @ (case exec_id of Some eid \<Rightarrow> [FinishExecution eid status err] | None \<Rightarrow> [])
             @ [UpsertScheduler name (log_success (outcome_log outcome))]\<rparr>
      else m)"

definition update_breaker :: "run_env \<Rightarrow> nat \<Rightarrow> (rstr \<times> nat) option \<Rightarrow> run_outcome \<Rightarrow> manager \<Rightarrow> manager" where
  "update_breaker env attempt active outcome m =
     (case (outcome, active) of
        (RunOutput success stdout stderr, Some (pid, _)) \<Rightarrow>
          m\<lparr>m_breakers :=
              (if success then record_success pid (m_breakers m)
               else fst (record_failure_from_output (env_low env) pid stderr (filter_ndjson_stdout stdout)
                      (failure_clock env attempt) (m_breakers m)))\<rparr>
      | _ \<Rightarrow> m)"

text \<open>One attempt of \<open>run_pipe\<close>, up to the decision whether to retry.\<close>

definition run_attempt ::
  "run_env \<Rightarrow> rstr \<Rightarrow> run_trigger \<Rightarrow> nat \<Rightarrow> manager \<Rightarrow> manager \<times> (pipe_error + run_log \<times> pipe_config \<times> (rstr \<times> nat) option)" where
  "run_attempt env name trigger retry_depth m =
     (case claim_pipe env name m of
        (m1, Inl e) \<Rightarrow> (m1, Inl e)
      | (m1, Inr config) \<Rightarrow>
          (case choose_preset env retry_depth config m1 of
             (m2, Inl e) \<Rightarrow> (m2, Inl e)
           | (m2, Inr (resolved, active)) \<Rightarrow>
               (let (m3, exec_id) = begin_execution env retry_depth name trigger resolved m2;
                    (m4, token) = start_agent env retry_depth name config m3;
                    outcome = agent_run env retry_depth resolved;
                    m5 = finish_rows env name exec_id outcome (release_pipe name m4);
                    m6 = cleanup_pipe_token env token (update_breaker env retry_depth active outcome m5)
                in (m6, Inr (outcome_log outcome, config, active)))))"

lemma first_available_index:
  "snd (first_available clock xs m) = Some (p, i) \<Longrightarrow> (i, p) \<in> set xs"
proof (induction xs arbitrary: m)
  case (Cons x xs)
  obtain j q where x: "x = (j, q)" by (cases x)
  show ?case
  proof (cases "should_skip (fst (check_recovery (fst (clock j)) (breaker_of q m))) (snd (clock j))")
    case True
    then show ?thesis using Cons by (simp add: x Let_def del: fun_upd_apply)
  next
    case False
    then show ?thesis using Cons.prems by (simp add: x Let_def)
  qed
qed simp

lemma pick_index:
  "pick_preset_with_floor clock presets f m = (m', Some (p, i)) \<Longrightarrow>
     min f (length presets - 1) \<le> i \<and> i < length presets \<and> p = presets ! i"
proof -
  assume a: "pick_preset_with_floor clock presets f m = (m', Some (p, i))"
  then have ne: "presets \<noteq> []" by (auto simp: pick_preset_with_floor_def)
  let ?f = "min f (length presets - 1)"
  let ?xs = "drop ?f (take MAX_FALLBACK_DEPTH (List.enumerate 0 presets))"
  obtain m1 r where r: "first_available clock ?xs m = (m1, r)" by fastforce
  show ?thesis
  proof (cases r)
    case None
    then show ?thesis using a r ne by (cases presets) (auto simp: pick_preset_with_floor_def Let_def)
  next
    case (Some x)
    then have x: "x = (p, i)" using a r ne by (auto simp: pick_preset_with_floor_def Let_def)
    then have "(i, p) \<in> set ?xs" using first_available_index [of clock ?xs m p i] r Some by simp
    then show ?thesis by (auto simp: enumerate_drop_take)
  qed
qed

lemma attempt_index:
  "run_attempt env name trigger d m = (m', Inr (lg, config, Some (p, i))) \<Longrightarrow>
     min d (length (pc_preset config) - 1) \<le> i \<and> i < length (pc_preset config) \<and> p = pc_preset config ! i"
  by (auto simp: run_attempt_def choose_preset_def Let_def split: prod.splits sum.splits if_splits option.splits
      dest!: pick_index)

text \<open>A failed attempt is followed by one with the next preset of the list, up to the fourth.\<close>

function (sequential) run_pipe_inner ::
  "run_env \<Rightarrow> rstr \<Rightarrow> run_trigger \<Rightarrow> nat \<Rightarrow> manager \<Rightarrow> manager \<times> (pipe_error + run_log)" where
  "run_pipe_inner env name trigger retry_depth m =
     (case run_attempt env name trigger retry_depth m of
        (m1, Inl e) \<Rightarrow> (m1, Inl e)
      | (m1, Inr (lg, config, active)) \<Rightarrow>
          (case active of
             Some (p, cur_idx) \<Rightarrow>
               if \<not> log_success lg \<and> cur_idx + 1 < min (length (pc_preset config)) MAX_FALLBACK_DEPTH
               then run_pipe_inner env name trigger (cur_idx + 1) (append_log name lg m1)
               else (append_log name lg m1, Inr lg)
           | None \<Rightarrow> (append_log name lg m1, Inr lg)))"
  by pat_completeness auto
termination
by (relation "measure (\<lambda>(env, name, trigger, d, m). MAX_FALLBACK_DEPTH - d)")
    (auto dest!: attempt_index [OF sym] simp: min_def split: if_splits)

declare run_pipe_inner.simps [simp del]

definition run_pipe :: "run_env \<Rightarrow> rstr \<Rightarrow> manager \<Rightarrow> manager \<times> (pipe_error + run_log)" where
  "run_pipe env name m = run_pipe_inner env name Manual 0 m"

section \<open>Runs in the background, stopping\<close>

text \<open>\<open>start_pipe_background\<close> up to the spawned task, and the task once the agent is done.\<close>

definition start_pipe_background ::
  "run_env \<Rightarrow> nat \<Rightarrow> rstr \<Rightarrow> manager \<Rightarrow> manager \<times> (pipe_error + int option \<times> rstr option)" where
  "start_pipe_background env attempt name m =
     (case claim_pipe env name m of
        (m1, Inl e) \<Rightarrow> (m1, Inl e)
      | (m1, Inr config) \<Rightarrow>
          (let (m2, exec_id) = begin_execution env attempt name Manual (first_preset env config) m1;
               (m3, token) = start_agent env attempt name config m2
           in (m3, Inr (exec_id, token))))"

definition background_done ::
  "run_env \<Rightarrow> rstr \<Rightarrow> int option \<Rightarrow> rstr option \<Rightarrow> run_outcome \<Rightarrow> manager \<Rightarrow> manager" where
  "background_done env name exec_id token outcome m =
     cleanup_pipe_token env token
       (append_log name (outcome_log outcome) (finish_rows env name exec_id outcome (release_pipe name m)))"

text \<open>The watcher stores the PID of the spawned process a moment later.\<close>

definition pid_arrives :: "rstr \<Rightarrow> int option \<Rightarrow> nat \<Rightarrow> run_env \<Rightarrow> manager \<Rightarrow> manager" where
  "pid_arrives name exec_id pid env m =
     (if pid = 0 then m
      else let m1 = (case m_running m name of
                       Some _ \<Rightarrow> m\<lparr>m_running := (m_running m)(name \<mapsto> pid)\<rparr>
                     | None \<Rightarrow> m);
               m2 = m1\<lparr>m_pid_files := (m_pid_files m1)(name \<mapsto> pid)\<rparr>
           in case exec_id of
                Some eid \<Rightarrow> if has_store env then m2\<lparr>m_db := m_db m2 @ [SetRunning eid (Some pid)]\<rparr> else m2
              | None \<Rightarrow> m2)"

text \<open>\<open>False\<close>: killing the process failed, which ends the call early.\<close>

definition stop_pipe :: "run_env \<Rightarrow> rstr \<Rightarrow> manager \<Rightarrow> manager \<times> bool" where
  "stop_pipe env name m =
     (let handle = m_running m name; exec_id = m_exec_ids m name;
          m1 = m\<lparr>m_running := (m_running m)(name := None), m_exec_ids := (m_exec_ids m)(name := None)\<rparr>
      in case handle of
           None \<Rightarrow> (m1, True)
         | Some pid \<Rightarrow>
             if pid \<noteq> 0
                \<and> (case m_pipes m1 name of Some config \<Rightarrow> executors env (pc_agent config) \<noteq> None | None \<Rightarrow> False)
                \<and> \<not> kill_works env pid
             then (m1, False)
             else (case exec_id of
                     Some eid \<Rightarrow>
                       if has_store env
                       then (m1\<lparr>m_db := m_db m1 @ [FinishExecution eid Cancelled (Some (lit ''cancelled''))]\<rparr>, True)
                       else (m1, True)
                   | None \<Rightarrow> (m1, True)))"

end
