(* ===== verification/PipeScheduler.thy ===== *)
theory PipeScheduler
  imports PipeRun
begin

text \<open>
  \<open>screenpipe-core/src/pipes/mod.rs\<close>, \<open>start_scheduler\<close>: the loop that queues pipes when their schedule or an
  event says so, and the tasks it spawns, which wait for one another. The state holds the manager, the maps of
  the loop, the tasks with the phase they are in, and the runs the user started. A tick reads the clock
  once for its events and twice for each pipe (to decide and to remember). The snapshot of the pipes comes in the
  order of the hash map, which is arbitrary. Links of the chain map are texts, as in the code.
\<close>

definition CHAIN_COOLDOWN :: duration where "CHAIN_COOLDOWN = from_secs 60"

datatype task_phase = Waiting | Active "int option" | Spacing

record task =
  t_id :: nat
  t_name :: rstr
  t_event :: bool
  t_preset :: resolved_preset
  t_token :: "rstr option"
  t_phase :: task_phase

record user_run =
  u_name :: rstr
  u_exec :: "int option"
  u_token :: "rstr option"

record scheduler =
  s_manager :: manager
  s_last_run :: "rstr \<rightharpoonup> timestamp"
  s_queued :: "rstr set"
  s_chain :: "rstr \<rightharpoonup> instant"
  s_overrides :: "rstr \<rightharpoonup> bool"
  s_tasks :: "task list"
  s_permit :: bool
  s_user_runs :: "user_run list"
  s_next :: nat

text \<open>What the loop needs from outside, besides the environment of runs: the parsers of schedules, the check of
  connections (the ones that are missing), and whether an override can be written.\<close>

record 'c sched_env =
  se_run :: run_env
  se_rfc3339 :: "rstr \<Rightarrow> timestamp option"
  se_cron_from :: "rstr \<Rightarrow> 'c option"
  se_cron_after :: "'c \<Rightarrow> timestamp \<Rightarrow> timestamp option"
  se_missing :: "(rstr list \<Rightarrow> rstr list) option"
  se_override_works :: bool

section \<open>Events\<close>

definition COMPLETED :: rstr where "COMPLETED = lit ''pipe_completed:''"

text \<open>The key of a chain link, with an arrow between the names.\<close>

definition chain_key :: "rstr \<Rightarrow> rstr \<Rightarrow> rstr" where
  "chain_key source target = source @ [226, 134, 146] @ target"

text \<open>The events drained in a tick: meetings that start and end, workflow events by their inner type, and of all
  events the completed pipes.\<close>

definition pending_events :: "rstr list \<Rightarrow> rstr list \<Rightarrow> rstr option list \<Rightarrow> rstr list \<Rightarrow> rstr list" where
  "pending_events starts ends workflows others =
     starts @ ends @ map (\<lambda>t. case t of Some x \<Rightarrow> x | None \<Rightarrow> lit ''workflow_event'') workflows
     @ filter (\<lambda>e. starts_with e COMPLETED) others"

definition expire_chain :: "instant \<Rightarrow> scheduler \<Rightarrow> scheduler" where
  "expire_chain now s =
     s\<lparr>s_chain := (\<lambda>k. case s_chain s k of Some ts \<Rightarrow> if elapsed now ts < CHAIN_COOLDOWN then Some ts else None | None \<Rightarrow> None)\<rparr>"

text \<open>A completed pipe triggers another one unless the other triggered it a moment ago; the link is remembered.\<close>

definition chain_link :: "instant \<Rightarrow> rstr \<Rightarrow> rstr \<Rightarrow> scheduler \<Rightarrow> scheduler option" where
  "chain_link now event name s =
     (case strip_prefix COMPLETED event of
        Some source \<Rightarrow>
          if s_chain s (chain_key name source) \<noteq> None then None
          else Some (s\<lparr>s_chain := (s_chain s)(chain_key source name \<mapsto> now)\<rparr>)
      | None \<Rightarrow> Some s)"

definition event_for_pipe ::
  "instant \<Rightarrow> rstr \<Rightarrow> rstr \<times> pipe_config \<Rightarrow> scheduler \<times> rstr set \<Rightarrow> scheduler \<times> rstr set" where
  "event_for_pipe now event = (\<lambda>(name, config) (s, triggered).
     if \<not> pc_enabled config then (s, triggered)
     else case pc_trigger config of
       None \<Rightarrow> (s, triggered)
     | Some events \<Rightarrow>
         if event \<notin> set events then (s, triggered)
         else if event = COMPLETED @ name then (s, triggered)
         else (case chain_link now event name s of
                 None \<Rightarrow> (s, triggered)
               | Some s1 \<Rightarrow>
                   if m_running (s_manager s1) name \<noteq> None then (s1, triggered)
                   else (s1\<lparr>s_last_run := (s_last_run s1)(name := None)\<rparr>, insert name triggered)))"

definition drain_events ::
  "instant \<Rightarrow> (rstr \<times> pipe_config) list \<Rightarrow> rstr list \<Rightarrow> scheduler \<Rightarrow> scheduler \<times> rstr set" where
  "drain_events now snapshot pending s =
     fold (\<lambda>event. fold (event_for_pipe now event) snapshot) pending (expire_chain now s, {})"

section \<open>The pipes of a tick\<close>

definition pipe_due :: "'c sched_env \<Rightarrow> timestamp \<Rightarrow> rstr \<Rightarrow> pipe_config \<Rightarrow> scheduler \<Rightarrow> bool" where
  "pipe_due env now name config s =
     should_run (env_low (se_run env)) (se_rfc3339 env) (se_cron_from env) (se_cron_after env) (pc_schedule config)
       (case s_last_run s name of Some t \<Rightarrow> t | None \<Rightarrow> UNIX_EPOCH) now"

definition setup_mode :: "'c sched_env \<Rightarrow> pipe_config \<Rightarrow> bool" where
  "setup_mode env config =
     (if pc_connections config = [] then False
      else case se_missing env of Some check \<Rightarrow> check (pc_connections config) \<noteq> [] | None \<Rightarrow> False)"

definition is_one_off :: "'c sched_env \<Rightarrow> pipe_config \<Rightarrow> bool" where
  "is_one_off env config =
     (case parse_schedule (env_low (se_run env)) (se_rfc3339 env) (se_cron_from env) (pc_schedule config) of
        Some (Once _) \<Rightarrow> True | _ \<Rightarrow> False)"

text \<open>What is done for a pipe that is queued: the last run, the override of a one-off, the queue, the token,
  the task.\<close>

definition queue_pipe :: "'c sched_env \<Rightarrow> bool \<Rightarrow> timestamp \<Rightarrow> rstr \<Rightarrow> pipe_config \<Rightarrow> scheduler \<Rightarrow> scheduler" where
  "queue_pipe env by_event stamp name config s =
     (let (m, token) = start_agent (se_run env) (s_next s) name config (s_manager s) in
      s\<lparr>s_manager := m,
        s_last_run := (s_last_run s)(name \<mapsto> stamp),
        s_overrides := (if is_one_off env config \<and> se_override_works env then (s_overrides s)(name \<mapsto> False) else s_overrides s),
        s_queued := insert name (s_queued s),
        s_tasks := s_tasks s @ [\<lparr>t_id = s_next s, t_name = name, t_event = by_event,
                                 t_preset = first_preset (se_run env) config, t_token = token, t_phase = Waiting\<rparr>],
        s_next := Suc (s_next s)\<rparr>)"

definition tick_pipe ::
  "'c sched_env \<Rightarrow> (rstr \<Rightarrow> timestamp \<times> timestamp) \<Rightarrow> rstr set \<Rightarrow> rstr \<times> pipe_config \<Rightarrow> scheduler \<Rightarrow> scheduler" where
  "tick_pipe env clock triggered = (\<lambda>(name, config) s.
     if \<not> pc_enabled config then s
     else if name \<notin> triggered \<and> \<not> pipe_due env (fst (clock name)) name config s then s
     else if name \<in> s_queued s then s
     else if setup_mode env config then s
     else let pid_file = m_pid_files (s_manager s) name in
       if (case pid_file of Some pid \<Rightarrow> is_process_alive (se_run env) pid | None \<Rightarrow> False) then s
       else let s1 = (case pid_file of
                        Some _ \<Rightarrow> s\<lparr>s_manager := (s_manager s)\<lparr>m_pid_files := (m_pid_files (s_manager s))(name := None)\<rparr>\<rparr>
                      | None \<Rightarrow> s)
         in if executors (se_run env) (pc_agent config) \<noteq> Some True then s1
            else queue_pipe env (name \<in> triggered) (snd (clock name)) name config s1)"

definition scheduler_tick ::
  "'c sched_env \<Rightarrow> instant \<Rightarrow> (rstr \<Rightarrow> timestamp \<times> timestamp) \<Rightarrow> (rstr \<times> pipe_config) list \<Rightarrow> rstr list
    \<Rightarrow> scheduler \<Rightarrow> scheduler" where
  "scheduler_tick env now clock snapshot pending s =
     (let (s1, triggered) = drain_events now snapshot pending s
      in fold (tick_pipe env clock triggered) snapshot s1)"

section \<open>Tasks\<close>

definition set_phase :: "nat \<Rightarrow> task_phase \<Rightarrow> task list \<Rightarrow> task list" where
  "set_phase k phase tasks = map (\<lambda>t. if t_id t = k then t\<lparr>t_phase := phase\<rparr> else t) tasks"

text \<open>A waiting task goes on: a scheduled one with the permit, one of an event without.\<close>

definition task_starts :: "run_env \<Rightarrow> task \<Rightarrow> scheduler \<Rightarrow> scheduler" where
  "task_starts env t s =
     (let m1 = (s_manager s)\<lparr>m_running := (m_running (s_manager s))(t_name t \<mapsto> 0),
                             m_pid_files := (m_pid_files (s_manager s))(t_name t \<mapsto> 0)\<rparr>;
          (m2, exec_id) = begin_execution env (t_id t) (t_name t) (if t_event t then Event else Scheduled) (t_preset t) m1
      in s\<lparr>s_manager := m2, s_permit := (if t_event t then s_permit s else False),
           s_tasks := set_phase (t_id t) (Active exec_id) (s_tasks s)\<rparr>)"

text \<open>Its run is over; it may keep the permit a little longer.\<close>

definition task_finishes :: "run_env \<Rightarrow> task \<Rightarrow> int option \<Rightarrow> run_outcome \<Rightarrow> scheduler \<Rightarrow> scheduler" where
  "task_finishes env t exec_id outcome s =
     s\<lparr>s_manager := background_done env (t_name t) exec_id (t_token t) outcome (s_manager s),
       s_queued := s_queued s - {t_name t},
       s_tasks := set_phase (t_id t) Spacing (s_tasks s)\<rparr>"

definition task_ends :: "task \<Rightarrow> scheduler \<Rightarrow> scheduler" where
  "task_ends t s =
     s\<lparr>s_permit := (if t_event t then s_permit s else True),
       s_tasks := filter (\<lambda>t'. t_id t' \<noteq> t_id t) (s_tasks s)\<rparr>"

definition user_starts :: "run_env \<Rightarrow> rstr \<Rightarrow> scheduler \<Rightarrow> scheduler" where
  "user_starts env name s =
     (case start_pipe_background env (s_next s) name (s_manager s) of
        (m, Inl _) \<Rightarrow> s\<lparr>s_manager := m\<rparr>
      | (m, Inr (exec_id, token)) \<Rightarrow>
          s\<lparr>s_manager := m, s_next := Suc (s_next s),
            s_user_runs := s_user_runs s @ [\<lparr>u_name = name, u_exec = exec_id, u_token = token\<rparr>]\<rparr>)"

definition user_finishes :: "run_env \<Rightarrow> user_run \<Rightarrow> run_outcome \<Rightarrow> scheduler \<Rightarrow> scheduler" where
  "user_finishes env u outcome s =
     s\<lparr>s_manager := background_done env (u_name u) (u_exec u) (u_token u) outcome (s_manager s),
       s_user_runs := remove1 u (s_user_runs s)\<rparr>"

text \<open>What can happen next. The parameters of a tick (clock, snapshot of the pipes, events) are arbitrary, with
  each pipe once in the snapshot.\<close>

inductive sched_step :: "'c sched_env \<Rightarrow> scheduler \<Rightarrow> scheduler \<Rightarrow> bool" for env where
  tick: "distinct (map fst snapshot) \<Longrightarrow> sched_step env s (scheduler_tick env now clock snapshot pending s)"
| starts: "t \<in> set (s_tasks s) \<Longrightarrow> t_phase t = Waiting \<Longrightarrow> t_event t \<or> s_permit s \<Longrightarrow>
     sched_step env s (task_starts (se_run env) t s)"
| finishes: "t \<in> set (s_tasks s) \<Longrightarrow> t_phase t = Active e \<Longrightarrow>
     sched_step env s (task_finishes (se_run env) t e outcome s)"
| ends: "t \<in> set (s_tasks s) \<Longrightarrow> t_phase t = Spacing \<Longrightarrow> sched_step env s (task_ends t s)"
| user_start: "sched_step env s (user_starts (se_run env) name s)"
| user_finish: "u \<in> set (s_user_runs s) \<Longrightarrow> sched_step env s (user_finishes (se_run env) u outcome s)"
| task_pid: "t \<in> set (s_tasks s) \<Longrightarrow> t_phase t = Active e \<Longrightarrow>
     sched_step env s (s\<lparr>s_manager := pid_arrives (t_name t) e pid (se_run env) (s_manager s)\<rparr>)"
| user_pid: "u \<in> set (s_user_runs s) \<Longrightarrow>
     sched_step env s (s\<lparr>s_manager := pid_arrives (u_name u) (u_exec u) pid (se_run env) (s_manager s)\<rparr>)"
| user_stop: "sched_step env s (s\<lparr>s_manager := fst (stop_pipe (se_run env) name (s_manager s))\<rparr>)"

definition fresh_scheduler :: "manager \<Rightarrow> (rstr \<rightharpoonup> timestamp) \<Rightarrow> scheduler" where
  "fresh_scheduler m last_run =
     \<lparr>s_manager = m, s_last_run = last_run, s_queued = {}, s_chain = Map.empty, s_overrides = Map.empty, s_tasks = [],
      s_permit = True, s_user_runs = [], s_next = 0\<rparr>"

inductive sched_reachable :: "'c sched_env \<Rightarrow> scheduler \<Rightarrow> bool" for env where
  init: "sched_reachable env (fresh_scheduler m last_run)"
| step: "sched_reachable env s \<Longrightarrow> sched_step env s s' \<Longrightarrow> sched_reachable env s'"

inductive_cases sched_stepE: "sched_step env s s'"

section \<open>What always holds\<close>

definition in_queue :: "task \<Rightarrow> bool" where
  "in_queue t \<longleftrightarrow> t_phase t \<noteq> Spacing"

definition holds_permit :: "task \<Rightarrow> bool" where
  "holds_permit t \<longleftrightarrow> \<not> t_event t \<and> t_phase t \<noteq> Waiting"

text \<open>The queued names are those of the tasks that wait or run, each once; the permit is free exactly when no
  scheduled task is past waiting, and at most one is.\<close>

definition sched_inv :: "scheduler \<Rightarrow> bool" where
  "sched_inv s \<longleftrightarrow>
     distinct (map t_id (s_tasks s)) \<and> (\<forall>t \<in> set (s_tasks s). t_id t < s_next s)
     \<and> distinct (map t_name (filter in_queue (s_tasks s)))
     \<and> s_queued s = set (map t_name (filter in_queue (s_tasks s)))
     \<and> length (filter holds_permit (s_tasks s)) = (if s_permit s then 0 else 1)"

lemma task_split:
  "distinct (map t_id ts) \<Longrightarrow> t \<in> set ts \<Longrightarrow>
     \<exists>xs ys. ts = xs @ t # ys \<and> (\<forall>u \<in> set xs \<union> set ys. t_id u \<noteq> t_id t)"
proof -
  assume d: "distinct (map t_id ts)" and "t \<in> set ts"
  then obtain xs ys where ts: "ts = xs @ t # ys" by (auto simp: in_set_conv_decomp)
  have "t_id t \<notin> t_id ` set xs" "t_id t \<notin> t_id ` set ys" using d unfolding ts by auto
  then have "\<forall>u \<in> set xs \<union> set ys. t_id u \<noteq> t_id t" by (metis Un_iff imageI)
  then show ?thesis using ts by blast
qed

lemma set_phase_split:
  "\<forall>u \<in> set xs \<union> set ys. t_id u \<noteq> t_id t \<Longrightarrow>
     set_phase (t_id t) p (xs @ t # ys) = xs @ t\<lparr>t_phase := p\<rparr> # ys
     \<and> filter (\<lambda>t'. t_id t' \<noteq> t_id t) (xs @ t # ys) = xs @ ys"
  by (auto simp: set_phase_def map_idI filter_id_conv)

definition same_queue :: "scheduler \<Rightarrow> scheduler \<Rightarrow> bool" where
  "same_queue s s' \<longleftrightarrow> s_tasks s' = s_tasks s \<and> s_queued s' = s_queued s \<and> s_permit s' = s_permit s \<and> s_next s \<le> s_next s'"

lemma same_queue_inv: "same_queue s s' \<Longrightarrow> sched_inv s \<Longrightarrow> sched_inv s'"
  by (auto simp: same_queue_def sched_inv_def)

lemma same_queue_refl [simp]: "same_queue s s"
  by (simp add: same_queue_def)

lemma same_queue_trans: "same_queue a b \<Longrightarrow> same_queue b c \<Longrightarrow> same_queue a c"
  by (simp add: same_queue_def)

lemma chain_link_queue: "chain_link now event name s = Some s1 \<Longrightarrow> same_queue s s1"
  by (auto simp: chain_link_def same_queue_def split: option.splits if_splits)

lemma event_for_pipe_queue: "same_queue s (fst (event_for_pipe now e p (s, T)))"
proof -
  obtain name config where p: "p = (name, config)" by (cases p)
  show ?thesis
  proof (cases "chain_link now e name s")
    case None
    then show ?thesis by (simp add: p event_for_pipe_def split: option.split)
  next
    case (Some s1)
    have "same_queue s s1" "same_queue s (s1\<lparr>s_last_run := (s_last_run s1)(name := None)\<rparr>)"
      using chain_link_queue [OF Some] by (simp_all add: same_queue_def)
    then show ?thesis using Some by (simp add: p event_for_pipe_def split: option.split)
  qed
qed

lemma drain_queue: "same_queue s (fst (drain_events now snapshot pending s))"
proof -
  have one: "same_queue s (fst x) \<Longrightarrow> same_queue s (fst (fold (event_for_pipe now e) ps x))" for e ps x
  proof (induction ps arbitrary: x)
    case (Cons p ps)
    have "same_queue (fst x) (fst (event_for_pipe now e p x))"
      using event_for_pipe_queue [of "fst x" now e p "snd x"] by simp
    then show ?case using Cons same_queue_trans by simp
  qed simp
  have "same_queue s (fst x) \<Longrightarrow> same_queue s (fst (fold (\<lambda>e. fold (event_for_pipe now e) snapshot) es x))" for es x
    by (induction es arbitrary: x) (simp_all add: one)
  moreover have "same_queue s (expire_chain now s)" by (simp add: same_queue_def expire_chain_def)
  ultimately show ?thesis by (simp add: drain_events_def)
qed

lemma queue_pipe_inv: "sched_inv s \<Longrightarrow> name \<notin> s_queued s \<Longrightarrow> sched_inv (queue_pipe env ev stamp name config s)"
proof -
  assume a: "sched_inv s" "name \<notin> s_queued s"
  obtain t where t: "s_tasks (queue_pipe env ev stamp name config s) = s_tasks s @ [t]" "t_id t = s_next s" "t_name t = name"
    "t_phase t = Waiting"
    by (simp add: queue_pipe_def Let_def case_prod_beta)
  have o: "s_queued (queue_pipe env ev stamp name config s) = insert name (s_queued s)"
    "s_permit (queue_pipe env ev stamp name config s) = s_permit s"
    "s_next (queue_pipe env ev stamp name config s) = Suc (s_next s)"
    by (simp_all add: queue_pipe_def Let_def case_prod_beta)
  have q: "in_queue t" "\<not> holds_permit t" using t(4) by (simp_all add: in_queue_def holds_permit_def)
  have i: "distinct (map t_id (s_tasks s))" "\<forall>u \<in> set (s_tasks s). t_id u < s_next s"
    "distinct (map t_name (filter in_queue (s_tasks s)))" "s_queued s = set (map t_name (filter in_queue (s_tasks s)))"
    "length (filter holds_permit (s_tasks s)) = (if s_permit s then 0 else 1)"
    using a(1) unfolding sched_inv_def by blast+
  have "distinct (map t_id (s_tasks s @ [t]))" using i(1,2) t(2) by auto
  moreover have "\<forall>u \<in> set (s_tasks s @ [t]). t_id u < Suc (s_next s)" using i(2) t(2) by auto
  moreover have "distinct (map t_name (filter in_queue (s_tasks s @ [t])))" using i(3,4) a(2) t(3) q(1) by simp
  moreover have "insert name (s_queued s) = set (map t_name (filter in_queue (s_tasks s @ [t])))" using i(4) t(3) q(1) by simp
  moreover have "length (filter holds_permit (s_tasks s @ [t])) = (if s_permit s then 0 else 1)" using i(5) q(2) by simp
  ultimately show ?thesis unfolding sched_inv_def t(1) o by blast
qed

lemma tick_pipe_inv: "sched_inv s \<Longrightarrow> sched_inv (tick_pipe env clock T p s)"
proof -
  assume i: "sched_inv s"
  obtain name config where p: "p = (name, config)" by (cases p)
  let ?s1 = "s\<lparr>s_manager := (s_manager s)\<lparr>m_pid_files := (m_pid_files (s_manager s))(name := None)\<rparr>\<rparr>"
  have i1: "sched_inv ?s1" by (rule same_queue_inv [OF _ i]) (simp add: same_queue_def)
  have "sched_inv (queue_pipe env ev stamp name config s)" "sched_inv (queue_pipe env ev stamp name config ?s1)"
    if "name \<notin> s_queued s" for ev stamp
    using that queue_pipe_inv [OF i] queue_pipe_inv [OF i1] by simp_all
  then show ?thesis using i i1 by (simp add: tick_pipe_def p Let_def split: option.split)
qed

lemma scheduler_tick_inv: "sched_inv s \<Longrightarrow> sched_inv (scheduler_tick env now clock snapshot pending s)"
proof -
  have "sched_inv x \<Longrightarrow> sched_inv (fold (tick_pipe env clock T) ps x)" for ps x T
    by (induction ps arbitrary: x) (simp_all add: tick_pipe_inv)
  moreover assume "sched_inv s"
  ultimately show ?thesis
    using same_queue_inv [OF drain_queue] by (simp add: scheduler_tick_def split: prod.split) (metis fst_conv)
qed

text \<open>One task moves on.\<close>

lemma move_inv:
  assumes i: "sched_inv s" and s: "s_tasks s = xs @ t # ys" and k: "t_id t' = t_id t" "t_name t' = t_name t"
    and p: "in_queue t' = in_queue t \<and> q = s_queued s \<or> in_queue t \<and> \<not> in_queue t' \<and> q = s_queued s - {t_name t}"
    and h: "holds_permit t' = holds_permit t \<and> b = s_permit s \<or> holds_permit t' \<and> \<not> holds_permit t \<and> s_permit s \<and> \<not> b"
    and n: "s_tasks s' = xs @ t' # ys" "s_queued s' = q" "s_permit s' = b" "s_next s' = s_next s"
  shows "sched_inv s'"
proof -
  have d: "distinct (map t_name (filter in_queue xs @ (if in_queue t then [t] else []) @ filter in_queue ys))"
    "s_queued s = set (map t_name (filter in_queue xs @ (if in_queue t then [t] else []) @ filter in_queue ys))"
    "length (filter holds_permit xs) + (if holds_permit t then 1 else 0) + length (filter holds_permit ys)
       = (if s_permit s then 0 else 1)"
    using i unfolding sched_inv_def s by (auto split: if_splits)
  have "distinct (map t_id (xs @ t # ys))" "\<forall>u \<in> set (xs @ t # ys). t_id u < s_next s"
    using i unfolding sched_inv_def s by blast+
  then have 1: "distinct (map t_id (xs @ t' # ys))" "\<forall>u \<in> set (xs @ t' # ys). t_id u < s_next s" using k by auto
  have 2: "distinct (map t_name (filter in_queue (xs @ t' # ys)))" "q = set (map t_name (filter in_queue (xs @ t' # ys)))"
    using d(1,2) p k(2) by (auto split: if_splits)
  have 3: "length (filter holds_permit (xs @ t' # ys)) = (if b then 0 else 1)"
    using d(3) h by (auto split: if_splits)
  show ?thesis unfolding sched_inv_def n using 1 2 3 by blast
qed

lemma starts_inv:
  "sched_inv s \<Longrightarrow> t \<in> set (s_tasks s) \<Longrightarrow> t_phase t = Waiting \<Longrightarrow> t_event t \<or> s_permit s \<Longrightarrow> sched_inv (task_starts env t s)"
proof -
  assume a: "sched_inv s" "t \<in> set (s_tasks s)" "t_phase t = Waiting" "t_event t \<or> s_permit s"
  then obtain xs ys where s: "s_tasks s = xs @ t # ys" "\<forall>u \<in> set xs \<union> set ys. t_id u \<noteq> t_id t"
    using task_split [of "s_tasks s" t] by (auto simp: sched_inv_def)
  obtain e where "s_tasks (task_starts env t s) = xs @ t\<lparr>t_phase := Active e\<rparr> # ys"
    "s_queued (task_starts env t s) = s_queued s" "s_permit (task_starts env t s) = (if t_event t then s_permit s else False)"
    "s_next (task_starts env t s) = s_next s"
    using set_phase_split [OF s(2)] by (simp add: task_starts_def Let_def case_prod_beta s(1))
  then show ?thesis
    by (rule move_inv [OF a(1) s(1), rotated 4]) (use a(3,4) in \<open>auto simp: in_queue_def holds_permit_def\<close>)
qed

lemma finishes_inv:
  "sched_inv s \<Longrightarrow> t \<in> set (s_tasks s) \<Longrightarrow> t_phase t = Active e \<Longrightarrow> sched_inv (task_finishes env t e out s)"
proof -
  assume a: "sched_inv s" "t \<in> set (s_tasks s)" "t_phase t = Active e"
  then obtain xs ys where s: "s_tasks s = xs @ t # ys" "\<forall>u \<in> set xs \<union> set ys. t_id u \<noteq> t_id t"
    using task_split [of "s_tasks s" t] by (auto simp: sched_inv_def)
  have "s_tasks (task_finishes env t e out s) = xs @ t\<lparr>t_phase := Spacing\<rparr> # ys"
    "s_queued (task_finishes env t e out s) = s_queued s - {t_name t}" "s_permit (task_finishes env t e out s) = s_permit s"
    "s_next (task_finishes env t e out s) = s_next s"
    using set_phase_split [OF s(2)] by (simp_all add: task_finishes_def s(1))
  then show ?thesis
    by (rule move_inv [OF a(1) s(1), rotated 4]) (use a(3) in \<open>auto simp: in_queue_def holds_permit_def\<close>)
qed

lemma ends_inv:
  "sched_inv s \<Longrightarrow> t \<in> set (s_tasks s) \<Longrightarrow> t_phase t = Spacing \<Longrightarrow> sched_inv (task_ends t s)"
proof -
  assume a: "sched_inv s" "t \<in> set (s_tasks s)" "t_phase t = Spacing"
  then obtain xs ys where s: "s_tasks s = xs @ t # ys" "\<forall>u \<in> set xs \<union> set ys. t_id u \<noteq> t_id t"
    using task_split [of "s_tasks s" t] by (auto simp: sched_inv_def)
  have q: "\<not> in_queue t" "holds_permit t = (\<not> t_event t)" using a(3) by (simp_all add: in_queue_def holds_permit_def)
  have i: "distinct (map t_id (xs @ t # ys))" "\<forall>u \<in> set (xs @ t # ys). t_id u < s_next s"
    "distinct (map t_name (filter in_queue (xs @ t # ys)))" "s_queued s = set (map t_name (filter in_queue (xs @ t # ys)))"
    "length (filter holds_permit (xs @ t # ys)) = (if s_permit s then 0 else 1)"
    using a(1) unfolding sched_inv_def s(1) by blast+
  have f: "filter (\<lambda>t'. t_id t' \<noteq> t_id t) (s_tasks s) = xs @ ys" using set_phase_split [OF s(2)] s(1) by simp
  have "length (filter holds_permit (xs @ ys)) = (if (if t_event t then s_permit s else True) then 0 else 1)"
    using i(5) q(2) by (auto split: if_splits)
  then show ?thesis using i(1-4) q(1) unfolding sched_inv_def task_ends_def by (simp add: f)
qed

lemma reachable_inv: "sched_reachable env s \<Longrightarrow> sched_inv s"
proof (induction rule: sched_reachable.induct)
  case (init m l)
  then show ?case by (simp add: sched_inv_def fresh_scheduler_def)
next
  case (step s s')
  note i = step.IH
  from step.hyps(2) show ?case
  proof (cases rule: sched_step.cases)
    case (user_start name)
    show ?thesis
      by (rule same_queue_inv [OF _ i]) (auto simp: user_start user_starts_def same_queue_def split: prod.split sum.split)
  next
    case (user_finish u out)
    show ?thesis by (rule same_queue_inv [OF _ i]) (simp add: user_finish user_finishes_def same_queue_def)
  qed (use i in \<open>auto simp: scheduler_tick_inv starts_inv finishes_inv ends_inv same_queue_def intro: same_queue_inv\<close>)
qed

end
