(* ===== verification/PresetProperties.thy ===== *)
theory PresetProperties
  imports PresetFallback
begin

text \<open>
  The properties of the preset breakers: the backoff as a function of the history, the choice of a preset, and
  the recovery at the start of the application.
\<close>

section \<open>Backoff\<close>

datatype breaker_event = Failed failure_reason nat | Succeeded | Checked nat

fun breaker_step :: "breaker_event \<Rightarrow> preset_breaker \<Rightarrow> preset_breaker" where
  "breaker_step (Failed reason now) b = trip reason now b"
| "breaker_step Succeeded b = breaker_success b"
| "breaker_step (Checked now) b = fst (check_recovery now b)"

text \<open>The outcomes of a history, newest first, and the failures since the last five successes in a row.\<close>

fun event_outcome :: "breaker_event \<Rightarrow> bool list" where
  "event_outcome (Failed _ _) = [False]"
| "event_outcome Succeeded = [True]"
| "event_outcome (Checked _) = []"

definition outcomes :: "breaker_event list \<Rightarrow> bool list" where
  "outcomes es = concat (map event_outcome (rev es))"

fun recent_failures :: "bool list \<Rightarrow> nat" where
  "recent_failures [] = 0"
| "recent_failures (ok # h) =
     (if take 5 (ok # h) = [True, True, True, True, True] then 0
      else (if ok then 0 else 1) + recent_failures h)"

definition streak :: "bool list \<Rightarrow> nat" where
  "streak h = length (takeWhile (\<lambda>ok. ok) h)"

lemma outcomes_snoc: "outcomes (es @ [e]) = event_outcome e @ outcomes es"
  by (simp add: outcomes_def)

lemma outcomes_length: "length (outcomes es) \<le> length es"
proof (induction es rule: rev_induct)
  case (snoc e es)
  then show ?case by (cases e) (simp_all add: outcomes_snoc)
qed (simp add: outcomes_def)

lemma five_streak: "take 5 h = [True, True, True, True, True] \<longleftrightarrow> 5 \<le> streak h"
proof
  assume "take 5 h = [True, True, True, True, True]"
  then have "h = [True, True, True, True, True] @ drop 5 h" by (metis append_take_drop_id)
  then have "streak h = length (takeWhile (\<lambda>ok. ok) ([True, True, True, True, True] @ drop 5 h))"
    by (simp add: streak_def)
  then show "5 \<le> streak h" by simp
next
  assume s: "5 \<le> streak h"
  have "take 5 h = replicate 5 True"
  proof (rule nth_equalityI)
    show "length (take 5 h) = length (replicate 5 True)"
      using s length_takeWhile_le [of "\<lambda>ok. ok" h] by (simp add: streak_def)
    show "take 5 h ! i = replicate 5 True ! i" if "i < length (take 5 h)" for i
      using that s takeWhile_nth [of i "\<lambda>ok. ok" h] nth_mem [of i "takeWhile (\<lambda>ok. ok) h"] set_takeWhileD [of _ "\<lambda>ok. ok" h]
      by (auto simp: streak_def)
  qed
  then show "take 5 h = [True, True, True, True, True]" by (simp add: numeral_eq_Suc)
qed

lemma recent_failures_le: "recent_failures h \<le> length h"
  by (induction h rule: recent_failures.induct) auto

lemma breaker_counts:
  "length es < 2 ^ 32 \<Longrightarrow>
     unat (failure_count (fold breaker_step es default_breaker)) = recent_failures (outcomes es)
     \<and> unat (success_streak (fold breaker_step es default_breaker)) = streak (outcomes es)"
proof (induction es rule: rev_induct)
  case Nil
  then show ?case by (simp add: default_breaker_def outcomes_def streak_def)
next
  case (snoc e es)
  let ?b = "fold breaker_step es default_breaker"
  have ih: "unat (failure_count ?b) = recent_failures (outcomes es)" "unat (success_streak ?b) = streak (outcomes es)"
    using snoc by simp_all
  have small: "recent_failures (outcomes es) + 1 < 2 ^ 32" "streak (outcomes es) + 1 < 2 ^ 32"
    using snoc.prems outcomes_length [of es] recent_failures_le [of "outcomes es"]
      length_takeWhile_le [of "\<lambda>ok. ok" "outcomes es"]
    by (simp_all add: streak_def)
  then have inc: "unat (failure_count ?b + 1) = recent_failures (outcomes es) + 1"
    "unat (success_streak ?b + 1) = streak (outcomes es) + 1"
    using ih by (simp_all add: unat_plus_if_size word_size)
  show ?case
  proof (cases e)
    case (Failed r t)
    then show ?thesis using inc
      by (simp add: outcomes_snoc trip_def Let_def streak_def)
  next
    case Succeeded
    have five: "(5 \<le> success_streak ?b + 1) = (5 \<le> streak (True # outcomes es))"
      using inc(2) by (simp add: word_le_nat_alt streak_def)
    show ?thesis using inc ih five five_streak [of "True # outcomes es"] Succeeded
      by (simp add: outcomes_snoc breaker_success_def Let_def streak_def)
  next
    case (Checked t)
    then show ?thesis using ih by (simp add: outcomes_snoc check_recovery_def)
  qed
qed

text \<open>C37: Whatever happened to a preset before, a failure closes it for its base cooldown times two to the number of
  earlier failures since the last five successes in a row (at most sixty-four times), never for longer than
  an hour: the breaker's counters are a function of the history, and asking it changes nothing of them.\<close>

theorem backoff_counts_failures:
  assumes "length es < 2 ^ 32 - 1"
  shows "cooldown_until (fold breaker_step (es @ [Failed reason now]) default_breaker)
      = now + min (base_cooldown reason * 2 ^ min (recent_failures (outcomes es)) 6) 3600
    \<and> (should_skip (fold breaker_step (es @ [Failed reason now]) default_breaker) t
      = (t < now + min (base_cooldown reason * 2 ^ min (recent_failures (outcomes es)) 6) 3600))"
proof -
  let ?b = "fold breaker_step es default_breaker"
  have c: "unat (failure_count ?b) = recent_failures (outcomes es)"
    using breaker_counts [of es] assms by simp
  have "unat (min (failure_count ?b) 6) = min (recent_failures (outcomes es)) 6"
    using c by (auto simp: min_def word_le_nat_alt)
  then show ?thesis by (simp add: trip_def Let_def should_skip_def)
qed

lemma backoff_counts_failures_witness:
  "cooldown_until (fold breaker_step ([Failed Timeout 0, Succeeded, Failed RateLimit 7] @ [Failed ProviderError 100]) default_breaker) = 580"
proof -
  have "recent_failures (outcomes [Failed Timeout 0, Succeeded, Failed RateLimit 7]) = 2" by code_simp
  then show ?thesis using backoff_counts_failures [of "[Failed Timeout 0, Succeeded, Failed RateLimit 7]" ProviderError 100]
    by simp
qed

section \<open>The choice of a preset\<close>

lemma check_recovery_skip: "should_skip (fst (check_recovery now b)) now = should_skip b now"
  by (auto simp: check_recovery_def should_skip_def split: breaker_state.splits)

lemma breaker_of_upd: "breaker_of q (m(p \<mapsto> b)) = (if q = p then b else breaker_of q m)"
  by (simp add: breaker_of_def)

lemma first_available_skip:
  "snd (first_available (\<lambda>_. (now, now)) xs m)
    = map_option (\<lambda>(i, p). (p, i)) (List.find (\<lambda>(i, p). \<not> should_skip (breaker_of p m) now) xs)"
proof (induction xs arbitrary: m)
  case Nil
  then show ?case by simp
next
  case (Cons x xs)
  obtain i p where x: "x = (i, p)" by (cases x)
  let ?m = "m(p \<mapsto> fst (check_recovery now (breaker_of p m)))"
  have "should_skip (breaker_of q ?m) now = should_skip (breaker_of q m) now" for q
    by (simp add: breaker_of_upd check_recovery_skip)
  then show ?case by (simp add: x Let_def Cons.IH check_recovery_skip del: fun_upd_apply)
qed

text \<open>The index the choice falls on, from the documentation of the function.\<close>

definition chosen_index :: "(rstr \<Rightarrow> bool) \<Rightarrow> rstr list \<Rightarrow> nat \<Rightarrow> nat" where
  "chosen_index available presets fl =
     (case List.find (\<lambda>i. available (presets ! i)) [fl..<min MAX_FALLBACK_DEPTH (length presets)] of
        Some i \<Rightarrow> i
      | None \<Rightarrow> fl)"

text \<open>From a list of presets the choice is the first of the first four, at or after the floor, whose breaker is
  not open, and when all of these are open the one at the floor itself, so that a run is never refused for
  its presets; the floor is cut to the last index.\<close>

theorem pick_is_first_available:
  assumes "presets \<noteq> []"
  shows "snd (pick_preset_with_floor (\<lambda>_. (now, now)) presets fl m)
    = (let i = chosen_index (\<lambda>p. \<not> should_skip (breaker_of p m) now) presets (min fl (length presets - 1))
       in Some (presets ! i, i))"
proof -
  let ?f = "min fl (length presets - 1)"
  let ?r = "first_available (\<lambda>_. (now, now)) (drop ?f (take MAX_FALLBACK_DEPTH (List.enumerate 0 presets))) m"
  have "snd ?r = map_option (\<lambda>i. (presets ! i, i)) (List.find (\<lambda>i. \<not> should_skip (breaker_of (presets ! i) m) now)
          [?f..<min MAX_FALLBACK_DEPTH (length presets)])"
    by (simp add: first_available_skip enumerate_drop_take find_map o_def option.map_comp)
  then show ?thesis
    using assms by (auto simp: pick_preset_with_floor_def Let_def chosen_index_def split: prod.splits option.splits)
qed

lemma pick_is_first_available_witness:
  "snd (pick_preset_with_floor (\<lambda>_. (50, 50)) [lit ''a'', lit ''b'', lit ''c''] 0
     [lit ''a'' \<mapsto> trip RateLimit 0 default_breaker]) = Some (lit ''b'', 1)"
proof -
  have "snd (pick_preset_with_floor (\<lambda>_. (50, 50)) [lit ''a'', lit ''b'', lit ''c''] 0
     [lit ''a'' \<mapsto> trip RateLimit 0 default_breaker])
    = (let i = chosen_index (\<lambda>p. \<not> should_skip (breaker_of p [lit ''a'' \<mapsto> trip RateLimit 0 default_breaker]) 50)
         [lit ''a'', lit ''b'', lit ''c''] (min 0 (length [lit ''a'', lit ''b'', lit ''c''] - 1))
       in Some ([lit ''a'', lit ''b'', lit ''c''] ! i, i))"
    by (rule pick_is_first_available) simp
  also have "\<dots> = Some (lit ''b'', 1)" by code_simp
  finally show ?thesis .
qed

section \<open>Recovery\<close>

text \<open>When the application starts, no preset stays closed for longer than a day from then on, and one whose
  cooldown is over is open for a try at once; one that has been closed for more than a day beyond its
  cooldown starts afresh.\<close>

theorem startup_bounds_cooldowns:
  "should_skip (breaker_of preset (recover_on_startup now m)) (now + 86400 + k) = False
   \<and> (if cooldown_until (breaker_of preset m) \<le> now
      then should_skip (breaker_of preset (recover_on_startup now m)) (now + k) = False else True)
   \<and> (if breaker_state (breaker_of preset m) = Open \<and> cooldown_until (breaker_of preset m) + 86400 < now
      then breaker_state (breaker_of preset (recover_on_startup now m)) = Closed
        \<and> failure_count (breaker_of preset (recover_on_startup now m)) = 0 else True)"
  by (auto simp: recover_on_startup_def recover_breaker_def should_skip_def Let_def breaker_of_def default_breaker_def
      split: breaker_state.splits option.split)

end
