(* ===== verification/ScheduleProperties.thy ===== *)
theory ScheduleProperties
  imports PipeSchedule
begin

text \<open>
  The properties of schedules: when a pipe runs and how often, what the texts of durations and times of the day
  mean, and how far back a run is told to look.
\<close>

section \<open>Runs over time\<close>

text \<open>The crate's contract of \<open>after(t).next()\<close>: the first slot strictly after the time.\<close>

definition next_slot :: "('c \<Rightarrow> timestamp \<Rightarrow> timestamp option) \<Rightarrow> ('c \<Rightarrow> timestamp \<Rightarrow> bool) \<Rightarrow> bool" where
  "next_slot cron_after slot \<longleftrightarrow>
     (\<forall>c t. case cron_after c t of
        Some s \<Rightarrow> slot c s \<and> t < s \<and> (\<forall>s'. t < s' \<and> s' < s \<longrightarrow> \<not> slot c s')
      | None \<Rightarrow> \<forall>s' > t. \<not> slot c s')"

lemma next_slot_le: "next_slot cron_after slot \<Longrightarrow>
    (case cron_after c t of Some s \<Rightarrow> s \<le> u | None \<Rightarrow> False) \<longleftrightarrow> (\<exists>s. slot c s \<and> t < s \<and> s \<le> u)"
proof -
  assume n: "next_slot cron_after slot"
  then have "case cron_after c t of
        Some s \<Rightarrow> slot c s \<and> t < s \<and> (\<forall>s'. t < s' \<and> s' < s \<longrightarrow> \<not> slot c s')
      | None \<Rightarrow> \<forall>s' > t. \<not> slot c s'"
    by (simp add: next_slot_def)
  then show ?thesis
  proof (cases "cron_after c t")
    case None
    then show ?thesis using \<open>case cron_after c t of Some s \<Rightarrow> _ s | None \<Rightarrow> _\<close> by auto
  next
    case (Some s)
    then have "slot c s" "t < s" "\<And>s'. t < s' \<Longrightarrow> s' < s \<Longrightarrow> \<not> slot c s'"
      using \<open>case cron_after c t of Some s \<Rightarrow> _ s | None \<Rightarrow> _\<close> by auto
    then show ?thesis using Some by (force simp: not_less)
  qed
qed

text \<open>A cron pipe that ran before is due exactly when a slot has passed since its last run and within
  the last twelve hours; one that never ran, exactly when a slot passed within the last five minutes.\<close>

theorem cron_due_iff_slot_passed:
  assumes "next_slot cron_after slot"
  shows "schedule_due cron_after (Some (Cron c)) last_run now
    = (\<exists>s. slot c s \<and> s \<le> now
         \<and> (if last_run = UNIX_EPOCH then now - minutes 5 < s else last_run < s \<and> now - hours 12 < s))"
  using next_slot_le [OF assms]
  by (auto simp: schedule_due_def cron_should_fire_def Let_def CRON_GRACE_WINDOW_def CRON_CATCHUP_WINDOW_def)

definition every_hour :: "unit \<Rightarrow> timestamp \<Rightarrow> timestamp option" where
  "every_hour c t = Some (hours (t div hours 1 + 1))"

lemma every_hour_next: "next_slot every_hour (\<lambda>_ s. s mod hours 1 = 0)"
proof -
  have gap: "s' mod 3600000000000 \<noteq> (0 :: int)"
    if "t < s'" "s' < (t div 3600000000000 + 1) * 3600000000000" for t s'
  proof
    assume "s' mod 3600000000000 = 0"
    then obtain k where k: "s' = k * 3600000000000" by (metis mod_0_imp_dvd dvd_def mult.commute)
    from that(1) k have "t div 3600000000000 < k" by (simp add: div_less_iff_less_mult)
    with that(2) k show False by simp
  qed
  moreover have "t < (t div 3600000000000 + 1) * 3600000000000" for t :: int
  proof -
    have "t mod 3600000000000 < 3600000000000" by simp
    moreover have "t = t div 3600000000000 * 3600000000000 + t mod 3600000000000" by simp
    ultimately have "t < t div 3600000000000 * 3600000000000 + 3600000000000" by linarith
    then show ?thesis by (simp add: distrib_right)
  qed
  ultimately show ?thesis unfolding next_slot_def every_hour_def hours_def by (simp, intro allI impI, elim conjE) (rule gap, assumption, simp add: distrib_right)
qed

lemma cron_due_iff_slot_passed_witness:
  "schedule_due every_hour (Some (Cron ())) (hours 8 + 1) (hours 9)
   \<and> \<not> schedule_due every_hour (Some (Cron ())) (hours 9) (hours 9 + minutes 59)"
proof -
  have "\<not> (\<exists>s. s mod hours 1 = 0 \<and> s \<le> hours 9 + minutes 59 \<and> hours 9 < s)"
    by (auto simp: hours_def minutes_def)
  moreover have "\<exists>s. s mod hours 1 = 0 \<and> s \<le> hours 9 \<and> hours 8 + 1 < s \<and> hours 9 - hours 12 < s"
    by (rule exI [of _ "hours 9"]) (simp add: hours_def)
  moreover have "hours 8 + 1 \<noteq> UNIX_EPOCH" "hours 9 \<noteq> UNIX_EPOCH" by (simp_all add: hours_def UNIX_EPOCH_def)
  ultimately show ?thesis unfolding cron_due_iff_slot_passed [OF every_hour_next] by auto
qed

text \<open>The runs of one pipe over the ticks of a scheduler that remembers the last one.\<close>

fun run_times ::
  "('c \<Rightarrow> timestamp \<Rightarrow> timestamp option) \<Rightarrow> 'c parsed_schedule option \<Rightarrow> timestamp \<Rightarrow> timestamp list \<Rightarrow> timestamp list" where
  "run_times cron_after p last_run [] = []"
| "run_times cron_after p last_run (t # ts) =
     (if schedule_due cron_after p last_run t then t # run_times cron_after p t ts
      else run_times cron_after p last_run ts)"

text \<open>What a schedule promises of two successive runs.\<close>

definition apart :: "('c \<Rightarrow> timestamp \<Rightarrow> bool) \<Rightarrow> 'c parsed_schedule option \<Rightarrow> timestamp \<Rightarrow> timestamp \<Rightarrow> bool" where
  "apart slot p a b =
     (case p of
        Some (Interval d) \<Rightarrow> a + int d \<le> b
      | Some (Cron c) \<Rightarrow> \<exists>s. slot c s \<and> a < s \<and> s \<le> b
      | Some (Once r) \<Rightarrow> a < r \<and> r \<le> b \<and> b \<le> r + hours 1
      | None \<Rightarrow> False)"

lemma due_apart:
  "next_slot cron_after slot \<Longrightarrow> a \<le> b \<Longrightarrow> a \<noteq> UNIX_EPOCH \<Longrightarrow> schedule_due cron_after p a b \<Longrightarrow> apart slot p a b"
  using next_slot_le [of cron_after slot]
  by (fastforce simp: schedule_due_def apart_def cron_should_fire_def Let_def ONE_OFF_STALE_THRESHOLD_def
      split: option.splits parsed_schedule.splits if_splits)

lemma once_done: "r \<le> l \<Longrightarrow> run_times cron_after (Some (Once r)) l ts = []"
  by (induction ts) (simp_all add: schedule_due_def)

lemma run_times_hd:
  "run_times cron_after p l ts = b # bs \<Longrightarrow> b \<in> set ts \<and> schedule_due cron_after p l b"
  by (induction ts) (auto split: if_splits)

lemma run_times_apart:
  assumes n: "next_slot cron_after slot"
  shows "sorted (l # ts) \<Longrightarrow> 0 < l \<Longrightarrow> successively (apart slot p) (l # run_times cron_after p l ts)"
proof (induction ts arbitrary: l)
  case Nil
  then show ?case by simp
next
  case (Cons t ts)
  show ?case
  proof (cases "schedule_due cron_after p l t")
    case True
    moreover have "successively (apart slot p) (t # run_times cron_after p t ts)" using Cons by simp
    ultimately show ?thesis
      using due_apart [OF n _ _ True] Cons.prems by (simp add: UNIX_EPOCH_def successively_Cons)
  next
    case False
    then show ?thesis using Cons by simp
  qed
qed

text \<open>C20: However the scheduler's ticks fall, an interval pipe runs at most once per interval, between two
  runs of a cron pipe lies a slot of their own, and a one-off runs at most once, within the hour after
  its time; a manual pipe never runs.\<close>

theorem runs_keep_their_distance:
  assumes "next_slot cron_after slot" "sorted (last_run # ts)" "0 \<le> last_run" "list_all (\<lambda>t. 0 < t) ts"
  shows "successively (apart slot p)
      ((if last_run = UNIX_EPOCH then [] else [last_run]) @ run_times cron_after p last_run ts)
    \<and> (case p of Some (Once r) \<Rightarrow> length (run_times cron_after p last_run ts) \<le> 1
       | None \<Rightarrow> run_times cron_after p last_run ts = [] | _ \<Rightarrow> True)"
proof
  show "successively (apart slot p)
      ((if last_run = UNIX_EPOCH then [] else [last_run]) @ run_times cron_after p last_run ts)"
  proof (cases "last_run = UNIX_EPOCH")
    case False
    then show ?thesis using run_times_apart [OF assms(1,2)] assms(3) by (simp add: UNIX_EPOCH_def)
  next
    case True
    have "successively (apart slot p) (run_times cron_after p l ts)"
      if "sorted ts" "list_all (\<lambda>t. 0 < t) ts" for l
      using that
    proof (induction ts arbitrary: l)
      case (Cons t ts)
      then show ?case using run_times_apart [OF assms(1), of t ts p] by simp
    qed simp
    then show ?thesis using True assms(2,4) by simp
  qed
  have "length (run_times cron_after (Some (Once r)) last_run ts) \<le> 1" for r
  proof (induction ts)
    case (Cons t ts)
    then show ?case using once_done [of r t cron_after ts] by (auto simp: schedule_due_def)
  qed simp
  moreover have "run_times cron_after None last_run ts = []" by (induction ts) (simp_all add: schedule_due_def)
  ultimately show "case p of Some (Once r) \<Rightarrow> length (run_times cron_after p last_run ts) \<le> 1
       | None \<Rightarrow> run_times cron_after p last_run ts = [] | _ \<Rightarrow> True"
    by (auto split: option.split parsed_schedule.split)
qed

lemma runs_keep_their_distance_witness:
  "successively (apart (\<lambda>(_ :: unit) s. s mod hours 1 = 0) (Some (Interval (from_secs 1800))))
     (5 # run_times every_hour (Some (Interval (from_secs 1800))) 5 [7, hours 1, hours 2])"
proof -
  have "sorted (5 # [7, hours 1, hours 2])" "list_all (\<lambda>t. 0 < t) [7, hours 1, hours 2]"
    by (simp_all add: hours_def)
  from runs_keep_their_distance [OF every_hour_next this(1) _ this(2), of "Some (Interval (from_secs 1800))"]
  show ?thesis by (simp add: UNIX_EPOCH_def del: run_times.simps)
qed

section \<open>Texts of durations\<close>

definition unit_factor :: "rstr \<Rightarrow> nat option" where
  "unit_factor u =
     (if u \<in> set [lit ''h'', lit ''hr'', lit ''hour'', lit ''hours''] then Some 3600
      else if u \<in> set [lit ''m'', lit ''min'', lit ''mins'', lit ''minutes''] then Some 60
      else if u \<in> set [lit ''s'', lit ''sec''] then Some 1 else None)"

definition UNITS :: "rstr list" where
  "UNITS = [lit ''h'', lit ''hr'', lit ''hour'', lit ''hours'', lit ''m'', lit ''min'', lit ''mins'', lit ''minutes'',
     lit ''s'', lit ''sec'', lit ''minute'', lit ''second'', lit ''seconds'']"

text \<open>What the Unicode function \<open>str::to_lowercase\<close> does on ASCII texts.\<close>

definition lowers_ascii :: "(rstr \<Rightarrow> rstr) \<Rightarrow> bool" where
  "lowers_ascii low \<longleftrightarrow> (\<forall>s. is_ascii s \<longrightarrow> low s = map to_ascii_lowercase s)"

lemma lowers_ascii_map: "lowers_ascii (map to_ascii_lowercase)"
  by (simp add: lowers_ascii_def)

lemma lowers_ascii_keeps:
  "lowers_ascii low \<Longrightarrow> is_ascii s \<Longrightarrow> list_all (\<lambda>c. \<not> is_ascii_uppercase c) s \<Longrightarrow> low s = s"
  by (simp add: lowers_ascii_def map_idI to_ascii_lowercase_def list_all_iff)

lemma is_ascii_append [simp]: "is_ascii (a @ b) \<longleftrightarrow> is_ascii a \<and> is_ascii b"
  by (auto simp: is_ascii_def)

lemma is_ascii_Nil [simp]: "is_ascii []"
  by (simp add: is_ascii_def)

lemma is_ascii_Cons [simp]: "is_ascii (c # s) \<longleftrightarrow> c < 128 \<and> is_ascii s"
  by (auto simp: is_ascii_def)

lemma decimal_plain:
  "is_ascii (decimal n)" "list_all (\<lambda>c. \<not> is_ascii_uppercase c) (decimal n)" "list_all (\<lambda>c. \<not> is_whitespace c) (decimal n)"
  "decimal n \<noteq> []"
  using decimal_digits [of n]
  by (auto simp: is_ascii_def list_all_iff is_ascii_digit_def is_ascii_uppercase_def is_whitespace_def)

lemma decimal_ends: "\<not> is_whitespace (hd (decimal n))" "\<not> is_whitespace (last (decimal n))"
  using decimal_plain(3,4) [of n] by (auto simp: list_all_iff)

lemma trim_spaces:
  "is_ascii s \<Longrightarrow> s \<noteq> [] \<Longrightarrow> \<not> is_whitespace (hd s) \<Longrightarrow> \<not> is_whitespace (last s) \<Longrightarrow> trim (32 # s) = s"
  "is_ascii s \<Longrightarrow> s \<noteq> [] \<Longrightarrow> \<not> is_whitespace (hd s) \<Longrightarrow> \<not> is_whitespace (last s) \<Longrightarrow> trim (s @ [32]) = s"
proof -
  assume a: "is_ascii s" "s \<noteq> []" "\<not> is_whitespace (hd s)" "\<not> is_whitespace (last s)"
  then have d: "dropWhile is_whitespace s = s" "dropWhile is_whitespace (rev s) = rev s"
    "dropWhile is_whitespace (s @ [32]) = s @ [32]"
    by (auto simp: dropWhile_eq_self_iff hd_rev hd_append)
  have w: "is_whitespace 32" by (simp add: is_whitespace_def)
  show "trim (32 # s) = s" "trim (s @ [32]) = s"
    using a(1) by (simp_all add: trim_def d w utf8_ascii)
qed

lemma ends_with_word:
  "32 \<notin> set p \<Longrightarrow> ends_with (ds @ 32 # u) p \<longleftrightarrow> ends_with u p"
proof -
  have "32 \<notin> set q \<Longrightarrow> starts_with (v @ 32 # ds) q \<longleftrightarrow> starts_with v q" for q v ds
    by (induction v q rule: starts_with.induct) (auto, (case_tac ps; simp)?)
  from this [of "rev p" "rev u" "rev ds"] show "32 \<notin> set p \<Longrightarrow> ?thesis" by (simp add: ends_with_def)
qed

lemma ends_with_length: "ends_with u p \<Longrightarrow> length p \<le> length u"
  by (auto simp: ends_with_def starts_with_append dest: arg_cong [where f = length])

lemma strip_suffix_word:
  "32 \<notin> set p \<Longrightarrow> strip_suffix p (ds @ 32 # u) = map_option (\<lambda>r. ds @ 32 # r) (strip_suffix p u)"
  using ends_with_length [of u p] by (auto simp: strip_suffix_def ends_with_word Suc_diff_le)

lemma strip_first_word:
  "list_all (\<lambda>p. 32 \<notin> set p) ps \<Longrightarrow>
     strip_first ps (ds @ 32 # u) = map_option (\<lambda>r. ds @ 32 # r) (strip_first ps u)"
proof -
  have o: "option_or (map_option f a) (map_option f b) = map_option f (option_or a b)" for f :: "rstr \<Rightarrow> rstr" and a b
    by (cases a) auto
  have "list_all (\<lambda>p. 32 \<notin> set p) ps \<Longrightarrow>
      foldl (\<lambda>r p. option_or r (strip_suffix p (ds @ 32 # u))) (map_option (\<lambda>r. ds @ 32 # r) a) ps
      = map_option (\<lambda>r. ds @ 32 # r) (foldl (\<lambda>r p. option_or r (strip_suffix p u)) a ps)" for a
    by (induction ps arbitrary: a) (simp_all add: strip_suffix_word o)
  from this [of None] show "list_all (\<lambda>p. 32 \<notin> set p) ps \<Longrightarrow> ?thesis" by (simp add: strip_first_def)
qed

lemma unit_seconds_word:
  assumes "list_all (\<lambda>p. 32 \<notin> set p) ps" "n < 2 ^ 64"
    and "case strip_first ps u of Some r \<Rightarrow> r = [] \<or> (is_ascii r \<and> \<not> is_whitespace (last r)) | None \<Rightarrow> True"
  shows "unit_seconds ps k (decimal n @ 32 # u)
    = (if strip_first ps u = Some [] then Some (n * k mod 2 ^ 64) else None)"
proof (cases "strip_first ps u")
  case None
  then show ?thesis by (simp add: unit_seconds_def strip_first_word [OF assms(1)])
next
  case (Some r)
  show ?thesis
  proof (cases r)
    case Nil
    have "trim (decimal n @ [32]) = decimal n"
      by (rule trim_spaces(2)) (use decimal_plain decimal_ends in auto)
    then show ?thesis
      using Some Nil assms(2)
      by (simp add: unit_seconds_def strip_first_word [OF assms(1)] parse_u64_def parse_uint_decimal)
  next
    case (Cons c cs)
    have "trim (decimal n @ 32 # r) = decimal n @ 32 # r"
      by (rule trim_ascii) (use assms(3) Some Cons decimal_plain [of n] decimal_ends [of n] in \<open>auto simp: hd_append\<close>)
    moreover have "parse_u64 (decimal n @ 32 # r) = None"
    proof (cases "decimal n")
      case (Cons d ds)
      then show ?thesis using decimal_digits [of n]
        by (auto simp: parse_u64_def parse_uint_def Let_def is_ascii_digit_def)
    qed (use decimal_plain in auto)
    ultimately show ?thesis
      using Some Cons by (simp add: unit_seconds_def strip_first_word [OF assms(1)])
  qed
qed

lemma suffixes_plain:
  "list_all (\<lambda>p. 32 \<notin> set p) HOUR_SUFFIXES" "list_all (\<lambda>p. 32 \<notin> set p) MINUTE_SUFFIXES"
  "list_all (\<lambda>p. 32 \<notin> set p) SECOND_SUFFIXES"
  by code_simp+

lemma units_plain:
  "list_all (\<lambda>u. is_ascii u \<and> u \<noteq> [] \<and> \<not> is_whitespace (last u) \<and> list_all (\<lambda>c. \<not> is_ascii_uppercase c) u
     \<and> list_all (\<lambda>ps. case strip_first ps u of Some r \<Rightarrow> r = [] \<or> (is_ascii r \<and> \<not> is_whitespace (last r)) | None \<Rightarrow> True)
         [HOUR_SUFFIXES, MINUTE_SUFFIXES, SECOND_SUFFIXES]
     \<and> (if strip_first HOUR_SUFFIXES u = Some [] then unit_factor u = Some 3600
        else if strip_first MINUTE_SUFFIXES u = Some [] then unit_factor u = Some 60
        else if strip_first SECOND_SUFFIXES u = Some [] then unit_factor u = Some 1 else unit_factor u = None)) UNITS"
  by code_simp

text \<open>A schedule \<open>every n unit\<close> means \<open>n\<close> of that unit for every spelling but three: of \<open>minute\<close>, \<open>second\<close> and
  \<open>seconds\<close> the parser makes nothing, since it tries the suffix \<open>s\<close> before \<open>seconds\<close> and never the
  singulars, although \<open>hour\<close>, \<open>hours\<close> and \<open>minutes\<close> are understood.\<close>

theorem duration_words:
  assumes "lowers_ascii low" "n < 2 ^ 48" "u \<in> set UNITS"
  shows "parse_duration_str low (lit ''every '' @ decimal n @ 32 # u)
    = map_option (\<lambda>k. from_secs (n * k)) (unit_factor u)"
proof -
  have u: "is_ascii u" "u \<noteq> []" "\<not> is_whitespace (last u)" "list_all (\<lambda>c. \<not> is_ascii_uppercase c) u"
    and c: "case strip_first HOUR_SUFFIXES u of Some r \<Rightarrow> r = [] \<or> (is_ascii r \<and> \<not> is_whitespace (last r)) | None \<Rightarrow> True"
      "case strip_first MINUTE_SUFFIXES u of Some r \<Rightarrow> r = [] \<or> (is_ascii r \<and> \<not> is_whitespace (last r)) | None \<Rightarrow> True"
      "case strip_first SECOND_SUFFIXES u of Some r \<Rightarrow> r = [] \<or> (is_ascii r \<and> \<not> is_whitespace (last r)) | None \<Rightarrow> True"
    and f: "if strip_first HOUR_SUFFIXES u = Some [] then unit_factor u = Some 3600
        else if strip_first MINUTE_SUFFIXES u = Some [] then unit_factor u = Some 60
        else if strip_first SECOND_SUFFIXES u = Some [] then unit_factor u = Some 1 else unit_factor u = None"
    using units_plain assms(3) by (auto simp: list_all_iff)
  let ?x = "decimal n @ 32 # u"
  have e: "lit ''every '' = lit ''every'' @ [32]" "is_ascii (lit ''every'')" "lit ''every'' \<noteq> []"
    "\<not> is_whitespace (hd (lit ''every''))" "list_all (\<lambda>c. \<not> is_ascii_uppercase c) (lit ''every'')" by code_simp+
  have t: "trim (lit ''every '' @ ?x) = lit ''every '' @ ?x"
    by (rule trim_ascii) (use e u decimal_plain in auto)
  have l: "low (lit ''every '' @ ?x) = lit ''every '' @ ?x"
    by (rule lowers_ascii_keeps [OF assms(1)]) (use e u decimal_plain in \<open>auto simp: is_ascii_uppercase_def\<close>)
  have p: "strip_prefix (lit ''every'') (lit ''every '' @ ?x) = Some (32 # ?x)"
    using e(1) by (auto simp: strip_prefix_def starts_with_append)
  have x: "trim (32 # ?x) = ?x"
    by (rule trim_spaces(1)) (use u decimal_plain [of n] decimal_ends [of n] in \<open>auto simp: hd_append\<close>)
  have n: "n < 2 ^ 64" "n * 3600 mod 2 ^ 64 = n * 3600" "n * 60 mod 2 ^ 64 = n * 60" "n * 1 mod 2 ^ 64 = n * 1"
    using assms(2) by auto
  show ?thesis
    unfolding parse_duration_str_def t l without_every_def p option.case x Let_def
      unit_seconds_word [OF suffixes_plain(1) n(1) c(1)] unit_seconds_word [OF suffixes_plain(2) n(1) c(2)]
      unit_seconds_word [OF suffixes_plain(3) n(1) c(3)] n
    using f by (auto split: if_splits)
qed

lemma duration_words_witness:
  "parse_duration_str (map to_ascii_lowercase) (lit ''every '' @ decimal 30 @ 32 # lit ''seconds'') = None
   \<and> parse_duration_str (map to_ascii_lowercase) (lit ''every '' @ decimal 30 @ 32 # lit ''sec'') = Some 30000000000"
proof -
  have "lit ''seconds'' \<in> set UNITS" "lit ''sec'' \<in> set UNITS" "unit_factor (lit ''seconds'') = None"
    "unit_factor (lit ''sec'') = Some 1" by code_simp+
  moreover have "(30 :: nat) < 2 ^ 48" by simp
  ultimately show ?thesis using duration_words [OF lowers_ascii_map, of 30] by (simp add: from_secs_def)
qed

text \<open>A pipe on the schedule \<open>daily\<close> runs once in twenty-four hours but is told to look at the last hour only,
  since the look-back parses the text as a duration and \<open>daily\<close> is none; an hourly text gets its hour and
  \<open>every 24h\<close>, the same interval, the full eight hours of the cap.\<close>

theorem daily_looks_back_one_hour:
  "parse_schedule (map to_ascii_lowercase) rfc3339 cron_from (lit ''daily'') = Some (Interval (from_secs 86400))
   \<and> parse_schedule (map to_ascii_lowercase) rfc3339 cron_from (lit ''every 24h'') = Some (Interval (from_secs 86400))
   \<and> lookback_duration (map to_ascii_lowercase) (lit ''daily'') = from_secs 3600
   \<and> lookback_duration (map to_ascii_lowercase) (lit ''every 24h'') = from_secs (8 * 3600)"
proof -
  have "trim (lit ''daily'') = lit ''daily''" "trim (lit ''every 24h'') = lit ''every 24h''"
    "\<not> eq_ignore_ascii_case (lit ''daily'') (lit ''manual'')" "\<not> eq_ignore_ascii_case (lit ''every 24h'') (lit ''manual'')"
    "option_or (strip_prefix (lit ''at '') (lit ''daily'')) (strip_prefix (lit ''AT '') (lit ''daily'')) = None"
    "option_or (strip_prefix (lit ''at '') (lit ''every 24h'')) (strip_prefix (lit ''AT '') (lit ''every 24h'')) = None"
    "eq_ignore_ascii_case (lit ''daily'') (lit ''daily'')" "\<not> eq_ignore_ascii_case (lit ''every 24h'') (lit ''daily'')"
    "\<not> eq_ignore_ascii_case (lit ''every 24h'') (lit ''weekly'')" "\<not> eq_ignore_ascii_case (lit ''every 24h'') (lit ''every week'')"
    "parse_duration_str (map to_ascii_lowercase) (lit ''every 24h'') = Some (from_secs 86400)"
    by code_simp+
  moreover have "lookback_duration (map to_ascii_lowercase) (lit ''daily'') = from_secs 3600"
    "lookback_duration (map to_ascii_lowercase) (lit ''every 24h'') = from_secs (8 * 3600)" by code_simp+
  ultimately show ?thesis by (simp add: parse_schedule_def)
qed

section \<open>Times of the day\<close>

text \<open>An hour of the day as the menu of the app writes it.\<close>

definition clock12 :: "nat \<Rightarrow> rstr" where
  "clock12 h = (if h = 0 then lit ''12am'' else if h < 12 then decimal h @ lit ''am''
     else if h = 12 then lit ''12pm'' else decimal (h - 12) @ lit ''pm'')"

definition clock12_reads :: "nat \<Rightarrow> bool" where
  "clock12_reads h \<longleftrightarrow> parse_time_str (map to_ascii_lowercase) (clock12 h) = Some h
     \<and> is_ascii (clock12 h) \<and> list_all (\<lambda>c. \<not> is_ascii_uppercase c \<and> \<not> is_whitespace c) (clock12 h)
     \<and> clock12 h \<noteq> []"

lemma clock12_hours: "list_all clock12_reads [0..<24]"
  by code_simp

lemma weekday_words:
  "list_all (\<lambda>(day, fields). is_ascii day \<and> day \<noteq> []
      \<and> list_all (\<lambda>c. \<not> is_ascii_uppercase c \<and> \<not> is_whitespace c) day
      \<and> map_of WEEKDAY_FIELDS day = Some fields) WEEKDAY_FIELDS"
  by code_simp

lemma find_at: "32 \<notin> set day \<Longrightarrow> find_str (day @ lit '' at '' @ x) (lit '' at '') = Some (length day)"
proof (induction day)
  case Nil
  then show ?case by (simp add: lit_def)
next
  case (Cons c day)
  then show ?case by (simp add: lit_def)
qed

lemma trim_word:
  "is_ascii s \<Longrightarrow> s \<noteq> [] \<Longrightarrow> list_all (\<lambda>c. \<not> is_ascii_uppercase c \<and> \<not> is_whitespace c) s \<Longrightarrow> trim s = s"
  by (rule trim_ascii) (auto simp: list_all_iff)

lemma parse_time_low:
  assumes "lowers_ascii low" "is_ascii s" "s \<noteq> []" "list_all (\<lambda>c. \<not> is_ascii_uppercase c \<and> \<not> is_whitespace c) s"
  shows "parse_time_str low s = parse_time_str (map to_ascii_lowercase) s"
proof -
  have "list_all (\<lambda>c. \<not> is_ascii_uppercase c) s" using assms(4) by (simp add: list_all_iff)
  then have "low s = s" "map to_ascii_lowercase s = s"
    using lowers_ascii_keeps [OF assms(1,2)] lowers_ascii_keeps [OF lowers_ascii_map assms(2)] by auto
  then show ?thesis unfolding parse_time_str_def trim_word [OF assms(2-4)] by simp
qed

text \<open>Every choice of the schedule menu means what it says: \<open>every\<close>, a day word and one of the twenty-four
  hours on the twelve-hour clock give the cron expression with this hour of the local day, midnight and noon included.\<close>

theorem menu_schedules:
  assumes "lowers_ascii low" "h < 24" "(day, fields) \<in> set WEEKDAY_FIELDS"
  shows "parse_human_schedule low cron_from (lit ''every '' @ day @ lit '' at '' @ clock12 h)
    = cron_from (lit ''0 0 '' @ decimal h @ fields)"
proof -
  have c: "parse_time_str (map to_ascii_lowercase) (clock12 h) = Some h" "is_ascii (clock12 h)" "clock12 h \<noteq> []"
    "list_all (\<lambda>c. \<not> is_ascii_uppercase c \<and> \<not> is_whitespace c) (clock12 h)"
    using clock12_hours assms(2) by (auto simp: list_all_iff clock12_reads_def)
  have d: "is_ascii day" "day \<noteq> []" "list_all (\<lambda>c. \<not> is_ascii_uppercase c \<and> \<not> is_whitespace c) day"
    "map_of WEEKDAY_FIELDS day = Some fields"
    using weekday_words assms(3) by (auto simp: list_all_iff)
  have e: "lit ''every '' = lit ''every'' @ [32]" "is_ascii (lit ''every'')" "is_ascii (lit '' at '')"
    "list_all (\<lambda>c. \<not> is_ascii_uppercase c) (lit ''every'')" "list_all (\<lambda>c. \<not> is_ascii_uppercase c) (lit '' at '')"
    "length (lit '' at '') = 4" by code_simp+
  let ?x = "day @ lit '' at '' @ clock12 h"
  have l: "low (lit ''every '' @ ?x) = lit ''every '' @ ?x"
    by (rule lowers_ascii_keeps [OF assms(1)]) (use c d e in \<open>auto simp: is_ascii_uppercase_def list_all_iff\<close>)
  have p: "strip_prefix (lit ''every'') (lit ''every '' @ ?x) = Some (32 # ?x)"
    using e(1) by (auto simp: strip_prefix_def starts_with_append)
  have t: "trim (32 # ?x) = ?x"
    by (rule trim_spaces(1)) (use c d e in \<open>auto simp: list_all_iff hd_append last_append\<close>)
  have n: "32 \<notin> set day" using d(3) by (auto simp: list_all_iff is_whitespace_def)
  show ?thesis
    unfolding parse_human_schedule_def l without_every_def p option.case t Let_def find_at [OF n]
    using trim_word [OF c(2-4)] trim_word [OF d(1-3)] parse_time_low [OF assms(1) c(2-4)] c(1) d(4) e(6) by simp
qed

lemma menu_schedules_witness:
  "parse_human_schedule (map to_ascii_lowercase) Some (lit ''every '' @ lit ''monday'' @ lit '' at '' @ clock12 18)
     = Some (lit ''0 0 '' @ decimal 18 @ lit '' * * 1 *'')"
  by (rule menu_schedules [OF lowers_ascii_map]) (simp, code_simp)

section \<open>One-off schedules\<close>

text \<open>A one-off that may be enabled will run: if the check at enabling passes, then the first tick at or after
  both the time of the one-off and the check, and no later than an hour after the former, finds it due; if
  it fails, no later tick ever does.\<close>

theorem fresh_one_offs_run:
  assumes "parse_schedule low rfc3339 cron_from s = Some (Once r)" "last_run < r" "now \<le> t"
  shows "if validate_one_off_freshness low rfc3339 cron_from s now = Inr ()
    then should_run low rfc3339 cron_from cron_after s last_run (max now r)
      \<and> (r \<le> t \<and> t \<le> r + hours 1) = should_run low rfc3339 cron_from cron_after s last_run t
    else \<not> should_run low rfc3339 cron_from cron_after s last_run t"
  using assms
  by (auto simp: validate_one_off_freshness_def should_run_def schedule_due_def Let_def ONE_OFF_STALE_THRESHOLD_def
      hours_def)

lemma fresh_one_offs_run_witness:
  "should_run (map to_ascii_lowercase) (\<lambda>_. Some (hours 10)) (Map.empty :: rstr \<rightharpoonup> unit) every_hour (lit ''at ten'') 0 (hours 10)
   \<and> \<not> should_run (map to_ascii_lowercase) (\<lambda>_. Some (hours 10)) (Map.empty :: rstr \<rightharpoonup> unit) every_hour (lit ''at ten'') 0 (hours 12)"
proof -
  have t: "trim (lit ''at ten'') = lit ''at ten''" "\<not> eq_ignore_ascii_case (lit ''at ten'') (lit ''manual'')"
    "strip_prefix (lit ''at '') (lit ''at ten'') = Some (lit ''ten'')" by code_simp+
  have p: "parse_schedule (map to_ascii_lowercase) (\<lambda>_. Some (hours 10)) (Map.empty :: rstr \<rightharpoonup> unit) (lit ''at ten'') = Some (Once (hours 10))"
    by (simp add: parse_schedule_def Let_def t)
  have v: "validate_one_off_freshness (map to_ascii_lowercase) (\<lambda>_. Some (hours 10)) (Map.empty :: rstr \<rightharpoonup> unit) (lit ''at ten'') (hours 9) = Inr ()"
    unfolding validate_one_off_freshness_def p by (simp add: hours_def ONE_OFF_STALE_THRESHOLD_def)
  have h: "0 < hours 10" "hours 9 \<le> hours 12" "max (hours 9) (hours 10) = hours 10" "\<not> hours 12 \<le> hours 10 + hours 1"
    by (simp_all add: hours_def)
  show ?thesis using fresh_one_offs_run [OF p h(1,2), of every_hour] v h(3,4) by simp
qed

end
