(* ===== verification/PipeRunProperties.thy ===== *)
theory PipeRunProperties
  imports PipeRun PresetProperties ScheduleProperties
begin

text \<open>
  The properties of the runs of pipes: what a run leaves behind, which presets it tries, and what happens when
  a run is stopped before it is over.
\<close>

section \<open>What the steps of a run change\<close>

lemmas run_steps = begin_execution_def start_agent_def setup_pipe_permissions_def cleanup_pipe_token_def
  release_pipe_def finish_rows_def update_breaker_def append_log_def

lemma release_claims:
  "m_running (release_pipe name m) = (m_running m)(name := None)"
  "m_exec_ids (release_pipe name m) = (m_exec_ids m)(name := None)"
  "m_pid_files (release_pipe name m) = (m_pid_files m)(name := None)"
  by (simp_all add: release_pipe_def)

lemma later_steps_keep [simp]:
  "m_running (finish_rows env name e out m) = m_running m" "m_exec_ids (finish_rows env name e out m) = m_exec_ids m"
  "m_pid_files (finish_rows env name e out m) = m_pid_files m" "m_breakers (finish_rows env name e out m) = m_breakers m"
  "m_pipes (finish_rows env name e out m) = m_pipes m" "m_tokens (finish_rows env name e out m) = m_tokens m"
  "m_logs (finish_rows env name e out m) = m_logs m"
  "m_running (update_breaker env d a out m) = m_running m" "m_exec_ids (update_breaker env d a out m) = m_exec_ids m"
  "m_pid_files (update_breaker env d a out m) = m_pid_files m" "m_pipes (update_breaker env d a out m) = m_pipes m"
  "m_tokens (update_breaker env d a out m) = m_tokens m" "m_logs (update_breaker env d a out m) = m_logs m"
  "m_db (update_breaker env d a out m) = m_db m"
  "m_running (cleanup_pipe_token env t m) = m_running m" "m_exec_ids (cleanup_pipe_token env t m) = m_exec_ids m"
  "m_pid_files (cleanup_pipe_token env t m) = m_pid_files m" "m_pipes (cleanup_pipe_token env t m) = m_pipes m"
  "m_logs (cleanup_pipe_token env t m) = m_logs m" "m_breakers (cleanup_pipe_token env t m) = m_breakers m"
  "m_db (cleanup_pipe_token env t m) = m_db m"
  "m_running (append_log name lg m) = m_running m" "m_exec_ids (append_log name lg m) = m_exec_ids m"
  "m_pid_files (append_log name lg m) = m_pid_files m" "m_pipes (append_log name lg m) = m_pipes m"
  "m_breakers (append_log name lg m) = m_breakers m" "m_tokens (append_log name lg m) = m_tokens m"
  "m_db (append_log name lg m) = m_db m"
  by (auto simp: run_steps Let_def split: option.splits prod.splits run_outcome.splits)

lemma release_keeps [simp]:
  "m_pipes (release_pipe name m) = m_pipes m" "m_breakers (release_pipe name m) = m_breakers m"
  "m_tokens (release_pipe name m) = m_tokens m" "m_logs (release_pipe name m) = m_logs m"
  "m_db (release_pipe name m) = m_db m"
  by (simp_all add: release_pipe_def)

lemma begin_keeps:
  assumes "begin_execution env d name trigger r m = (m', e)"
  shows "m_running m' = m_running m" "m_pid_files m' = m_pid_files m" "m_pipes m' = m_pipes m"
    "m_breakers m' = m_breakers m" "m_tokens m' = m_tokens m" "m_logs m' = m_logs m"
    "\<And>n. n \<noteq> name \<Longrightarrow> m_exec_ids m' n = m_exec_ids m n"
  using assms by (auto simp: begin_execution_def Let_def split: option.splits if_splits)

lemma start_keeps:
  assumes "start_agent env d name config m = (m', t)"
  shows "m_running m' = m_running m" "m_pid_files m' = m_pid_files m" "m_pipes m' = m_pipes m"
    "m_breakers m' = m_breakers m" "m_logs m' = m_logs m" "m_exec_ids m' = m_exec_ids m" "m_db m' = m_db m"
  using assms by (auto simp: start_agent_def setup_pipe_permissions_def Let_def split: if_splits)

lemma start_cleanup_tokens:
  assumes "start_agent env d name config m = (m', t)" "m_tokens m'' = m_tokens m'"
  shows "m_tokens (cleanup_pipe_token env t m'') \<subseteq>\<^sub>m m_tokens m"
  using assms
  by (auto simp: start_agent_def setup_pipe_permissions_def cleanup_pipe_token_def Let_def map_le_def
      register_token_def remove_token_def split: if_splits)

lemma choose_keeps:
  assumes "choose_preset env d config m = (m', r)"
  shows "m_running m' = m_running m" "m_pid_files m' = m_pid_files m" "m_pipes m' = m_pipes m"
    "m_exec_ids m' = m_exec_ids m" "m_tokens m' = m_tokens m" "m_logs m' = m_logs m" "m_db m' = m_db m"
  using assms by (auto simp: choose_preset_def split: if_splits option.splits prod.splits)

lemma claim_ok:
  assumes "claim_pipe env name m = (m', Inr config)"
  shows "m_running m name = None" "m_pipes m name = Some config" "m_running m' = (m_running m)(name \<mapsto> 0)"
    "m_pid_files m' = (m_pid_files m)(name \<mapsto> 0)" "m_pipes m' = m_pipes m" "m_exec_ids m' = m_exec_ids m"
    "m_breakers m' = m_breakers m" "m_tokens m' = m_tokens m" "m_logs m' = m_logs m" "m_db m' = m_db m"
  using assms by (auto simp: claim_pipe_def Let_def split: option.splits if_splits)

text \<open>An attempt that gives a log.\<close>

lemma attempt_done:
  assumes "run_attempt env name trigger d m = (m', Inr (lg, config, active))"
  shows "m_running m' = m_running m" "m_running m name = None" "m_exec_ids m' = (m_exec_ids m)(name := None)"
    "m_pid_files m' = (m_pid_files m)(name := None)" "m_pipes m' = m_pipes m" "m_tokens m' \<subseteq>\<^sub>m m_tokens m"
    "m_logs m' = m_logs m" "m_pipes m name = Some config"
proof -
  obtain m1 m2 r m3 e m4 t where s: "claim_pipe env name m = (m1, Inr config)"
    "choose_preset env d config m1 = (m2, Inr (r, active))" "begin_execution env d name trigger r m2 = (m3, e)"
    "start_agent env d name config m3 = (m4, t)"
    "m' = cleanup_pipe_token env t (update_breaker env d active (agent_run env d r)
        (finish_rows env name e (agent_run env d r) (release_pipe name m4)))"
    using assms by (auto simp: run_attempt_def Let_def split: prod.splits sum.splits)
  note c = claim_ok [OF s(1)] choose_keeps [OF s(2)] begin_keeps [OF s(3)] start_keeps [OF s(4)]
  show "m_running m' = m_running m" "m_running m name = None" "m_pid_files m' = (m_pid_files m)(name := None)"
    "m_pipes m' = m_pipes m" "m_logs m' = m_logs m" "m_pipes m name = Some config"
    using c by (auto simp: s(5) release_claims)
  show "m_exec_ids m' = (m_exec_ids m)(name := None)" using c by (auto simp: s(5) release_claims fun_eq_iff)
  show "m_tokens m' \<subseteq>\<^sub>m m_tokens m"
    using start_cleanup_tokens [OF s(4)] c by (simp add: s(5))
qed

lemma attempt_unknown:
  assumes "run_attempt env name trigger d m = (m', Inl (PresetNotFound p))"
  shows "m_running m' name = Some 0" "m_pid_files m' name = Some 0" "m_pipes m' = m_pipes m"
proof -
  obtain m1 config where s: "claim_pipe env name m = (m1, Inr config)"
    "choose_preset env d config m1 = (m', Inl (PresetNotFound p))"
    using assms by (auto simp: run_attempt_def claim_pipe_def Let_def split: prod.splits sum.splits option.splits if_splits)
  show "m_running m' name = Some 0" "m_pid_files m' name = Some 0" "m_pipes m' = m_pipes m"
    using claim_ok [OF s(1)] choose_keeps [OF s(2)] by auto
qed

section \<open>A sample world\<close>

definition sample_preset :: "string \<Rightarrow> stored_preset" where
  "sample_preset p = \<lparr>sp_id = Some (lit p), sp_model = Some (lit p), sp_provider = None, sp_url = None,
     sp_api_key = None, sp_prompt = None, sp_default = False\<rparr>"

definition sample_env :: "string list \<Rightarrow> run_outcome \<Rightarrow> run_env" where
  "sample_env ps outcome =
     \<lparr>env_low = map to_ascii_lowercase, env_up = map to_ascii_uppercase, executors = [lit ''pi'' \<mapsto> True],
      process_exists = (\<lambda>_. False), kill_works = (\<lambda>_. True), ai_presets = map sample_preset ps, oauth_token = None,
      has_store = True, new_execution = (\<lambda>k. Some (int k)), has_registry = True,
      new_token = (\<lambda>k. lit ''sp_pipe_'' @ decimal k), pipe_path = (\<lambda>n. n), agent_run = (\<lambda>_ _. outcome),
      breaker_clock = (\<lambda>_ _. (0, 0)), failure_clock = (\<lambda>_. 0)\<rparr>"

definition sample_config :: "string list \<Rightarrow> pipe_config" where
  "sample_config ps = \<lparr>pc_enabled = True, pc_schedule = lit ''every 1h'', pc_agent = lit ''pi'', pc_model = lit ''haiku'',
     pc_provider = None, pc_preset = map lit ps, pc_connections = [], pc_permissions = Preset (lit ''none''),
     pc_privacy = False, pc_trigger = None\<rparr>"

definition sample_manager :: "string list \<Rightarrow> manager" where
  "sample_manager ps = \<lparr>m_pipes = [lit ''brief'' \<mapsto> sample_config ps], m_running = Map.empty, m_exec_ids = Map.empty,
     m_pid_files = Map.empty, m_breakers = Map.empty, m_tokens = Map.empty, m_logs = (\<lambda>_. []), m_db = []\<rparr>"

section \<open>What a run leaves behind\<close>

lemma run_inner_cases:
  assumes "run_pipe_inner env name trigger d m = (m', r)"
  obtains (stopped) e where "run_attempt env name trigger d m = (m', Inl e)" "r = Inl e"
  | (retried) lg config p i m1 where "run_attempt env name trigger d m = (m1, Inr (lg, config, Some (p, i)))"
      "\<not> log_success lg" "i + 1 < min (length (pc_preset config)) MAX_FALLBACK_DEPTH"
      "run_pipe_inner env name trigger (i + 1) (append_log name lg m1) = (m', r)"
  | (ended) lg config active m1 where "run_attempt env name trigger d m = (m1, Inr (lg, config, active))"
      "m' = append_log name lg m1" "r = Inr lg"
  using assms
  by (subst (asm) run_pipe_inner.simps) (auto split: prod.splits sum.splits option.splits if_splits)

lemma run_inner_released:
  "run_pipe_inner env name trigger d m = (m', Inr lg) \<Longrightarrow>
     m_running m' = m_running m \<and> m_running m name = None \<and> m_exec_ids m' = (m_exec_ids m)(name := None)
     \<and> m_pid_files m' = (m_pid_files m)(name := None) \<and> m_tokens m' \<subseteq>\<^sub>m m_tokens m"
proof (induction env name trigger d m rule: run_pipe_inner.induct)
  case (1 env name trigger d m)
  from 1(2) show ?case
  proof (cases rule: run_inner_cases)
    case (retried lg' config p i m1)
    from 1(1) [OF retried(1) [symmetric] refl refl refl refl refl _ retried(4)] retried(2,3)
    show ?thesis using attempt_done [OF retried(1)] map_le_trans by fastforce
  next
    case (ended lg' config active m1)
    then show ?thesis using attempt_done [OF ended(1)] by simp
  qed simp
qed

lemma run_inner_unknown:
  "run_pipe_inner env name trigger d m = (m', Inl (PresetNotFound p)) \<Longrightarrow>
     m_running m' name = Some 0 \<and> m_pid_files m' name = Some 0"
proof (induction env name trigger d m rule: run_pipe_inner.induct)
  case (1 env name trigger d m)
  from 1(2) show ?case
  proof (cases rule: run_inner_cases)
    case (stopped e)
    then show ?thesis using attempt_unknown [of env name trigger d m m' p] by simp
  next
    case (retried lg' config q i m1)
    from 1(1) [OF retried(1) [symmetric] refl refl refl refl refl _ retried(4)] retried(2,3)
    show ?thesis by simp
  qed simp
qed

text \<open>A run that gives a log, after however many retries, leaves no claim: the pipe is not running, it has no
  execution and no PID file, other pipes are as before, and no token of the run is still registered.\<close>

theorem finished_runs_release:
  assumes "run_pipe env name m = (m', Inr lg)"
  shows "m_running m' = m_running m \<and> m_running m' name = None
    \<and> m_exec_ids m' = (m_exec_ids m)(name := None) \<and> m_pid_files m' = (m_pid_files m)(name := None)
    \<and> m_tokens m' \<subseteq>\<^sub>m m_tokens m"
  using run_inner_released [of env name Manual 0 m m' lg] assms by (simp add: run_pipe_def)

lemma finished_runs_release_witness:
  "\<exists>m' lg. run_pipe (sample_env [''a'', ''b''] RunTimeout) (lit ''brief'') (sample_manager [''a'', ''b'']) = (m', Inr lg)
     \<and> m_running m' (lit ''brief'') = None"
proof -
  let ?r = "run_pipe (sample_env [''a'', ''b''] RunTimeout) (lit ''brief'') (sample_manager [''a'', ''b''])"
  have "case snd ?r of Inr _ \<Rightarrow> True | Inl _ \<Rightarrow> False" by code_simp
  then obtain m' lg where r: "?r = (m', Inr lg)" by (cases ?r) (auto split: sum.splits)
  show ?thesis using r finished_runs_release [OF r] by blast
qed

text \<open>A run whose preset is missing in the settings fails and keeps its claim: the pipe counts as running from then
  on, so that every later run is refused, whether from the command line or in the background, in every environment and
  also when the settings have been repaired.\<close>

theorem unknown_preset_locks_pipe:
  assumes "run_pipe env name m = (m', Inl (PresetNotFound p))"
  shows "m_running m' name = Some 0
    \<and> fst (run_pipe env' name m') = m'
    \<and> snd (run_pipe env' name m') \<in> Inl ` {PipeNotFound, AgentNotAvailable, AgentNotInstalled, AlreadyRunning}
    \<and> fst (start_pipe_background env' k name m') = m'
    \<and> snd (start_pipe_background env' k name m')
        \<in> Inl ` {PipeNotFound, AgentNotAvailable, AgentNotInstalled, AlreadyRunning}"
proof -
  have r: "m_running m' name = Some 0"
    using run_inner_unknown [of env name Manual 0 m m' p] assms by (simp add: run_pipe_def)
  have c: "fst (claim_pipe env' name m') = m'"
    "snd (claim_pipe env' name m') \<in> Inl ` {PipeNotFound, AgentNotAvailable, AgentNotInstalled, AlreadyRunning}"
    using r by (auto simp: claim_pipe_def split: option.split)
  then obtain e where e: "claim_pipe env' name m' = (m', Inl e)" "e \<in> {PipeNotFound, AgentNotAvailable, AgentNotInstalled, AlreadyRunning}"
    by (cases "claim_pipe env' name m'") auto
  have "run_pipe env' name m' = (m', Inl e)"
    by (simp add: run_pipe_def run_pipe_inner.simps run_attempt_def e(1))
  moreover have "start_pipe_background env' k name m' = (m', Inl e)"
    by (simp add: start_pipe_background_def e(1))
  ultimately show ?thesis using r e(2) by simp
qed

lemma unknown_preset_locks_pipe_witness:
  "\<exists>m'. fst (run_pipe (sample_env [''a''] RunTimeout) (lit ''brief'') (sample_manager [''b''])) = m'
     \<and> m_running m' (lit ''brief'') = Some 0
     \<and> fst (run_pipe (sample_env [''a'', ''b''] RunTimeout) (lit ''brief'') m') = m'"
proof -
  let ?r = "run_pipe (sample_env [''a''] RunTimeout) (lit ''brief'') (sample_manager [''b''])"
  have "case snd ?r of Inl (PresetNotFound p) \<Rightarrow> p = lit ''b'' | _ \<Rightarrow> False" by code_simp
  then obtain m' where r: "?r = (m', Inl (PresetNotFound (lit ''b'')))"
    by (cases ?r) (auto split: sum.splits pipe_error.splits)
  show ?thesis using r unknown_preset_locks_pipe [OF r, of "sample_env [''a'', ''b''] RunTimeout"] by simp
qed

section \<open>Which presets a run tries\<close>

text \<open>The last fifty logs.\<close>

definition last_fifty :: "'a list \<Rightarrow> 'a list" where
  "last_fifty xs = drop (length xs - 50) xs"

lemma append_log_fifty:
  "length (m_logs m name) \<le> 50 \<Longrightarrow> m_logs (append_log name lg m) name = last_fifty (m_logs m name @ [lg])"
  by (cases "length (m_logs m name) = 50"; cases "m_logs m name")
    (simp_all add: append_log_def last_fifty_def Let_def drop_Suc)

lemma last_fifty_append: "last_fifty (last_fifty xs @ ys) = last_fifty (xs @ ys)"
proof -
  have "length xs + length ys - (length xs - 50 + 50) + (length xs - 50) = length xs + length ys - 50" by arith
  then show ?thesis by (auto simp: last_fifty_def)
qed

lemma last_fifty_length [simp]: "length (last_fifty xs) \<le> 50"
  by (simp add: last_fifty_def)

lemma run_inner_logs:
  "run_pipe_inner env name trigger d m = (m', Inr lg) \<Longrightarrow> d < MAX_FALLBACK_DEPTH \<Longrightarrow> length (m_logs m name) \<le> 50 \<Longrightarrow>
     \<exists>failed. length failed + d < MAX_FALLBACK_DEPTH \<and> list_all (\<lambda>l. \<not> log_success l) failed
       \<and> m_logs m' name = last_fifty (m_logs m name @ failed @ [lg])"
proof (induction env name trigger d m rule: run_pipe_inner.induct)
  case (1 env name trigger d m)
  from 1(2) show ?case
  proof (cases rule: run_inner_cases)
    case (retried lg' config p i m1)
    have l: "m_logs (append_log name lg' m1) name = last_fifty (m_logs m name @ [lg'])"
      using attempt_done(7) [OF retried(1)] append_log_fifty [of m1 name lg'] 1(4) by simp
    have i: "d \<le> i" using attempt_index [OF retried(1)] retried(3) by (auto simp: min_def split: if_splits)
    from 1(1) [OF retried(1) [symmetric] refl refl refl refl refl _ retried(4)] retried(2,3)
    obtain failed where f: "length failed + (i + 1) < MAX_FALLBACK_DEPTH" "list_all (\<lambda>l. \<not> log_success l) failed"
      "m_logs m' name = last_fifty (last_fifty (m_logs m name @ [lg']) @ failed @ [lg])"
      unfolding l by auto
    show ?thesis
      using f i retried(2) by (intro exI [of _ "lg' # failed"]) (simp add: last_fifty_append)
  next
    case (ended lg' config active m1)
    show ?thesis
      using ended attempt_done(7) [OF ended(1)] append_log_fifty [of m1 name lg'] 1(3,4)
      by (intro exI [of _ "[]"]) simp
  qed simp
qed

definition executions :: "db_call list \<Rightarrow> (rstr \<times> run_trigger \<times> rstr) list" where
  "executions db = List.map_filter (\<lambda>c. case c of CreateExecution n t m _ \<Rightarrow> Some (n, t, m) | _ \<Rightarrow> None) db"

lemma executions_append [simp]: "executions (a @ b) = executions a @ executions b"
  by (simp add: executions_def map_filter_def)

lemma executions_one [simp]:
  "executions [] = []" "executions (CreateExecution n t mo pr # db) = (n, t, mo) # executions db"
  "executions (SetRunning e pid # db) = executions db" "executions (FinishExecution e st er # db) = executions db"
  "executions (UpsertScheduler n ok # db) = executions db"
  by (simp_all add: executions_def map_filter_simps)

lemma finish_executions [simp]: "executions (m_db (finish_rows env name e out m)) = executions (m_db m)"
  by (auto simp: finish_rows_def Let_def split: prod.split option.split)

lemma begin_executions:
  "begin_execution env d name trigger r m = (m', e) \<Longrightarrow> has_store env \<Longrightarrow>
     executions (m_db m') = executions (m_db m) @ [(name, trigger, res_model r)]"
  by (auto simp: begin_execution_def Let_def split: option.splits)

text \<open>What is assumed of the world around a run that tries everything: the agent is there, no claim stands in the
  way, all presets resolve, all runs fail.\<close>

definition all_fail :: "run_env \<Rightarrow> rstr \<Rightarrow> pipe_config \<Rightarrow> manager \<Rightarrow> bool" where
  "all_fail env name config m \<longleftrightarrow>
     m_pipes m name = Some config \<and> executors env (pc_agent config) = Some True \<and> m_running m name = None
     \<and> m_pid_files m name = None \<and> has_store env
     \<and> list_all (\<lambda>p. preset_named env p \<noteq> None) (pc_preset config)
     \<and> (\<forall>d r. \<not> log_success (outcome_log (agent_run env d r)))"

lemma default_never_skipped: "should_skip (fst (check_recovery t default_breaker)) t' = False"
  by (simp add: check_recovery_def should_skip_def default_breaker_def)

lemma attempt_at_floor:
  assumes a: "all_fail env name config m" and d: "d < length (pc_preset config)" "d < MAX_FALLBACK_DEPTH"
    and b: "breaker_of (pc_preset config ! d) (m_breakers m) = default_breaker"
  obtains m1 lg where
    "run_attempt env name trigger d m = (m1, Inr (lg, config, Some (pc_preset config ! d, d)))"
    "\<not> log_success lg"
    "executions (m_db m1) = executions (m_db m)
       @ [(name, trigger, res_model (the (preset_named env (pc_preset config ! d))))]"
    "\<forall>q. q \<noteq> pc_preset config ! d \<longrightarrow> breaker_of q (m_breakers m1) = breaker_of q (m_breakers m)"
proof -
  let ?p = "pc_preset config ! d"
  have ne: "pc_preset config \<noteq> []" and f: "min d (length (pc_preset config) - Suc 0) = d" using d by auto
  have "[d..<min MAX_FALLBACK_DEPTH (length (pc_preset config))]
      = d # [Suc d..<min MAX_FALLBACK_DEPTH (length (pc_preset config))]"
    using d by (simp add: upt_conv_Cons)
  then have pk: "pick_preset_with_floor (breaker_clock env d) (pc_preset config) d (m_breakers m)
      = ((m_breakers m)(?p \<mapsto> fst (check_recovery (fst (breaker_clock env d d)) default_breaker)), Some (?p, d))"
    using ne by (simp add: pick_preset_with_floor_def f enumerate_drop_take b default_never_skipped Let_def)
  obtain r where r: "preset_named env ?p = Some r" using a d(1) by (auto simp: all_fail_def list_all_length)
  obtain m1 where c: "claim_pipe env name m = (m1, Inr config)"
    using a by (simp add: claim_pipe_def all_fail_def Let_def)
  note c' = claim_ok [OF c]
  obtain m2 where ch: "choose_preset env d config m1 = (m2, Inr (r, Some (?p, d)))"
    and m2: "m2 = m1\<lparr>m_breakers := (m_breakers m)(?p \<mapsto> fst (check_recovery (fst (breaker_clock env d d)) default_breaker))\<rparr>"
    using ne by (simp add: choose_preset_def pk r c'(7))
  obtain m3 e where be: "begin_execution env d name trigger r m2 = (m3, e)" by fastforce
  obtain m4 t where st: "start_agent env d name config m3 = (m4, t)" by fastforce
  let ?out = "agent_run env d r"
  let ?m5 = "finish_rows env name e ?out (release_pipe name m4)"
  let ?m6 = "cleanup_pipe_token env t (update_breaker env d (Some (?p, d)) ?out ?m5)"
  have run: "run_attempt env name trigger d m = (?m6, Inr (outcome_log ?out, config, Some (?p, d)))"
    by (simp add: run_attempt_def c ch be st Let_def)
  show thesis
  proof (rule that [OF run])
    show "\<not> log_success (outcome_log ?out)" using a by (simp add: all_fail_def)
    show "executions (m_db ?m6) = executions (m_db m) @ [(name, trigger, res_model (the (preset_named env ?p)))]"
      using begin_executions [OF be] a start_keeps(7) [OF st] c'(10) choose_keeps(7) [OF ch] r by (simp add: all_fail_def)
    show "\<forall>q. q \<noteq> ?p \<longrightarrow> breaker_of q (m_breakers ?m6) = breaker_of q (m_breakers m)"
      using begin_keeps(4) [OF be] start_keeps(4) [OF st] c'(7)
      by (auto simp: update_breaker_def m2 breaker_of_def record_success_def record_failure_from_output_def
          split: run_outcome.split option.split)
  qed
qed

lemma all_fail_kept:
  "all_fail env name config m \<Longrightarrow> run_attempt env name trigger d m = (m1, Inr (lg, config', active)) \<Longrightarrow>
     all_fail env name config (append_log name lg m1)"
  using attempt_done [of env name trigger d m m1 lg config' active] by (simp add: all_fail_def)

lemma run_inner_tries_all:
  "all_fail env name config m \<Longrightarrow> distinct (pc_preset config) \<Longrightarrow>
     d < min (length (pc_preset config)) MAX_FALLBACK_DEPTH \<Longrightarrow>
     \<forall>j. d \<le> j \<and> j < length (pc_preset config) \<longrightarrow> breaker_of (pc_preset config ! j) (m_breakers m) = default_breaker \<Longrightarrow>
     \<exists>m' lg. run_pipe_inner env name trigger d m = (m', Inr lg) \<and> \<not> log_success lg
       \<and> executions (m_db m') = executions (m_db m)
           @ map (\<lambda>p. (name, trigger, res_model (the (preset_named env p)))) (drop d (take MAX_FALLBACK_DEPTH (pc_preset config)))"
proof (induction "MAX_FALLBACK_DEPTH - d" arbitrary: d m)
  case 0
  then show ?case by simp
next
  case (Suc n)
  let ?ps = "pc_preset config"
  have d: "d < length ?ps" "d < MAX_FALLBACK_DEPTH" using Suc.prems(3) by auto
  obtain m1 lg where a: "run_attempt env name trigger d m = (m1, Inr (lg, config, Some (?ps ! d, d)))" "\<not> log_success lg"
    "executions (m_db m1) = executions (m_db m) @ [(name, trigger, res_model (the (preset_named env (?ps ! d))))]"
    "\<forall>q. q \<noteq> ?ps ! d \<longrightarrow> breaker_of q (m_breakers m1) = breaker_of q (m_breakers m)"
    using attempt_at_floor [OF Suc.prems(1) d] Suc.prems(4) d(1) by blast
  let ?m2 = "append_log name lg m1"
  have t: "drop d (take MAX_FALLBACK_DEPTH ?ps) = ?ps ! d # drop (d + 1) (take MAX_FALLBACK_DEPTH ?ps)"
    using d by (simp add: Cons_nth_drop_Suc [symmetric])
  show ?case
  proof (cases "d + 1 < min (length ?ps) MAX_FALLBACK_DEPTH")
    case True
    have "\<forall>j. d + 1 \<le> j \<and> j < length ?ps \<longrightarrow> breaker_of (?ps ! j) (m_breakers ?m2) = default_breaker"
      using a(4) Suc.prems(2,4) d(1) by (auto simp: nth_eq_iff_index_eq)
    moreover have "n = MAX_FALLBACK_DEPTH - (d + 1)" using Suc.hyps(2) by simp
    ultimately obtain m' lg' where "run_pipe_inner env name trigger (d + 1) ?m2 = (m', Inr lg')" "\<not> log_success lg'"
      "executions (m_db m') = executions (m_db ?m2)
         @ map (\<lambda>p. (name, trigger, res_model (the (preset_named env p)))) (drop (d + 1) (take MAX_FALLBACK_DEPTH ?ps))"
      using Suc.hyps(1) [of "d + 1" ?m2] all_fail_kept [OF Suc.prems(1) a(1)] Suc.prems(2) True by auto
    then show ?thesis using a True by (subst run_pipe_inner.simps) (simp add: t)
  next
    case False
    then have "drop (d + 1) (take MAX_FALLBACK_DEPTH ?ps) = []" by auto
    then show ?thesis using a False by (subst run_pipe_inner.simps) (simp add: t del: min_less_iff_conj)
  qed
qed

text \<open>A run ends after at most four attempts: it appends the logs of its failed attempts and then the log it returns
  to the pipe's history of fifty.\<close>

theorem runs_end_after_four_attempts:
  assumes "run_pipe env name m = (m', Inr lg)" "length (m_logs m name) \<le> 50"
  shows "\<exists>failed. length failed \<le> 3 \<and> list_all (\<lambda>l. \<not> log_success l) failed
    \<and> m_logs m' name = last_fifty (m_logs m name @ failed @ [lg])"
proof -
  have "(0 :: nat) < MAX_FALLBACK_DEPTH" by (simp add: MAX_FALLBACK_DEPTH_def)
  from run_inner_logs [OF assms(1) [unfolded run_pipe_def] this assms(2)] show ?thesis
    by (auto simp: MAX_FALLBACK_DEPTH_def less_Suc_eq_le numeral_eq_Suc)
qed


lemma sample_all_fail:
  "all_fail (sample_env [''a'', ''b''] RunTimeout) (lit ''brief'') (sample_config [''a'', ''b'']) (sample_manager [''a'', ''b''])"
proof -
  have "list_all (\<lambda>p. preset_named (sample_env [''a'', ''b''] RunTimeout) p \<noteq> None) (map lit [''a'', ''b''])" by code_simp
  then show ?thesis by (simp add: all_fail_def sample_env_def sample_manager_def sample_config_def outcome_log_def)
qed


lemma runs_end_after_four_attempts_witness:
  "\<exists>m' lg failed. run_pipe (sample_env [''a'', ''b''] RunTimeout) (lit ''brief'') (sample_manager [''a'', ''b'']) = (m', Inr lg)
     \<and> length failed \<le> 3 \<and> m_logs m' (lit ''brief'') = last_fifty (failed @ [lg])"
proof -
  let ?r = "run_pipe (sample_env [''a'', ''b''] RunTimeout) (lit ''brief'') (sample_manager [''a'', ''b''])"
  have "case snd ?r of Inr _ \<Rightarrow> True | Inl _ \<Rightarrow> False" by code_simp
  then obtain m' lg where r: "?r = (m', Inr lg)" by (cases ?r) (auto split: sum.splits)
  have "m_logs (sample_manager [''a'', ''b'']) (lit ''brief'') = []" by (simp add: sample_manager_def)
  then show ?thesis using r runs_end_after_four_attempts [OF r] by auto
qed

section \<open>Runs in the background\<close>

lemma background_start:
  assumes "m_pipes m name = Some config" "executors env (pc_agent config) = Some True" "m_running m name = None"
    and "case m_pid_files m name of Some pid \<Rightarrow> pid = 0 | None \<Rightarrow> True"
  obtains m' e t where "start_pipe_background env k name m = (m', Inr (e, t))" "m_running m' name = Some 0"
    "m_pid_files m' name = Some 0" "m_pipes m' = m_pipes m"
proof -
  obtain m1 where c: "claim_pipe env name m = (m1, Inr config)"
    using assms by (auto simp: claim_pipe_def is_process_alive_def Let_def split: option.splits)
  obtain m2 e where b: "begin_execution env k name Manual (first_preset env config) m1 = (m2, e)" by fastforce
  obtain m3 t where s: "start_agent env k name config m2 = (m3, t)" by fastforce
  have "start_pipe_background env k name m = (m3, Inr (e, t))"
    by (simp add: start_pipe_background_def c b s)
  then show thesis using claim_ok [OF c] begin_keeps [OF b] start_keeps [OF s] by (intro that [of m3 e t]) auto
qed

lemma background_started:
  assumes "start_pipe_background env k name m = (m', Inr (e, t))"
  obtains config m1 m2 where "claim_pipe env name m = (m1, Inr config)" "executors env (pc_agent config) = Some True"
    "begin_execution env k name Manual (first_preset env config) m1 = (m2, e)" "start_agent env k name config m2 = (m', t)"
proof -
  obtain m1 r where c: "claim_pipe env name m = (m1, r)" by fastforce
  obtain config where r: "r = Inr config" using assms c by (cases r) (auto simp: start_pipe_background_def)
  have x: "executors env (pc_agent config) = Some True"
    using c r by (auto simp: claim_pipe_def Let_def split: option.splits if_splits)
  obtain m2 e' where b: "begin_execution env k name Manual (first_preset env config) m1 = (m2, e')" by fastforce
  obtain m3 t' where s: "start_agent env k name config m2 = (m3, t')" by fastforce
  show thesis using assms that [of m1 config m2] x c r b s by (simp add: start_pipe_background_def)
qed

text \<open>The application's runs know one preset only: a run in the background uses the first of the
  list, or the pipe's own model when the settings do not have it, whatever the breakers say, and neither its start nor
  its end, however it fails, changes a breaker.\<close>

theorem background_runs_ignore_breakers:
  assumes "start_pipe_background env k name m = (m1, Inr (e, t))" "m_pipes m name = Some config" "has_store env"
  shows "executions (m_db m1) = executions (m_db m) @ [(name, Manual, res_model (first_preset env config))]
    \<and> m_breakers m1 = m_breakers m
    \<and> m_breakers (background_done env name e t out m2) = m_breakers m2"
  using assms(1)
proof (rule background_started)
  fix config' m0 m3
  assume s: "claim_pipe env name m = (m0, Inr config')"
    "begin_execution env k name Manual (first_preset env config') m0 = (m3, e)" "start_agent env k name config' m3 = (m1, t)"
  have "config' = config" using claim_ok(2) [OF s(1)] assms(2) by simp
  then show ?thesis
    using claim_ok [OF s(1)] begin_keeps [OF s(2)] begin_executions [OF s(2) assms(3)] start_keeps [OF s(3)]
    by (simp add: background_done_def)
qed

lemma sample_start:
  "\<exists>m1 e t. start_pipe_background (sample_env [''a''] RunTimeout) 0 (lit ''brief'') (sample_manager [''a'', ''b'']) = (m1, Inr (e, t))"
proof -
  let ?r = "start_pipe_background (sample_env [''a''] RunTimeout) 0 (lit ''brief'') (sample_manager [''a'', ''b''])"
  have "case snd ?r of Inr _ \<Rightarrow> True | Inl _ \<Rightarrow> False" by code_simp
  then show ?thesis by (cases ?r) (auto split: sum.splits)
qed

lemma background_runs_ignore_breakers_witness:
  "\<exists>m1 e t. start_pipe_background (sample_env [''a''] RunTimeout) 0 (lit ''brief'') (sample_manager [''a'', ''b'']) = (m1, Inr (e, t))
     \<and> m_breakers (background_done (sample_env [''a''] RunTimeout) (lit ''brief'') e t RunTimeout m1) = Map.empty"
proof -
  obtain m1 e t where s: "start_pipe_background (sample_env [''a''] RunTimeout) 0 (lit ''brief'') (sample_manager [''a'', ''b'']) = (m1, Inr (e, t))"
    using sample_start by blast
  have "m_pipes (sample_manager [''a'', ''b'']) (lit ''brief'') = Some (sample_config [''a'', ''b''])"
    "has_store (sample_env [''a''] RunTimeout)" "m_breakers (sample_manager [''a'', ''b'']) = Map.empty"
    by (simp_all add: sample_manager_def sample_env_def)
  then show ?thesis using s background_runs_ignore_breakers [OF s, of _ RunTimeout m1] by simp
qed

text \<open>Stopping a run only forgets it. When a run that has no process of its own yet is stopped and the pipe is started
  again, the end of the first run gives back the claim of the second, and a third start is accepted while the second still
  runs.\<close>

theorem stopped_run_frees_next_claim:
  assumes "start_pipe_background env k name m = (m1, Inr (e, t))"
  shows "case start_pipe_background env k' name (fst (stop_pipe env name m1)) of
      (m2, Inr _) \<Rightarrow>
        (case snd (start_pipe_background env k'' name (background_done env name e t out m2)) of
           Inr _ \<Rightarrow> m_running m2 name = Some 0 | Inl _ \<Rightarrow> False)
    | _ \<Rightarrow> False"
  using assms
proof (rule background_started)
  fix config m0 m3
  assume s: "claim_pipe env name m = (m0, Inr config)" "executors env (pc_agent config) = Some True"
    "begin_execution env k name Manual (first_preset env config) m0 = (m3, e)" "start_agent env k name config m3 = (m1, t)"
  have m1: "m_running m1 name = Some 0" "m_pid_files m1 name = Some 0" "m_pipes m1 name = Some config"
    using claim_ok [OF s(1)] begin_keeps [OF s(3)] start_keeps [OF s(4)] by auto
  have st: "m_pipes (fst (stop_pipe env name m1)) = m_pipes m1" "m_running (fst (stop_pipe env name m1)) name = None"
    "m_pid_files (fst (stop_pipe env name m1)) = m_pid_files m1"
    by (auto simp: stop_pipe_def Let_def split: option.split)
  have f: "m_pipes (fst (stop_pipe env name m1)) name = Some config"
    "case m_pid_files (fst (stop_pipe env name m1)) name of Some pid \<Rightarrow> pid = 0 | None \<Rightarrow> True"
    using m1 st by simp_all
  obtain m2 e2 t2 where s2: "start_pipe_background env k' name (fst (stop_pipe env name m1)) = (m2, Inr (e2, t2))"
    "m_running m2 name = Some 0" "m_pid_files m2 name = Some 0" "m_pipes m2 = m_pipes (fst (stop_pipe env name m1))"
    by (rule background_start [OF f(1) s(2) st(2) f(2)])
  let ?m = "background_done env name e t out m2"
  have d: "m_pipes ?m name = Some config" "m_running ?m name = None"
    "case m_pid_files ?m name of Some pid \<Rightarrow> pid = 0 | None \<Rightarrow> True"
    using s2(4) f(1) by (simp_all add: background_done_def release_claims)
  obtain m4 e4 t4 where "start_pipe_background env k'' name ?m = (m4, Inr (e4, t4))"
    by (rule background_start [OF d(1) s(2) d(2,3)])
  then show ?thesis by (simp add: s2(1,2))
qed

lemma stopped_run_frees_next_claim_witness:
  "\<exists>m1 e t m2 x y. start_pipe_background (sample_env [''a''] RunTimeout) 0 (lit ''brief'') (sample_manager [''a'', ''b'']) = (m1, Inr (e, t))
     \<and> start_pipe_background (sample_env [''a''] RunTimeout) 1 (lit ''brief'') (fst (stop_pipe (sample_env [''a''] RunTimeout) (lit ''brief'') m1)) = (m2, Inr x)
     \<and> snd (start_pipe_background (sample_env [''a''] RunTimeout) 2 (lit ''brief'')
          (background_done (sample_env [''a''] RunTimeout) (lit ''brief'') e t RunTimeout m2)) = Inr y"
proof -
  obtain m1 e t where s: "start_pipe_background (sample_env [''a''] RunTimeout) 0 (lit ''brief'') (sample_manager [''a'', ''b'']) = (m1, Inr (e, t))"
    using sample_start by blast
  show ?thesis using s stopped_run_frees_next_claim [OF s, where k' = 1 and k'' = 2 and out = RunTimeout] by (fastforce split: prod.splits sum.splits)
qed

end
