(* ===== verification/SchedulerProperties.thy ===== *)
theory SchedulerProperties
  imports PipeScheduler PipeRunProperties
begin

text \<open>
  The properties of the scheduler of pipes: its queue, what events do to it, and what happens when the user
  starts pipes beside it.
\<close>

section \<open>The queue\<close>

text \<open>C12: In every state the scheduler can get into, however ticks, tasks, the user's runs and stops interleave, the queued names are
  those of the tasks that wait or run, each of them once, and at most one scheduled task runs or keeps
  the permit after its run; only tasks of events run beside it.\<close>

theorem scheduled_runs_one_at_a_time:
  assumes "sched_reachable env s"
  shows "s_queued s = set (map t_name (filter in_queue (s_tasks s)))
    \<and> distinct (map t_name (filter in_queue (s_tasks s)))
    \<and> length (filter holds_permit (s_tasks s)) = (if s_permit s then 0 else 1)"
  using reachable_inv [OF assms] unfolding sched_inv_def by blast

section \<open>A sample scheduler\<close>

definition sample_sched_env :: "unit sched_env" where
  "sample_sched_env =
     \<lparr>se_run = sample_env [''a''] RunTimeout, se_rfc3339 = Map.empty, se_cron_from = Map.empty,
      se_cron_after = (\<lambda>_ _. None), se_missing = None, se_override_works = True\<rparr>"

definition sample_snapshot :: "(rstr \<times> pipe_config) list" where
  "sample_snapshot = [(lit ''brief'', sample_config [''a''])]"

definition sample_queued :: scheduler where
  "sample_queued = scheduler_tick sample_sched_env 0 (\<lambda>_. (hours 5, hours 5)) sample_snapshot []
     (fresh_scheduler (sample_manager [''a'']) Map.empty)"

lemma sample_reachable: "sched_reachable sample_sched_env sample_queued"
proof -
  have "distinct (map fst sample_snapshot)" by (simp add: sample_snapshot_def)
  from sched_reachable.step [OF sched_reachable.init sched_step.tick [OF this]] show ?thesis
    unfolding sample_queued_def .
qed

lemma scheduled_runs_one_at_a_time_witness:
  "s_queued sample_queued = {lit ''brief''} \<and> length (filter holds_permit (s_tasks sample_queued)) = 0"
proof -
  have "map t_name (filter in_queue (s_tasks sample_queued)) = [lit ''brief'']" "s_permit sample_queued" by code_simp+
  then show ?thesis using scheduled_runs_one_at_a_time [OF sample_reachable] by simp
qed

section \<open>Runs of the user beside the scheduler\<close>

text \<open>Nothing keeps a pipe from running twice at once: while its scheduled run waits in the queue the user can start
  it, and when the permit is free the scheduled run starts beside the user's; when either ends, the pipe
  counts as not running although the other goes on.\<close>

theorem queued_pipe_runs_twice:
  assumes "t \<in> set (s_tasks s)" "t_phase t = Waiting" "m_pipes (s_manager s) (t_name t) = Some config"
    and "executors env (pc_agent config) = Some True" "m_running (s_manager s) (t_name t) = None"
    and "m_pid_files (s_manager s) (t_name t) = None"
  shows "\<exists>u e. u \<in> set (s_user_runs (user_starts env (t_name t) s)) \<and> u_name u = t_name t
    \<and> t \<in> set (s_tasks (user_starts env (t_name t) s))
    \<and> t\<lparr>t_phase := Active e\<rparr> \<in> set (s_tasks (task_starts env t (user_starts env (t_name t) s)))
    \<and> u \<in> set (s_user_runs (task_starts env t (user_starts env (t_name t) s)))
    \<and> m_running (s_manager (user_finishes env u out (task_starts env t (user_starts env (t_name t) s)))) (t_name t) = None"
proof -
  have p: "case m_pid_files (s_manager s) (t_name t) of Some pid \<Rightarrow> pid = 0 | None \<Rightarrow> True" using assms(6) by simp
  obtain m e tok where b: "start_pipe_background env (s_next s) (t_name t) (s_manager s) = (m, Inr (e, tok))"
    by (rule background_start [OF assms(3,4,5) p])
  let ?u = "\<lparr>u_name = t_name t, u_exec = e, u_token = tok\<rparr>"
  let ?s1 = "user_starts env (t_name t) s"
  have s1: "s_tasks ?s1 = s_tasks s" "s_user_runs ?s1 = s_user_runs s @ [?u]" by (simp_all add: user_starts_def b)
  obtain e' where s2: "s_tasks (task_starts env t ?s1) = set_phase (t_id t) (Active e') (s_tasks s)"
    "s_user_runs (task_starts env t ?s1) = s_user_runs s @ [?u]"
    by (simp add: task_starts_def Let_def case_prod_beta s1)
  have "t\<lparr>t_phase := Active e'\<rparr> \<in> set (set_phase (t_id t) (Active e') (s_tasks s))"
    using assms(1) by (force simp: set_phase_def)
  moreover have "m_running (s_manager (user_finishes env ?u out x)) (t_name t) = None" for x
    by (simp add: user_finishes_def background_done_def release_claims)
  ultimately show ?thesis using s1 s2 assms(1) by (intro exI [of _ ?u] exI [of _ e']) simp
qed

lemma queued_pipe_runs_twice_witness:
  "\<exists>t (u :: user_run) e. t \<in> set (s_tasks sample_queued) \<and> u_name u = t_name t
     \<and> t\<lparr>t_phase := Active e\<rparr> \<in> set (s_tasks (task_starts (se_run sample_sched_env) t
          (user_starts (se_run sample_sched_env) (t_name t) sample_queued)))"
proof -
  have "length (s_tasks sample_queued) = 1" by code_simp
  then obtain t where t: "s_tasks sample_queued = [t]" by (cases "s_tasks sample_queued") auto
  have "t_name (hd (s_tasks sample_queued)) = lit ''brief''" "t_phase (hd (s_tasks sample_queued)) = Waiting"
    "m_running (s_manager sample_queued) (lit ''brief'') = None" "m_pid_files (s_manager sample_queued) (lit ''brief'') = None"
    by code_simp+
  moreover have "m_pipes (s_manager sample_queued) (lit ''brief'') = Some (sample_config [''a''])"
    "executors (se_run sample_sched_env) (pc_agent (sample_config [''a''])) = Some True" by code_simp+
  ultimately obtain u :: user_run and e where "u_name u = t_name t" "t\<lparr>t_phase := Active e\<rparr> \<in> set (s_tasks (task_starts (se_run sample_sched_env) t
      (user_starts (se_run sample_sched_env) (t_name t) sample_queued)))"
    using queued_pipe_runs_twice [of t sample_queued "sample_config [''a'']" "se_run sample_sched_env" RunTimeout] by (auto simp: t)
  then show ?thesis by (intro exI [of _ t] exI [of _ u] exI [of _ e]) (simp add: t)
qed

section \<open>Events\<close>

text \<open>An event for a pipe that waits in the queue starts nothing and makes the scheduler forget the pipe's last
  run: the event is lost, and once the queued run is over a pipe on an interval, however long, is
  queued again at the next tick.\<close>

theorem event_while_queued_reruns:
  assumes "name \<in> s_queued s" "m_running (s_manager s) name = None" "pc_enabled config"
    and "pc_trigger config = Some events" "event \<in> set events" "strip_prefix COMPLETED event = None"
    and "s_last_run s2 name = None" "name \<notin> s_queued s2" "m_pid_files (s_manager s2) name = None"
    and "setup_mode env config = False" "executors (se_run env) (pc_agent config) = Some True"
    and "parse_schedule (env_low (se_run env)) (se_rfc3339 env) (se_cron_from env) (pc_schedule config) = Some (Interval d)"
    and "int d \<le> fst (clock2 name)"
  shows "s_tasks (scheduler_tick env now clock [(name, config)] [event] s) = s_tasks s
    \<and> s_last_run (scheduler_tick env now clock [(name, config)] [event] s) name = None
    \<and> name \<in> s_queued (scheduler_tick env now2 clock2 [(name, config)] [] s2)"
proof -
  have n: "event \<noteq> COMPLETED @ name"
    using assms(6) by (auto simp: strip_prefix_def starts_with_append split: if_splits)
  let ?s1 = "(expire_chain now s)\<lparr>s_last_run := (s_last_run (expire_chain now s))(name := None)\<rparr>"
  have e: "s_manager (expire_chain k x) = s_manager x" "s_tasks (expire_chain k x) = s_tasks x"
    "s_queued (expire_chain k x) = s_queued x" for k x
    by (simp_all add: expire_chain_def)
  have d: "drain_events now [(name, config)] [event] s = (?s1, {name})"
    using n assms(2-6) by (simp add: drain_events_def event_for_pipe_def chain_link_def e)
  have 1: "scheduler_tick env now clock [(name, config)] [event] s = ?s1"
    unfolding scheduler_tick_def d using assms(1,3) by (simp add: tick_pipe_def e)
  have l: "s_last_run (expire_chain now2 s2) name = None" "m_pid_files (s_manager (expire_chain now2 s2)) name = None"
    using assms(7,9) by (simp_all add: expire_chain_def)
  have due: "pipe_due env (fst (clock2 name)) name config (expire_chain now2 s2)"
    using assms(12,13) l by (simp add: pipe_due_def should_run_def schedule_due_def UNIX_EPOCH_def)
  have 2: "scheduler_tick env now2 clock2 [(name, config)] [] s2
      = queue_pipe env False (snd (clock2 name)) name config (expire_chain now2 s2)"
    using assms(3,8,10,11) l due by (simp add: scheduler_tick_def drain_events_def tick_pipe_def e Let_def)
  show ?thesis unfolding 1 2 by (simp add: e queue_pipe_def Let_def case_prod_beta)
qed

definition listening_config :: "string list \<Rightarrow> pipe_config" where
  "listening_config events = (sample_config [''a''])\<lparr>pc_trigger := Some (map lit events)\<rparr>"

lemma event_while_queued_reruns_witness:
  "s_last_run (scheduler_tick sample_sched_env 0 (\<lambda>_. (hours 5, hours 5)) [(lit ''brief'', listening_config [''meeting_ended''])]
      [lit ''meeting_ended''] sample_queued) (lit ''brief'') = None
   \<and> lit ''brief'' \<in> s_queued (scheduler_tick sample_sched_env 0 (\<lambda>_. (hours 5 + 1, hours 5 + 1))
      [(lit ''brief'', listening_config [''meeting_ended''])] [] (fresh_scheduler (sample_manager [''a'']) Map.empty))"
proof -
  let ?c = "listening_config [''meeting_ended'']" and ?f = "fresh_scheduler (sample_manager [''a'']) Map.empty"
  have a: "lit ''brief'' \<in> s_queued sample_queued" by code_simp
  have b: "m_running (s_manager sample_queued) (lit ''brief'') = None" by code_simp
  have c: "pc_enabled ?c" "pc_trigger ?c = Some [lit ''meeting_ended'']" "lit ''meeting_ended'' \<in> set [lit ''meeting_ended'']"
    by (simp_all add: listening_config_def sample_config_def)
  have d: "strip_prefix COMPLETED (lit ''meeting_ended'') = None" by code_simp
  have f: "s_last_run ?f (lit ''brief'') = None" "lit ''brief'' \<notin> s_queued ?f" "m_pid_files (s_manager ?f) (lit ''brief'') = None"
    by (simp_all add: fresh_scheduler_def sample_manager_def)
  have g: "setup_mode sample_sched_env ?c = False" "executors (se_run sample_sched_env) (pc_agent ?c) = Some True"
    by code_simp+
  have h: "parse_schedule (env_low (se_run sample_sched_env)) (se_rfc3339 sample_sched_env) (se_cron_from sample_sched_env) (pc_schedule ?c)
      = Some (Interval (from_secs 3600))" by code_simp
  have i: "int (from_secs 3600) \<le> fst ((\<lambda>_ :: rstr. (hours 5 + 1, hours 5 + 1)) (lit ''brief''))" by (simp add: from_secs_def hours_def)
  show ?thesis
    using event_while_queued_reruns [OF a b c d f g h i] by blast
qed

text \<open>Two pipes that trigger each other do not run for ever: when the completion of the first has triggered
  the second, the completion of the second triggers nothing of the first within the next minute,
  whatever else happened in between.\<close>

theorem mutual_triggers_suppressed:
  assumes "a \<noteq> b" "pc_enabled cb" "pc_trigger cb = Some events" "COMPLETED @ a \<in> set events"
    and "s_chain s (chain_key b a) = None" "t2 - t1 < from_secs 60"
    and "s_chain s' = s_chain (fst (drain_events t1 [(a, ca), (b, cb)] [COMPLETED @ a] s))"
  shows "snd (drain_events t2 [(a, ca), (b, cb)] [COMPLETED @ b] s') = {}"
proof -
  have p: "strip_prefix COMPLETED (COMPLETED @ x) = Some x" for x
    by (auto simp: strip_prefix_def starts_with_append)
  have k: "s_chain (expire_chain t1 s) (chain_key b a) = None" using assms(5) by (simp add: expire_chain_def)
  have one: "event_for_pipe t1 (COMPLETED @ a) (a, ca) (x, T) = (x, T)" for x T
    by (auto simp: event_for_pipe_def split: option.split)
  have "s_chain (fst (drain_events t1 [(a, ca), (b, cb)] [COMPLETED @ a] s)) (chain_key a b) = Some t1"
    unfolding drain_events_def using assms(1-4) k by (simp add: one) (simp add: event_for_pipe_def chain_link_def p)
  then have l: "s_chain (expire_chain t2 s') (chain_key a b) = Some t1"
    using assms(6,7) by (simp add: expire_chain_def elapsed_def CHAIN_COOLDOWN_def)
  have two: "snd (event_for_pipe t2 (COMPLETED @ b) (a, ca) (x, {})) = {}"
    "s_chain (fst (event_for_pipe t2 (COMPLETED @ b) (a, ca) (x, {}))) (chain_key a b) = Some t1"
    if "s_chain x (chain_key a b) = Some t1" for x
    using that by (auto simp: event_for_pipe_def chain_link_def p split: option.split)
  have three: "event_for_pipe t2 (COMPLETED @ b) (b, cb) (x, T) = (x, T)" for x T
    by (auto simp: event_for_pipe_def split: option.split)
  show ?thesis
    using two [OF l] by (simp add: drain_events_def) (metis prod.collapse three snd_conv)
qed

lemma mutual_triggers_suppressed_witness:
  "snd (drain_events (from_secs 59) [(lit ''a'', listening_config [''pipe_completed:b'']), (lit ''b'', listening_config [''pipe_completed:a''])]
     [COMPLETED @ lit ''b'']
     (fst (drain_events 0 [(lit ''a'', listening_config [''pipe_completed:b'']), (lit ''b'', listening_config [''pipe_completed:a''])]
        [COMPLETED @ lit ''a''] (fresh_scheduler (sample_manager [''a'']) Map.empty)))) = {}"
proof -
  have a: "lit ''a'' \<noteq> lit ''b''" "pc_enabled (listening_config [''pipe_completed:a''])"
    "COMPLETED @ lit ''a'' \<in> set (map lit [''pipe_completed:a''])" by code_simp+
  have b: "pc_trigger (listening_config [''pipe_completed:a'']) = Some (map lit [''pipe_completed:a''])"
    "s_chain (fresh_scheduler (sample_manager [''a'']) Map.empty) (chain_key (lit ''b'') (lit ''a'')) = None"
    "from_secs 59 - 0 < from_secs 60"
    by (simp_all add: listening_config_def fresh_scheduler_def from_secs_def)
  show ?thesis by (rule mutual_triggers_suppressed [OF a(1,2) b(1) a(3) b(2,3) refl])
qed

text \<open>The check sees pairs only: three pipes that trigger one another in a circle keep each other running.\<close>

lemma circle_of_three_goes_on:
  "let snapshot = [(lit ''a'', listening_config [''pipe_completed:c'']), (lit ''b'', listening_config [''pipe_completed:a'']),
          (lit ''c'', listening_config [''pipe_completed:b''])];
       s0 = fresh_scheduler (sample_manager [''a'']) Map.empty;
       (s1, t1) = drain_events 1 snapshot [COMPLETED @ lit ''a''] s0;
       (s2, t2) = drain_events 2 snapshot [COMPLETED @ lit ''b''] s1;
       (s3, t3) = drain_events 3 snapshot [COMPLETED @ lit ''c''] s2;
       (s4, t4) = drain_events 4 snapshot [COMPLETED @ lit ''a''] s3
   in (t1, t2, t3, t4) = ({lit ''b''}, {lit ''c''}, {lit ''a''}, {lit ''b''})"
  by code_simp

end
