(* ===== verification/SyncMerge.thy ===== *)
theory SyncMerge
  imports PipeSchedule
begin

text \<open>
  The merge that keeps a user's devices together. Pipes (\<open>screenpipe-core/src/pipes/sync.rs\<close>), memories
  (\<open>memories/sync.rs\<close>) and connections (\<open>connections/sync.rs\<close>) are kept in three manifests of one shape
  and merged by the same function, which differs only in when a row of the cloud is newer than the local one
  and in where the row keeps its time. The iteration of a hash set or map and the clock are fields of
  \<open>sync_env\<close>, and so is the parser of RFC 3339 texts (crate \<open>chrono\<close>).
\<close>

section \<open>Manifests\<close>

record sync_env =
  rfc3339_of :: "rstr \<Rightarrow> timestamp option"
  utc_now :: timestamp
  now_text :: rstr
  keys_of :: "(rstr \<Rightarrow> bool) \<Rightarrow> rstr list"

record 'v manifest =
  schema_version :: nat
  last_updated_by :: rstr
  last_updated_at :: rstr
  entries :: "rstr \<rightharpoonup> 'v"
  tombstones :: "rstr \<rightharpoonup> rstr"

datatype sync_action = Imported rstr | Updated rstr | Deleted rstr | Skipped rstr

definition SYNC_SCHEMA :: nat where "SYNC_SCHEMA = 1"
definition TOMBSTONE_TTL_DAYS :: int where "TOMBSTONE_TTL_DAYS = 30"

definition empty_manifest :: "sync_env \<Rightarrow> rstr \<Rightarrow> 'v manifest" where
  "empty_manifest env machine_id =
     \<lparr>schema_version = SYNC_SCHEMA, last_updated_by = machine_id, last_updated_at = now_text env,
      entries = Map.empty, tombstones = Map.empty\<rparr>"

text \<open>A text that is no timestamp counts as the epoch.\<close>

definition parse_rfc3339 :: "sync_env \<Rightarrow> rstr \<Rightarrow> timestamp" where
  "parse_rfc3339 env s = (case rfc3339_of env s of Some t \<Rightarrow> t | None \<Rightarrow> UNIX_EPOCH)"

text \<open>\<open>Duration::num_days\<close> truncates towards zero.\<close>

definition num_days :: "int \<Rightarrow> int" where
  "num_days d = (if d < 0 then - ((- d) div hours 24) else d div hours 24)"

section \<open>The merge\<close>

definition keep_row :: "rstr \<Rightarrow> 'v \<Rightarrow> 'v manifest \<Rightarrow> 'v manifest" where
  "keep_row k v m = m\<lparr>entries := (entries m)(k \<mapsto> v)\<rparr>"

definition bury_row :: "rstr \<Rightarrow> rstr \<Rightarrow> 'v manifest \<Rightarrow> 'v manifest" where
  "bury_row k ts m = m\<lparr>tombstones := (tombstones m)(k \<mapsto> ts)\<rparr>"

text \<open>One name of either manifest: \<open>newer l r\<close> decides between two rows, \<open>stamp\<close> reads a row's time.\<close>

definition merge_step ::
  "('v \<Rightarrow> 'v \<Rightarrow> bool) \<Rightarrow> ('v \<Rightarrow> rstr) \<Rightarrow> sync_env \<Rightarrow> 'v manifest \<Rightarrow> 'v manifest \<Rightarrow> rstr
    \<Rightarrow> 'v manifest \<times> sync_action list \<Rightarrow> 'v manifest \<times> sync_action list" where
  "merge_step newer stamp env local remote k = (\<lambda>(merged, actions).
     (case (entries local k, entries remote k, tombstones remote k) of
        (Some l, _, Some ts) \<Rightarrow>
          if parse_rfc3339 env (stamp l) < parse_rfc3339 env ts
          then (bury_row k ts merged, actions @ [Deleted k])
          else (keep_row k l merged, actions @ [Skipped k])
      | (Some l, Some r, None) \<Rightarrow>
          if newer l r then (keep_row k r merged, actions @ [Updated k])
          else (keep_row k l merged, actions @ [Skipped k])
      | (None, Some r, _) \<Rightarrow>
          (case tombstones local k of
             Some ts \<Rightarrow>
               if parse_rfc3339 env (stamp r) < parse_rfc3339 env ts
               then (bury_row k ts merged, actions @ [Skipped k])
               else (keep_row k r merged, actions @ [Imported k])
           | None \<Rightarrow> (keep_row k r merged, actions @ [Imported k]))
      | (Some l, None, None) \<Rightarrow> (keep_row k l merged, actions @ [Skipped k])
      | (None, None, _) \<Rightarrow> (merged, actions)))"

text \<open>A tombstone is carried on while it is less than thirty days old.\<close>

definition fresh :: "sync_env \<Rightarrow> rstr \<Rightarrow> bool" where
  "fresh env ts =
     (case rfc3339_of env ts of Some t \<Rightarrow> num_days (utc_now env - t) < TOMBSTONE_TTL_DAYS | None \<Rightarrow> False)"

definition carry_tombstone :: "sync_env \<Rightarrow> (rstr \<rightharpoonup> rstr) \<Rightarrow> rstr \<Rightarrow> 'v manifest \<Rightarrow> 'v manifest" where
  "carry_tombstone env tombs k merged =
     (case tombs k of
        None \<Rightarrow> merged
      | Some ts \<Rightarrow>
          if tombstones merged k \<noteq> None \<or> entries merged k \<noteq> None then merged
          else if fresh env ts then bury_row k ts merged
          else merged)"

definition carry_tombstones :: "sync_env \<Rightarrow> (rstr \<rightharpoonup> rstr) \<Rightarrow> 'v manifest \<Rightarrow> 'v manifest" where
  "carry_tombstones env tombs = fold (carry_tombstone env tombs) (keys_of env (\<lambda>k. tombs k \<noteq> None))"

definition all_names :: "sync_env \<Rightarrow> 'v manifest \<Rightarrow> 'v manifest \<Rightarrow> rstr list" where
  "all_names env local remote = keys_of env (\<lambda>k. entries local k \<noteq> None \<or> entries remote k \<noteq> None)"

definition merge_manifests ::
  "('v \<Rightarrow> 'v \<Rightarrow> bool) \<Rightarrow> ('v \<Rightarrow> rstr) \<Rightarrow> sync_env \<Rightarrow> 'v manifest \<Rightarrow> 'v manifest \<Rightarrow> rstr
    \<Rightarrow> 'v manifest \<times> sync_action list" where
  "merge_manifests newer stamp env local remote machine_id =
     (let (merged, actions) = fold (merge_step newer stamp env local remote) (all_names env local remote)
                                (empty_manifest env machine_id, [])
      in (carry_tombstones env (tombstones remote) (carry_tombstones env (tombstones local) merged), actions))"

section \<open>What a manifest says of a name\<close>

datatype 'v fate = Gone | Buried rstr | Live 'v

definition fate_of :: "'v manifest \<Rightarrow> rstr \<Rightarrow> 'v fate" where
  "fate_of m k =
     (case entries m k of
        Some v \<Rightarrow> Live v
      | None \<Rightarrow> (case tombstones m k of Some ts \<Rightarrow> Buried ts | None \<Rightarrow> Gone))"

text \<open>The merge name by name.\<close>

fun join :: "('v \<Rightarrow> 'v \<Rightarrow> bool) \<Rightarrow> ('v \<Rightarrow> rstr) \<Rightarrow> sync_env \<Rightarrow> 'v fate \<Rightarrow> 'v fate \<Rightarrow> 'v fate" where
  "join newer stamp env (Live l) (Live r) = (if newer l r then Live r else Live l)"
| "join newer stamp env (Live l) (Buried ts) =
     (if parse_rfc3339 env (stamp l) < parse_rfc3339 env ts then Buried ts else Live l)"
| "join newer stamp env (Buried ts) (Live r) =
     (if parse_rfc3339 env (stamp r) < parse_rfc3339 env ts then Buried ts else Live r)"
| "join newer stamp env (Live l) Gone = Live l"
| "join newer stamp env Gone (Live r) = Live r"
| "join newer stamp env (Buried s) (Buried t) = (if fresh env s then Buried s else if fresh env t then Buried t else Gone)"
| "join newer stamp env (Buried s) Gone = (if fresh env s then Buried s else Gone)"
| "join newer stamp env Gone (Buried t) = (if fresh env t then Buried t else Gone)"
| "join newer stamp env Gone Gone = Gone"

text \<open>What was done to the local copy of a name.\<close>

fun done_to :: "('v \<Rightarrow> 'v \<Rightarrow> bool) \<Rightarrow> ('v \<Rightarrow> rstr) \<Rightarrow> sync_env \<Rightarrow> 'v fate \<Rightarrow> 'v fate \<Rightarrow> (rstr \<Rightarrow> sync_action) option" where
  "done_to newer stamp env (Live l) (Live r) = Some (if newer l r then Updated else Skipped)"
| "done_to newer stamp env (Live l) (Buried ts) =
     Some (if parse_rfc3339 env (stamp l) < parse_rfc3339 env ts then Deleted else Skipped)"
| "done_to newer stamp env (Buried ts) (Live r) =
     Some (if parse_rfc3339 env (stamp r) < parse_rfc3339 env ts then Skipped else Imported)"
| "done_to newer stamp env (Live l) Gone = Some Skipped"
| "done_to newer stamp env Gone (Live r) = Some Imported"
| "done_to newer stamp env _ _ = None"

text \<open>The hash collections are enumerated without repetition; a manifest is finite, and one of the cloud has
  no name both as a row and as a tombstone.\<close>

definition enumerates :: "sync_env \<Rightarrow> bool" where
  "enumerates env \<longleftrightarrow> (\<forall>P. finite {k. P k} \<longrightarrow> distinct (keys_of env P) \<and> set (keys_of env P) = {k. P k})"

definition small :: "'v manifest \<Rightarrow> bool" where
  "small m \<longleftrightarrow> finite (dom (entries m)) \<and> finite (dom (tombstones m))"

definition tidy :: "'v manifest \<Rightarrow> bool" where
  "tidy m \<longleftrightarrow> (\<forall>k. entries m k = None \<or> tombstones m k = None)"

lemma enumerates_dom:
  "enumerates env \<Longrightarrow> finite (dom f) \<Longrightarrow>
     distinct (keys_of env (\<lambda>k. f k \<noteq> None)) \<and> set (keys_of env (\<lambda>k. f k \<noteq> None)) = dom f"
  by (auto simp: enumerates_def dom_def)

lemma keep_row_simps [simp]:
  "entries (keep_row k v m) = (entries m)(k \<mapsto> v)" "tombstones (keep_row k v m) = tombstones m"
  by (simp_all add: keep_row_def)

lemma bury_row_simps [simp]:
  "entries (bury_row k ts m) = entries m" "tombstones (bury_row k ts m) = (tombstones m)(k \<mapsto> ts)"
  by (simp_all add: bury_row_def)

lemma fate_cong:
  "entries m k = entries m' k \<Longrightarrow> tombstones m k = tombstones m' k \<Longrightarrow> fate_of m k = fate_of m' k"
  by (simp add: fate_of_def split: option.split)

lemma fate_not_gone: "fate_of m k \<noteq> Gone \<longleftrightarrow> entries m k \<noteq> None \<or> tombstones m k \<noteq> None"
  by (auto simp: fate_of_def split: option.split)

text \<open>A step writes its own name only, so the names come out one by one.\<close>

lemma merge_step_other:
  "k' \<noteq> k \<Longrightarrow> entries (fst (merge_step newer stamp env l r k p)) k' = entries (fst p) k'
     \<and> tombstones (fst (merge_step newer stamp env l r k p)) k' = tombstones (fst p) k'"
  by (cases p) (simp add: merge_step_def split: option.split)

lemma merge_step_own:
  assumes "entries l k \<noteq> None \<or> entries r k \<noteq> None" "tidy r"
    "entries (fst p) k = None" "tombstones (fst p) k = None"
  shows "fate_of (fst (merge_step newer stamp env l r k p)) k = join newer stamp env (fate_of l k) (fate_of r k)
    \<and> (entries (fst (merge_step newer stamp env l r k p)) k = None
       \<or> tombstones (fst (merge_step newer stamp env l r k p)) k = None)"
proof -
  have "entries r k = None \<or> tombstones r k = None" using assms(2) by (simp add: tidy_def)
  then show ?thesis using assms(1,3,4)
    by (cases p) (auto simp: merge_step_def fate_of_def split: option.split)
qed

lemma merge_step_action:
  assumes "entries l k \<noteq> None \<or> entries r k \<noteq> None" "tidy r"
  shows "\<exists>a. done_to newer stamp env (fate_of l k) (fate_of r k) = Some a
    \<and> snd (merge_step newer stamp env l r k p) = snd p @ [a k]"
proof -
  have "entries r k = None \<or> tombstones r k = None" using assms(2) by (simp add: tidy_def)
  then show ?thesis using assms(1)
    by (cases p) (auto simp: merge_step_def fate_of_def split: option.split)
qed

lemma merge_fold_other:
  "k \<notin> set ks \<Longrightarrow> entries (fst (fold (merge_step newer stamp env l r) ks p)) k = entries (fst p) k
     \<and> tombstones (fst (fold (merge_step newer stamp env l r) ks p)) k = tombstones (fst p) k"
  by (induction ks arbitrary: p) (simp_all add: merge_step_other)

lemma merge_fold_own:
  assumes "k \<in> set ks" "distinct ks" "entries l k \<noteq> None \<or> entries r k \<noteq> None" "tidy r"
    "entries (fst p) k = None" "tombstones (fst p) k = None"
  shows "fate_of (fst (fold (merge_step newer stamp env l r) ks p)) k = join newer stamp env (fate_of l k) (fate_of r k)
    \<and> (entries (fst (fold (merge_step newer stamp env l r) ks p)) k = None
       \<or> tombstones (fst (fold (merge_step newer stamp env l r) ks p)) k = None)"
  using assms
proof (induction ks arbitrary: p)
  case (Cons x xs)
  show ?case
  proof (cases "x = k")
    case True
    then have "k \<notin> set xs" using Cons.prems(2) by simp
    note o = merge_fold_other [OF this, of newer stamp env l r "merge_step newer stamp env l r k p"]
    have "fate_of (fst (fold (merge_step newer stamp env l r) xs (merge_step newer stamp env l r k p))) k
        = fate_of (fst (merge_step newer stamp env l r k p)) k"
      by (rule fate_cong) (use o in simp_all)
    then show ?thesis using o merge_step_own [OF Cons.prems(3,4,5,6), of newer stamp env] by (simp add: True)
  next
    case False
    then show ?thesis using Cons by (simp add: merge_step_other)
  qed
qed simp

definition carried :: "sync_env \<Rightarrow> (rstr \<rightharpoonup> rstr) \<Rightarrow> rstr \<Rightarrow> rstr option" where
  "carried env T k = (case T k of Some ts \<Rightarrow> if fresh env ts then Some ts else None | None \<Rightarrow> None)"

lemma carry_fold:
  "entries (fold (carry_tombstone env T) ks m) = entries m
   \<and> tombstones (fold (carry_tombstone env T) ks m) k =
       (if k \<in> set ks \<and> entries m k = None \<and> tombstones m k = None
        then carried env T k
        else tombstones m k)"
proof (induction ks arbitrary: m)
  case (Cons x xs)
  have e: "entries (carry_tombstone env T x m) = entries m"
    by (simp add: carry_tombstone_def split: option.split)
  have t: "tombstones (carry_tombstone env T x m) k =
      (if k = x \<and> entries m k = None \<and> tombstones m k = None
       then carried env T k else tombstones m k)"
    by (auto simp: carry_tombstone_def carried_def split: option.split)
  show ?case using Cons.IH [of "carry_tombstone env T x m"] e t by (cases "x = k"; cases "carried env T k") auto
qed simp

lemma carry_tombstones_simps:
  assumes "enumerates env" "finite (dom T)"
  shows "entries (carry_tombstones env T m) = entries m"
    and "tombstones (carry_tombstones env T m) k =
      (if entries m k = None \<and> tombstones m k = None
       then carried env T k else tombstones m k)"
proof -
  have k: "k \<in> set (keys_of env (\<lambda>k. T k \<noteq> None)) \<longleftrightarrow> T k \<noteq> None"
    using enumerates_dom [OF assms] by blast
  note f = carry_fold [of env T "keys_of env (\<lambda>k. T k \<noteq> None)" m k, unfolded k]
  show "entries (carry_tombstones env T m) = entries m" using f by (simp only: carry_tombstones_def)
  show "tombstones (carry_tombstones env T m) k =
      (if entries m k = None \<and> tombstones m k = None
       then carried env T k else tombstones m k)"
    using f unfolding carry_tombstones_def by (cases "T k") (simp_all add: carried_def)
qed

text \<open>The merge is the join of the two fates of every name, and its result is tidy.\<close>

lemma all_names_set:
  assumes "enumerates env" "small l" "small r"
  shows "distinct (all_names env l r)" "set (all_names env l r) = {k. entries l k \<noteq> None \<or> entries r k \<noteq> None}"
proof -
  let ?P = "\<lambda>k. entries l k \<noteq> None \<or> entries r k \<noteq> None"
  have "{k. ?P k} = dom (entries l) \<union> dom (entries r)" by auto
  then have "finite {k. ?P k}" using assms(2,3) by (simp add: small_def)
  with assms(1) show "distinct (all_names env l r)" "set (all_names env l r) = {k. ?P k}"
    unfolding enumerates_def all_names_def by blast+
qed

lemma merge_fates:
  assumes "enumerates env" "small l" "small r" "tidy r"
  shows "fate_of (fst (merge_manifests newer stamp env l r me)) k = join newer stamp env (fate_of l k) (fate_of r k)
    \<and> (entries (fst (merge_manifests newer stamp env l r me)) k = None
       \<or> tombstones (fst (merge_manifests newer stamp env l r me)) k = None)"
proof -
  let ?ks = "all_names env l r" and ?e = "empty_manifest env me :: 'a manifest"
  let ?P = "\<lambda>k. entries l k \<noteq> None \<or> entries r k \<noteq> None"
  let ?m = "fst (fold (merge_step newer stamp env l r) ?ks (?e, []))"
  note ks = all_names_set [OF assms(1-3)]
  have f: "finite (dom (tombstones l))" "finite (dom (tombstones r))" using assms(2,3) by (simp_all add: small_def)
  have m: "fst (merge_manifests newer stamp env l r me) = carry_tombstones env (tombstones r) (carry_tombstones env (tombstones l) ?m)"
    by (simp add: merge_manifests_def split: prod.split)
  note carry = carry_tombstones_simps [OF assms(1) f(1)] carry_tombstones_simps [OF assms(1) f(2)]
  have e0: "entries (fst (?e, [])) k = None" "tombstones (fst (?e, [])) k = None" by (simp_all add: empty_manifest_def)
  show ?thesis
  proof (cases "k \<in> set ?ks")
    case True
    then have P: "?P k" using ks(2) by simp
    from merge_fold_own [OF True ks(1) P assms(4) e0, of newer stamp env]
    have o: "fate_of ?m k = join newer stamp env (fate_of l k) (fate_of r k)"
      "entries ?m k = None \<or> tombstones ?m k = None" by auto
    have "join newer stamp env (fate_of l k) (fate_of r k) \<noteq> Gone"
      using P by (cases "fate_of l k"; cases "fate_of r k") (simp_all add: fate_of_def split: option.splits)
    then have "entries ?m k \<noteq> None \<or> tombstones ?m k \<noteq> None" using o(1) fate_not_gone by metis
    then have c: "entries (carry_tombstones env (tombstones r) (carry_tombstones env (tombstones l) ?m)) k = entries ?m k"
      "tombstones (carry_tombstones env (tombstones r) (carry_tombstones env (tombstones l) ?m)) k = tombstones ?m k"
      by (simp_all only: carry split: if_split) blast+
    show ?thesis using o c unfolding m fate_cong [OF c] by simp
  next
    case False
    then have n: "entries l k = None" "entries r k = None" using ks(2) by simp_all
    have "entries ?m k = None" "tombstones ?m k = None"
      using merge_fold_other [OF False, of newer stamp env l r "(?e, [])"] e0 by simp_all
    then show ?thesis using n unfolding m by (simp add: carry carried_def fate_of_def split: option.split)
  qed
qed

lemma merge_tidy:
  "enumerates env \<Longrightarrow> small l \<Longrightarrow> small r \<Longrightarrow> tidy r \<Longrightarrow> tidy (fst (merge_manifests newer stamp env l r me))"
  unfolding tidy_def [of "fst (merge_manifests newer stamp env l r me)"] by (intro allI) (metis merge_fates)

lemma small_iff: "small m \<longleftrightarrow> finite (dom (entries m) \<union> dom (tombstones m))"
  by (simp add: small_def)

lemma join_gone: "join newer stamp env a b \<noteq> Gone \<Longrightarrow> a \<noteq> Gone \<or> b \<noteq> Gone"
  by auto

lemma merge_small:
  assumes "enumerates env" "small l" "small r" "tidy r"
  shows "small (fst (merge_manifests newer stamp env l r me))"
proof -
  let ?m = "fst (merge_manifests newer stamp env l r me)"
  have "dom (entries ?m) \<union> dom (tombstones ?m) \<subseteq> {k. fate_of ?m k \<noteq> Gone}"
    by (auto simp: fate_not_gone)
  also have "\<dots> \<subseteq> {k. fate_of l k \<noteq> Gone} \<union> {k. fate_of r k \<noteq> Gone}"
    using merge_fates [OF assms] join_gone by fastforce
  also have "\<dots> = (dom (entries l) \<union> dom (tombstones l)) \<union> (dom (entries r) \<union> dom (tombstones r))"
    by (auto simp: fate_not_gone)
  finally show ?thesis using assms(2,3) unfolding small_iff by (metis finite_Un finite_subset)
qed

text \<open>The actions: one for every name with a row on either side.\<close>

lemma merge_fold_actions:
  assumes "tidy r" "\<forall>k \<in> set ks. entries l k \<noteq> None \<or> entries r k \<noteq> None"
  shows "snd (fold (merge_step newer stamp env l r) ks p)
    = snd p @ map (\<lambda>k. the (done_to newer stamp env (fate_of l k) (fate_of r k)) k) ks"
  using assms(2)
proof (induction ks arbitrary: p)
  case (Cons x xs)
  have "entries l x \<noteq> None \<or> entries r x \<noteq> None" using Cons.prems by simp
  from merge_step_action [OF this assms(1), of newer stamp env p]
  have "snd (merge_step newer stamp env l r x p) = snd p @ [the (done_to newer stamp env (fate_of l x) (fate_of r x)) x]"
    by auto
  then show ?case using Cons by simp
qed simp

lemma merge_actions:
  assumes "enumerates env" "small l" "small r" "tidy r"
  shows "snd (merge_manifests newer stamp env l r me) =
    map (\<lambda>k. the (done_to newer stamp env (fate_of l k) (fate_of r k)) k) (all_names env l r)"
proof -
  have "\<forall>k \<in> set (all_names env l r). entries l k \<noteq> None \<or> entries r k \<noteq> None"
    using all_names_set [OF assms(1-3)] by blast
  note f = merge_fold_actions [OF assms(4) this, of newer stamp env "(empty_manifest env me, [])"]
  show ?thesis
    unfolding merge_manifests_def using f
    by (cases "fold (merge_step newer stamp env l r) (all_names env l r) (empty_manifest env me, [])") simp
qed

end
