(* ===== verification/SyncOrder.thy ===== *)
theory SyncOrder
  imports SyncMerge
begin

text \<open>
  What the three merges owe to their comparison of rows. \<open>row_choice\<close> is the contract they all keep: a row
  is not newer than itself; it is enough for a second merge to change nothing. \<open>lww_rows\<close> is the contract of
  the merges by time (pipes and memories): the later row wins, and the author decides between equal times.
  Under it rows and tombstones of a name are linearly preordered and the merge takes the larger one, so that
  devices that exchange manifests in any order end with the same rows.
\<close>

section \<open>A second merge\<close>

definition same_row :: "'v fate \<Rightarrow> 'v fate \<Rightarrow> bool" where
  "same_row l r \<longleftrightarrow> (\<forall>v. l = Live v \<longleftrightarrow> r = Live v)"

definition unexpired :: "sync_env \<Rightarrow> 'v fate \<Rightarrow> bool" where
  "unexpired env x = (case x of Buried ts \<Rightarrow> fresh env ts | _ \<Rightarrow> True)"

lemma same_row_live [simp]: "same_row (Live a) (Live b) \<longleftrightarrow> a = b"
  by (auto simp: same_row_def)

lemma same_row_entries: "tidy m \<Longrightarrow> tidy n \<Longrightarrow> same_row (fate_of m k) (fate_of n k) \<Longrightarrow> entries m k = entries n k"
  by (auto simp: same_row_def fate_of_def split: option.splits)

lemma fate_live_iff [simp]: "fate_of m k = Live v \<longleftrightarrow> entries m k = Some v"
  by (auto simp: fate_of_def split: option.split)

locale row_choice =
  fixes newer :: "'v \<Rightarrow> 'v \<Rightarrow> bool" and stamp :: "'v \<Rightarrow> rstr" and env :: sync_env
  assumes not_newer_itself: "\<not> newer v v"
begin

lemma join_same_row: "same_row l r \<Longrightarrow> same_row (join newer stamp env l r) r"
  using not_newer_itself by (cases l; cases r; simp; simp add: same_row_def)

lemma done_same_row: "same_row l r \<Longrightarrow> done_to newer stamp env l r \<in> {None, Some Skipped}"
  using not_newer_itself by (cases l; cases r; simp; simp add: same_row_def)

text \<open>Merging a manifest whose rows are the local ones changes no row and leaves the device alone.\<close>

lemma merge_again:
  assumes "enumerates env" "small l" "small r" "tidy r" "entries l = entries r"
  shows "entries (fst (merge_manifests newer stamp env l r me)) = entries r
    \<and> list_all (\<lambda>a. \<exists>n. a = Skipped n) (snd (merge_manifests newer stamp env l r me))"
proof
  have s: "same_row (fate_of l k) (fate_of r k)" for k
    using assms(5) by (auto simp: same_row_def)
  show "entries (fst (merge_manifests newer stamp env l r me)) = entries r"
    by (intro ext same_row_entries merge_tidy assms(1-4))
      (use merge_fates [OF assms(1-4), of newer stamp me] join_same_row [OF s] in simp)
  have "\<exists>n. the (done_to newer stamp env (fate_of l x) (fate_of r x)) x = Skipped n"
    if x: "x \<in> set (all_names env l r)" for x
  proof -
    have "entries l x \<noteq> None \<or> entries r x \<noteq> None" using x all_names_set [OF assms(1-3)] by blast
    from merge_step_action [OF this assms(4), of newer stamp env "(l, [])"]
    have "done_to newer stamp env (fate_of l x) (fate_of r x) \<noteq> None" by auto
    then show ?thesis using done_same_row [OF s [of x]] by auto
  qed
  then show "list_all (\<lambda>a. \<exists>n. a = Skipped n) (snd (merge_manifests newer stamp env l r me))"
    unfolding merge_actions [OF assms(1-4)] by (simp add: list_all_iff)
qed

end

section \<open>What the actions do\<close>

fun action_name :: "sync_action \<Rightarrow> rstr" where
  "action_name (Imported k) = k" | "action_name (Updated k) = k" | "action_name (Deleted k) = k" | "action_name (Skipped k) = k"

definition action_effect :: "'v manifest \<Rightarrow> sync_action \<Rightarrow> 'v option \<Rightarrow> 'v option" where
  "action_effect m a old =
     (case a of
        Imported k \<Rightarrow> (case entries m k of Some v \<Rightarrow> Some v | None \<Rightarrow> old)
      | Updated k \<Rightarrow> (case entries m k of Some v \<Rightarrow> Some v | None \<Rightarrow> old)
      | Deleted k \<Rightarrow> None
      | Skipped k \<Rightarrow> old)"

text \<open>Where the local row of every name is changed as its action says, the rows are those of the merged manifest.\<close>

lemma join_effect:
  assumes "done_to newer stamp env (fate_of l k) (fate_of r k) = Some c" "fate_of m k = join newer stamp env (fate_of l k) (fate_of r k)"
  shows "action_effect m (c k) (entries l k) = entries m k \<and> action_name (c k) = k"
proof -
  have e: "entries n k = (case fate_of n k of Live v \<Rightarrow> Some v | _ \<Rightarrow> None)" for n :: "'a manifest"
    by (simp add: fate_of_def split: option.split)
  show ?thesis using assms unfolding e
    by (cases "fate_of l k"; cases "fate_of r k") (auto simp: action_effect_def e simp del: fate_live_iff split: if_splits)
qed

lemma merged_effects:
  assumes "enumerates env" "small l" "small r" "tidy r"
    "merge_manifests newer stamp env l r me = (m, acts)"
  shows "map action_name acts = all_names env l r"
    and "\<forall>a \<in> set acts. action_effect m a (entries l (action_name a)) = entries m (action_name a)"
    and "\<forall>k. k \<notin> action_name ` set acts \<longrightarrow> entries l k = None \<and> entries m k = None"
proof -
  let ?c = "\<lambda>k. the (done_to newer stamp env (fate_of l k) (fate_of r k))"
  have acts: "acts = map (\<lambda>k. ?c k k) (all_names env l r)"
    using merge_actions [OF assms(1-4), of newer stamp me] assms(5) by simp
  have f: "fate_of m k = join newer stamp env (fate_of l k) (fate_of r k)" for k
    using merge_fates [OF assms(1-4), of newer stamp me k] assms(5) by simp
  have *: "action_effect m (?c k k) (entries l k) = entries m k \<and> action_name (?c k k) = k" if "k \<in> set (all_names env l r)" for k
  proof -
    have "entries l k \<noteq> None \<or> entries r k \<noteq> None" using that all_names_set [OF assms(1-3)] by blast
    from merge_step_action [OF this assms(4), of newer stamp env "(l, [])"]
    have "done_to newer stamp env (fate_of l k) (fate_of r k) = Some (?c k)" by auto
    from join_effect [OF this f] show ?thesis .
  qed
  show n: "map action_name acts = all_names env l r" unfolding acts using * by (simp add: map_idI)
  show "\<forall>a \<in> set acts. action_effect m a (entries l (action_name a)) = entries m (action_name a)"
    unfolding acts using * by auto
  show "\<forall>k. k \<notin> action_name ` set acts \<longrightarrow> entries l k = None \<and> entries m k = None"
  proof (intro allI impI)
    fix k assume "k \<notin> action_name ` set acts"
    then have "k \<notin> set (all_names env l r)" using n by (metis set_map)
    then have n: "entries l k = None" "entries r k = None" using all_names_set [OF assms(1-3)] by auto
    then have "fate_of m k \<noteq> Live v" for v unfolding f by (cases "fate_of l k"; cases "fate_of r k") (auto simp: fate_of_def split: option.splits)
    then show "entries l k = None \<and> entries m k = None" using n by (metis fate_live_iff option.exhaust)
  qed
qed

section \<open>Last write wins\<close>

fun fate_le :: "('v \<Rightarrow> 'v \<Rightarrow> bool) \<Rightarrow> ('v \<Rightarrow> rstr) \<Rightarrow> sync_env \<Rightarrow> 'v fate \<Rightarrow> 'v fate \<Rightarrow> bool" where
  "fate_le newer stamp env Gone y = True"
| "fate_le newer stamp env (Buried s) Gone = False"
| "fate_le newer stamp env (Live l) Gone = False"
| "fate_le newer stamp env (Buried s) (Buried t) = (parse_rfc3339 env s \<le> parse_rfc3339 env t)"
| "fate_le newer stamp env (Buried s) (Live r) = (parse_rfc3339 env s \<le> parse_rfc3339 env (stamp r))"
| "fate_le newer stamp env (Live l) (Buried t) = (parse_rfc3339 env (stamp l) < parse_rfc3339 env t)"
| "fate_le newer stamp env (Live l) (Live r) = (\<not> newer r l)"

text \<open>The fates the devices hold for a name can be merged in any order when the name was deleted at most
  once, and no two different rows have the same time and author.\<close>

definition unambiguous :: "('v \<Rightarrow> 'v \<Rightarrow> bool) \<Rightarrow> sync_env \<Rightarrow> 'v fate set \<Rightarrow> bool" where
  "unambiguous newer env S \<longleftrightarrow>
     (\<forall>s t. Buried s \<in> S \<longrightarrow> Buried t \<in> S \<longrightarrow> s = t)
     \<and> (\<forall>l r. Live l \<in> S \<longrightarrow> Live r \<in> S \<longrightarrow> \<not> newer l r \<longrightarrow> \<not> newer r l \<longrightarrow> l = r)
     \<and> (\<forall>x \<in> S. unexpired env x)"

locale lww_rows =
  fixes newer :: "'v \<Rightarrow> 'v \<Rightarrow> bool" and stamp :: "'v \<Rightarrow> rstr" and env :: sync_env and author :: "'v \<Rightarrow> rstr"
  assumes newer_iff: "newer l r \<longleftrightarrow>
    parse_rfc3339 env (stamp l) < parse_rfc3339 env (stamp r)
    \<or> parse_rfc3339 env (stamp l) = parse_rfc3339 env (stamp r) \<and> str_less (author l) (author r)"

sublocale lww_rows \<subseteq> row_choice newer stamp env
  by unfold_locales (simp add: newer_iff)

context lww_rows begin

lemma le_total: "fate_le newer stamp env x y \<or> fate_le newer stamp env y x"
  by (cases x; cases y) (use str_le_total in \<open>auto simp: newer_iff str_less_def\<close>)

lemma le_trans:
  assumes "fate_le newer stamp env x y" "fate_le newer stamp env y z"
  shows "fate_le newer stamp env x z"
  using assms by (cases x; cases y; cases z) (auto simp: newer_iff str_less_def intro: str_le_trans)

lemma le_antisym:
  assumes "unambiguous newer env S" "x \<in> S" "y \<in> S" "fate_le newer stamp env x y" "fate_le newer stamp env y x"
  shows "x = y"
  using assms by (cases x; cases y) (auto simp: unambiguous_def)

lemma join_is_max:
  assumes "unambiguous newer env S" "x \<in> S" "y \<in> S"
  shows "join newer stamp env x y = (if fate_le newer stamp env y x then x else y)"
proof -
  have "unexpired env x" "unexpired env y" "\<And>s t. x = Buried s \<Longrightarrow> y = Buried t \<Longrightarrow> s = t"
    using assms by (auto simp: unambiguous_def)
  then show ?thesis by (cases x; cases y) (auto simp: unexpired_def)
qed

lemma foldl_join_max:
  assumes "unambiguous newer env S" "set (x # xs) \<subseteq> S"
  shows "foldl (join newer stamp env) x xs \<in> set (x # xs)
    \<and> (\<forall>y \<in> set (x # xs). fate_le newer stamp env y (foldl (join newer stamp env) x xs))"
  using assms(2)
proof (induction xs arbitrary: x)
  case Nil
  then show ?case using le_total by auto
next
  case (Cons a xs)
  let ?j = "join newer stamp env x a"
  have j: "?j = (if fate_le newer stamp env a x then x else a)"
    using join_is_max [OF assms(1)] Cons.prems by simp
  have "set (?j # xs) \<subseteq> S" using Cons.prems j by auto
  from Cons.IH [OF this] have ih: "foldl (join newer stamp env) ?j xs \<in> set (?j # xs)"
    "\<forall>y \<in> set (?j # xs). fate_le newer stamp env y (foldl (join newer stamp env) ?j xs)" by simp_all
  have "fate_le newer stamp env x ?j" "fate_le newer stamp env a ?j"
    using j le_total [of x a] le_total [of x x] le_total [of a a] by auto
  then have "fate_le newer stamp env x (foldl (join newer stamp env) ?j xs)"
    "fate_le newer stamp env a (foldl (join newer stamp env) ?j xs)"
    using ih(2) le_trans by auto
  then show ?case using ih j by auto
qed

text \<open>The order of the merges does not matter, nor how often a manifest takes part.\<close>

lemma fates_converge:
  assumes "unambiguous newer env (set (x # xs))" "set (x # xs) = set (y # ys)"
  shows "foldl (join newer stamp env) x xs = foldl (join newer stamp env) y ys"
proof -
  let ?a = "foldl (join newer stamp env) x xs" and ?b = "foldl (join newer stamp env) y ys"
  have a: "?a \<in> set (x # xs)" "\<forall>z \<in> set (x # xs). fate_le newer stamp env z ?a"
    using foldl_join_max [OF assms(1), of x xs] by simp_all
  have b: "?b \<in> set (y # ys)" "\<forall>z \<in> set (y # ys). fate_le newer stamp env z ?b"
    using foldl_join_max [OF assms(1) equalityD2 [OF assms(2)]] by simp_all
  show ?thesis using le_antisym [OF assms(1)] a b assms(2) by blast
qed

end

section \<open>Manifests of many devices\<close>

definition merge_all ::
  "('v \<Rightarrow> 'v \<Rightarrow> bool) \<Rightarrow> ('v \<Rightarrow> rstr) \<Rightarrow> sync_env \<Rightarrow> rstr \<Rightarrow> 'v manifest \<Rightarrow> 'v manifest list \<Rightarrow> 'v manifest" where
  "merge_all newer stamp env me m ms = foldl (\<lambda>acc l. fst (merge_manifests newer stamp env acc l me)) m ms"

lemma merge_all_fates:
  assumes "enumerates env" "\<forall>m \<in> set (m # ms). small m \<and> tidy m"
  shows "fate_of (merge_all newer stamp env me m ms) k
      = foldl (join newer stamp env) (fate_of m k) (map (\<lambda>m. fate_of m k) ms)
    \<and> small (merge_all newer stamp env me m ms)"
  using assms(2)
proof (induction ms arbitrary: m)
  case (Cons a ms)
  have am: "small m" "small a" "tidy a" using Cons.prems by simp_all
  let ?n = "fst (merge_manifests newer stamp env m a me)"
  have "small ?n" "tidy ?n" by (rule merge_small merge_tidy; use assms(1) am in simp)+
  then have "\<forall>m \<in> set (?n # ms). small m \<and> tidy m" using Cons.prems by simp
  from Cons.IH [OF this] show ?case
    using merge_fates [OF assms(1) am, of newer stamp me k] by (simp add: merge_all_def)
qed (simp add: merge_all_def)

end
