(* ===== verification/SyncMemories.thy ===== *)
theory SyncMemories
  imports SyncOrder
begin

text \<open>
  Memories on several devices: \<open>screenpipe-core/src/memories/sync.rs\<close> and its callers in
  \<open>screenpipe-engine/src/sync_api.rs\<close>, over the memories table (\<open>screenpipe-db/src/db.rs\<close>) and the local log
  of deletions. The table is the list of its rows, a statement a function on it. Which statements and file
  writes fail, and the identifiers minted for new rows, are fields of \<open>memory_env\<close>.
\<close>

section \<open>The table\<close>

record memory_row =
  row_id :: nat
  row_uuid :: "rstr option"
  row_content :: rstr
  row_source :: rstr
  row_context :: "rstr option"
  row_tags :: "rstr option"
  row_importance :: f64
  row_created :: rstr
  row_updated :: rstr
  row_by :: "rstr option"
  row_frame :: "nat option"

record memory_db =
  mem_rows :: "memory_row list"
  next_row :: nat

record synced_memory =
  sm_uuid :: rstr
  sm_content :: rstr
  sm_source :: rstr
  sm_context :: "rstr option"
  sm_tags :: rstr
  sm_importance :: f64
  sm_created :: rstr
  sm_updated :: rstr
  sm_by :: rstr

definition EMPTY_TAGS :: rstr where "EMPTY_TAGS = lit ''[]''"

definition set_memory_sync_identity :: "nat \<Rightarrow> rstr \<Rightarrow> rstr \<Rightarrow> memory_db \<Rightarrow> memory_db" where
  "set_memory_sync_identity i uuid machine_id db =
     db\<lparr>mem_rows := map (\<lambda>r. if row_id r = i \<and> row_uuid r = None
                          then r\<lparr>row_uuid := Some uuid, row_by := Some machine_id\<rparr> else r) (mem_rows db)\<rparr>"

definition upsert_synced_memory :: "synced_memory \<Rightarrow> memory_db \<Rightarrow> memory_db" where
  "upsert_synced_memory m db =
     (case find (\<lambda>r. row_uuid r = Some (sm_uuid m)) (mem_rows db) of
        Some old \<Rightarrow>
          db\<lparr>mem_rows := map (\<lambda>r. if row_id r = row_id old
              then r\<lparr>row_content := sm_content m, row_source := sm_source m, row_context := sm_context m,
                     row_tags := Some (sm_tags m), row_importance := sm_importance m,
                     row_created := sm_created m, row_updated := sm_updated m, row_by := Some (sm_by m)\<rparr>
              else r) (mem_rows db)\<rparr>
      | None \<Rightarrow>
          db\<lparr>mem_rows := mem_rows db @
               [\<lparr>row_id = next_row db, row_uuid = Some (sm_uuid m), row_content = sm_content m,
                 row_source = sm_source m, row_context = sm_context m, row_tags = Some (sm_tags m),
                 row_importance = sm_importance m, row_created = sm_created m, row_updated = sm_updated m,
                 row_by = Some (sm_by m), row_frame = None\<rparr>],
             next_row := next_row db + 1\<rparr>)"

definition delete_memory_by_sync_uuid :: "rstr \<Rightarrow> memory_db \<Rightarrow> memory_db" where
  "delete_memory_by_sync_uuid uuid db = db\<lparr>mem_rows := filter (\<lambda>r. row_uuid r \<noteq> Some uuid) (mem_rows db)\<rparr>"

text \<open>The edits of the user. A change gives the row a new time and keeps its author.\<close>

definition insert_memory ::
  "rstr \<Rightarrow> rstr \<Rightarrow> rstr \<Rightarrow> rstr option \<Rightarrow> rstr option \<Rightarrow> f64 \<Rightarrow> nat option \<Rightarrow> memory_db \<Rightarrow> memory_db \<times> nat" where
  "insert_memory now content src context tags importance frame db =
     (db\<lparr>mem_rows := mem_rows db @
           [\<lparr>row_id = next_row db, row_uuid = None, row_content = content, row_source = src, row_context = context,
             row_tags = Some (case tags of Some t \<Rightarrow> t | None \<Rightarrow> EMPTY_TAGS), row_importance = importance,
             row_created = now, row_updated = now, row_by = None, row_frame = frame\<rparr>],
         next_row := next_row db + 1\<rparr>, next_row db)"

definition update_memory ::
  "rstr \<Rightarrow> nat \<Rightarrow> rstr option \<Rightarrow> rstr option \<Rightarrow> f64 option \<Rightarrow> rstr option \<Rightarrow> memory_db \<Rightarrow> memory_db" where
  "update_memory now i content tags importance context db =
     db\<lparr>mem_rows := map (\<lambda>r. if row_id r = i
          then r\<lparr>row_updated := now,
                 row_content := (case content of Some c \<Rightarrow> c | None \<Rightarrow> row_content r),
                 row_tags := (case tags of Some t \<Rightarrow> Some t | None \<Rightarrow> row_tags r),
                 row_importance := (case importance of Some x \<Rightarrow> x | None \<Rightarrow> row_importance r),
                 row_context := (case context of Some c \<Rightarrow> Some c | None \<Rightarrow> row_context r)\<rparr>
          else r) (mem_rows db)\<rparr>"

definition delete_memory :: "nat \<Rightarrow> memory_db \<Rightarrow> memory_db" where
  "delete_memory i db = db\<lparr>mem_rows := filter (\<lambda>r. row_id r \<noteq> i) (mem_rows db)\<rparr>"

definition get_memory_sync_uuid :: "nat \<Rightarrow> memory_db \<Rightarrow> rstr option" where
  "get_memory_sync_uuid i db =
     (case find (\<lambda>r. row_id r = i) (mem_rows db) of Some r \<Rightarrow> row_uuid r | None \<Rightarrow> None)"

section \<open>A device\<close>

record memory_device =
  dev_db :: memory_db
  dev_log :: "rstr \<rightharpoonup> rstr"

record memory_env =
  mem_sync :: sync_env
  mint :: "nat \<Rightarrow> rstr"
  mint_ok :: "nat \<Rightarrow> bool"
  write_ok :: "rstr \<Rightarrow> bool"
  rows_readable :: bool
  log_writable :: bool

datatype sync_error = UpsertFailed rstr | DeleteFailed rstr | ClearFailed | UploadFailed

definition record_memory_tombstone :: "memory_env \<Rightarrow> rstr option \<Rightarrow> memory_device \<Rightarrow> memory_device" where
  "record_memory_tombstone env uuid d =
     (case uuid of
        None \<Rightarrow> d
      | Some u \<Rightarrow> if log_writable env then d\<lparr>dev_log := (dev_log d)(u \<mapsto> now_text (mem_sync env))\<rparr> else d)"

definition remote_wins :: "sync_env \<Rightarrow> synced_memory \<Rightarrow> synced_memory \<Rightarrow> bool" where
  "remote_wins env l r =
     (let lt = parse_rfc3339 env (sm_updated l); rt = parse_rfc3339 env (sm_updated r) in
      if lt < rt then True
      else if rt < lt then False
      else str_less (sm_by l) (sm_by r))"

interpretation memories: lww_rows "remote_wins env" sm_updated env sm_by for env
  by unfold_locales (auto simp: remote_wins_def Let_def)

definition merge_memories ::
  "sync_env \<Rightarrow> synced_memory manifest \<Rightarrow> synced_memory manifest \<Rightarrow> rstr \<Rightarrow> synced_memory manifest \<times> sync_action list" where
  "merge_memories env = merge_manifests (remote_wins env) sm_updated env"

section \<open>The local manifest\<close>

definition synced_row :: "rstr \<Rightarrow> memory_row \<Rightarrow> rstr \<Rightarrow> synced_memory" where
  "synced_row uuid r modified_by =
     \<lparr>sm_uuid = uuid, sm_content = row_content r, sm_source = row_source r, sm_context = row_context r,
      sm_tags = (case row_tags r of Some t \<Rightarrow> t | None \<Rightarrow> EMPTY_TAGS), sm_importance = row_importance r,
      sm_created = row_created r, sm_updated = row_updated r, sm_by = modified_by\<rparr>"

definition publish_row ::
  "memory_env \<Rightarrow> rstr \<Rightarrow> memory_row \<Rightarrow> synced_memory manifest \<times> memory_db \<Rightarrow> synced_memory manifest \<times> memory_db" where
  "publish_row env machine_id r = (\<lambda>(m, db).
     (case row_uuid r of
        Some u \<Rightarrow> (keep_row u (synced_row u r (case row_by r of Some b \<Rightarrow> b | None \<Rightarrow> machine_id)) m, db)
      | None \<Rightarrow>
          if mint_ok env (row_id r)
          then (keep_row (mint env (row_id r)) (synced_row (mint env (row_id r)) r machine_id) m,
                set_memory_sync_identity (row_id r) (mint env (row_id r)) machine_id db)
          else (m, db)))"

definition build_memories_local_manifest ::
  "memory_env \<Rightarrow> rstr \<Rightarrow> memory_device \<Rightarrow> synced_memory manifest \<times> memory_device" where
  "build_memories_local_manifest env machine_id d =
     (if \<not> rows_readable env then (empty_manifest (mem_sync env) machine_id, d)
      else let (m, db) = fold (publish_row env machine_id) (mem_rows (dev_db d))
                           (empty_manifest (mem_sync env) machine_id, dev_db d)
           in (m\<lparr>tombstones := (\<lambda>k. case tombstones m k of Some t \<Rightarrow> Some t | None \<Rightarrow> dev_log d k)\<rparr>,
               d\<lparr>dev_db := db\<rparr>))"

section \<open>Applying the result\<close>

definition apply_memory_action ::
  "memory_env \<Rightarrow> synced_memory manifest \<Rightarrow> sync_action \<Rightarrow> memory_db \<times> sync_error list \<Rightarrow> memory_db \<times> sync_error list" where
  "apply_memory_action env m a = (\<lambda>(db, errors).
     (let import = (\<lambda>uuid. case entries m uuid of
                              Some v \<Rightarrow> if write_ok env uuid then (upsert_synced_memory v db, errors)
                                        else (db, errors @ [UpsertFailed uuid])
                            | None \<Rightarrow> (db, errors))
      in case a of
           Imported uuid \<Rightarrow> import uuid
         | Updated uuid \<Rightarrow> import uuid
         | Deleted uuid \<Rightarrow>
             if write_ok env uuid then (delete_memory_by_sync_uuid uuid db, errors)
             else (db, errors @ [DeleteFailed uuid])
         | Skipped uuid \<Rightarrow> (db, errors)))"

definition apply_memories_manifest_to_db ::
  "memory_env \<Rightarrow> synced_memory manifest \<Rightarrow> sync_action list \<Rightarrow> memory_db \<Rightarrow> memory_db \<times> sync_error list" where
  "apply_memories_manifest_to_db env m actions db = fold (apply_memory_action env m) actions (db, [])"

section \<open>Cycles\<close>

text \<open>A download that fails, finds nothing or cannot be read counts as an empty manifest.\<close>

definition downloaded :: "sync_env \<Rightarrow> 'v manifest option \<Rightarrow> 'v manifest" where
  "downloaded env answer = (case answer of Some m \<Rightarrow> m | None \<Rightarrow> empty_manifest env (lit ''unknown''))"

definition run_background_memories_sync ::
  "memory_env \<Rightarrow> rstr \<Rightarrow> synced_memory manifest option \<Rightarrow> memory_device
    \<Rightarrow> memory_device \<times> synced_memory manifest \<times> sync_action list \<times> sync_error list" where
  "run_background_memories_sync env me answer d =
     (let remote = downloaded (mem_sync env) answer;
          (local, d1) = build_memories_local_manifest env me d;
          (merged, actions) = merge_memories (mem_sync env) local remote me;
          (db, errors) = apply_memories_manifest_to_db env merged actions (dev_db d1)
      in (d1\<lparr>dev_db := db\<rparr>, merged, actions, errors))"

definition sync_memories_push ::
  "memory_env \<Rightarrow> rstr \<Rightarrow> synced_memory manifest option \<Rightarrow> memory_device
    \<Rightarrow> memory_device \<times> synced_memory manifest \<times> sync_action list" where
  "sync_memories_push env me answer d =
     (let (local, d1) = build_memories_local_manifest env me d;
          (merged, actions) = merge_memories (mem_sync env) local (downloaded (mem_sync env) answer) me
      in (d1, merged, actions))"

definition deleted_names :: "sync_action list \<Rightarrow> rstr list" where
  "deleted_names actions = concat (map (\<lambda>a. case a of Deleted k \<Rightarrow> [k] | _ \<Rightarrow> []) actions)"

definition sync_memories_pull ::
  "memory_env \<Rightarrow> rstr \<Rightarrow> synced_memory manifest option \<Rightarrow> memory_device
    \<Rightarrow> memory_device \<times> synced_memory manifest \<times> sync_action list \<times> sync_error list" where
  "sync_memories_pull env me answer d =
     (let (d1, merged, actions, errors) = run_background_memories_sync env me answer d in
      if deleted_names actions = [] then (d1, merged, actions, errors)
      else if log_writable env
      then (d1\<lparr>dev_log := (\<lambda>k. if k \<in> set (deleted_names actions) then None else dev_log d1 k)\<rparr>, merged, actions, errors)
      else (d1, merged, actions, errors @ [ClearFailed]))"

end
