(* ===== verification/MemoryProperties.thy ===== *)
theory MemoryProperties
  imports SyncMemories "HOL-Library.List_Lexorder"
begin

text \<open>
  Properties of the synchronisation of memories: what a cycle leaves on the device and in the cloud, that a
  second one changes nothing, and that devices which take turns end with the same memories.
\<close>

section \<open>Rows by identifier\<close>

definition db_ok :: "memory_db \<Rightarrow> bool" where
  "db_ok db \<longleftrightarrow> distinct (map row_id (mem_rows db)) \<and> (\<forall>r \<in> set (mem_rows db). row_id r < next_row db)
     \<and> (\<forall>r \<in> set (mem_rows db). \<forall>s \<in> set (mem_rows db). row_uuid r = row_uuid s \<longrightarrow> row_uuid r \<noteq> None \<longrightarrow> r = s)"

definition memories_of :: "rstr \<Rightarrow> memory_db \<Rightarrow> rstr \<Rightarrow> synced_memory option" where
  "memories_of me db k =
     map_option (\<lambda>r. synced_row k r (case row_by r of Some b \<Rightarrow> b | None \<Rightarrow> me)) (find (\<lambda>r. row_uuid r = Some k) (mem_rows db))"

lemma find_row_iff:
  assumes "db_ok db"
  shows "find (\<lambda>r. row_uuid r = Some k) (mem_rows db) = Some r \<longleftrightarrow> r \<in> set (mem_rows db) \<and> row_uuid r = Some k"
proof
  assume "find (\<lambda>r. row_uuid r = Some k) (mem_rows db) = Some r"
  from find_hit [OF this] show "r \<in> set (mem_rows db) \<and> row_uuid r = Some k" .
next
  assume "r \<in> set (mem_rows db) \<and> row_uuid r = Some k"
  then show "find (\<lambda>r. row_uuid r = Some k) (mem_rows db) = Some r"
    using assms by (intro find_unique) (auto simp: db_ok_def)
qed

lemma same_id: "db_ok db \<Longrightarrow> r \<in> set (mem_rows db) \<Longrightarrow> s \<in> set (mem_rows db) \<Longrightarrow> row_id r = row_id s \<Longrightarrow> r = s"
  by (auto simp: db_ok_def distinct_map dest: inj_onD)

text \<open>Two tables that hold the same rows of each identifier.\<close>

lemma memories_of_iff:
  assumes "db_ok db"
  shows "memories_of me db k = Some v \<longleftrightarrow>
    (\<exists>r \<in> set (mem_rows db). row_uuid r = Some k \<and> v = synced_row k r (case row_by r of Some b \<Rightarrow> b | None \<Rightarrow> me))"
  by (auto simp: memories_of_def find_row_iff [OF assms])

lemma memories_of_None:
  "memories_of me db k = None \<longleftrightarrow> (\<forall>r \<in> set (mem_rows db). row_uuid r \<noteq> Some k)"
  by (auto simp: memories_of_def find_None_iff)

lemma delete_spec:
  assumes "db_ok db"
  shows "db_ok (delete_memory_by_sync_uuid u db)"
    and "memories_of me (delete_memory_by_sync_uuid u db) k = (if k = u then None else memories_of me db k)"
proof -
  let ?d = "delete_memory_by_sync_uuid u db"
  have s: "set (mem_rows ?d) = {r \<in> set (mem_rows db). row_uuid r \<noteq> Some u}" "next_row ?d = next_row db"
    by (auto simp: delete_memory_by_sync_uuid_def)
  have "distinct (map row_id (mem_rows ?d))"
    using assms by (simp add: db_ok_def delete_memory_by_sync_uuid_def distinct_map_filter)
  then show ok: "db_ok ?d" using assms unfolding db_ok_def s by auto
  show "memories_of me ?d k = (if k = u then None else memories_of me db k)"
  proof (cases "k = u")
    case True
    then show ?thesis by (simp add: memories_of_None s)
  next
    case False
    have "memories_of me ?d k = Some v \<longleftrightarrow> memories_of me db k = Some v" for v
      unfolding memories_of_iff [OF ok] memories_of_iff [OF assms] s using False by auto
    then show ?thesis using False by (metis option.exhaust)
  qed
qed

lemma upsert_spec:
  assumes "db_ok db"
  shows "db_ok (upsert_synced_memory v db)"
    and "memories_of me (upsert_synced_memory v db) k = (if k = sm_uuid v then Some v else memories_of me db k)"
proof -
  let ?d = "upsert_synced_memory v db"
  have both: "db_ok ?d \<and> memories_of me ?d k = (if k = sm_uuid v then Some v else memories_of me db k)"
  proof (cases "find (\<lambda>r. row_uuid r = Some (sm_uuid v)) (mem_rows db)")
    case None
    then have n: "\<forall>r \<in> set (mem_rows db). row_uuid r \<noteq> Some (sm_uuid v)" by (auto simp: find_None_iff)
    obtain new where new: "mem_rows ?d = mem_rows db @ [new]" "row_id new = next_row db" "row_uuid new = Some (sm_uuid v)"
      "synced_row (sm_uuid v) new (case row_by new of Some b \<Rightarrow> b | None \<Rightarrow> me) = v" "next_row ?d = next_row db + 1"
      using None by (simp add: upsert_synced_memory_def synced_row_def)
    have ok: "db_ok ?d" using assms n unfolding db_ok_def new(1) new(5) by (auto simp: new(2,3))
    have "memories_of me ?d k = Some w \<longleftrightarrow> (if k = sm_uuid v then Some v else memories_of me db k) = Some w" for w
      unfolding memories_of_iff [OF ok] using new n
      by (cases "k = sm_uuid v") (auto simp: memories_of_iff [OF assms])
    then show ?thesis using ok by (metis option.exhaust)
  next
    case (Some old)
    then have old: "old \<in> set (mem_rows db)" "row_uuid old = Some (sm_uuid v)" using find_row_iff [OF assms] by auto
    define upd where "upd r = (if row_id r = row_id old
              then r\<lparr>row_content := sm_content v, row_source := sm_source v, row_context := sm_context v,
                     row_tags := Some (sm_tags v), row_importance := sm_importance v,
                     row_created := sm_created v, row_updated := sm_updated v, row_by := Some (sm_by v)\<rparr>
              else r)" for r :: memory_row
    have d: "mem_rows ?d = map upd (mem_rows db)" "next_row ?d = next_row db"
      using Some by (simp_all add: upsert_synced_memory_def upd_def)
    have u: "row_id (upd r) = row_id r" "row_uuid (upd r) = row_uuid r" for r by (simp_all add: upd_def)
    have keep: "upd r = r" if "r \<in> set (mem_rows db)" "row_uuid r \<noteq> Some (sm_uuid v)" for r
      using that same_id [OF assms that(1) old(1)] old(2) by (auto simp: upd_def)
    have new: "synced_row (sm_uuid v) (upd old) (case row_by (upd old) of Some b \<Rightarrow> b | None \<Rightarrow> me) = v"
      by (simp add: upd_def synced_row_def)
    have ok: "db_ok ?d" using assms unfolding db_ok_def d by (fastforce simp: u comp_def)
    have f: "find (\<lambda>r. row_uuid r = Some k) (map upd (mem_rows db)) = map_option upd (find (\<lambda>r. row_uuid r = Some k) (mem_rows db))"
      by (simp add: find_map u comp_def)
    have "memories_of me ?d k = (if k = sm_uuid v then Some v else memories_of me db k)"
    proof (cases "find (\<lambda>r. row_uuid r = Some k) (mem_rows db)")
      case None
      then have "k \<noteq> sm_uuid v" using Some by auto
      then show ?thesis using None f by (simp add: memories_of_def d)
    next
      case (Some r)
      note r = find_hit [OF Some]
      show ?thesis
      proof (cases "k = sm_uuid v")
        case True
        then have "r = old" using Some \<open>find _ _ = Some old\<close> by simp
        then show ?thesis using Some f new True by (simp add: memories_of_def d)
      next
        case False
        then have "upd r = r" using keep r by simp
        then show ?thesis using Some f False by (simp add: memories_of_def d)
      qed
    qed
    then show ?thesis using ok by simp
  qed
  then show "db_ok ?d" "memories_of me ?d k = (if k = sm_uuid v then Some v else memories_of me db k)" by auto
qed

section \<open>The local manifest\<close>

definition identified :: "memory_env \<Rightarrow> rstr \<Rightarrow> memory_row \<Rightarrow> memory_row" where
  "identified env me r =
     (if row_uuid r = None \<and> mint_ok env (row_id r)
      then r\<lparr>row_uuid := Some (mint env (row_id r)), row_by := Some me\<rparr> else r)"

definition identified_db :: "memory_env \<Rightarrow> rstr \<Rightarrow> memory_db \<Rightarrow> memory_db" where
  "identified_db env me db = db\<lparr>mem_rows := map (identified env me) (mem_rows db)\<rparr>"

lemma identity_elsewhere:
  "\<forall>r \<in> set xs. row_id r \<noteq> i \<Longrightarrow> map (\<lambda>r. if row_id r = i \<and> row_uuid r = None then f r else r) xs = xs"
  by (induction xs) simp_all

lemma publish_db:
  assumes "distinct (map row_id (xs @ ys))"
  shows "mem_rows (snd (fold (publish_row env me) ys (m, db\<lparr>mem_rows := map (identified env me) xs @ ys\<rparr>)))
      = map (identified env me) (xs @ ys)
    \<and> next_row (snd (fold (publish_row env me) ys (m, db\<lparr>mem_rows := map (identified env me) xs @ ys\<rparr>))) = next_row db"
  using assms
proof (induction ys arbitrary: xs m)
  case (Cons y ys)
  have o: "row_id r \<noteq> row_id y" if "r \<in> set xs \<union> set ys" for r using Cons.prems that by (auto simp del: not_None_eq) (metis imageI)+
  have i: "row_id (identified env me r) = row_id r" for r by (simp add: identified_def)
  have s: "set_memory_sync_identity (row_id y) (mint env (row_id y)) me (db\<lparr>mem_rows := map (identified env me) xs @ y # ys\<rparr>)
      = db\<lparr>mem_rows := map (identified env me) xs @
          (if row_uuid y = None then y\<lparr>row_uuid := Some (mint env (row_id y)), row_by := Some me\<rparr> else y) # ys\<rparr>"
  proof -
    have "\<forall>r \<in> set (map (identified env me) xs). row_id r \<noteq> row_id y" "\<forall>r \<in> set ys. row_id r \<noteq> row_id y"
      using o by (simp_all add: i)
    from identity_elsewhere [OF this(1)] identity_elsewhere [OF this(2)] show ?thesis
      by (simp add: set_memory_sync_identity_def del: map_map)
  qed
  let ?p = "publish_row env me y (m, db\<lparr>mem_rows := map (identified env me) xs @ y # ys\<rparr>)"
  have "snd ?p = db\<lparr>mem_rows := map (identified env me) (xs @ [y]) @ ys\<rparr>"
  proof (cases "row_uuid y")
    case None
    then show ?thesis using s by (simp add: publish_row_def identified_def)
  next
    case (Some u)
    then show ?thesis by (simp add: publish_row_def identified_def)
  qed
  then obtain m' where "?p = (m', db\<lparr>mem_rows := map (identified env me) (xs @ [y]) @ ys\<rparr>)" by (metis prod.collapse)
  then show ?case using Cons.IH [of "xs @ [y]" m'] Cons.prems by simp
qed simp

lemma publish_entries:
  "entries (fst (fold (publish_row env me) rs p)) k =
     (case find (\<lambda>r. row_uuid r = Some k) (rev (map (identified env me) rs)) of
        Some r \<Rightarrow> Some (synced_row k r (case row_by r of Some b \<Rightarrow> b | None \<Rightarrow> me))
      | None \<Rightarrow> entries (fst p) k)"
  "tombstones (fst (fold (publish_row env me) rs p)) = tombstones (fst p)"
proof (induction rs rule: rev_induct)
  case (snoc r rs)
  let ?q = "fold (publish_row env me) rs p"
  have "entries (fst (publish_row env me r ?q)) k =
      (if row_uuid (identified env me r) = Some k
       then Some (synced_row k (identified env me r) (case row_by (identified env me r) of Some b \<Rightarrow> b | None \<Rightarrow> me))
       else entries (fst ?q) k)"
    by (cases ?q) (auto simp: publish_row_def identified_def synced_row_def split: option.split)
  moreover have "tombstones (fst (publish_row env me r ?q)) = tombstones (fst ?q)"
    by (cases ?q) (auto simp: publish_row_def split: option.split)
  ultimately show "entries (fst (fold (publish_row env me) (rs @ [r]) p)) k =
     (case find (\<lambda>r. row_uuid r = Some k) (rev (map (identified env me) (rs @ [r]))) of
        Some r \<Rightarrow> Some (synced_row k r (case row_by r of Some b \<Rightarrow> b | None \<Rightarrow> me))
      | None \<Rightarrow> entries (fst p) k)"
    "tombstones (fst (fold (publish_row env me) (rs @ [r]) p)) = tombstones (fst p)"
    using snoc.IH by simp_all
qed simp_all

text \<open>The manifest shows the rows of the table once every row has its identifier, and the log.\<close>

lemma local_manifest:
  assumes "rows_readable env" "db_ok (identified_db env me (dev_db d))" "build_memories_local_manifest env me d = (l, d')"
  shows "entries l k = memories_of me (identified_db env me (dev_db d)) k" "tombstones l = dev_log d"
    "d' = d\<lparr>dev_db := identified_db env me (dev_db d)\<rparr>"
proof -
  let ?db = "dev_db d" and ?e = "empty_manifest (mem_sync env) me :: synced_memory manifest"
  let ?f = "fold (publish_row env me) (mem_rows ?db) (?e, ?db)"
  have i: "map row_id (map (identified env me) rs) = map row_id rs" for rs by (simp add: identified_def)
  have dist: "distinct (map row_id (mem_rows ?db))" using assms(2) unfolding db_ok_def identified_db_def by (simp add: i [symmetric])
  have db: "snd ?f = identified_db env me ?db"
    using publish_db [of "[]" "mem_rows ?db" env me ?e ?db] dist by (simp add: identified_db_def)
  have f: "find (\<lambda>r. row_uuid r = Some k) (rev xs) = find (\<lambda>r. row_uuid r = Some k) xs"
    if "\<And>r s. r \<in> set xs \<Longrightarrow> s \<in> set xs \<Longrightarrow> row_uuid r = Some k \<Longrightarrow> row_uuid s = Some k \<Longrightarrow> r = s" for xs :: "memory_row list"
  proof (cases "find (\<lambda>r. row_uuid r = Some k) xs")
    case None
    then have "find (\<lambda>r. row_uuid r = Some k) (rev xs) = None" by (simp add: find_None_iff)
    with None show ?thesis by simp
  next
    case (Some r)
    with find_hit [OF Some] that show ?thesis by (intro find_unique [THEN trans]) auto
  qed
  have u: "r = s" if "r \<in> set (mem_rows (identified_db env me ?db))" "s \<in> set (mem_rows (identified_db env me ?db))"
    "row_uuid r = Some k" "row_uuid s = Some k" for r s using assms(2) that by (simp add: db_ok_def)
  obtain m0 where m0: "?f = (m0, identified_db env me ?db)" using db by (metis prod.collapse)
  have e: "entries m0 k = memories_of me (identified_db env me ?db) k"
  proof -
    have "find (\<lambda>r. row_uuid r = Some k) (rev (map (identified env me) (mem_rows ?db)))
        = find (\<lambda>r. row_uuid r = Some k) (mem_rows (identified_db env me ?db))"
    proof -
      have x: "map (identified env me) (mem_rows ?db) = mem_rows (identified_db env me ?db)" by (simp add: identified_db_def)
      show ?thesis unfolding x by (rule f) (rule u)
    qed
    from publish_entries(1) [of env me "mem_rows ?db" "(?e, ?db)" k, unfolded this] show ?thesis
      unfolding m0 memories_of_def by (cases "find (\<lambda>r. row_uuid r = Some k) (mem_rows (identified_db env me ?db))")
        (simp_all add: empty_manifest_def)
  qed
  have t: "tombstones m0 = Map.empty"
    using publish_entries(2) [of env me "mem_rows ?db" "(?e, ?db)", unfolded m0] by (simp add: empty_manifest_def)
  have "(l, d') = (m0\<lparr>tombstones := dev_log d\<rparr>, d\<lparr>dev_db := identified_db env me ?db\<rparr>)"
    unfolding assms(3) [symmetric] build_memories_local_manifest_def using assms(1) by (simp add: m0 t)
  then show "entries l k = memories_of me (identified_db env me ?db) k" "tombstones l = dev_log d"
    "d' = d\<lparr>dev_db := identified_db env me (dev_db d)\<rparr>" using e by simp_all
qed

section \<open>What applying the actions does\<close>

definition keyed :: "synced_memory manifest \<Rightarrow> bool" where
  "keyed m \<longleftrightarrow> (\<forall>k v. entries m k = Some v \<longrightarrow> sm_uuid v = k)"

lemma apply_one:
  assumes "db_ok db" "\<forall>u. write_ok env u" "keyed m"
  obtains db' where "apply_memory_action env m a (db, errs) = (db', errs)" "db_ok db'"
    "\<And>k. memories_of me db' k = (if k = action_name a then action_effect m a (memories_of me db k) else memories_of me db k)"
proof -
  have import: "\<exists>db'. (case entries m u of
          Some v \<Rightarrow> if write_ok env u then (upsert_synced_memory v db, errs) else (db, errs @ [UpsertFailed u])
        | None \<Rightarrow> (db, errs)) = (db', errs) \<and> db_ok db'
      \<and> (\<forall>k. memories_of me db' k = (if k = u then (case entries m u of Some v \<Rightarrow> Some v | None \<Rightarrow> memories_of me db k)
                                   else memories_of me db k))" for u
  proof (cases "entries m u")
    case None
    then show ?thesis using assms(1) by simp
  next
    case (Some v)
    then have "sm_uuid v = u" using assms(3) by (simp add: keyed_def)
    then show ?thesis using Some assms(2) upsert_spec [OF assms(1), where v = v] by simp
  qed
  have "\<exists>db'. apply_memory_action env m a (db, errs) = (db', errs) \<and> db_ok db'
      \<and> (\<forall>k. memories_of me db' k = (if k = action_name a then action_effect m a (memories_of me db k) else memories_of me db k))"
  proof (cases a)
    case (Imported u)
    then show ?thesis
      by (simp only: apply_memory_action_def action_effect_def Let_def sync_action.case prod.case action_name.simps import)
  next
    case (Updated u)
    then show ?thesis
      by (simp only: apply_memory_action_def action_effect_def Let_def sync_action.case prod.case action_name.simps import)
  next
    case (Deleted u)
    then show ?thesis using assms(2) delete_spec [OF assms(1), where u = u] by (simp add: apply_memory_action_def action_effect_def)
  next
    case (Skipped u)
    then show ?thesis using assms(1) by (simp add: apply_memory_action_def action_effect_def)
  qed
  then show ?thesis using that by blast
qed

lemma apply_many:
  assumes "db_ok db" "\<forall>u. write_ok env u" "keyed m" "distinct (map action_name acts)"
  shows "\<exists>db'. fold (apply_memory_action env m) acts (db, errs) = (db', errs) \<and> db_ok db'
    \<and> (\<forall>a \<in> set acts. memories_of me db' (action_name a) = action_effect m a (memories_of me db (action_name a)))
    \<and> (\<forall>k. k \<notin> action_name ` set acts \<longrightarrow> memories_of me db' k = memories_of me db k)"
  using assms(1,4)
proof (induction acts arbitrary: db)
  case (Cons a acts)
  obtain db1 where 1: "apply_memory_action env m a (db, errs) = (db1, errs)" "db_ok db1"
    "\<And>k. memories_of me db1 k = (if k = action_name a then action_effect m a (memories_of me db k) else memories_of me db k)"
    using apply_one [OF Cons.prems(1) assms(2,3)] by metis
  have "distinct (map action_name acts)" using Cons.prems(2) by simp
  from Cons.IH [OF 1(2) this] obtain db' where 2: "fold (apply_memory_action env m) acts (db1, errs) = (db', errs)" "db_ok db'"
    "\<forall>a \<in> set acts. memories_of me db' (action_name a) = action_effect m a (memories_of me db1 (action_name a))"
    "\<forall>k. k \<notin> action_name ` set acts \<longrightarrow> memories_of me db' k = memories_of me db1 k" by blast
  have n: "action_name a \<notin> action_name ` set acts" using Cons.prems(2) by simp
  have "memories_of me db' (action_name b) = action_effect m b (memories_of me db (action_name b))" if "b \<in> set (a # acts)" for b
  proof (cases "b = a")
    case True
    then show ?thesis using 2(4) n 1(3) by simp
  next
    case False
    then have b: "b \<in> set acts" using that by simp
    then have "action_name b \<noteq> action_name a" using n by (metis imageI)
    then show ?thesis using 2(3) b 1(3) by simp
  qed
  then show ?case using 1 2 by simp
qed simp

section \<open>A cycle\<close>

definition good_remote :: "synced_memory manifest \<Rightarrow> bool" where
  "good_remote m \<longleftrightarrow> small m \<and> tidy m \<and> keyed m"

definition good_device :: "memory_env \<Rightarrow> rstr \<Rightarrow> memory_device \<Rightarrow> bool" where
  "good_device env me d \<longleftrightarrow> db_ok (identified_db env me (dev_db d)) \<and> finite (dom (dev_log d))"

definition good_memory_env :: "memory_env \<Rightarrow> bool" where
  "good_memory_env env \<longleftrightarrow> enumerates (mem_sync env) \<and> rows_readable env \<and> (\<forall>u. write_ok env u)"

definition settled_rows :: "memory_env \<Rightarrow> memory_db \<Rightarrow> bool" where
  "settled_rows env db \<longleftrightarrow> (\<forall>r \<in> set (mem_rows db). row_uuid r = None \<longrightarrow> \<not> mint_ok env (row_id r))"

lemma settled_identified: "settled_rows env (identified_db env me db)"
  by (auto simp: settled_rows_def identified_db_def identified_def)

lemma settled_again: "settled_rows env db \<Longrightarrow> identified_db env me db = db"
proof -
  assume "settled_rows env db"
  then have "map (identified env me) (mem_rows db) = mem_rows db"
    by (intro map_idI) (auto simp: settled_rows_def identified_def)
  then show ?thesis by (simp add: identified_db_def)
qed

lemma settled_apply: "settled_rows env db \<Longrightarrow> settled_rows env (fst (apply_memory_action env m a (db, errs)))"
proof -
  assume s: "settled_rows env db"
  have "settled_rows env (upsert_synced_memory v db)" for v
    using s by (auto simp: settled_rows_def upsert_synced_memory_def split: option.split)
  moreover have "settled_rows env (delete_memory_by_sync_uuid u db)" for u
    using s by (simp add: settled_rows_def delete_memory_by_sync_uuid_def)
  ultimately show ?thesis using s
    by (cases a) (simp_all add: apply_memory_action_def split: option.split)
qed

lemma settled_fold: "settled_rows env db \<Longrightarrow> settled_rows env (fst (fold (apply_memory_action env m) acts (db, errs)))"
proof (induction acts arbitrary: db errs)
  case (Cons a acts)
  obtain db1 e1 where 1: "apply_memory_action env m a (db, errs) = (db1, e1)" by fastforce
  then have "settled_rows env db1" using settled_apply [OF Cons.prems] by (metis fst_conv)
  then show ?case using Cons.IH 1 by simp
qed simp

lemma memories_finite: "finite (dom (memories_of me db))"
proof -
  have "dom (memories_of me db) \<subseteq> the ` row_uuid ` set (mem_rows db)"
    by (auto simp: memories_of_None domIff image_iff) (metis memories_of_None option.sel option.distinct(1))
  then show ?thesis by (rule finite_subset) simp
qed

lemma memories_keyed: "memories_of me db k = Some v \<Longrightarrow> sm_uuid v = k"
  by (auto simp: memories_of_def synced_row_def)

lemma local_manifest_good:
  assumes "good_memory_env env" "good_device env me d"
  obtains l where "build_memories_local_manifest env me d = (l, d\<lparr>dev_db := identified_db env me (dev_db d)\<rparr>)"
    "entries l = memories_of me (identified_db env me (dev_db d))" "tombstones l = dev_log d" "small l" "keyed l"
proof -
  obtain l d' where b: "build_memories_local_manifest env me d = (l, d')" by fastforce
  have e: "rows_readable env" "db_ok (identified_db env me (dev_db d))" using assms by (simp_all add: good_memory_env_def good_device_def)
  note l = local_manifest [OF e b]
  have "entries l = memories_of me (identified_db env me (dev_db d))" using l(1) by (rule ext)
  then show ?thesis using that [of l] b l memories_finite memories_keyed assms(2)
    by (simp add: small_def keyed_def good_device_def)
qed

lemma merge_keyed:
  assumes "enumerates (mem_sync env)" "small l" "small r" "tidy r" "keyed l" "keyed r" "merge_memories (mem_sync env) l r me = (m, acts)"
  shows "keyed m"
proof -
  have "entries l k = Some v \<or> entries r k = Some v" if "entries m k = Some v" for k v
  proof -
    have "join (remote_wins (mem_sync env)) sm_updated (mem_sync env) (fate_of l k) (fate_of r k) = Live v"
    proof -
      have "fate_of m k = Live v" using that by simp
      then show ?thesis
        using merge_fates [OF assms(1-4), of "remote_wins (mem_sync env)" sm_updated me k] assms(7)
        by (simp add: merge_memories_def del: fate_live_iff)
    qed
    then have "fate_of l k = Live v \<or> fate_of r k = Live v"
      by (cases "fate_of l k"; cases "fate_of r k") (auto simp del: fate_live_iff split: if_splits)
    then show ?thesis by simp
  qed
  then show ?thesis using assms(5,6) unfolding keyed_def by blast
qed

lemma cycle_facts:
  assumes "good_memory_env env" "good_device env me d" "good_remote remote"
    "run_background_memories_sync env me (Some remote) d = (d', merged, actions, errors)"
  shows "errors = [] \<and> memories_of me (dev_db d') = entries merged \<and> good_remote merged \<and> dev_log d' = dev_log d
    \<and> settled_rows env (dev_db d') \<and> db_ok (dev_db d')"
    and "\<And>l. build_memories_local_manifest env me d = (l, d\<lparr>dev_db := identified_db env me (dev_db d)\<rparr>) \<Longrightarrow>
      merge_memories (mem_sync env) l remote me = (merged, actions)"
proof -
  obtain l where l: "build_memories_local_manifest env me d = (l, d\<lparr>dev_db := identified_db env me (dev_db d)\<rparr>)"
    "entries l = memories_of me (identified_db env me (dev_db d))" "tombstones l = dev_log d" "small l" "keyed l"
    using local_manifest_good [OF assms(1,2)] .
  have r: "small remote" "tidy remote" "keyed remote" using assms(3) by (simp_all add: good_remote_def)
  have en: "enumerates (mem_sync env)" "\<forall>u. write_ok env u" using assms(1) by (simp_all add: good_memory_env_def)
  obtain m acts where m: "merge_memories (mem_sync env) l remote me = (m, acts)" by fastforce
  note mm = m [unfolded merge_memories_def]
  have km: "keyed m" by (rule merge_keyed [OF en(1) l(4) r(1,2) l(5) r(3) m])
  have sm: "small m" "tidy m"
    using merge_small [OF en(1) l(4) r(1,2), of "remote_wins (mem_sync env)" sm_updated me]
      merge_tidy [OF en(1) l(4) r(1,2), of "remote_wins (mem_sync env)" sm_updated me] by (simp_all add: mm)
  note eff = merged_effects [OF en(1) l(4) r(1,2) mm]
  have dist: "distinct (map action_name acts)" using eff(1) all_names_set [OF en(1) l(4) r(1)] by simp
  let ?db = "identified_db env me (dev_db d)"
  have ok: "db_ok ?db" using assms(2) by (simp add: good_device_def)
  from apply_many [OF ok en(2) km dist, of "[]" me] obtain db' where a:
    "fold (apply_memory_action env m) acts (?db, []) = (db', [])" "db_ok db'"
    "\<forall>a \<in> set acts. memories_of me db' (action_name a) = action_effect m a (memories_of me ?db (action_name a))"
    "\<forall>k. k \<notin> action_name ` set acts \<longrightarrow> memories_of me db' k = memories_of me ?db k" by blast
  have mem: "memories_of me db' k = entries m k" for k
  proof (cases "k \<in> action_name ` set acts")
    case True
    then obtain a where "a \<in> set acts" "k = action_name a" by blast
    then show ?thesis using a(3) eff(2) l(2) by simp
  next
    case False
    then show ?thesis using a(4) eff(3) l(2) by simp
  qed
  have "settled_rows env db'" using settled_fold [OF settled_identified, of env m acts me "dev_db d" "[]"] a(1) by simp
  moreover have run: "d' = d\<lparr>dev_db := db'\<rparr>" "merged = m" "actions = acts" "errors = []"
    using assms(4) l(1) m a(1)
    by (simp_all add: run_background_memories_sync_def downloaded_def apply_memories_manifest_to_db_def)
  ultimately show "errors = [] \<and> memories_of me (dev_db d') = entries merged \<and> good_remote merged \<and> dev_log d' = dev_log d
    \<and> settled_rows env (dev_db d') \<and> db_ok (dev_db d')"
    using mem a(2) sm km by (auto simp: good_remote_def)
  show "merge_memories (mem_sync env) l' remote me = (merged, actions)"
    if "build_memories_local_manifest env me d = (l', d\<lparr>dev_db := identified_db env me (dev_db d)\<rparr>)" for l'
    using that l(1) m run by simp
qed

lemma device_after:
  "settled_rows env (dev_db d) \<Longrightarrow> db_ok (dev_db d) \<Longrightarrow> finite (dom (dev_log d)) \<Longrightarrow> good_device env me d"
  by (simp add: good_device_def settled_again)

text \<open>After a cycle without failed writes the table holds exactly the rows the device published, and a
  second cycle against them skips every name, publishes the same rows and leaves the table as it is.\<close>

theorem memory_cycle_settles:
  assumes "good_memory_env env" "good_device env me d" "good_remote remote"
    "run_background_memories_sync env me (Some remote) d = (d1, m1, acts1, errs1)"
    "run_background_memories_sync env me (Some m1) d1 = (d2, m2, acts2, errs2)"
  shows "memories_of me (dev_db d1) = entries m1 \<and> tidy m1 \<and> errs1 = []
    \<and> entries m2 = entries m1 \<and> memories_of me (dev_db d2) = entries m1
    \<and> list_all (\<lambda>a. \<exists>k. a = Skipped k) acts2"
proof -
  note c1 = cycle_facts(1) [OF assms(1-4)]
  have g1: "good_device env me d1" using c1 assms(2) by (intro device_after) (simp_all add: good_device_def)
  have r1: "good_remote m1" using c1 by simp
  note c2 = cycle_facts [OF assms(1) g1 r1 assms(5)]
  obtain l where l: "build_memories_local_manifest env me d1 = (l, d1\<lparr>dev_db := identified_db env me (dev_db d1)\<rparr>)"
    "entries l = memories_of me (identified_db env me (dev_db d1))" "tombstones l = dev_log d1" "small l" "keyed l"
    using local_manifest_good [OF assms(1) g1] .
  have "entries l = entries m1" using l(2) c1 settled_again by simp
  moreover have "enumerates (mem_sync env)" "small m1" "tidy m1"
    using assms(1) r1 by (simp_all add: good_memory_env_def good_remote_def)
  ultimately have "entries m2 = entries m1 \<and> list_all (\<lambda>a. \<exists>k. a = Skipped k) acts2"
    using memories.merge_again [of "mem_sync env" l m1 me] l(4) c2(2) [OF l(1)] by (simp add: merge_memories_def)
  then show ?thesis using c1 c2(1) r1 by (simp add: good_remote_def)
qed

section \<open>Devices that take turns\<close>

fun take_turns ::
  "memory_env \<Rightarrow> (rstr \<times> memory_device) list \<Rightarrow> synced_memory manifest
    \<Rightarrow> (rstr \<times> memory_device) list \<times> synced_memory manifest" where
  "take_turns env [] cloud = ([], cloud)"
| "take_turns env ((me, d) # ds) cloud =
     (let (d', merged, actions, errors) = run_background_memories_sync env me (Some cloud) d;
          (ds', cloud') = take_turns env ds merged
      in ((me, d') # ds', cloud'))"

text \<open>A deletion that the log of a device records is no newer than a row that is there.\<close>

definition good_party :: "memory_env \<Rightarrow> rstr \<times> memory_device \<Rightarrow> bool" where
  "good_party env = (\<lambda>(me, d). good_device env me d
     \<and> (\<forall>k v t. memories_of me (identified_db env me (dev_db d)) k = Some v \<longrightarrow> dev_log d k = Some t
          \<longrightarrow> parse_rfc3339 (mem_sync env) t \<le> parse_rfc3339 (mem_sync env) (sm_updated v)))"

definition party_fate :: "memory_env \<Rightarrow> rstr \<Rightarrow> rstr \<times> memory_device \<Rightarrow> synced_memory fate" where
  "party_fate env k = (\<lambda>(me, d). fate_of (fst (build_memories_local_manifest env me d)) k)"

definition told :: "memory_env \<Rightarrow> rstr \<Rightarrow> (rstr \<times> memory_device) list \<Rightarrow> synced_memory manifest \<Rightarrow> synced_memory fate set" where
  "told env k ds cloud = insert (fate_of cloud k) (party_fate env k ` set ds
     \<union> {Buried t |t. \<exists>p \<in> set ds. dev_log (snd p) k = Some t})"

lemma unambiguous_gone: "unambiguous newer env S \<Longrightarrow> unambiguous newer env (insert Gone S)"
  by (simp add: unambiguous_def unexpired_def)

abbreviation "mem_le env \<equiv> fate_le (remote_wins (mem_sync env)) sm_updated (mem_sync env)"

lemma party_fate_good:
  assumes "good_memory_env env" "good_device env me d"
  shows "party_fate env k (me, d) =
     (case memories_of me (identified_db env me (dev_db d)) k of
        Some v \<Rightarrow> Live v
      | None \<Rightarrow> (case dev_log d k of Some t \<Rightarrow> Buried t | None \<Rightarrow> Gone))"
  by (rule local_manifest_good [OF assms]) (simp add: party_fate_def fate_of_def split: option.split)

text \<open>One turn takes the larger of the two fates, and the device then shows it.\<close>

lemma turn_fates:
  assumes "good_memory_env env" "good_device env me d" "good_remote cloud"
    "run_background_memories_sync env me (Some cloud) d = (d', merged, actions, errors)"
    "unambiguous (remote_wins (mem_sync env)) (mem_sync env) S" "fate_of cloud k \<in> S" "party_fate env k (me, d) \<in> S"
  shows "fate_of merged k = (if mem_le env (fate_of cloud k) (party_fate env k (me, d)) then party_fate env k (me, d) else fate_of cloud k)"
proof -
  obtain l where l: "build_memories_local_manifest env me d = (l, d\<lparr>dev_db := identified_db env me (dev_db d)\<rparr>)"
    "small l" using local_manifest_good [OF assms(1,2)] by metis
  have p: "party_fate env k (me, d) = fate_of l k" by (simp add: party_fate_def l(1))
  have "enumerates (mem_sync env)" "small cloud" "tidy cloud"
    using assms(1,3) by (simp_all add: good_memory_env_def good_remote_def)
  from merge_fates [OF this(1) l(2) this(2,3), of "remote_wins (mem_sync env)" sm_updated me k]
    cycle_facts(2) [OF assms(1-4) l(1)]
  have "fate_of merged k = join (remote_wins (mem_sync env)) sm_updated (mem_sync env) (fate_of l k) (fate_of cloud k)"
    by (simp add: merge_memories_def)
  then show ?thesis using memories.join_is_max [OF assms(5), of "fate_of l k" "fate_of cloud k"] assms(6,7) p by simp
qed

lemma turns_reach_max:
  assumes "good_memory_env env" "\<forall>(me, d) \<in> set ds. good_device env me d" "good_remote cloud"
    "take_turns env ds cloud = (ds', cloud')" "unambiguous (remote_wins (mem_sync env)) (mem_sync env) S"
    "fate_of cloud k \<in> S" "\<forall>p \<in> set ds. party_fate env k p \<in> S"
  shows "good_remote cloud' \<and> fate_of cloud' k \<in> S \<and> mem_le env (fate_of cloud k) (fate_of cloud' k)
    \<and> (\<forall>p \<in> set ds. mem_le env (party_fate env k p) (fate_of cloud' k))
    \<and> list_all2 (\<lambda>(me, d) (me', d'). me' = me \<and> dev_log d' = dev_log d \<and> settled_rows env (dev_db d') \<and> db_ok (dev_db d')
          \<and> (\<exists>f \<in> S. mem_le env f (fate_of cloud' k)
                \<and> memories_of me' (dev_db d') k = (case f of Live v \<Rightarrow> Some v | _ \<Rightarrow> None))) ds ds'"
  using assms(2-4,6,7)
proof (induction ds arbitrary: cloud ds')
  case Nil
  then show ?case using memories.le_total by auto
next
  case (Cons p ds)
  obtain me d where p: "p = (me, d)" by (cases p)
  obtain d1 m acts errs where run: "run_background_memories_sync env me (Some cloud) d = (d1, m, acts, errs)"
    using prod_cases4 by blast
  obtain ds1 where rest: "take_turns env ds m = (ds1, cloud')" "ds' = (me, d1) # ds1"
    using Cons.prems(3) run p by (auto split: prod.splits)
  have g: "good_device env me d" using Cons.prems(1) p by simp
  note c = cycle_facts(1) [OF assms(1) g Cons.prems(2) run]
  have pS: "party_fate env k (me, d) \<in> S" using Cons.prems(5) p by simp
  note t = turn_fates [OF assms(1) g Cons.prems(2) run assms(5) Cons.prems(4) pS]
  have mS: "fate_of m k \<in> S" using t Cons.prems(4) pS by (simp split: if_splits)
  have le: "mem_le env (fate_of cloud k) (fate_of m k)" "mem_le env (party_fate env k (me, d)) (fate_of m k)"
    using t memories.le_total [of "mem_sync env" "fate_of cloud k" "fate_of cloud k"]
      memories.le_total [of "mem_sync env" "fate_of cloud k" "party_fate env k (me, d)"]
      memories.le_total [of "mem_sync env" "party_fate env k (me, d)" "party_fate env k (me, d)"]
    by (simp_all split: if_splits)
  have "good_remote m" using c by simp
  from Cons.IH [OF _ this rest(1) mS] Cons.prems(1,5) p
  have ih: "good_remote cloud'" "fate_of cloud' k \<in> S" "mem_le env (fate_of m k) (fate_of cloud' k)"
    "\<forall>p \<in> set ds. mem_le env (party_fate env k p) (fate_of cloud' k)"
    "list_all2 (\<lambda>(me, d) (me', d'). me' = me \<and> dev_log d' = dev_log d \<and> settled_rows env (dev_db d') \<and> db_ok (dev_db d')
          \<and> (\<exists>f \<in> S. mem_le env f (fate_of cloud' k)
                \<and> memories_of me' (dev_db d') k = (case f of Live v \<Rightarrow> Some v | _ \<Rightarrow> None))) ds ds1" by simp_all
  have "memories_of me (dev_db d1) k = (case fate_of m k of Live v \<Rightarrow> Some v | _ \<Rightarrow> None)"
    using c by (simp add: fate_of_def split: option.split)
  then have "\<exists>f \<in> S. mem_le env f (fate_of cloud' k) \<and> memories_of me (dev_db d1) k = (case f of Live v \<Rightarrow> Some v | _ \<Rightarrow> None)"
    using mS ih(3) by blast
  then show ?case using ih c le memories.le_trans [OF _ ih(3)] rest(2) p by simp
qed

lemma turns_keep_max:
  assumes "good_memory_env env" "\<forall>(me, d) \<in> set ds. good_device env me d" "good_remote cloud"
    "take_turns env ds cloud = (ds', cloud')" "unambiguous (remote_wins (mem_sync env)) (mem_sync env) S"
    "fate_of cloud k \<in> S" "\<forall>p \<in> set ds. party_fate env k p \<in> S \<and> mem_le env (party_fate env k p) (fate_of cloud k)"
  shows "fate_of cloud' k = fate_of cloud k
    \<and> (\<forall>(me, d) \<in> set ds'. memories_of me (dev_db d) k = (case fate_of cloud k of Live v \<Rightarrow> Some v | _ \<Rightarrow> None))"
  using assms(2-4,6,7)
proof (induction ds arbitrary: cloud ds')
  case (Cons p ds)
  obtain me d where p: "p = (me, d)" by (cases p)
  obtain d1 m acts errs where run: "run_background_memories_sync env me (Some cloud) d = (d1, m, acts, errs)"
    using prod_cases4 by blast
  obtain ds1 where rest: "take_turns env ds m = (ds1, cloud')" "ds' = (me, d1) # ds1"
    using Cons.prems(3) run p by (auto split: prod.splits)
  have g: "good_device env me d" using Cons.prems(1) p by simp
  have pS: "party_fate env k (me, d) \<in> S" "mem_le env (party_fate env k (me, d)) (fate_of cloud k)"
    using Cons.prems(5) p by simp_all
  have same: "fate_of m k = fate_of cloud k"
    using turn_fates [OF assms(1) g Cons.prems(2) run assms(5) Cons.prems(4) pS(1)]
      memories.le_antisym [OF assms(5) pS(1) Cons.prems(4) pS(2)] by (simp split: if_splits)
  note c = cycle_facts(1) [OF assms(1) g Cons.prems(2) run]
  have "memories_of me (dev_db d1) k = (case fate_of m k of Live v \<Rightarrow> Some v | _ \<Rightarrow> None)"
    using c by (simp add: fate_of_def split: option.split)
  moreover have "good_remote m" using c by simp
  ultimately show ?case
    using Cons.IH [OF _ _ rest(1)] Cons.prems(1,4,5) same rest(2) p by simp
qed simp

text \<open>What a device holds after its turn: what it read, or its own tombstone.\<close>

lemma after_turn:
  assumes "good_memory_env env" "good_device env me d" "dev_log d' = dev_log d" "settled_rows env (dev_db d')" "db_ok (dev_db d')"
    "f \<in> S" "mem_le env f m" "memories_of me (dev_db d') k = (case f of Live v \<Rightarrow> Some v | _ \<Rightarrow> None)"
    "\<forall>t. dev_log d k = Some t \<longrightarrow> Buried t \<in> S \<and> mem_le env (Buried t) m" "Gone \<in> S"
  shows "good_device env me d' \<and> party_fate env k (me, d') \<in> S \<and> mem_le env (party_fate env k (me, d')) m"
proof -
  have fin: "finite (dom (dev_log d'))" using assms(2,3) by (simp add: good_device_def)
  have gd: "good_device env me d'" by (rule device_after [OF assms(4,5) fin])
  have "party_fate env k (me, d') = (case memories_of me (dev_db d') k of
      Some v \<Rightarrow> Live v | None \<Rightarrow> (case dev_log d' k of Some t \<Rightarrow> Buried t | None \<Rightarrow> Gone))"
    using party_fate_good [OF assms(1) gd] settled_again [OF assms(4)] by simp
  then show ?thesis using assms(3,6-10) gd by (cases f) (simp_all split: option.split)
qed

lemma two_turns_fate:
  assumes "good_memory_env env" "\<forall>p \<in> set ds. good_party env p" "good_remote cloud"
    "unambiguous (remote_wins (mem_sync env)) (mem_sync env) (told env k ds cloud)"
    "take_turns env ds cloud = (ds1, c1)" "take_turns env ds1 c1 = (ds2, c2)"
  shows "fate_of c2 k = fate_of c1 k
    \<and> (\<forall>(me, d) \<in> set ds2. memories_of me (dev_db d) k = (case fate_of c1 k of Live v \<Rightarrow> Some v | _ \<Rightarrow> None))
    \<and> (\<forall>f \<in> told env k ds cloud. mem_le env f (fate_of c1 k))"
proof -
  have g: "\<forall>(me, d) \<in> set ds. good_device env me d" using assms(2) by (auto simp: good_party_def)
  let ?S = "insert Gone (told env k ds cloud)"
  have S: "unambiguous (remote_wins (mem_sync env)) (mem_sync env) ?S" using assms(4) unambiguous_gone by blast
  have "fate_of cloud k \<in> ?S" "\<forall>p \<in> set ds. party_fate env k p \<in> ?S" by (auto simp: told_def)
  from turns_reach_max [OF assms(1) g assms(3,5) S this]
  have 1: "good_remote c1" "fate_of c1 k \<in> ?S" "mem_le env (fate_of cloud k) (fate_of c1 k)"
    "\<forall>p \<in> set ds. mem_le env (party_fate env k p) (fate_of c1 k)"
    "list_all2 (\<lambda>(me, d) (me', d'). me' = me \<and> dev_log d' = dev_log d \<and> settled_rows env (dev_db d') \<and> db_ok (dev_db d')
        \<and> (\<exists>f \<in> ?S. mem_le env f (fate_of c1 k)
              \<and> memories_of me' (dev_db d') k = (case f of Live v \<Rightarrow> Some v | _ \<Rightarrow> None))) ds ds1" by simp_all
  have tomb: "mem_le env (Buried t) (fate_of c1 k)" if "(me, d) \<in> set ds" "dev_log d k = Some t" for me d t
  proof -
    have "mem_le env (Buried t) (party_fate env k (me, d))"
      using that assms(2) g by (fastforce simp: party_fate_good [OF assms(1)] good_party_def split: option.split)
    then show ?thesis using memories.le_trans 1(4) that(1) by blast
  qed
  have told: "\<forall>f \<in> told env k ds cloud. mem_le env f (fate_of c1 k)"
    using 1(3,4) tomb by (auto simp: told_def)
  have after: "good_device env me' d' \<and> party_fate env k (me', d') \<in> ?S \<and> mem_le env (party_fate env k (me', d')) (fate_of c1 k)"
    if i: "(me', d') \<in> set ds1" for me' d'
  proof -
    obtain n where n: "n < length ds1" "ds1 ! n = (me', d')" using i by (auto simp: in_set_conv_nth)
    then have len: "n < length ds" using list_all2_lengthD [OF 1(5)] by simp
    obtain me d where o: "ds ! n = (me, d)" by fastforce
    note nth = list_all2_nthD2 [OF 1(5) n(1), unfolded n(2) o prod.case]
    have in_ds: "(me, d) \<in> set ds" using o nth_mem [OF len] by simp
    have "\<forall>t. dev_log d k = Some t \<longrightarrow> Buried t \<in> ?S \<and> mem_le env (Buried t) (fate_of c1 k)"
      using tomb [OF in_ds] in_ds by (force simp: told_def)
    then show ?thesis using nth g in_ds after_turn [OF assms(1), where S = ?S] by blast
  qed
  have "\<forall>(me, d) \<in> set ds1. good_device env me d"
    "\<forall>p \<in> set ds1. party_fate env k p \<in> ?S \<and> mem_le env (party_fate env k p) (fate_of c1 k)"
    using after by auto
  from turns_keep_max [OF assms(1) this(1) 1(1) assms(6) S 1(2) this(2)] told show ?thesis by simp
qed

text \<open>C6: Let every device run one cycle after the other, twice. If every memory was deleted at most once (and its
  tombstone has not expired) and no two different versions carry the same time and author, all tables then hold
  the same memories, those of the published manifest, and of each memory it is the newest version or deletion
  that any device or the cloud knew.\<close>

theorem memories_converge:
  assumes "good_memory_env env" "\<forall>p \<in> set ds. good_party env p" "good_remote cloud"
    "\<forall>k. unambiguous (remote_wins (mem_sync env)) (mem_sync env) (told env k ds cloud)"
    "take_turns env ds cloud = (ds1, c1)" "take_turns env ds1 c1 = (ds2, c2)"
  shows "(\<forall>(me, d) \<in> set ds2. memories_of me (dev_db d) = entries c2)
    \<and> (\<forall>k. \<forall>f \<in> told env k ds cloud. mem_le env f (fate_of c2 k))"
proof -
  note turns = two_turns_fate [OF assms(1-3) spec [OF assms(4)] assms(5,6)]
  have row: "entries m k = (case fate_of m k of Live v \<Rightarrow> Some v | _ \<Rightarrow> None)" for m :: "synced_memory manifest" and k
    by (simp add: fate_of_def split: option.split)
  have "memories_of me (dev_db d) = entries c2" if "(me, d) \<in> set ds2" for me d
  proof
    fix k
    have "memories_of me (dev_db d) k = (case fate_of c1 k of Live v \<Rightarrow> Some v | _ \<Rightarrow> None)" using turns [of k] that by blast
    also have "\<dots> = entries c2 k" using turns [of k] row [of c2 k] by (simp only:)
    finally show "memories_of me (dev_db d) k = entries c2 k" .
  qed
  moreover have "mem_le env f (fate_of c2 k)" if "f \<in> told env k ds cloud" for f k
    using turns [of k] that by simp
  ultimately show ?thesis by blast
qed

section \<open>An example\<close>

text \<open>Two devices on the same clock; a timestamp is a number of hours.\<close>

definition sample_sync :: sync_env where
  "sample_sync = \<lparr>rfc3339_of = (\<lambda>s. map_option (\<lambda>n. hours (int n)) (parse_u64 s)), utc_now = hours 100,
     now_text = lit ''100'', keys_of = (\<lambda>P. sorted_list_of_set {k. P k})\<rparr>"

definition sample_memory_env :: memory_env where
  "sample_memory_env = \<lparr>mem_sync = sample_sync, mint = decimal, mint_ok = (\<lambda>_. True), write_ok = (\<lambda>_. True),
     rows_readable = True, log_writable = True\<rparr>"

definition sample_memory :: "string \<Rightarrow> string \<Rightarrow> memory_row" where
  "sample_memory text time = \<lparr>row_id = 1, row_uuid = Some (lit ''u''), row_content = lit text, row_source = lit ''user'',
     row_context = None, row_tags = None, row_importance = 1, row_created = lit ''1'', row_updated = lit time,
     row_by = None, row_frame = None\<rparr>"

definition sample_device :: "memory_row list \<Rightarrow> memory_device" where
  "sample_device rows = \<lparr>dev_db = \<lparr>mem_rows = rows, next_row = 2\<rparr>, dev_log = Map.empty\<rparr>"

lemma sample_enumerates: "enumerates sample_sync"
  by (simp add: enumerates_def sample_sync_def)

lemma sample_env_good: "good_memory_env sample_memory_env"
  by (simp add: good_memory_env_def sample_memory_env_def sample_enumerates)

lemma empty_good: "good_remote (empty_manifest env me)"
  by (simp add: good_remote_def small_def tidy_def keyed_def empty_manifest_def)

lemma sample_device_good:
  "good_device sample_memory_env me (sample_device [sample_memory text time])"
  "identified sample_memory_env me (sample_memory text time) = sample_memory text time"
  by (simp_all add: good_device_def db_ok_def identified_db_def identified_def sample_device_def sample_memory_def)

lemma sample_party_fate:
  "party_fate sample_memory_env k (me, sample_device [sample_memory text time])
    = (if k = lit ''u'' then Live (synced_row k (sample_memory text time) me) else Gone)"
  unfolding party_fate_good [OF sample_env_good sample_device_good(1)]
  by (simp add: memories_of_def identified_db_def identified_def sample_device_def sample_memory_def)

lemma memory_cycle_settles_witness:
  "let (d1, m1, acts1, errs1) = run_background_memories_sync sample_memory_env (lit ''a'')
          (Some (empty_manifest sample_sync (lit ''b''))) (sample_device [sample_memory ''tea'' ''7'']);
       (d2, m2, acts2, errs2) = run_background_memories_sync sample_memory_env (lit ''a'') (Some m1) d1
   in entries m2 = entries m1 \<and> memories_of (lit ''a'') (dev_db d2) = entries m1 \<and> list_all (\<lambda>a. \<exists>k. a = Skipped k) acts2"
proof -
  obtain d1 m1 acts1 errs1 where 1: "run_background_memories_sync sample_memory_env (lit ''a'')
      (Some (empty_manifest sample_sync (lit ''b''))) (sample_device [sample_memory ''tea'' ''7'']) = (d1, m1, acts1, errs1)"
    using prod_cases4 by blast
  obtain d2 m2 acts2 errs2 where 2: "run_background_memories_sync sample_memory_env (lit ''a'') (Some m1) d1
      = (d2, m2, acts2, errs2)" using prod_cases4 by blast
  show ?thesis
    using memory_cycle_settles [OF sample_env_good sample_device_good(1) empty_good 1 2] 1 2 by simp
qed

lemma memories_converge_witness:
  "let devices = [(lit ''a'', sample_device [sample_memory ''tea'' ''7'']), (lit ''b'', sample_device [sample_memory ''coffee'' ''9''])];
       (ds1, c1) = take_turns sample_memory_env devices (empty_manifest sample_sync (lit ''c''));
       (ds2, c2) = take_turns sample_memory_env ds1 c1
   in \<forall>(me, d) \<in> set ds2. memories_of me (dev_db d) = entries c2"
proof -
  let ?ds = "[(lit ''a'', sample_device [sample_memory ''tea'' ''7'']), (lit ''b'', sample_device [sample_memory ''coffee'' ''9''])]"
  let ?c = "empty_manifest sample_sync (lit ''c'') :: synced_memory manifest"
  obtain ds1 c1 where 1: "take_turns sample_memory_env ?ds ?c = (ds1, c1)" by fastforce
  obtain ds2 c2 where 2: "take_turns sample_memory_env ds1 c1 = (ds2, c2)" by fastforce
  have logs: "dev_log (sample_device rows) = Map.empty" for rows by (simp add: sample_device_def)
  have p: "\<forall>p \<in> set ?ds. good_party sample_memory_env p"
    using sample_device_good(1) by (simp add: good_party_def logs)
  have t7: "parse_u64 (lit ''7'') = Some 7" and t9: "parse_u64 (lit ''9'') = Some 9" by code_simp+
  have newer: "remote_wins sample_sync (synced_row (lit ''u'') (sample_memory ''tea'' ''7'') (lit ''a''))
      (synced_row (lit ''u'') (sample_memory ''coffee'' ''9'') (lit ''b''))"
    by (simp add: remote_wins_def parse_rfc3339_def synced_row_def sample_memory_def sample_sync_def t7 t9 hours_def minutes_def)
  have "unambiguous (remote_wins sample_sync) sample_sync (told sample_memory_env k ?ds ?c)" for k
    using newer by (auto simp: unambiguous_def told_def sample_party_fate logs fate_of_def empty_manifest_def unexpired_def)
  then have "\<forall>k. unambiguous (remote_wins (mem_sync sample_memory_env)) (mem_sync sample_memory_env) (told sample_memory_env k ?ds ?c)"
    by (simp add: sample_memory_env_def)
  from memories_converge [OF sample_env_good p empty_good this 1 2] show ?thesis using 1 2 by simp
qed

end
