(* ===== verification/Json.thy ===== *)
theory Json
  imports RustTime
begin

text \<open>
  Values of \<open>serde_json\<close> and the operations on them that several components use. An object is the list of its
  fields; the order of the fields is not observed.
\<close>

datatype json = JNull | JBool bool | JInt int | JReal f64 | JStr rstr | JArr "json list" | JObj "(rstr \<times> json) list"

definition json_index :: "rstr \<Rightarrow> json \<Rightarrow> json" where
  "json_index k v = (case v of JObj fs \<Rightarrow> (case map_of fs k of Some x \<Rightarrow> x | None \<Rightarrow> JNull) | _ \<Rightarrow> JNull)"

fun put_field :: "rstr \<Rightarrow> json \<Rightarrow> (rstr \<times> json) list \<Rightarrow> (rstr \<times> json) list" where
  "put_field k x [] = [(k, x)]"
| "put_field k x ((a, b) # fs) = (if a = k then (k, x) # fs else (a, b) # put_field k x fs)"

text \<open>\<open>v[k] = x\<close> makes an object of null and panics on other values.\<close>

definition json_put :: "rstr \<Rightarrow> json \<Rightarrow> json \<Rightarrow> json option" where
  "json_put k x v = (case v of JObj fs \<Rightarrow> Some (JObj (put_field k x fs)) | JNull \<Rightarrow> Some (JObj [(k, x)]) | _ \<Rightarrow> None)"

definition as_str :: "json \<Rightarrow> rstr option" where
  "as_str v = (case v of JStr s \<Rightarrow> Some s | _ \<Rightarrow> None)"

definition as_u64 :: "json \<Rightarrow> nat option" where
  "as_u64 v = (case v of JInt n \<Rightarrow> if 0 \<le> n \<and> n < 2 ^ 64 then Some (nat n) else None | _ \<Rightarrow> None)"

lemma map_of_put_field [simp]: "map_of (put_field k x fs) = (map_of fs)(k \<mapsto> x)"
  by (induction k x fs rule: put_field.induct) auto

lemma json_index_put: "json_put k x v = Some w \<Longrightarrow> json_index a w = (if a = k then x else json_index a v)"
  by (cases v) (auto simp: json_put_def json_index_def split: if_splits)

end
