(* ===== verification/PipeFiles.thy ===== *)
theory PipeFiles
  imports PipeRun SyncMerge Json
begin

text \<open>
  The files of pipes (\<open>screenpipe-core/src/pipes/mod.rs\<close>, \<open>favorites.rs\<close>): \<open>pipe.md\<close> with its front matter, the
  tombstones of deleted pipes, the enabled flags of this device, and the operations of \<open>PipeManager\<close> that
  read and write them. The directory of pipes is a record; a file that is missing or cannot be parsed reads
  as the code reads it. YAML (crate \<open>serde_yaml\<close>), the derived reader of triggers and which file
  operations succeed are fields of \<open>file_env\<close>.
\<close>

section \<open>A pipe as its file has it\<close>

record pipe_file = pipe_config +
  pf_name :: rstr
  pf_custom :: "rstr list"
  pf_timeout :: "nat option"
  pf_source_slug :: "rstr option"
  pf_installed_version :: "int option"
  pf_source_hash :: "rstr option"
  pf_subagent :: bool
  pf_extra :: "rstr \<rightharpoonup> json"

record tombstone_entry =
  deleted_at :: rstr
  content_hash :: "rstr option"

record pipe_disk =
  pd_dirs :: "rstr \<rightharpoonup> (rstr \<times> timestamp) option"
  pd_tombstones :: "rstr \<rightharpoonup> tombstone_entry"
  pd_overrides :: "rstr \<rightharpoonup> bool"
  pd_favorites :: "rstr list option"

record file_env =
  fe_sync :: sync_env
  to_rfc3339 :: "timestamp \<Rightarrow> rstr"
  yaml_read :: "rstr \<Rightarrow> pipe_file option"
  yaml_write :: "pipe_file \<Rightarrow> rstr option"
  trigger_of_json :: "json \<Rightarrow> (rstr list \<times> rstr list) option"
  dirs_readable :: bool
  md_readable :: "rstr \<Rightarrow> bool"
  dir_ok :: "rstr \<Rightarrow> bool"
  md_writable :: "rstr \<Rightarrow> bool"
  dir_removable :: "rstr \<Rightarrow> bool"
  meta_writable :: bool
  fe_low :: "rstr \<Rightarrow> rstr"
  cron_parses :: "rstr \<Rightarrow> unit option"

datatype file_error =
  NoFrontMatter | NotClosed | BadYaml | NoYaml | PipeMissing rstr | StaleOneOff | IoError

text \<open>The content of a pipe's \<open>pipe.md\<close>, where there is one and it can be read.\<close>

definition has_md :: "pipe_disk \<Rightarrow> rstr \<Rightarrow> bool" where
  "has_md disk name \<longleftrightarrow> (case pd_dirs disk name of Some (Some f) \<Rightarrow> True | _ \<Rightarrow> False)"

definition read_md :: "file_env \<Rightarrow> pipe_disk \<Rightarrow> rstr \<Rightarrow> rstr option" where
  "read_md env disk name =
     (case pd_dirs disk name of
        Some (Some (content, mtime)) \<Rightarrow> if md_readable env name then Some content else None
      | _ \<Rightarrow> None)"

definition write_md :: "file_env \<Rightarrow> rstr \<Rightarrow> rstr \<Rightarrow> pipe_disk \<Rightarrow> pipe_disk" where
  "write_md env name content disk =
     disk\<lparr>pd_dirs := (pd_dirs disk)(name \<mapsto> Some (content, utc_now (fe_sync env)))\<rparr>"

text \<open>\<open>create_dir_all\<close>.\<close>

definition make_dir :: "rstr \<Rightarrow> pipe_disk \<Rightarrow> pipe_disk" where
  "make_dir name disk =
     disk\<lparr>pd_dirs := (pd_dirs disk)(name \<mapsto> (case pd_dirs disk name of Some f \<Rightarrow> f | None \<Rightarrow> None))\<rparr>"

section \<open>Front matter\<close>

definition FENCE :: rstr where "FENCE = lit ''---''"

definition parse_frontmatter :: "file_env \<Rightarrow> rstr \<Rightarrow> file_error + pipe_file \<times> rstr" where
  "parse_frontmatter env content =
     (let content = trim content in
      if \<not> starts_with content FENCE then Inl NoFrontMatter
      else let rest = drop 3 content in
        case find_str rest (10 # FENCE) of
          None \<Rightarrow> Inl NotClosed
        | Some e \<Rightarrow>
            (case yaml_read env (take e rest) of
               None \<Rightarrow> Inl BadYaml
             | Some config \<Rightarrow> Inr (config, trim (drop (e + 4) rest))))"

definition KNOWN_FIELDS :: "rstr list" where
  "KNOWN_FIELDS = map lit
     [''config'', ''name'', ''schedule'', ''enabled'', ''agent'', ''model'', ''provider'', ''preset'', ''connections'',
      ''permissions'', ''timeout'', ''trigger'', ''source_slug'', ''installed_version'', ''source_hash'']"

definition cleaned :: "pipe_file \<Rightarrow> pipe_file" where
  "cleaned config = config\<lparr>pf_name := [], pf_extra := (\<lambda>k. if k \<in> set KNOWN_FIELDS then None else pf_extra config k)\<rparr>"

definition serialize_pipe :: "file_env \<Rightarrow> pipe_file \<Rightarrow> rstr \<Rightarrow> rstr option" where
  "serialize_pipe env config body =
     (case yaml_write env (cleaned config) of
        None \<Rightarrow> None
      | Some yaml \<Rightarrow> Some (FENCE @ [10] @ yaml @ FENCE @ [10, 10] @ body @ [10]))"

text \<open>FNV-1a over 64 bits, written as sixteen hexadecimal digits.\<close>

definition fnv_step :: "nat \<Rightarrow> 64 word \<Rightarrow> 64 word" where
  "fnv_step b h = (xor h (of_nat b)) * 0x100000001b3"

definition hex_digit :: "nat \<Rightarrow> nat" where
  "hex_digit d = (if d < 10 then 48 + d else 87 + d)"

definition simple_hash :: "rstr \<Rightarrow> rstr" where
  "simple_hash content =
     (let h = unat (fold fnv_step content 0xcbf29ce484222325)
      in map (\<lambda>i. hex_digit (h div 16 ^ (15 - i) mod 16)) [0..<16])"

section \<open>Tombstones and flags of the device\<close>

definition add_tombstone :: "file_env \<Rightarrow> rstr \<Rightarrow> rstr option \<Rightarrow> pipe_disk \<Rightarrow> pipe_disk" where
  "add_tombstone env name h disk =
     (if meta_writable env
      then disk\<lparr>pd_tombstones := (pd_tombstones disk)
             (name \<mapsto> \<lparr>deleted_at = now_text (fe_sync env), content_hash = h\<rparr>)\<rparr>
      else disk)"

definition remove_tombstone :: "file_env \<Rightarrow> rstr \<Rightarrow> pipe_disk \<Rightarrow> pipe_disk" where
  "remove_tombstone env name disk =
     (if pd_tombstones disk name \<noteq> None \<and> meta_writable env
      then disk\<lparr>pd_tombstones := (pd_tombstones disk)(name := None)\<rparr> else disk)"

definition set_local_override :: "file_env \<Rightarrow> rstr \<Rightarrow> bool \<Rightarrow> pipe_disk \<Rightarrow> pipe_disk" where
  "set_local_override env name enabled disk =
     (if meta_writable env then disk\<lparr>pd_overrides := (pd_overrides disk)(name \<mapsto> enabled)\<rparr> else disk)"

definition remove_local_override :: "file_env \<Rightarrow> rstr \<Rightarrow> pipe_disk \<Rightarrow> pipe_disk" where
  "remove_local_override env name disk =
     (if pd_overrides disk name \<noteq> None \<and> meta_writable env
      then disk\<lparr>pd_overrides := (pd_overrides disk)(name := None)\<rparr> else disk)"

section \<open>The loaded pipes\<close>

type_synonym loaded_pipe = "pipe_file \<times> rstr \<times> rstr"

record pipe_store =
  st_disk :: pipe_disk
  st_pipes :: "rstr \<rightharpoonup> loaded_pipe"
  st_running :: "rstr set"
  st_last_reload :: timestamp

text \<open>One entry of the directory: the parsed file with the name of the directory and the device's flag.\<close>

definition load_entry :: "file_env \<Rightarrow> pipe_disk \<Rightarrow> rstr \<Rightarrow> loaded_pipe option" where
  "load_entry env disk name =
     (case read_md env disk name of
        None \<Rightarrow> None
      | Some content \<Rightarrow>
          (case parse_frontmatter env content of
             Inl e \<Rightarrow> None
           | Inr (config, body) \<Rightarrow>
               Some (config\<lparr>pf_name := name,
                            pc_enabled := (case pd_overrides disk name of Some e \<Rightarrow> e | None \<Rightarrow> pc_enabled config)\<rparr>,
                     body, content)))"

definition load_pipes :: "file_env \<Rightarrow> pipe_store \<Rightarrow> pipe_store" where
  "load_pipes env s =
     (if dirs_readable env then s\<lparr>st_pipes := load_entry env (st_disk s)\<rparr> else s\<lparr>st_pipes := Map.empty\<rparr>)"

definition reload_pipes :: "file_env \<Rightarrow> pipe_store \<Rightarrow> pipe_store" where
  "reload_pipes env s =
     (if utc_now (fe_sync env) - st_last_reload s < int (from_secs 2) then s
      else if \<not> dirs_readable env then s
      else s\<lparr>st_pipes := (\<lambda>name.
               if has_md (st_disk s) name
               then (case load_entry env (st_disk s) name of Some p \<Rightarrow> Some p | None \<Rightarrow> st_pipes s name)
               else if name \<in> st_running s then st_pipes s name
               else None),
             st_last_reload := utc_now (fe_sync env)\<rparr>)"

text \<open>Whether the prompt differs from the one the store delivered.\<close>

definition locally_modified :: "file_env \<Rightarrow> pipe_disk \<Rightarrow> rstr \<Rightarrow> pipe_file \<Rightarrow> bool option" where
  "locally_modified env disk name config =
     map_option (\<lambda>expected.
        case read_md env disk name of
          Some content \<Rightarrow>
            (case parse_frontmatter env content of
               Inr (c, file_body) \<Rightarrow> simple_hash file_body \<noteq> expected
             | Inl e \<Rightarrow> simple_hash content \<noteq> expected)
        | None \<Rightarrow> False) (pf_source_hash config)"

section \<open>Operations\<close>

definition in_memory :: "rstr \<Rightarrow> (loaded_pipe \<Rightarrow> loaded_pipe) \<Rightarrow> pipe_store \<Rightarrow> pipe_store" where
  "in_memory name f s =
     (case st_pipes s name of Some p \<Rightarrow> s\<lparr>st_pipes := (st_pipes s)(name \<mapsto> f p)\<rparr> | None \<Rightarrow> s)"

definition one_off_fresh :: "file_env \<Rightarrow> rstr \<Rightarrow> bool" where
  "one_off_fresh env schedule =
     (case validate_one_off_freshness (fe_low env) (rfc3339_of (fe_sync env)) (cron_parses env) schedule (utc_now (fe_sync env)) of
        Inl age \<Rightarrow> False | Inr u \<Rightarrow> True)"

definition enable_pipe :: "file_env \<Rightarrow> rstr \<Rightarrow> bool \<Rightarrow> pipe_store \<Rightarrow> pipe_store \<times> (file_error + unit)" where
  "enable_pipe env name enabled s =
     (if \<not> has_md (st_disk s) name then (s, Inl (PipeMissing name))
      else case read_md env (st_disk s) name of
        None \<Rightarrow> (s, Inl IoError)
      | Some content \<Rightarrow>
          (case parse_frontmatter env content of
             Inl e \<Rightarrow> (s, Inl e)
           | Inr (config, body) \<Rightarrow>
               if enabled \<and> \<not> one_off_fresh env (pc_schedule config) then (s, Inl StaleOneOff)
               else (case serialize_pipe env (config\<lparr>pc_enabled := enabled\<rparr>) body of
                 None \<Rightarrow> (s, Inl NoYaml)
               | Some new_content \<Rightarrow>
                   if \<not> md_writable env name then (s, Inl IoError)
                   else (in_memory name (\<lambda>(c, b, r). (c\<lparr>pc_enabled := enabled\<rparr>, b, new_content))
                           (s\<lparr>st_disk := set_local_override env name enabled (write_md env name new_content (st_disk s))\<rparr>),
                         Inr ()))))"

text \<open>One key of an update, on the configuration, the prompt and the disk.\<close>

definition preset_of_json :: "json \<Rightarrow> preset_value" where
  "preset_of_json v =
     (case v of JStr s \<Rightarrow> PresetText s
      | JArr xs \<Rightarrow> PresetArray (map (\<lambda>x. case x of JStr s \<Rightarrow> Some s | _ \<Rightarrow> None) xs)
      | _ \<Rightarrow> PresetOther)"

definition update_key ::
  "file_env \<Rightarrow> rstr \<Rightarrow> rstr \<times> json \<Rightarrow> pipe_file \<times> rstr \<times> pipe_disk \<Rightarrow> pipe_file \<times> rstr \<times> pipe_disk" where
  "update_key env name = (\<lambda>(k, v) (config, body, disk).
     (if k = lit ''prompt_body'' then (config, (case v of JStr s \<Rightarrow> s | _ \<Rightarrow> body), disk)
      else if k = lit ''schedule'' then ((case v of JStr s \<Rightarrow> config\<lparr>pc_schedule := s\<rparr> | _ \<Rightarrow> config), body, disk)
      else if k = lit ''enabled'' then
        (case v of JBool b \<Rightarrow> (config\<lparr>pc_enabled := b\<rparr>, body, set_local_override env name b disk)
         | _ \<Rightarrow> (config, body, disk))
      else if k = lit ''agent'' then ((case v of JStr s \<Rightarrow> config\<lparr>pc_agent := s\<rparr> | _ \<Rightarrow> config), body, disk)
      else if k = lit ''model'' then ((case v of JStr s \<Rightarrow> config\<lparr>pc_model := s\<rparr> | _ \<Rightarrow> config), body, disk)
      else if k = lit ''provider'' then ((case v of JStr s \<Rightarrow> config\<lparr>pc_provider := Some s\<rparr> | _ \<Rightarrow> config), body, disk)
      else if k = lit ''preset'' then (config\<lparr>pc_preset := parse_preset_list (preset_of_json v)\<rparr>, body, disk)
      else if k = lit ''connections'' then
        ((case v of JArr xs \<Rightarrow> config\<lparr>pc_connections := List.map_filter (\<lambda>x. case x of JStr s \<Rightarrow> Some s | _ \<Rightarrow> None) xs\<rparr>
          | _ \<Rightarrow> config), body, disk)
      else if k = lit ''timeout'' then
        (config\<lparr>pf_timeout := (case v of JInt n \<Rightarrow> if 0 \<le> n \<and> n < 2 ^ 64 then Some (nat n) else None | _ \<Rightarrow> None)\<rparr>, body, disk)
      else if k = lit ''trigger'' then
        ((case v of JNull \<Rightarrow> config\<lparr>pc_trigger := None, pf_custom := []\<rparr>
          | _ \<Rightarrow> (case trigger_of_json env v of
                   Some (events, custom) \<Rightarrow> config\<lparr>pc_trigger := Some events, pf_custom := custom\<rparr>
                 | None \<Rightarrow> config)), body, disk)
      else (config\<lparr>pf_extra := (pf_extra config)(k \<mapsto> v)\<rparr>, body, disk)))"

text \<open>The updates come in the order of a hash map, each key once.\<close>

definition update_config ::
  "file_env \<Rightarrow> rstr \<Rightarrow> (rstr \<times> json) list \<Rightarrow> pipe_store \<Rightarrow> pipe_store \<times> (file_error + unit)" where
  "update_config env name updates s =
     (if \<not> has_md (st_disk s) name then (s, Inl (PipeMissing name))
      else case map_of updates (lit ''raw_content'') of
        Some (JStr raw) \<Rightarrow>
          (case parse_frontmatter env raw of
             Inl e \<Rightarrow> (s, Inl e)
           | Inr (config, body) \<Rightarrow>
               if \<not> md_writable env name then (s, Inl IoError)
               else (in_memory name (\<lambda>_. (config\<lparr>pf_name := name\<rparr>, body, raw))
                       (s\<lparr>st_disk := write_md env name raw (st_disk s)\<rparr>), Inr ()))
      | _ \<Rightarrow>
          (case read_md env (st_disk s) name of
             None \<Rightarrow> (s, Inl IoError)
           | Some content \<Rightarrow>
               (case parse_frontmatter env content of
                  Inl e \<Rightarrow> (s, Inl e)
                | Inr (config0, body) \<Rightarrow>
                    (let (config, new_body, disk) =
                           fold (update_key env name) updates (config0\<lparr>pf_name := name\<rparr>, body, st_disk s)
                     in case serialize_pipe env config new_body of
                          None \<Rightarrow> (s\<lparr>st_disk := disk\<rparr>, Inl NoYaml)
                        | Some new_content \<Rightarrow>
                            if \<not> md_writable env name then (s\<lparr>st_disk := disk\<rparr>, Inl IoError)
                            else (in_memory name (\<lambda>_. (config, new_body, new_content))
                                    (s\<lparr>st_disk := write_md env name new_content disk\<rparr>), Inr ())))))"

text \<open>A single file from the local disk or an URL, its content already read. The backup of the old file that
  \<open>update_pipe_from_store\<close> makes is left out.\<close>

definition install_content :: "file_env \<Rightarrow> rstr \<Rightarrow> rstr \<Rightarrow> pipe_store \<Rightarrow> pipe_store \<times> (file_error + rstr)" where
  "install_content env name content s =
     (if \<not> dir_ok env name then (s, Inl IoError)
      else if \<not> md_writable env name
      then (s\<lparr>st_disk := make_dir name (st_disk s)\<rparr>, Inl IoError)
      else let s1 = load_pipes env (s\<lparr>st_disk := write_md env name content (st_disk s)\<rparr>)
           in (s1\<lparr>st_disk := remove_tombstone env name (st_disk s1)\<rparr>, Inr name))"

definition install_pipe_from_store ::
  "file_env \<Rightarrow> rstr \<Rightarrow> rstr \<Rightarrow> int \<Rightarrow> pipe_store \<Rightarrow> pipe_store \<times> (file_error + rstr)" where
  "install_pipe_from_store env source_md slug version s =
     (case parse_frontmatter env source_md of
        Inl e \<Rightarrow> (s, Inl e)
      | Inr (config, body) \<Rightarrow>
          if \<not> dir_ok env slug then (s, Inl IoError)
          else (case serialize_pipe env (config\<lparr>pf_source_slug := Some slug, pf_installed_version := Some version,
                                                pf_source_hash := Some (simple_hash body)\<rparr>) body of
             None \<Rightarrow> (s\<lparr>st_disk := make_dir slug (st_disk s)\<rparr>, Inl NoYaml)
           | Some content \<Rightarrow> install_content env slug content s))"

definition update_pipe_from_store ::
  "file_env \<Rightarrow> rstr \<Rightarrow> rstr \<Rightarrow> rstr \<Rightarrow> int \<Rightarrow> pipe_store \<Rightarrow> pipe_store \<times> (file_error + unit)" where
  "update_pipe_from_store env name source_md slug version s =
     (if pd_dirs (st_disk s) name = None then (s, Inl (PipeMissing name))
      else case parse_frontmatter env source_md of
        Inl e \<Rightarrow> (s, Inl e)
      | Inr (config0, body) \<Rightarrow>
          (let config1 = (case read_md env (st_disk s) name of
                 None \<Rightarrow> config0
               | Some current \<Rightarrow>
                   (case parse_frontmatter env current of
                      Inl e \<Rightarrow> config0
                    | Inr (c, b) \<Rightarrow> config0\<lparr>pc_enabled := pc_enabled c, pc_preset := pc_preset c,
                                            pc_schedule := pc_schedule c, pc_connections := pc_connections c\<rparr>));
               config = config1\<lparr>pf_source_slug := Some slug, pf_installed_version := Some version,
                                pf_source_hash := Some (simple_hash body)\<rparr>
           in case serialize_pipe env config body of
                None \<Rightarrow> (s, Inl NoYaml)
              | Some content \<Rightarrow>
                  if \<not> md_writable env name then (s, Inl IoError)
                  else (load_pipes env (s\<lparr>st_disk := write_md env name content (st_disk s)\<rparr>), Inr ())))"

definition delete_pipe :: "file_env \<Rightarrow> rstr \<Rightarrow> pipe_store \<Rightarrow> pipe_store \<times> (file_error + unit)" where
  "delete_pipe env name s =
     (if pd_dirs (st_disk s) name = None then (s, Inl (PipeMissing name))
      else let s1 = s\<lparr>st_running := st_running s - {name}\<rparr>;
               h = map_option simple_hash (read_md env (st_disk s) name)
           in if \<not> dir_removable env name then (s1, Inl IoError)
              else (s1\<lparr>st_disk := remove_local_override env name (add_tombstone env name h
                          ((st_disk s)\<lparr>pd_dirs := (pd_dirs (st_disk s))(name := None)\<rparr>)),
                       st_pipes := (st_pipes s)(name := None)\<rparr>, Inr ()))"

text \<open>The bundled pipes at the start of the application; the first failure ends the loop.\<close>

fun install_builtins :: "file_env \<Rightarrow> (rstr \<rightharpoonup> tombstone_entry) \<Rightarrow> (rstr \<times> rstr) list \<Rightarrow> pipe_disk
    \<Rightarrow> pipe_disk \<times> (file_error + unit)" where
  "install_builtins env tombs [] disk = (disk, Inr ())"
| "install_builtins env tombs ((name, content) # rest) disk =
     (if has_md disk name then install_builtins env tombs rest disk
      else if (case tombs name of Some e \<Rightarrow> content_hash e = Some (simple_hash content) | None \<Rightarrow> False)
      then install_builtins env tombs rest disk
      else let disk1 = (if tombs name \<noteq> None then remove_tombstone env name disk else disk)
           in if \<not> dir_ok env name then (disk1, Inl IoError)
              else if \<not> md_writable env name then (make_dir name disk1, Inl IoError)
              else install_builtins env tombs rest (write_md env name content disk1))"

definition install_builtin_pipes :: "file_env \<Rightarrow> (rstr \<times> rstr) list \<Rightarrow> pipe_disk \<Rightarrow> pipe_disk \<times> (file_error + unit)" where
  "install_builtin_pipes env builtins disk = install_builtins env (pd_tombstones disk) builtins disk"

section \<open>Favorites\<close>

fun dedup_from :: "rstr list \<Rightarrow> rstr set \<Rightarrow> rstr list" where
  "dedup_from [] seen = []"
| "dedup_from (x # xs) seen = (if x \<in> seen then dedup_from xs seen else x # dedup_from xs (insert x seen))"

definition dedup_preserve :: "rstr list \<Rightarrow> rstr list" where
  "dedup_preserve xs = dedup_from xs {}"

definition load_favorites :: "pipe_disk \<Rightarrow> rstr list" where
  "load_favorites disk = (case pd_favorites disk of Some f \<Rightarrow> dedup_preserve f | None \<Rightarrow> [])"

definition save_favorites :: "file_env \<Rightarrow> rstr list \<Rightarrow> pipe_disk \<Rightarrow> pipe_disk \<times> (file_error + unit)" where
  "save_favorites env fs disk =
     (if meta_writable env then (disk\<lparr>pd_favorites := Some (dedup_preserve fs)\<rparr>, Inr ()) else (disk, Inl IoError))"

definition set_favorite :: "file_env \<Rightarrow> rstr \<Rightarrow> bool \<Rightarrow> pipe_disk \<Rightarrow> pipe_disk \<times> (file_error + rstr list)" where
  "set_favorite env pipe favorite disk =
     (let fs = load_favorites disk;
          fs' = (if favorite then (if pipe \<in> set fs then fs else fs @ [pipe]) else filter (\<lambda>n. n \<noteq> pipe) fs)
      in case save_favorites env fs' disk of
           (disk', Inr u) \<Rightarrow> (disk', Inr fs')
         | (disk', Inl e) \<Rightarrow> (disk', Inl e))"

definition is_favorite :: "rstr \<Rightarrow> pipe_disk \<Rightarrow> bool" where
  "is_favorite pipe disk \<longleftrightarrow> pipe \<in> set (load_favorites disk)"

end
