(* ===== verification/SyncPipes.thy ===== *)
theory SyncPipes
  imports PipeFiles SyncOrder
begin

text \<open>
  Pipes on several devices (\<open>screenpipe-core/src/pipes/sync.rs\<close>, and \<open>run_background_pipe_sync\<close> of
  \<open>screenpipe-engine/src/sync_api.rs\<close>): the local manifest is read off the files, whose modification times are
  the times of the merge, and the result is written to them.
\<close>

record synced_pipe =
  raw_content :: rstr
  last_modified :: rstr
  last_modified_by :: rstr

definition pipe_newer :: "sync_env \<Rightarrow> synced_pipe \<Rightarrow> synced_pipe \<Rightarrow> bool" where
  "pipe_newer env l r \<longleftrightarrow> parse_rfc3339 env (last_modified l) < parse_rfc3339 env (last_modified r)"

interpretation pipes: lww_rows "pipe_newer env" last_modified env "\<lambda>_. []" for env
  by unfold_locales (simp add: pipe_newer_def)

definition merge_pipes ::
  "sync_env \<Rightarrow> synced_pipe manifest \<Rightarrow> synced_pipe manifest \<Rightarrow> rstr \<Rightarrow> synced_pipe manifest \<times> sync_action list" where
  "merge_pipes env = merge_manifests (pipe_newer env) last_modified env"

section \<open>The local manifest\<close>

definition local_pipe :: "file_env \<Rightarrow> rstr \<Rightarrow> pipe_disk \<Rightarrow> rstr \<Rightarrow> synced_pipe option" where
  "local_pipe env machine_id disk name =
     (case pd_dirs disk name of
        Some (Some (content, mtime)) \<Rightarrow>
          if \<not> md_readable env name then None
          else (case parse_frontmatter env content of
                  Inl e \<Rightarrow> None
                | Inr p \<Rightarrow> Some \<lparr>raw_content = content, last_modified = to_rfc3339 env mtime,
                                last_modified_by = machine_id\<rparr>)
      | _ \<Rightarrow> None)"

definition build_local_manifest :: "file_env \<Rightarrow> pipe_disk \<Rightarrow> rstr \<Rightarrow> synced_pipe manifest" where
  "build_local_manifest env disk machine_id =
     (if \<not> dirs_readable env then empty_manifest (fe_sync env) machine_id
      else (empty_manifest (fe_sync env) machine_id)
        \<lparr>entries := local_pipe env machine_id disk,
         tombstones := (\<lambda>name. if local_pipe env machine_id disk name \<noteq> None then None
                               else map_option deleted_at (pd_tombstones disk name))\<rparr>)"

section \<open>Applying the result\<close>

definition override_enabled :: "file_env \<Rightarrow> rstr \<Rightarrow> bool \<Rightarrow> rstr" where
  "override_enabled env raw enabled =
     (case parse_frontmatter env raw of
        Inr (config, body) \<Rightarrow>
          (case serialize_pipe env (config\<lparr>pc_enabled := enabled\<rparr>) body of Some content \<Rightarrow> content | None \<Rightarrow> raw)
      | Inl e \<Rightarrow> raw)"

definition force_disabled :: "file_env \<Rightarrow> rstr \<Rightarrow> rstr" where
  "force_disabled env raw = override_enabled env raw False"

text \<open>The flag of this device: its override, or what the file says now.\<close>

definition local_enabled :: "file_env \<Rightarrow> pipe_disk \<Rightarrow> rstr \<Rightarrow> bool" where
  "local_enabled env disk name =
     (case pd_overrides disk name of
        Some ov \<Rightarrow> ov
      | None \<Rightarrow>
          (case read_md env disk name of
             Some c \<Rightarrow> (case parse_frontmatter env c of Inr (config, body) \<Rightarrow> pc_enabled config | Inl e \<Rightarrow> False)
           | None \<Rightarrow> False))"

datatype pipe_sync_error = DirFailed rstr | WriteFailed rstr | RemoveFailed rstr

definition write_synced ::
  "file_env \<Rightarrow> synced_pipe manifest \<Rightarrow> bool \<Rightarrow> rstr \<Rightarrow> pipe_disk \<times> pipe_sync_error list \<Rightarrow> pipe_disk \<times> pipe_sync_error list" where
  "write_synced env m imported name = (\<lambda>(disk, errors).
     (case entries m name of
        None \<Rightarrow> (disk, errors)
      | Some synced \<Rightarrow>
          if \<not> dir_ok env name then (disk, errors @ [DirFailed name])
          else (let disk1 = make_dir name disk;
                    content = (if imported then force_disabled env (raw_content synced)
                               else override_enabled env (raw_content synced) (local_enabled env disk1 name))
                in if md_writable env name then (write_md env name content disk1, errors)
                   else (disk1, errors @ [WriteFailed name]))))"

definition apply_pipe_action ::
  "file_env \<Rightarrow> synced_pipe manifest \<Rightarrow> sync_action \<Rightarrow> pipe_disk \<times> pipe_sync_error list \<Rightarrow> pipe_disk \<times> pipe_sync_error list" where
  "apply_pipe_action env m a p =
     (case a of
        Imported name \<Rightarrow> write_synced env m True name p
      | Updated name \<Rightarrow> write_synced env m False name p
      | Deleted name \<Rightarrow>
          (let (disk, errors) = p;
               (disk1, errors1) =
                 (if pd_dirs disk name = None then (disk, errors)
                  else if dir_removable env name then (disk\<lparr>pd_dirs := (pd_dirs disk)(name := None)\<rparr>, errors)
                  else (disk, errors @ [RemoveFailed name]))
           in (remove_local_override env name disk1, errors1))
      | Skipped name \<Rightarrow> p)"

definition apply_manifest_to_disk ::
  "file_env \<Rightarrow> synced_pipe manifest \<Rightarrow> sync_action list \<Rightarrow> pipe_disk \<Rightarrow> pipe_disk \<times> pipe_sync_error list" where
  "apply_manifest_to_disk env m actions disk = fold (apply_pipe_action env m) actions (disk, [])"

section \<open>A cycle\<close>

definition run_background_pipe_sync ::
  "file_env \<Rightarrow> rstr \<Rightarrow> synced_pipe manifest option \<Rightarrow> pipe_store
    \<Rightarrow> pipe_store \<times> synced_pipe manifest \<times> sync_action list \<times> pipe_sync_error list" where
  "run_background_pipe_sync env me answer s =
     (let remote = (case answer of Some m \<Rightarrow> m | None \<Rightarrow> empty_manifest (fe_sync env) (lit ''unknown''));
          local = build_local_manifest env (st_disk s) me;
          (merged, actions) = merge_pipes (fe_sync env) local remote me;
          (disk, errors) = apply_manifest_to_disk env merged actions (st_disk s);
          s1 = s\<lparr>st_disk := disk\<rparr>;
          has_changes = list_ex (\<lambda>a. case a of Skipped n \<Rightarrow> False | _ \<Rightarrow> True) actions
      in (if has_changes then reload_pipes env s1 else s1, merged, actions, errors))"

end
