(* ===== verification/PipeFileProperties.thy ===== *)
theory PipeFileProperties
  imports PipeFiles "HOL-Library.List_Lexorder"
begin

text \<open>
  Properties of the files of pipes: the round trip of \<open>pipe.md\<close>, installation from the store, deletion, and
  whose enabled flag counts.
\<close>

section \<open>Texts\<close>

definition rust_text :: "rstr \<Rightarrow> bool" where
  "rust_text s \<longleftrightarrow> (\<exists>cs. s = utf8 cs \<and> list_all (\<lambda>c. c < 1114112) cs)"

definition stripped :: "nat list \<Rightarrow> nat list" where
  "stripped cs = rev (dropWhile is_whitespace (rev (dropWhile is_whitespace cs)))"

lemma utf8_append: "utf8 (a @ b) = utf8 a @ utf8 b"
  by (simp add: utf8_def)

lemma trim_utf8: "list_all (\<lambda>c. c < 1114112) cs \<Longrightarrow> trim (utf8 cs) = utf8 (stripped cs)"
  using chars_utf8 [of cs] by (simp add: trim_def stripped_def list_all_iff)

lemma stripped_subset: "set (stripped cs) \<subseteq> set cs"
  unfolding stripped_def set_rev by (intro subsetI) (metis set_dropWhileD set_rev)

lemma stripped_ends:
  "stripped cs \<noteq> [] \<Longrightarrow> \<not> is_whitespace (hd (stripped cs)) \<and> \<not> is_whitespace (last (stripped cs))"
proof -
  let ?d = "dropWhile is_whitespace cs"
  assume n: "stripped cs \<noteq> []"
  then have d: "dropWhile is_whitespace (rev ?d) \<noteq> []" by (simp add: stripped_def)
  then have l: "\<not> is_whitespace (last (stripped cs))" using hd_dropWhile [OF d] by (simp add: stripped_def last_rev)
  have "?d \<noteq> []" using d by (cases "?d") simp_all
  then have h: "\<not> is_whitespace (hd ?d)" by (rule hd_dropWhile)
  obtain p where p: "rev ?d = p @ dropWhile is_whitespace (rev ?d)" using takeWhile_dropWhile_id by metis
  then have "?d = stripped cs @ rev p" by (metis rev_append rev_rev_ident stripped_def)
  then have "hd (stripped cs) = hd ?d" using n by (metis hd_append2)
  with h l show ?thesis by simp
qed

lemma stripped_plain:
  "cs = [] \<or> (\<not> is_whitespace (hd cs) \<and> \<not> is_whitespace (last cs)) \<Longrightarrow> stripped cs = cs"
proof -
  assume a: "cs = [] \<or> (\<not> is_whitespace (hd cs) \<and> \<not> is_whitespace (last cs))"
  then have "dropWhile is_whitespace cs = cs" "dropWhile is_whitespace (rev cs) = rev cs"
    by (auto simp: dropWhile_eq_self_iff hd_rev)
  then show ?thesis by (simp add: stripped_def)
qed

text \<open>A trimmed text stays trimmed, also between blank lines.\<close>

lemma stripped_blank:
  assumes "list_all is_whitespace a" "list_all is_whitespace b" "stripped cs = cs"
  shows "stripped (a @ cs @ b) = cs"
proof (cases "cs = []")
  case True
  have "\<forall>x \<in> set (a @ cs @ b). is_whitespace x" using assms(1,2) True by (auto simp: list_all_iff)
  then have d: "dropWhile is_whitespace (a @ cs @ b) = []" by (simp only: dropWhile_eq_Nil_conv)
  show ?thesis unfolding stripped_def d by (simp add: True)
next
  case False
  then have e: "\<not> is_whitespace (hd cs)" "\<not> is_whitespace (last cs)"
    using stripped_ends [of cs] assms(3) by simp_all
  have "dropWhile is_whitespace (a @ cs @ b) = cs @ b"
    using assms(1) e(1) False by (cases cs) (simp_all add: dropWhile_append list_all_iff)
  moreover have "dropWhile is_whitespace (rev b @ rev cs) = rev cs"
    using assms(2) e(2) False by (cases cs rule: rev_cases) (simp_all add: dropWhile_append list_all_iff)
  ultimately show ?thesis by (simp add: stripped_def)
qed

lemma stripped_stripped: "stripped (stripped cs) = stripped cs"
  using stripped_ends [of cs] by (intro stripped_plain) auto

lemma rust_trim: "rust_text s \<Longrightarrow> rust_text (trim s) \<and> trim (trim s) = trim s"
proof -
  assume "rust_text s"
  then obtain cs where cs: "s = utf8 cs" "list_all (\<lambda>c. c < 1114112) cs" by (auto simp: rust_text_def)
  have v: "list_all (\<lambda>c. c < 1114112) (stripped cs)" using cs(2) stripped_subset by (auto simp: list_all_iff)
  have t: "trim s = utf8 (stripped cs)" using trim_utf8 cs by simp
  have "trim (trim s) = trim s" unfolding t trim_utf8 [OF v] stripped_stripped ..
  then show ?thesis using t v unfolding rust_text_def by blast
qed

lemma rust_append: "rust_text a \<Longrightarrow> rust_text b \<Longrightarrow> rust_text (a @ b)"
proof -
  assume "rust_text a" "rust_text b"
  then obtain xs ys where "a = utf8 xs" "b = utf8 ys" "list_all (\<lambda>c. c < 1114112) (xs @ ys)" by (auto simp: rust_text_def)
  then have "a @ b = utf8 (xs @ ys) \<and> list_all (\<lambda>c. c < 1114112) (xs @ ys)" by (simp add: utf8_append)
  then show ?thesis unfolding rust_text_def by blast
qed

lemma rust_ascii: "is_ascii s \<Longrightarrow> rust_text s"
  unfolding rust_text_def by (rule exI [of _ s]) (auto simp: utf8_ascii is_ascii_def list_all_iff)

lemma split_outside:
  "xs @ ys = a @ x # t \<Longrightarrow> x \<notin> set xs \<Longrightarrow> \<exists>a'. a = xs @ a' \<and> ys = a' @ x # t"
proof (induction xs arbitrary: a)
  case (Cons y xs)
  then show ?case by (cases a) auto
qed simp

lemma encode_high: "\<not> c < 128 \<Longrightarrow> b \<in> set (encode_char c) \<Longrightarrow> 128 \<le> b"
  by (auto simp: encode_char_def split: if_splits)

lemma utf8_split:
  "utf8 cs = a @ x # t \<Longrightarrow> x < 128 \<Longrightarrow> \<exists>cs1 cs2. cs = cs1 @ x # cs2 \<and> a = utf8 cs1 \<and> t = utf8 cs2"
proof (induction cs arbitrary: a)
  case (Cons c cs)
  have u: "utf8 (c # cs) = encode_char c @ utf8 cs" by (simp add: utf8_def)
  show ?case
  proof (cases "x \<in> set (encode_char c)")
    case True
    then have c: "c = x" "encode_char c = [x]" using Cons.prems(2) encode_high [of c x] by (auto simp: encode_char_def split: if_splits)
    show ?thesis
    proof (cases a)
      case Nil
      then show ?thesis using Cons.prems u c by (intro exI [of _ "[]"] exI [of _ cs]) (simp add: utf8_def)
    next
      case (Cons b a')
      then have "utf8 cs = a' @ x # t" "b = x" using \<open>utf8 (c # cs) = a @ x # t\<close> u c by simp_all
      with Cons.IH [OF this(1) Cons.prems(2)] obtain cs1 cs2 where "cs = cs1 @ x # cs2" "a' = utf8 cs1" "t = utf8 cs2" by blast
      then show ?thesis using c Cons \<open>b = x\<close> by (intro exI [of _ "c # cs1"] exI [of _ cs2]) (simp add: utf8_def)
    qed
  next
    case False
    from split_outside [of "encode_char c" "utf8 cs" a x t, OF _ False] Cons.prems(1) u
    obtain a' where a': "a = encode_char c @ a'" "utf8 cs = a' @ x # t" by auto
    from Cons.IH [OF a'(2) Cons.prems(2)] obtain cs1 cs2 where "cs = cs1 @ x # cs2" "a' = utf8 cs1" "t = utf8 cs2" by blast
    then show ?thesis using a'(1) by (intro exI [of _ "c # cs1"] exI [of _ cs2]) (simp add: utf8_def)
  qed
qed (simp add: utf8_def)

lemma rust_after: "rust_text (a @ x # t) \<Longrightarrow> x < 128 \<Longrightarrow> rust_text a \<and> rust_text t"
proof -
  assume a: "rust_text (a @ x # t)" "x < 128"
  then obtain cs where cs: "utf8 cs = a @ x # t" "list_all (\<lambda>c. c < 1114112) cs" by (auto simp: rust_text_def)
  from utf8_split [OF cs(1) a(2)] cs(2) show ?thesis by (auto simp: rust_text_def)
qed

section \<open>The round trip of the front matter\<close>

lemma find_append: "find_str s p = Some i \<Longrightarrow> find_str (s @ t) p = Some i"
proof (induction s arbitrary: i)
  case Nil
  then show ?case by (cases t) (auto split: if_splits)
next
  case (Cons x xs)
  show ?case
  proof (cases "starts_with (x # xs) p")
    case True
    then obtain u where "x # xs = p @ u" by (auto simp: starts_with_append)
    then have "(x # xs) @ t = p @ u @ t" by simp
    then have "starts_with ((x # xs) @ t) p" unfolding starts_with_append by blast
    then show ?thesis using True Cons.prems by simp
  next
    case False
    then obtain j where j: "find_str xs p = Some j" "i = Suc j" using Cons.prems by auto
    have "length p \<le> length xs" using find_str_SomeD [OF j(1)] by simp
    then have "take (length p) ((x # xs) @ t) = take (length p) (x # xs)" unfolding take_append by simp
    then have "\<not> starts_with ((x # xs) @ t) p" using False by (simp only: starts_with_iff not_False_eq_True)
    then show ?thesis using Cons.IH [OF j(1)] j(2) by simp
  qed
qed

text \<open>What the code relies on in \<open>serde_yaml\<close> for one configuration: it is written as lines none of which starts
  with the fence, and reading them gives the configuration back, with the default model for the names that
  \<open>is_default_model\<close> leaves out.\<close>

definition is_default_model :: "rstr \<Rightarrow> bool" where
  "is_default_model s \<longleftrightarrow> s = lit ''auto'' \<or> s = lit ''claude-haiku-4-5'' \<or> s = lit ''claude-haiku-4-5@20251001''"

definition normalized :: "pipe_file \<Rightarrow> pipe_file" where
  "normalized c = (cleaned c)\<lparr>pc_model := (if is_default_model (pc_model c) then lit ''auto'' else pc_model c)\<rparr>"

definition round_trips :: "file_env \<Rightarrow> pipe_file \<Rightarrow> bool" where
  "round_trips env c \<longleftrightarrow>
     (\<exists>y. yaml_write env (cleaned c) = Some (y @ [10]) \<and> rust_text y
        \<and> find_str (10 # y @ 10 # FENCE) (10 # FENCE) = Some (length y + 1)
        \<and> yaml_read env (10 # y) = Some (normalized c))"

lemma fence_bytes: "FENCE = [45, 45, 45]"
  by code_simp

lemma stripped_split:
  obtains p q where "cs = p @ stripped cs @ q" "list_all is_whitespace p" "list_all is_whitespace q"
proof -
  let ?d = "dropWhile is_whitespace cs"
  have "rev ?d = takeWhile is_whitespace (rev ?d) @ dropWhile is_whitespace (rev ?d)" by simp
  then have "?d = stripped cs @ rev (takeWhile is_whitespace (rev ?d))" by (metis rev_append rev_rev_ident stripped_def)
  then have "cs = takeWhile is_whitespace cs @ stripped cs @ rev (takeWhile is_whitespace (rev ?d))"
    by (metis takeWhile_dropWhile_id)
  moreover have "list_all is_whitespace (takeWhile is_whitespace cs)" "list_all is_whitespace (rev (takeWhile is_whitespace (rev ?d)))"
    by (auto simp: list_all_iff dest: set_takeWhileD)
  ultimately show ?thesis using that by blast
qed

lemma serialized_parses:
  assumes "round_trips env c" "rust_text b"
  obtains content where "serialize_pipe env c b = Some content"
    "parse_frontmatter env content = Inr (normalized c, trim b)" "rust_text content"
proof -
  obtain y where y: "yaml_write env (cleaned c) = Some (y @ [10])" "rust_text y"
    "find_str (10 # y @ 10 # FENCE) (10 # FENCE) = Some (length y + 1)" "yaml_read env (10 # y) = Some (normalized c)"
    using assms(1) by (auto simp: round_trips_def)
  obtain ys where ys: "y = utf8 ys" "list_all (\<lambda>c. c < 1114112) ys" using y(2) by (auto simp: rust_text_def)
  obtain bs0 where bs0: "b = utf8 bs0" "list_all (\<lambda>c. c < 1114112) bs0" using assms(2) by (auto simp: rust_text_def)
  define bs where "bs = stripped bs0"
  obtain p q where pq: "bs0 = p @ bs @ q" "list_all is_whitespace p" "list_all is_whitespace q"
    using stripped_split [of bs0] unfolding bs_def by blast
  have bs: "trim b = utf8 bs" "list_all (\<lambda>c. c < 1114112) bs" "stripped bs = bs"
    using bs0 trim_utf8 stripped_subset [of bs0] stripped_stripped by (auto simp: bs_def list_all_iff)
  let ?head = "FENCE @ 10 # ys @ 10 # FENCE"
  let ?c = "?head @ [10, 10] @ bs0 @ [10]"
  have ascii: "utf8 FENCE = FENCE" "utf8 [10] = [10]" "utf8 [10, 10] = [10, 10]" by code_simp+
  have u1: "utf8 (10 # xs) = 10 # utf8 xs" "utf8 [] = []" for xs by (simp_all add: utf8_def encode_char_def)
  have uc: "utf8 ?c = FENCE @ [10] @ (y @ [10]) @ FENCE @ [10, 10] @ b @ [10]"
    by (simp add: utf8_append u1 ascii ys(1) bs0(1))
  have s: "serialize_pipe env c b = Some (utf8 ?c)"
    unfolding uc by (simp add: serialize_pipe_def y(1))
  have v: "list_all (\<lambda>c. c < 1114112) ?c" using ys(2) bs0(2) by (simp add: fence_bytes)
  let ?tail = "if bs = [] then [] else [10, 10] @ p @ bs"
  have ws: "\<not> is_whitespace 45" "is_whitespace 10" by code_simp+
  have "stripped ?c = ?head @ ?tail"
  proof (cases "bs = []")
    case True
    have h: "stripped ?head = ?head" by (rule stripped_plain) (use ws in \<open>simp add: fence_bytes\<close>)
    have "stripped ([] @ ?head @ [10, 10] @ p @ q @ [10]) = ?head"
      by (rule stripped_blank [OF _ _ h]) (use pq ws in simp_all)
    then show ?thesis using True pq(1) by simp
  next
    case False
    then have l: "\<not> is_whitespace (last bs)" using stripped_ends [of bs0] by (simp add: bs_def)
    have h: "stripped (?head @ [10, 10] @ p @ bs) = ?head @ [10, 10] @ p @ bs"
      by (rule stripped_plain) (use ws l False in \<open>simp add: fence_bytes\<close>)
    have "stripped ([] @ (?head @ [10, 10] @ p @ bs) @ q @ [10]) = ?head @ [10, 10] @ p @ bs"
      by (rule stripped_blank [OF _ _ h]) (use pq ws in simp_all)
    then show ?thesis using False pq(1) by simp
  qed
  then have trimmed: "trim (utf8 ?c) = FENCE @ (10 # y @ 10 # FENCE) @ utf8 ?tail"
    using trim_utf8 [OF v] by (simp add: utf8_append u1 ascii ys(1))
  have tv: "list_all (\<lambda>c. c < 1114112) ?tail" using bs0(2) pq(1) by simp
  have "stripped ?tail = bs"
  proof (cases "bs = []")
    case True
    then show ?thesis by (simp add: stripped_def)
  next
    case False
    have "stripped (([10, 10] @ p) @ bs @ []) = bs"
      by (rule stripped_blank [OF _ _ bs(3)]) (use pq(2) ws in simp_all)
    then show ?thesis using False by simp
  qed
  then have tb: "trim (utf8 ?tail) = trim b" using trim_utf8 [OF tv] bs(1) by simp
  have p: "parse_frontmatter env (utf8 ?c) = Inr (normalized c, trim b)"
  proof -
    define w where "w = utf8 ?tail"
    define rest where "rest = 10 # y @ 10 # FENCE @ w"
    have r: "trim (utf8 ?c) = FENCE @ rest" using trimmed by (simp add: rest_def w_def)
    have st: "starts_with (FENCE @ rest) FENCE" unfolding starts_with_append by blast
    have d3: "drop 3 (FENCE @ rest) = rest" by (simp add: fence_bytes)
    have fr: "find_str rest (10 # FENCE) = Some (length y + 1)" using find_append [OF y(3), of w] by (simp add: rest_def)
    have tk: "take (length y + 1) rest = 10 # y" by (simp add: rest_def)
    have "rest = (10 # y @ 10 # FENCE) @ w" "length (10 # y @ 10 # FENCE) = length y + 1 + 4"
      by (simp_all add: rest_def fence_bytes)
    then have dr: "drop (length y + 1 + 4) rest = w" by (metis append_eq_conv_conj)
    have tw: "trim w = trim b" using tb by (simp add: w_def)
    show ?thesis
      unfolding parse_frontmatter_def Let_def r d3 using st
      by (simp only: fr tk dr tw y(4) not_True_eq_False if_False option.case)
  qed
  have "rust_text (utf8 ?c)" using v by (auto simp: rust_text_def)
  with s p show ?thesis using that by blast
qed

lemma parsed_body:
  assumes "rust_text content" "parse_frontmatter env content = Inr (c, b)"
  shows "rust_text b \<and> trim b = b"
proof -
  obtain e where e: "starts_with (trim content) FENCE" "find_str (drop 3 (trim content)) (10 # FENCE) = Some e"
    "b = trim (drop (e + 4) (drop 3 (trim content)))"
    using assms(2) by (auto simp: parse_frontmatter_def Let_def split: if_splits option.splits)
  let ?rest = "drop 3 (trim content)"
  have tc: "rust_text (trim content)" using rust_trim [OF assms(1)] by simp
  obtain u where u: "trim content = FENCE @ u" using e(1) by (auto simp: starts_with_append)
  then have rest: "?rest = u" by (simp add: fence_bytes)
  have "rust_text ([45, 45] @ 45 # u)" using tc u by (simp add: fence_bytes)
  then have ru: "rust_text u" using rust_after [of "[45, 45]" 45 u] by simp
  have f: "take (length (10 # FENCE)) (drop e u) = 10 # FENCE" using find_str_SomeD [OF e(2)] rest by simp
  have t4: "take 4 (drop e u) = [10, 45, 45, 45]" using f by (simp add: fence_bytes eval_nat_numeral)
  have "take 4 (drop e u) @ drop 4 (drop e u) = drop e u" by (rule append_take_drop_id)
  then have de: "drop e u = 10 # [45, 45] @ 45 # drop (e + 4) u" unfolding t4 by (simp add: add.commute)
  have "take e u @ drop e u = u" by (rule append_take_drop_id)
  then have ru': "rust_text (take e u @ 10 # [45, 45] @ 45 # drop (e + 4) u)" using ru unfolding de by simp
  then have "rust_text ([45, 45] @ 45 # drop (e + 4) u)" using rust_after [OF ru'] by simp
  then have "rust_text (drop (e + 4) u)" using rust_after [of "[45, 45]" 45] by simp
  then show ?thesis using rust_trim e(3) rest by simp
qed


section \<open>Pipes of the store\<close>

definition tracked :: "rstr \<Rightarrow> int \<Rightarrow> rstr \<Rightarrow> pipe_file \<Rightarrow> pipe_file" where
  "tracked slug version b c =
     c\<lparr>pf_source_slug := Some slug, pf_installed_version := Some version, pf_source_hash := Some (simple_hash b)\<rparr>"

lemma load_entry_cong:
  "pd_dirs d name = pd_dirs d' name \<Longrightarrow> pd_overrides d name = pd_overrides d' name
    \<Longrightarrow> load_entry env d name = load_entry env d' name"
  by (simp add: load_entry_def read_md_def split: option.split sum.split)

lemma install_content_done:
  assumes "install_content env name content s = (s', Inr n)" "dirs_readable env" "md_readable env name"
  shows "read_md env (st_disk s') name = Some content \<and> st_pipes s' name = load_entry env (st_disk s') name
    \<and> (meta_writable env \<longrightarrow> pd_tombstones (st_disk s') name = None)"
proof -
  have ok: "dir_ok env name" "md_writable env name" using assms(1) by (auto simp: install_content_def split: if_splits)
  have r: "pd_dirs (remove_tombstone env name d) = pd_dirs d" "pd_overrides (remove_tombstone env name d) = pd_overrides d" for d
    by (simp_all add: remove_tombstone_def)
  let ?d = "write_md env name content (st_disk s)"
  have s': "s' = s\<lparr>st_disk := remove_tombstone env name ?d, st_pipes := load_entry env ?d\<rparr>"
    using assms(1,2) ok by (auto simp: install_content_def load_pipes_def Let_def)
  have "read_md env (st_disk s') name = Some content" using assms(3) by (simp add: s' read_md_def r write_md_def)
  moreover have "load_entry env (st_disk s') name = load_entry env ?d name"
    by (rule load_entry_cong) (simp_all add: s' r)
  moreover have "meta_writable env \<longrightarrow> pd_tombstones (st_disk s') name = None"
    by (simp add: s' remove_tombstone_def)
  ultimately show ?thesis by (simp add: s')
qed

text \<open>A pipe just installed from the store counts as unmodified, is loaded with the slug as its name and
  origin, and its tombstone is gone; from then on it counts as modified exactly when the hash of the prompt in its
  file differs, whatever else of the file changes.\<close>

theorem store_pipe_tracks_prompt:
  assumes "rust_text source_md" "parse_frontmatter env source_md = Inr (c, b)" "round_trips env (tracked slug version b c)"
    "install_pipe_from_store env source_md slug version s = (s', Inr n)"
    "dirs_readable env" "md_readable env slug" "meta_writable env"
  shows "\<exists>config raw. st_pipes s' slug = Some (config, b, raw) \<and> pf_name config = slug
    \<and> pf_source_slug config = Some slug \<and> locally_modified env (st_disk s') slug config = Some False
    \<and> pd_tombstones (st_disk s') slug = None
    \<and> (\<forall>disk content c' b'. read_md env disk slug = Some content \<longrightarrow> parse_frontmatter env content = Inr (c', b')
        \<longrightarrow> locally_modified env disk slug config = Some (simple_hash b' \<noteq> simple_hash b))"
proof -
  have b: "rust_text b" "trim b = b" using parsed_body [OF assms(1,2)] by simp_all
  obtain content where ct: "serialize_pipe env (tracked slug version b c) b = Some content"
    "parse_frontmatter env content = Inr (normalized (tracked slug version b c), b)"
    using serialized_parses [OF assms(3) b(1)] b(2) by metis
  have i: "install_content env slug content s = (s', Inr n)"
    using assms(2,4) ct(1) by (simp add: install_pipe_from_store_def tracked_def split: if_splits)
  note inst = install_content_done [OF i assms(5,6)]
  have hash: "pf_source_hash (normalized (tracked slug version b c)) = Some (simple_hash b)"
    "pf_source_slug (normalized (tracked slug version b c)) = Some slug"
    by (simp_all add: normalized_def cleaned_def tracked_def)
  let ?config = "(normalized (tracked slug version b c))\<lparr>pf_name := slug,
      pc_enabled := (case pd_overrides (st_disk s') slug of Some e \<Rightarrow> e
                     | None \<Rightarrow> pc_enabled (normalized (tracked slug version b c)))\<rparr>"
  have "st_pipes s' slug = Some (?config, b, content)"
    using inst ct(2) by (simp add: load_entry_def)
  moreover have "locally_modified env (st_disk s') slug ?config = Some False"
    using inst ct(2) hash by (simp add: locally_modified_def)
  moreover have "locally_modified env disk slug ?config = Some (simple_hash b' \<noteq> simple_hash b)"
    if "read_md env disk slug = Some x" "parse_frontmatter env x = Inr (c', b')" for disk x c' b'
    using that hash by (simp add: locally_modified_def)
  ultimately show ?thesis using inst assms(7) hash by (intro exI [of _ ?config] exI [of _ content]) simp
qed

section \<open>The enabled flag\<close>

definition flag_is :: "bool \<Rightarrow> rstr \<Rightarrow> pipe_store \<Rightarrow> bool" where
  "flag_is b name s \<longleftrightarrow> pd_overrides (st_disk s) name = Some b
     \<and> (\<forall>p. st_pipes s name = Some p \<longrightarrow> pc_enabled (fst p) = b)"

lemma load_entry_flag:
  "pd_overrides disk name = Some b \<Longrightarrow> load_entry env disk name = Some p \<Longrightarrow> pc_enabled (fst p) = b"
  by (auto simp: load_entry_def split: option.splits sum.splits)

lemma reload_flag: "flag_is b name s \<Longrightarrow> flag_is b name (reload_pipes env s)"
  using load_entry_flag [of "st_disk s" name b env]
  by (auto simp: flag_is_def reload_pipes_def split: option.splits if_splits)

lemma load_flag: "flag_is b name s \<Longrightarrow> flag_is b name (load_pipes env s)"
  using load_entry_flag [of "st_disk s" name b env] by (auto simp: flag_is_def load_pipes_def)

lemma enable_flag:
  assumes "enable_pipe env name b s = (s', Inr u)" "meta_writable env"
  shows "flag_is b name s'"
  using assms
  by (auto simp: enable_pipe_def in_memory_def flag_is_def set_local_override_def write_md_def
      split: if_splits option.splits sum.splits)

text \<open>Replacing the text of a pipe changes its flag only until the next reload: the flag stored for the
  device is not updated, so the new text says one thing and the device does the other.\<close>

theorem raw_edit_of_flag_is_undone:
  assumes "parse_frontmatter env raw = Inr (c, b)" "pd_overrides (st_disk s) name = Some e" "pc_enabled c \<noteq> e"
    "has_md (st_disk s) name" "md_writable env name" "md_readable env name" "dirs_readable env" "st_pipes s name \<noteq> None"
    "int (from_secs 2) \<le> utc_now (fe_sync env) - st_last_reload s"
    "update_config env name [(lit ''raw_content'', JStr raw)] s = (s', Inr u)"
  shows "(\<exists>p. st_pipes s' name = Some p \<and> pc_enabled (fst p) = pc_enabled c)
    \<and> (\<exists>p. st_pipes (reload_pipes env s') name = Some p \<and> pc_enabled (fst p) = e \<and> snd (snd p) = raw)"
proof -
  obtain p where p: "st_pipes s name = Some p" using assms(8) by blast
  have s': "s' = s\<lparr>st_disk := write_md env name raw (st_disk s), st_pipes := (st_pipes s)(name \<mapsto> (c\<lparr>pf_name := name\<rparr>, b, raw))\<rparr>"
    using assms(1,4,5,10) p by (auto simp: update_config_def in_memory_def)
  have l: "load_entry env (st_disk s') name = Some (c\<lparr>pf_name := name, pc_enabled := e\<rparr>, b, raw)"
    using assms(1,2,6) by (simp add: s' load_entry_def read_md_def write_md_def)
  have "has_md (st_disk s') name" by (simp add: s' has_md_def write_md_def)
  then have "st_pipes (reload_pipes env s') name = Some (c\<lparr>pf_name := name, pc_enabled := e\<rparr>, b, raw)"
    using assms(7,9) l by (simp add: reload_pipes_def s')
  then show ?thesis by (simp add: s')
qed

section \<open>Deleted bundled pipes\<close>

text \<open>A bundled pipe the user deleted stays deleted exactly when its file was, byte for byte, the bundled one:
  deleting it after any change to the file, also one of the application's own, brings it back at the next start.\<close>

theorem deleted_builtin_returns_iff_changed:
  assumes "delete_pipe env name s = (s', Inr u)" "read_md env (st_disk s) name = Some file"
    "meta_writable env" "dir_ok env name" "md_writable env name"
  shows "has_md (fst (install_builtin_pipes env [(name, bundled)] (st_disk s'))) name
    \<longleftrightarrow> simple_hash file \<noteq> simple_hash bundled"
proof -
  have d: "pd_dirs (st_disk s') name = None"
    "pd_tombstones (st_disk s') name = Some \<lparr>deleted_at = now_text (fe_sync env), content_hash = Some (simple_hash file)\<rparr>"
    using assms(1-3)
    by (auto simp: delete_pipe_def Let_def add_tombstone_def remove_local_override_def split: if_splits)
  then have "\<not> has_md (st_disk s') name" by (simp add: has_md_def)
  then show ?thesis
    using d assms(4,5) by (simp add: install_builtin_pipes_def Let_def has_md_def write_md_def)
qed

section \<open>A concrete application\<close>

text \<open>Three configurations and their YAML: the pipe on, off, and as the store installs it. The clock writes a time as
  one code, after a minus sign where it is negative.\<close>

definition sample_pipe :: "bool \<Rightarrow> pipe_file" where
  "sample_pipe enabled =
     \<lparr>pc_enabled = enabled, pc_schedule = lit ''manual'', pc_agent = lit ''pi'', pc_model = lit ''auto'', pc_provider = None,
      pc_preset = [], pc_connections = [], pc_permissions = Preset (lit ''reader''), pc_privacy = False, pc_trigger = None,
      pf_name = [], pf_custom = [], pf_timeout = None, pf_source_slug = None, pf_installed_version = None,
      pf_source_hash = None, pf_subagent = False, pf_extra = Map.empty\<rparr>"

definition sample_stored :: pipe_file where
  "sample_stored = tracked (lit ''p'') 1 (lit ''hello'') (sample_pipe True)"

definition sample_write :: "pipe_file \<Rightarrow> rstr option" where
  "sample_write c = Some ((if pf_source_hash c \<noteq> None then lit ''store'' else if pc_enabled c then lit ''on'' else lit ''off'') @ [10])"

definition sample_read :: "rstr \<Rightarrow> pipe_file option" where
  "sample_read t = (if t = 10 # lit ''on'' then Some (sample_pipe True)
     else if t = 10 # lit ''off'' then Some (sample_pipe False)
     else if t = 10 # lit ''store'' then Some sample_stored else None)"

definition sample_time_text :: "timestamp \<Rightarrow> rstr" where
  "sample_time_text t = (if t < 0 then [45, nat (- t)] else [nat t])"

definition sample_text_time :: "rstr \<Rightarrow> timestamp option" where
  "sample_text_time s = (case s of [n] \<Rightarrow> Some (int n) | [m, n] \<Rightarrow> Some (- int n) | _ \<Rightarrow> None)"

definition sample_file_env :: "timestamp \<Rightarrow> file_env" where
  "sample_file_env now =
     \<lparr>fe_sync = \<lparr>rfc3339_of = sample_text_time, utc_now = now, now_text = sample_time_text now,
                 keys_of = (\<lambda>P. sorted_list_of_set {k. P k})\<rparr>,
      to_rfc3339 = sample_time_text, yaml_read = sample_read, yaml_write = sample_write, trigger_of_json = (\<lambda>_. None),
      dirs_readable = True, md_readable = (\<lambda>_. True), dir_ok = (\<lambda>_. True), md_writable = (\<lambda>_. True),
      dir_removable = (\<lambda>_. True), meta_writable = True, fe_low = (\<lambda>s. s), cron_parses = (\<lambda>_. None)\<rparr>"

definition sample_md :: "string \<Rightarrow> rstr" where
  "sample_md yaml = FENCE @ [10] @ lit yaml @ [10] @ FENCE @ [10, 10] @ lit ''hello'' @ [10]"

definition empty_disk :: pipe_disk where
  "empty_disk = \<lparr>pd_dirs = Map.empty, pd_tombstones = Map.empty, pd_overrides = Map.empty, pd_favorites = None\<rparr>"

definition sample_store :: "pipe_disk \<Rightarrow> pipe_store" where
  "sample_store disk = \<lparr>st_disk = disk, st_pipes = Map.empty, st_running = {}, st_last_reload = 0\<rparr>"

lemma sample_fields [simp]:
  "yaml_read (sample_file_env now) = sample_read" "yaml_write (sample_file_env now) = sample_write"
  "dirs_readable (sample_file_env now)" "md_readable (sample_file_env now) n" "dir_ok (sample_file_env now) n"
  "md_writable (sample_file_env now) n" "dir_removable (sample_file_env now) n" "meta_writable (sample_file_env now)"
  "utc_now (fe_sync (sample_file_env now)) = now" "to_rfc3339 (sample_file_env now) = sample_time_text"
  "rfc3339_of (fe_sync (sample_file_env now)) = sample_text_time"
  by (simp_all add: sample_file_env_def)

lemma cleaned_sample: "cleaned (sample_pipe f) = sample_pipe f" "cleaned sample_stored = sample_stored"
  "normalized (sample_pipe f) = sample_pipe f" "normalized sample_stored = sample_stored"
  by (simp_all add: normalized_def cleaned_def sample_pipe_def sample_stored_def tracked_def is_default_model_def cong: if_cong)

lemma sample_rust: "rust_text (lit ''hello'')" "rust_text (lit ''on'')" "rust_text (lit ''off'')" "rust_text (lit ''store'')"
  by (rule rust_ascii, code_simp)+

lemma sample_finds:
  "find_str (10 # lit ''on'' @ 10 # FENCE) (10 # FENCE) = Some (length (lit ''on'') + 1)"
  "find_str (10 # lit ''off'' @ 10 # FENCE) (10 # FENCE) = Some (length (lit ''off'') + 1)"
  "find_str (10 # lit ''store'' @ 10 # FENCE) (10 # FENCE) = Some (length (lit ''store'') + 1)"
  by code_simp+

lemma sample_reads:
  "sample_read (10 # lit ''on'') = Some (sample_pipe True)" "sample_read (10 # lit ''off'') = Some (sample_pipe False)"
  "sample_read (10 # lit ''store'') = Some sample_stored"
  by (simp_all add: sample_read_def lit_def)

lemma sample_writes:
  "sample_write (sample_pipe True) = Some (lit ''on'' @ [10])" "sample_write (sample_pipe False) = Some (lit ''off'' @ [10])"
  "sample_write sample_stored = Some (lit ''store'' @ [10])"
  by (simp_all add: sample_write_def sample_pipe_def sample_stored_def tracked_def)

lemma sample_round_trips:
  "round_trips (sample_file_env now) (sample_pipe f)" "round_trips (sample_file_env now) sample_stored"
proof -
  have "round_trips (sample_file_env now) (sample_pipe True)" unfolding round_trips_def cleaned_sample sample_fields
    by (rule exI [of _ "lit ''on''"]) (simp only: sample_writes sample_rust sample_finds sample_reads simp_thms)
  moreover have "round_trips (sample_file_env now) (sample_pipe False)" unfolding round_trips_def cleaned_sample sample_fields
    by (rule exI [of _ "lit ''off''"]) (simp only: sample_writes sample_rust sample_finds sample_reads simp_thms)
  ultimately show "round_trips (sample_file_env now) (sample_pipe f)" by (cases f) simp_all
  show "round_trips (sample_file_env now) sample_stored" unfolding round_trips_def cleaned_sample sample_fields
    by (rule exI [of _ "lit ''store''"]) (simp only: sample_writes sample_rust sample_finds sample_reads simp_thms)
qed

lemma sample_parses:
  "parse_frontmatter (sample_file_env now) (sample_md ''on'') = Inr (sample_pipe True, lit ''hello'')"
  "parse_frontmatter (sample_file_env now) (sample_md ''off'') = Inr (sample_pipe False, lit ''hello'')"
proof -
  have t: "trim (sample_md ''on'') = FENCE @ 10 # lit ''on'' @ 10 # FENCE @ [10, 10] @ lit ''hello''"
    "trim (sample_md ''off'') = FENCE @ 10 # lit ''off'' @ 10 # FENCE @ [10, 10] @ lit ''hello''" by code_simp+
  have f: "starts_with (FENCE @ 10 # lit ''on'' @ 10 # FENCE @ [10, 10] @ lit ''hello'') FENCE"
    "starts_with (FENCE @ 10 # lit ''off'' @ 10 # FENCE @ [10, 10] @ lit ''hello'') FENCE"
    "find_str (drop 3 (FENCE @ 10 # lit ''on'' @ 10 # FENCE @ [10, 10] @ lit ''hello'')) (10 # FENCE) = Some 3"
    "find_str (drop 3 (FENCE @ 10 # lit ''off'' @ 10 # FENCE @ [10, 10] @ lit ''hello'')) (10 # FENCE) = Some 4"
    "take 3 (drop 3 (FENCE @ 10 # lit ''on'' @ 10 # FENCE @ [10, 10] @ lit ''hello'')) = 10 # lit ''on''"
    "take 4 (drop 3 (FENCE @ 10 # lit ''off'' @ 10 # FENCE @ [10, 10] @ lit ''hello'')) = 10 # lit ''off''"
    "trim (drop (3 + 4) (drop 3 (FENCE @ 10 # lit ''on'' @ 10 # FENCE @ [10, 10] @ lit ''hello''))) = lit ''hello''"
    "trim (drop (4 + 4) (drop 3 (FENCE @ 10 # lit ''off'' @ 10 # FENCE @ [10, 10] @ lit ''hello''))) = lit ''hello''" by code_simp+
  show "parse_frontmatter (sample_file_env now) (sample_md ''on'') = Inr (sample_pipe True, lit ''hello'')"
    "parse_frontmatter (sample_file_env now) (sample_md ''off'') = Inr (sample_pipe False, lit ''hello'')"
    by (simp_all only: parse_frontmatter_def Let_def t f sample_fields sample_reads if_True if_False not_True_eq_False option.case)
qed


lemma store_pipe_tracks_prompt_witness:
  "\<exists>config raw. st_pipes (fst (install_pipe_from_store (sample_file_env 5) (sample_md ''on'') (lit ''p'') 1 (sample_store empty_disk)))
       (lit ''p'') = Some (config, lit ''hello'', raw)
     \<and> locally_modified (sample_file_env 5)
         (st_disk (fst (install_pipe_from_store (sample_file_env 5) (sample_md ''on'') (lit ''p'') 1 (sample_store empty_disk))))
         (lit ''p'') config = Some False"
proof -
  let ?e = "sample_file_env 5"
  have r: "rust_text (sample_md ''on'')" by (rule rust_ascii) code_simp
  have t: "round_trips ?e (tracked (lit ''p'') 1 (lit ''hello'') (sample_pipe True))"
    using sample_round_trips(2) by (simp add: sample_stored_def)
  obtain content where c: "serialize_pipe ?e (tracked (lit ''p'') 1 (lit ''hello'') (sample_pipe True)) (lit ''hello'') = Some content"
    using serialized_parses [OF t sample_rust(1)] by metis
  obtain s' where i: "install_pipe_from_store ?e (sample_md ''on'') (lit ''p'') 1 (sample_store empty_disk) = (s', Inr (lit ''p''))"
    using c by (simp add: install_pipe_from_store_def sample_parses tracked_def install_content_def Let_def)
  from store_pipe_tracks_prompt [OF r sample_parses(1) t i] show ?thesis unfolding i by fastforce
qed

lemma raw_edit_of_flag_is_undone_witness:
  "let s = (sample_store (empty_disk\<lparr>pd_dirs := [lit ''p'' \<mapsto> Some (sample_md ''off'', 1)], pd_overrides := [lit ''p'' \<mapsto> False]\<rparr>))
             \<lparr>st_pipes := [lit ''p'' \<mapsto> (sample_pipe False, lit ''hello'', sample_md ''off'')]\<rparr>;
       s' = fst (update_config (sample_file_env 3000000000) (lit ''p'') [(lit ''raw_content'', JStr (sample_md ''on''))] s)
   in (\<exists>p. st_pipes s' (lit ''p'') = Some p \<and> pc_enabled (fst p))
    \<and> (\<exists>p. st_pipes (reload_pipes (sample_file_env 3000000000) s') (lit ''p'') = Some p \<and> \<not> pc_enabled (fst p))"
proof -
  let ?s = "(sample_store (empty_disk\<lparr>pd_dirs := [lit ''p'' \<mapsto> Some (sample_md ''off'', 1)], pd_overrides := [lit ''p'' \<mapsto> False]\<rparr>))
             \<lparr>st_pipes := [lit ''p'' \<mapsto> (sample_pipe False, lit ''hello'', sample_md ''off'')]\<rparr>"
  let ?e = "sample_file_env 3000000000"
  have s: "pd_overrides (st_disk ?s) (lit ''p'') = Some False" "has_md (st_disk ?s) (lit ''p'')" "st_pipes ?s (lit ''p'') \<noteq> None"
    "int (from_secs 2) \<le> utc_now (fe_sync ?e) - st_last_reload ?s" "pc_enabled (sample_pipe True) \<noteq> False" "pc_enabled (sample_pipe True)"
    by (simp_all add: sample_store_def has_md_def from_secs_def sample_pipe_def)
  obtain s' where u: "update_config ?e (lit ''p'') [(lit ''raw_content'', JStr (sample_md ''on''))] ?s = (s', Inr ())"
    using s(2) by (simp add: update_config_def sample_parses)
  from raw_edit_of_flag_is_undone [OF sample_parses(1) s(1,5,2) _ _ _ s(3,4) u] s(6) show ?thesis unfolding Let_def u by auto
qed

lemma deleted_builtin_returns_iff_changed_witness:
  "let s = sample_store (empty_disk\<lparr>pd_dirs := [lit ''p'' \<mapsto> Some (sample_md ''off'', 1)]\<rparr>);
       s' = fst (delete_pipe (sample_file_env 5) (lit ''p'') s)
   in has_md (fst (install_builtin_pipes (sample_file_env 5) [(lit ''p'', sample_md ''on'')] (st_disk s'))) (lit ''p'')"
proof -
  let ?s = "sample_store (empty_disk\<lparr>pd_dirs := [lit ''p'' \<mapsto> Some (sample_md ''off'', 1)]\<rparr>)"
  obtain s' where d: "delete_pipe (sample_file_env 5) (lit ''p'') ?s = (s', Inr ())"
    by (simp add: delete_pipe_def Let_def sample_store_def)
  have r: "read_md (sample_file_env 5) (st_disk ?s) (lit ''p'') = Some (sample_md ''off'')" by (simp add: read_md_def sample_store_def)
  have "simple_hash (sample_md ''off'') \<noteq> simple_hash (sample_md ''on'')" by code_simp
  with deleted_builtin_returns_iff_changed [OF d r, of "sample_md ''on''"] show ?thesis unfolding Let_def d by simp
qed

end
