(* ===== verification/PipeSyncProperties.thy ===== *)
theory PipeSyncProperties
  imports SyncPipes PipeFileProperties
begin

text \<open>
  Properties of the synchronisation of pipes: the flag of a device is its own, an import does not run by itself,
  and the time of a file, which is the time of the merge, is also changed by the merge.
\<close>

section \<open>A name by itself\<close>

lemma local_enabled_cong:
  "pd_dirs d n = pd_dirs d' n \<Longrightarrow> pd_overrides d n = pd_overrides d' n \<Longrightarrow> local_enabled env d n = local_enabled env d' n"
proof -
  assume "pd_dirs d n = pd_dirs d' n" "pd_overrides d n = pd_overrides d' n"
  then have "read_md env d n = read_md env d' n" "pd_overrides d n = pd_overrides d' n" by (simp_all add: read_md_def)
  then show ?thesis by (simp only: local_enabled_def)
qed

lemma apply_other:
  assumes "k \<noteq> action_name a"
  shows "pd_dirs (fst (apply_pipe_action env m a (disk, errs))) k = pd_dirs disk k
    \<and> pd_overrides (fst (apply_pipe_action env m a (disk, errs))) k = pd_overrides disk k"
  using assms
  by (cases a) (simp_all add: apply_pipe_action_def write_synced_def Let_def make_dir_def write_md_def
      remove_local_override_def split: option.split)

lemma write_synced_cong:
  assumes "pd_dirs d n = pd_dirs d' n" "pd_overrides d n = pd_overrides d' n"
  shows "pd_dirs (fst (write_synced env m i n (d, e))) n = pd_dirs (fst (write_synced env m i n (d', e'))) n
    \<and> pd_overrides (fst (write_synced env m i n (d, e))) n = pd_overrides (fst (write_synced env m i n (d', e'))) n"
proof -
  have "pd_dirs (make_dir n d) n = pd_dirs (make_dir n d') n" "pd_overrides (make_dir n d) n = pd_overrides (make_dir n d') n"
    using assms by (simp_all add: make_dir_def)
  from this local_enabled_cong [OF this, of env] show ?thesis
    using assms by (simp add: write_synced_def Let_def write_md_def make_dir_def split: option.split)
qed

lemma apply_own_cong:
  assumes "pd_dirs d (action_name a) = pd_dirs d' (action_name a)" "pd_overrides d (action_name a) = pd_overrides d' (action_name a)"
  shows "pd_dirs (fst (apply_pipe_action env m a (d, e))) (action_name a)
      = pd_dirs (fst (apply_pipe_action env m a (d', e'))) (action_name a)
    \<and> pd_overrides (fst (apply_pipe_action env m a (d, e))) (action_name a)
      = pd_overrides (fst (apply_pipe_action env m a (d', e'))) (action_name a)"
  using assms write_synced_cong
  by (cases a) (simp_all add: apply_pipe_action_def Let_def remove_local_override_def)

lemma apply_all:
  assumes "distinct (map action_name acts)"
  shows "(\<forall>a \<in> set acts.
       pd_dirs (fst (fold (apply_pipe_action env m) acts (d, e))) (action_name a)
         = pd_dirs (fst (apply_pipe_action env m a (d, []))) (action_name a)
     \<and> pd_overrides (fst (fold (apply_pipe_action env m) acts (d, e))) (action_name a)
         = pd_overrides (fst (apply_pipe_action env m a (d, []))) (action_name a))
   \<and> (\<forall>k. k \<notin> action_name ` set acts \<longrightarrow>
       pd_dirs (fst (fold (apply_pipe_action env m) acts (d, e))) k = pd_dirs d k
     \<and> pd_overrides (fst (fold (apply_pipe_action env m) acts (d, e))) k = pd_overrides d k)"
  using assms
proof (induction acts arbitrary: d e)
  case (Cons a acts)
  obtain d1 e1 where 1: "apply_pipe_action env m a (d, e) = (d1, e1)" by fastforce
  have dist: "distinct (map action_name acts)" and n: "action_name a \<notin> action_name ` set acts" using Cons.prems by simp_all
  note ih = Cons.IH [OF dist, of d1 e1]
  have other: "pd_dirs d1 k = pd_dirs d k \<and> pd_overrides d1 k = pd_overrides d k" if "k \<noteq> action_name a" for k
    using apply_other [OF that, of env m d e] 1 by simp
  have own: "pd_dirs d1 (action_name a) = pd_dirs (fst (apply_pipe_action env m a (d, []))) (action_name a)
      \<and> pd_overrides d1 (action_name a) = pd_overrides (fst (apply_pipe_action env m a (d, []))) (action_name a)"
    using apply_own_cong [of d a d env m e "[]"] 1 by simp
  have later: "pd_dirs (fst (apply_pipe_action env m b (d1, []))) (action_name b)
        = pd_dirs (fst (apply_pipe_action env m b (d, []))) (action_name b)
      \<and> pd_overrides (fst (apply_pipe_action env m b (d1, []))) (action_name b)
        = pd_overrides (fst (apply_pipe_action env m b (d, []))) (action_name b)" if "b \<in> set acts" for b
  proof -
    have "action_name b \<noteq> action_name a" using that n by (metis imageI)
    then show ?thesis using apply_own_cong [of d1 b d env m "[]" "[]"] other by simp
  qed
  show ?case using ih own later other n 1 by auto
qed simp

section \<open>A cycle\<close>

definition good_file_env :: "file_env \<Rightarrow> bool" where
  "good_file_env env \<longleftrightarrow> enumerates (fe_sync env) \<and> dirs_readable env \<and> meta_writable env
     \<and> (\<forall>n. md_readable env n \<and> dir_ok env n \<and> md_writable env n \<and> dir_removable env n)
     \<and> (\<forall>t. rfc3339_of (fe_sync env) (to_rfc3339 env t) = Some t)"

definition small_disk :: "pipe_disk \<Rightarrow> bool" where
  "small_disk d \<longleftrightarrow> finite (dom (pd_dirs d)) \<and> finite (dom (pd_tombstones d))"

lemma local_small: "small_disk d \<Longrightarrow> small (build_local_manifest env d me)"
proof -
  assume s: "small_disk d"
  have "dom (local_pipe env me d) \<subseteq> dom (pd_dirs d)" by (auto simp: local_pipe_def split: option.splits)
  moreover have "dom (\<lambda>n. if local_pipe env me d n \<noteq> None then None else map_option deleted_at (pd_tombstones d n))
      \<subseteq> dom (pd_tombstones d)" by (auto split: if_splits)
  ultimately show ?thesis using s finite_subset
    by (auto simp: build_local_manifest_def small_def small_disk_def empty_manifest_def)
qed

lemma reload_disk [simp]: "st_disk (reload_pipes env s) = st_disk s"
  by (simp add: reload_pipes_def)

lemma pipe_cycle:
  assumes "good_file_env env" "small_disk (st_disk s)" "small c" "tidy c"
    "run_background_pipe_sync env me (Some c) s = (s', merged, acts, errs)"
  shows "map action_name acts = all_names (fe_sync env) (build_local_manifest env (st_disk s) me) c"
    and "fate_of merged k = join (pipe_newer (fe_sync env)) last_modified (fe_sync env)
           (fate_of (build_local_manifest env (st_disk s) me) k) (fate_of c k)"
    and "small merged" "tidy merged"
    and "st_disk s' = fst (fold (apply_pipe_action env merged) acts (st_disk s, []))"
    and "acts = map (\<lambda>k. the (done_to (pipe_newer (fe_sync env)) last_modified (fe_sync env)
           (fate_of (build_local_manifest env (st_disk s) me) k) (fate_of c k)) k)
           (all_names (fe_sync env) (build_local_manifest env (st_disk s) me) c)"
proof -
  let ?l = "build_local_manifest env (st_disk s) me"
  have en: "enumerates (fe_sync env)" using assms(1) by (simp add: good_file_env_def)
  have sl: "small ?l" by (rule local_small [OF assms(2)])
  obtain m as where m: "merge_pipes (fe_sync env) ?l c me = (m, as)" by fastforce
  obtain d es where d: "apply_manifest_to_disk env m as (st_disk s) = (d, es)" by fastforce
  have run: "merged = m" "acts = as" "st_disk s' = d"
    using assms(5) m d by (auto simp: run_background_pipe_sync_def Let_def split: if_splits)
  note mm = m [unfolded merge_pipes_def]
  show "map action_name acts = all_names (fe_sync env) ?l c" using merged_effects(1) [OF en sl assms(3,4) mm] run by simp
  show "fate_of merged k = join (pipe_newer (fe_sync env)) last_modified (fe_sync env) (fate_of ?l k) (fate_of c k)"
    using merge_fates [OF en sl assms(3,4), of "pipe_newer (fe_sync env)" last_modified me k] run mm by simp
  show "small merged" "tidy merged"
    using merge_small [OF en sl assms(3,4), of "pipe_newer (fe_sync env)" last_modified me]
      merge_tidy [OF en sl assms(3,4), of "pipe_newer (fe_sync env)" last_modified me] run mm by simp_all
  show "st_disk s' = fst (fold (apply_pipe_action env merged) acts (st_disk s, []))"
    using run d by (simp add: apply_manifest_to_disk_def)
  show "acts = map (\<lambda>k. the (done_to (pipe_newer (fe_sync env)) last_modified (fe_sync env) (fate_of ?l k) (fate_of c k)) k)
      (all_names (fe_sync env) ?l c)"
    using merge_actions [OF en sl assms(3,4), of "pipe_newer (fe_sync env)" last_modified me] run mm by simp
qed

lemma pipe_cycle_name:
  assumes "good_file_env env" "small_disk (st_disk s)" "small c" "tidy c"
    "run_background_pipe_sync env me (Some c) s = (s', merged, acts, errs)" "a \<in> set acts"
  shows "pd_dirs (st_disk s') (action_name a) = pd_dirs (fst (apply_pipe_action env merged a (st_disk s, []))) (action_name a)"
    "pd_overrides (st_disk s') (action_name a) = pd_overrides (fst (apply_pipe_action env merged a (st_disk s, []))) (action_name a)"
proof -
  note c = pipe_cycle [OF assms(1-5)]
  have en: "enumerates (fe_sync env)" using assms(1) by (simp add: good_file_env_def)
  have "distinct (map action_name acts)" unfolding c(1) by (rule all_names_set [OF en local_small [OF assms(2)] assms(3)])
  from apply_all [OF this, of env merged "st_disk s" "[]"] assms(6) c(5)
  show "pd_dirs (st_disk s') (action_name a) = pd_dirs (fst (apply_pipe_action env merged a (st_disk s, []))) (action_name a)"
    "pd_overrides (st_disk s') (action_name a) = pd_overrides (fst (apply_pipe_action env merged a (st_disk s, []))) (action_name a)"
    by simp_all
qed

text \<open>An import or an update writes the file now.\<close>

lemma update_writes:
  assumes "good_file_env env" "small_disk (st_disk s)" "small c" "tidy c"
    "run_background_pipe_sync env me (Some c) s = (s', merged, acts, errs)" "Updated n \<in> set acts \<or> Imported n \<in> set acts"
  obtains v flag where "entries c n = Some v" "entries merged n = Some v"
    "pd_dirs (st_disk s') n = Some (Some (override_enabled env (raw_content v) flag, utc_now (fe_sync env)))"
proof -
  note c = pipe_cycle [OF assms(1-5)]
  let ?f = "fate_of (build_local_manifest env (st_disk s) me)"
  obtain a where a: "a \<in> set acts" "a = Updated n \<or> a = Imported n" using assms(6) by blast
  then obtain k where k: "k \<in> set (all_names (fe_sync env) (build_local_manifest env (st_disk s) me) c)"
    "a = the (done_to (pipe_newer (fe_sync env)) last_modified (fe_sync env) (?f k) (fate_of c k)) k"
    using c(6) by (metis (no_types, lifting) imageE set_map)
  have "enumerates (fe_sync env)" using assms(1) by (simp add: good_file_env_def)
  from all_names_set(2) [OF this local_small [OF assms(2)] assms(3), of env me] k(1)
  have rows: "entries (build_local_manifest env (st_disk s) me) k \<noteq> None \<or> entries c k \<noteq> None" by blast
  have "\<exists>v. fate_of c k = Live v \<and> join (pipe_newer (fe_sync env)) last_modified (fe_sync env) (?f k) (fate_of c k) = Live v \<and> k = n"
  proof -
    obtain x y where xy: "?f k = x" "fate_of c k = y" by blast
    have "\<not> ((\<forall>w. x \<noteq> Live w) \<and> (\<forall>w. y \<noteq> Live w))"
      using rows xy by (metis fate_live_iff option.exhaust)
    then show ?thesis using a(2) k(2) unfolding xy by (cases x; cases y) (auto split: if_splits)
  qed
  then obtain v where v: "fate_of c n = Live v" "fate_of merged n = Live v" using c(2) by auto
  then have e: "entries c n = Some v" "entries merged n = Some v" by simp_all
  have w: "action_name a = n" "\<And>i. \<exists>flag. pd_dirs (fst (write_synced env merged i n (st_disk s, []))) n
      = Some (Some (override_enabled env (raw_content v) flag, utc_now (fe_sync env)))"
    using a(2) e(2) assms(1)
    by (auto simp: write_synced_def Let_def write_md_def good_file_env_def force_disabled_def)
  have "\<exists>flag. pd_dirs (st_disk s') n = Some (Some (override_enabled env (raw_content v) flag, utc_now (fe_sync env)))"
  proof -
    obtain i where i: "apply_pipe_action env merged a (st_disk s, []) = write_synced env merged i n (st_disk s, [])"
      using a(2) by (auto simp: apply_pipe_action_def)
    show ?thesis using pipe_cycle_name(1) [OF assms(1-5) a(1)] unfolding i w(1) using w(2) [of i] by metis
  qed
  then show ?thesis using e that by blast
qed

text \<open>A device whose file is newer than the cloud's row publishes its file.\<close>

lemma newer_file_published:
  assumes "good_file_env env" "small_disk (st_disk s)" "small c" "tidy c"
    "run_background_pipe_sync env me (Some c) s = (s', merged, acts, errs)"
    "pd_dirs (st_disk s) n = Some (Some (content, t))" "parse_frontmatter env content = Inr p"
    "entries c n = Some w" "parse_rfc3339 (fe_sync env) (last_modified w) \<le> t"
  shows "entries merged n = Some \<lparr>raw_content = content, last_modified = to_rfc3339 env t, last_modified_by = me\<rparr>
    \<and> Skipped n \<in> set acts \<and> pd_dirs (st_disk s') n = Some (Some (content, t))"
proof -
  note c = pipe_cycle [OF assms(1-5)]
  let ?v = "\<lparr>raw_content = content, last_modified = to_rfc3339 env t, last_modified_by = me\<rparr>"
  let ?l = "build_local_manifest env (st_disk s) me"
  have en: "enumerates (fe_sync env)" using assms(1) by (simp add: good_file_env_def)
  have l: "entries ?l n = Some ?v" using assms(1,6,7)
    by (simp add: build_local_manifest_def good_file_env_def local_pipe_def)
  have t: "parse_rfc3339 (fe_sync env) (to_rfc3339 env t) = t" using assms(1) by (simp add: good_file_env_def parse_rfc3339_def)
  have f: "fate_of ?l n = Live ?v" "fate_of c n = Live w" using l assms(8) by simp_all
  have nn: "\<not> pipe_newer (fe_sync env) ?v w" using assms(9) t by (simp add: pipe_newer_def)
  have m: "entries merged n = Some ?v"
    using c(2) [of n] nn unfolding f by simp
  have "n \<in> set (all_names (fe_sync env) ?l c)" using all_names_set(2) [OF en local_small [OF assms(2)] assms(3), of env me] l by simp
  then have sk: "Skipped n \<in> set acts" using c(6) nn f by (force simp del: fate_live_iff)
  then have "pd_dirs (st_disk s') n = Some (Some (content, t))"
    using pipe_cycle_name(1) [OF assms(1-5) sk] assms(6) by (simp add: apply_pipe_action_def)
  then show ?thesis using m sk by simp
qed

text \<open>A device whose file is older is updated.\<close>

lemma older_file_updated:
  assumes "good_file_env env" "small_disk (st_disk s)" "small c" "tidy c"
    "run_background_pipe_sync env me (Some c) s = (s', merged, acts, errs)"
    "pd_dirs (st_disk s) n = Some (Some (content, t))" "parse_frontmatter env content = Inr p"
    "entries c n = Some w" "t < parse_rfc3339 (fe_sync env) (last_modified w)"
  shows "Updated n \<in> set acts"
proof -
  note c = pipe_cycle [OF assms(1-5)]
  let ?v = "\<lparr>raw_content = content, last_modified = to_rfc3339 env t, last_modified_by = me\<rparr>"
  let ?l = "build_local_manifest env (st_disk s) me"
  have en: "enumerates (fe_sync env)" using assms(1) by (simp add: good_file_env_def)
  have l: "entries ?l n = Some ?v" using assms(1,6,7)
    by (simp add: build_local_manifest_def good_file_env_def local_pipe_def)
  have "parse_rfc3339 (fe_sync env) (to_rfc3339 env t) = t" using assms(1) by (simp add: good_file_env_def parse_rfc3339_def)
  then have nn: "pipe_newer (fe_sync env) ?v w" using assms(9) by (simp add: pipe_newer_def)
  have f: "fate_of ?l n = Live ?v" "fate_of c n = Live w" using l assms(8) by simp_all
  have "n \<in> set (all_names (fe_sync env) ?l c)" using all_names_set(2) [OF en local_small [OF assms(2)] assms(3), of env me] l by simp
  then show ?thesis using c(6) nn f by (force simp del: fate_live_iff)
qed

section \<open>Flags\<close>

text \<open>Whether this device runs a pipe: the flag it is loaded with.\<close>

definition runs_here :: "file_env \<Rightarrow> pipe_disk \<Rightarrow> rstr \<Rightarrow> bool" where
  "runs_here env disk name = (case load_entry env disk name of Some p \<Rightarrow> pc_enabled (fst p) | None \<Rightarrow> False)"

text \<open>A configuration as the parser delivers it, which is written and read back with either flag.\<close>

definition settled :: "file_env \<Rightarrow> pipe_file \<Rightarrow> rstr \<Rightarrow> bool" where
  "settled env c b \<longleftrightarrow> rust_text b \<and> trim b = b
     \<and> (\<forall>f. round_trips env (c\<lparr>pc_enabled := f\<rparr>) \<and> normalized (c\<lparr>pc_enabled := f\<rparr>) = c\<lparr>pc_enabled := f\<rparr>)"

definition pipe_text :: "file_env \<Rightarrow> pipe_file \<Rightarrow> rstr \<Rightarrow> rstr \<Rightarrow> bool" where
  "pipe_text env c b content \<longleftrightarrow> (\<exists>f. parse_frontmatter env content = Inr (c\<lparr>pc_enabled := f\<rparr>, b))"

lemma override_parses:
  assumes "settled env c b" "pipe_text env c b raw"
  shows "parse_frontmatter env (override_enabled env raw f) = Inr (c\<lparr>pc_enabled := f\<rparr>, b)"
proof -
  obtain g where g: "parse_frontmatter env raw = Inr (c\<lparr>pc_enabled := g\<rparr>, b)" using assms(2) by (auto simp: pipe_text_def)
  have r: "round_trips env (c\<lparr>pc_enabled := f\<rparr>)" "rust_text b" "normalized (c\<lparr>pc_enabled := f\<rparr>) = c\<lparr>pc_enabled := f\<rparr>" "trim b = b"
    using assms(1) by (simp_all add: settled_def)
  from serialized_parses [OF r(1,2)] obtain content where
    "serialize_pipe env (c\<lparr>pc_enabled := f\<rparr>) b = Some content" "parse_frontmatter env content = Inr (c\<lparr>pc_enabled := f\<rparr>, b)"
    unfolding r(3,4) by blast
  then show ?thesis using g by (simp add: override_enabled_def)
qed

lemma local_enabled_runs: "read_md env disk name = Some x \<Longrightarrow> parse_frontmatter env x = Inr p \<Longrightarrow> local_enabled env disk name = runs_here env disk name"
  by (cases p) (simp add: local_enabled_def runs_here_def load_entry_def split: option.split)

text \<open>What one written file does to the flag.\<close>

lemma write_synced_flag:
  assumes "good_file_env env" "entries m n = Some v" "settled env c b" "pipe_text env c b (raw_content v)"
  shows "runs_here env (fst (write_synced env m i n (d, e))) n
      = (case pd_overrides d n of Some ov \<Rightarrow> ov | None \<Rightarrow> if i then False else local_enabled env d n)"
proof -
  have ok: "dir_ok env n" "md_writable env n" "md_readable env n" using assms(1) by (simp_all add: good_file_env_def)
  define f where "f = (if i then False else local_enabled env (make_dir n d) n)"
  have le: "local_enabled env (make_dir n d) n = local_enabled env d n"
    by (simp add: local_enabled_def read_md_def make_dir_def split: option.split)
  have "read_md env (fst (write_synced env m i n (d, e))) n = Some (override_enabled env (raw_content v) f)"
    using ok assms(2) by (simp add: write_synced_def Let_def write_md_def read_md_def f_def force_disabled_def)
  moreover have "pd_overrides (fst (write_synced env m i n (d, e))) n = pd_overrides d n"
    using ok assms(2) by (simp add: write_synced_def Let_def write_md_def make_dir_def)
  ultimately show ?thesis using override_parses [OF assms(3,4), of f] le
    by (simp add: runs_here_def load_entry_def f_def split: option.split)
qed

text \<open>C25: Synchronisation never decides whether a pipe runs on this device: a pipe that arrives is off, and one
  that is updated keeps the flag the device had, whatever flag the file of the other device carries.\<close>

theorem pipe_sync_keeps_flags:
  assumes "good_file_env env" "small_disk (st_disk s)" "small c" "tidy c"
    "run_background_pipe_sync env me (Some c) s = (s', merged, acts, errs)"
    "entries c n = Some v" "settled env cf b" "pipe_text env cf b (raw_content v)" "Deleted n \<notin> set acts"
    "pd_overrides (st_disk s) n \<noteq> None \<Longrightarrow> load_entry env (st_disk s) n \<noteq> None"
  shows "runs_here env (st_disk s') n = runs_here env (st_disk s) n"
proof -
  note pc = pipe_cycle [OF assms(1-5)]
  let ?l = "build_local_manifest env (st_disk s) me"
  have en: "enumerates (fe_sync env)" and good: "dirs_readable env" "md_readable env n"
    using assms(1) by (simp_all add: good_file_env_def)
  have "n \<in> set (all_names (fe_sync env) ?l c)" using all_names_set(2) [OF en local_small [OF assms(2)] assms(3), of env me] assms(6) by simp
  then have a: "the (done_to (pipe_newer (fe_sync env)) last_modified (fe_sync env) (fate_of ?l n) (fate_of c n)) n \<in> set acts"
    (is "?a \<in> _") using pc(6) by simp
  have fc: "fate_of c n = Live v" using assms(6) by simp
  note jm = pc(2) [of n, unfolded fc]
  have runs: "runs_here env (st_disk s') n = runs_here env (fst (apply_pipe_action env merged ?a (st_disk s, []))) n" if "action_name ?a = n"
    using pipe_cycle_name [OF assms(1-5) a] that load_entry_cong [of "st_disk s'" n "fst (apply_pipe_action env merged ?a (st_disk s, []))" env]
    by (simp add: runs_here_def)
  show ?thesis
  proof (cases "entries ?l n")
    case (Some l)
    then have fl: "fate_of ?l n = Live l" by simp
    obtain x t p where x: "pd_dirs (st_disk s) n = Some (Some (x, t))" "parse_frontmatter env x = Inr p"
      using Some good by (auto simp: build_local_manifest_def local_pipe_def split: option.splits sum.splits)
    have rd: "read_md env (st_disk s) n = Some x" using x good by (simp add: read_md_def)
    show ?thesis
    proof (cases "pipe_newer (fe_sync env) l v")
      case True
      then have act: "?a = Updated n" and m: "entries merged n = Some v" using fl fc jm by (simp_all del: fate_live_iff) (metis fate_live_iff)
      have "runs_here env (fst (write_synced env merged False n (st_disk s, []))) n = local_enabled env (st_disk s) n"
        unfolding write_synced_flag [OF assms(1) m assms(7,8)] by (simp add: local_enabled_def split: option.split)
      then show ?thesis using runs act local_enabled_runs [OF rd x(2)] by (simp add: apply_pipe_action_def)
    next
      case False
      then have "?a = Skipped n" using fl fc by (simp del: fate_live_iff)
      then show ?thesis using runs by (simp add: apply_pipe_action_def)
    qed
  next
    case None
    then have nl: "load_entry env (st_disk s) n = None"
      using good by (auto simp: build_local_manifest_def local_pipe_def load_entry_def read_md_def split: option.splits sum.splits prod.splits)
    then have off: "pd_overrides (st_disk s) n = None" "\<not> runs_here env (st_disk s) n"
      using assms(10) by (blast, simp add: runs_here_def)
    have "?a = Skipped n \<or> ?a = Imported n \<and> entries merged n = Some v"
      using None fc jm by (cases "fate_of ?l n") (auto simp del: fate_live_iff simp: fate_of_def split: if_splits option.splits)
    then show ?thesis
    proof
      assume "?a = Skipped n"
      then show ?thesis using runs by (simp add: apply_pipe_action_def)
    next
      assume i: "?a = Imported n \<and> entries merged n = Some v"
      then have "\<not> runs_here env (fst (write_synced env merged True n (st_disk s, []))) n"
        using write_synced_flag [OF assms(1) _ assms(7,8), of merged n True "st_disk s" "[]"] off by simp
      then show ?thesis using runs i off by (simp add: apply_pipe_action_def)
    qed
  qed
qed

section \<open>Two devices\<close>

text \<open>The clock of a cycle; the rest of the environment is the same for all.\<close>

definition at_time :: "timestamp \<Rightarrow> file_env \<Rightarrow> file_env" where
  "at_time t env = env\<lparr>fe_sync := (fe_sync env)\<lparr>utc_now := t\<rparr>\<rparr>"

text \<open>The devices take turns, each with the manifest that the other has uploaded.\<close>

fun alternate :: "file_env \<Rightarrow> timestamp list \<Rightarrow> rstr \<times> pipe_store \<Rightarrow> rstr \<times> pipe_store \<Rightarrow> synced_pipe manifest \<Rightarrow> sync_action list list" where
  "alternate env [] x y c = []"
| "alternate env (t # ts) (me, s) y c =
     (let (s', m, acts, errs) = run_background_pipe_sync (at_time t env) me (Some c) s
      in acts # alternate env ts y (me, s') m)"

lemma at_time_fields [simp]:
  "yaml_read (at_time t env) = yaml_read env" "yaml_write (at_time t env) = yaml_write env"
  "to_rfc3339 (at_time t env) = to_rfc3339 env" "utc_now (fe_sync (at_time t env)) = t"
  "rfc3339_of (fe_sync (at_time t env)) = rfc3339_of (fe_sync env)" "keys_of (fe_sync (at_time t env)) = keys_of (fe_sync env)"
  by (simp_all add: at_time_def)

lemma at_time_parse [simp]: "parse_frontmatter (at_time t env) = parse_frontmatter env"
  by (rule ext) (simp only: parse_frontmatter_def at_time_fields)

lemma at_time_override [simp]: "override_enabled (at_time t env) = override_enabled env"
  by (intro ext) (simp only: override_enabled_def serialize_pipe_def at_time_fields at_time_parse)

lemma at_time_env [simp]:
  "good_file_env (at_time t env) = good_file_env env" 
  "parse_rfc3339 (fe_sync (at_time t env)) = parse_rfc3339 (fe_sync env)"
proof -
  have "dirs_readable (at_time t env) = dirs_readable env" "meta_writable (at_time t env) = meta_writable env"
    "md_readable (at_time t env) = md_readable env" "dir_ok (at_time t env) = dir_ok env"
    "md_writable (at_time t env) = md_writable env" "dir_removable (at_time t env) = dir_removable env"
    by (simp_all add: at_time_def)
  then show "good_file_env (at_time t env) = good_file_env env" by (simp only: good_file_env_def enumerates_def at_time_fields)
  show "parse_rfc3339 (fe_sync (at_time t env)) = parse_rfc3339 (fe_sync env)"
    by (rule ext) (simp only: parse_rfc3339_def at_time_fields)
qed

lemma apply_small:
  assumes "small_disk (fst p)"
  shows "small_disk (fst (apply_pipe_action env m a p))"
proof -
  let ?d = "fst (apply_pipe_action env m a p)"
  obtain d e where p: "p = (d, e)" by fastforce
  have "pd_dirs ?d k = pd_dirs d k" if "k \<noteq> action_name a" for k using apply_other [OF that, of env m d e] p by simp
  then have sub: "dom (pd_dirs ?d) \<subseteq> insert (action_name a) (dom (pd_dirs d))" unfolding dom_def by fastforce
  have "pd_tombstones ?d = pd_tombstones d"
    by (cases a) (simp_all add: p apply_pipe_action_def write_synced_def Let_def make_dir_def write_md_def
        remove_local_override_def split: option.split)
  then show ?thesis using assms p finite_subset [OF sub] by (simp add: small_disk_def)
qed

lemma cycle_small:
  assumes "good_file_env env" "small_disk (st_disk s)" "small c" "tidy c"
    "run_background_pipe_sync env me (Some c) s = (s', merged, acts, errs)"
  shows "small_disk (st_disk s')"
proof -
  have "small_disk (fst p) \<Longrightarrow> small_disk (fst (fold (apply_pipe_action env merged) as p))" for as p
    by (induction as arbitrary: p) (simp_all add: apply_small)
  then show ?thesis using pipe_cycle(5) [OF assms] assms(2) by simp
qed

text \<open>Both devices and the cloud have the pipe: the device whose turn it is has its file from \<open>t\<close>, the other one
  from \<open>u\<close>, and the row of the cloud is from \<open>w\<close>.\<close>

definition both_have :: "file_env \<Rightarrow> rstr \<Rightarrow> pipe_file \<Rightarrow> rstr \<Rightarrow> timestamp \<Rightarrow> timestamp \<Rightarrow> timestamp
    \<Rightarrow> pipe_store \<Rightarrow> pipe_store \<Rightarrow> synced_pipe manifest \<Rightarrow> bool" where
  "both_have env n cf b t u w s r c \<longleftrightarrow>
     small_disk (st_disk s) \<and> small_disk (st_disk r) \<and> small c \<and> tidy c
     \<and> (\<exists>x. pd_dirs (st_disk s) n = Some (Some (x, t)) \<and> pipe_text env cf b x)
     \<and> (\<exists>x. pd_dirs (st_disk r) n = Some (Some (x, u)) \<and> pipe_text env cf b x)
     \<and> (\<exists>v. entries c n = Some v \<and> pipe_text env cf b (raw_content v) \<and> parse_rfc3339 (fe_sync env) (last_modified v) = w)"

lemma turn_published:
  assumes "good_file_env env" "both_have env n cf b t u w s r c" "w \<le> t"
    "run_background_pipe_sync (at_time now env) me (Some c) s = (s', m, acts, errs)"
  shows "both_have env n cf b u t t r s' m"
proof -
  obtain x v where x: "pd_dirs (st_disk s) n = Some (Some (x, t))" "pipe_text env cf b x"
    and v: "entries c n = Some v" "parse_rfc3339 (fe_sync env) (last_modified v) = w"
    and g: "small_disk (st_disk s)" "small c" "tidy c" using assms(2) by (auto simp: both_have_def)
  obtain p where p: "parse_frontmatter (at_time now env) x = Inr p" using x(2) by (auto simp: pipe_text_def)
  have ge: "good_file_env (at_time now env)" using assms(1) by simp
  have w: "parse_rfc3339 (fe_sync (at_time now env)) (last_modified v) \<le> t" using v(2) assms(3) by simp
  note f = newer_file_published [OF ge g assms(4) x(1) p v(1) w]
  note c = pipe_cycle(3,4) [OF ge g assms(4)] cycle_small [OF ge g assms(4)]
  have "parse_rfc3339 (fe_sync env) (to_rfc3339 env t) = t" using assms(1) by (simp add: good_file_env_def parse_rfc3339_def)
  then show ?thesis using f c x(2) assms(2) by (simp add: both_have_def)
qed

lemma turn_updated:
  assumes "good_file_env env" "settled env cf b" "both_have env n cf b t u w s r c" "t < w"
    "run_background_pipe_sync (at_time now env) me (Some c) s = (s', m, acts, errs)"
  shows "Updated n \<in> set acts \<and> both_have env n cf b u now w r s' m"
proof -
  obtain x v where x: "pd_dirs (st_disk s) n = Some (Some (x, t))" "pipe_text env cf b x"
    and v: "entries c n = Some v" "pipe_text env cf b (raw_content v)" "parse_rfc3339 (fe_sync env) (last_modified v) = w"
    and g: "small_disk (st_disk s)" "small c" "tidy c" using assms(3) by (auto simp: both_have_def)
  obtain p where p: "parse_frontmatter (at_time now env) x = Inr p" using x(2) by (auto simp: pipe_text_def)
  have ge: "good_file_env (at_time now env)" using assms(1) by simp
  have w: "t < parse_rfc3339 (fe_sync (at_time now env)) (last_modified v)" using v(3) assms(4) by simp
  have up: "Updated n \<in> set acts" by (rule older_file_updated [OF ge g assms(5) x(1) p v(1) w])
  obtain v' flag where f: "entries c n = Some v'" "entries m n = Some v'"
    "pd_dirs (st_disk s') n = Some (Some (override_enabled (at_time now env) (raw_content v') flag, utc_now (fe_sync (at_time now env))))"
    using update_writes [OF ge g assms(5)] up by blast
  have "pipe_text env cf b (override_enabled env (raw_content v) flag)"
    using override_parses [OF assms(2) v(2), of flag] by (auto simp: pipe_text_def)
  then show ?thesis using up f v pipe_cycle(3,4) [OF ge g assms(5)] cycle_small [OF ge g assms(5)] assms(3)
    by (simp add: both_have_def)
qed

lemma alternate_three:
  assumes "good_file_env env" "settled env cf b" "both_have env n cf b t u u s r c" "t < u" "u < t1"
  obtains a1 a2 a3 s' r' c' where
    "alternate env (t1 # t2 # t3 # ts) (x, s) (y, r) c = a1 # a2 # a3 # alternate env ts (y, r') (x, s') c'"
    "Updated n \<in> set a1" "both_have env n cf b u t1 t1 r' s' c'"
proof -
  obtain s1 m1 a1 e1 where 1: "run_background_pipe_sync (at_time t1 env) x (Some c) s = (s1, m1, a1, e1)" using prod_cases4 by blast
  note u1 = turn_updated [OF assms(1-4) 1]
  obtain r2 m2 a2 e2 where 2: "run_background_pipe_sync (at_time t2 env) y (Some m1) r = (r2, m2, a2, e2)" using prod_cases4 by blast
  note u2 = turn_published [OF assms(1) conjunct2 [OF u1] order_refl 2]
  obtain s3 m3 a3 e3 where 3: "run_background_pipe_sync (at_time t3 env) x (Some m2) s1 = (s3, m3, a3, e3)" using prod_cases4 by blast
  note u3 = turn_published [OF assms(1) u2 less_imp_le [OF assms(5)] 3]
  show ?thesis using that [of a1 a2 a3 r2 s3 m3] 1 2 3 u1 u3 by simp
qed

text \<open>C13: When two devices have a pipe and one file is older than the row the other one uploaded, one of them
  is rewritten in every third cycle for ever, though nobody edits the pipe: the file that an update writes has the
  time of the update, counts as newer than what it was updated from, and goes back.\<close>

theorem pipe_sync_never_settles:
  assumes "good_file_env env" "settled env cf b" "both_have env n cf b t u u s r c" "t < u"
    "sorted_wrt (<) (u # ts)" "3 * k < length ts"
  shows "Updated n \<in> set (alternate env ts (x, s) (y, r) c ! (3 * k))"
  using assms(3-6)
proof (induction k arbitrary: ts s r c t u x y)
  case 0
  then obtain t1 ts' where ts: "ts = t1 # ts'" by (cases ts) auto
  obtain s1 m1 a1 e1 where 1: "run_background_pipe_sync (at_time t1 env) x (Some c) s = (s1, m1, a1, e1)" using prod_cases4 by blast
  show ?case using turn_updated [OF assms(1,2) 0(1,2) 1] 1 by (simp add: ts)
next
  case (Suc k)
  then have "3 \<le> length ts" by simp
  then obtain t1 t2 t3 ts' where ts: "ts = t1 # t2 # t3 # ts'" by (auto simp: numeral_3_eq_3 Suc_le_length_iff)
  have o: "u < t1" "sorted_wrt (<) (t1 # ts')" "3 * k < length ts'" using Suc.prems by (auto simp: ts)
  obtain a1 a2 a3 s' r' c' where 3:
    "alternate env (t1 # t2 # t3 # ts') (x, s) (y, r) c = a1 # a2 # a3 # alternate env ts' (y, r') (x, s') c'"
    "both_have env n cf b u t1 t1 r' s' c'"
    using alternate_three [OF assms(1,2) Suc.prems(1,2) o(1), of t2 t3 ts' x y] by metis
  have "Updated n \<in> set (alternate env ts' (y, r') (x, s') c' ! (3 * k))"
    by (rule Suc.IH [OF 3(2) o])
  then show ?case unfolding ts 3(1) by (simp only: mult_Suc_right nth_append_length numeral_3_eq_3 add_Suc add_0 nth_Cons_Suc)
qed

text \<open>An edit is lost on both devices when the other device's copy was written after it, however old that
  copy's content is: the other device's next cycle publishes its copy over the edit, and the editing device's next
  cycle replaces its file with it.\<close>

theorem edit_before_copy_is_lost:
  assumes "good_file_env env" "small_disk (st_disk sa)" "small_disk (st_disk sb)" "small c" "tidy c"
    "pd_dirs (st_disk sa) n = Some (Some (edit, ta))" "parse_frontmatter env edit = Inr p"
    "pd_dirs (st_disk sb) n = Some (Some (copy, tb))" "parse_frontmatter env copy = Inr q" "ta < tb"
    "entries c n = Some \<lparr>raw_content = edit, last_modified = to_rfc3339 env ta, last_modified_by = a\<rparr>"
    "run_background_pipe_sync (at_time t1 env) b (Some c) sb = (sb', c', acts_b, errs_b)"
    "run_background_pipe_sync (at_time t2 env) a (Some c') sa = (sa', c'', acts_a, errs_a)"
  shows "pd_dirs (st_disk sb') n = Some (Some (copy, tb))
    \<and> (\<exists>flag. pd_dirs (st_disk sa') n = Some (Some (override_enabled env copy flag, t2)))
    \<and> (\<exists>v. entries c'' n = Some v \<and> raw_content v = copy)"
proof -
  have ge: "good_file_env (at_time t env)" for t using assms(1) by simp
  have tt: "parse_rfc3339 (fe_sync env) (to_rfc3339 env t) = t" for t using assms(1) by (simp add: good_file_env_def parse_rfc3339_def)
  have q: "parse_frontmatter (at_time t1 env) copy = Inr q" and p: "parse_frontmatter (at_time t2 env) edit = Inr p"
    using assms(7,9) by simp_all
  have 1: "entries c' n = Some \<lparr>raw_content = copy, last_modified = to_rfc3339 env tb, last_modified_by = b\<rparr>"
    "pd_dirs (st_disk sb') n = Some (Some (copy, tb))"
    using newer_file_published [OF ge assms(3-5) assms(12) assms(8) q assms(11)] tt assms(10) by simp_all
  note c = pipe_cycle(3,4) [OF ge assms(3-5) assms(12)]
  have 2: "Updated n \<in> set acts_a"
    by (rule older_file_updated [OF ge assms(2) c assms(13) assms(6) p 1(1)]) (use tt assms(10) in simp)
  then obtain v flag where f: "entries c' n = Some v" "entries c'' n = Some v"
    "pd_dirs (st_disk sa') n = Some (Some (override_enabled (at_time t2 env) (raw_content v) flag, utc_now (fe_sync (at_time t2 env))))"
    using update_writes [OF ge assms(2) c assms(13)] by blast
  then show ?thesis using 1 by auto
qed

section \<open>Concrete devices\<close>

lemma sample_good: "good_file_env (sample_file_env now)"
proof -
  have "sample_text_time (sample_time_text t) = Some t" for t by (simp add: sample_text_time_def sample_time_text_def)
  then show ?thesis by (simp add: good_file_env_def enumerates_def) (simp add: sample_file_env_def)
qed

lemma pipe_sample_settled: "settled (sample_file_env now) (sample_pipe f) (lit ''hello'')"
proof -
  have "trim (lit ''hello'') = lit ''hello''" by code_simp
  moreover have "(sample_pipe f)\<lparr>pc_enabled := g\<rparr> = sample_pipe g" for g by (simp add: sample_pipe_def)
  ultimately show ?thesis by (simp add: settled_def sample_rust sample_round_trips cleaned_sample)
qed

lemma sample_pipe_text:
  "pipe_text (sample_file_env now) (sample_pipe f) (lit ''hello'') (sample_md ''on'')"
  "pipe_text (sample_file_env now) (sample_pipe f) (lit ''hello'') (sample_md ''off'')"
proof -
  have "(sample_pipe f)\<lparr>pc_enabled := g\<rparr> = sample_pipe g" for g by (simp add: sample_pipe_def)
  then show "pipe_text (sample_file_env now) (sample_pipe f) (lit ''hello'') (sample_md ''on'')"
    "pipe_text (sample_file_env now) (sample_pipe f) (lit ''hello'') (sample_md ''off'')"
    by (auto simp: pipe_text_def sample_parses)
qed

definition sample_disk :: "string \<Rightarrow> timestamp \<Rightarrow> pipe_disk" where
  "sample_disk yaml t = empty_disk\<lparr>pd_dirs := [lit ''p'' \<mapsto> Some (sample_md yaml, t)]\<rparr>"

definition sample_row :: "string \<Rightarrow> timestamp \<Rightarrow> synced_pipe" where
  "sample_row yaml t = \<lparr>raw_content = sample_md yaml, last_modified = sample_time_text t, last_modified_by = lit ''b''\<rparr>"

definition sample_cloud :: "string \<Rightarrow> timestamp \<Rightarrow> synced_pipe manifest" where
  "sample_cloud yaml t = (empty_manifest (fe_sync (sample_file_env 0)) (lit ''b''))\<lparr>entries := [lit ''p'' \<mapsto> sample_row yaml t]\<rparr>"

lemma sample_small: "small_disk (sample_disk yaml t)" "small_disk empty_disk" "small (sample_cloud yaml t)" "tidy (sample_cloud yaml t)"
  by (simp_all add: small_disk_def sample_disk_def empty_disk_def small_def tidy_def sample_cloud_def empty_manifest_def)

lemma pipe_sync_keeps_flags_witness:
  "let s = sample_store (sample_disk ''off'' 5);
       (s', merged, acts, errs) = run_background_pipe_sync (sample_file_env 20) (lit ''a'') (Some (sample_cloud ''on'' 9)) s
   in \<not> runs_here (sample_file_env 20) (st_disk s') (lit ''p'')"
proof -
  let ?s = "sample_store (sample_disk ''off'' 5)"
  let ?e = "sample_file_env 20"
  let ?c = "sample_cloud ''on'' 9"
  obtain s' m acts errs where r: "run_background_pipe_sync ?e (lit ''a'') (Some ?c) ?s = (s', m, acts, errs)" using prod_cases4 by blast
  have s: "small_disk (st_disk ?s)" by (simp add: sample_store_def sample_small)
  have c: "entries ?c (lit ''p'') = Some (sample_row ''on'' 9)" by (simp add: sample_cloud_def)
  have d: "pd_dirs (st_disk ?s) (lit ''p'') = Some (Some (sample_md ''off'', 5))" "pd_overrides (st_disk ?s) (lit ''p'') = None"
    by (simp_all add: sample_store_def sample_disk_def empty_disk_def)
  have t: "parse_rfc3339 (fe_sync ?e) (last_modified (sample_row ''on'' 9)) = 9"
    by (simp add: parse_rfc3339_def sample_row_def sample_text_time_def sample_time_text_def)
  have up: "Updated (lit ''p'') \<in> set acts"
    by (rule older_file_updated [OF sample_good s sample_small(3,4) r d(1) sample_parses(2) c]) (simp add: t)
  have n: "Deleted (lit ''p'') \<notin> set acts"
  proof
    assume dl: "Deleted (lit ''p'') \<in> set acts"
    note names = pipe_cycle(1) [OF sample_good s sample_small(3,4) r]
    have "enumerates (fe_sync ?e)" using sample_good by (simp add: good_file_env_def)
    from all_names_set(1) [OF this local_small [OF s] sample_small(3)] have dist: "distinct (map action_name acts)" unfolding names .
    then have "inj_on action_name (set acts)" by (simp add: distinct_map)
    from inj_onD [OF this _ up dl] show False by simp
  qed
  have "runs_here ?e (st_disk s') (lit ''p'') = runs_here ?e (st_disk ?s) (lit ''p'')"
    by (rule pipe_sync_keeps_flags [OF sample_good s sample_small(3,4) r c pipe_sample_settled _ n])
      (simp_all add: d sample_row_def sample_pipe_text)
  moreover have "\<not> runs_here ?e (st_disk ?s) (lit ''p'')"
    using d by (simp add: runs_here_def load_entry_def read_md_def sample_parses) (simp add: sample_pipe_def)
  ultimately show ?thesis using r by simp
qed

lemma pipe_sync_never_settles_witness:
  "Updated (lit ''p'') \<in> set (alternate (sample_file_env 0) [10, 20, 30, 40] (lit ''a'', sample_store (sample_disk ''on'' 5))
     (lit ''b'', sample_store (sample_disk ''on'' 9)) (sample_cloud ''on'' 9) ! (3 * 1))"
proof -
  have "parse_rfc3339 (fe_sync (sample_file_env 0)) (last_modified (sample_row ''on'' 9)) = 9"
    by (simp add: parse_rfc3339_def sample_row_def sample_text_time_def sample_time_text_def)
  then have b: "both_have (sample_file_env 0) (lit ''p'') (sample_pipe True) (lit ''hello'') 5 9 9 (sample_store (sample_disk ''on'' 5))
      (sample_store (sample_disk ''on'' 9)) (sample_cloud ''on'' 9)"
    by (simp add: both_have_def sample_small sample_store_def) (simp add: sample_disk_def sample_cloud_def sample_row_def sample_pipe_text)
  show ?thesis by (rule pipe_sync_never_settles [OF sample_good pipe_sample_settled b]) simp_all
qed

lemma edit_before_copy_is_lost_witness:
  "let (sb, c', x1) = run_background_pipe_sync (at_time 20 (sample_file_env 0)) (lit ''a'') (Some (sample_cloud ''on'' 5))
          (sample_store (sample_disk ''off'' 9));
       (sa, c'', x2) = run_background_pipe_sync (at_time 30 (sample_file_env 0)) (lit ''b'') (Some c') (sample_store (sample_disk ''on'' 5))
   in \<exists>v. entries c'' (lit ''p'') = Some v \<and> raw_content v = sample_md ''off''"
proof -
  let ?e = "sample_file_env 0"
  let ?c = "sample_cloud ''on'' 5"
  obtain sb c' ab eb where b: "run_background_pipe_sync (at_time 20 ?e) (lit ''a'') (Some ?c) (sample_store (sample_disk ''off'' 9)) = (sb, c', ab, eb)"
    using prod_cases4 by blast
  obtain sa c'' aa ea where a: "run_background_pipe_sync (at_time 30 ?e) (lit ''b'') (Some c') (sample_store (sample_disk ''on'' 5)) = (sa, c'', aa, ea)"
    using prod_cases4 by blast
  have s: "small_disk (st_disk (sample_store (sample_disk yaml t)))" for yaml t by (simp add: sample_store_def sample_small)
  have d: "pd_dirs (st_disk (sample_store (sample_disk yaml t))) (lit ''p'') = Some (Some (sample_md yaml, t))" for yaml t
    by (simp add: sample_store_def sample_disk_def)
  have c: "entries ?c (lit ''p'') = Some \<lparr>raw_content = sample_md ''on'', last_modified = to_rfc3339 ?e 5, last_modified_by = lit ''b''\<rparr>"
    by (simp add: sample_cloud_def sample_row_def)
  have "(5 :: int) < 9" by simp
  from edit_before_copy_is_lost [OF sample_good s s sample_small(3,4) d sample_parses(1) d sample_parses(2) this c b a]
  show ?thesis unfolding Let_def a b by (simp add: a)
qed

end
