(* ===== verification/SecretStore.thy ===== *)
theory SecretStore
  imports PipeFiles SyncOrder
begin

text \<open>
  The store of secrets (\<open>screenpipe-secrets/src/store.rs\<close>, \<open>crypto.rs\<close>): a table of rows, each encrypted, or
  plain and marked by a nonce of zeros. SQL, base64, the cipher (crates \<open>sqlx\<close>, \<open>base64\<close>,
  \<open>chacha20poly1305\<close>), \<open>serde_json\<close> on bytes, the clocks and which statements and file operations succeed are
  fields of \<open>conn_env\<close>, which the connections use too.
\<close>

section \<open>The environment\<close>

record conn_env =
  ce_sync :: sync_env
  date_text :: "timestamp \<Rightarrow> rstr"
  sql_now :: rstr
  seal :: "rstr \<Rightarrow> rstr \<Rightarrow> rstr \<Rightarrow> rstr option"
  unseal :: "rstr \<Rightarrow> rstr \<Rightarrow> rstr \<Rightarrow> rstr option"
  random_nonce :: "rstr \<Rightarrow> rstr"
  base64 :: "rstr \<Rightarrow> rstr"
  unbase64 :: "rstr \<Rightarrow> rstr option"
  json_text :: "json \<Rightarrow> rstr"
  json_read :: "rstr \<Rightarrow> json option"
  sql_ok :: "rstr \<Rightarrow> bool"
  list_ok :: bool
  dir_listable :: bool
  token_readable :: "rstr \<Rightarrow> bool"
  token_writable :: "rstr \<Rightarrow> bool"
  token_removable :: "rstr \<Rightarrow> bool"
  conns_writable :: bool
  side_writable :: bool
  unix_now :: nat

section \<open>Rows\<close>

record secret_row =
  sv_value :: rstr
  sv_nonce :: rstr
  sv_updated :: rstr

record secret_store =
  ss_rows :: "rstr \<rightharpoonup> secret_row"
  ss_key :: "rstr option"

datatype secret_error = SqlFailed | EncryptFailed | DecryptFailed | BadBase64 | BadNonce | NoKey | BadJson

definition ZERO_NONCE :: rstr where "ZERO_NONCE = replicate 12 0"

definition zero_nonce :: "rstr \<Rightarrow> bool" where
  "zero_nonce n \<longleftrightarrow> list_all (\<lambda>b. b = 0) n"

text \<open>The label stands for the call, as the nonce of every call is drawn anew.\<close>

definition encrypt :: "conn_env \<Rightarrow> rstr \<Rightarrow> rstr \<Rightarrow> rstr \<Rightarrow> (rstr \<times> rstr) option" where
  "encrypt env label plaintext key =
     (let nonce = random_nonce env label in map_option (\<lambda>ciphertext. (ciphertext, nonce)) (seal env key nonce plaintext))"

definition decrypt :: "conn_env \<Rightarrow> rstr \<Rightarrow> rstr \<Rightarrow> rstr \<Rightarrow> rstr option" where
  "decrypt env ciphertext nonce key = unseal env key nonce ciphertext"

definition write_row :: "conn_env \<Rightarrow> rstr \<Rightarrow> rstr \<Rightarrow> rstr \<Rightarrow> secret_store \<Rightarrow> secret_store \<times> (secret_error + unit)" where
  "write_row env key value nonce st =
     (if sql_ok env key
      then (st\<lparr>ss_rows := (ss_rows st)(key \<mapsto> \<lparr>sv_value = value, sv_nonce = nonce, sv_updated = sql_now env\<rparr>)\<rparr>, Inr ())
      else (st, Inl SqlFailed))"

definition secret_set :: "conn_env \<Rightarrow> rstr \<Rightarrow> rstr \<Rightarrow> secret_store \<Rightarrow> secret_store \<times> (secret_error + unit)" where
  "secret_set env key value st =
     (case ss_key st of
        Some enc_key \<Rightarrow>
          (case encrypt env key value enc_key of
             Some (ciphertext, nonce) \<Rightarrow> write_row env key ciphertext nonce st
           | None \<Rightarrow> (st, Inl EncryptFailed))
      | None \<Rightarrow> write_row env key (base64 env value) ZERO_NONCE st)"

definition open_row :: "conn_env \<Rightarrow> rstr option \<Rightarrow> secret_row \<Rightarrow> secret_error + rstr" where
  "open_row env key r =
     (if zero_nonce (sv_nonce r)
      then (case unbase64 env (sv_value r) of Some v \<Rightarrow> Inr v | None \<Rightarrow> Inl BadBase64)
      else case key of
        Some enc_key \<Rightarrow>
          if length (sv_nonce r) \<noteq> 12 then Inl BadNonce
          else (case decrypt env (sv_value r) (sv_nonce r) enc_key of Some v \<Rightarrow> Inr v | None \<Rightarrow> Inl DecryptFailed)
      | None \<Rightarrow> Inl NoKey)"

definition secret_get :: "conn_env \<Rightarrow> rstr \<Rightarrow> secret_store \<Rightarrow> secret_error + rstr option" where
  "secret_get env key st =
     (if \<not> sql_ok env key then Inl SqlFailed
      else case ss_rows st key of
        None \<Rightarrow> Inr None
      | Some r \<Rightarrow> (case open_row env (ss_key st) r of Inr v \<Rightarrow> Inr (Some v) | Inl e \<Rightarrow> Inl e))"

definition get_updated_at :: "conn_env \<Rightarrow> rstr \<Rightarrow> secret_store \<Rightarrow> secret_error + rstr option" where
  "get_updated_at env key st =
     (if sql_ok env key then Inr (map_option sv_updated (ss_rows st key)) else Inl SqlFailed)"

definition secret_delete :: "conn_env \<Rightarrow> rstr \<Rightarrow> secret_store \<Rightarrow> secret_store \<times> (secret_error + unit)" where
  "secret_delete env key st =
     (if sql_ok env key then (st\<lparr>ss_rows := (ss_rows st)(key := None)\<rparr>, Inr ()) else (st, Inl SqlFailed))"

text \<open>\<open>LIKE\<close> of SQLite: \<open>%\<close> is any text, \<open>_\<close> any character, and letters of ASCII match in either case.\<close>

fun like :: "nat list \<Rightarrow> nat list \<Rightarrow> bool" where
  "like [] s = (s = [])"
| "like (p # ps) [] = (p = 37 \<and> like ps [])"
| "like (p # ps) (c # cs) =
     (if p = 37 then like ps (c # cs) \<or> like (p # ps) cs
      else (p = 95 \<or> to_ascii_lowercase p = to_ascii_lowercase c) \<and> like ps cs)"

definition secret_list :: "conn_env \<Rightarrow> rstr \<Rightarrow> secret_store \<Rightarrow> secret_error + rstr list" where
  "secret_list env prefix st =
     (if list_ok env
      then Inr (keys_of (ce_sync env) (\<lambda>k. ss_rows st k \<noteq> None \<and> like (chars (prefix @ [37])) (chars k)))
      else Inl SqlFailed)"

definition set_json :: "conn_env \<Rightarrow> rstr \<Rightarrow> json \<Rightarrow> secret_store \<Rightarrow> secret_store \<times> (secret_error + unit)" where
  "set_json env key v st = secret_set env key (json_text env v) st"

definition get_json :: "conn_env \<Rightarrow> rstr \<Rightarrow> secret_store \<Rightarrow> secret_error + json option" where
  "get_json env key st =
     (case secret_get env key st of
        Inl e \<Rightarrow> Inl e
      | Inr None \<Rightarrow> Inr None
      | Inr (Some bytes) \<Rightarrow> (case json_read env bytes of Some v \<Rightarrow> Inr (Some v) | None \<Rightarrow> Inl BadJson))"

section \<open>Turning encryption on and off\<close>

text \<open>The rows are read once; the first failure ends the loop, and the rows before it stay changed.\<close>

fun reencrypt_rows :: "conn_env \<Rightarrow> rstr \<Rightarrow> (rstr \<times> secret_row) list \<Rightarrow> secret_store \<Rightarrow> nat \<Rightarrow> secret_store \<times> (secret_error + nat)" where
  "reencrypt_rows env new_key [] st n = (st, Inr n)"
| "reencrypt_rows env new_key ((k, r) # rows) st n =
     (if \<not> zero_nonce (sv_nonce r) then reencrypt_rows env new_key rows st n
      else case unbase64 env (sv_value r) of
        None \<Rightarrow> (st, Inl BadBase64)
      | Some plaintext \<Rightarrow>
          (case encrypt env k plaintext new_key of
             None \<Rightarrow> (st, Inl EncryptFailed)
           | Some (ciphertext, nonce) \<Rightarrow>
               (case write_row env k ciphertext nonce st of
                  (st', Inr u) \<Rightarrow> reencrypt_rows env new_key rows st' (n + 1)
                | (st', Inl e) \<Rightarrow> (st', Inl e))))"

fun decrypt_rows :: "conn_env \<Rightarrow> rstr \<Rightarrow> (rstr \<times> secret_row) list \<Rightarrow> secret_store \<Rightarrow> nat \<Rightarrow> secret_store \<times> (secret_error + nat)" where
  "decrypt_rows env key [] st n = (st, Inr n)"
| "decrypt_rows env key ((k, r) # rows) st n =
     (if zero_nonce (sv_nonce r) then decrypt_rows env key rows st n
      else if length (sv_nonce r) \<noteq> 12 then (st, Inl BadNonce)
      else case decrypt env (sv_value r) (sv_nonce r) key of
        None \<Rightarrow> (st, Inl DecryptFailed)
      | Some plaintext \<Rightarrow>
          (case write_row env k (base64 env plaintext) ZERO_NONCE st of
             (st', Inr u) \<Rightarrow> decrypt_rows env key rows st' (n + 1)
           | (st', Inl e) \<Rightarrow> (st', Inl e)))"

definition all_rows :: "conn_env \<Rightarrow> secret_store \<Rightarrow> (rstr \<times> secret_row) list" where
  "all_rows env st = map (\<lambda>k. (k, the (ss_rows st k))) (keys_of (ce_sync env) (\<lambda>k. ss_rows st k \<noteq> None))"

definition reencrypt_unencrypted_secrets :: "conn_env \<Rightarrow> rstr \<Rightarrow> secret_store \<Rightarrow> secret_store \<times> (secret_error + nat)" where
  "reencrypt_unencrypted_secrets env new_key st =
     (if list_ok env then reencrypt_rows env new_key (all_rows env st) st 0 else (st, Inl SqlFailed))"

definition decrypt_encrypted_secrets :: "conn_env \<Rightarrow> secret_store \<Rightarrow> secret_store \<times> (secret_error + nat)" where
  "decrypt_encrypted_secrets env st =
     (case ss_key st of
        None \<Rightarrow> (st, Inl NoKey)
      | Some key \<Rightarrow> if list_ok env then decrypt_rows env key (all_rows env st) st 0 else (st, Inl SqlFailed))"

definition encrypted_secret_count :: "conn_env \<Rightarrow> secret_store \<Rightarrow> secret_error + nat" where
  "encrypted_secret_count env st =
     (if list_ok env then Inr (length (filter (\<lambda>(k, r). sv_nonce r \<noteq> ZERO_NONCE) (all_rows env st))) else Inl SqlFailed)"

end
