(* ===== verification/ConnectionStore.thy ===== *)
theory ConnectionStore
  imports SecretStore
begin

text \<open>
  What a device keeps of its connections: \<open>connections.json\<close>, the token files, the tombstones and the marks of the
  token generations (\<open>screenpipe-core/src/connections/sync.rs\<close>), and the operations of \<open>ConnectionManager\<close>
  (\<open>screenpipe-connect/src/connections/mod.rs\<close>), over the store of secrets where there is one.
\<close>

record saved_connection =
  sc_enabled :: bool
  sc_credentials :: "(rstr \<times> json) list"

text \<open>The derived reader and writer.\<close>

definition saved_of_json :: "json \<Rightarrow> saved_connection option" where
  "saved_of_json v =
     (case v of
        JObj fs \<Rightarrow>
          (case (map_of fs (lit ''enabled''), map_of fs (lit ''credentials'')) of
             (Some (JBool e), Some (JObj c)) \<Rightarrow> Some \<lparr>sc_enabled = e, sc_credentials = c\<rparr>
           | _ \<Rightarrow> None)
      | _ \<Rightarrow> None)"

definition json_of_saved :: "saved_connection \<Rightarrow> json" where
  "json_of_saved c = JObj [(lit ''enabled'', JBool (sc_enabled c)), (lit ''credentials'', JObj (sc_credentials c))]"

text \<open>A file that is missing or cannot be parsed is \<open>None\<close>. Token files are named by their key.\<close>

record conn_disk =
  cd_file :: "(rstr \<rightharpoonup> saved_connection) option"
  cd_file_time :: "timestamp option"
  cd_tokens :: "rstr \<rightharpoonup> json option \<times> timestamp"
  cd_tombs :: "rstr \<rightharpoonup> rstr"
  cd_gens :: "rstr \<rightharpoonup> nat"

record conn_device =
  cn_disk :: conn_disk
  cn_store :: "secret_store option"

datatype conn_error = UnknownIntegration | StoreFailed secret_error | FileFailed

definition on_disk :: "(conn_disk \<Rightarrow> conn_disk) \<Rightarrow> conn_device \<Rightarrow> conn_device" where
  "on_disk f d = d\<lparr>cn_disk := f (cn_disk d)\<rparr>"

section \<open>Tombstones and generations\<close>

definition record_connection_tombstone :: "conn_env \<Rightarrow> rstr \<Rightarrow> conn_disk \<Rightarrow> conn_disk" where
  "record_connection_tombstone env key disk =
     (if side_writable env then disk\<lparr>cd_tombs := (cd_tombs disk)(key \<mapsto> now_text (ce_sync env))\<rparr> else disk)"

definition clear_connection_tombstone :: "conn_env \<Rightarrow> rstr \<Rightarrow> conn_disk \<Rightarrow> conn_disk" where
  "clear_connection_tombstone env key disk =
     (if cd_tombs disk key \<noteq> None \<and> side_writable env then disk\<lparr>cd_tombs := (cd_tombs disk)(key := None)\<rparr> else disk)"

definition clear_connection_tombstones :: "conn_env \<Rightarrow> sync_action list \<Rightarrow> conn_disk \<Rightarrow> conn_disk" where
  "clear_connection_tombstones env actions disk =
     (let tombs = fold (\<lambda>a t. case a of Deleted k \<Rightarrow> t(k := None) | _ \<Rightarrow> t) actions (cd_tombs disk)
      in if list_ex (\<lambda>a. case a of Deleted k \<Rightarrow> cd_tombs disk k \<noteq> None | _ \<Rightarrow> False) actions \<and> side_writable env
         then disk\<lparr>cd_tombs := tombs\<rparr> else disk)"

definition read_oauth_gen_highwater :: "rstr \<Rightarrow> conn_disk \<Rightarrow> nat" where
  "read_oauth_gen_highwater key disk = (case cd_gens disk key of Some g \<Rightarrow> g | None \<Rightarrow> 0)"

definition bump_oauth_gen_highwater :: "conn_env \<Rightarrow> rstr \<Rightarrow> nat \<Rightarrow> conn_disk \<Rightarrow> conn_disk" where
  "bump_oauth_gen_highwater env key gen disk =
     (if gen = 0 then disk
      else if gen \<le> read_oauth_gen_highwater key disk then disk
      else if side_writable env then disk\<lparr>cd_gens := (cd_gens disk)(key \<mapsto> gen)\<rparr>
      else disk)"

section \<open>Keys\<close>

definition make_key :: "rstr \<Rightarrow> rstr option \<Rightarrow> rstr" where
  "make_key i inst = (case inst of Some n \<Rightarrow> i @ lit '':'' @ n | None \<Rightarrow> i)"

definition cred_key :: "rstr \<Rightarrow> rstr" where "cred_key key = lit ''cred:'' @ key"
definition oauth_key :: "rstr \<Rightarrow> rstr" where "oauth_key key = lit ''oauth:'' @ key"

definition parse_connection_key :: "rstr \<Rightarrow> rstr \<times> rstr option" where
  "parse_connection_key key =
     (case find_str key (lit '':'') of Some i \<Rightarrow> (take i key, Some (drop (i + 1) key)) | None \<Rightarrow> (key, None))"

section \<open>Manual credentials\<close>

definition load_store :: "conn_disk \<Rightarrow> rstr \<rightharpoonup> saved_connection" where
  "load_store disk = (case cd_file disk of Some m \<Rightarrow> m | None \<Rightarrow> Map.empty)"

definition save_store :: "conn_env \<Rightarrow> (rstr \<rightharpoonup> saved_connection) \<Rightarrow> conn_disk \<Rightarrow> conn_disk \<times> (conn_error + unit)" where
  "save_store env m disk =
     (if conns_writable env
      then (disk\<lparr>cd_file := Some m, cd_file_time := Some (utc_now (ce_sync env))\<rparr>, Inr ())
      else (disk, Inl FileFailed))"

definition stored_connection :: "conn_env \<Rightarrow> rstr \<Rightarrow> secret_store \<Rightarrow> saved_connection option" where
  "stored_connection env key st =
     (case get_json env key st of Inr (Some v) \<Rightarrow> saved_of_json v | _ \<Rightarrow> None)"

definition load_connection :: "conn_env \<Rightarrow> rstr \<Rightarrow> conn_device \<Rightarrow> saved_connection option" where
  "load_connection env key d =
     (case Option.bind (cn_store d) (stored_connection env (cred_key key)) of
        Some c \<Rightarrow> Some c
      | None \<Rightarrow> load_store (cn_disk d) key)"

definition save_connection :: "conn_env \<Rightarrow> rstr \<Rightarrow> saved_connection \<Rightarrow> conn_device \<Rightarrow> conn_device \<times> (conn_error + unit)" where
  "save_connection env key c d =
     (case cn_store d of
        Some st \<Rightarrow>
          (case set_json env (cred_key key) (json_of_saved c) st of
             (st', Inr u) \<Rightarrow> (d\<lparr>cn_store := Some st'\<rparr>, Inr ())
           | (st', Inl e) \<Rightarrow> (d\<lparr>cn_store := Some st'\<rparr>, Inl (StoreFailed e)))
      | None \<Rightarrow>
          (let (disk, r) = save_store env ((load_store (cn_disk d))(key \<mapsto> c)) (cn_disk d)
           in (d\<lparr>cn_disk := disk\<rparr>, r)))"

definition remove_from_file :: "conn_env \<Rightarrow> rstr \<Rightarrow> conn_device \<Rightarrow> conn_device \<times> (conn_error + unit)" where
  "remove_from_file env key d =
     (if load_store (cn_disk d) key = None then (d, Inr ())
      else let (disk, r) = save_store env ((load_store (cn_disk d))(key := None)) (cn_disk d)
           in (d\<lparr>cn_disk := disk\<rparr>, r))"

definition remove_connection :: "conn_env \<Rightarrow> rstr \<Rightarrow> conn_device \<Rightarrow> conn_device \<times> (conn_error + unit)" where
  "remove_connection env key d =
     (case cn_store d of
        Some st \<Rightarrow>
          (case secret_delete env (cred_key key) st of
             (st', Inr u) \<Rightarrow> remove_from_file env key (d\<lparr>cn_store := Some st'\<rparr>)
           | (st', Inl e) \<Rightarrow> (d, Inl (StoreFailed e)))
      | None \<Rightarrow> remove_from_file env key d)"

text \<open>\<open>known\<close> are the identifiers of the integrations the program has.\<close>

definition connect_instance ::
  "conn_env \<Rightarrow> (rstr \<Rightarrow> bool) \<Rightarrow> rstr \<Rightarrow> rstr option \<Rightarrow> (rstr \<times> json) list \<Rightarrow> conn_device \<Rightarrow> conn_device \<times> (conn_error + unit)" where
  "connect_instance env known i inst creds d =
     (if \<not> known i then (d, Inl UnknownIntegration)
      else case save_connection env (make_key i inst) \<lparr>sc_enabled = True, sc_credentials = creds\<rparr> d of
        (d', Inr u) \<Rightarrow> (on_disk (clear_connection_tombstone env (make_key i inst)) d', Inr ())
      | (d', Inl e) \<Rightarrow> (d', Inl e))"

definition get_credentials_instance ::
  "conn_env \<Rightarrow> (rstr \<Rightarrow> bool) \<Rightarrow> rstr \<Rightarrow> rstr option \<Rightarrow> conn_device \<Rightarrow> conn_error + (rstr \<times> json) list option" where
  "get_credentials_instance env known i inst d =
     (if \<not> known i then Inl UnknownIntegration else Inr (map_option sc_credentials (load_connection env (make_key i inst) d)))"

definition disconnect_instance :: "conn_env \<Rightarrow> rstr \<Rightarrow> rstr option \<Rightarrow> conn_device \<Rightarrow> conn_device \<times> (conn_error + unit)" where
  "disconnect_instance env i inst d =
     (case remove_connection env (make_key i inst) d of
        (d', Inr u) \<Rightarrow> (on_disk (record_connection_tombstone env (make_key i inst)) d', Inr ())
      | (d', Inl e) \<Rightarrow> (d', Inl e))"

end
