(* ===== verification/OauthTokens.thy ===== *)
theory OauthTokens
  imports ConnectionStore
begin

text \<open>
  The tokens of OAuth connections (\<open>screenpipe-connect/src/oauth.rs\<close>): loading with the move of old files into
  the store of secrets, accounts and the fall-back between them, writing with the generation of the refresh token,
  deleting, the sweep of shadowed default accounts, and the refresh through the proxy with its one retry. The
  answers of the proxy, and what another task does to the device while one is awaited, are arguments.
\<close>

section \<open>Loading\<close>

definition remove_token_file :: "conn_env \<Rightarrow> rstr \<Rightarrow> conn_disk \<Rightarrow> conn_disk" where
  "remove_token_file env key disk =
     (if token_removable env key then disk\<lparr>cd_tokens := (cd_tokens disk)(key := None)\<rparr> else disk)"

definition token_file :: "conn_env \<Rightarrow> rstr \<Rightarrow> conn_disk \<Rightarrow> json option" where
  "token_file env key disk =
     (case cd_tokens disk key of Some (Some v, t) \<Rightarrow> if token_readable env key then Some v else None | _ \<Rightarrow> None)"

definition load_oauth_json_exact :: "conn_env \<Rightarrow> rstr \<Rightarrow> rstr option \<Rightarrow> conn_device \<Rightarrow> conn_device \<times> json option" where
  "load_oauth_json_exact env i inst d =
     (let key = make_key i inst in
      case Option.bind (cn_store d) (\<lambda>st. case get_json env (oauth_key key) st of Inr v \<Rightarrow> v | Inl e \<Rightarrow> None) of
        Some v \<Rightarrow> (d, Some v)
      | None \<Rightarrow>
          (case token_file env key (cn_disk d) of
             None \<Rightarrow> (d, None)
           | Some v \<Rightarrow>
               (case cn_store d of
                  None \<Rightarrow> (d, Some v)
                | Some st \<Rightarrow>
                    (case set_json env (oauth_key key) v st of
                       (st', Inr u) \<Rightarrow> (on_disk (remove_token_file env key) (d\<lparr>cn_store := Some st'\<rparr>), Some v)
                     | (st', Inl e) \<Rightarrow> (d\<lparr>cn_store := Some st'\<rparr>, Some v)))))"

fun keep_first :: "'a list \<Rightarrow> 'a set \<Rightarrow> 'a list" where
  "keep_first [] seen = []"
| "keep_first (x # xs) seen = (if x \<in> seen then keep_first xs seen else x # keep_first xs (insert x seen))"

definition instance_of :: "rstr \<Rightarrow> rstr \<Rightarrow> rstr option list" where
  "instance_of prefix k =
     (if k = prefix then [None] else case strip_prefix (prefix @ lit '':'') k of Some n \<Rightarrow> [Some n] | None \<Rightarrow> [])"

definition list_oauth_instances :: "conn_env \<Rightarrow> rstr \<Rightarrow> conn_device \<Rightarrow> rstr option list" where
  "list_oauth_instances env i d =
     (let stored = (case cn_store d of
            Some st \<Rightarrow> (case secret_list env (oauth_key i) st of
                Inr keys \<Rightarrow> concat (map (instance_of (oauth_key i)) keys) | Inl e \<Rightarrow> [])
          | None \<Rightarrow> []);
          files = (if dir_listable env
                   then concat (map (instance_of i) (keys_of (ce_sync env) (\<lambda>k. cd_tokens (cn_disk d) k \<noteq> None))) else [])
      in keep_first (stored @ files) {})"

definition oauth_json_has_valid_access_token :: "conn_env \<Rightarrow> json \<Rightarrow> bool" where
  "oauth_json_has_valid_access_token env v \<longleftrightarrow>
     as_str (json_index (lit ''access_token'') v) \<noteq> None
     \<and> (case as_u64 (json_index (lit ''expires_at'') v) of Some e \<Rightarrow> unix_now env < e - 60 | None \<Rightarrow> True)"

definition oauth_json_is_recoverable :: "conn_env \<Rightarrow> json \<Rightarrow> bool" where
  "oauth_json_is_recoverable env v \<longleftrightarrow>
     oauth_json_has_valid_access_token env v \<or> as_str (json_index (lit ''refresh_token'') v) \<noteq> None"

text \<open>Without an instance, and no usable default, the sole named account; with an unknown one, the sole default.\<close>

definition load_oauth_json_with_instance ::
  "conn_env \<Rightarrow> rstr \<Rightarrow> rstr option \<Rightarrow> conn_device \<Rightarrow> conn_device \<times> (json \<times> rstr option) option" where
  "load_oauth_json_with_instance env i inst d =
     (let (d1, exact) = load_oauth_json_exact env i inst d in
      if exact \<noteq> None \<and> (inst \<noteq> None \<or> oauth_json_is_recoverable env (the exact)) then (d1, Some (the exact, inst))
      else if inst \<noteq> None
      then (if list_oauth_instances env i d1 = [None]
            then let (d2, v) = load_oauth_json_exact env i None d1 in (d2, map_option (\<lambda>v. (v, None)) v)
            else (d1, None))
      else (case List.map_filter (\<lambda>x. x) (list_oauth_instances env i d1) of
              [n] \<Rightarrow> let (d2, v) = load_oauth_json_exact env i (Some n) d1 in (d2, map_option (\<lambda>v. (v, Some n)) v)
            | _ \<Rightarrow> (d1, None)))"

definition read_oauth_token_instance :: "conn_env \<Rightarrow> rstr \<Rightarrow> rstr option \<Rightarrow> conn_device \<Rightarrow> conn_device \<times> rstr option" where
  "read_oauth_token_instance env i inst d =
     (let (d1, r) = load_oauth_json_with_instance env i inst d in
      (d1, case r of
             None \<Rightarrow> None
           | Some (v, n) \<Rightarrow>
               if (case as_u64 (json_index (lit ''expires_at'') v) of Some e \<Rightarrow> e - 60 \<le> unix_now env | None \<Rightarrow> False)
               then None else as_str (json_index (lit ''access_token'') v)))"

definition is_oauth_instance_connected :: "conn_env \<Rightarrow> rstr \<Rightarrow> rstr option \<Rightarrow> conn_device \<Rightarrow> conn_device \<times> bool" where
  "is_oauth_instance_connected env i inst d =
     (let (d1, r) = load_oauth_json_with_instance env i inst d in
      (d1, case r of Some (v, n) \<Rightarrow> oauth_json_is_recoverable env v | None \<Rightarrow> False))"

definition oauth_instance_token_exists :: "conn_env \<Rightarrow> rstr \<Rightarrow> rstr option \<Rightarrow> conn_device \<Rightarrow> bool" where
  "oauth_instance_token_exists env i inst d =
     (case inst of Some n \<Rightarrow> Some n \<in> set (list_oauth_instances env i d) | None \<Rightarrow> list_oauth_instances env i d \<noteq> [])"

fun connected_among :: "conn_env \<Rightarrow> rstr \<Rightarrow> rstr option list \<Rightarrow> conn_device \<Rightarrow> conn_device \<times> rstr option list" where
  "connected_among env i [] d = (d, [])"
| "connected_among env i (x # xs) d =
     (let (d1, v) = load_oauth_json_exact env i x d;
          (d2, ys) = connected_among env i xs d1
      in (d2, if v \<noteq> None \<and> oauth_json_is_recoverable env (the v) then x # ys else ys))"

definition list_connected_oauth_instances :: "conn_env \<Rightarrow> rstr \<Rightarrow> conn_device \<Rightarrow> conn_device \<times> rstr option list" where
  "list_connected_oauth_instances env i d = connected_among env i (list_oauth_instances env i d) d"

section \<open>Writing and deleting\<close>

definition U64_MAX :: nat where "U64_MAX = 2 ^ 64 - 1"

definition next_refresh_gen :: "rstr option \<Rightarrow> rstr option \<Rightarrow> nat \<Rightarrow> nat \<Rightarrow> nat" where
  "next_refresh_gen incoming prior prior_gen highwater =
     (let rotated = (case (incoming, prior) of
            (Some new, Some old) \<Rightarrow> new \<noteq> old | (Some new, None) \<Rightarrow> True | (None, _) \<Rightarrow> False)
      in if rotated then min (max prior_gen highwater + 1) U64_MAX else prior_gen)"

definition GEN_FIELD :: rstr where "GEN_FIELD = lit ''screenpipe_refresh_gen''"

datatype oauth_error =
  Panicked | NoStoredToken | NoRefreshToken | NetworkFailed | NonJson | Refused nat | NoAccessToken | TokenWriteFailed

text \<open>The fields added to the answer of the provider; the sum of two \<open>u64\<close> wraps.\<close>

definition with_times :: "conn_env \<Rightarrow> json \<Rightarrow> json option" where
  "with_times env v =
     Option.bind
       (case as_u64 (json_index (lit ''expires_in'') v) of
          Some e \<Rightarrow> json_put (lit ''expires_at'') (JInt (int ((unix_now env + e) mod 2 ^ 64))) v
        | None \<Rightarrow> Some v)
       (json_put (lit ''last_refreshed_at'') (JInt (int (unix_now env))))"

definition store_token :: "conn_env \<Rightarrow> rstr \<Rightarrow> json \<Rightarrow> conn_device \<Rightarrow> conn_device \<times> (oauth_error + unit)" where
  "store_token env key v d =
     (case cn_store d of
        Some st \<Rightarrow>
          (case set_json env (oauth_key key) v st of
             (st', Inr u) \<Rightarrow>
               (on_disk (clear_connection_tombstone env key \<circ> remove_token_file env key) (d\<lparr>cn_store := Some st'\<rparr>), Inr ())
           | (st', Inl e) \<Rightarrow> (d\<lparr>cn_store := Some st'\<rparr>, Inl TokenWriteFailed))
      | None \<Rightarrow>
          if token_writable env key
          then (on_disk (clear_connection_tombstone env key
                  \<circ> (\<lambda>disk. disk\<lparr>cd_tokens := (cd_tokens disk)(key \<mapsto> (Some v, utc_now (ce_sync env)))\<rparr>)) d, Inr ())
          else (d, Inl TokenWriteFailed))"

definition write_oauth_token_instance ::
  "conn_env \<Rightarrow> rstr \<Rightarrow> rstr option \<Rightarrow> json \<Rightarrow> conn_device \<Rightarrow> conn_device \<times> (oauth_error + unit)" where
  "write_oauth_token_instance env i inst data d =
     (let key = make_key i inst in
      case with_times env data of
        None \<Rightarrow> (d, Inl Panicked)
      | Some stored \<Rightarrow>
          (let (d1, prior) = load_oauth_json_exact env i inst d;
               new_gen = next_refresh_gen (as_str (json_index (lit ''refresh_token'') stored))
                 (Option.bind prior (\<lambda>p. as_str (json_index (lit ''refresh_token'') p)))
                 (case Option.bind prior (\<lambda>p. as_u64 (json_index GEN_FIELD p)) of Some g \<Rightarrow> g | None \<Rightarrow> 0)
                 (read_oauth_gen_highwater key (cn_disk d1))
           in case json_put GEN_FIELD (JInt (int new_gen)) stored of
                None \<Rightarrow> (d1, Inl Panicked)
              | Some stamped \<Rightarrow> store_token env key stamped (on_disk (bump_oauth_gen_highwater env key new_gen) d1)))"

definition delete_oauth_token_instance :: "conn_env \<Rightarrow> rstr \<Rightarrow> rstr option \<Rightarrow> conn_device \<Rightarrow> conn_device \<times> (oauth_error + unit)" where
  "delete_oauth_token_instance env i inst d =
     (let key = make_key i inst;
          d1 = (case cn_store d of
                  Some st \<Rightarrow> d\<lparr>cn_store := Some (fst (secret_delete env (oauth_key key) st))\<rparr>
                | None \<Rightarrow> d)
      in if cd_tokens (cn_disk d1) key \<noteq> None \<and> \<not> token_removable env key then (d1, Inl TokenWriteFailed)
         else (on_disk (record_connection_tombstone env key \<circ> remove_token_file env key) d1, Inr ()))"

section \<open>The sweep of shadowed defaults\<close>

definition swept_ids :: "rstr list \<Rightarrow> rstr set \<times> rstr set" where
  "swept_ids keys =
     (let rests = List.map_filter (strip_prefix (lit ''oauth:'')) keys in
      ({r \<in> set rests. find_str r (lit '':'') = None},
       (\<lambda>r. fst (parse_connection_key r)) ` {r \<in> set rests. find_str r (lit '':'') \<noteq> None}))"

fun delete_defaults :: "conn_env \<Rightarrow> rstr list \<Rightarrow> secret_store \<Rightarrow> nat \<Rightarrow> secret_store \<times> nat" where
  "delete_defaults env [] st n = (st, n)"
| "delete_defaults env (i # ids) st n =
     (case secret_delete env (oauth_key i) st of
        (st', Inr u) \<Rightarrow> delete_defaults env ids st' (n + 1)
      | (st', Inl e) \<Rightarrow> delete_defaults env ids st' n)"

definition sweep_shadowed_default_slots :: "conn_env \<Rightarrow> secret_store \<Rightarrow> secret_store \<times> (secret_error + nat)" where
  "sweep_shadowed_default_slots env st =
     (case secret_list env (lit ''oauth:'') st of
        Inl e \<Rightarrow> (st, Inl e)
      | Inr keys \<Rightarrow>
          (let (has_default, has_named) = swept_ids keys;
               (st', n) = delete_defaults env (keys_of (ce_sync env) (\<lambda>i. i \<in> has_default \<and> i \<in> has_named)) st 0
           in (st', Inr n)))"

section \<open>Refreshing\<close>

definition looks_like_invalid_grant :: "nat \<Rightarrow> rstr \<Rightarrow> bool" where
  "looks_like_invalid_grant status body \<longleftrightarrow>
     (status = 400 \<or> status = 401) \<and> contains_str (map to_ascii_lowercase body) (lit ''invalid_grant'')"

definition merge_refresh_response :: "json \<Rightarrow> json \<Rightarrow> json" where
  "merge_refresh_response stored resp =
     (case stored of
        JObj fs \<Rightarrow>
          (case resp of
             JObj rs \<Rightarrow>
               (let kept = (if map_of rs (lit ''access_token'') \<noteq> None
                            then filter (\<lambda>(k, v). k \<noteq> lit ''expires_at'' \<and> k \<noteq> lit ''expires_in'') fs else fs)
                in JObj (fold (\<lambda>(k, v) acc. if v = JNull then acc else put_field k v acc) rs kept))
           | _ \<Rightarrow> stored)
      | _ \<Rightarrow> resp)"

text \<open>An answer is a status with a body, or none on a network error; \<open>meanwhile\<close> is what happens to the device
  until it arrives.\<close>

fun refresh_loop ::
  "conn_env \<Rightarrow> (nat \<Rightarrow> rstr \<Rightarrow> (nat \<times> rstr) option) \<Rightarrow> (nat \<Rightarrow> conn_device \<Rightarrow> conn_device) \<Rightarrow> rstr \<Rightarrow> rstr option
    \<Rightarrow> nat \<Rightarrow> rstr \<Rightarrow> json \<Rightarrow> conn_device \<Rightarrow> conn_device \<times> (oauth_error + json \<times> json)" where
  "refresh_loop env ask meanwhile i inst retries tok stored d =
     (let d1 = meanwhile retries d in
      case ask retries tok of
        None \<Rightarrow> (d1, Inl NetworkFailed)
      | Some (status, body) \<Rightarrow>
          if 200 \<le> status \<and> status < 300
          then (d1, case json_read env body of Some resp \<Rightarrow> Inr (stored, resp) | None \<Rightarrow> Inl NonJson)
          else (case retries of
                  0 \<Rightarrow> (d1, Inl (Refused status))
                | Suc left \<Rightarrow>
                    if \<not> looks_like_invalid_grant status body then (d1, Inl (Refused status))
                    else let (d2, fresh) = load_oauth_json_exact env i inst d1 in
                      case Option.bind fresh (\<lambda>f. as_str (json_index (lit ''refresh_token'') f)) of
                        None \<Rightarrow> (d2, Inl (Refused status))
                      | Some new_rt \<Rightarrow>
                          if new_rt \<noteq> tok then refresh_loop env ask meanwhile i inst left new_rt (the fresh) d2
                          else (d2, Inl (Refused status))))"

definition refresh_token_instance ::
  "conn_env \<Rightarrow> (nat \<Rightarrow> rstr \<Rightarrow> (nat \<times> rstr) option) \<Rightarrow> (nat \<Rightarrow> conn_device \<Rightarrow> conn_device) \<Rightarrow> rstr \<Rightarrow> rstr option
    \<Rightarrow> conn_device \<Rightarrow> conn_device \<times> (oauth_error + rstr)" where
  "refresh_token_instance env ask meanwhile i inst d =
     (case load_oauth_json_with_instance env i inst d of
        (d1, None) \<Rightarrow> (d1, Inl NoStoredToken)
      | (d1, Some (stored, eff)) \<Rightarrow>
          (case as_str (json_index (lit ''refresh_token'') stored) of
             None \<Rightarrow> (d1, Inl NoRefreshToken)
           | Some tok \<Rightarrow>
               (case refresh_loop env ask meanwhile i eff 1 tok stored d1 of
                  (d2, Inl e) \<Rightarrow> (d2, Inl e)
                | (d2, Inr (stored', resp)) \<Rightarrow>
                    (case write_oauth_token_instance env i eff (merge_refresh_response stored' resp) d2 of
                       (d3, Inl e) \<Rightarrow> (d3, Inl e)
                     | (d3, Inr u) \<Rightarrow>
                         (d3, case as_str (json_index (lit ''access_token'') resp) of Some a \<Rightarrow> Inr a | None \<Rightarrow> Inl NoAccessToken)))))"

definition get_valid_token_instance ::
  "conn_env \<Rightarrow> (nat \<Rightarrow> rstr \<Rightarrow> (nat \<times> rstr) option) \<Rightarrow> (nat \<Rightarrow> conn_device \<Rightarrow> conn_device) \<Rightarrow> rstr \<Rightarrow> rstr option
    \<Rightarrow> conn_device \<Rightarrow> conn_device \<times> rstr option" where
  "get_valid_token_instance env ask meanwhile i inst d =
     (case read_oauth_token_instance env i inst d of
        (d1, Some tok) \<Rightarrow> (d1, Some tok)
      | (d1, None) \<Rightarrow>
          (case refresh_token_instance env ask meanwhile i inst d1 of
             (d2, Inr tok) \<Rightarrow> (d2, Some tok)
           | (d2, Inl e) \<Rightarrow> (d2, None)))"

end
