(* ===== verification/SyncConnections.thy ===== *)
theory SyncConnections
  imports OauthTokens
begin

text \<open>
  Connections on several devices (\<open>screenpipe-core/src/connections/sync.rs\<close> and its callers in
  \<open>screenpipe-engine/src/sync_api.rs\<close>): manual credentials and tokens are rows of one manifest. The module exists
  with and without the store of secrets (a feature of the crate); the functions ending in \<open>plain\<close> are those
  without.
\<close>

record synced_connection =
  conn_key :: rstr
  integration_id :: rstr
  conn_instance :: "rstr option"
  conn_enabled :: bool
  is_oauth :: bool
  conn_credentials :: "(rstr \<times> json) list option"
  oauth_token :: "json option"
  conn_modified :: rstr
  conn_by :: rstr
  oauth_rev :: nat

section \<open>The merge\<close>

definition remote_is_newer :: "sync_env \<Rightarrow> synced_connection \<Rightarrow> synced_connection \<Rightarrow> bool" where
  "remote_is_newer env l r =
     (if (is_oauth l \<or> is_oauth r) \<and> oauth_rev r \<noteq> oauth_rev l then oauth_rev l < oauth_rev r
      else let lt = parse_rfc3339 env (conn_modified l); rt = parse_rfc3339 env (conn_modified r) in
        if lt < rt then True
        else if rt < lt then False
        else str_less (conn_by l) (conn_by r))"

interpretation connections: row_choice "remote_is_newer env" conn_modified env for env
  by unfold_locales (simp add: remote_is_newer_def)

definition merge_connections ::
  "sync_env \<Rightarrow> synced_connection manifest \<Rightarrow> synced_connection manifest \<Rightarrow> rstr \<Rightarrow> synced_connection manifest \<times> sync_action list" where
  "merge_connections env = merge_manifests (remote_is_newer env) conn_modified env"

section \<open>The local manifest\<close>

definition make_connection_record :: "rstr \<Rightarrow> saved_connection \<Rightarrow> rstr \<Rightarrow> rstr \<Rightarrow> synced_connection" where
  "make_connection_record key c machine_id ts =
     \<lparr>conn_key = key, integration_id = fst (parse_connection_key key), conn_instance = snd (parse_connection_key key),
      conn_enabled = sc_enabled c, is_oauth = False, conn_credentials = Some (sc_credentials c), oauth_token = None,
      conn_modified = ts, conn_by = machine_id, oauth_rev = 0\<rparr>"

definition make_oauth_record :: "rstr \<Rightarrow> json \<Rightarrow> rstr \<Rightarrow> rstr \<Rightarrow> synced_connection" where
  "make_oauth_record key tok machine_id ts =
     \<lparr>conn_key = key, integration_id = fst (parse_connection_key key), conn_instance = snd (parse_connection_key key),
      conn_enabled = True, is_oauth = True, conn_credentials = None, oauth_token = Some tok,
      conn_modified = ts, conn_by = machine_id,
      oauth_rev = (case as_u64 (json_index GEN_FIELD tok) of Some g \<Rightarrow> g | None \<Rightarrow> 0)\<rparr>"

definition source_timestamp :: "conn_env \<Rightarrow> timestamp option \<Rightarrow> rstr" where
  "source_timestamp env mtime = (case mtime of Some t \<Rightarrow> date_text env t | None \<Rightarrow> now_text (ce_sync env))"

definition read_secret_timestamp :: "conn_env \<Rightarrow> rstr \<Rightarrow> secret_store \<Rightarrow> rstr" where
  "read_secret_timestamp env full_key st =
     (case get_updated_at env full_key st of
        Inr (Some ts) \<Rightarrow> (case rfc3339_of (ce_sync env) ts of Some t \<Rightarrow> date_text env t | None \<Rightarrow> now_text (ce_sync env))
      | _ \<Rightarrow> now_text (ce_sync env))"

definition cred_row :: "conn_env \<Rightarrow> rstr \<Rightarrow> secret_store \<Rightarrow> rstr \<Rightarrow> (rstr \<times> synced_connection) option" where
  "cred_row env machine_id st full_key =
     (case (stored_connection env full_key st, strip_prefix (lit ''cred:'') full_key) of
        (Some c, Some key) \<Rightarrow> Some (key, make_connection_record key c machine_id (read_secret_timestamp env full_key st))
      | _ \<Rightarrow> None)"

definition oauth_row :: "conn_env \<Rightarrow> rstr \<Rightarrow> secret_store \<Rightarrow> rstr \<Rightarrow> (rstr \<times> synced_connection) option" where
  "oauth_row env machine_id st full_key =
     (case (get_json env full_key st, strip_prefix (lit ''oauth:'') full_key) of
        (Inr (Some v), Some key) \<Rightarrow> Some (key, make_oauth_record key v machine_id (read_secret_timestamp env full_key st))
      | _ \<Rightarrow> None)"

definition listed_rows ::
  "conn_env \<Rightarrow> rstr \<Rightarrow> (rstr \<Rightarrow> (rstr \<times> synced_connection) option) \<Rightarrow> secret_store \<Rightarrow> rstr \<rightharpoonup> synced_connection" where
  "listed_rows env prefix row st =
     (case secret_list env prefix st of
        Inr keys \<Rightarrow> map_of (rev (List.map_filter row keys))
      | Inl e \<Rightarrow> Map.empty)"

definition file_rows :: "conn_env \<Rightarrow> rstr \<Rightarrow> conn_disk \<Rightarrow> rstr \<rightharpoonup> synced_connection" where
  "file_rows env machine_id disk =
     (\<lambda>key. map_option (\<lambda>c. make_connection_record key c machine_id (source_timestamp env (cd_file_time disk))) (load_store disk key))"

definition has_oauth_secret :: "conn_env \<Rightarrow> rstr \<Rightarrow> secret_store \<Rightarrow> bool" where
  "has_oauth_secret env key st \<longleftrightarrow> (case get_json env (oauth_key key) st of Inr (Some v) \<Rightarrow> True | _ \<Rightarrow> False)"

definition token_row :: "conn_env \<Rightarrow> rstr \<Rightarrow> conn_device \<Rightarrow> rstr \<Rightarrow> synced_connection option" where
  "token_row env machine_id d key =
     (if key = [] \<or> \<not> dir_listable env then None
      else if (case cn_store d of Some st \<Rightarrow> has_oauth_secret env key st | None \<Rightarrow> False) then None
      else case (token_file env key (cn_disk d), cd_tokens (cn_disk d) key) of
             (Some v, Some (x, t)) \<Rightarrow> Some (make_oauth_record key v machine_id (date_text env t))
           | _ \<Rightarrow> None)"

definition with_tombstones :: "(rstr \<rightharpoonup> rstr) \<Rightarrow> 'v manifest \<Rightarrow> 'v manifest" where
  "with_tombstones tombs m = m\<lparr>tombstones := (\<lambda>k. if entries m k \<noteq> None then None else tombs k)\<rparr>"

text \<open>File-backed credentials, overridden by the store, then the token files the store does not have.\<close>

definition build_connections_manifest :: "conn_env \<Rightarrow> rstr \<Rightarrow> conn_device \<Rightarrow> synced_connection manifest" where
  "build_connections_manifest env machine_id d =
     (let rows = file_rows env machine_id (cn_disk d) ++
            (case cn_store d of
               Some st \<Rightarrow> listed_rows env (lit ''cred:'') (cred_row env machine_id st) st
                          ++ listed_rows env (lit ''oauth:'') (oauth_row env machine_id st) st
             | None \<Rightarrow> Map.empty)
      in with_tombstones (cd_tombs (cn_disk d))
           ((empty_manifest (ce_sync env) machine_id)\<lparr>entries := rows ++ token_row env machine_id d\<rparr>))"

definition build_connections_plain :: "conn_env \<Rightarrow> rstr \<Rightarrow> conn_disk \<Rightarrow> synced_connection manifest" where
  "build_connections_plain env machine_id disk =
     with_tombstones (cd_tombs disk)
       ((empty_manifest (ce_sync env) machine_id)
          \<lparr>entries := file_rows env machine_id disk ++ token_row env machine_id \<lparr>cn_disk = disk, cn_store = None\<rparr>\<rparr>)"

section \<open>Applying the result\<close>

datatype conn_sync_error =
  NoToken rstr | TokenNotSaved rstr | ManualNotCleared rstr | NoCredentials rstr | CredentialsNotSaved rstr
| NotDeleted rstr | FileNotWritten

record applying =
  ap_device :: conn_device
  ap_file :: "rstr \<rightharpoonup> saved_connection"
  ap_dirty :: bool
  ap_errors :: "conn_sync_error list"

definition complain :: "bool \<Rightarrow> conn_sync_error \<Rightarrow> applying \<Rightarrow> applying" where
  "complain failed e p = (if failed then p\<lparr>ap_errors := ap_errors p @ [e]\<rparr> else p)"

definition on_store :: "(secret_store \<Rightarrow> secret_store \<times> (secret_error + unit)) \<Rightarrow> conn_sync_error option \<Rightarrow> applying \<Rightarrow> applying" where
  "on_store f e p =
     (case cn_store (ap_device p) of
        None \<Rightarrow> p
      | Some st \<Rightarrow>
          (case f st of
             (st', Inr u) \<Rightarrow> p\<lparr>ap_device := (ap_device p)\<lparr>cn_store := Some st'\<rparr>\<rparr>
           | (st', Inl x) \<Rightarrow> (case e of Some c \<Rightarrow> complain True c p | None \<Rightarrow> p)))"

definition drop_token_file :: "conn_env \<Rightarrow> rstr \<Rightarrow> applying \<Rightarrow> applying" where
  "drop_token_file env key p = p\<lparr>ap_device := on_disk (remove_token_file env key) (ap_device p)\<rparr>"

definition write_token_file :: "conn_env \<Rightarrow> rstr \<Rightarrow> json \<Rightarrow> applying \<Rightarrow> applying" where
  "write_token_file env key v p =
     (if token_writable env key
      then p\<lparr>ap_device := on_disk (\<lambda>disk. disk\<lparr>cd_tokens := (cd_tokens disk)(key \<mapsto> (Some v, utc_now (ce_sync env)))\<rparr>) (ap_device p)\<rparr>
      else complain True (TokenNotSaved key) p)"

definition edit_file :: "rstr \<Rightarrow> saved_connection option \<Rightarrow> applying \<Rightarrow> applying" where
  "edit_file key c p = p\<lparr>ap_file := (ap_file p)(key := c), ap_dirty := True\<rparr>"

definition bump_gen :: "conn_env \<Rightarrow> rstr \<Rightarrow> nat \<Rightarrow> applying \<Rightarrow> applying" where
  "bump_gen env key gen p = p\<lparr>ap_device := on_disk (bump_oauth_gen_highwater env key gen) (ap_device p)\<rparr>"

definition accept_oauth :: "conn_env \<Rightarrow> rstr \<Rightarrow> synced_connection \<Rightarrow> applying \<Rightarrow> applying" where
  "accept_oauth env key c p =
     (case oauth_token c of
        None \<Rightarrow> complain True (NoToken key) p
      | Some v \<Rightarrow>
          (let p1 = (if cn_store (ap_device p) \<noteq> None
                     then on_store (set_json env (oauth_key key) v) (Some (TokenNotSaved key)) p
                     else write_token_file env key v p);
               p2 = on_store (secret_delete env (cred_key key)) (Some (ManualNotCleared key)) (edit_file key None p1)
           in bump_gen env key (oauth_rev c) (drop_token_file env key p2)))"

definition accept_manual :: "conn_env \<Rightarrow> rstr \<Rightarrow> synced_connection \<Rightarrow> applying \<Rightarrow> applying" where
  "accept_manual env key c p =
     (case conn_credentials c of
        None \<Rightarrow> complain True (NoCredentials key) p
      | Some creds \<Rightarrow>
          (let saved = \<lparr>sc_enabled = conn_enabled c, sc_credentials = creds\<rparr> in
           case cn_store (ap_device p) of
             Some st \<Rightarrow>
               (case set_json env (cred_key key) (json_of_saved saved) st of
                  (st', Inl e) \<Rightarrow> complain True (CredentialsNotSaved key) p
                | (st', Inr u) \<Rightarrow>
                    drop_token_file env key
                      (on_store (secret_delete env (oauth_key key)) None (p\<lparr>ap_device := (ap_device p)\<lparr>cn_store := Some st'\<rparr>\<rparr>)))
           | None \<Rightarrow> drop_token_file env key (edit_file key (Some saved) p)))"

definition apply_connection_action :: "conn_env \<Rightarrow> synced_connection manifest \<Rightarrow> sync_action \<Rightarrow> applying \<Rightarrow> applying" where
  "apply_connection_action env m a p =
     (let import = (\<lambda>key. case entries m key of
                            None \<Rightarrow> p
                          | Some c \<Rightarrow> if is_oauth c then accept_oauth env key c p else accept_manual env key c p)
      in case a of
           Imported key \<Rightarrow> import key
         | Updated key \<Rightarrow> import key
         | Deleted key \<Rightarrow>
             drop_token_file env key
               (on_store (secret_delete env (oauth_key key)) (Some (NotDeleted key))
                 (on_store (secret_delete env (cred_key key)) (Some (NotDeleted key)) (edit_file key None p)))
         | Skipped key \<Rightarrow> p)"

definition write_back :: "conn_env \<Rightarrow> applying \<Rightarrow> conn_device \<times> conn_sync_error list" where
  "write_back env p =
     (if \<not> ap_dirty p then (ap_device p, ap_errors p)
      else case save_store env (ap_file p) (cn_disk (ap_device p)) of
        (disk, Inr u) \<Rightarrow> ((ap_device p)\<lparr>cn_disk := disk\<rparr>, ap_errors p)
      | (disk, Inl e) \<Rightarrow> (ap_device p, ap_errors p @ [FileNotWritten]))"

definition apply_connections_manifest ::
  "conn_env \<Rightarrow> synced_connection manifest \<Rightarrow> sync_action list \<Rightarrow> conn_device \<Rightarrow> conn_device \<times> conn_sync_error list" where
  "apply_connections_manifest env m actions d =
     write_back env (fold (apply_connection_action env m) actions
       \<lparr>ap_device = d, ap_file = load_store (cn_disk d), ap_dirty = False, ap_errors = []\<rparr>)"

definition apply_plain_action :: "conn_env \<Rightarrow> synced_connection manifest \<Rightarrow> sync_action \<Rightarrow> applying \<Rightarrow> applying" where
  "apply_plain_action env m a p =
     (let import = (\<lambda>key. case entries m key of
            None \<Rightarrow> p
          | Some c \<Rightarrow>
              if is_oauth c
              then (case oauth_token c of
                      None \<Rightarrow> complain True (NoToken key) p
                    | Some v \<Rightarrow> bump_gen env key (oauth_rev c) (edit_file key None (write_token_file env key v p)))
              else (case conn_credentials c of
                      None \<Rightarrow> complain True (NoCredentials key) p
                    | Some creds \<Rightarrow> drop_token_file env key
                        (edit_file key (Some \<lparr>sc_enabled = conn_enabled c, sc_credentials = creds\<rparr>) p)))
      in case a of
           Imported key \<Rightarrow> import key
         | Updated key \<Rightarrow> import key
         | Deleted key \<Rightarrow> drop_token_file env key (edit_file key None p)
         | Skipped key \<Rightarrow> p)"

definition apply_connections_plain ::
  "conn_env \<Rightarrow> synced_connection manifest \<Rightarrow> sync_action list \<Rightarrow> conn_disk \<Rightarrow> conn_device \<times> conn_sync_error list" where
  "apply_connections_plain env m actions disk =
     write_back env (fold (apply_plain_action env m) actions
       \<lparr>ap_device = \<lparr>cn_disk = disk, cn_store = None\<rparr>, ap_file = load_store disk, ap_dirty = False, ap_errors = []\<rparr>)"

section \<open>Cycles\<close>

text \<open>The background cycle, which is also what a pull does; a download that fails counts as an empty manifest.\<close>

definition run_background_connections_sync ::
  "conn_env \<Rightarrow> rstr \<Rightarrow> synced_connection manifest option \<Rightarrow> conn_device
    \<Rightarrow> conn_device \<times> synced_connection manifest \<times> sync_action list \<times> conn_sync_error list" where
  "run_background_connections_sync env me answer d =
     (let remote = (case answer of Some m \<Rightarrow> m | None \<Rightarrow> empty_manifest (ce_sync env) (lit ''unknown''));
          (merged, actions) = merge_connections (ce_sync env) (build_connections_manifest env me d) remote me;
          (d1, errors) = apply_connections_manifest env merged actions d;
          d2 = (if list_ex (\<lambda>a. case a of Deleted k \<Rightarrow> True | _ \<Rightarrow> False) actions
                then on_disk (clear_connection_tombstones env actions) d1 else d1)
      in (d2, merged, actions, errors))"

definition sync_connections_push ::
  "conn_env \<Rightarrow> rstr \<Rightarrow> synced_connection manifest option \<Rightarrow> conn_device \<Rightarrow> synced_connection manifest \<times> sync_action list" where
  "sync_connections_push env me answer d =
     merge_connections (ce_sync env) (build_connections_manifest env me d)
       (case answer of Some m \<Rightarrow> m | None \<Rightarrow> empty_manifest (ce_sync env) (lit ''unknown'')) me"

end
