(* ===== verification/ConnectionProperties.thy ===== *)
theory ConnectionProperties
  imports SyncConnections
begin

text \<open>
  Properties of connections: which token the merge keeps, generations over reconnects, what a refresh keeps, which
  account is read, the store of secrets, and where the time of a row deceives the merge.
\<close>

section \<open>The order of rows\<close>

definition sound_row :: "synced_connection \<Rightarrow> bool" where
  "sound_row v \<longleftrightarrow> is_oauth v \<or> oauth_rev v = 0"

lemma remote_is_newer_lex:
  assumes "sound_row l" "sound_row r"
  shows "remote_is_newer env l r \<longleftrightarrow> oauth_rev l < oauth_rev r
    \<or> oauth_rev l = oauth_rev r \<and> (parse_rfc3339 env (conn_modified l) < parse_rfc3339 env (conn_modified r)
        \<or> parse_rfc3339 env (conn_modified l) = parse_rfc3339 env (conn_modified r) \<and> str_less (conn_by l) (conn_by r))"
  using assms by (auto simp: remote_is_newer_def sound_row_def Let_def)

definition not_newer :: "sync_env \<Rightarrow> synced_connection \<Rightarrow> synced_connection \<Rightarrow> bool" where
  "not_newer env v w \<longleftrightarrow> \<not> remote_is_newer env v w"

lemma not_newer_refl: "not_newer env v v"
  by (simp add: not_newer_def connections.not_newer_itself)

lemma not_newer_trans:
  "sound_row u \<Longrightarrow> sound_row v \<Longrightarrow> sound_row w \<Longrightarrow> not_newer env u v \<Longrightarrow> not_newer env v w \<Longrightarrow> not_newer env u w"
  using str_le_total by (auto simp: not_newer_def remote_is_newer_lex str_less_def intro: str_le_trans)

lemma newer_not_newer: "sound_row u \<Longrightarrow> sound_row v \<Longrightarrow> remote_is_newer env u v \<Longrightarrow> not_newer env v u"
  using str_le_total by (auto simp: not_newer_def remote_is_newer_lex str_less_def)

text \<open>A name without tombstones.\<close>

definition sound_fate :: "synced_connection fate \<Rightarrow> bool" where
  "sound_fate f \<longleftrightarrow> f = Gone \<or> (\<exists>v. f = Live v \<and> sound_row v)"

lemma join_newest:
  fixes env :: sync_env and x y :: "synced_connection fate"
  assumes "sound_fate x" "sound_fate y"
  defines "j \<equiv> join (remote_is_newer env) conn_modified env x y"
  shows "j \<in> {x, y} \<and> sound_fate j \<and> (j = Gone \<longrightarrow> x = Gone \<and> y = Gone)
    \<and> (\<forall>v w. j = Live v \<longrightarrow> Live w \<in> {x, y} \<longrightarrow> not_newer env v w)"
proof (cases "\<exists>a b. x = Live a \<and> y = Live b")
  case True
  then obtain a b where ab: "x = Live a" "y = Live b" "sound_row a" "sound_row b" using assms(1,2) by (auto simp: sound_fate_def)
  show ?thesis
    using newer_not_newer [OF ab(3,4), of env] not_newer_refl [of env a] not_newer_refl [of env b] ab
    by (cases "remote_is_newer env a b") (simp_all add: j_def sound_fate_def not_newer_def)
next
  case False
  then have "x = Gone \<or> y = Gone" using assms(1,2) by (auto simp: sound_fate_def)
  then show ?thesis using assms(1,2) not_newer_refl unfolding j_def by (cases x; cases y) (simp_all add: sound_fate_def)
qed

lemma foldl_newest:
  fixes env :: sync_env and x :: "synced_connection fate" and xs :: "synced_connection fate list"
  assumes "\<forall>f \<in> set (x # xs). sound_fate f"
  defines "j \<equiv> foldl (join (remote_is_newer env) conn_modified env) x xs"
  shows "j \<in> set (x # xs) \<and> (j = Gone \<longrightarrow> (\<forall>f \<in> set (x # xs). f = Gone))
    \<and> (\<forall>v w. j = Live v \<longrightarrow> Live w \<in> set (x # xs) \<longrightarrow> not_newer env v w)"
  unfolding j_def using assms(1)
proof (induction xs arbitrary: x)
  case Nil
  then show ?case using not_newer_refl by auto
next
  case (Cons y xs)
  let ?j = "join (remote_is_newer env) conn_modified env x y"
  let ?r = "foldl (join (remote_is_newer env) conn_modified env) ?j xs"
  have s: "sound_fate x" "sound_fate y" using Cons.prems(1) by simp_all
  note j = join_newest [OF s, of env]
  have "\<forall>f \<in> set (?j # xs). sound_fate f" using j Cons.prems by simp
  from Cons.IH [OF this]
  have ih: "?r \<in> set (?j # xs)" "?r = Gone \<longrightarrow> (\<forall>f \<in> set (?j # xs). f = Gone)"
    "\<forall>v w. ?r = Live v \<longrightarrow> Live w \<in> set (?j # xs) \<longrightarrow> not_newer env v w" by blast+
  have "not_newer env v w" if r: "?r = Live v" and w: "Live w \<in> {x, y}" for v w
  proof (cases ?j)
    case (Live u)
    have "sound_fate ?r" using ih(1) j Cons.prems by auto
    then have "sound_row v" "sound_row u" "sound_row w" using r w s Live j by (auto simp: sound_fate_def)
    moreover have "not_newer env v u" "not_newer env u w" using ih(3) r Live j w by auto
    ultimately show ?thesis using not_newer_trans by blast
  next
    case Gone
    then show ?thesis using j w by auto
  next
    case (Buried t)
    then show ?thesis using j by (auto simp: sound_fate_def)
  qed
  then show ?case using ih j by (auto simp del: join.simps)
qed

text \<open>C8: However many devices and in whatever order, the merge of their manifests keeps the row with the highest
  generation of the refresh token, whatever the clocks say, as long as the connection was not deleted; the time
  and the name of the device only decide between equal generations.\<close>

theorem newest_rotation_wins:
  assumes "enumerates env" "\<forall>m \<in> set (m # ms). small m \<and> tidy m \<and> tombstones m k = None"
    "\<forall>m \<in> set (m # ms). \<forall>v. entries m k = Some v \<longrightarrow> sound_row v" "m' \<in> set (m # ms)" "entries m' k \<noteq> None"
  shows "\<exists>v. entries (merge_all (remote_is_newer env) conn_modified env me m ms) k = Some v
    \<and> (\<exists>n \<in> set (m # ms). entries n k = Some v)
    \<and> (\<forall>n \<in> set (m # ms). \<forall>w. entries n k = Some w \<longrightarrow> oauth_rev w \<le> oauth_rev v \<and> \<not> remote_is_newer env v w)"
proof -
  let ?f = "\<lambda>m. fate_of m k"
  let ?r = "foldl (join (remote_is_newer env) conn_modified env) (?f m) (map ?f ms)"
  have fate: "?f n = (case entries n k of Some v \<Rightarrow> Live v | None \<Rightarrow> Gone)" if "n \<in> set (m # ms)" for n
    using that assms(2) by (auto simp: fate_of_def split: option.split)
  have sound: "\<forall>f \<in> set (?f m # map ?f ms). sound_fate f"
    using fate assms(3) by (fastforce simp: sound_fate_def split: option.split)
  note r = foldl_newest [OF sound, of env]
  have merged: "?f (merge_all (remote_is_newer env) conn_modified env me m ms) = ?r"
    using merge_all_fates [OF assms(1)] assms(2) by blast
  have "?f m' \<noteq> Gone" using fate [OF assms(4)] assms(5) by (simp split: option.split)
  moreover have "?f m' \<in> set (?f m # map ?f ms)" using assms(4) by auto
  ultimately have "?r \<noteq> Gone" using r by blast
  moreover have "sound_fate ?r" using r sound by blast
  ultimately obtain v where v: "?r = Live v" "sound_row v" unfolding sound_fate_def by blast
  have row: "oauth_rev w \<le> oauth_rev v \<and> \<not> remote_is_newer env v w" if n: "n \<in> set (m # ms)" "entries n k = Some w" for n w
  proof -
    have "?f n = Live w" using n(2) by simp
    moreover have "?f n \<in> set (?f m # map ?f ms)" using n(1) by auto
    ultimately have w: "Live w \<in> set (?f m # map ?f ms)" by (simp only:)
    then have "not_newer env v w" using r v(1) by blast
    moreover have "sound_row v" "sound_row w" using sound v(2) w unfolding sound_fate_def by blast+
    ultimately show ?thesis by (auto simp: not_newer_def remote_is_newer_lex)
  qed
  have "Live v \<in> set (?f m # map ?f ms)" using r v(1) by metis
  then have "\<exists>n \<in> set (m # ms). entries n k = Some v" by (auto simp: eq_commute [of "Live v"])
  moreover have "entries (merge_all (remote_is_newer env) conn_modified env me m ms) k = Some v" using merged v(1) by simp
  ultimately show ?thesis using row by blast
qed

definition only_row :: "sync_env \<Rightarrow> rstr \<Rightarrow> 'v \<Rightarrow> 'v manifest" where
  "only_row env k v = (empty_manifest env [])\<lparr>entries := [k \<mapsto> v]\<rparr>"

definition only_tomb :: "sync_env \<Rightarrow> rstr \<Rightarrow> rstr \<Rightarrow> 'v manifest" where
  "only_tomb env k ts = (empty_manifest env [])\<lparr>tombstones := [k \<mapsto> ts]\<rparr>"

text \<open>With a deletion in between, the result depends on the order: tombstones are compared by time and rows by
  generation, so the deletion removes the newest token in one order, and in the other an older token, which the
  provider no longer accepts, comes back.\<close>

theorem deletion_breaks_rotation_order:
  assumes "enumerates env" "is_oauth v" "oauth_rev w < oauth_rev v" "fresh env ts"
    "parse_rfc3339 env (conn_modified v) < parse_rfc3339 env ts" "parse_rfc3339 env ts \<le> parse_rfc3339 env (conn_modified w)"
  shows "entries (merge_all (remote_is_newer env) conn_modified env me (only_row env k v) [only_tomb env k ts, only_row env k w]) k = Some w
    \<and> entries (merge_all (remote_is_newer env) conn_modified env me (only_row env k v) [only_row env k w, only_tomb env k ts]) k = None"
proof -
  have ok: "\<forall>m \<in> set (only_row env k v # [only_tomb env k ts, only_row env k w]). small m \<and> tidy m"
    "\<forall>m \<in> set (only_row env k v # [only_row env k w, only_tomb env k ts]). small m \<and> tidy m"
    by (auto simp: only_row_def only_tomb_def small_def tidy_def empty_manifest_def)
  have f: "fate_of (only_row env k x) k = Live x" "fate_of (only_tomb env k ts) k = Buried ts" for x :: synced_connection
    by (simp_all add: fate_of_def only_row_def only_tomb_def empty_manifest_def)
  have n: "\<not> remote_is_newer env v w" using assms(2,3) by (simp add: remote_is_newer_def)
  note fates = merge_all_fates [OF assms(1) ok(1), of "remote_is_newer env" conn_modified me k]
    merge_all_fates [OF assms(1) ok(2), of "remote_is_newer env" conn_modified me k]
  have 1: "fate_of (merge_all (remote_is_newer env) conn_modified env me (only_row env k v) [only_tomb env k ts, only_row env k w]) k = Live w"
    and 2: "fate_of (merge_all (remote_is_newer env) conn_modified env me (only_row env k v) [only_row env k w, only_tomb env k ts]) k = Buried ts"
    using fates assms(5,6) n by (simp_all add: f del: fate_live_iff)
  show ?thesis using 1 2 by (auto simp: fate_of_def split: option.splits)
qed

section \<open>The store of secrets\<close>

text \<open>What the code relies on in the crates: base64 and the cipher are undone, nonces are twelve bytes and not all
  zero, JSON is read back as it was written.\<close>

definition good_conn_env :: "conn_env \<Rightarrow> bool" where
  "good_conn_env env \<longleftrightarrow> enumerates (ce_sync env)
     \<and> (\<forall>b. unbase64 env (base64 env b) = Some b)
     \<and> (\<forall>k n p c. seal env k n p = Some c \<longrightarrow> unseal env k n c = Some p)
     \<and> (\<forall>l. length (random_nonce env l) = 12 \<and> \<not> zero_nonce (random_nonce env l))
     \<and> (\<forall>v. json_read env (json_text env v) = Some v)"

lemma zero_nonce_simps [simp]: "zero_nonce ZERO_NONCE"
  by (simp add: zero_nonce_def ZERO_NONCE_def list_all_length)

lemma secret_set_Inr:
  assumes "good_conn_env env" "secret_set env k v st = (st', Inr u)"
  obtains r where "st' = st\<lparr>ss_rows := (ss_rows st)(k \<mapsto> r)\<rparr>" "open_row env (ss_key st) r = Inr v" "sv_updated r = sql_now env"
    "sql_ok env k"
  using assms
  by (auto simp: secret_set_def write_row_def encrypt_def decrypt_def open_row_def good_conn_env_def Let_def
      split: option.splits if_splits)

lemma secret_set_Inl: "secret_set env k v st = (st', Inl e) \<Longrightarrow> st' = st"
  by (auto simp: secret_set_def write_row_def split: option.splits if_splits)

lemma get_json_cong: "ss_rows st' k = ss_rows st k \<Longrightarrow> ss_key st' = ss_key st \<Longrightarrow> get_json env k st' = get_json env k st"
  by (simp only: get_json_def secret_get_def)

lemma set_get_json:
  assumes "good_conn_env env" "set_json env k v st = (st', Inr u)"
  shows "get_json env k st' = Inr (Some v)" "k' \<noteq> k \<Longrightarrow> get_json env k' st' = get_json env k' st"
proof -
  obtain r where r: "st' = st\<lparr>ss_rows := (ss_rows st)(k \<mapsto> r)\<rparr>" "open_row env (ss_key st) r = Inr (json_text env v)" "sql_ok env k"
    using secret_set_Inr [OF assms(1) assms(2) [unfolded set_json_def]] by metis
  have "json_read env (json_text env v) = Some v" using assms(1) by (simp add: good_conn_env_def)
  then show "get_json env k st' = Inr (Some v)" using r by (simp add: get_json_def secret_get_def)
  show "get_json env k' st' = get_json env k' st" if "k' \<noteq> k" by (rule get_json_cong) (use r(1) that in simp_all)
qed

text \<open>C32: A secret that was stored is read back, with encryption and without, and no other secret changes.\<close>

theorem secret_read_back:
  assumes "good_conn_env env" "set_json env k v st = (st', Inr u)"
  shows "get_json env k st' = Inr (Some v) \<and> (\<forall>k'. k' \<noteq> k \<longrightarrow> get_json env k' st' = get_json env k' st)"
  using set_get_json [OF assms] by blast

text \<open>Encrypting the rows, one after the other.\<close>

lemma reencrypt_rows_keeps:
  assumes "good_conn_env env" "distinct (map fst rows)" "\<forall>(k, r) \<in> set rows. ss_rows st k = Some r"
    "reencrypt_rows env key rows st n = (st', Inr n')"
  shows "ss_key st' = ss_key st \<and> n' = n + length (filter (\<lambda>(k, r). zero_nonce (sv_nonce r)) rows)
    \<and> (\<forall>k. k \<notin> fst ` set rows \<longrightarrow> ss_rows st' k = ss_rows st k)
    \<and> (\<forall>(k, r) \<in> set rows. if zero_nonce (sv_nonce r)
         then \<exists>r'. ss_rows st' k = Some r' \<and> \<not> zero_nonce (sv_nonce r') \<and> sv_updated r' = sql_now env
            \<and> open_row env (Some key) r' = open_row env (Some key) r
         else ss_rows st' k = Some r)"
  using assms(2-4)
proof (induction rows arbitrary: st n)
  case (Cons kr rows)
  obtain k r where kr: "kr = (k, r)" by fastforce
  have k: "k \<notin> fst ` set rows" and dist: "distinct (map fst rows)" using Cons.prems(1) kr by auto
  show ?case
  proof (cases "zero_nonce (sv_nonce r)")
    case False
    then have "reencrypt_rows env key rows st n = (st', Inr n')" using Cons.prems(3) kr by simp
    from Cons.IH [OF dist _ this] Cons.prems(2) show ?thesis using kr False k by auto
  next
    case True
    obtain v c m where e: "unbase64 env (sv_value r) = Some v" "encrypt env k v key = Some (c, m)" "sql_ok env k"
      and rest: "reencrypt_rows env key rows (st\<lparr>ss_rows := (ss_rows st)(k \<mapsto> \<lparr>sv_value = c, sv_nonce = m, sv_updated = sql_now env\<rparr>)\<rparr>)
        (n + 1) = (st', Inr n')" (is "reencrypt_rows _ _ _ (?st) _ = _")
      using Cons.prems(3) True kr by (auto simp: write_row_def split: option.splits if_splits)
    let ?r = "\<lparr>sv_value = c, sv_nonce = m, sv_updated = sql_now env\<rparr>"
    have o: "\<not> zero_nonce m" "open_row env (Some key) ?r = Inr v" "open_row env (Some key) r = Inr v"
      using assms(1) e True by (auto simp: encrypt_def decrypt_def open_row_def good_conn_env_def Let_def)
    have "\<forall>(k', r') \<in> set rows. ss_rows ?st k' = Some r'" using Cons.prems(2) k kr by force
    from Cons.IH [OF dist this rest] have ih: "ss_key st' = ss_key st"
      "n' = n + 1 + length (filter (\<lambda>(k, r). zero_nonce (sv_nonce r)) rows)"
      "\<forall>k'. k' \<notin> fst ` set rows \<longrightarrow> ss_rows st' k' = ss_rows ?st k'"
      "\<forall>(k, r) \<in> set rows. if zero_nonce (sv_nonce r)
         then \<exists>r'. ss_rows st' k = Some r' \<and> \<not> zero_nonce (sv_nonce r') \<and> sv_updated r' = sql_now env
            \<and> open_row env (Some key) r' = open_row env (Some key) r
         else ss_rows st' k = Some r" by simp_all
    have "ss_rows st' k = Some ?r" using ih(3) k by simp
    then show ?thesis using ih o True kr by auto
  qed
qed simp

text \<open>C19: Turning encryption on changes what no secret says: read with the new key every row gives what it gave
  before, the answer counts the rows that were plain, and none is left. It also gives each of those rows the time of
  the change, which is the time that the synchronisation compares.\<close>

theorem encryption_keeps_secrets:
  assumes "good_conn_env env" "finite (dom (ss_rows st))" "reencrypt_unencrypted_secrets env key st = (st', Inr n)"
  shows "(\<forall>k. secret_get env k (st'\<lparr>ss_key := Some key\<rparr>) = secret_get env k (st\<lparr>ss_key := Some key\<rparr>))
    \<and> n = card {k. \<exists>r. ss_rows st k = Some r \<and> zero_nonce (sv_nonce r)}
    \<and> (\<forall>k r. ss_rows st' k = Some r \<longrightarrow> \<not> zero_nonce (sv_nonce r))
    \<and> (\<forall>k r. ss_rows st k = Some r \<and> zero_nonce (sv_nonce r) \<longrightarrow> map_option sv_updated (ss_rows st' k) = Some (sql_now env))"
proof -
  let ?keys = "keys_of (ce_sync env) (\<lambda>k. ss_rows st k \<noteq> None)"
  have fin: "finite {k. ss_rows st k \<noteq> None}" using assms(2) by (simp add: dom_def)
  have keys: "distinct ?keys" "set ?keys = {k. ss_rows st k \<noteq> None}"
    using assms(1) fin unfolding good_conn_env_def enumerates_def by blast+
  have rows: "distinct (map fst (all_rows env st))" "set (all_rows env st) = {(k, r). ss_rows st k = Some r}"
    using keys by (auto simp: all_rows_def comp_def)
  have run: "reencrypt_rows env key (all_rows env st) st 0 = (st', Inr n)"
    using assms(3) by (auto simp: reencrypt_unencrypted_secrets_def split: if_splits)
  have "\<forall>(k, r) \<in> set (all_rows env st). ss_rows st k = Some r" using rows(2) by auto
  note all = reencrypt_rows_keeps [OF assms(1) rows(1) this run]
  have row: "if zero_nonce (sv_nonce r)
      then \<exists>r'. ss_rows st' k = Some r' \<and> \<not> zero_nonce (sv_nonce r') \<and> sv_updated r' = sql_now env
         \<and> open_row env (Some key) r' = open_row env (Some key) r
      else ss_rows st' k = Some r" if "ss_rows st k = Some r" for k r
    using all that rows(2) by blast
  have none: "ss_rows st' k = None" if "ss_rows st k = None" for k
  proof -
    have "k \<notin> fst ` set (all_rows env st)" using that rows(2) by auto
    then show ?thesis using all that by simp
  qed
  have get: "secret_get env k (st'\<lparr>ss_key := Some key\<rparr>) = secret_get env k (st\<lparr>ss_key := Some key\<rparr>)" for k
    using row [of k] none [of k] by (cases "ss_rows st k") (auto simp: secret_get_def split: if_splits)
  have left: "\<not> zero_nonce (sv_nonce r)" if "ss_rows st' k = Some r" for k r
    using row [of k] none [of k] that by (cases "ss_rows st k") (auto split: if_splits)
  have "n = length (filter (\<lambda>(k, r). zero_nonce (sv_nonce r)) (all_rows env st))" using all by simp
  also have "\<dots> = card (fst ` set (filter (\<lambda>(k, r). zero_nonce (sv_nonce r)) (all_rows env st)))"
    using distinct_card [OF distinct_map_filter [OF rows(1)], of "\<lambda>(k, r). zero_nonce (sv_nonce r)"] by simp
  also have "fst ` set (filter (\<lambda>(k, r). zero_nonce (sv_nonce r)) (all_rows env st)) = {k. \<exists>r. ss_rows st k = Some r \<and> zero_nonce (sv_nonce r)}"
    using rows(2) by force
  finally have "n = card {k. \<exists>r. ss_rows st k = Some r \<and> zero_nonce (sv_nonce r)}" .
  moreover have "map_option sv_updated (ss_rows st' k) = Some (sql_now env)" if "ss_rows st k = Some r" "zero_nonce (sv_nonce r)" for k r
    using row [OF that(1)] that(2) by auto
  ultimately show ?thesis using get left by blast
qed

section \<open>Refreshing\<close>

lemma map_of_overlay:
  "distinct (map fst rs) \<Longrightarrow> map_of (fold (\<lambda>(k, v) acc. if v = JNull then acc else put_field k v acc) rs fs) k
    = (case map_of rs k of Some v \<Rightarrow> if v = JNull then map_of fs k else Some v | None \<Rightarrow> map_of fs k)"
proof (induction rs arbitrary: fs)
  case (Cons kv rs)
  obtain a v where kv: "kv = (a, v)" by fastforce
  have "map_of rs a = None" using Cons.prems kv by (simp add: map_of_eq_None_iff)
  then show ?case using Cons kv by (auto split: option.split)
qed simp

lemma map_of_without: "map_of (filter (\<lambda>(k, v). k \<noteq> a \<and> k \<noteq> b) fs) k = (if k = a \<or> k = b then None else map_of fs k)"
  by (induction fs) auto

text \<open>After a refresh every field is the one of the answer where the answer has it and it is not null, and else
  the stored one, but for the lifetime of the old token when there is a new one. So the refresh token and what
  identifies the account survive a provider that does not repeat them.\<close>

theorem refresh_keeps_what_is_not_sent:
  assumes "distinct (map fst rs)"
  shows "json_index k (merge_refresh_response (JObj fs) (JObj rs))
    = (if json_index k (JObj rs) \<noteq> JNull then json_index k (JObj rs)
       else if map_of rs (lit ''access_token'') \<noteq> None \<and> (k = lit ''expires_at'' \<or> k = lit ''expires_in'') then JNull
       else json_index k (JObj fs))"
proof -
  define kept where "kept = (if map_of rs (lit ''access_token'') \<noteq> None
      then filter (\<lambda>(k, v). k \<noteq> lit ''expires_at'' \<and> k \<noteq> lit ''expires_in'') fs else fs)"
  have m: "merge_refresh_response (JObj fs) (JObj rs)
      = JObj (fold (\<lambda>(k, v) acc. if v = JNull then acc else put_field k v acc) rs kept)"
    unfolding merge_refresh_response_def json.case Let_def kept_def ..
  have k: "map_of kept k = (if map_of rs (lit ''access_token'') \<noteq> None \<and> (k = lit ''expires_at'' \<or> k = lit ''expires_in'')
      then None else map_of fs k)"
    unfolding kept_def by (simp only: map_of_without split: if_split) blast
  define P where "P \<longleftrightarrow> map_of rs (lit ''access_token'') \<noteq> None \<and> (k = lit ''expires_at'' \<or> k = lit ''expires_in'')"
  show ?thesis unfolding m json_index_def json.case map_of_overlay [OF assms] k P_def [symmetric]
    by (cases P; cases "map_of rs k"; cases "map_of fs k") simp_all
qed

section \<open>Accounts\<close>

text \<open>C27: The program never guesses between accounts: a token that is not the one of the account asked for is the
  one of the only named account, when none was asked for, or of the default account when it is the only one.\<close>

theorem accounts_are_not_guessed:
  assumes "load_oauth_json_with_instance env i inst d = (d', Some (v, n))"
  shows "\<exists>d1. load_oauth_json_exact env i n d1 = (d', Some v)
    \<and> (n = inst
       \<or> inst = None \<and> (\<exists>a. n = Some a \<and> List.map_filter (\<lambda>x. x) (list_oauth_instances env i d1) = [a])
       \<or> inst \<noteq> None \<and> n = None \<and> list_oauth_instances env i d1 = [None])"
proof -
  obtain d1 ex where ex: "load_oauth_json_exact env i inst d = (d1, ex)" by fastforce
  show ?thesis
  proof (cases "ex \<noteq> None \<and> (inst \<noteq> None \<or> oauth_json_is_recoverable env (the ex))")
    case True
    then show ?thesis using assms ex by (intro exI [of _ d]) (auto simp: load_oauth_json_with_instance_def)
  next
    case False
    have "\<exists>n'. load_oauth_json_exact env i n' d1 = (d', Some v) \<and> n' = n
        \<and> (inst = None \<and> (\<exists>a. n = Some a \<and> List.map_filter (\<lambda>x. x) (list_oauth_instances env i d1) = [a])
           \<or> inst \<noteq> None \<and> n = None \<and> list_oauth_instances env i d1 = [None])"
      using assms ex False
      by (auto simp: load_oauth_json_with_instance_def Let_def split: if_splits prod.splits list.splits)
    then show ?thesis by blast
  qed
qed

section \<open>Generations\<close>

definition gen_of :: "json \<Rightarrow> nat" where
  "gen_of v = (case as_u64 (json_index GEN_FIELD v) of Some g \<Rightarrow> g | None \<Rightarrow> 0)"

definition refresh_of :: "json \<Rightarrow> rstr option" where
  "refresh_of v = as_str (json_index (lit ''refresh_token'') v)"

lemma read_after_bump:
  "side_writable env \<Longrightarrow> read_oauth_gen_highwater k (bump_oauth_gen_highwater env k' g disk)
    = (if k = k' then max g (read_oauth_gen_highwater k disk) else read_oauth_gen_highwater k disk)"
  by (auto simp: bump_oauth_gen_highwater_def read_oauth_gen_highwater_def)

lemma gens_other [simp]:
  "cd_gens (remove_token_file env k disk) = cd_gens disk" "cd_gens (clear_connection_tombstone env k disk) = cd_gens disk"
  "cd_gens (record_connection_tombstone env k disk) = cd_gens disk"
  by (simp_all add: remove_token_file_def clear_connection_tombstone_def record_connection_tombstone_def)

lemma on_disk_simps [simp]: "cn_disk (on_disk f d) = f (cn_disk d)" "cn_store (on_disk f d) = cn_store d"
  by (simp_all add: on_disk_def)

lemma load_exact_gens: "load_oauth_json_exact env i inst d = (d', v) \<Longrightarrow> cd_gens (cn_disk d') = cd_gens (cn_disk d)"
  by (auto simp: load_oauth_json_exact_def Let_def split: option.splits prod.splits sum.splits)

lemma store_token_gens: "store_token env k v d = (d', r) \<Longrightarrow> cd_gens (cn_disk d') = cd_gens (cn_disk d)"
  by (auto simp: store_token_def split: option.splits prod.splits sum.splits if_splits)

text \<open>What a successful write leaves.\<close>

lemma token_written:
  assumes "good_conn_env env" "side_writable env" "token_readable env (make_key i inst)"
    "write_oauth_token_instance env i inst data d = (d', Inr u)"
  defines "p \<equiv> snd (load_oauth_json_exact env i inst d)"
  defines "g \<equiv> next_refresh_gen (refresh_of data) (Option.bind p refresh_of)
      (case p of Some v \<Rightarrow> gen_of v | None \<Rightarrow> 0) (read_oauth_gen_highwater (make_key i inst) (cn_disk d))"
  obtains v where "load_oauth_json_exact env i inst d' = (d', Some v)" "refresh_of v = refresh_of data"
    "json_index GEN_FIELD v = JInt (int g)"
    "read_oauth_gen_highwater (make_key i inst) (cn_disk d') = max g (read_oauth_gen_highwater (make_key i inst) (cn_disk d))"
proof -
  obtain stored where st: "with_times env data = Some stored"
    using assms(4) by (cases "with_times env data") (auto simp: write_oauth_token_instance_def Let_def)
  have names: "lit ''expires_at'' \<noteq> lit ''refresh_token''" "lit ''last_refreshed_at'' \<noteq> lit ''refresh_token''" "GEN_FIELD \<noteq> lit ''refresh_token''"
    by code_simp+
  have rs: "refresh_of stored = refresh_of data"
    using st names by (auto simp: with_times_def refresh_of_def bind_eq_Some_conv json_index_put split: option.splits)
  obtain d1 where l: "load_oauth_json_exact env i inst d = (d1, p)" unfolding p_def by (metis prod.collapse)
  have hw: "read_oauth_gen_highwater (make_key i inst) (cn_disk d1) = read_oauth_gen_highwater (make_key i inst) (cn_disk d)"
    using load_exact_gens [OF l] by (simp add: read_oauth_gen_highwater_def)
  have pg: "(case Option.bind p (\<lambda>v. as_u64 (json_index GEN_FIELD v)) of Some g \<Rightarrow> g | None \<Rightarrow> 0) = (case p of Some v \<Rightarrow> gen_of v | None \<Rightarrow> 0)"
    by (simp add: gen_of_def split: option.split)
  have g: "next_refresh_gen (as_str (json_index (lit ''refresh_token'') stored)) (Option.bind p (\<lambda>v. as_str (json_index (lit ''refresh_token'') v)))
      (case Option.bind p (\<lambda>v. as_u64 (json_index GEN_FIELD v)) of Some g \<Rightarrow> g | None \<Rightarrow> 0)
      (read_oauth_gen_highwater (make_key i inst) (cn_disk d1)) = g"
    unfolding g_def pg hw rs [symmetric] by (simp add: refresh_of_def [abs_def])
  obtain v where v: "json_put GEN_FIELD (JInt (int g)) stored = Some v"
    "store_token env (make_key i inst) v (on_disk (bump_oauth_gen_highwater env (make_key i inst) g) d1) = (d', Inr u)"
    using assms(4) st l g by (auto simp: write_oauth_token_instance_def Let_def split: option.splits)
  have fields: "refresh_of v = refresh_of data" "json_index GEN_FIELD v = JInt (int g)"
    using json_index_put [OF v(1)] names rs by (simp_all add: refresh_of_def)
  have "read_oauth_gen_highwater (make_key i inst) (cn_disk d') = max g (read_oauth_gen_highwater (make_key i inst) (cn_disk d))"
    using store_token_gens [OF v(2)] read_after_bump [OF assms(2)] hw by (simp add: read_oauth_gen_highwater_def)
  moreover have "load_oauth_json_exact env i inst d' = (d', Some v)"
  proof (cases "cn_store d1")
    case None
    then have "cd_tokens (cn_disk d') (make_key i inst) = Some (Some v, utc_now (ce_sync env))" "cn_store d' = None"
      using v(2) by (auto simp: store_token_def clear_connection_tombstone_def split: if_splits)
    then show ?thesis using assms(3) by (simp add: load_oauth_json_exact_def token_file_def)
  next
    case (Some s)
    then obtain s' where "cn_store d' = Some s'" "set_json env (oauth_key (make_key i inst)) v s = (s', Inr u)"
      using v(2) by (auto simp: store_token_def split: prod.splits sum.splits)
    then show ?thesis using set_get_json(1) [OF assms(1)] by (simp add: load_oauth_json_exact_def)
  qed
  ultimately show ?thesis using fields that by blast
qed

text \<open>What may happen to a connection between two writes, in any order: other writes, a disconnection, a token of
  another device that is accepted, and a store that answers differently (a key that is gone, a restored copy).\<close>

datatype token_op = Written json | Disconnected | Accepted nat | StoreChanged "secret_store option"

definition token_step :: "rstr \<Rightarrow> rstr option \<Rightarrow> conn_env \<times> token_op \<Rightarrow> conn_device \<Rightarrow> conn_device" where
  "token_step i inst = (\<lambda>(env, op) d.
     (case op of
        Written data \<Rightarrow> fst (write_oauth_token_instance env i inst data d)
      | Disconnected \<Rightarrow> fst (delete_oauth_token_instance env i inst d)
      | Accepted g \<Rightarrow> on_disk (bump_oauth_gen_highwater env (make_key i inst) g) d
      | StoreChanged st \<Rightarrow> d\<lparr>cn_store := st\<rparr>))"

lemma bump_rises: "read_oauth_gen_highwater k disk \<le> read_oauth_gen_highwater k (bump_oauth_gen_highwater env k' g disk)"
  by (auto simp: bump_oauth_gen_highwater_def read_oauth_gen_highwater_def)

lemma token_step_rises:
  "read_oauth_gen_highwater k (cn_disk d) \<le> read_oauth_gen_highwater k (cn_disk (token_step i inst eo d))"
proof -
  obtain env op where eo: "eo = (env, op)" by fastforce
  have w: "read_oauth_gen_highwater k (cn_disk d) \<le> read_oauth_gen_highwater k (cn_disk (fst (write_oauth_token_instance env i inst data d)))" for data
  proof -
    obtain d1 p where l: "load_oauth_json_exact env i inst d = (d1, p)" by fastforce
    have h: "read_oauth_gen_highwater k (cn_disk d1) = read_oauth_gen_highwater k (cn_disk d)"
      using load_exact_gens [OF l] by (simp add: read_oauth_gen_highwater_def)
    have s: "read_oauth_gen_highwater k (cn_disk (fst (store_token env k' v d2))) = read_oauth_gen_highwater k (cn_disk d2)" for k' v d2
      using store_token_gens [of env k' v d2] by (cases "store_token env k' v d2") (simp add: read_oauth_gen_highwater_def)
    have "read_oauth_gen_highwater k (cn_disk d) \<le> read_oauth_gen_highwater k (bump_oauth_gen_highwater env k' g (cn_disk d1))" for k' g
      unfolding h [symmetric] by (rule bump_rises)
    then show ?thesis using h s l
      by (simp add: write_oauth_token_instance_def Let_def split: option.split)
  qed
  have "cd_gens (cn_disk (fst (delete_oauth_token_instance env i inst d))) = cd_gens (cn_disk d)"
    by (simp add: delete_oauth_token_instance_def Let_def split: option.split)
  then show ?thesis using w bump_rises by (cases op) (simp_all add: eo token_step_def read_oauth_gen_highwater_def)
qed

lemma token_steps_rise:
  "read_oauth_gen_highwater k (cn_disk d) \<le> read_oauth_gen_highwater k (cn_disk (fold (token_step i inst) ops d))"
  by (induction ops arbitrary: d) (auto intro: order_trans token_step_rises)

text \<open>C9: A refresh token that replaces another, or the first one after a reconnection, gets a generation above every
  one this device issued or accepted for the connection before, whatever happened in between, also when the old
  token could not be read; so in every merge its row wins against the earlier rows, whatever the clocks of the
  devices say.\<close>

theorem reconnection_outgenerates:
  assumes "good_conn_env env" "side_writable env" "token_readable env (make_key i inst)"
    "good_conn_env env'" "side_writable env'" "token_readable env' (make_key i inst)"
    "write_oauth_token_instance env i inst data d = (d1, Inr u)"
    "write_oauth_token_instance env' i inst data' d2 = (d3, Inr u')" "d2 = fold (token_step i inst) ops d1"
    "refresh_of data' \<noteq> None" "Option.bind (snd (load_oauth_json_exact env' i inst d2)) refresh_of \<noteq> refresh_of data'"
    "max (case snd (load_oauth_json_exact env' i inst d2) of Some v \<Rightarrow> gen_of v | None \<Rightarrow> 0)
       (read_oauth_gen_highwater (make_key i inst) (cn_disk d2)) < U64_MAX"
  shows "\<exists>v v'. load_oauth_json_exact env i inst d1 = (d1, Some v) \<and> load_oauth_json_exact env' i inst d3 = (d3, Some v')
    \<and> gen_of v < gen_of v'
    \<and> (\<forall>sync me t me' t'. remote_is_newer sync (make_oauth_record (make_key i inst) v me t) (make_oauth_record (make_key i inst) v' me' t')
        \<and> \<not> remote_is_newer sync (make_oauth_record (make_key i inst) v' me' t') (make_oauth_record (make_key i inst) v me t))"
proof -
  let ?k = "make_key i inst"
  let ?p' = "snd (load_oauth_json_exact env' i inst d2)"
  obtain v g where v: "load_oauth_json_exact env i inst d1 = (d1, Some v)" "json_index GEN_FIELD v = JInt (int g)"
    "g \<le> read_oauth_gen_highwater ?k (cn_disk d1)"
    using token_written [OF assms(1-3,7)] by (metis max.cobounded1)
  obtain v' g' where v': "load_oauth_json_exact env' i inst d3 = (d3, Some v')" "json_index GEN_FIELD v' = JInt (int g')"
    "g' = next_refresh_gen (refresh_of data') (Option.bind ?p' refresh_of) (case ?p' of Some v \<Rightarrow> gen_of v | None \<Rightarrow> 0)
       (read_oauth_gen_highwater ?k (cn_disk d2))"
    using token_written [OF assms(4-6,8)] by metis
  have "g' = max (case ?p' of Some v \<Rightarrow> gen_of v | None \<Rightarrow> 0) (read_oauth_gen_highwater ?k (cn_disk d2)) + 1"
    using v'(3) assms(10-12) by (auto simp: next_refresh_gen_def split: option.splits)
  then have g: "read_oauth_gen_highwater ?k (cn_disk d2) < g'" "g' \<le> U64_MAX" using assms(12) by linarith+
  moreover have "read_oauth_gen_highwater ?k (cn_disk d1) \<le> read_oauth_gen_highwater ?k (cn_disk d2)"
    using token_steps_rise assms(9) by simp
  ultimately have gg: "g < g'" "g' < 2 ^ 64" "g < 2 ^ 64" using v(3) by (simp_all add: U64_MAX_def)
  have gens: "gen_of v = g" "gen_of v' = g'"
    using v(2) v'(2) gg(2,3) by (simp_all add: gen_of_def as_u64_def)
  then have "remote_is_newer sync (make_oauth_record ?k v me t) (make_oauth_record ?k v' me' t')
      \<and> \<not> remote_is_newer sync (make_oauth_record ?k v' me' t') (make_oauth_record ?k v me t)" for sync me t me' t'
    using gg(1) by (simp add: remote_is_newer_def make_oauth_record_def gen_of_def)
  then show ?thesis using v(1) v'(1) gens gg(1) by auto
qed

section \<open>A device without the store of secrets\<close>

definition small_device :: "conn_device \<Rightarrow> bool" where
  "small_device d \<longleftrightarrow> finite (dom (load_store (cn_disk d))) \<and> finite (dom (cd_tokens (cn_disk d))) \<and> finite (dom (cd_tombs (cn_disk d)))"

lemma file_only_manifest:
  "cn_store d = None \<Longrightarrow> entries (build_connections_manifest env me d) = file_rows env me (cn_disk d) ++ token_row env me d"
  by (simp add: build_connections_manifest_def with_tombstones_def Let_def)

lemma manifest_small:
  assumes "cn_store d = None" "small_device d"
  shows "small (build_connections_manifest env me d)"
proof -
  have "dom (file_rows env me (cn_disk d)) = dom (load_store (cn_disk d))" by (auto simp: file_rows_def)
  moreover have "dom (token_row env me d) \<subseteq> dom (cd_tokens (cn_disk d))"
    by (auto simp: token_row_def token_file_def split: if_splits option.splits)
  ultimately have "finite (dom (entries (build_connections_manifest env me d)))"
    using assms finite_subset by (auto simp: file_only_manifest small_device_def)
  moreover have "dom (tombstones (build_connections_manifest env me d)) \<subseteq> dom (cd_tombs (cn_disk d))"
    by (auto simp: build_connections_manifest_def with_tombstones_def Let_def split: if_splits)
  ultimately show ?thesis using assms(2) finite_subset by (auto simp: small_def small_device_def)
qed

lemma applied_other:
  assumes "cn_store (ap_device p) = None"
  shows "cn_store (ap_device (apply_connection_action env m a p)) = None
    \<and> (key \<noteq> action_name a \<longrightarrow>
       cd_tokens (cn_disk (ap_device (apply_connection_action env m a p))) key = cd_tokens (cn_disk (ap_device p)) key)"
  using assms
  by (cases a) (auto simp: apply_connection_action_def accept_oauth_def accept_manual_def on_store_def drop_token_file_def
      write_token_file_def edit_file_def bump_gen_def complain_def remove_token_file_def bump_oauth_gen_highwater_def Let_def
      split: option.split)

lemma oauth_import_lost:
  assumes "cn_store (ap_device p) = None" "token_removable env key" "a = Imported key \<or> a = Updated key"
    "entries m key = Some c" "is_oauth c" "oauth_token c = Some v"
  shows "cd_tokens (cn_disk (ap_device (apply_connection_action env m a p))) key = None"
  using assms
  by (auto simp: apply_connection_action_def accept_oauth_def on_store_def drop_token_file_def
      write_token_file_def edit_file_def bump_gen_def complain_def remove_token_file_def bump_oauth_gen_highwater_def Let_def)

lemma applied_all:
  assumes "cn_store (ap_device p) = None" "token_removable env key" "a = Imported key \<or> a = Updated key" "a \<in> set acts"
    "distinct (map action_name acts)" "entries m key = Some c" "is_oauth c" "oauth_token c = Some v"
  shows "cn_store (ap_device (fold (apply_connection_action env m) acts p)) = None
    \<and> cd_tokens (cn_disk (ap_device (fold (apply_connection_action env m) acts p))) key = None"
proof -
  have frame: "cn_store (ap_device (fold (apply_connection_action env m) as q)) = None
      \<and> (key \<notin> action_name ` set as \<longrightarrow>
         cd_tokens (cn_disk (ap_device (fold (apply_connection_action env m) as q))) key = cd_tokens (cn_disk (ap_device q)) key)"
    if "cn_store (ap_device q) = None" for as q
    using that
  proof (induction as arbitrary: q)
    case (Cons b as)
    note o = applied_other [OF Cons.prems, of env m b key]
    show ?case using Cons.IH [OF conjunct1 [OF o]] o by auto
  qed simp
  obtain xs ys where acts: "acts = xs @ a # ys" using assms(4) by (meson split_list)
  have name: "action_name a = key" using assms(3) by auto
  let ?q = "fold (apply_connection_action env m) xs p"
  have q: "cn_store (ap_device ?q) = None" using frame [OF assms(1)] by blast
  have r: "cn_store (ap_device (apply_connection_action env m a ?q)) = None" using applied_other [OF q] by blast
  have "key \<notin> action_name ` set ys" using assms(5) name unfolding acts by auto
  then show ?thesis
    using frame [OF r, of ys] oauth_import_lost [OF q assms(2,3,6-8)] unfolding acts by simp
qed

lemma write_back_keeps:
  "cd_tokens (cn_disk (fst (write_back env p))) = cd_tokens (cn_disk (ap_device p)) \<and> cn_store (fst (write_back env p)) = cn_store (ap_device p)"
  by (simp add: write_back_def save_store_def)

lemma connection_cycle:
  assumes "good_conn_env env" "cn_store d = None" "small_device d" "small cloud" "tidy cloud"
    "run_background_connections_sync env me (Some cloud) d = (d', merged, acts, errs)"
  shows "merge_connections (ce_sync env) (build_connections_manifest env me d) cloud me = (merged, acts)"
    and "distinct (map action_name acts)"
    and "\<exists>es. apply_connections_manifest env merged acts d = (d', es)
      \<or> (\<exists>d1. apply_connections_manifest env merged acts d = (d1, es) \<and> d' = on_disk (clear_connection_tombstones env acts) d1)"
proof -
  obtain m as where m: "merge_connections (ce_sync env) (build_connections_manifest env me d) cloud me = (m, as)" by fastforce
  obtain d1 es where a: "apply_connections_manifest env m as d = (d1, es)" by fastforce
  have r: "merged = m" "acts = as" "d' = d1 \<or> d' = on_disk (clear_connection_tombstones env acts) d1"
    using assms(6) m a by (auto simp: run_background_connections_sync_def Let_def split: if_splits)
  show "merge_connections (ce_sync env) (build_connections_manifest env me d) cloud me = (merged, acts)" using m r by simp
  have en: "enumerates (ce_sync env)" using assms(1) by (simp add: good_conn_env_def)
  note sm = manifest_small [OF assms(2,3), of env me]
  have "map action_name acts = all_names (ce_sync env) (build_connections_manifest env me d) cloud"
    using merged_effects(1) [OF en sm assms(4,5)] m r(2) by (simp add: merge_connections_def)
  then show "distinct (map action_name acts)" using all_names_set(1) [OF en sm assms(4)] by simp
  show "\<exists>es. apply_connections_manifest env merged acts d = (d', es)
      \<or> (\<exists>d1. apply_connections_manifest env merged acts d = (d1, es) \<and> d' = on_disk (clear_connection_tombstones env acts) d1)"
    using a r by blast
qed


text \<open>On such a device every write of one connection makes all its manual connections look edited now, since they
  share the time of one file: an edit of another connection on another device, made before that moment, is not
  taken over but replaced in the cloud by the old credentials.\<close>

theorem one_write_restamps_all:
  assumes "good_conn_env env" "\<forall>t. rfc3339_of (ce_sync env) (date_text env t) = Some t"
    "cn_store d = None" "small_device d" "small cloud" "tidy cloud"
    "connect_instance env known i inst creds d = (d1, Inr u)"
    "load_store (cn_disk d) k = Some c" "k \<noteq> make_key i inst" "cd_tokens (cn_disk d) k = None"
    "entries cloud k = Some r" "\<not> is_oauth r" "parse_rfc3339 (ce_sync env) (conn_modified r) < utc_now (ce_sync env)"
    "run_background_connections_sync env me (Some cloud) d1 = (d2, merged, acts, errs)"
  shows "entries merged k = Some (make_connection_record k c me (date_text env (utc_now (ce_sync env)))) \<and> Skipped k \<in> set acts"
proof -
  let ?row = "make_connection_record k c me (date_text env (utc_now (ce_sync env)))"
  let ?l = "build_connections_manifest env me d1"
  have d1: "cn_store d1 = None" "cd_file_time (cn_disk d1) = Some (utc_now (ce_sync env))"
    "load_store (cn_disk d1) = (load_store (cn_disk d))(make_key i inst \<mapsto> \<lparr>sc_enabled = True, sc_credentials = creds\<rparr>)"
    "cd_tokens (cn_disk d1) = cd_tokens (cn_disk d)" "dom (cd_tombs (cn_disk d1)) \<subseteq> dom (cd_tombs (cn_disk d))"
    using assms(3,7)
    by (auto simp: connect_instance_def save_connection_def save_store_def load_store_def clear_connection_tombstone_def
        split: if_splits)
  have small1: "small_device d1" using assms(4) d1 finite_subset by (auto simp: small_device_def)
  have "token_row env me d1 k = None" using assms(10) d1(4) by (simp add: token_row_def token_file_def)
  then have l: "entries ?l k = Some ?row"
    using file_only_manifest [OF d1(1), of env me] d1(2,3) assms(8,9)
    by (simp add: map_add_def file_rows_def source_timestamp_def)
  have en: "enumerates (ce_sync env)" using assms(1) by (simp add: good_conn_env_def)
  note sm = manifest_small [OF d1(1) small1, of env me]
  note m = connection_cycle(1) [OF assms(1) d1(1) small1 assms(5,6,14), unfolded merge_connections_def]
  have t: "parse_rfc3339 (ce_sync env) (conn_modified ?row) = utc_now (ce_sync env)" "\<not> is_oauth ?row"
    using assms(2) by (simp_all add: parse_rfc3339_def make_connection_record_def)
  have n: "\<not> remote_is_newer (ce_sync env) ?row r" using t assms(12,13) by (simp add: remote_is_newer_def)
  have f: "fate_of ?l k = Live ?row" "fate_of cloud k = Live r" using l assms(11) by simp_all
  have "fate_of merged k = Live ?row"
    using merge_fates [OF en sm assms(5,6), of "remote_is_newer (ce_sync env)" conn_modified me k] m n f by (simp del: fate_live_iff)
  moreover have "Skipped k \<in> set acts"
  proof -
    have "k \<in> set (all_names (ce_sync env) ?l cloud)" using all_names_set(2) [OF en sm assms(5)] l by simp
    then show ?thesis
      using merge_actions [OF en sm assms(5,6), of "remote_is_newer (ce_sync env)" conn_modified me] m n f
      by (force simp del: fate_live_iff)
  qed
  ultimately show ?thesis by simp
qed

end
