(* ===== verification/ConnectionWitnesses.thy ===== *)
theory ConnectionWitnesses
  imports ConnectionProperties PipeFileProperties
begin

text \<open>
  The properties of connections at concrete devices: a JSON writer with its reader, a cipher that puts the nonce in
  front, and a clock that writes a time as one code.
\<close>

section \<open>A JSON codec\<close>

definition int_codes :: "int \<Rightarrow> nat list" where
  "int_codes i = [if i < 0 then 1 else 0, nat \<bar>i\<bar>]"

definition codes_int :: "nat \<Rightarrow> nat \<Rightarrow> int" where
  "codes_int sg n = (if sg = 1 then - int n else int n)"

fun json_codes :: "json \<Rightarrow> rstr" where
  "json_codes JNull = [0]"
| "json_codes (JBool b) = [1, if b then 1 else 0]"
| "json_codes (JInt i) = 2 # int_codes i"
| "json_codes (JReal q) = 3 # int_codes (fst (quotient_of q)) @ int_codes (snd (quotient_of q))"
| "json_codes (JStr s) = 4 # length s # s"
| "json_codes (JArr vs) = 5 # length vs # concat (map json_codes vs)"
| "json_codes (JObj fs) = 6 # length fs # concat (map (\<lambda>(k, v). length k # k @ json_codes v) fs)"

fun several :: "nat \<Rightarrow> (rstr \<Rightarrow> ('a \<times> rstr) option) \<Rightarrow> rstr \<Rightarrow> ('a list \<times> rstr) option" where
  "several 0 f s = Some ([], s)"
| "several (Suc n) f s =
     (case f s of None \<Rightarrow> None
      | Some (x, r) \<Rightarrow> (case several n f r of None \<Rightarrow> None | Some (xs, r') \<Rightarrow> Some (x # xs, r')))"

definition decode_field :: "(rstr \<Rightarrow> (json \<times> rstr) option) \<Rightarrow> rstr \<Rightarrow> ((rstr \<times> json) \<times> rstr) option" where
  "decode_field f s =
     (case s of [] \<Rightarrow> None
      | l # r \<Rightarrow> (case f (drop l r) of None \<Rightarrow> None | Some (v, r') \<Rightarrow> Some ((take l r, v), r')))"

primrec decode_json :: "nat \<Rightarrow> rstr \<Rightarrow> (json \<times> rstr) option" where
  "decode_json 0 s = None"
| "decode_json (Suc n) s =
     (case s of
        0 # r \<Rightarrow> Some (JNull, r)
      | Suc 0 # b # r \<Rightarrow> Some (JBool (b = 1), r)
      | t # a # r \<Rightarrow>
          if t = 2 then (case r of b # r' \<Rightarrow> Some (JInt (codes_int a b), r') | [] \<Rightarrow> None)
          else if t = 3 then (case r of b # c # d # r' \<Rightarrow> Some (JReal (of_int (codes_int a b) / of_int (codes_int c d)), r') | _ \<Rightarrow> None)
          else if t = 4 then Some (JStr (take a r), drop a r)
          else if t = 5 then map_option (\<lambda>(vs, r'). (JArr vs, r')) (several a (decode_json n) r)
          else map_option (\<lambda>(fs, r'). (JObj fs, r')) (several a (decode_field (decode_json n)) r)
      | _ \<Rightarrow> None)"

lemma codes_int_codes: "codes_int (if i < 0 then 1 else 0) (nat \<bar>i\<bar>) = i"
  by (simp add: codes_int_def)

lemma several_codes:
  "(\<And>x r. x \<in> set xs \<Longrightarrow> f (g x @ r) = Some (x, r)) \<Longrightarrow> several (length xs) f (concat (map g xs) @ r) = Some (xs, r)"
  by (induction xs) simp_all

lemma member_length: "x \<in> set xs \<Longrightarrow> length (g x) \<le> length (concat (map g xs))"
  by (induction xs) auto

lemma decode_codes: "length (json_codes v) \<le> n \<Longrightarrow> decode_json n (json_codes v @ r) = Some (v, r)"
proof (induction v arbitrary: n r rule: json_codes.induct)
  case (4 q)
  then obtain m where n: "n = Suc m" by (cases n) (auto simp: int_codes_def)
  have "q = of_int (fst (quotient_of q)) / of_int (snd (quotient_of q))" using quotient_of_div [of q] by (metis prod.collapse)
  then show ?case by (simp add: n int_codes_def codes_int_codes)
next
  case (6 vs)
  then obtain m where n: "n = Suc m" by (cases n) auto
  have "several (length vs) (decode_json m) (concat (map json_codes vs) @ r) = Some (vs, r)"
  proof (rule several_codes)
    fix x r assume x: "x \<in> set vs"
    then have "length (json_codes x) \<le> m" using member_length [OF x, of json_codes] 6(2) n by simp
    then show "decode_json m (json_codes x @ r) = Some (x, r)" by (rule 6(1) [OF x])
  qed
  then show ?case by (simp add: n)
next
  case (7 fs)
  then obtain m where n: "n = Suc m" by (cases n) auto
  let ?g = "\<lambda>(k, v). length k # k @ json_codes v"
  have "several (length fs) (decode_field (decode_json m)) (concat (map ?g fs) @ r) = Some (fs, r)"
  proof (rule several_codes)
    fix x r assume x: "x \<in> set fs"
    obtain k v where kv: "x = (k, v)" by fastforce
    have "length (json_codes v) \<le> m" using member_length [OF x, of ?g] 7(2) n kv by simp
    then have "decode_json m (json_codes v @ r) = Some (v, r)" using 7(1) x kv by blast
    then show "decode_field (decode_json m) (?g x @ r) = Some (x, r)" by (simp add: kv decode_field_def)
  qed
  then show ?case by (simp add: n)
qed (case_tac n; simp add: int_codes_def codes_int_codes; fail)+

section \<open>A program\<close>

definition sample_conn_env :: "timestamp \<Rightarrow> conn_env" where
  "sample_conn_env now =
     \<lparr>ce_sync = fe_sync (sample_file_env now), date_text = sample_time_text, sql_now = sample_time_text now,
      seal = (\<lambda>k n p. Some (n @ p)), unseal = (\<lambda>k n c. Some (drop (length n) c)), random_nonce = (\<lambda>_. replicate 12 1),
      base64 = (\<lambda>b. 66 # b), unbase64 = (\<lambda>b. Some (tl b)),
      json_text = json_codes, json_read = (\<lambda>s. map_option fst (decode_json (length s) s)),
      sql_ok = (\<lambda>_. True), list_ok = True, dir_listable = True, token_readable = (\<lambda>_. True), token_writable = (\<lambda>_. True),
      token_removable = (\<lambda>_. True), conns_writable = True, side_writable = True, unix_now = 100\<rparr>"

lemma sample_conn_good: "good_conn_env (sample_conn_env now)"
proof -
  have "decode_json (length (json_codes v)) (json_codes v) = Some (v, [])" for v
    using decode_codes [of v "length (json_codes v)" "[]"] by simp
  moreover have "enumerates (fe_sync (sample_file_env now))" by (simp add: enumerates_def sample_file_env_def)
  ultimately show ?thesis by (simp add: good_conn_env_def sample_conn_env_def zero_nonce_def eval_nat_numeral)
qed

lemma sample_conn_fields [simp]:
  "side_writable (sample_conn_env now)" "conns_writable (sample_conn_env now)" "dir_listable (sample_conn_env now)"
  "token_readable (sample_conn_env now) k" "token_writable (sample_conn_env now) k" "token_removable (sample_conn_env now) k"
  "ce_sync (sample_conn_env now) = fe_sync (sample_file_env now)" "date_text (sample_conn_env now) = sample_time_text"
  by (simp_all add: sample_conn_env_def)

lemma sample_times [simp]: "parse_rfc3339 (fe_sync (sample_file_env now)) (sample_time_text t) = t"
  by (simp add: parse_rfc3339_def sample_text_time_def sample_time_text_def)

lemma sample_sync_enumerates: "enumerates (fe_sync (sample_file_env now))"
  using sample_conn_good [of now] by (simp add: good_conn_env_def)

definition sample_token :: "nat \<Rightarrow> json" where
  "sample_token n = JObj [(lit ''refresh_token'', JStr [n]), (GEN_FIELD, JInt (int n))]"

definition token_at :: "nat \<Rightarrow> timestamp \<Rightarrow> synced_connection" where
  "token_at n t = make_oauth_record (lit ''g'') (sample_token n) (lit ''b'') (sample_time_text t)"

definition bare_device :: conn_device where
  "bare_device = \<lparr>cn_disk = \<lparr>cd_file = None, cd_file_time = None, cd_tokens = Map.empty, cd_tombs = Map.empty, cd_gens = Map.empty\<rparr>,
     cn_store = None\<rparr>"

lemma only_ok: "small (only_row env k v)" "tidy (only_row env k v)" "tombstones (only_row env k v) = Map.empty" "entries (only_row env k v) = [k \<mapsto> v]"
  by (simp_all add: only_row_def small_def tidy_def empty_manifest_def)

lemma token_at_fields: "oauth_rev (token_at (Suc 0) t) = 1" "oauth_rev (token_at 2 t) = 2" "is_oauth (token_at n t)" "conn_modified (token_at n t) = sample_time_text t"
proof -
  have "json_index GEN_FIELD (sample_token n) = JInt (int n)" for n
    unfolding sample_token_def by (subgoal_tac "GEN_FIELD \<noteq> lit ''refresh_token''") (simp add: json_index_def, code_simp)
  then show "oauth_rev (token_at (Suc 0) t) = 1" "oauth_rev (token_at 2 t) = 2" by (simp_all add: token_at_def make_oauth_record_def as_u64_def)
  show "is_oauth (token_at n t)" "conn_modified (token_at n t) = sample_time_text t" by (simp_all add: token_at_def make_oauth_record_def)
qed

lemma newest_rotation_wins_witness:
  "\<exists>v. entries (merge_all (remote_is_newer (fe_sync (sample_file_env 50))) conn_modified (fe_sync (sample_file_env 50)) (lit ''a'')
       (only_row (fe_sync (sample_file_env 50)) (lit ''g'') (token_at 2 5)) [only_row (fe_sync (sample_file_env 50)) (lit ''g'') (token_at 1 9)])
       (lit ''g'') = Some v \<and> 2 \<le> oauth_rev v"
proof -
  let ?e = "fe_sync (sample_file_env 50)"
  have "\<forall>m \<in> set (only_row ?e (lit ''g'') (token_at 2 5) # [only_row ?e (lit ''g'') (token_at 1 9)]). small m \<and> tidy m \<and> tombstones m (lit ''g'') = None"
    "\<forall>m \<in> set (only_row ?e (lit ''g'') (token_at 2 5) # [only_row ?e (lit ''g'') (token_at 1 9)]). \<forall>v. entries m (lit ''g'') = Some v \<longrightarrow> sound_row v"
    "only_row ?e (lit ''g'') (token_at 2 5) \<in> set (only_row ?e (lit ''g'') (token_at 2 5) # [only_row ?e (lit ''g'') (token_at 1 9)])"
    "entries (only_row ?e (lit ''g'') (token_at 2 5)) (lit ''g'') \<noteq> None"
    by (simp_all add: only_ok sound_row_def token_at_fields)
  from newest_rotation_wins [OF sample_sync_enumerates this, where me = "lit ''a''"] show ?thesis
    by (auto simp: only_ok token_at_fields)
qed

lemma deletion_breaks_rotation_order_witness:
  "entries (merge_all (remote_is_newer (fe_sync (sample_file_env 50))) conn_modified (fe_sync (sample_file_env 50)) (lit ''a'')
     (only_row (fe_sync (sample_file_env 50)) (lit ''g'') (token_at 2 5))
     [only_tomb (fe_sync (sample_file_env 50)) (lit ''g'') (sample_time_text 7), only_row (fe_sync (sample_file_env 50)) (lit ''g'') (token_at 1 9)])
     (lit ''g'') = Some (token_at 1 9)
   \<and> entries (merge_all (remote_is_newer (fe_sync (sample_file_env 50))) conn_modified (fe_sync (sample_file_env 50)) (lit ''a'')
     (only_row (fe_sync (sample_file_env 50)) (lit ''g'') (token_at 2 5))
     [only_row (fe_sync (sample_file_env 50)) (lit ''g'') (token_at 1 9), only_tomb (fe_sync (sample_file_env 50)) (lit ''g'') (sample_time_text 7)])
     (lit ''g'') = None"
proof -
  have "fresh (fe_sync (sample_file_env 50)) (sample_time_text 7)"
    by (simp add: fresh_def sample_text_time_def sample_time_text_def num_days_def hours_def TOMBSTONE_TTL_DAYS_def)
  note broken = deletion_breaks_rotation_order [OF sample_sync_enumerates token_at_fields(3) _ this,
      where w = "token_at 1 9" and k = "lit ''g''" and me = "lit ''a''"]
  show ?thesis by (rule broken) (simp_all add: token_at_fields)
qed

lemma secret_read_back_witness:
  "get_json (sample_conn_env 5) (lit ''k'') (fst (set_json (sample_conn_env 5) (lit ''k'') (JStr (lit ''s'')) \<lparr>ss_rows = Map.empty, ss_key = Some (lit ''key'')\<rparr>))
    = Inr (Some (JStr (lit ''s'')))"
proof -
  obtain st' where s: "set_json (sample_conn_env 5) (lit ''k'') (JStr (lit ''s'')) \<lparr>ss_rows = Map.empty, ss_key = Some (lit ''key'')\<rparr> = (st', Inr ())"
    by (simp add: set_json_def secret_set_def encrypt_def Let_def write_row_def sample_conn_env_def)
  from secret_read_back [OF sample_conn_good s] show ?thesis unfolding s by simp
qed

lemma encryption_keeps_secrets_witness:
  "let st = \<lparr>ss_rows = [lit ''k'' \<mapsto> \<lparr>sv_value = [66, 7], sv_nonce = ZERO_NONCE, sv_updated = []\<rparr>], ss_key = None\<rparr>;
       st' = fst (reencrypt_unencrypted_secrets (sample_conn_env 5) (lit ''key'') st)
   in secret_get (sample_conn_env 5) (lit ''k'') (st'\<lparr>ss_key := Some (lit ''key'')\<rparr>)
      = secret_get (sample_conn_env 5) (lit ''k'') (st\<lparr>ss_key := Some (lit ''key'')\<rparr>)"
proof -
  let ?st = "\<lparr>ss_rows = [lit ''k'' \<mapsto> \<lparr>sv_value = [66, 7], sv_nonce = ZERO_NONCE, sv_updated = []\<rparr>], ss_key = None\<rparr>"
  have "keys_of (fe_sync (sample_file_env 5)) (\<lambda>k. ss_rows ?st k \<noteq> None) = [lit ''k'']"
    by (simp add: sample_file_env_def)
  then have "all_rows (sample_conn_env 5) ?st = [(lit ''k'', \<lparr>sv_value = [66, 7], sv_nonce = ZERO_NONCE, sv_updated = []\<rparr>)]"
    by (simp add: all_rows_def)
  then obtain st' where r: "reencrypt_unencrypted_secrets (sample_conn_env 5) (lit ''key'') ?st = (st', Inr 1)"
    by (simp add: reencrypt_unencrypted_secrets_def encrypt_def Let_def write_row_def sample_conn_env_def)
  have "finite (dom (ss_rows ?st))" by simp
  from encryption_keeps_secrets [OF sample_conn_good this r] show ?thesis unfolding Let_def r by simp
qed

lemma refresh_keeps_what_is_not_sent_witness:
  "json_index (lit ''refresh_token'') (merge_refresh_response
     (JObj [(lit ''refresh_token'', JStr (lit ''r'')), (lit ''expires_at'', JInt 5)]) (JObj [(lit ''access_token'', JStr (lit ''a''))]))
   = JStr (lit ''r'')"
proof -
  have "distinct (map fst [(lit ''access_token'', JStr (lit ''a''))])" by simp
  note r = refresh_keeps_what_is_not_sent [OF this, of "lit ''refresh_token''" "[(lit ''refresh_token'', JStr (lit ''r'')), (lit ''expires_at'', JInt 5)]"]
  have "lit ''refresh_token'' \<noteq> lit ''access_token''" "lit ''refresh_token'' \<noteq> lit ''expires_at''" "lit ''refresh_token'' \<noteq> lit ''expires_in''"
    by code_simp+
  then show ?thesis unfolding r by (simp add: json_index_def)
qed

definition named_device :: conn_device where
  "named_device = on_disk (\<lambda>disk. disk\<lparr>cd_tokens := [lit ''g:a'' \<mapsto> (Some (sample_token 1), 3)]\<rparr>) bare_device"

lemma accounts_are_not_guessed_witness:
  "\<exists>v n. snd (load_oauth_json_with_instance (sample_conn_env 5) (lit ''g'') None named_device) = Some (v, n) \<and> n = Some (lit ''a'')"
proof -
  let ?e = "sample_conn_env 5"
  have keys: "keys_of (ce_sync ?e) (\<lambda>k. cd_tokens (cn_disk named_device) k \<noteq> None) = [lit ''g:a'']"
    by (simp add: sample_file_env_def named_device_def)
  have names: "make_key (lit ''g'') None \<noteq> lit ''g:a''" "make_key (lit ''g'') (Some (lit ''a'')) = lit ''g:a''"
    "instance_of (lit ''g'') (lit ''g:a'') = [Some (lit ''a'')]" by code_simp+
  have n: "cn_store named_device = None" by (simp add: named_device_def bare_device_def)
  have l: "list_oauth_instances ?e (lit ''g'') named_device = [Some (lit ''a'')]"
    unfolding list_oauth_instances_def n keys by (simp add: names)
  have x: "load_oauth_json_exact ?e (lit ''g'') None named_device = (named_device, None)"
    "load_oauth_json_exact ?e (lit ''g'') (Some (lit ''a'')) named_device = (named_device, Some (sample_token 1))"
    using names by (simp_all add: load_oauth_json_exact_def n token_file_def) (simp_all add: named_device_def bare_device_def)
  have w: "load_oauth_json_with_instance ?e (lit ''g'') None named_device = (named_device, Some (sample_token 1, Some (lit ''a'')))"
    by (simp add: load_oauth_json_with_instance_def x l List.map_filter_simps)
  from accounts_are_not_guessed [OF w] show ?thesis unfolding w by auto
qed

lemma bare_fields [simp]:
  "cn_store bare_device = None" "cd_tokens (cn_disk bare_device) = Map.empty" "cd_tombs (cn_disk bare_device) = Map.empty"
  "cd_gens (cn_disk bare_device) = Map.empty" "cd_file (cn_disk bare_device) = None" "load_store (cn_disk bare_device) = Map.empty"
  by (simp_all add: bare_device_def load_store_def)

lemma sample_write:
  "cn_store d = None \<Longrightarrow> \<exists>d1. write_oauth_token_instance (sample_conn_env now) i inst (JObj fs) d = (d1, Inr ()) \<and> cn_store d1 = None"
  by (auto simp: write_oauth_token_instance_def with_times_def json_put_def store_token_def load_oauth_json_exact_def Let_def
      split: option.split)

lemma sample_delete:
  "cn_store d = None \<Longrightarrow> cn_store (fst (delete_oauth_token_instance (sample_conn_env now) i inst d)) = None
    \<and> cd_tokens (cn_disk (fst (delete_oauth_token_instance (sample_conn_env now) i inst d))) (make_key i inst) = None
    \<and> cd_gens (cn_disk (fst (delete_oauth_token_instance (sample_conn_env now) i inst d))) = cd_gens (cn_disk d)"
  by (auto simp: delete_oauth_token_instance_def remove_token_file_def record_connection_tombstone_def Let_def)

lemma reconnection_outgenerates_witness:
  "\<exists>d1 d3 v v'. write_oauth_token_instance (sample_conn_env 5) (lit ''g'') None (JObj [(lit ''refresh_token'', JStr [1])]) bare_device = (d1, Inr ())
     \<and> write_oauth_token_instance (sample_conn_env 5) (lit ''g'') None (JObj [(lit ''refresh_token'', JStr [2])])
         (token_step (lit ''g'') None (sample_conn_env 5, Disconnected) d1) = (d3, Inr ())
     \<and> load_oauth_json_exact (sample_conn_env 5) (lit ''g'') None d1 = (d1, Some v)
     \<and> load_oauth_json_exact (sample_conn_env 5) (lit ''g'') None d3 = (d3, Some v') \<and> gen_of v < gen_of v'"
proof -
  let ?e = "sample_conn_env 5" and ?i = "lit ''g''"
  let ?data = "\<lambda>n :: nat. JObj [(lit ''refresh_token'', JStr [n])]"
  have env: "side_writable ?e" "token_readable ?e (make_key ?i None)" by simp_all
  obtain d1 where w: "write_oauth_token_instance ?e ?i None (?data 1) bare_device = (d1, Inr ())" "cn_store d1 = None"
    using sample_write by (metis bare_fields(1))
  let ?d2 = "token_step ?i None (?e, Disconnected) d1"
  have d2: "cn_store ?d2 = None" "cd_tokens (cn_disk ?d2) (make_key ?i None) = None" "cd_gens (cn_disk ?d2) = cd_gens (cn_disk d1)"
    using sample_delete [OF w(2), of 5 ?i None] by (simp_all add: token_step_def)
  obtain d3 where w': "write_oauth_token_instance ?e ?i None (?data 2) ?d2 = (d3, Inr ())"
    using sample_write [OF d2(1)] by metis
  have none: "snd (load_oauth_json_exact ?e ?i None d) = None" if "cn_store d = None" "cd_tokens (cn_disk d) (make_key ?i None) = None" for d
    using that by (simp add: load_oauth_json_exact_def token_file_def)
  have "read_oauth_gen_highwater (make_key ?i None) (cn_disk d1) \<le> 1"
    by (rule token_written [OF sample_conn_good env w(1)])
      (simp add: none next_refresh_gen_def read_oauth_gen_highwater_def split: option.split)
  then have h: "read_oauth_gen_highwater (make_key ?i None) (cn_disk ?d2) < U64_MAX"
    by (simp add: read_oauth_gen_highwater_def d2(3) U64_MAX_def)
  have "?d2 = fold (token_step ?i None) [(?e, Disconnected)] d1" "refresh_of (?data 2) \<noteq> None"
    "Option.bind (snd (load_oauth_json_exact ?e ?i None ?d2)) refresh_of \<noteq> refresh_of (?data 2)"
    "max (case snd (load_oauth_json_exact ?e ?i None ?d2) of Some v \<Rightarrow> gen_of v | None \<Rightarrow> 0)
       (read_oauth_gen_highwater (make_key ?i None) (cn_disk ?d2)) < U64_MAX"
    using none [OF d2(1,2)] h by (simp_all add: refresh_of_def json_index_def as_str_def)
  from reconnection_outgenerates [OF sample_conn_good env sample_conn_good env w(1) w' this] show ?thesis
    using w(1) w' by auto
qed

lemma bare_small: "small_device bare_device"
  by (simp add: small_device_def)


lemma one_write_restamps_all_witness:
  "let d = on_disk (\<lambda>disk. disk\<lparr>cd_file := Some [lit ''k'' \<mapsto> \<lparr>sc_enabled = True, sc_credentials = []\<rparr>]\<rparr>) bare_device;
       r = make_connection_record (lit ''k'') \<lparr>sc_enabled = True, sc_credentials = [(lit ''new'', JNull)]\<rparr> (lit ''b'') (sample_time_text 5);
       d1 = fst (connect_instance (sample_conn_env 50) (\<lambda>_. True) (lit ''g'') None [] d)
   in entries (fst (snd (run_background_connections_sync (sample_conn_env 50) (lit ''a'')
        (Some (only_row (fe_sync (sample_file_env 50)) (lit ''k'') r)) d1))) (lit ''k'')
      = Some (make_connection_record (lit ''k'') \<lparr>sc_enabled = True, sc_credentials = []\<rparr> (lit ''a'') (sample_time_text 50))"
proof -
  let ?e = "sample_conn_env 50" and ?s = "fe_sync (sample_file_env 50)"
  let ?c = "\<lparr>sc_enabled = True, sc_credentials = []\<rparr>"
  let ?d = "on_disk (\<lambda>disk. disk\<lparr>cd_file := Some [lit ''k'' \<mapsto> ?c]\<rparr>) bare_device"
  let ?r = "make_connection_record (lit ''k'') \<lparr>sc_enabled = True, sc_credentials = [(lit ''new'', JNull)]\<rparr> (lit ''b'') (sample_time_text 5)"
  let ?cloud = "only_row ?s (lit ''k'') ?r"
  have now: "utc_now ?s = 50" by (simp add: sample_file_env_def)
  have dates: "\<forall>t. rfc3339_of (ce_sync ?e) (date_text ?e t) = Some t"
    by (simp add: sample_text_time_def sample_time_text_def)
  have d: "cn_store ?d = None" "small_device ?d" "load_store (cn_disk ?d) (lit ''k'') = Some ?c" "cd_tokens (cn_disk ?d) (lit ''k'') = None"
    by (simp_all add: small_device_def load_store_def)
  obtain d1 where w: "connect_instance ?e (\<lambda>_. True) (lit ''g'') None [] ?d = (d1, Inr ())"
    by (simp add: connect_instance_def save_connection_def save_store_def)
  obtain d2 merged acts errs where run: "run_background_connections_sync ?e (lit ''a'') (Some ?cloud) d1 = (d2, merged, acts, errs)"
    by (metis prod_cases4)
  have k: "lit ''k'' \<noteq> make_key (lit ''g'') None" by code_simp
  have c: "entries ?cloud (lit ''k'') = Some ?r" "\<not> is_oauth ?r" "parse_rfc3339 (ce_sync ?e) (conn_modified ?r) < utc_now (ce_sync ?e)"
    using now by (simp_all add: only_ok make_connection_record_def)
  from one_write_restamps_all [OF sample_conn_good dates d(1,2) only_ok(1,2) w d(3) k d(4) c run] show ?thesis
    unfolding Let_def w run by (simp add: w run now)
qed

end
