(* ===== verification/SqlTables.thy ===== *)
theory SqlTables
  imports RustTime
begin

text \<open>
  Tables of the database and the statements the write queue runs on them (\<open>screenpipe-db/src/write_queue.rs\<close>,
  \<open>sqlite_error.rs\<close>). A row is a map from the names of its columns, a table is the list of its
  rows with their numbers, which only rise (\<open>AUTOINCREMENT\<close>). Whether a statement fails is an argument: \<open>fails n\<close> is the error of the \<open>n\<close>-th statement of a
  write, and a statement that fails changes nothing.
\<close>

section \<open>Values, rows and tables\<close>

datatype sqlv = SNull | SInt int | SReal rat | SText rstr

type_synonym sql_row = "string \<rightharpoonup> sqlv"

record sql_table =
  t_rows :: "(int \<times> sql_row) list"
  t_next :: int

type_synonym sql_db = "string \<Rightarrow> sql_table"

definition col :: "sql_row \<Rightarrow> string \<Rightarrow> sqlv" where
  "col r c = (case r c of Some v \<Rightarrow> v | None \<Rightarrow> SNull)"

definition opt_int :: "int option \<Rightarrow> sqlv" where "opt_int x = (case x of Some i \<Rightarrow> SInt i | None \<Rightarrow> SNull)"
definition opt_text :: "rstr option \<Rightarrow> sqlv" where "opt_text x = (case x of Some s \<Rightarrow> SText s | None \<Rightarrow> SNull)"
definition opt_real :: "rat option \<Rightarrow> sqlv" where "opt_real x = (case x of Some q \<Rightarrow> SReal q | None \<Rightarrow> SNull)"
definition sql_bool :: "bool \<Rightarrow> sqlv" where "sql_bool b = SInt (if b then 1 else 0)"

text \<open>Texts compare by their bytes, and numbers come before texts; a comparison with null is not true.\<close>

fun sql_le :: "sqlv \<Rightarrow> sqlv \<Rightarrow> bool" where
  "sql_le (SText a) (SText b) = str_le a b"
| "sql_le (SInt a) (SInt b) = (a \<le> b)"
| "sql_le (SInt a) (SReal b) = (of_int a \<le> b)"
| "sql_le (SReal a) (SInt b) = (a \<le> of_int b)"
| "sql_le (SReal a) (SReal b) = (a \<le> b)"
| "sql_le SNull _ = False"
| "sql_le _ SNull = False"
| "sql_le (SText a) _ = False"
| "sql_le _ (SText b) = True"

text \<open>Columns with a default that the statements do not name
  (\<open>migrations/20260520180000_audio_chunk_processing_status.sql\<close>).\<close>

definition schema_defaults :: "string \<Rightarrow> (string \<times> sqlv) list" where
  "schema_defaults t =
     (if t = ''audio_chunks'' then [(''transcription_status'', SText (lit ''pending'')), (''transcription_attempts'', SInt 0)] else [])"

definition insert_row :: "string \<Rightarrow> (string \<times> sqlv) list \<Rightarrow> sql_db \<Rightarrow> sql_db \<times> int" where
  "insert_row t cols db =
     (let tab = db t; i = t_next tab
      in (db(t := \<lparr>t_rows = t_rows tab @ [(i, map_of (cols @ schema_defaults t))], t_next = i + 1\<rparr>), i))"

definition update_rows :: "string \<Rightarrow> (int \<Rightarrow> sql_row \<Rightarrow> bool) \<Rightarrow> (int \<Rightarrow> sql_row \<Rightarrow> sql_row) \<Rightarrow> sql_db \<Rightarrow> sql_db" where
  "update_rows t p f db =
     db(t := (db t)\<lparr>t_rows := map (\<lambda>(i, r). (i, if p i r then f i r else r)) (t_rows (db t))\<rparr>)"

definition delete_rows :: "string \<Rightarrow> (int \<Rightarrow> sql_row \<Rightarrow> bool) \<Rightarrow> sql_db \<Rightarrow> sql_db" where
  "delete_rows t p db =
     db(t := (db t)\<lparr>t_rows := filter (\<lambda>(i, r). \<not> p i r) (t_rows (db t))\<rparr>)"

section \<open>Errors\<close>

datatype db_error =
  IoFailed | PoolClosed | PoolTimedOut | WorkerCrashed | DatabaseFailed rstr | ProtocolFailed rstr | OtherFailed rstr

definition is_fatal_sqlite_message :: "rstr \<Rightarrow> bool" where
  "is_fatal_sqlite_message msg \<longleftrightarrow>
     contains_str msg (lit ''disk i/o error'') \<or> contains_str msg (lit ''malformed'') \<or> contains_str msg (lit ''not a database'')"

definition is_sqlite_connection_error :: "(rstr \<Rightarrow> rstr) \<Rightarrow> db_error \<Rightarrow> bool" where
  "is_sqlite_connection_error low e =
     (case e of
        IoFailed \<Rightarrow> True
      | PoolClosed \<Rightarrow> True
      | PoolTimedOut \<Rightarrow> True
      | DatabaseFailed msg \<Rightarrow> is_fatal_sqlite_message (low msg)
      | ProtocolFailed msg \<Rightarrow> is_fatal_sqlite_message (low msg)
      | _ \<Rightarrow> False)"

definition database_message_has :: "(rstr \<Rightarrow> rstr) \<Rightarrow> db_error \<Rightarrow> string \<Rightarrow> bool" where
  "database_message_has low e s = (case e of DatabaseFailed msg \<Rightarrow> contains_str (low msg) (lit s) | _ \<Rightarrow> False)"

definition is_sqlite_cantopen_error :: "(rstr \<Rightarrow> rstr) \<Rightarrow> db_error \<Rightarrow> bool" where
  "is_sqlite_cantopen_error low e = database_message_has low e ''unable to open database file''"

definition should_recycle_sqlite_connection :: "(rstr \<Rightarrow> rstr) \<Rightarrow> db_error \<Rightarrow> bool" where
  "should_recycle_sqlite_connection low e \<longleftrightarrow> is_sqlite_connection_error low e \<or> is_sqlite_cantopen_error low e"

definition is_sqlite_busy_error :: "(rstr \<Rightarrow> rstr) \<Rightarrow> db_error \<Rightarrow> bool" where
  "is_sqlite_busy_error low e \<longleftrightarrow>
     database_message_has low e ''database is locked'' \<or> database_message_has low e ''database table is locked''
     \<or> database_message_has low e ''busy''"

definition is_nested_transaction_error :: "(rstr \<Rightarrow> rstr) \<Rightarrow> db_error \<Rightarrow> bool" where
  "is_nested_transaction_error low e = database_message_has low e ''cannot start a transaction within a transaction''"

section \<open>Statements\<close>

text \<open>The state of a write is the database with the number of statements it has run.\<close>

type_synonym 'a sql = "sql_db \<times> nat \<Rightarrow> (sql_db \<times> nat) \<times> (db_error + 'a)"

definition stmt :: "(nat \<Rightarrow> db_error option) \<Rightarrow> (sql_db \<Rightarrow> sql_db \<times> 'a) \<Rightarrow> 'a sql" where
  "stmt fails f = (\<lambda>(db, n).
     (case fails n of
        Some e \<Rightarrow> ((db, n + 1), Inl e)
      | None \<Rightarrow> (let (db', x) = f db in ((db', n + 1), Inr x))))"

definition ret :: "'a \<Rightarrow> 'a sql" where "ret x = (\<lambda>st. (st, Inr x))"

definition followed :: "'a sql \<Rightarrow> ('a \<Rightarrow> 'b sql) \<Rightarrow> 'b sql" where
  "followed m k = (\<lambda>st. case m st of (st', Inr x) \<Rightarrow> k x st' | (st', Inl e) \<Rightarrow> (st', Inl e))"

definition insert_stmt :: "(nat \<Rightarrow> db_error option) \<Rightarrow> string \<Rightarrow> (string \<times> sqlv) list \<Rightarrow> int sql" where
  "insert_stmt fails t cols = stmt fails (insert_row t cols)"

definition update_stmt ::
  "(nat \<Rightarrow> db_error option) \<Rightarrow> string \<Rightarrow> (int \<Rightarrow> sql_row \<Rightarrow> bool) \<Rightarrow> (int \<Rightarrow> sql_row \<Rightarrow> sql_row) \<Rightarrow> unit sql" where
  "update_stmt fails t p f = stmt fails (\<lambda>db. (update_rows t p f db, ()))"

definition delete_stmt :: "(nat \<Rightarrow> db_error option) \<Rightarrow> string \<Rightarrow> (int \<Rightarrow> sql_row \<Rightarrow> bool) \<Rightarrow> unit sql" where
  "delete_stmt fails t p = stmt fails (\<lambda>db. (delete_rows t p db, ()))"

text \<open>A loop of statements that stops at the first error.\<close>

fun for_each :: "('a \<Rightarrow> 'b sql) \<Rightarrow> 'a list \<Rightarrow> 'b list sql" where
  "for_each f [] = ret []"
| "for_each f (x # xs) = followed (f x) (\<lambda>y. followed (for_each f xs) (\<lambda>ys. ret (y # ys)))"

end
