(* ===== verification/ElementRows.thy ===== *)
theory ElementRows
  imports SqlTables Json
begin

text \<open>
  The rows of the elements of a frame (\<open>screenpipe-db/src/db.rs\<close>): OCR blocks with their page, block, paragraph and
  line, and accessibility nodes in depth-first order, each row naming its parent. The derived readers of the
  JSON texts and \<open>parse::<f64>\<close> are fields of \<open>element_env\<close>; every error of these functions is swallowed.
\<close>

record ocr_block =
  ob_level :: rstr
  ob_page :: rstr
  ob_block :: rstr
  ob_par :: rstr
  ob_line :: rstr
  ob_left :: rstr
  ob_top :: rstr
  ob_width :: rstr
  ob_height :: rstr
  ob_conf :: rstr
  ob_text :: rstr

record element_node =
  ax_role :: rstr
  ax_text :: rstr
  ax_depth :: nat
  ax_bounds :: "(f64 \<times> f64 \<times> f64 \<times> f64) option"
  ax_on_screen :: "bool option"
  ax_texts :: "string \<rightharpoonup> rstr"
  ax_flags :: "string \<rightharpoonup> bool"

record element_env =
  read_ocr :: "rstr \<Rightarrow> ocr_block list option"
  read_ax :: "rstr \<Rightarrow> element_node list option"
  parse_f64 :: "rstr \<Rightarrow> f64 option"
  properties_text :: "json \<Rightarrow> rstr"

definition parse_i64 :: "rstr \<Rightarrow> int option" where
  "parse_i64 s =
     (case s of
        [] \<Rightarrow> None
      | c # ds \<Rightarrow>
          if c = 45 then (if ds = [] \<or> hd ds = 43 then None else map_option (\<lambda>n. - int n) (parse_uint (2 ^ 63) ds))
          else map_option int (parse_uint (2 ^ 63 - 1) s))"

definition i64_or_0 :: "rstr \<Rightarrow> int" where "i64_or_0 s = (case parse_i64 s of Some i \<Rightarrow> i | None \<Rightarrow> 0)"

fun fold_sql :: "('a \<Rightarrow> 's \<Rightarrow> 's sql) \<Rightarrow> 'a list \<Rightarrow> 's \<Rightarrow> 's sql" where
  "fold_sql f [] s = ret s"
| "fold_sql f (x # xs) s = followed (f x s) (fold_sql f xs)"

definition swallow :: "'a sql \<Rightarrow> unit sql" where "swallow m = (\<lambda>st. (fst (m st), Inr ()))"

section \<open>OCR\<close>

definition BULK_CHUNK :: nat where "BULK_CHUNK = 80"

record level0_row =
  l0_text :: rstr
  l0_bounds :: "f64 option \<times> f64 option \<times> f64 option \<times> f64 option"
  l0_conf :: "f64 option"
  l0_sort :: int

record ocr_walk =
  ow_buf :: "level0_row list"
  ow_pages :: "int \<rightharpoonup> int"
  ow_blocks :: "int \<times> int \<rightharpoonup> int"
  ow_pars :: "int \<times> int \<times> int \<rightharpoonup> int"
  ow_lines :: "int \<times> int \<times> int \<times> int \<rightharpoonup> int"
  ow_sort :: int

definition bounds_cols :: "f64 option \<times> f64 option \<times> f64 option \<times> f64 option \<Rightarrow> (string \<times> sqlv) list" where
  "bounds_cols = (\<lambda>(l, t, w, h).
     [(''left_bound'', opt_real l), (''top_bound'', opt_real t), (''width_bound'', opt_real w), (''height_bound'', opt_real h)])"

definition level0_cols :: "int \<Rightarrow> level0_row \<Rightarrow> (string \<times> sqlv) list" where
  "level0_cols frame_id r =
     [(''frame_id'', SInt frame_id), (''source'', SText (lit ''ocr'')), (''role'', SText (lit ''block'')),
      (''text'', SText (l0_text r)), (''parent_id'', SNull), (''depth'', SInt 0)] @ bounds_cols (l0_bounds r)
      @ [(''confidence'', opt_real (l0_conf r)), (''sort_order'', SInt (l0_sort r))]"

definition flush_level0_bulk :: "(nat \<Rightarrow> db_error option) \<Rightarrow> int \<Rightarrow> level0_row list \<Rightarrow> unit sql" where
  "flush_level0_bulk fails frame_id chunk =
     (if chunk = [] then ret ()
      else stmt fails (\<lambda>db. (fold (\<lambda>r db. fst (insert_row ''elements'' (level0_cols frame_id r) db)) chunk db, ())))"

definition flush_buffer :: "(nat \<Rightarrow> db_error option) \<Rightarrow> int \<Rightarrow> ocr_walk \<Rightarrow> ocr_walk sql" where
  "flush_buffer fails frame_id w =
     (if ow_buf w = [] then ret w else followed (flush_level0_bulk fails frame_id (ow_buf w)) (\<lambda>_. ret (w\<lparr>ow_buf := []\<rparr>)))"

text \<open>The row of a block with a level: its role, text, parent, depth and confidence, or none when it is skipped.\<close>

definition hier_row ::
  "element_env \<Rightarrow> ocr_walk \<Rightarrow> ocr_block \<Rightarrow> (string \<times> rstr option \<times> int option \<times> int \<times> f64 option) option" where
  "hier_row env w b =
     (let level = i64_or_0 (ob_level b); p = i64_or_0 (ob_page b); bl = i64_or_0 (ob_block b); pa = i64_or_0 (ob_par b);
          ln = i64_or_0 (ob_line b) in
      if level = 1 then (if ow_pages w p \<noteq> None then None else Some (''page'', None, None, 0, None))
      else if level = 2 then (if ow_blocks w (p, bl) \<noteq> None then None else Some (''block'', None, ow_pages w p, 1, None))
      else if level = 3 then (if ow_pars w (p, bl, pa) \<noteq> None then None else Some (''paragraph'', None, ow_blocks w (p, bl), 2, None))
      else if level = 4 then (if ow_lines w (p, bl, pa, ln) \<noteq> None then None else Some (''line'', None, ow_pars w (p, bl, pa), 3, None))
      else if level = 5
      then (if trim (ob_text b) = [] then None
            else Some (''word'', Some (ob_text b), ow_lines w (p, bl, pa, ln), 4, parse_f64 env (ob_conf b)))
      else None)"

definition remember_block :: "ocr_block \<Rightarrow> int \<Rightarrow> ocr_walk \<Rightarrow> ocr_walk" where
  "remember_block b i w =
     (let level = i64_or_0 (ob_level b); p = i64_or_0 (ob_page b); bl = i64_or_0 (ob_block b); pa = i64_or_0 (ob_par b);
          ln = i64_or_0 (ob_line b);
          w' = (if level = 1 then w\<lparr>ow_pages := (ow_pages w)(p \<mapsto> i)\<rparr>
                else if level = 2 then w\<lparr>ow_blocks := (ow_blocks w)((p, bl) \<mapsto> i)\<rparr>
                else if level = 3 then w\<lparr>ow_pars := (ow_pars w)((p, bl, pa) \<mapsto> i)\<rparr>
                else if level = 4 then w\<lparr>ow_lines := (ow_lines w)((p, bl, pa, ln) \<mapsto> i)\<rparr>
                else w)
      in w'\<lparr>ow_sort := ow_sort w + 1\<rparr>)"

definition block_bounds :: "element_env \<Rightarrow> ocr_block \<Rightarrow> f64 option \<times> f64 option \<times> f64 option \<times> f64 option" where
  "block_bounds env b = (parse_f64 env (ob_left b), parse_f64 env (ob_top b), parse_f64 env (ob_width b), parse_f64 env (ob_height b))"

definition ocr_step ::
  "element_env \<Rightarrow> (nat \<Rightarrow> db_error option) \<Rightarrow> int \<Rightarrow> ocr_block \<Rightarrow> ocr_walk \<Rightarrow> ocr_walk sql" where
  "ocr_step env fails frame_id b w =
     (if i64_or_0 (ob_level b) = 0
      then (if trim (ob_text b) = [] then ret w
            else let w' = w\<lparr>ow_buf := ow_buf w @ [\<lparr>l0_text = ob_text b, l0_bounds = block_bounds env b,
                                                   l0_conf = parse_f64 env (ob_conf b), l0_sort = ow_sort w\<rparr>],
                            ow_sort := ow_sort w + 1\<rparr>
                 in if BULK_CHUNK \<le> length (ow_buf w') then flush_buffer fails frame_id w' else ret w')
      else followed (flush_buffer fails frame_id w) (\<lambda>w.
        case hier_row env w b of
          None \<Rightarrow> ret w
        | Some (role, txt, parent, depth, conf) \<Rightarrow>
            followed (insert_stmt fails ''elements''
              ([(''frame_id'', SInt frame_id), (''source'', SText (lit ''ocr'')), (''role'', SText (lit role)),
                (''text'', opt_text txt), (''parent_id'', opt_int parent), (''depth'', SInt depth)]
               @ bounds_cols (block_bounds env b) @ [(''confidence'', opt_real conf), (''sort_order'', SInt (ow_sort w))]))
              (\<lambda>i. ret (remember_block b i w))))"

definition ocr_start :: ocr_walk where
  "ocr_start = \<lparr>ow_buf = [], ow_pages = Map.empty, ow_blocks = Map.empty, ow_pars = Map.empty, ow_lines = Map.empty, ow_sort = 0\<rparr>"

definition insert_ocr_elements :: "element_env \<Rightarrow> (nat \<Rightarrow> db_error option) \<Rightarrow> int \<Rightarrow> rstr \<Rightarrow> unit sql" where
  "insert_ocr_elements env fails frame_id text_json =
     (case read_ocr env text_json of
        None \<Rightarrow> ret ()
      | Some blocks \<Rightarrow>
          swallow (followed (fold_sql (ocr_step env fails frame_id) blocks ocr_start)
            (\<lambda>w. flush_level0_bulk fails frame_id (ow_buf w))))"

section \<open>Accessibility\<close>

definition AX_TEXTS :: "string list" where
  "AX_TEXTS = [''automation_id'', ''class_name'', ''value'', ''help_text'', ''url'', ''placeholder'', ''role_description'', ''subrole'']"

definition AX_FLAGS :: "string list" where
  "AX_FLAGS = [''is_enabled'', ''is_focused'', ''is_selected'', ''is_expanded'', ''is_password'', ''is_keyboard_focusable'']"

definition AX_KEYS :: "string list" where "AX_KEYS = [''accelerator_key'', ''access_key'']"

definition present_texts :: "element_node \<Rightarrow> string list \<Rightarrow> (rstr \<times> json) list" where
  "present_texts node ks = List.map_filter (\<lambda>k. map_option (\<lambda>v. (lit k, JStr v)) (ax_texts node k)) ks"

definition ax_properties :: "element_env \<Rightarrow> element_node \<Rightarrow> rstr option" where
  "ax_properties env node =
     (let props = present_texts node AX_TEXTS
            @ List.map_filter (\<lambda>k. map_option (\<lambda>b. (lit k, JBool b)) (ax_flags node k)) AX_FLAGS
            @ present_texts node AX_KEYS
      in if props = [] then None else Some (properties_text env (JObj props)))"

text \<open>The last entry of the stack is its top.\<close>

definition find_parent :: "nat \<Rightarrow> (nat \<times> int) list \<Rightarrow> int option" where
  "find_parent depth stack =
     (if 0 < depth then map_option snd (find (\<lambda>(d, i). d = depth - 1) (rev stack)) else None)"

definition trim_stack :: "nat \<Rightarrow> (nat \<times> int) list \<Rightarrow> (nat \<times> int) list" where
  "trim_stack depth stack = rev (dropWhile (\<lambda>(d, i). depth \<le> d) (rev stack))"

definition ax_cols :: "element_env \<Rightarrow> int \<Rightarrow> element_node \<Rightarrow> int option \<Rightarrow> int \<Rightarrow> (string \<times> sqlv) list" where
  "ax_cols env frame_id node parent sort_order =
     [(''frame_id'', SInt frame_id), (''source'', SText (lit ''accessibility'')), (''role'', SText (ax_role node)),
      (''text'', if ax_text node = [] then SNull else SText (ax_text node)), (''parent_id'', opt_int parent),
      (''depth'', SInt (int (ax_depth node)))]
     @ bounds_cols (case ax_bounds node of Some (l, t, w, h) \<Rightarrow> (Some l, Some t, Some w, Some h) | None \<Rightarrow> (None, None, None, None))
     @ [(''confidence'', SNull), (''sort_order'', SInt sort_order), (''properties'', opt_text (ax_properties env node)),
        (''on_screen'', case ax_on_screen node of Some b \<Rightarrow> SInt (if b then 1 else 0) | None \<Rightarrow> SNull)]"

definition ax_step ::
  "element_env \<Rightarrow> (nat \<Rightarrow> db_error option) \<Rightarrow> int \<Rightarrow> element_node \<Rightarrow> (nat \<times> int) list \<times> int \<Rightarrow> ((nat \<times> int) list \<times> int) sql" where
  "ax_step env fails frame_id node = (\<lambda>(stack, sort_order).
     followed (insert_stmt fails ''elements'' (ax_cols env frame_id node (find_parent (ax_depth node) stack) sort_order))
       (\<lambda>i. ret (trim_stack (ax_depth node) stack @ [(ax_depth node, i)], sort_order + 1)))"

definition insert_accessibility_elements :: "element_env \<Rightarrow> (nat \<Rightarrow> db_error option) \<Rightarrow> int \<Rightarrow> rstr \<Rightarrow> unit sql" where
  "insert_accessibility_elements env fails frame_id tree_json =
     (case read_ax env tree_json of
        None \<Rightarrow> ret ()
      | Some nodes \<Rightarrow> swallow (fold_sql (ax_step env fails frame_id) nodes ([], 0)))"

end
