(* ===== verification/WriteOps.thy ===== *)
theory WriteOps
  imports ElementRows
begin

text \<open>
  The writes of the queue (\<open>screenpipe-db/src/write_queue.rs\<close>: \<open>WriteOp\<close>, \<open>execute_single_write\<close>): each is a
  sequence of statements, and an error of one ends the write with the statements before it done. The texts of
  times, the derived readers of elements and the effect of a statement given as text are fields of \<open>write_env\<close>.
  The clock is read once per write.
\<close>

record write_env = element_env +
  lowercase :: "rstr \<Rightarrow> rstr"
  sqlx_time :: "timestamp \<Rightarrow> rstr"
  rfc3339_text :: "timestamp \<Rightarrow> rstr"
  run_sql :: "rstr \<Rightarrow> sqlv list \<Rightarrow> sql_db \<Rightarrow> sql_db"

section \<open>Operations\<close>

record transcript_write =
  tw_text :: rstr
  tw_offset :: int
  tw_engine :: rstr
  tw_device :: rstr
  tw_input :: bool
  tw_speaker :: "int option"
  tw_start :: "f64 option"
  tw_end :: "f64 option"
  tw_time :: "timestamp option"

record snapshot_write =
  sw_device :: rstr
  sw_time :: timestamp
  sw_path :: rstr
  sw_app :: "rstr option"
  sw_window :: "rstr option"
  sw_url :: "rstr option"
  sw_document :: "rstr option"
  sw_focused :: bool
  sw_trigger :: "rstr option"
  sw_a11y_text :: "rstr option"
  sw_source :: "rstr option"
  sw_tree :: "rstr option"
  sw_hash :: "int option"
  sw_simhash :: "int option"
  sw_ocr_text :: "rstr option"
  sw_ocr_json :: "rstr option"
  sw_ocr_engine :: "rstr option"
  sw_full_text :: "rstr option"
  sw_elements_ref :: "int option"

record ui_event_write =
  ue_time :: rstr
  ue_session :: "rstr option"
  ue_relative_ms :: int
  ue_type :: rstr
  ue_ints :: "string \<rightharpoonup> int"
  ue_texts :: "string \<rightharpoonup> rstr"
  ue_frame :: "int option"

record batch_window =
  bw_app :: "rstr option"
  bw_window :: "rstr option"
  bw_url :: "rstr option"
  bw_focused :: bool
  bw_text :: rstr
  bw_json :: rstr

datatype sync_table = Frames | AudioTranscriptions | FramesAccessibility | UiEvents

datatype write_op =
  InsertAudioChunk rstr "timestamp option"
| InsertAudioTranscription int transcript_write
| InsertAudioChunkAndTranscription rstr transcript_write int bool
| InsertSnapshotFrameWithOcr snapshot_write
| InsertVideoChunkWithFps rstr rstr f64
| MarkSynced sync_table rstr rstr rstr
| InsertUiEvent ui_event_write
| InsertUiEventsBatch "ui_event_write list"
| UpdateUiEventFrameId int int
| DeleteAudioChunksBatch "int list"
| CompactSnapshots int "(int \<times> int) list"
| ClearSnapshotPaths "int list"
| PipeCreateExecution rstr rstr rstr "rstr option" rstr
| PipeUpdateExecution rstr "sqlv list"
| PipeDeleteOldExecutions int
| SyncInsertFrame rstr rstr rstr int "rstr option" "rstr option" "rstr option" rstr
| SyncInsertOcr int rstr bool rstr "rstr option" rstr
| SyncInsertTranscription rstr rstr rstr rstr rstr bool "int option"
| SyncInsertAccessibility rstr rstr rstr rstr rstr "rstr option" rstr
| SyncInsertUiEvent rstr rstr "(string \<times> sqlv) list"
| InsertDeferredElements int "rstr option" "rstr option"
| InsertFramesBatch int rstr rstr timestamp int rstr "batch_window list"

datatype write_result = Id int | Done | FrameBatch "(int \<times> nat) list" | Ids "int list"

section \<open>Audio\<close>

definition insert_chunk :: "write_env \<Rightarrow> (nat \<Rightarrow> db_error option) \<Rightarrow> rstr \<Rightarrow> timestamp \<Rightarrow> int sql" where
  "insert_chunk env fails file_path ts =
     insert_stmt fails ''audio_chunks'' [(''file_path'', SText file_path), (''timestamp'', SText (sqlx_time env ts))]"

text \<open>The unique index on the chunk and the text.\<close>

definition transcript_exists :: "int \<Rightarrow> rstr \<Rightarrow> sql_db \<Rightarrow> bool" where
  "transcript_exists chunk txt db \<longleftrightarrow>
     list_ex (\<lambda>(i, r). col r ''audio_chunk_id'' = SInt chunk \<and> col r ''transcription'' = SText txt)
       (t_rows (db ''audio_transcriptions''))"

definition transcript_cols :: "write_env \<Rightarrow> int \<Rightarrow> transcript_write \<Rightarrow> timestamp \<Rightarrow> (string \<times> sqlv) list" where
  "transcript_cols env chunk t ts =
     [(''audio_chunk_id'', SInt chunk), (''transcription'', SText (tw_text t)), (''offset_index'', SInt (tw_offset t)),
      (''timestamp'', SText (sqlx_time env ts)), (''transcription_engine'', SText (tw_engine t)), (''device'', SText (tw_device t)),
      (''is_input_device'', sql_bool (tw_input t)), (''speaker_id'', opt_int (tw_speaker t)), (''start_time'', opt_real (tw_start t)),
      (''end_time'', opt_real (tw_end t)), (''text_length'', SInt (int (length (tw_text t))))]"

definition insert_transcript ::
  "write_env \<Rightarrow> (nat \<Rightarrow> db_error option) \<Rightarrow> int \<Rightarrow> transcript_write \<Rightarrow> timestamp \<Rightarrow> int option sql" where
  "insert_transcript env fails chunk t ts =
     stmt fails (\<lambda>db. if transcript_exists chunk (tw_text t) db then (db, None)
                      else let (db', i) = insert_row ''audio_transcriptions'' (transcript_cols env chunk t ts) db in (db', Some i))"

definition mark_chunk :: "write_env \<Rightarrow> (nat \<Rightarrow> db_error option) \<Rightarrow> string \<Rightarrow> timestamp \<Rightarrow> int \<Rightarrow> unit sql" where
  "mark_chunk env fails status ts chunk =
     update_stmt fails ''audio_chunks'' (\<lambda>i r. i = chunk)
       (\<lambda>i r. r(''transcription_status'' \<mapsto> SText (lit status),
                ''transcription_attempts'' \<mapsto> (case col r ''transcription_attempts'' of SInt n \<Rightarrow> SInt (n + 1) | v \<Rightarrow> v),
                ''last_transcription_attempt_at'' \<mapsto> SText (sqlx_time env ts), ''transcription_failure_reason'' \<mapsto> SNull))"

definition chunk_or_new :: "write_env \<Rightarrow> (nat \<Rightarrow> db_error option) \<Rightarrow> int \<Rightarrow> rstr \<Rightarrow> timestamp \<Rightarrow> int sql" where
  "chunk_or_new env fails existing file_path ts = (if existing \<noteq> 0 then ret existing else insert_chunk env fails file_path ts)"

definition write_transcription ::
  "write_env \<Rightarrow> (nat \<Rightarrow> db_error option) \<Rightarrow> timestamp \<Rightarrow> int \<Rightarrow> transcript_write \<Rightarrow> write_result sql" where
  "write_transcription env fails now chunk t =
     (let ts = (case tw_time t of Some x \<Rightarrow> x | None \<Rightarrow> now) in
      followed (insert_transcript env fails chunk t ts) (\<lambda>i.
      followed (mark_chunk env fails ''transcribed'' ts chunk) (\<lambda>_.
      ret (Id (case i of Some j \<Rightarrow> j | None \<Rightarrow> 0)))))"

definition write_chunk_and_transcription ::
  "write_env \<Rightarrow> (nat \<Rightarrow> db_error option) \<Rightarrow> timestamp \<Rightarrow> rstr \<Rightarrow> transcript_write \<Rightarrow> int \<Rightarrow> bool \<Rightarrow> write_result sql" where
  "write_chunk_and_transcription env fails now file_path t existing duplicate =
     (let ts = (case tw_time t of Some x \<Rightarrow> x | None \<Rightarrow> now) in
      followed (chunk_or_new env fails existing file_path ts) (\<lambda>chunk.
        if duplicate then followed (mark_chunk env fails ''transcribed'' ts chunk) (\<lambda>_. ret (Id chunk))
        else if trim (tw_text t) = [] then followed (mark_chunk env fails ''silent'' ts chunk) (\<lambda>_. ret (Id chunk))
        else followed (insert_transcript env fails chunk t ts) (\<lambda>_.
             followed (mark_chunk env fails ''transcribed'' ts chunk) (\<lambda>_. ret (Id chunk)))))"

definition delete_chunk :: "(nat \<Rightarrow> db_error option) \<Rightarrow> int \<Rightarrow> unit sql" where
  "delete_chunk fails i =
     followed (delete_stmt fails ''audio_transcriptions'' (\<lambda>j r. col r ''audio_chunk_id'' = SInt i)) (\<lambda>_.
       delete_stmt fails ''audio_chunks'' (\<lambda>j r. j = i))"

section \<open>Frames\<close>

definition or_blank :: "rstr option \<Rightarrow> rstr" where "or_blank x = (case x of Some s \<Rightarrow> s | None \<Rightarrow> [])"

definition ocr_cols :: "int \<Rightarrow> rstr \<Rightarrow> rstr \<Rightarrow> rstr \<Rightarrow> rstr option \<Rightarrow> rstr option \<Rightarrow> bool \<Rightarrow> (string \<times> sqlv) list" where
  "ocr_cols frame_id txt js engine app window focused =
     [(''frame_id'', SInt frame_id), (''text'', SText txt), (''text_json'', SText js), (''ocr_engine'', SText engine),
      (''text_length'', SInt (int (length txt))), (''app_name'', SText (or_blank app)),
      (''window_name'', opt_text window), (''focused'', sql_bool focused)]"

definition snapshot_cols :: "write_env \<Rightarrow> snapshot_write \<Rightarrow> (string \<times> sqlv) list" where
  "snapshot_cols env s =
     (let path = (if sw_path s = [] then SNull else SText (sw_path s)) in
      [(''video_chunk_id'', SNull), (''offset_index'', SInt 0), (''timestamp'', SText (sqlx_time env (sw_time s))),
       (''name'', path), (''browser_url'', opt_text (sw_url s)), (''app_name'', opt_text (sw_app s)),
       (''window_name'', opt_text (sw_window s)), (''focused'', sql_bool (sw_focused s)), (''device_name'', SText (sw_device s)),
       (''snapshot_path'', path), (''capture_trigger'', opt_text (sw_trigger s)),
       (''accessibility_text'', opt_text (sw_a11y_text s)), (''text_source'', opt_text (sw_source s)),
       (''accessibility_tree_json'', opt_text (sw_tree s)), (''content_hash'', opt_int (sw_hash s)),
       (''simhash'', opt_int (sw_simhash s)), (''full_text'', opt_text (sw_full_text s)),
       (''elements_ref_frame_id'', opt_int (sw_elements_ref s)), (''document_path'', opt_text (sw_document s))])"

definition write_snapshot :: "write_env \<Rightarrow> (nat \<Rightarrow> db_error option) \<Rightarrow> snapshot_write \<Rightarrow> write_result sql" where
  "write_snapshot env fails s =
     followed (insert_stmt fails ''frames'' (snapshot_cols env s)) (\<lambda>i.
       case (sw_ocr_text s, sw_ocr_json s, sw_ocr_engine s) of
         (Some txt, Some js, Some engine) \<Rightarrow>
           followed (insert_stmt fails ''ocr_text'' (ocr_cols i txt js engine (sw_app s) (sw_window s) (sw_focused s))) (\<lambda>_. ret (Id i))
       | _ \<Rightarrow> ret (Id i))"

definition unless_blank :: "(rstr \<Rightarrow> unit sql) \<Rightarrow> rstr option \<Rightarrow> unit sql" where
  "unless_blank f x = (case x of Some s \<Rightarrow> if s = [] then ret () else f s | None \<Rightarrow> ret ())"

definition write_elements ::
  "write_env \<Rightarrow> (nat \<Rightarrow> db_error option) \<Rightarrow> int \<Rightarrow> rstr option \<Rightarrow> rstr option \<Rightarrow> write_result sql" where
  "write_elements env fails frame_id ocr_json tree_json =
     followed (unless_blank (insert_ocr_elements (element_env.truncate env) fails frame_id) ocr_json) (\<lambda>_.
     followed (unless_blank (insert_accessibility_elements (element_env.truncate env) fails frame_id) tree_json) (\<lambda>_.
     ret Done))"

definition write_window ::
  "write_env \<Rightarrow> (nat \<Rightarrow> db_error option) \<Rightarrow> int \<Rightarrow> rstr \<Rightarrow> rstr \<Rightarrow> timestamp \<Rightarrow> int \<Rightarrow> rstr \<Rightarrow> nat \<times> batch_window \<Rightarrow> (int \<times> nat) sql" where
  "write_window env fails chunk file_path device ts offset engine = (\<lambda>(idx, w).
     followed (insert_stmt fails ''frames''
       [(''video_chunk_id'', SInt chunk), (''offset_index'', SInt offset), (''timestamp'', SText (sqlx_time env ts)),
        (''name'', SText file_path), (''browser_url'', opt_text (bw_url w)), (''app_name'', opt_text (bw_app w)),
        (''window_name'', opt_text (bw_window w)), (''focused'', sql_bool (bw_focused w)), (''device_name'', SText device),
        (''full_text'', if bw_text w = [] then SNull else SText (bw_text w))]) (\<lambda>i.
     followed (insert_stmt fails ''ocr_text'' (ocr_cols i (bw_text w) (bw_json w) engine (bw_app w) (bw_window w) (bw_focused w))) (\<lambda>_.
     followed (unless_blank (insert_ocr_elements (element_env.truncate env) fails i) (Some (bw_json w))) (\<lambda>_.
     ret (i, idx)))))"

definition compact_frames :: "(nat \<Rightarrow> db_error option) \<Rightarrow> int \<Rightarrow> (int \<times> int) list \<Rightarrow> write_result sql" where
  "compact_frames fails chunk batch =
     (if batch = [] then ret Done
      else followed (update_stmt fails ''frames''
             (\<lambda>i r. i \<in> fst ` set batch \<and> col r ''snapshot_path'' \<noteq> SNull)
             (\<lambda>i r. r(''video_chunk_id'' \<mapsto> SInt chunk, ''snapshot_path'' \<mapsto> SNull,
                      ''offset_index'' \<mapsto> (case map_of batch i of Some p \<Rightarrow> SInt p | None \<Rightarrow> col r ''offset_index''))))
             (\<lambda>_. ret Done))"

definition clear_paths :: "(nat \<Rightarrow> db_error option) \<Rightarrow> int list \<Rightarrow> write_result sql" where
  "clear_paths fails frame_ids =
     (if frame_ids = [] then ret Done
      else followed (update_stmt fails ''frames'' (\<lambda>i r. i \<in> set frame_ids) (\<lambda>i r. r(''snapshot_path'' \<mapsto> SNull))) (\<lambda>_. ret Done))"

section \<open>Events, executions and synchronised rows\<close>

definition EVENT_INTS :: "string list" where
  "EVENT_INTS = [''x'', ''y'', ''delta_x'', ''delta_y'', ''button'', ''click_count'', ''key_code'', ''modifiers'', ''text_length'', ''app_pid'']"

definition EVENT_TEXTS :: "string list" where
  "EVENT_TEXTS = [''text_content'', ''app_name'', ''window_title'', ''browser_url'', ''element_role'', ''element_name'',
     ''element_value'', ''element_description'', ''element_automation_id'', ''element_bounds'']"

definition event_cols :: "ui_event_write \<Rightarrow> (string \<times> sqlv) list" where
  "event_cols e =
     [(''timestamp'', SText (ue_time e)), (''session_id'', opt_text (ue_session e)), (''relative_ms'', SInt (ue_relative_ms e)),
      (''event_type'', SText (ue_type e)), (''frame_id'', opt_int (ue_frame e))]
     @ map (\<lambda>c. (c, opt_int (ue_ints e c))) EVENT_INTS @ map (\<lambda>c. (c, opt_text (ue_texts e c))) EVENT_TEXTS"

definition insert_ui_event_row :: "(nat \<Rightarrow> db_error option) \<Rightarrow> ui_event_write \<Rightarrow> int sql" where
  "insert_ui_event_row fails e = insert_stmt fails ''ui_events'' (event_cols e)"

definition mark_synced :: "(nat \<Rightarrow> db_error option) \<Rightarrow> sync_table \<Rightarrow> rstr \<Rightarrow> rstr \<Rightarrow> rstr \<Rightarrow> write_result sql" where
  "mark_synced fails table synced_at time_start time_end =
     (let t = (case table of AudioTranscriptions \<Rightarrow> ''audio_transcriptions'' | UiEvents \<Rightarrow> ''ui_events'' | _ \<Rightarrow> ''frames'') in
      followed (update_stmt fails t
        (\<lambda>i r. sql_le (SText time_start) (col r ''timestamp'') \<and> sql_le (col r ''timestamp'') (SText time_end)
               \<and> (table = FramesAccessibility \<longrightarrow> col r ''text_source'' = SText (lit ''accessibility''))
               \<and> col r ''synced_at'' = SNull)
        (\<lambda>i r. r(''synced_at'' \<mapsto> SText synced_at))) (\<lambda>_. ret Done))"

definition newer_executions :: "sql_db \<Rightarrow> int \<Rightarrow> sql_row \<Rightarrow> nat" where
  "newer_executions db i r =
     length (filter (\<lambda>(j, s). i \<le> j \<and> col s ''pipe_name'' = col r ''pipe_name'') (t_rows (db ''pipe_executions'')))"

definition delete_old_executions :: "(nat \<Rightarrow> db_error option) \<Rightarrow> int \<Rightarrow> write_result sql" where
  "delete_old_executions fails keep =
     followed (stmt fails (\<lambda>db. (delete_rows ''pipe_executions'' (\<lambda>i r. \<not> int (newer_executions db i r) \<le> keep) db, ())))
       (\<lambda>_. ret Done)"

definition create_execution ::
  "(nat \<Rightarrow> db_error option) \<Rightarrow> rstr \<Rightarrow> rstr \<Rightarrow> rstr \<Rightarrow> rstr option \<Rightarrow> rstr \<Rightarrow> write_result sql" where
  "create_execution fails pipe trigger model provider started =
     followed (insert_stmt fails ''pipe_executions''
       [(''pipe_name'', SText pipe), (''status'', SText (lit ''queued'')), (''trigger_type'', SText trigger),
        (''model'', SText model), (''provider'', opt_text provider), (''started_at'', SText started)]) (\<lambda>i. ret (Id i))"

text \<open>There is no unique index on \<open>video_chunks\<close>, so the insertion of a synchronised frame never conflicts.\<close>

definition sync_frame ::
  "write_env \<Rightarrow> (nat \<Rightarrow> db_error option) \<Rightarrow> timestamp \<Rightarrow> rstr \<Rightarrow> rstr \<Rightarrow> rstr \<Rightarrow> int \<Rightarrow> rstr option \<Rightarrow> rstr option \<Rightarrow> rstr option
    \<Rightarrow> rstr \<Rightarrow> write_result sql" where
  "sync_frame env fails now sync_id machine ts offset app window url device =
     followed (insert_stmt fails ''video_chunks''
       [(''file_path'', SText (lit ''cloud://'' @ sync_id)), (''device_name'', SText device), (''sync_id'', SText sync_id),
        (''machine_id'', SText machine)]) (\<lambda>chunk.
     followed (insert_stmt fails ''frames''
       [(''video_chunk_id'', SInt chunk), (''offset_index'', SInt offset), (''timestamp'', SText ts), (''app_name'', opt_text app),
        (''window_name'', opt_text window), (''browser_url'', opt_text url), (''device_name'', SText device),
        (''sync_id'', SText sync_id), (''machine_id'', SText machine), (''synced_at'', SText (rfc3339_text env now))]) (\<lambda>i.
     ret (Id i)))"

definition sync_transcription ::
  "write_env \<Rightarrow> (nat \<Rightarrow> db_error option) \<Rightarrow> timestamp \<Rightarrow> rstr \<Rightarrow> rstr \<Rightarrow> rstr \<Rightarrow> rstr \<Rightarrow> rstr \<Rightarrow> bool \<Rightarrow> int option \<Rightarrow> write_result sql" where
  "sync_transcription env fails now sync_id machine ts txt device input speaker =
     followed (insert_stmt fails ''audio_chunks''
       [(''file_path'', SText (lit ''cloud://'' @ sync_id)), (''sync_id'', SText sync_id), (''machine_id'', SText machine)]) (\<lambda>chunk.
     followed (insert_stmt fails ''audio_transcriptions''
       [(''audio_chunk_id'', SInt chunk), (''offset_index'', SInt 0), (''timestamp'', SText ts), (''transcription'', SText txt),
        (''device'', SText device), (''is_input_device'', sql_bool input), (''speaker_id'', opt_int speaker),
        (''sync_id'', SText sync_id), (''synced_at'', SText (rfc3339_text env now))]) (\<lambda>_.
     ret (Id chunk)))"

section \<open>Dispatch\<close>

definition execute_single_write :: "write_env \<Rightarrow> (nat \<Rightarrow> db_error option) \<Rightarrow> timestamp \<Rightarrow> write_op \<Rightarrow> write_result sql" where
  "execute_single_write env fails now op =
     (case op of
        InsertAudioChunk file_path ts \<Rightarrow>
          followed (insert_chunk env fails file_path (case ts of Some t \<Rightarrow> t | None \<Rightarrow> now)) (\<lambda>i. ret (Id i))
      | InsertAudioTranscription chunk t \<Rightarrow> write_transcription env fails now chunk t
      | InsertAudioChunkAndTranscription file_path t existing duplicate \<Rightarrow>
          write_chunk_and_transcription env fails now file_path t existing duplicate
      | InsertSnapshotFrameWithOcr s \<Rightarrow> write_snapshot env fails s
      | InsertVideoChunkWithFps file_path device fps \<Rightarrow>
          followed (insert_stmt fails ''video_chunks''
            [(''file_path'', SText file_path), (''device_name'', SText device), (''fps'', SReal fps)]) (\<lambda>i. ret (Id i))
      | MarkSynced table synced_at time_start time_end \<Rightarrow> mark_synced fails table synced_at time_start time_end
      | InsertUiEvent e \<Rightarrow> followed (insert_ui_event_row fails e) (\<lambda>i. ret (Id i))
      | InsertUiEventsBatch events \<Rightarrow> followed (for_each (insert_ui_event_row fails) events) (\<lambda>is. ret (Ids is))
      | UpdateUiEventFrameId row_id frame_id \<Rightarrow>
          followed (update_stmt fails ''ui_events'' (\<lambda>i r. i = row_id \<and> col r ''frame_id'' = SNull)
            (\<lambda>i r. r(''frame_id'' \<mapsto> SInt frame_id))) (\<lambda>_. ret Done)
      | DeleteAudioChunksBatch chunk_ids \<Rightarrow> followed (for_each (delete_chunk fails) chunk_ids) (\<lambda>_. ret Done)
      | CompactSnapshots chunk batch \<Rightarrow> compact_frames fails chunk batch
      | ClearSnapshotPaths frame_ids \<Rightarrow> clear_paths fails frame_ids
      | PipeCreateExecution pipe trigger model provider started \<Rightarrow> create_execution fails pipe trigger model provider started
      | PipeUpdateExecution sql binds \<Rightarrow> followed (stmt fails (\<lambda>db. (run_sql env sql binds db, ()))) (\<lambda>_. ret Done)
      | PipeDeleteOldExecutions keep \<Rightarrow> delete_old_executions fails keep
      | SyncInsertFrame sync_id machine ts offset app window url device \<Rightarrow>
          sync_frame env fails now sync_id machine ts offset app window url device
      | SyncInsertOcr frame_id txt focused app window sync_id \<Rightarrow>
          followed (insert_stmt fails ''ocr_text''
            [(''frame_id'', SInt frame_id), (''text'', SText txt), (''focused'', sql_bool focused), (''app_name'', SText app),
             (''window_name'', opt_text window), (''sync_id'', SText sync_id), (''synced_at'', SText (rfc3339_text env now))])
            (\<lambda>_. ret (Id frame_id))
      | SyncInsertTranscription sync_id machine ts txt device input speaker \<Rightarrow>
          sync_transcription env fails now sync_id machine ts txt device input speaker
      | SyncInsertAccessibility sync_id machine ts app window url txt \<Rightarrow>
          followed (insert_stmt fails ''frames''
            [(''timestamp'', SText ts), (''app_name'', SText app), (''window_name'', SText window), (''browser_url'', opt_text url),
             (''full_text'', SText txt), (''text_source'', SText (lit ''accessibility'')), (''sync_id'', SText sync_id),
             (''machine_id'', SText machine), (''synced_at'', SText (rfc3339_text env now))]) (\<lambda>i. ret (Id i))
      | SyncInsertUiEvent sync_id machine cols \<Rightarrow>
          followed (insert_stmt fails ''ui_events''
            (cols @ [(''sync_id'', SText sync_id), (''machine_id'', SText machine), (''synced_at'', SText (rfc3339_text env now))]))
            (\<lambda>i. ret (Id i))
      | InsertDeferredElements frame_id ocr_json tree_json \<Rightarrow> write_elements env fails frame_id ocr_json tree_json
      | InsertFramesBatch chunk file_path device ts offset engine windows \<Rightarrow>
          followed (for_each (write_window env fails chunk file_path device ts offset engine) (enumerate 0 windows))
            (\<lambda>rs. ret (FrameBatch rs)))"

end
