(* ===== verification/WriteQueue.thy ===== *)
theory WriteQueue
  imports WriteOps
begin

text \<open>
  The write queue (\<open>screenpipe-db/src/write_queue.rs\<close>): batches, the transaction around a batch, the answers to
  the callers, and the loop with its pause around the sleep of the machine. What the semaphore, the pool and SQLite
  answer is an argument of a batch (\<open>batch_env\<close>); a write carries the clock and the failures of its statements.
\<close>

definition MAX_BATCH_SIZE :: nat where "MAX_BATCH_SIZE = 500"
definition CHANNEL_CAPACITY :: nat where "CHANNEL_CAPACITY = 4096"
definition max_retries :: nat where "max_retries = 3"

record pending_write =
  pw_op :: write_op
  pw_now :: timestamp
  pw_fails :: "nat \<Rightarrow> db_error option"

type_synonym answer = "db_error + write_result"

datatype permit = Granted | SemaphoreClosed | SemaphoreTimedOut
datatype acquired = Connection | AcquireFailed db_error | AcquireTimedOut

record batch_env =
  be_permit :: permit
  be_acquire :: "nat \<Rightarrow> acquired"
  be_begin :: "nat \<Rightarrow> db_error option"
  be_commit :: "db_error option"
  be_text :: "db_error \<Rightarrow> rstr"

section \<open>Opening the transaction\<close>

text \<open>What one attempt says: a connection in a transaction, another attempt, or the end.\<close>

datatype attempt_result = Begun | Again db_error | GaveUp db_error

definition begin_attempt :: "(rstr \<Rightarrow> rstr) \<Rightarrow> batch_env \<Rightarrow> nat \<Rightarrow> attempt_result" where
  "begin_attempt low be attempt =
     (case be_acquire be attempt of
        AcquireTimedOut \<Rightarrow> GaveUp PoolTimedOut
      | AcquireFailed e \<Rightarrow>
          if should_recycle_sqlite_connection low e \<and> attempt < max_retries then Again e else GaveUp e
      | Connection \<Rightarrow>
          (case be_begin be attempt of
             None \<Rightarrow> Begun
           | Some e \<Rightarrow>
               if is_nested_transaction_error low e then Again e
               else if attempt < max_retries \<and> is_sqlite_busy_error low e then Again e
               else if should_recycle_sqlite_connection low e then (if attempt < max_retries then Again e else GaveUp e)
               else GaveUp e))"

text \<open>The attempts from \<open>attempt\<close> on, with the error of the last one; the answer counts them.\<close>

fun begin_from :: "(rstr \<Rightarrow> rstr) \<Rightarrow> batch_env \<Rightarrow> nat \<Rightarrow> nat \<Rightarrow> db_error option \<Rightarrow> nat \<times> (db_error + unit)" where
  "begin_from low be 0 attempt last_error = (0, Inl (case last_error of Some e \<Rightarrow> e | None \<Rightarrow> PoolTimedOut))"
| "begin_from low be (Suc left) attempt last_error =
     (case begin_attempt low be attempt of
        Begun \<Rightarrow> (1, Inr ())
      | GaveUp e \<Rightarrow> (1, Inl e)
      | Again e \<Rightarrow> (let (n, r) = begin_from low be left (attempt + 1) (Some e) in (n + 1, r)))"

section \<open>A batch\<close>

definition run_write :: "write_env \<Rightarrow> pending_write \<Rightarrow> sql_db \<Rightarrow> sql_db \<times> answer" where
  "run_write env w db =
     (let ((db', n), r) = execute_single_write env (pw_fails w) (pw_now w) (pw_op w) (db, 0) in (db', r))"

definition is_fatal :: "write_env \<Rightarrow> answer \<Rightarrow> bool" where
  "is_fatal env a \<longleftrightarrow> (case a of Inl e \<Rightarrow> is_sqlite_connection_error (lowercase env) e | Inr r \<Rightarrow> False)"

fun run_writes :: "write_env \<Rightarrow> pending_write list \<Rightarrow> bool \<Rightarrow> sql_db \<Rightarrow> sql_db \<times> answer list \<times> bool" where
  "run_writes env [] any_fatal db = (db, [], any_fatal)"
| "run_writes env (w # ws) any_fatal db =
     (if any_fatal
      then (let (db', as, f) = run_writes env ws any_fatal db in (db', Inl WorkerCrashed # as, f))
      else (let (db1, a) = run_write env w db; (db', as, f) = run_writes env ws (is_fatal env a) db1 in (db', a # as, f)))"

definition error_to_all :: "batch_env \<Rightarrow> pending_write list \<Rightarrow> db_error \<Rightarrow> answer list" where
  "error_to_all be batch e = map (\<lambda>_. Inl (ProtocolFailed (be_text be e))) batch"

definition execute_batch :: "write_env \<Rightarrow> batch_env \<Rightarrow> pending_write list \<Rightarrow> sql_db \<Rightarrow> sql_db \<times> answer list" where
  "execute_batch env be batch db =
     (case be_permit be of
        SemaphoreClosed \<Rightarrow> (db, error_to_all be batch PoolClosed)
      | SemaphoreTimedOut \<Rightarrow> (db, error_to_all be batch PoolTimedOut)
      | Granted \<Rightarrow>
          (case begin_from (lowercase env) be max_retries 1 None of
             (n, Inl e) \<Rightarrow> (db, error_to_all be batch e)
           | (n, Inr u) \<Rightarrow>
               (let (db', results, any_fatal) = run_writes env batch False db in
                if any_fatal then (db, map (\<lambda>a. case a of Inr r \<Rightarrow> Inl WorkerCrashed | Inl e \<Rightarrow> Inl e) results)
                else if be_commit be \<noteq> None then (db, map (\<lambda>_. Inl WorkerCrashed) batch)
                else (db', results))))"

section \<open>The loop and the sleep of the machine\<close>

text \<open>Where the loop stands: waiting for writes, having read the flag as set, waiting for the notification, or about
  to execute.\<close>

datatype drain_phase = Idle | Paused "pending_write list" | Waiting "pending_write list" | Executing "pending_write list"

record write_queue =
  wq_channel :: "pending_write list"
  wq_paused :: bool
  wq_notify :: bool
  wq_permit :: bool
  wq_phase :: drain_phase
  wq_db :: sql_db
  wq_answered :: "(pending_write \<times> answer) list"

definition new_queue :: "sql_db \<Rightarrow> write_queue" where
  "new_queue db = \<lparr>wq_channel = [], wq_paused = False, wq_notify = False, wq_permit = False, wq_phase = Idle, wq_db = db, wq_answered = []\<rparr>"

definition submit :: "pending_write \<Rightarrow> write_queue \<Rightarrow> write_queue" where
  "submit w q = q\<lparr>wq_channel := wq_channel q @ [w]\<rparr>"

definition request_write_pause :: "write_queue \<Rightarrow> write_queue" where
  "request_write_pause q = q\<lparr>wq_paused := True\<rparr>"

text \<open>\<open>notify_one\<close> wakes the waiting loop, or keeps one permit.\<close>

definition request_write_resume :: "write_queue \<Rightarrow> write_queue" where
  "request_write_resume q =
     (let q = q\<lparr>wq_paused := False\<rparr> in
      if \<not> wq_notify q then q
      else case wq_phase q of
             Waiting batch \<Rightarrow> q\<lparr>wq_phase := Executing batch\<rparr>
           | _ \<Rightarrow> q\<lparr>wq_permit := True\<rparr>)"

definition take_batch :: "nat \<Rightarrow> write_queue \<Rightarrow> write_queue" where
  "take_batch n q =
     (let batch = take n (wq_channel q) in
      q\<lparr>wq_channel := drop n (wq_channel q), wq_phase := (if wq_paused q then Paused batch else Executing batch)\<rparr>)"

definition await_notification :: "pending_write list \<Rightarrow> write_queue \<Rightarrow> write_queue" where
  "await_notification batch q =
     (if wq_permit q then q\<lparr>wq_notify := True, wq_permit := False, wq_phase := Executing batch\<rparr>
      else q\<lparr>wq_notify := True, wq_phase := Waiting batch\<rparr>)"

definition pause_timed_out :: "pending_write list \<Rightarrow> write_queue \<Rightarrow> write_queue" where
  "pause_timed_out batch q = q\<lparr>wq_paused := False, wq_phase := Executing batch\<rparr>"

definition drain_batch :: "write_env \<Rightarrow> batch_env \<Rightarrow> pending_write list \<Rightarrow> write_queue \<Rightarrow> write_queue" where
  "drain_batch env be batch q =
     (let (db, answers) = execute_batch env be batch (wq_db q)
      in q\<lparr>wq_db := db, wq_answered := wq_answered q @ zip batch answers, wq_phase := Idle\<rparr>)"

text \<open>The callers, the sleep monitor and the loop, in any order; \<open>recv_many\<close> takes what has arrived, up to a batch.\<close>

inductive queue_step :: "write_env \<Rightarrow> write_queue \<Rightarrow> write_queue \<Rightarrow> bool" for env where
  submitted: "length (wq_channel q) < CHANNEL_CAPACITY \<Longrightarrow> queue_step env q (submit w q)"
| paused: "queue_step env q (request_write_pause q)"
| resumed: "queue_step env q (request_write_resume q)"
| taken: "wq_phase q = Idle \<Longrightarrow> wq_channel q \<noteq> [] \<Longrightarrow> 0 < n \<Longrightarrow> n \<le> MAX_BATCH_SIZE
    \<Longrightarrow> n \<le> length (wq_channel q) \<Longrightarrow> queue_step env q (take_batch n q)"
| awaits: "wq_phase q = Paused batch \<Longrightarrow> queue_step env q (await_notification batch q)"
| timed_out: "wq_phase q = Waiting batch \<Longrightarrow> queue_step env q (pause_timed_out batch q)"
| drained: "wq_phase q = Executing batch \<Longrightarrow> queue_step env q (drain_batch env be batch q)"

inductive_cases queue_stepE: "queue_step env q q'"

abbreviation queue_steps :: "write_env \<Rightarrow> write_queue \<Rightarrow> write_queue \<Rightarrow> bool" where
  "queue_steps env \<equiv> (queue_step env)\<^sup>*\<^sup>*"

end
