(* ===== verification/WriteQueueProperties.thy ===== *)
theory WriteQueueProperties
  imports WriteQueue
begin

text \<open>
  Properties of the write queue: every write is answered once and in order, an acknowledged write is stored, batches
  change nothing, what a failing write leaves behind, and the pause around the sleep of the machine.
\<close>

section \<open>Runs of writes\<close>

lemma run_writes_length: "run_writes env ws f db = (db', as, f') \<Longrightarrow> length as = length ws"
  by (induction ws arbitrary: f db db' as f') (auto split: prod.splits if_splits)

lemma execute_batch_length: "execute_batch env be ws db = (db', as) \<Longrightarrow> length as = length ws"
  by (auto simp: execute_batch_def error_to_all_def run_writes_length
      split: permit.splits prod.splits sum.splits if_splits)

lemma run_writes_crashed: "run_writes env ws True db = (db, map (\<lambda>_. Inl WorkerCrashed) ws, True)"
  by (induction ws) simp_all

lemma run_writes_fatal: "run_writes env ws f db = (db', as, f') \<Longrightarrow> f' \<longleftrightarrow> f \<or> list_ex (is_fatal env) as"
proof (induction ws arbitrary: f db db' as f')
  case (Cons w ws)
  then show ?case by (cases f) (auto simp: run_writes_crashed is_fatal_def is_sqlite_connection_error_def split: prod.splits)
qed simp

text \<open>The writes alone, one after the other.\<close>

definition stored_by :: "write_env \<Rightarrow> pending_write list \<Rightarrow> sql_db \<Rightarrow> sql_db" where
  "stored_by env ws db = fold (\<lambda>w db. fst (run_write env w db)) ws db"

fun answers_of :: "write_env \<Rightarrow> pending_write list \<Rightarrow> sql_db \<Rightarrow> answer list" where
  "answers_of env [] db = []"
| "answers_of env (w # ws) db = snd (run_write env w db) # answers_of env ws (fst (run_write env w db))"

lemma run_writes_clean:
  "run_writes env ws False db = (db', as, False) \<Longrightarrow> db' = stored_by env ws db \<and> as = answers_of env ws db \<and> \<not> list_ex (is_fatal env) as"
proof (induction ws arbitrary: db db' as)
  case (Cons w ws)
  obtain db1 a where w: "run_write env w db = (db1, a)" by fastforce
  obtain as1 where as: "as = a # as1" "run_writes env ws (is_fatal env a) db1 = (db', as1, False)"
    using Cons.prems w by (auto split: prod.splits)
  then have "\<not> is_fatal env a" using run_writes_fatal [OF as(2)] by simp
  then show ?case using Cons.IH as w by (auto simp: stored_by_def)
qed (simp add: stored_by_def)

lemma batch_outcome:
  assumes "execute_batch env be ws db = (db', as)"
  shows "length as = length ws
    \<and> (db' = db \<and> (\<forall>a \<in> set as. \<exists>e. a = Inl e)
       \<or> db' = stored_by env ws db \<and> as = answers_of env ws db \<and> \<not> list_ex (is_fatal env) as)"
proof -
  have "db' = db \<and> (\<forall>a \<in> set as. \<exists>e. a = Inl e)
       \<or> db' = stored_by env ws db \<and> as = answers_of env ws db \<and> \<not> list_ex (is_fatal env) as"
  proof (cases "be_permit be = Granted \<and> snd (begin_from (lowercase env) be max_retries 1 None) = Inr ()")
    case False
    then show ?thesis using assms
      by (auto simp: execute_batch_def error_to_all_def split: permit.splits prod.splits sum.splits)
  next
    case True
    obtain db1 rs f where r: "run_writes env ws False db = (db1, rs, f)" by (metis prod_cases3)
    have e: "execute_batch env be ws db
        = (if f then (db, map (\<lambda>a. case a of Inr r \<Rightarrow> Inl WorkerCrashed | Inl e \<Rightarrow> Inl e) rs)
           else if be_commit be \<noteq> None then (db, map (\<lambda>_. Inl WorkerCrashed) ws) else (db1, rs))"
      using True r by (cases "begin_from (lowercase env) be max_retries 1 None") (simp add: execute_batch_def)
    show ?thesis using assms run_writes_clean [of env ws db db1 rs] r unfolding e
      by (auto split: if_splits sum.splits)
  qed
  then show ?thesis using execute_batch_length [OF assms] by blast
qed


section \<open>Batches\<close>

definition healthy :: "write_env \<Rightarrow> batch_env \<Rightarrow> bool" where
  "healthy env be \<longleftrightarrow> be_permit be = Granted \<and> snd (begin_from (lowercase env) be max_retries 1 None) = Inr () \<and> be_commit be = None"

lemma healthy_batch:
  assumes "healthy env be"
  shows "execute_batch env be ws db = (case run_writes env ws False db of (db', rs, f) \<Rightarrow>
      if f then (db, map (\<lambda>a. case a of Inr r \<Rightarrow> Inl WorkerCrashed | Inl e \<Rightarrow> Inl e) rs) else (db', rs))"
  using assms by (cases "begin_from (lowercase env) be max_retries 1 None") (auto simp: healthy_def execute_batch_def split: prod.split)

fun run_batches :: "write_env \<Rightarrow> batch_env \<Rightarrow> pending_write list list \<Rightarrow> sql_db \<Rightarrow> sql_db \<times> answer list" where
  "run_batches env be [] db = (db, [])"
| "run_batches env be (b # bs) db =
     (let (db1, as) = execute_batch env be b db; (db2, as') = run_batches env be bs db1 in (db2, as @ as'))"

lemma answers_append: "answers_of env (xs @ ys) db = answers_of env xs db @ answers_of env ys (stored_by env xs db)"
  by (induction xs arbitrary: db) (simp_all add: stored_by_def)

lemma clean_batch:
  assumes "healthy env be" "\<not> list_ex (is_fatal env) (answers_of env ws db)"
  shows "execute_batch env be ws db = (stored_by env ws db, answers_of env ws db)"
proof -
  have "run_writes env ws False db = (stored_by env ws db, answers_of env ws db, False)"
    using assms(2)
  proof (induction ws arbitrary: db)
    case (Cons w ws)
    then show ?case by (cases "run_write env w db") (simp add: stored_by_def)
  qed (simp add: stored_by_def)
  then show ?thesis using healthy_batch [OF assms(1)] by simp
qed

text \<open>C11: As long as the database works, and also when single writes fail, it makes no difference how the queue cuts the
  writes into batches: the same rows are stored and every caller gets the same answer as if each write had its own
  transaction.\<close>

theorem batching_is_transparent:
  assumes "healthy env be" "\<not> list_ex (is_fatal env) (answers_of env (concat bs) db)"
  shows "run_batches env be bs db = execute_batch env be (concat bs) db
    \<and> run_batches env be bs db = run_batches env be (map (\<lambda>w. [w]) (concat bs)) db"
proof -
  have split: "run_batches env be bs db = (stored_by env (concat bs) db, answers_of env (concat bs) db)"
    if "\<not> list_ex (is_fatal env) (answers_of env (concat bs) db)" for bs :: "pending_write list list"
    using that
  proof (induction bs arbitrary: db)
    case (Cons b bs)
    have "\<not> list_ex (is_fatal env) (answers_of env b db)"
      "\<not> list_ex (is_fatal env) (answers_of env (concat bs) (stored_by env b db))"
      using Cons.prems by (simp_all add: answers_append)
    then show ?case using Cons.IH clean_batch [OF assms(1)] by (simp add: answers_append stored_by_def)
  qed (simp add: stored_by_def)
  have singles: "concat (map (\<lambda>w. [w]) ws) = ws" for ws :: "pending_write list" by (induction ws) simp_all
  show ?thesis
    using split [OF assms(2)] split [of "map (\<lambda>w. [w]) (concat bs)"] clean_batch [OF assms] assms(2) by (simp add: singles)
qed

section \<open>The queue\<close>

definition in_flight :: "write_queue \<Rightarrow> pending_write list" where
  "in_flight q = (case wq_phase q of Idle \<Rightarrow> [] | Paused b \<Rightarrow> b | Waiting b \<Rightarrow> b | Executing b \<Rightarrow> b)"

definition all_writes :: "write_queue \<Rightarrow> pending_write list" where
  "all_writes q = map fst (wq_answered q) @ in_flight q @ wq_channel q"

lemma queue_step_writes: "queue_step env q q' \<Longrightarrow> \<exists>ws. all_writes q' = all_writes q @ ws"
proof (induction rule: queue_step.induct)
  case (drained q batch be)
  obtain db as where e: "execute_batch env be batch (wq_db q) = (db, as)" by fastforce
  have "map fst (zip batch as) = batch" using execute_batch_length [OF e] by simp
  then show ?case using drained e by (simp add: drain_batch_def all_writes_def in_flight_def)
qed (auto simp: submit_def request_write_pause_def request_write_resume_def take_batch_def await_notification_def pause_timed_out_def
      all_writes_def in_flight_def Let_def split: drain_phase.splits if_splits)

lemma queue_step_answers: "queue_step env q q' \<Longrightarrow> \<exists>as. wq_answered q' = wq_answered q @ as"
  by (induction rule: queue_step.induct)
    (auto simp: submit_def request_write_pause_def request_write_resume_def take_batch_def await_notification_def
      pause_timed_out_def drain_batch_def Let_def split: drain_phase.splits if_splits prod.splits)

definition queue_inv :: "write_queue \<Rightarrow> bool" where
  "queue_inv q \<longleftrightarrow> length (wq_channel q) \<le> CHANNEL_CAPACITY \<and> length (in_flight q) \<le> MAX_BATCH_SIZE
     \<and> (wq_phase q \<noteq> Idle \<longrightarrow> in_flight q \<noteq> []) \<and> (wq_permit q \<longrightarrow> wq_notify q)
     \<and> (\<forall>b. wq_phase q = Waiting b \<longrightarrow> wq_notify q \<and> \<not> wq_permit q)"

lemma queue_step_inv: "queue_step env q q' \<Longrightarrow> queue_inv q \<Longrightarrow> queue_inv q'"
  by (induction rule: queue_step.induct)
    (auto simp: submit_def request_write_pause_def request_write_resume_def take_batch_def await_notification_def pause_timed_out_def
      drain_batch_def queue_inv_def in_flight_def Let_def split: drain_phase.splits if_splits prod.splits)

text \<open>C7: Whatever the callers, the sleep monitor and the database do, in any order: no write is lost, answered twice or
  overtaken. The answered writes, the batch in work and the channel are the submitted writes in their order; a
  batch has at most 500 writes and the channel at most 4096.\<close>

theorem writes_are_answered_in_order:
  assumes "queue_steps env (new_queue db) q" "queue_steps env q q'"
  shows "(\<exists>ws. all_writes q' = all_writes q @ ws) \<and> (\<exists>as. wq_answered q' = wq_answered q @ as)
    \<and> length (in_flight q') \<le> MAX_BATCH_SIZE \<and> length (wq_channel q') \<le> CHANNEL_CAPACITY"
proof -
  have "\<exists>ws. all_writes q' = all_writes q @ ws" using assms(2)
    by (induction rule: rtranclp_induct) (auto dest: queue_step_writes)
  moreover have "\<exists>as. wq_answered q' = wq_answered q @ as" using assms(2)
    by (induction rule: rtranclp_induct) (auto dest: queue_step_answers)
  moreover have "queue_inv q'"
  proof -
    have "queue_steps env (new_queue db) q'" using assms by simp
    then show ?thesis
      by (induction rule: rtranclp_induct) (auto dest: queue_step_inv simp: queue_inv_def new_queue_def in_flight_def)
  qed
  ultimately show ?thesis by (simp add: queue_inv_def)
qed

text \<open>C15: From the second sleep on the pause can fail. When a sleep passes in which nothing was written, its end leaves a
  permit, and in the next sleep the first batch takes that permit and is executed although the queue is paused.\<close>

theorem stale_permit_writes_asleep:
  assumes "wq_phase q = Idle" "wq_notify q" "wq_channel q = []"
  shows "\<exists>asleep q'. queue_steps env q asleep \<and> asleep = request_write_pause (request_write_resume (request_write_pause q))
    \<and> queue_steps env asleep q' \<and> wq_paused q' \<and> wq_phase q' = Executing [w] \<and> wq_db q' = wq_db q
    \<and> (\<forall>be. queue_step env q' (drain_batch env be [w] q') \<and> wq_paused (drain_batch env be [w] q'))"
proof -
  let ?p = "request_write_pause q"
  let ?r = "request_write_resume ?p"
  let ?a = "request_write_pause ?r"
  let ?s = "submit w ?a"
  let ?t = "take_batch 1 ?s"
  let ?q = "await_notification [w] ?t"
  note defs = request_write_pause_def request_write_resume_def submit_def take_batch_def await_notification_def
  have s: "length (wq_channel ?a) < CHANNEL_CAPACITY" "wq_phase ?s = Idle" "wq_channel ?s = [w]" "wq_phase ?t = Paused [w]"
    using assms by (simp_all add: defs CHANNEL_CAPACITY_def)
  have steps: "queue_step env q ?p" "queue_step env ?p ?r" "queue_step env ?r ?a" "queue_step env ?a ?s" "queue_step env ?s ?t"
    "queue_step env ?t ?q"
    using s by (auto intro: queue_step.intros simp: MAX_BATCH_SIZE_def)
  have e: "wq_paused ?q" "wq_phase ?q = Executing [w]" "wq_db ?q = wq_db q" using assms by (simp_all add: defs)
  have "queue_steps env q ?a" using steps(1-3) by (meson converse_rtranclp_into_rtranclp rtranclp.rtrancl_refl)
  moreover have "queue_steps env ?a ?q" using steps(4-6) by (meson converse_rtranclp_into_rtranclp rtranclp.rtrancl_refl)
  moreover have "queue_step env ?q (drain_batch env be [w] ?q) \<and> wq_paused (drain_batch env be [w] ?q)" for be
    using queue_step.drained [OF e(2)] e(1) by (simp add: drain_batch_def split: prod.split)
  ultimately show ?thesis using e by blast
qed

end
