(* ===== verification/ElementProperties.thy ===== *)
theory ElementProperties
  imports ElementRows
begin

text \<open>The parents of accessibility elements: the stack of depths against the tree it stands for.\<close>

text \<open>The stack after the nodes \<open>ps\<close>, latest first, with its top first.\<close>

fun chain :: "(nat \<times> int) list \<Rightarrow> (nat \<times> int) list" where
  "chain [] = []"
| "chain ((d, i) # ps) = (d, i) # dropWhile (\<lambda>(d', i'). d \<le> d') (chain ps)"

lemma find_dropWhile: "(\<And>x. P x \<Longrightarrow> \<not> Q x) \<Longrightarrow> find Q (dropWhile P xs) = find Q xs"
  by (induction xs) auto

lemma find_chain: "find (\<lambda>(d, i). d < k) (chain ps) = find (\<lambda>(d, i). d < k) ps"
proof (induction ps rule: chain.induct)
  case (2 d i ps)
  have "find (\<lambda>(d, i). d < k) (dropWhile (\<lambda>(d', i'). d \<le> d') (chain ps)) = find (\<lambda>(d, i). d < k) (chain ps)" if "\<not> d < k"
    by (rule find_dropWhile) (use that in auto)
  then show ?case using 2 by auto
qed simp

lemma chain_falls: "sorted_wrt (\<lambda>x y. fst y < fst x) (chain ps)"
proof (induction ps rule: chain.induct)
  case (2 d i ps)
  let ?r = "dropWhile (\<lambda>(d', i'). d \<le> d') (chain ps)"
  obtain as where as: "chain ps = as @ ?r" by (metis takeWhile_dropWhile_id)
  then have s: "sorted_wrt (\<lambda>x y. fst y < fst x) ?r" using 2 by (metis sorted_wrt_append)
  have "fst y < d" if "y \<in> set ?r" for y
  proof -
    have ne: "?r \<noteq> []"
    proof
      assume "?r = []"
      with that show False by (simp only: list.set empty_iff)
    qed
    then obtain z zs where z: "?r = z # zs" unfolding neq_Nil_conv by blast
    from hd_dropWhile [OF ne] have "\<not> d \<le> fst z" unfolding z by (cases z) simp
    then show ?thesis using that s unfolding z by auto
  qed
  then show ?case using s by auto
qed simp

lemma find_in_falling:
  assumes "sorted_wrt (\<lambda>x y. fst y < fst x) xs" "0 < (k :: nat)"
  shows "find (\<lambda>(d, i). d = k - 1) xs
    = (case find (\<lambda>(d, i). d < k) xs of Some (d, i) \<Rightarrow> if d + 1 = k then Some (d, i) else None | None \<Rightarrow> None)"
  using assms
proof (induction xs)
  case (Cons x xs)
  obtain d i where x: "x = (d, i)" by fastforce
  show ?case
  proof (cases "d < k \<and> d + 1 \<noteq> k")
    case True
    then have "\<forall>y \<in> set xs. fst y \<noteq> k - 1" using Cons.prems x by fastforce
    then have "find (\<lambda>(d, i). d = k - 1) xs = None" by (auto simp: find_None_iff case_prod_unfold)
    then show ?thesis using x True by auto
  next
    case False
    then show ?thesis using Cons x by auto
  qed
qed simp

lemma parent_in_chain:
  "find_parent k (rev (chain ps))
    = (case find (\<lambda>(d, i). d < k) ps of Some (d, i) \<Rightarrow> if d + 1 = k then Some i else None | None \<Rightarrow> None)"
proof (cases "0 < k")
  case True
  show ?thesis unfolding find_parent_def rev_rev_ident find_in_falling [OF chain_falls True] find_chain
    using True by (auto split: option.split)
next
  case False
  then show ?thesis by (auto simp: find_parent_def find_None_iff split: option.split dest: find_Some_iff [THEN iffD1])
qed

lemma chain_push: "trim_stack d (rev (chain ps)) @ [(d, i)] = rev (chain ((d, i) # ps))"
  by (simp add: trim_stack_def)

section \<open>The tree\<close>

text \<open>The reference: the parent of a node is the last node before it that is less deep, if it is one level up.\<close>

definition tree_parent :: "nat list \<Rightarrow> nat \<Rightarrow> nat option" where
  "tree_parent ds k = (case find (\<lambda>j. ds ! j < ds ! k) (rev [0..<k]) of Some j \<Rightarrow> if ds ! j + 1 = ds ! k then Some j else None | None \<Rightarrow> None)"

definition ax_rows :: "element_env \<Rightarrow> int \<Rightarrow> element_node list \<Rightarrow> int \<Rightarrow> nat list \<Rightarrow> (int \<times> sql_row) list" where
  "ax_rows env frame_id nodes first ks =
     map (\<lambda>k. (first + int k, map_of (ax_cols env frame_id (nodes ! k)
       (map_option (\<lambda>j. first + int j) (tree_parent (map ax_depth nodes) k)) (int k)))) ks"

lemma insert_row_rows:
  "insert_row t cols db = (db', i) \<Longrightarrow> i = t_next (db t) \<and> t_rows (db' t) = t_rows (db t) @ [(i, map_of (cols @ schema_defaults t))]
    \<and> t_next (db' t) = i + 1 \<and> (\<forall>u. u \<noteq> t \<longrightarrow> db' u = db u)"
  by (auto simp: insert_row_def Let_def)


lemma fold_sql_snoc: "fold_sql f (xs @ [y]) s = followed (fold_sql f xs s) (f y)"
  by (induction xs arbitrary: s) (auto simp: followed_def ret_def fun_eq_iff split: prod.split sum.split)

definition past :: "int \<Rightarrow> element_node list \<Rightarrow> nat \<Rightarrow> (nat \<times> int) list" where
  "past first nodes k = map (\<lambda>j. (ax_depth (nodes ! j), first + int j)) (rev [0..<k])"

lemma past_parent:
  assumes "k < length nodes"
  shows "find_parent (ax_depth (nodes ! k)) (rev (chain (past first nodes k)))
    = map_option (\<lambda>j. first + int j) (tree_parent (map ax_depth nodes) k)"
proof -
  have same: "find (\<lambda>j. map ax_depth nodes ! j < map ax_depth nodes ! k) (rev [0..<k])
      = find (\<lambda>j. ax_depth (nodes ! j) < ax_depth (nodes ! k)) (rev [0..<k])"
    by (rule find_cong) (use assms in auto)
  show ?thesis
  proof (cases "find (\<lambda>j. ax_depth (nodes ! j) < ax_depth (nodes ! k)) (rev [0..<k])")
    case None
    then show ?thesis unfolding parent_in_chain tree_parent_def same past_def find_map by (simp add: comp_def)
  next
    case (Some j)
    then have "j < k" by (auto simp: find_Some_iff rev_nth)
    then show ?thesis using Some assms unfolding parent_in_chain tree_parent_def same past_def find_map by (simp add: comp_def)
  qed
qed

lemma ax_walk:
  assumes "k \<le> length nodes"
  shows "\<exists>db'. fold_sql (ax_step env Map.empty frame_id) (take k nodes) ([], 0) (db, n)
      = ((db', n + k), Inr (rev (chain (past (t_next (db ''elements'')) nodes k)), int k))
    \<and> t_rows (db' ''elements'') = t_rows (db ''elements'') @ ax_rows env frame_id nodes (t_next (db ''elements'')) [0..<k]
    \<and> t_next (db' ''elements'') = t_next (db ''elements'') + int k \<and> (\<forall>u. u \<noteq> ''elements'' \<longrightarrow> db' u = db u)"
  using assms
proof (induction k)
  case 0
  then show ?case by (simp add: ret_def past_def ax_rows_def)
next
  case (Suc k)
  let ?t = "t_next (db ''elements'')"
  obtain db1 where db1: "fold_sql (ax_step env Map.empty frame_id) (take k nodes) ([], 0) (db, n) = ((db1, n + k), Inr (rev (chain (past ?t nodes k)), int k))"
    "t_rows (db1 ''elements'') = t_rows (db ''elements'') @ ax_rows env frame_id nodes ?t [0..<k]" "t_next (db1 ''elements'') = ?t + int k"
    "\<forall>u. u \<noteq> ''elements'' \<longrightarrow> db1 u = db u"
    using Suc by auto
  let ?cols = "ax_cols env frame_id (nodes ! k) (find_parent (ax_depth (nodes ! k)) (rev (chain (past ?t nodes k)))) (int k)"
  obtain db2 i where ins: "insert_row ''elements'' ?cols db1 = (db2, i)" by fastforce
  note row = insert_row_rows [OF ins]
  have "past ?t nodes (Suc k) = (ax_depth (nodes ! k), i) # past ?t nodes k" using row db1(3) by (simp add: past_def)
  then have stack: "trim_stack (ax_depth (nodes ! k)) (rev (chain (past ?t nodes k))) @ [(ax_depth (nodes ! k), i)] = rev (chain (past ?t nodes (Suc k)))"
    using chain_push by simp
  have "fold_sql (ax_step env Map.empty frame_id) (take (Suc k) nodes) ([], 0) (db, n)
      = ((db2, n + Suc k), Inr (rev (chain (past ?t nodes (Suc k))), int (Suc k)))"
    using Suc.prems db1(1) ins stack
    by (simp add: take_Suc_conv_app_nth fold_sql_snoc followed_def ax_step_def insert_stmt_def stmt_def ret_def)
  moreover have "t_rows (db2 ''elements'') = t_rows (db ''elements'') @ ax_rows env frame_id nodes ?t [0..<Suc k]"
    using row db1(2,3) past_parent [of k nodes ?t] Suc.prems by (simp add: ax_rows_def schema_defaults_def)
  ultimately show ?case using row db1(3,4) by auto
qed

text \<open>C14: The rows of an accessibility tree name the right parents: the parent of a node is the last node before it that
  is less deep, when that is one level up, and none otherwise. The rows are numbered and sorted in the order of the
  nodes.\<close>

theorem elements_name_their_parents:
  assumes "read_ax env txt = Some nodes"
  shows "\<exists>db'. insert_accessibility_elements env Map.empty frame_id txt (db, n) = ((db', n + length nodes), Inr ())
    \<and> t_rows (db' ''elements'') = t_rows (db ''elements'')
        @ map (\<lambda>k. (t_next (db ''elements'') + int k, map_of (ax_cols env frame_id (nodes ! k)
            (map_option (\<lambda>j. t_next (db ''elements'') + int j) (tree_parent (map ax_depth nodes) k)) (int k)))) [0..<length nodes]"
proof -
  obtain db' where "fold_sql (ax_step env Map.empty frame_id) nodes ([], 0) (db, n)
      = ((db', n + length nodes), Inr (rev (chain (past (t_next (db ''elements'')) nodes (length nodes))), int (length nodes)))"
    "t_rows (db' ''elements'') = t_rows (db ''elements'') @ ax_rows env frame_id nodes (t_next (db ''elements'')) [0..<length nodes]"
    using ax_walk [of "length nodes" nodes env frame_id db n] by auto
  then show ?thesis using assms
    by (auto simp: insert_accessibility_elements_def swallow_def ax_rows_def)
qed

end
