(* ===== verification/WriteOpProperties.thy ===== *)
theory WriteOpProperties
  imports WriteQueueProperties ElementProperties
begin

text \<open>
  Properties of the single writes: their rows and numbers, the shape of their answers, what a failure in the middle
  leaves, the backlog of audio chunks, the history of pipe runs, and the parents of elements.
\<close>

section \<open>Reasoning about statements\<close>

lemma followed_assoc [simp]: "followed (followed m k) h = followed m (\<lambda>x. followed (k x) h)"
  by (rule ext) (simp add: followed_def split: prod.split sum.split)

lemma followed_ret [simp]: "followed (ret x) k = k x" "followed m ret = m"
  by (rule ext, simp add: followed_def ret_def split: prod.split sum.split)+

lemma followed_Inr:
  "followed m k st = (st', Inr y) \<longleftrightarrow> (\<exists>st1 x. m st = (st1, Inr x) \<and> k x st1 = (st', Inr y))"
  by (auto simp: followed_def split: prod.splits sum.splits)

lemma ret_Inr: "ret x st = (st', Inr y) \<longleftrightarrow> st' = st \<and> y = x"
  by (auto simp: ret_def)

lemma stmt_Inr: "stmt fails f (db, n) = (st', Inr x) \<longleftrightarrow> fails n = None \<and> (\<exists>db'. f db = (db', x) \<and> st' = (db', n + 1))"
  by (auto simp: stmt_def split: option.splits prod.splits)

lemmas sql_Inr = followed_Inr ret_Inr stmt_Inr

lemma for_each_related:
  assumes "\<And>x st st' y. f x st = (st', Inr y) \<Longrightarrow> P x y" "for_each f xs st = (st', Inr ys)"
  shows "list_all2 P xs ys"
  using assms(2) by (induction xs arbitrary: st st' ys) (auto simp: sql_Inr intro: assms(1))

section \<open>The shape of the answers\<close>

text \<open>What the callers in \<open>db.rs\<close> match on.\<close>

fun answer_fits :: "write_op \<Rightarrow> write_result \<Rightarrow> bool" where
  "answer_fits (InsertUiEventsBatch es) r = (\<exists>ids. r = Ids ids \<and> length ids = length es)"
| "answer_fits (InsertFramesBatch c p d ts off eng ws) r = (\<exists>fs. r = FrameBatch fs \<and> map snd fs = [0..<length ws])"
| "answer_fits op r =
     (if (case op of MarkSynced t a b c \<Rightarrow> True | UpdateUiEventFrameId i f \<Rightarrow> True | DeleteAudioChunksBatch is \<Rightarrow> True
          | CompactSnapshots c b \<Rightarrow> True | ClearSnapshotPaths is \<Rightarrow> True | PipeUpdateExecution s b \<Rightarrow> True
          | PipeDeleteOldExecutions k \<Rightarrow> True | InsertDeferredElements i a b \<Rightarrow> True | _ \<Rightarrow> False)
      then r = Done else (\<exists>i. r = Id i))"

lemma single_write_fits:
  assumes "execute_single_write env fails now op st = (st', Inr r)"
  shows "answer_fits op r"
proof (cases "(\<exists>es. op = InsertUiEventsBatch es) \<or> (\<exists>c p d ts off eng ws. op = InsertFramesBatch c p d ts off eng ws)")
  case False
  then show ?thesis using assms
    by (cases op)
      (auto simp: execute_single_write_def sql_Inr write_transcription_def write_chunk_and_transcription_def write_snapshot_def
        write_elements_def compact_frames_def clear_paths_def mark_synced_def delete_old_executions_def create_execution_def
        sync_frame_def sync_transcription_def Let_def split: option.splits if_splits)
next
  case True
  then show ?thesis
  proof (elim disjE exE)
    fix es assume op: "op = InsertUiEventsBatch es"
    then obtain st1 ids where "for_each (insert_ui_event_row fails) es st = (st1, Inr ids)" "r = Ids ids"
      using assms by (auto simp: execute_single_write_def sql_Inr)
    from for_each_related [OF _ this(1), of "\<lambda>_ _. True"] this(2) show ?thesis
      using op by (auto dest: list_all2_lengthD)
  next
    fix c p d ts off eng ws assume op: "op = InsertFramesBatch c p d ts off eng ws"
    then obtain st1 fs where fs: "for_each (write_window env fails c p d ts off eng) (enumerate 0 ws) st = (st1, Inr fs)" "r = FrameBatch fs"
      using assms by (auto simp: execute_single_write_def sql_Inr)
    have "list_all2 (\<lambda>x y. snd y = fst x) (enumerate 0 ws) fs"
      by (rule for_each_related [OF _ fs(1)]) (auto simp: write_window_def sql_Inr)
    then have "map snd fs = map fst (enumerate 0 ws)"
      unfolding list_all2_conv_all_nth by (intro nth_equalityI) (simp_all add: nth_enumerate_eq)
    then show ?thesis using op fs(2) by simp
  qed
qed

lemma answers_fit: "(w, Inr r) \<in> set (zip ws (answers_of env ws db)) \<Longrightarrow> answer_fits (pw_op w) r"
proof (induction ws arbitrary: db)
  case (Cons v ws)
  obtain st a where v: "execute_single_write env (pw_fails v) (pw_now v) (pw_op v) (db, 0) = (st, a)" by fastforce
  then have "snd (run_write env v db) = a" by (cases st) (simp add: run_write_def)
  moreover have "a = Inr r' \<Longrightarrow> answer_fits (pw_op v) r'" for r' using single_write_fits v by blast
  ultimately show ?case using Cons by auto
qed simp

text \<open>C30: Every answer without an error has the shape its caller expects: a number for an insertion, one number per event
  for a batch of events, one pair per window in their order, and nothing for the others. So the branches of the
  callers marked unreachable are never taken.\<close>

theorem answers_have_their_type:
  assumes "queue_steps env (new_queue db) q" "(w, Inr r) \<in> set (wq_answered q)"
  shows "answer_fits (pw_op w) r"
proof -
  have "\<forall>(w, a) \<in> set (wq_answered q). \<forall>r. a = Inr r \<longrightarrow> answer_fits (pw_op w) r" using assms(1)
  proof (induction rule: rtranclp_induct)
    case base
    then show ?case by (simp add: new_queue_def)
  next
    case (step q q')
    from step(2,3) show ?case
    proof (induction rule: queue_step.induct)
      case (drained q batch be)
      obtain db1 as where e: "execute_batch env be batch (wq_db q) = (db1, as)" by fastforce
      have "answer_fits (pw_op w) r" if "(w, Inr r) \<in> set (zip batch as)" for w r
      proof -
        have "Inr r \<in> set as" using that by (rule set_zip_rightD)
        then have "as = answers_of env batch (wq_db q)" using batch_outcome [OF e] by auto
        then show ?thesis using that answers_fit by blast
      qed
      then show ?case using drained e by (auto simp: drain_batch_def)
    qed (auto simp: submit_def request_write_pause_def request_write_resume_def take_batch_def await_notification_def
        pause_timed_out_def Let_def split: drain_phase.splits if_splits)
  qed
  then show ?thesis using assms(2) by blast
qed

section \<open>Numbers of rows\<close>

definition table_ok :: "sql_table \<Rightarrow> bool" where
  "table_ok t \<longleftrightarrow> sorted_wrt (<) (map fst (t_rows t)) \<and> (\<forall>i \<in> fst ` set (t_rows t). i < t_next t)"

definition extends :: "sql_db \<Rightarrow> sql_db \<Rightarrow> bool" where
  "extends db db' \<longleftrightarrow> (\<forall>t. table_ok (db t) \<longrightarrow> table_ok (db' t)) \<and> (\<forall>t. t_next (db t) \<le> t_next (db' t))"

lemma extends_refl [simp]: "extends db db"
  by (simp add: extends_def)

lemma extends_trans: "extends a b \<Longrightarrow> extends b c \<Longrightarrow> extends a c"
  unfolding extends_def using order_trans by blast

lemma map_fst_updated: "map fst (map (\<lambda>(i, r). (i, if p i r then f i r else r)) rs) = map fst rs"
  by (induction rs) auto

lemma table_ok_alt: "table_ok t \<longleftrightarrow> sorted_wrt (<) (map fst (t_rows t)) \<and> (\<forall>i \<in> set (map fst (t_rows t)). i < t_next t)"
  by (simp add: table_ok_def)

lemma extends_update [simp]: "extends db (update_rows t p f db)"
  by (simp add: extends_def update_rows_def table_ok_alt map_fst_updated del: map_map set_map)

lemma extends_delete [simp]: "extends db (delete_rows t p db)"
  by (auto simp: extends_def delete_rows_def table_ok_def sorted_wrt_map intro: sorted_wrt_filter)

lemma extends_insert: "insert_row t cols db = (db', i) \<Longrightarrow> extends db db'"
  by (force simp: insert_row_def Let_def extends_def table_ok_def sorted_wrt_append)

text \<open>A sequence of statements that keeps the numbering, also when it fails.\<close>

definition numbering :: "'a sql \<Rightarrow> bool" where
  "numbering m \<longleftrightarrow> (\<forall>db n. extends db (fst (fst (m (db, n)))))"

named_theorems numbered

lemma numbering_ret [numbered]: "numbering (ret x)"
  by (simp add: numbering_def ret_def)

lemma numbering_followed [numbered]: "numbering m \<Longrightarrow> (\<And>x. numbering (k x)) \<Longrightarrow> numbering (followed m k)"
proof -
  assume m: "numbering m" and k: "\<And>x. numbering (k x)"
  have "extends db (fst (fst (followed m k (db, n))))" for db n
  proof (cases "m (db, n)")
    case (Pair st r)
    then have e: "extends db (fst st)" using m unfolding numbering_def by (metis fst_conv)
    show ?thesis
    proof (cases r)
      case (Inl x)
      then show ?thesis using Pair e by (simp add: followed_def)
    next
      case (Inr x)
      have "extends (fst st) (fst (fst (k x st)))" using k [of x] unfolding numbering_def by (metis prod.collapse)
      then show ?thesis using Pair Inr e extends_trans by (simp add: followed_def)
    qed
  qed
  then show ?thesis by (simp add: numbering_def)
qed

lemma numbering_stmt: "(\<And>db. extends db (fst (f db))) \<Longrightarrow> numbering (stmt fails f)"
  by (auto simp: numbering_def stmt_def split: option.split prod.split) (metis fst_conv)

lemma numbering_insert [numbered]: "numbering (insert_stmt fails t cols)"
  unfolding insert_stmt_def by (rule numbering_stmt) (metis extends_insert prod.collapse)

lemma numbering_update [numbered]: "numbering (update_stmt fails t p f)" "numbering (delete_stmt fails t q)"
  unfolding update_stmt_def delete_stmt_def by (auto intro: numbering_stmt)

lemma numbering_for_each [numbered]: "(\<And>x. numbering (f x)) \<Longrightarrow> numbering (for_each f xs)"
  by (induction xs) (auto intro!: numbered)

lemma numbering_fold [numbered]: "(\<And>x s. numbering (f x s)) \<Longrightarrow> numbering (fold_sql f xs s)"
  by (induction xs arbitrary: s) (auto intro!: numbered)

lemma numbering_swallow [numbered]: "numbering m \<Longrightarrow> numbering (swallow m)"
  by (simp add: numbering_def swallow_def)

lemma extends_folded: "extends db (fold (\<lambda>r db. fst (insert_row t (cols r) db)) rs db)"
proof (induction rs arbitrary: db)
  case (Cons r rs)
  have "extends db (fst (insert_row t (cols r) db))" by (metis extends_insert prod.collapse)
  then show ?case using Cons.IH extends_trans by fastforce
qed simp

lemma numbering_ocr [numbered]: "numbering (insert_ocr_elements env fails i txt)"
proof -
  have flush: "numbering (flush_level0_bulk fails i rs)" for rs
    by (auto simp: flush_level0_bulk_def intro!: numbered numbering_stmt extends_folded)
  then have buffer: "numbering (flush_buffer fails i w)" for w
    by (auto simp: flush_buffer_def intro!: numbered)
  then have "numbering (ocr_step env fails i b w)" for b w
    by (auto simp: ocr_step_def Let_def intro!: numbered split: option.split)
  then show ?thesis using flush by (auto simp: insert_ocr_elements_def intro!: numbered split: option.split)
qed

lemma numbering_ax [numbered]: "numbering (insert_accessibility_elements env fails i txt)"
  by (auto simp: insert_accessibility_elements_def ax_step_def intro!: numbered split: option.split)

lemma numbering_blank [numbered]: "(\<And>s. numbering (f s)) \<Longrightarrow> numbering (unless_blank f x)"
  by (auto simp: unless_blank_def intro!: numbered split: option.split)

lemma numbering_write:
  assumes "\<And>sql binds db. extends db (run_sql env sql binds db)"
  shows "numbering (execute_single_write env fails now op)"
proof -
  have transcript: "numbering (insert_transcript env fails c t ts)" for c t ts
    unfolding insert_transcript_def
    by (rule numbering_stmt) (auto simp: Let_def split: prod.split dest: extends_insert)
  have mark: "numbering (mark_chunk env fails s ts c)" for s ts c
    by (auto simp: mark_chunk_def intro!: numbered)
  have chunk: "numbering (insert_chunk env fails p ts)" "numbering (chunk_or_new env fails c p ts)" for p ts c
    by (auto simp: insert_chunk_def chunk_or_new_def intro!: numbered)
  have run: "numbering (stmt fails (\<lambda>db. (run_sql env sql binds db, ())))" for sql binds
    by (rule numbering_stmt) (simp add: assms)
  have old: "numbering (delete_old_executions fails k)" for k
    by (auto simp: delete_old_executions_def intro!: numbered numbering_stmt)
  have window: "numbering (write_window env fails c p d ts off eng x)" for c p d ts off eng x
    by (cases x) (auto simp: write_window_def intro!: numbered)
  show ?thesis
    by (cases op)
      (auto simp: execute_single_write_def write_transcription_def write_chunk_and_transcription_def write_snapshot_def
        write_elements_def compact_frames_def clear_paths_def mark_synced_def create_execution_def sync_frame_def
        sync_transcription_def insert_ui_event_row_def delete_chunk_def Let_def
        intro!: numbered transcript mark chunk run old window split: option.split)
qed

lemma extends_run_write:
  assumes "\<And>sql binds db. extends db (run_sql env sql binds db)"
  shows "extends db (fst (run_write env w db))"
  using numbering_write [OF assms, of "pw_fails w" "pw_now w" "pw_op w"]
  by (auto simp: numbering_def run_write_def split: prod.split) (metis fst_conv)

lemma extends_stored:
  assumes "\<And>sql binds db. extends db (run_sql env sql binds db)"
  shows "extends db (stored_by env ws db)"
proof (induction ws arbitrary: db)
  case (Cons w ws)
  then show ?case using extends_run_write [OF assms] extends_trans by (fastforce simp: stored_by_def)
qed (simp add: stored_by_def)


section \<open>Writes that fail in the middle\<close>

lemma for_each_append:
  "for_each f (xs @ ys) = followed (for_each f xs) (\<lambda>as. followed (for_each f ys) (\<lambda>bs. ret (as @ bs)))"
  by (induction xs) (simp_all add: followed_assoc)

definition new_rows :: "string \<Rightarrow> ('a \<Rightarrow> (string \<times> sqlv) list) \<Rightarrow> 'a list \<Rightarrow> int \<Rightarrow> (int \<times> sql_row) list" where
  "new_rows t cols xs first = map (\<lambda>k. (first + int k, map_of (cols (xs ! k) @ schema_defaults t))) [0..<length xs]"

lemma for_each_inserts:
  assumes "\<forall>j < length xs. fails (n + j) = None"
  shows "\<exists>db' ids. for_each (\<lambda>x. insert_stmt fails t (cols x)) xs (db, n) = ((db', n + length xs), Inr ids)
    \<and> t_rows (db' t) = t_rows (db t) @ new_rows t cols xs (t_next (db t)) \<and> t_next (db' t) = t_next (db t) + int (length xs)"
  using assms
proof (induction xs rule: rev_induct)
  case (snoc x xs)
  obtain db1 ids where db1: "for_each (\<lambda>x. insert_stmt fails t (cols x)) xs (db, n) = ((db1, n + length xs), Inr ids)"
    "t_rows (db1 t) = t_rows (db t) @ new_rows t cols xs (t_next (db t))" "t_next (db1 t) = t_next (db t) + int (length xs)"
    using snoc by auto
  obtain db2 i where ins: "insert_row t (cols x) db1 = (db2, i)" by fastforce
  have "fails (n + length xs) = None" using snoc.prems by simp
  then have "for_each (\<lambda>x. insert_stmt fails t (cols x)) (xs @ [x]) (db, n) = ((db2, n + length (xs @ [x])), Inr (ids @ [i]))"
    using db1(1) ins by (simp add: for_each_append followed_def ret_def insert_stmt_def stmt_def)
  moreover have "new_rows t cols (xs @ [x]) first = new_rows t cols xs first @ [(first + int (length xs), map_of (cols x @ schema_defaults t))]" for first
    by (simp add: new_rows_def nth_append)
  ultimately show ?case using insert_row_rows [OF ins] db1(2,3) by auto
qed (simp add: ret_def new_rows_def)

text \<open>C34: A batch of events whose event \<open>k\<close> is refused leaves the events before it in the table, and they are committed,
  but the caller gets only the error. The recorder drops the batch then, so these rows are never linked to a
  frame.\<close>

theorem failed_event_batch_keeps_rows:
  assumes "healthy env be" "pw_op w = InsertUiEventsBatch events" "k < length events" "\<forall>j < k. pw_fails w j = None"
    "pw_fails w k = Some e" "\<not> is_sqlite_connection_error (lowercase env) e"
  shows "\<exists>db'. execute_batch env be [w] db = (db', [Inl e])
    \<and> t_rows (db' ''ui_events'') = t_rows (db ''ui_events'')
        @ map (\<lambda>j. (t_next (db ''ui_events'') + int j, map_of (event_cols (events ! j)))) [0..<k]"
proof -
  have events: "events = take k events @ events ! k # drop (Suc k) events" using assms(3) by (simp add: id_take_nth_drop)
  obtain db1 ids where db1: "for_each (\<lambda>x. insert_stmt (pw_fails w) ''ui_events'' (event_cols x)) (take k events) (db, 0) = ((db1, k), Inr ids)"
    "t_rows (db1 ''ui_events'') = t_rows (db ''ui_events'') @ new_rows ''ui_events'' event_cols (take k events) (t_next (db ''ui_events''))"
    using for_each_inserts [of "take k events" "pw_fails w" 0 "''ui_events''" event_cols db] assms(3,4) by auto
  have "for_each (\<lambda>x. insert_stmt (pw_fails w) ''ui_events'' (event_cols x)) (events ! k # drop (Suc k) events) (db1, k) = ((db1, k + 1), Inl e)"
    using assms(5) by (simp add: followed_def insert_stmt_def stmt_def)
  then have "for_each (insert_ui_event_row (pw_fails w)) events (db, 0) = ((db1, k + 1), Inl e)"
    using db1(1) unfolding insert_ui_event_row_def [abs_def] by (subst events) (simp only: for_each_append followed_def, simp)
  then have w: "run_write env w db = (db1, Inl e)" by (simp add: run_write_def assms(2) execute_single_write_def followed_def)
  then have "execute_batch env be [w] db = (db1, [Inl e])"
    using clean_batch [OF assms(1), of "[w]" db] assms(6) by (simp add: is_fatal_def stored_by_def)
  then show ?thesis using db1(2) assms(3) by (auto simp: new_rows_def schema_defaults_def)
qed

section \<open>The backlog of audio chunks\<close>

lemma marked_chunk:
  assumes "mark_chunk env fails status ts c (db, n) = ((db', n'), Inr u)" "c \<in> fst ` set (t_rows (db ''audio_chunks''))"
  shows "(\<exists>r. (c, r) \<in> set (t_rows (db' ''audio_chunks'')) \<and> col r ''transcription_status'' = SText (lit status))
    \<and> (\<forall>t. t \<noteq> ''audio_chunks'' \<longrightarrow> db' t = db t)"
proof -
  obtain r where r: "(c, r) \<in> set (t_rows (db ''audio_chunks''))" using assms(2) by auto
  have db': "db' = update_rows ''audio_chunks'' (\<lambda>i r. i = c)
       (\<lambda>i r. r(''transcription_status'' \<mapsto> SText (lit status),
                ''transcription_attempts'' \<mapsto> (case col r ''transcription_attempts'' of SInt n \<Rightarrow> SInt (n + 1) | v \<Rightarrow> v),
                ''last_transcription_attempt_at'' \<mapsto> SText (sqlx_time env ts), ''transcription_failure_reason'' \<mapsto> SNull)) db"
    using assms(1) by (auto simp: mark_chunk_def update_stmt_def stmt_Inr)
  show ?thesis unfolding db' using r by (force simp: update_rows_def col_def)
qed

text \<open>C26: A chunk whose write was answered without an error has left the backlog: its row is there and no longer pending;
  unless the transcript was blank or a duplicate, its text is stored.\<close>

theorem written_chunks_leave_the_backlog:
  assumes "execute_single_write env fails now (InsertAudioChunkAndTranscription file_path t existing duplicate) (db, 0) = ((db', n), Inr a)"
    "existing \<noteq> 0 \<longrightarrow> existing \<in> fst ` set (t_rows (db ''audio_chunks''))"
  shows "\<exists>c r. a = Id c \<and> (c, r) \<in> set (t_rows (db' ''audio_chunks''))
    \<and> col r ''transcription_status'' = SText (if \<not> duplicate \<and> trim (tw_text t) = [] then lit ''silent'' else lit ''transcribed'')
    \<and> (\<not> duplicate \<and> trim (tw_text t) \<noteq> [] \<longrightarrow> transcript_exists c (tw_text t) db')"
proof -
  define ts where "ts = (case tw_time t of Some x \<Rightarrow> x | None \<Rightarrow> now)"
  obtain db1 n1 c where c: "chunk_or_new env fails existing file_path ts (db, 0) = ((db1, n1), Inr c)"
    and rest: "(if duplicate then followed (mark_chunk env fails ''transcribed'' ts c) (\<lambda>_. ret (Id c))
        else if trim (tw_text t) = [] then followed (mark_chunk env fails ''silent'' ts c) (\<lambda>_. ret (Id c))
        else followed (insert_transcript env fails c t ts) (\<lambda>_.
             followed (mark_chunk env fails ''transcribed'' ts c) (\<lambda>_. ret (Id c)))) (db1, n1) = ((db', n), Inr a)"
    using assms(1)
    by (simp only: execute_single_write_def write_op.case write_chunk_and_transcription_def Let_def ts_def [symmetric] followed_Inr) auto
  have in1: "c \<in> fst ` set (t_rows (db1 ''audio_chunks''))"
    using c assms(2) by (force simp: chunk_or_new_def insert_chunk_def insert_stmt_def sql_Inr insert_row_def Let_def split: if_splits)
  show ?thesis
  proof (cases "duplicate \<or> trim (tw_text t) = []")
    case True
    then obtain u status where "mark_chunk env fails status ts c (db1, n1) = ((db', n), Inr u)" "a = Id c"
      "status = (if duplicate then ''transcribed'' else ''silent'')"
      using rest by (cases duplicate) (auto simp: sql_Inr)
    from marked_chunk [OF this(1) in1] this(2,3) show ?thesis using True by auto
  next
    case False
    then obtain db2 n2 i u where ins: "insert_transcript env fails c t ts (db1, n1) = ((db2, n2), Inr i)"
      and mark: "mark_chunk env fails ''transcribed'' ts c (db2, n2) = ((db', n), Inr u)" "a = Id c"
      using rest by (auto simp: sql_Inr)
    have db2: "db2 ''audio_chunks'' = db1 ''audio_chunks''" "transcript_exists c (tw_text t) db2"
      using ins by (auto simp: insert_transcript_def stmt_Inr insert_row_def Let_def transcript_exists_def transcript_cols_def col_def
          split: if_splits)
    then have "c \<in> fst ` set (t_rows (db2 ''audio_chunks''))" using in1 by simp
    from marked_chunk [OF mark(1) this] show ?thesis using mark(2) db2(2) False by (auto simp: transcript_exists_def)
  qed
qed

section \<open>The history of pipe runs\<close>

lemma keep_newest:
  "sorted_wrt (<) (map fst xs) \<Longrightarrow> filter (\<lambda>x. length (filter (\<lambda>y. fst x \<le> fst y) xs) \<le> k) xs = drop (length xs - k) xs"
  for xs :: "(int \<times> 'a) list"
proof (induction xs)
  case (Cons x xs)
  have later: "fst x < fst y" if "y \<in> set xs" for y using Cons.prems that by simp
  have "length (filter (\<lambda>z. fst y \<le> fst z) (x # xs)) = length (filter (\<lambda>z. fst y \<le> fst z) xs)" if "y \<in> set xs" for y
    using later [OF that] by simp
  then have rest: "filter (\<lambda>y. length (filter (\<lambda>z. fst y \<le> fst z) (x # xs)) \<le> k) xs = drop (length xs - k) xs"
    using Cons.IH Cons.prems by (simp cong: filter_cong)
  have "filter (\<lambda>z. fst x \<le> fst z) xs = xs" using later by (force simp: filter_id_conv)
  then have head: "length (filter (\<lambda>z. fst x \<le> fst z) (x # xs)) = Suc (length xs)" by simp
  show ?case
  proof (cases "Suc (length xs) \<le> k")
    case True
    then show ?thesis using rest head by simp
  next
    case False
    then have "length (x # xs) - k = Suc (length xs - k)" by simp
    then show ?thesis using rest head False by simp
  qed
qed simp

definition runs_of :: "sqlv \<Rightarrow> sql_db \<Rightarrow> (int \<times> sql_row) list" where
  "runs_of pipe db = filter (\<lambda>(i, r). col r ''pipe_name'' = pipe) (t_rows (db ''pipe_executions''))"

text \<open>C31: Cleaning the history keeps, for every pipe, exactly its newest \<open>keep\<close> runs (none when the limit is negative), so no
  pipe has more than that, and a busy pipe never pushes out the runs of another.\<close>

theorem history_keeps_the_newest:
  assumes "table_ok (db ''pipe_executions'')"
    "execute_single_write env fails now (PipeDeleteOldExecutions keep) (db, n) = ((db', n'), Inr a)"
  shows "runs_of pipe db' = drop (length (runs_of pipe db) - nat keep) (runs_of pipe db) \<and> length (runs_of pipe db') \<le> nat keep"
proof -
  let ?L = "runs_of pipe db"
  have db': "db' = delete_rows ''pipe_executions'' (\<lambda>i r. \<not> int (newer_executions db i r) \<le> keep) db"
    using assms(2) by (auto simp: execute_single_write_def delete_old_executions_def sql_Inr)
  have sorted: "sorted_wrt (<) (map fst ?L)"
    using assms(1) by (simp add: runs_of_def table_ok_def sorted_wrt_map sorted_wrt_filter)
  have newer: "newer_executions db (fst x) (snd x) = length (filter (\<lambda>y. fst x \<le> fst y) ?L)" if "x \<in> set ?L" for x
    using that by (auto simp: newer_executions_def runs_of_def case_prod_unfold conj_commute)
  have pos: "0 < length (filter (\<lambda>y. fst x \<le> fst y) ?L)" if "x \<in> set ?L" for x
    using that by (auto simp: filter_empty_conv)
  have "runs_of pipe db' = filter (\<lambda>x. int (newer_executions db (fst x) (snd x)) \<le> keep) ?L"
    unfolding db' by (simp add: runs_of_def delete_rows_def case_prod_unfold conj_commute)
  also have "\<dots> = filter (\<lambda>x. length (filter (\<lambda>y. fst x \<le> fst y) ?L) \<le> nat keep) ?L"
  proof (rule filter_cong [OF refl])
    fix x assume x: "x \<in> set ?L"
    show "(int (newer_executions db (fst x) (snd x)) \<le> keep) = (length (filter (\<lambda>y. fst x \<le> fst y) ?L) \<le> nat keep)"
      unfolding newer [OF x] using pos [OF x] by linarith
  qed
  also have "\<dots> = drop (length ?L - nat keep) ?L" by (rule keep_newest [OF sorted])
  finally show ?thesis by simp
qed

end
