(* ===== verification/AudioChunks.thy ===== *)
theory AudioChunks
  imports WriteQueue
begin

text \<open>
  Audio chunks and their transcripts (\<open>screenpipe-db/src/db.rs\<close>, \<open>text_similarity.rs\<close>): the similarity of two
  transcripts, the check for a copy from another device, the entry points of the transcription pipeline, the
  outcome of a chunk and the backlog of the reconciliation. Ratios of word counts are rationals. Transactions
  outside the queue are sequences of statements that take effect as a whole or not at all.
\<close>

section \<open>Similar transcripts\<close>

record text_env =
  te_lower :: "rstr \<Rightarrow> rstr"
  te_alphanumeric :: "nat \<Rightarrow> bool"

fun split_words :: "nat list \<Rightarrow> nat list \<Rightarrow> nat list list" where
  "split_words [] w = (if w = [] then [] else [w])"
| "split_words (c # cs) w =
     (if is_whitespace c then (if w = [] then split_words cs [] else w # split_words cs []) else split_words cs (w @ [c]))"

definition normalize_to_words :: "text_env \<Rightarrow> rstr \<Rightarrow> nat list list" where
  "normalize_to_words te s = split_words (filter (\<lambda>c. te_alphanumeric te c \<or> is_whitespace c) (chars (te_lower te s))) []"

definition word_jaccard_similarity :: "text_env \<Rightarrow> rstr \<Rightarrow> rstr \<Rightarrow> f64" where
  "word_jaccard_similarity te s1 s2 =
     (let words1 = normalize_to_words te s1; words2 = normalize_to_words te s2 in
      if words1 = [] \<and> words2 = [] then 1
      else if words1 = [] \<or> words2 = [] then 0
      else of_nat (card (set words1 \<inter> set words2)) / of_nat (card (set words1 \<union> set words2)))"

definition containment_similarity :: "text_env \<Rightarrow> rstr \<Rightarrow> rstr \<Rightarrow> f64" where
  "containment_similarity te shorter longer =
     (let short = normalize_to_words te shorter; long = normalize_to_words te longer in
      if short = [] then 1
      else if long = [] then 0
      else of_nat (length (filter (\<lambda>w. w \<in> set long) short)) / of_nat (length short))"

definition is_similar_transcription :: "text_env \<Rightarrow> rstr \<Rightarrow> rstr \<Rightarrow> f64 \<Rightarrow> bool" where
  "is_similar_transcription te s1 s2 threshold =
     (let words1 = normalize_to_words te s1; words2 = normalize_to_words te s2 in
      if length words1 < 4 \<and> length words2 < 4 then words1 = words2
      else if threshold \<le> word_jaccard_similarity te s1 s2 then True
      else let (shorter, longer) = (if length words1 \<le> length words2 then (s1, s2) else (s2, s1)) in
        4 \<le> length (normalize_to_words te shorter) \<and> threshold \<le> containment_similarity te shorter longer)"

definition DEDUP_TIME_WINDOW_SECS :: nat where "DEDUP_TIME_WINDOW_SECS = 45"
definition DEDUP_SIMILARITY_THRESHOLD :: f64 where "DEDUP_SIMILARITY_THRESHOLD = 85 / 100"
definition MAX_TRANSCRIPTION_ATTEMPTS :: int where "MAX_TRANSCRIPTION_ATTEMPTS = 5"

section \<open>Reading\<close>

text \<open>\<open>cutoff\<close> is the text \<open>strftime\<close> gives for the begin of the window. Rows of the same time keep their order.\<close>

fun insert_latest :: "int \<times> sql_row \<Rightarrow> (int \<times> sql_row) list \<Rightarrow> (int \<times> sql_row) list" where
  "insert_latest x [] = [x]"
| "insert_latest x (y # ys) =
     (if sql_le (col (snd y) ''timestamp'') (col (snd x) ''timestamp'') then x # y # ys else y # insert_latest x ys)"

definition recent_transcriptions :: "rstr \<Rightarrow> sql_db \<Rightarrow> rstr list" where
  "recent_transcriptions cutoff db =
     List.map_filter (\<lambda>(i, r). case col r ''transcription'' of SText s \<Rightarrow> Some s | _ \<Rightarrow> None)
       (take 50 (foldr insert_latest
          (filter (\<lambda>(i, r). sql_le (SText cutoff) (col r ''timestamp'') \<and> col r ''timestamp'' \<noteq> SText cutoff)
             (t_rows (db ''audio_transcriptions''))) []))"

definition has_similar_recent_transcription :: "text_env \<Rightarrow> rstr \<Rightarrow> rstr \<Rightarrow> sql_db \<Rightarrow> bool" where
  "has_similar_recent_transcription te cutoff transcription db =
     list_ex (\<lambda>existing. is_similar_transcription te transcription existing DEDUP_SIMILARITY_THRESHOLD) (recent_transcriptions cutoff db)"

definition get_audio_chunk_id :: "rstr \<Rightarrow> sql_db \<Rightarrow> int" where
  "get_audio_chunk_id file_path db =
     (case find (\<lambda>(i, r). col r ''file_path'' = SText file_path) (t_rows (db ''audio_chunks'')) of Some (i, r) \<Rightarrow> i | None \<Rightarrow> 0)"

section \<open>The outcome of a chunk\<close>

record replacement =
  rp_text :: rstr
  rp_start :: f64
  rp_end :: f64
  rp_speaker :: "int option"

datatype chunk_outcome =
  Transcribed "replacement list" rstr rstr bool timestamp
| Silent
| Duplicate
| Failed rstr
| FailedPermanent rstr

text \<open>A transaction: all of its statements, or nothing.\<close>

definition atomically :: "'a sql \<Rightarrow> sql_db \<Rightarrow> sql_db \<times> (db_error + 'a)" where
  "atomically m db = (case m (db, 0) of ((db', n), Inr x) \<Rightarrow> (db', Inr x) | (st, Inl e) \<Rightarrow> (db, Inl e))"

definition replacement_write :: "rstr \<Rightarrow> rstr \<Rightarrow> bool \<Rightarrow> nat \<times> replacement \<Rightarrow> transcript_write" where
  "replacement_write engine device input = (\<lambda>(k, s).
     \<lparr>tw_text = trim (rp_text s), tw_offset = int k, tw_engine = engine, tw_device = device, tw_input = input,
      tw_speaker = rp_speaker s, tw_start = Some (rp_start s), tw_end = Some (rp_end s), tw_time = None\<rparr>)"

definition attempted :: "write_env \<Rightarrow> timestamp \<Rightarrow> sqlv \<Rightarrow> (sql_row \<Rightarrow> sqlv) \<Rightarrow> sql_row \<Rightarrow> sql_row" where
  "attempted env now reason status r =
     r(''transcription_status'' \<mapsto> status r,
       ''transcription_attempts'' \<mapsto> (case col r ''transcription_attempts'' of SInt n \<Rightarrow> SInt (n + 1) | v \<Rightarrow> v),
       ''last_transcription_attempt_at'' \<mapsto> SText (sqlx_time env now), ''transcription_failure_reason'' \<mapsto> reason)"

definition update_chunk :: "(nat \<Rightarrow> db_error option) \<Rightarrow> int \<Rightarrow> (sql_row \<Rightarrow> sql_row) \<Rightarrow> unit sql" where
  "update_chunk fails chunk f = update_stmt fails ''audio_chunks'' (\<lambda>i r. i = chunk) (\<lambda>i. f)"

definition mark_outcome :: "write_env \<Rightarrow> (nat \<Rightarrow> db_error option) \<Rightarrow> timestamp \<Rightarrow> int \<Rightarrow> string \<Rightarrow> unit sql" where
  "mark_outcome env fails now chunk status = update_chunk fails chunk (attempted env now SNull (\<lambda>r. SText (lit status)))"

definition record_chunk_outcome ::
  "write_env \<Rightarrow> (nat \<Rightarrow> db_error option) \<Rightarrow> timestamp \<Rightarrow> int \<Rightarrow> chunk_outcome \<Rightarrow> sql_db \<Rightarrow> sql_db \<times> (db_error + unit)" where
  "record_chunk_outcome env fails now chunk outcome db =
     (case outcome of
        Transcribed segments engine device input ts \<Rightarrow>
          (let kept = filter (\<lambda>s. trim (rp_text s) \<noteq> []) segments in
           if kept = [] then atomically (mark_outcome env fails now chunk ''silent'') db
           else atomically
             (followed (delete_stmt fails ''audio_transcriptions'' (\<lambda>i r. col r ''audio_chunk_id'' = SInt chunk)) (\<lambda>_.
              followed (for_each (\<lambda>s. insert_transcript env fails chunk (replacement_write engine device input s) ts) (enumerate 0 kept)) (\<lambda>_.
              mark_outcome env fails now chunk ''transcribed''))) db)
      | Silent \<Rightarrow> atomically (mark_outcome env fails now chunk ''silent'') db
      | Duplicate \<Rightarrow> atomically (mark_outcome env fails now chunk ''transcribed'') db
      | Failed reason \<Rightarrow>
          atomically (update_chunk fails chunk (attempted env now (SText reason)
            (\<lambda>r. case col r ''transcription_attempts'' of
                   SInt n \<Rightarrow> if MAX_TRANSCRIPTION_ATTEMPTS \<le> n + 1 then SText (lit ''failed'') else col r ''transcription_status''
                 | v \<Rightarrow> col r ''transcription_status''))) db
      | FailedPermanent reason \<Rightarrow>
          atomically (update_chunk fails chunk (attempted env now (SText reason) (\<lambda>r. SText (lit ''failed'')))) db)"

definition reset_chunk_for_retranscription :: "(nat \<Rightarrow> db_error option) \<Rightarrow> int \<Rightarrow> sql_db \<Rightarrow> sql_db \<times> (db_error + unit)" where
  "reset_chunk_for_retranscription fails chunk =
     atomically (update_chunk fails chunk (\<lambda>r.
       r(''transcription_status'' \<mapsto> SText (lit ''pending''), ''transcription_attempts'' \<mapsto> SInt 0,
         ''last_transcription_attempt_at'' \<mapsto> SNull, ''transcription_failure_reason'' \<mapsto> SNull)))"

definition replace_audio_transcriptions ::
  "write_env \<Rightarrow> (nat \<Rightarrow> db_error option) \<Rightarrow> timestamp \<Rightarrow> int \<Rightarrow> replacement list \<Rightarrow> rstr \<Rightarrow> rstr \<Rightarrow> bool \<Rightarrow> timestamp \<Rightarrow> sql_db
    \<Rightarrow> sql_db \<times> (db_error + unit)" where
  "replace_audio_transcriptions env fails now chunk segments engine device input ts =
     (if segments = [] \<or> list_all (\<lambda>s. trim (rp_text s) = []) segments
      then record_chunk_outcome env fails now chunk Silent
      else record_chunk_outcome env fails now chunk (Transcribed segments engine device input ts))"

definition replace_audio_transcription ::
  "write_env \<Rightarrow> (nat \<Rightarrow> db_error option) \<Rightarrow> timestamp \<Rightarrow> int \<Rightarrow> rstr \<Rightarrow> rstr \<Rightarrow> rstr \<Rightarrow> bool \<Rightarrow> timestamp \<Rightarrow> f64 option \<Rightarrow> int option
    \<Rightarrow> sql_db \<Rightarrow> sql_db \<times> (db_error + unit)" where
  "replace_audio_transcription env fails now chunk transcription engine device input ts duration speaker =
     (if trim transcription = [] then record_chunk_outcome env fails now chunk Silent
      else replace_audio_transcriptions env fails now chunk
        [\<lparr>rp_text = trim transcription, rp_start = 0, rp_end = (case duration of Some d \<Rightarrow> d | None \<Rightarrow> 0), rp_speaker = speaker\<rparr>]
        engine device input ts)"

text \<open>The statement sets the text of every row of the chunk; it fails as a whole when two rows would be equal, and that
  error counts as nothing to do. The answer counts the rows.\<close>

definition rows_of_chunk :: "int \<Rightarrow> sql_db \<Rightarrow> (int \<times> sql_row) list" where
  "rows_of_chunk chunk db = filter (\<lambda>(i, r). col r ''audio_chunk_id'' = SInt chunk) (t_rows (db ''audio_transcriptions''))"

definition update_audio_transcription ::
  "(nat \<Rightarrow> db_error option) \<Rightarrow> int \<Rightarrow> rstr \<Rightarrow> sql_db \<Rightarrow> sql_db \<times> (db_error + nat)" where
  "update_audio_transcription fails chunk transcription db =
     (let trimmed = trim transcription in
      if trimmed = [] then (db, Inr 0)
      else if fails 0 \<noteq> None then (db, Inl (the (fails 0)))
      else if 1 < length (rows_of_chunk chunk db) then (db, Inr 0)
      else (update_rows ''audio_transcriptions'' (\<lambda>i r. col r ''audio_chunk_id'' = SInt chunk)
              (\<lambda>i r. r(''transcription'' \<mapsto> SText trimmed, ''text_length'' \<mapsto> SInt (int (length trimmed)))) db,
            Inr (length (rows_of_chunk chunk db))))"

section \<open>The entry points\<close>

text \<open>What they read, and the write they submit: the row numbers and the verdict of the check are those of the moment of
  reading.\<close>

definition insert_audio_chunk_and_transcription ::
  "text_env \<Rightarrow> rstr \<Rightarrow> rstr \<Rightarrow> transcript_write \<Rightarrow> sql_db \<Rightarrow> write_op" where
  "insert_audio_chunk_and_transcription te cutoff file_path t db =
     (let trimmed = trim (tw_text t);
          existing_chunk_id = get_audio_chunk_id file_path db;
          is_duplicate = (if trimmed \<noteq> [] then has_similar_recent_transcription te cutoff trimmed db else False)
      in InsertAudioChunkAndTranscription file_path t existing_chunk_id is_duplicate)"

text \<open>The outcome to record before the answer 0, or the write to submit.\<close>

definition insert_audio_transcription ::
  "text_env \<Rightarrow> rstr \<Rightarrow> int \<Rightarrow> transcript_write \<Rightarrow> sql_db \<Rightarrow> chunk_outcome option + write_op" where
  "insert_audio_transcription te cutoff chunk t db =
     (let trimmed = trim (tw_text t) in
      if trimmed = [] then Inl (if 0 < chunk then Some Silent else None)
      else if has_similar_recent_transcription te cutoff trimmed db then Inl (if 0 < chunk then Some Duplicate else None)
      else Inr (InsertAudioTranscription chunk (t\<lparr>tw_text := trimmed\<rparr>)))"

section \<open>The backlog\<close>

fun insert_earliest :: "int \<times> sql_row \<Rightarrow> (int \<times> sql_row) list \<Rightarrow> (int \<times> sql_row) list" where
  "insert_earliest x [] = [x]"
| "insert_earliest x (y # ys) =
     (if sql_le (col (snd x) ''timestamp'') (col (snd y) ''timestamp'') then x # y # ys else y # insert_earliest x ys)"

definition is_candidate :: "rstr \<Rightarrow> rstr \<Rightarrow> sql_row \<Rightarrow> bool" where
  "is_candidate since older_than r \<longleftrightarrow>
     col r ''transcription_status'' = SText (lit ''pending'')
     \<and> (case col r ''transcription_attempts'' of SInt n \<Rightarrow> n < MAX_TRANSCRIPTION_ATTEMPTS | _ \<Rightarrow> False)
     \<and> sql_le (SText since) (col r ''timestamp'') \<and> sql_le (col r ''timestamp'') (SText older_than)
     \<and> (case col r ''file_path'' of SText p \<Rightarrow> \<not> starts_with (map to_ascii_lowercase p) (lit ''cloud://'') | _ \<Rightarrow> False)"

definition get_reconciliation_candidate_chunks :: "rstr \<Rightarrow> rstr \<Rightarrow> nat \<Rightarrow> sql_db \<Rightarrow> int list" where
  "get_reconciliation_candidate_chunks since older_than limit db =
     map fst (take limit (foldr insert_earliest (filter (\<lambda>(i, r). is_candidate since older_than r) (t_rows (db ''audio_chunks''))) []))"

definition get_reconciliation_candidate_chunk_by_id :: "rstr \<Rightarrow> rstr \<Rightarrow> int \<Rightarrow> sql_db \<Rightarrow> int option" where
  "get_reconciliation_candidate_chunk_by_id since older_than chunk db =
     map_option fst (find (\<lambda>(i, r). i = chunk \<and> is_candidate since older_than r) (t_rows (db ''audio_chunks'')))"

definition get_reconciliation_backlog_summary :: "rstr \<Rightarrow> rstr \<Rightarrow> sql_db \<Rightarrow> nat \<times> sqlv" where
  "get_reconciliation_backlog_summary since older_than db =
     (let rows = foldr insert_earliest (filter (\<lambda>(i, r). is_candidate since older_than r) (t_rows (db ''audio_chunks''))) []
      in (length rows, case rows of x # xs \<Rightarrow> col (snd x) ''timestamp'' | [] \<Rightarrow> SNull))"

end
