(* ===== verification/AudioChunkProperties.thy ===== *)
theory AudioChunkProperties
  imports AudioChunks WriteOpProperties
begin

text \<open>
  Properties of audio chunks: the end of the retries, the copies that pass the check together, and the order of the
  texts in the comparison.
\<close>

section \<open>The life of a chunk\<close>

lemma atomically_Inr: "atomically m db = (db', Inr x) \<Longrightarrow> \<exists>n. m (db, 0) = ((db', n), Inr x)"
  by (auto simp: atomically_def split: prod.splits sum.splits)

lemma atomically_Inl: "atomically m db = (db', Inl e) \<Longrightarrow> db' = db"
  by (auto simp: atomically_def split: prod.splits sum.splits)

lemma failed_outcome_keeps: "record_chunk_outcome env fails now c x db = (db', Inl e) \<Longrightarrow> db' = db"
  by (cases x) (auto simp: record_chunk_outcome_def Let_def dest: atomically_Inl split: if_splits)

text \<open>The outcomes recorded for a chunk, in their order; one that is not stored is not in the list.\<close>

inductive recorded :: "write_env \<Rightarrow> int \<Rightarrow> chunk_outcome list \<Rightarrow> sql_db \<Rightarrow> sql_db \<Rightarrow> bool" for env c where
  none: "recorded env c [] db db"
| stored: "record_chunk_outcome env fails now c x db = (db1, Inr ()) \<Longrightarrow> recorded env c xs db1 db2 \<Longrightarrow> recorded env c (x # xs) db db2"
| lost: "record_chunk_outcome env fails now c x db = (db1, Inl e) \<Longrightarrow> recorded env c xs db1 db2 \<Longrightarrow> recorded env c xs db db2"

text \<open>Statements that leave the chunks alone.\<close>

definition keeps_chunks :: "'a sql \<Rightarrow> bool" where
  "keeps_chunks m \<longleftrightarrow> (\<forall>db n db' n' x. m (db, n) = ((db', n'), Inr x) \<longrightarrow> db' ''audio_chunks'' = db ''audio_chunks'')"

lemma keeps_delete: "keeps_chunks (delete_stmt fails ''audio_transcriptions'' p)"
  by (auto simp: keeps_chunks_def delete_stmt_def stmt_Inr delete_rows_def)

lemma keeps_transcript: "keeps_chunks (insert_transcript env fails c t ts)"
  by (auto simp: keeps_chunks_def insert_transcript_def stmt_Inr insert_row_def Let_def split: if_splits)

lemma keeps_for_each: "(\<And>x. keeps_chunks (f x)) \<Longrightarrow> keeps_chunks (for_each f xs)"
proof (induction xs)
  case (Cons x xs)
  have x: "keeps_chunks (f x)" and xs: "keeps_chunks (for_each f xs)" using Cons by blast+
  show ?case unfolding keeps_chunks_def
  proof (intro allI impI)
    fix db n db' n' ys
    assume "for_each f (x # xs) (db, n) = ((db', n'), Inr ys)"
    then obtain db1 n1 y zs where "f x (db, n) = ((db1, n1), Inr y)" "for_each f xs (db1, n1) = ((db', n'), Inr zs)"
      by (auto simp: sql_Inr)
    then show "db' ''audio_chunks'' = db ''audio_chunks''" using x xs unfolding keeps_chunks_def by metis
  qed
qed (simp add: keeps_chunks_def ret_def)

lemma updated_chunk:
  assumes "update_chunk fails c f (db, n) = ((db', n'), Inr u)" "(c, r) \<in> set (t_rows (db ''audio_chunks''))"
  shows "(c, f r) \<in> set (t_rows (db' ''audio_chunks''))"
  using assms by (force simp: update_chunk_def update_stmt_def stmt_Inr update_rows_def)

definition status_after :: "chunk_outcome \<Rightarrow> int \<Rightarrow> sqlv \<Rightarrow> sqlv" where
  "status_after x n s =
     (case x of
        Failed reason \<Rightarrow> if MAX_TRANSCRIPTION_ATTEMPTS \<le> n + 1 then SText (lit ''failed'') else s
      | FailedPermanent reason \<Rightarrow> SText (lit ''failed'')
      | Silent \<Rightarrow> SText (lit ''silent'')
      | Duplicate \<Rightarrow> SText (lit ''transcribed'')
      | Transcribed segments engine device input ts \<Rightarrow>
          if filter (\<lambda>s. trim (rp_text s) \<noteq> []) segments = [] then SText (lit ''silent'') else SText (lit ''transcribed''))"

definition chunk_row :: "int \<Rightarrow> sqlv \<Rightarrow> sqlv \<Rightarrow> sqlv \<Rightarrow> sql_row \<Rightarrow> bool" where
  "chunk_row n s path ts r \<longleftrightarrow> col r ''transcription_attempts'' = SInt n \<and> col r ''transcription_status'' = s
     \<and> col r ''file_path'' = path \<and> col r ''timestamp'' = ts"

lemma outcome_step:
  assumes "record_chunk_outcome env fails now c x db = (db', Inr ())" "(c, r) \<in> set (t_rows (db ''audio_chunks''))"
    "chunk_row n s path ts r"
  shows "\<exists>r'. (c, r') \<in> set (t_rows (db' ''audio_chunks'')) \<and> chunk_row (n + 1) (status_after x n s) path ts r'"
proof -
  have row: "chunk_row (n + 1) (g r) path ts (attempted env now reason g r)" for reason g
    using assms(3) by (simp add: chunk_row_def attempted_def col_def)
  have mark: ?thesis if "mark_outcome env fails now c st (db1, k) = ((db', k'), Inr u)" "db1 ''audio_chunks'' = db ''audio_chunks''"
      "status_after x n s = SText (lit st)" for st db1 k k' u
    using updated_chunk [OF that(1) [unfolded mark_outcome_def], of r] assms(2) that(2,3)
      row [of "\<lambda>r. SText (lit st)" SNull] by auto
  show ?thesis
  proof (cases x)
    case (Transcribed segments engine device input seen)
    let ?kept = "filter (\<lambda>s. trim (rp_text s) \<noteq> []) segments"
    show ?thesis
    proof (cases "?kept = []")
      case True
      then show ?thesis using assms(1) Transcribed mark [of "''silent''" db 0]
        by (auto simp: record_chunk_outcome_def status_after_def dest!: atomically_Inr)
    next
      case False
      then obtain db1 n1 db2 n2 ids k' u where
        a: "delete_stmt fails ''audio_transcriptions'' (\<lambda>i r. col r ''audio_chunk_id'' = SInt c) (db, 0) = ((db1, n1), Inr ())"
        "for_each (\<lambda>s. insert_transcript env fails c (replacement_write engine device input s) seen) (enumerate 0 ?kept) (db1, n1) = ((db2, n2), Inr ids)"
        "mark_outcome env fails now c ''transcribed'' (db2, n2) = ((db', k'), Inr u)"
        using assms(1) Transcribed by (auto simp: record_chunk_outcome_def Let_def followed_Inr dest!: atomically_Inr)
      have "db2 ''audio_chunks'' = db ''audio_chunks''"
        using keeps_delete [unfolded keeps_chunks_def, rule_format, OF a(1)]
          keeps_for_each [OF keeps_transcript, unfolded keeps_chunks_def, rule_format, OF a(2)] by simp
      then show ?thesis using mark [OF a(3)] Transcribed False by (simp add: status_after_def)
    qed
  next
    case (Failed reason)
    then obtain k u where "update_chunk fails c (attempted env now (SText reason)
        (\<lambda>r. case col r ''transcription_attempts'' of
               SInt n \<Rightarrow> if MAX_TRANSCRIPTION_ATTEMPTS \<le> n + 1 then SText (lit ''failed'') else col r ''transcription_status''
             | v \<Rightarrow> col r ''transcription_status'')) (db, 0) = ((db', k), Inr u)"
      using assms(1) by (auto simp: record_chunk_outcome_def dest!: atomically_Inr)
    from updated_chunk [OF this assms(2)] show ?thesis
      using row [of "\<lambda>r. status_after x n s" "SText reason"] assms(3) Failed
      by (auto simp: chunk_row_def status_after_def attempted_def)
  next
    case (FailedPermanent reason)
    then obtain k u where "update_chunk fails c (attempted env now (SText reason) (\<lambda>r. SText (lit ''failed''))) (db, 0) = ((db', k), Inr u)"
      using assms(1) by (auto simp: record_chunk_outcome_def dest!: atomically_Inr)
    from updated_chunk [OF this assms(2)] show ?thesis using row [of "\<lambda>r. SText (lit ''failed'')"] FailedPermanent
      by (auto simp: status_after_def)
  qed (use assms(1) mark [of "''silent''" db 0] mark [of "''transcribed''" db 0] in
        \<open>auto simp: record_chunk_outcome_def status_after_def dest!: atomically_Inr\<close>)
qed

lemma status_pending:
  "status_after x n s = SText (lit ''pending'') \<longleftrightarrow> (\<exists>reason. x = Failed reason) \<and> n + 1 < MAX_TRANSCRIPTION_ATTEMPTS \<and> s = SText (lit ''pending'')"
  by (cases x) (auto simp: status_after_def lit_def)

lemma recorded_status:
  assumes "recorded env c xs db db'" "(c, r) \<in> set (t_rows (db ''audio_chunks''))" "chunk_row n s path ts r"
  shows "\<exists>r' s'. (c, r') \<in> set (t_rows (db' ''audio_chunks'')) \<and> chunk_row (n + int (length xs)) s' path ts r'
    \<and> (s' = SText (lit ''pending'') \<longleftrightarrow> s = SText (lit ''pending'') \<and> (\<forall>x \<in> set xs. \<exists>reason. x = Failed reason)
        \<and> (xs = [] \<or> n + int (length xs) < MAX_TRANSCRIPTION_ATTEMPTS))"
  using assms
proof (induction xs db db' arbitrary: r n s rule: recorded.induct)
  case (none db)
  then show ?case by force
next
  case (stored fails now x db db1 xs db2)
  obtain r1 where r1: "(c, r1) \<in> set (t_rows (db1 ''audio_chunks''))" "chunk_row (n + 1) (status_after x n s) path ts r1"
    using outcome_step [OF stored.hyps(1) stored.prems] by blast
  obtain r' s' where r': "(c, r') \<in> set (t_rows (db2 ''audio_chunks''))" "chunk_row (n + 1 + int (length xs)) s' path ts r'"
    "s' = SText (lit ''pending'') \<longleftrightarrow> status_after x n s = SText (lit ''pending'') \<and> (\<forall>x \<in> set xs. \<exists>reason. x = Failed reason)
        \<and> (xs = [] \<or> n + 1 + int (length xs) < MAX_TRANSCRIPTION_ATTEMPTS)"
    using stored.IH [OF r1] by blast
  show ?case
  proof (intro exI conjI)
    show "(c, r') \<in> set (t_rows (db2 ''audio_chunks''))" by fact
    show "chunk_row (n + int (length (x # xs))) s' path ts r'" using r'(2) by (simp add: add_ac)
    show "s' = SText (lit ''pending'') \<longleftrightarrow> s = SText (lit ''pending'') \<and> (\<forall>y \<in> set (x # xs). \<exists>reason. y = Failed reason)
        \<and> (x # xs = [] \<or> n + int (length (x # xs)) < MAX_TRANSCRIPTION_ATTEMPTS)"
      using r'(3) status_pending [of x n s] by (auto simp: MAX_TRANSCRIPTION_ATTEMPTS_def)
  qed
next
  case (lost fails now x db db1 e xs db2)
  then have "db1 = db" by (metis failed_outcome_keeps)
  then show ?case using lost.IH [OF _ lost.prems(2)] lost.prems(1) by simp
qed

text \<open>C21: The retries of a chunk end. Whatever outcomes are recorded, and however many of them are lost by errors of the
  database, the chunk stays a candidate exactly as long as all the stored ones are transient failures and fewer than
  five were counted; every stored outcome is counted.\<close>

theorem retries_of_a_chunk_end:
  assumes "recorded env c xs db db'" "(c, r) \<in> set (t_rows (db ''audio_chunks''))" "col r ''transcription_attempts'' = SInt n"
  shows "\<exists>r'. (c, r') \<in> set (t_rows (db' ''audio_chunks'')) \<and> col r' ''transcription_attempts'' = SInt (n + int (length xs))
    \<and> (\<forall>since older. is_candidate since older r' \<longleftrightarrow>
         is_candidate since older r \<and> (\<forall>x \<in> set xs. \<exists>reason. x = Failed reason) \<and> n + int (length xs) < MAX_TRANSCRIPTION_ATTEMPTS)"
proof -
  have "chunk_row n (col r ''transcription_status'') (col r ''file_path'') (col r ''timestamp'') r"
    using assms(3) by (simp add: chunk_row_def)
  from recorded_status [OF assms(1,2) this] obtain r' s' where r': "(c, r') \<in> set (t_rows (db' ''audio_chunks''))"
    "col r' ''transcription_attempts'' = SInt (n + int (length xs))" "col r' ''file_path'' = col r ''file_path''"
    "col r' ''timestamp'' = col r ''timestamp''"
    "col r' ''transcription_status'' = SText (lit ''pending'') \<longleftrightarrow> col r ''transcription_status'' = SText (lit ''pending'')
      \<and> (\<forall>x \<in> set xs. \<exists>reason. x = Failed reason) \<and> (xs = [] \<or> n + int (length xs) < MAX_TRANSCRIPTION_ATTEMPTS)"
    unfolding chunk_row_def by blast
  have "is_candidate since older r' \<longleftrightarrow>
      is_candidate since older r \<and> (\<forall>x \<in> set xs. \<exists>reason. x = Failed reason) \<and> n + int (length xs) < MAX_TRANSCRIPTION_ATTEMPTS" for since older
    unfolding is_candidate_def r'(2-5) assms(3) sqlv.case
    using less_le_trans [of "n + int (length xs)" MAX_TRANSCRIPTION_ATTEMPTS] by (cases "xs = []") auto
  then show ?thesis using r'(1,2) by blast
qed

section \<open>Copies of a text\<close>

lemma new_chunk_written:
  assumes "trim (tw_text t) \<noteq> []"
  shows "\<exists>db' n. execute_single_write env Map.empty now (InsertAudioChunkAndTranscription path t 0 False) (db, 0)
      = ((db', n), Inr (Id (t_next (db ''audio_chunks''))))
    \<and> t_next (db' ''audio_chunks'') = t_next (db ''audio_chunks'') + 1
    \<and> (\<exists>r. (t_next (db ''audio_chunks''), r) \<in> set (t_rows (db' ''audio_chunks'')) \<and> col r ''file_path'' = SText path)
    \<and> (\<forall>i r. (i, r) \<in> set (t_rows (db ''audio_chunks'')) \<longrightarrow>
         (\<exists>r'. (i, r') \<in> set (t_rows (db' ''audio_chunks'')) \<and> col r' ''file_path'' = col r ''file_path''))
    \<and> transcript_exists (t_next (db ''audio_chunks'')) (tw_text t) db'
    \<and> (\<forall>i s. transcript_exists i s db \<longrightarrow> transcript_exists i s db')"
proof -
  let ?ts = "case tw_time t of Some x \<Rightarrow> x | None \<Rightarrow> now"
  let ?c = "t_next (db ''audio_chunks'')"
  obtain db1 where db1: "insert_row ''audio_chunks'' [(''file_path'', SText path), (''timestamp'', SText (sqlx_time env ?ts))] db = (db1, ?c)"
    by (auto simp: insert_row_def Let_def)
  note rows1 = insert_row_rows [OF db1]
  obtain db2 i where db2: "(if transcript_exists ?c (tw_text t) db1 then (db1, None)
      else let (db', i) = insert_row ''audio_transcriptions'' (transcript_cols env ?c t ?ts) db1 in (db', Some i)) = (db2, i)" by fastforce
  have e2: "transcript_exists ?c (tw_text t) db2" "\<forall>i s. transcript_exists i s db1 \<longrightarrow> transcript_exists i s db2"
    "db2 ''audio_chunks'' = db1 ''audio_chunks''"
    using db2 by (auto simp: insert_row_def Let_def transcript_exists_def transcript_cols_def col_def split: if_splits)
  obtain db3 where db3: "mark_chunk env Map.empty ''transcribed'' ?ts ?c (db2, 2) = ((db3, 3), Inr ())"
    "t_next (db3 ''audio_chunks'') = t_next (db2 ''audio_chunks'')" "db3 ''audio_transcriptions'' = db2 ''audio_transcriptions''"
    "\<forall>i r. (i, r) \<in> set (t_rows (db2 ''audio_chunks'')) \<longrightarrow>
       (\<exists>r'. (i, r') \<in> set (t_rows (db3 ''audio_chunks'')) \<and> col r' ''file_path'' = col r ''file_path'')"
    by (force simp: mark_chunk_def update_stmt_def stmt_def update_rows_def col_def)
  have "execute_single_write env Map.empty now (InsertAudioChunkAndTranscription path t 0 False) (db, 0) = ((db3, 3), Inr (Id ?c))"
    using assms db1 db2 db3(1)
    by (simp add: execute_single_write_def write_chunk_and_transcription_def chunk_or_new_def insert_chunk_def insert_stmt_def
        insert_transcript_def followed_def stmt_def ret_def numeral_2_eq_2 Let_def)
  moreover have "\<exists>r. (?c, r) \<in> set (t_rows (db3 ''audio_chunks'')) \<and> col r ''file_path'' = SText path"
    using rows1 db3(4) e2(3) by (fastforce simp: col_def)
  moreover have "\<forall>i s. transcript_exists i s db \<longrightarrow> transcript_exists i s db3"
    using rows1 e2(2) db3(3) by (simp add: transcript_exists_def)
  ultimately show ?thesis using rows1 e2 db3 by (simp add: transcript_exists_def)
qed

text \<open>The check for copies holds only at the moment it reads. Two writes whose checks both come before the first of them
  is stored are both stored, in two chunks, also when their texts are the same, and when both come from one file
  this file has two chunks.\<close>

theorem copies_checked_together_are_stored:
  assumes "healthy env be" "pw_fails v = Map.empty" "pw_fails w = Map.empty"
    "pw_op v = insert_audio_chunk_and_transcription te cutoff path t db"
    "pw_op w = insert_audio_chunk_and_transcription te cutoff path' t' db"
    "get_audio_chunk_id path db = 0" "get_audio_chunk_id path' db = 0" "trim (tw_text t) \<noteq> []" "trim (tw_text t') \<noteq> []"
    "\<not> has_similar_recent_transcription te cutoff (trim (tw_text t)) db"
    "\<not> has_similar_recent_transcription te cutoff (trim (tw_text t')) db"
  shows "\<exists>db' c d. execute_batch env be [v, w] db = (db', [Inr (Id c), Inr (Id d)]) \<and> c \<noteq> d
    \<and> transcript_exists c (tw_text t) db' \<and> transcript_exists d (tw_text t') db'
    \<and> (\<exists>r. (c, r) \<in> set (t_rows (db' ''audio_chunks'')) \<and> col r ''file_path'' = SText path)
    \<and> (\<exists>r. (d, r) \<in> set (t_rows (db' ''audio_chunks'')) \<and> col r ''file_path'' = SText path')"
proof -
  have ops: "pw_op v = InsertAudioChunkAndTranscription path t 0 False" "pw_op w = InsertAudioChunkAndTranscription path' t' 0 False"
    using assms by (simp_all add: insert_audio_chunk_and_transcription_def Let_def)
  let ?c = "t_next (db ''audio_chunks'')"
  obtain db1 n1 where db1: "execute_single_write env Map.empty (pw_now v) (InsertAudioChunkAndTranscription path t 0 False) (db, 0)
      = ((db1, n1), Inr (Id ?c))" "t_next (db1 ''audio_chunks'') = ?c + 1"
    "\<exists>r. (?c, r) \<in> set (t_rows (db1 ''audio_chunks'')) \<and> col r ''file_path'' = SText path" "transcript_exists ?c (tw_text t) db1"
    using new_chunk_written [OF assms(8)] by blast
  let ?d = "t_next (db1 ''audio_chunks'')"
  obtain db2 n2 where db2: "execute_single_write env Map.empty (pw_now w) (InsertAudioChunkAndTranscription path' t' 0 False) (db1, 0)
      = ((db2, n2), Inr (Id ?d))" "\<exists>r. (?d, r) \<in> set (t_rows (db2 ''audio_chunks'')) \<and> col r ''file_path'' = SText path'"
    "\<forall>i r. (i, r) \<in> set (t_rows (db1 ''audio_chunks'')) \<longrightarrow>
         (\<exists>r'. (i, r') \<in> set (t_rows (db2 ''audio_chunks'')) \<and> col r' ''file_path'' = col r ''file_path'')"
    "transcript_exists ?d (tw_text t') db2" "\<forall>i s. transcript_exists i s db1 \<longrightarrow> transcript_exists i s db2"
    using new_chunk_written [OF assms(9)] by blast
  have runs: "run_write env v db = (db1, Inr (Id ?c))" "run_write env w db1 = (db2, Inr (Id ?d))"
    using db1(1) db2(1) ops assms(2,3) by (simp_all add: run_write_def)
  then have "execute_batch env be [v, w] db = (db2, [Inr (Id ?c), Inr (Id ?d)])"
    using clean_batch [OF assms(1), of "[v, w]" db] by (simp add: is_fatal_def stored_by_def)
  then show ?thesis using db1(2,3,4) db2(2-5) by (metis less_add_one less_irrefl)
qed

section \<open>Similarity\<close>

lemma few_ascii: "chars (lit ''a a a b'') = [97, 32, 97, 32, 97, 32, 98]" "chars (lit ''a b c d'') = [97, 32, 98, 32, 99, 32, 100]"
  by code_simp+

text \<open>The comparison of two transcripts with the same number of words depends on their order, so whether a transcript
  is stored can depend on which of the two devices comes first: the words of the one may all occur in the other,
  and not the other way round.\<close>

theorem similarity_depends_on_order:
  assumes "te_lower te (lit ''a a a b'') = lit ''a a a b''" "te_lower te (lit ''a b c d'') = lit ''a b c d''"
    "te_alphanumeric te 97" "te_alphanumeric te 98" "te_alphanumeric te 99" "te_alphanumeric te 100"
  shows "is_similar_transcription te (lit ''a a a b'') (lit ''a b c d'') DEDUP_SIMILARITY_THRESHOLD
    \<and> \<not> is_similar_transcription te (lit ''a b c d'') (lit ''a a a b'') DEDUP_SIMILARITY_THRESHOLD"
proof -
  have "is_whitespace 32" "\<not> is_whitespace 97" "\<not> is_whitespace 98" "\<not> is_whitespace 99" "\<not> is_whitespace 100" by code_simp+
  then have words: "normalize_to_words te (lit ''a a a b'') = [[97], [97], [97], [98]]"
    "normalize_to_words te (lit ''a b c d'') = [[97], [98], [99], [100]]"
    using assms by (simp_all add: normalize_to_words_def few_ascii)
  show ?thesis
    by (simp add: is_similar_transcription_def word_jaccard_similarity_def containment_similarity_def words DEDUP_SIMILARITY_THRESHOLD_def Let_def
        insert_commute Int_insert_left Un_insert_left card_insert_if)
qed

end
