(* ===== verification/WriteWitnesses.thy ===== *)
theory WriteWitnesses
  imports AudioChunkProperties
begin

text \<open>
  The properties of the database at a concrete environment: an empty database, a batch in which nothing fails, and
  small writes.
\<close>

definition sample_node :: "nat \<Rightarrow> element_node" where
  "sample_node d = \<lparr>ax_role = [], ax_text = [], ax_depth = d, ax_bounds = None, ax_on_screen = None, ax_texts = Map.empty, ax_flags = Map.empty\<rparr>"

definition sample_elements :: element_env where
  "sample_elements = \<lparr>read_ocr = \<lambda>_. None, read_ax = \<lambda>_. Some (map sample_node [0, 1, 2, 1, 3]), parse_f64 = \<lambda>_. None,
     properties_text = \<lambda>_. []\<rparr>"

definition write_sample_env :: write_env where
  "write_sample_env = element_env.extend sample_elements
     (write_env.fields (\<lambda>s. s) (\<lambda>t. [nat t]) (\<lambda>t. [nat t]) (\<lambda>sql binds db. db))"

definition calm :: batch_env where
  "calm = \<lparr>be_permit = Granted, be_acquire = \<lambda>_. Connection, be_begin = Map.empty, be_commit = None, be_text = \<lambda>_. []\<rparr>"

definition empty_db :: sql_db where "empty_db = (\<lambda>t. \<lparr>t_rows = [], t_next = 1\<rparr>)"

definition queued_write :: pending_write where
  "queued_write = \<lparr>pw_op = UpdateUiEventFrameId 1 2, pw_now = 0, pw_fails = Map.empty\<rparr>"

definition sample_transcript :: transcript_write where
  "sample_transcript = \<lparr>tw_text = lit ''yes'', tw_offset = 0, tw_engine = [], tw_device = [], tw_input = True, tw_speaker = None,
     tw_start = None, tw_end = None, tw_time = None\<rparr>"

lemma calm_healthy: "healthy write_sample_env calm"
  by (simp add: healthy_def calm_def max_retries_def numeral_3_eq_3 begin_attempt_def)

lemma sample_run: "run_write write_sample_env queued_write db = (update_rows ''ui_events'' (\<lambda>i r. i = 1 \<and> col r ''frame_id'' = SNull)
    (\<lambda>i r. r(''frame_id'' \<mapsto> SInt 2)) db, Inr Done)"
  by (simp add: run_write_def queued_write_def execute_single_write_def followed_def update_stmt_def stmt_def ret_def)

lemma queued_answers: "answers_of write_sample_env (replicate n queued_write) db = replicate n (Inr Done)"
  by (induction n arbitrary: db) (simp_all add: sample_run)

lemma sample_batch: "execute_batch write_sample_env calm (replicate n queued_write) db
    = (stored_by write_sample_env (replicate n queued_write) db, replicate n (Inr Done))"
  using clean_batch [OF calm_healthy, of "replicate n queued_write" db] by (simp add: queued_answers is_fatal_def list_ex_iff)


theorem batching_is_transparent_witness:
  "run_batches write_sample_env calm [[queued_write], [queued_write, queued_write]] empty_db
   = execute_batch write_sample_env calm [queued_write, queued_write, queued_write] empty_db"
  using batching_is_transparent [OF calm_healthy, of "[[queued_write], [queued_write, queued_write]]" empty_db]
    queued_answers [of 3 empty_db] by (simp add: numeral_3_eq_3 is_fatal_def)

lemma sample_submitted: "queue_steps write_sample_env (new_queue empty_db) (submit queued_write (new_queue empty_db))"
  by (rule r_into_rtranclp, rule queue_step.submitted) (simp add: new_queue_def CHANNEL_CAPACITY_def)

theorem writes_are_answered_in_order_witness:
  "\<exists>ws. all_writes (submit queued_write (new_queue empty_db)) = all_writes (new_queue empty_db) @ ws"
  using writes_are_answered_in_order [OF rtranclp.rtrancl_refl sample_submitted] by blast

text \<open>A first sleep in which a write waits, up to its answer.\<close>

definition woken :: write_queue where
  "woken = drain_batch write_sample_env calm [queued_write] (request_write_resume (await_notification [queued_write] (take_batch 1
     (submit queued_write (request_write_pause (new_queue empty_db))))))"

lemma woken_reached: "queue_steps write_sample_env (new_queue empty_db) woken"
proof -
  let ?p = "request_write_pause (new_queue empty_db)"
  let ?s = "submit queued_write ?p"
  let ?t = "take_batch 1 ?s"
  let ?a = "await_notification [queued_write] ?t"
  let ?r = "request_write_resume ?a"
  note defs = request_write_pause_def request_write_resume_def submit_def take_batch_def await_notification_def new_queue_def
  have "queue_step write_sample_env (new_queue empty_db) ?p" by (rule queue_step.paused)
  moreover have "queue_step write_sample_env ?p ?s" by (rule queue_step.submitted) (simp add: defs CHANNEL_CAPACITY_def)
  moreover have "queue_step write_sample_env ?s ?t" by (rule queue_step.taken) (simp_all add: defs MAX_BATCH_SIZE_def)
  moreover have "queue_step write_sample_env ?t ?a" by (rule queue_step.awaits) (simp add: defs)
  moreover have "queue_step write_sample_env ?a ?r" by (rule queue_step.resumed)
  moreover have "queue_step write_sample_env ?r woken" unfolding woken_def by (rule queue_step.drained) (simp add: defs)
  ultimately show ?thesis by (meson converse_rtranclp_into_rtranclp rtranclp.rtrancl_refl)
qed

lemma woken_facts: "wq_phase woken = Idle" "wq_notify woken" "wq_channel woken = []" "wq_answered woken = [(queued_write, Inr Done)]"
  using sample_batch [of 1 empty_db]
  by (simp_all add: woken_def drain_batch_def request_write_pause_def request_write_resume_def submit_def take_batch_def
      await_notification_def new_queue_def)

theorem stale_permit_writes_asleep_witness:
  "\<exists>q. queue_steps write_sample_env (new_queue empty_db) q \<and> wq_paused q \<and> wq_phase q = Executing [queued_write]"
  using stale_permit_writes_asleep [OF woken_facts(1-3), of write_sample_env queued_write] woken_reached by (metis rtranclp_trans)

theorem elements_name_their_parents_witness:
  "\<exists>db'. insert_accessibility_elements sample_elements Map.empty 7 [] (empty_db, 0) = ((db', 5), Inr ())
    \<and> map (\<lambda>(i, r). col r ''parent_id'') (t_rows (db' ''elements'')) = [SNull, SInt 1, SInt 2, SInt 1, SNull]"
proof -
  let ?nodes = "map sample_node [0, 1, 2, 1, 3]"
  have nodes: "read_ax sample_elements [] = Some ?nodes" by (simp add: sample_elements_def)
  have depths: "map ax_depth ?nodes = [0, 1, 2, 1, 3]" by (simp add: sample_node_def)
  have parents: "map (tree_parent [0, 1, 2, 1, 3]) [0..<5] = [None, Some 0, Some 1, Some 0, None]" by code_simp
  have col: "col (map_of (ax_cols sample_elements 7 node p k)) ''parent_id'' = opt_int p" for node p k
    by (simp add: col_def ax_cols_def)
  obtain db' where db': "insert_accessibility_elements sample_elements Map.empty 7 [] (empty_db, 0) = ((db', 0 + length ?nodes), Inr ())"
    "t_rows (db' ''elements'') = t_rows (empty_db ''elements'')
        @ map (\<lambda>k. (t_next (empty_db ''elements'') + int k, map_of (ax_cols sample_elements 7 (?nodes ! k)
            (map_option (\<lambda>j. t_next (empty_db ''elements'') + int j) (tree_parent (map ax_depth ?nodes) k)) (int k)))) [0..<length ?nodes]"
    using elements_name_their_parents [OF nodes, of 7 empty_db 0] by blast
  have "map (\<lambda>(i, r). col r ''parent_id'') (t_rows (db' ''elements''))
      = map (opt_int \<circ> map_option (\<lambda>j. 1 + int j)) (map (tree_parent [0, 1, 2, 1, 3]) [0..<5])"
    unfolding db'(2) depths by (simp add: empty_db_def col comp_def upt_rec)
  then show ?thesis using db'(1) unfolding parents by (simp add: opt_int_def)
qed

theorem answers_have_their_type_witness: "answer_fits (pw_op queued_write) Done"
  by (rule answers_have_their_type [OF woken_reached]) (simp add: woken_facts)


definition sample_event :: ui_event_write where
  "sample_event = \<lparr>ue_time = [], ue_session = None, ue_relative_ms = 0, ue_type = [], ue_ints = Map.empty, ue_texts = Map.empty, ue_frame = None\<rparr>"

theorem failed_event_batch_keeps_rows_witness:
  "\<exists>db' r. execute_batch write_sample_env calm [\<lparr>pw_op = InsertUiEventsBatch [sample_event, sample_event], pw_now = 0, pw_fails = [1 \<mapsto> OtherFailed []]\<rparr>] empty_db
      = (db', [Inl (OtherFailed [])]) \<and> t_rows (db' ''ui_events'') = [(1, r)]"
  using failed_event_batch_keeps_rows [OF calm_healthy, where w = "\<lparr>pw_op = InsertUiEventsBatch [sample_event, sample_event], pw_now = 0,
      pw_fails = [1 \<mapsto> OtherFailed []]\<rparr>" and k = 1 and db = empty_db and e = "OtherFailed []" and events = "[sample_event, sample_event]"]
  by (auto simp: is_sqlite_connection_error_def empty_db_def)

lemma sample_trim: "trim (lit ''yes'') \<noteq> []" by code_simp

theorem written_chunks_leave_the_backlog_witness:
  "\<exists>db' c r. execute_single_write write_sample_env Map.empty 5 (InsertAudioChunkAndTranscription [97] sample_transcript 0 False) (empty_db, 0)
      = (db', Inr (Id c)) \<and> (c, r) \<in> set (t_rows (fst db' ''audio_chunks'')) \<and> col r ''transcription_status'' = SText (lit ''transcribed'')"
proof -
  have t: "trim (tw_text sample_transcript) \<noteq> []" using sample_trim by (simp add: sample_transcript_def)
  obtain db' n where w: "execute_single_write write_sample_env Map.empty 5 (InsertAudioChunkAndTranscription [97] sample_transcript 0 False) (empty_db, 0)
      = ((db', n), Inr (Id (t_next (empty_db ''audio_chunks''))))"
    using new_chunk_written [OF t] by blast
  from written_chunks_leave_the_backlog [OF w] show ?thesis using w t by auto
qed

definition sample_history :: sql_db where
  "sample_history = empty_db(''pipe_executions'' :=
     \<lparr>t_rows = [(1, [''pipe_name'' \<mapsto> SInt 1]), (2, [''pipe_name'' \<mapsto> SInt 2]), (3, [''pipe_name'' \<mapsto> SInt 1])], t_next = 4\<rparr>)"

theorem history_keeps_the_newest_witness:
  "\<exists>db'. execute_single_write write_sample_env Map.empty 0 (PipeDeleteOldExecutions 1) (sample_history, 0) = ((db', 1), Inr Done)
    \<and> length (runs_of (SInt 1) db') \<le> 1"
proof -
  obtain db' where w: "execute_single_write write_sample_env Map.empty 0 (PipeDeleteOldExecutions 1) (sample_history, 0) = ((db', 1), Inr Done)"
    by (simp add: execute_single_write_def delete_old_executions_def followed_def stmt_def ret_def)
  have "table_ok (sample_history ''pipe_executions'')" by (simp add: sample_history_def table_ok_def)
  from history_keeps_the_newest [OF this w, of "SInt 1"] show ?thesis using w by auto
qed

section \<open>Audio chunks\<close>

definition sample_chunks :: sql_db where
  "sample_chunks = empty_db(''audio_chunks'' :=
     \<lparr>t_rows = [(1, [''transcription_attempts'' \<mapsto> SInt 3, ''transcription_status'' \<mapsto> SText (lit ''pending''),
        ''timestamp'' \<mapsto> SText [5], ''file_path'' \<mapsto> SText [97]])], t_next = 2\<rparr>)"

theorem retries_of_a_chunk_end_witness:
  "\<exists>db' r. recorded write_sample_env 1 [Failed [], Failed []] sample_chunks db' \<and> (1, r) \<in> set (t_rows (db' ''audio_chunks''))
    \<and> col r ''transcription_attempts'' = SInt 5 \<and> \<not> is_candidate [0] [9] r"
proof -
  have fails: "\<exists>db'. record_chunk_outcome write_sample_env Map.empty 0 1 (Failed []) db = (db', Inr ())" for db
    by (simp add: record_chunk_outcome_def atomically_def update_chunk_def update_stmt_def stmt_def)
  then obtain db1 db2 where "record_chunk_outcome write_sample_env Map.empty 0 1 (Failed []) sample_chunks = (db1, Inr ())"
    "record_chunk_outcome write_sample_env Map.empty 0 1 (Failed []) db1 = (db2, Inr ())" by metis
  then have r: "recorded write_sample_env 1 [Failed [], Failed []] sample_chunks db2" by (blast intro: recorded.intros)
  have row: "(1, [''transcription_attempts'' \<mapsto> SInt 3, ''transcription_status'' \<mapsto> SText (lit ''pending''),
        ''timestamp'' \<mapsto> SText [5], ''file_path'' \<mapsto> SText [97]]) \<in> set (t_rows (sample_chunks ''audio_chunks''))"
    by (simp add: sample_chunks_def)
  from retries_of_a_chunk_end [OF r row, of 3] show ?thesis using r by (fastforce simp: col_def MAX_TRANSCRIPTION_ATTEMPTS_def)
qed

definition sample_text_env :: text_env where "sample_text_env = \<lparr>te_lower = \<lambda>s. s, te_alphanumeric = \<lambda>c. c \<noteq> 32\<rparr>"

theorem copies_checked_together_are_stored_witness:
  "\<exists>db' c d. execute_batch write_sample_env calm
      (let w = \<lparr>pw_op = insert_audio_chunk_and_transcription sample_text_env [] [97] sample_transcript empty_db, pw_now = 0, pw_fails = Map.empty\<rparr>
       in [w, w]) empty_db = (db', [Inr (Id c), Inr (Id d)]) \<and> c \<noteq> d
    \<and> transcript_exists c (lit ''yes'') db' \<and> transcript_exists d (lit ''yes'') db'"
proof -
  have t: "trim (tw_text sample_transcript) \<noteq> []" using sample_trim by (simp add: sample_transcript_def)
  have e: "get_audio_chunk_id [97] empty_db = 0" "\<not> has_similar_recent_transcription sample_text_env [] (trim (tw_text sample_transcript)) empty_db"
    by (simp_all add: get_audio_chunk_id_def has_similar_recent_transcription_def recent_transcriptions_def empty_db_def List.map_filter_simps)
  let ?w = "\<lparr>pw_op = insert_audio_chunk_and_transcription sample_text_env [] [97] sample_transcript empty_db, pw_now = 0, pw_fails = Map.empty\<rparr> :: pending_write"
  have w: "pw_fails ?w = Map.empty" "pw_op ?w = insert_audio_chunk_and_transcription sample_text_env [] [97] sample_transcript empty_db" by simp_all
  have "tw_text sample_transcript = lit ''yes''" by (simp add: sample_transcript_def)
  with copies_checked_together_are_stored [OF calm_healthy w(1) w(1) w(2) w(2) e(1) e(1) t t e(2) e(2)] show ?thesis by (auto simp: Let_def)
qed

theorem similarity_depends_on_order_witness:
  "is_similar_transcription sample_text_env (lit ''a a a b'') (lit ''a b c d'') DEDUP_SIMILARITY_THRESHOLD
   \<and> \<not> is_similar_transcription sample_text_env (lit ''a b c d'') (lit ''a a a b'') DEDUP_SIMILARITY_THRESHOLD"
  by (rule similarity_depends_on_order) (simp_all add: sample_text_env_def)

end
