(* ===== verification/Spec2Isabelle.thy ===== *)
theory Spec2Isabelle
  imports IdProperties RedactProperties LinkerProperties MeetingScanProperties MeetingProperties
    CaptureProperties ControlProperties PipeProperties SchedulerProperties MemoryProperties PipeSyncProperties
    ConnectionProperties ConnectionWitnesses WriteQueueProperties ElementProperties WriteOpProperties
    AudioChunkProperties WriteWitnesses
begin

text \<open>
  A verification development for litepipe (the Rust workspace under \<open>src/crates\<close>), a program that
  records the screen and the UI events of a desktop, extracts text, and redacts what is personal.

  \<^bold>\<open>The parts and how they interact.\<close>
  The UI recorder sends a trigger (with a correlation id) for every UI event it persists. A capture
  loop per monitor (\<open>screenpipe-engine/src/event_driven_capture.rs\<close>) reduces a burst of triggers to one
  capture, unless a gate forbids it: the focus is elsewhere (\<open>focus_aware_controller.rs\<close>), the screen is
  locked, the battery profile pauses capture (\<open>power/\<close>), protected content is on the screen
  (\<open>drm_detector.rs\<close>), or the schedule says so (\<open>schedule_monitor.rs\<close>). How often it may capture comes
  from the power profile and from an HD session (\<open>high_fps_controller.rs\<close>), whether the accessibility
  tree is walked from a cost budget (\<open>screenpipe-a11y/src/budget.rs\<close>), and which windows are left out
  from user patterns (\<open>screenpipe-core/src/window_pattern.rs\<close>). A capture stores one row
  (\<open>screenpipe-capture/src/paired_capture.rs\<close>). The loop reports the frame or the drop to the frame linker
  (\<open>frame_linker.rs\<close>, \<open>frame_linker_actor.rs\<close>), which pairs the frame with the persisted events by
  correlation id. The meeting detector (\<open>meeting_detector.rs\<close>) scans the accessibility trees of running
  apps and keeps a meeting in the database while a call is visible. The redactor
  (\<open>screenpipe-redact\<close>) finds personal data with regular expressions, validates identifiers by their
  check digits, applies a policy, asks an AI adapter, and caches the result. Pipes
  (\<open>screenpipe-core/src/pipes/\<close>) are agents the program runs on a schedule, on events and on demand; the
  server decides each of their requests by their permissions.

  \<^bold>\<open>Shared layer.\<close>
  \<open>Prelude\<close>: fact collections, saturating arithmetic, list lemmas. \<open>RustText\<close>: a \<open>&str\<close> is the list of
  its UTF-8 bytes, with the operations of the standard library the code calls. \<open>RustTime\<close>: instants and
  durations as nanoseconds (saturating differences, \<open>checked_sub\<close>), floating-point literals as the
  rationals they write, \<open>lines\<close> and \<open>parse::<u8>\<close>.

  \<^bold>\<open>Identifier validators\<close> (\<open>screenpipe-redact/src/adapters/national_id.rs\<close>; every validator of the file
  but the address parser of the standard library).
  \<open>Checksums\<close>: the engines (\<open>digits\<close>, \<open>luhn\<close>, \<open>wsum\<close>, \<open>digits_mod\<close>, \<open>verhoeff_valid\<close>, \<open>iso7064_mod11_10\<close>,
  \<open>two_pass_mod11\<close>) and the two interfaces under which a scheme detects a wrong digit: the locale
  \<open>digit_automaton\<close> (with \<open>transposition_automaton\<close> and \<open>long_remainder\<close> above and beside it) for left folds,
  \<open>weighted_check\<close> for weighted sums. \<open>Verhoeff\<close>: the group behind the tables. \<open>IdsFinance\<close>, \<open>IdsEurope\<close>,
  \<open>IdsWorld\<close>: the validators in the order of the file. \<open>CryptoAddress\<close>: Base58Check, EIP-55 and bech32
  (hash functions are parameters). \<open>IdDetection\<close>, \<open>IdAlnum\<close>: which validators detect which errors, by
  interpretations of the locales on their weights and steps. \<open>IdProperties\<close>: the properties.

  \<^bold>\<open>Redactor\<close> (\<open>span.rs\<close>, \<open>adapters/regex.rs\<close>, \<open>pipeline.rs\<close>, \<open>cache.rs\<close>).
  \<open>RedactSpan\<close>: labels, sub-types, spans, policy. \<open>RedactEngine\<close>: \<open>redact_one\<close> with prefilter, context
  keywords, overlap suppression and rendering; the regex crates and the pattern table are arguments, a
  panic is \<open>None\<close>. \<open>RedactCorrect\<close>: spans are sorted, inside the text and disjoint, secrets win overlaps,
  the prefilter changes nothing, rendering replaces exactly the covered bytes. \<open>RedactPipeline\<close>: policy,
  AI fallback, batch and cache. \<open>RedactProperties\<close>: the properties, with literal search as the concrete
  matcher of the witnesses.

  \<^bold>\<open>Frame linker.\<close>
  \<open>FrameLinker\<close>: the state machine, its invariant and eviction. \<open>LinkerActor\<close>: the actor over it; the
  interface between them is the locale \<open>pairing_linker\<close>, interpreted on the linker. \<open>LinkerTrace\<close>: exact
  pairing while nothing expires or is evicted, and the actor as a refinement. \<open>LinkerProperties\<close>: the
  properties. The iteration order of the \<open>HashMap\<close> is an argument (any enumeration).

  \<^bold>\<open>Meeting detector\<close> (\<open>meeting_detector.rs\<close>).
  \<open>MeetingProfiles\<close>: the built-in table, one definition per row. \<open>MeetingSignals\<close>: signals, the macOS tree
  walk and the Windows search. \<open>MeetingScan\<close>: the walk computes the labels of the visible matching
  elements. \<open>MeetingDiscovery\<close>: which processes are meeting apps. \<open>MeetingMachine\<close>: \<open>advance_state\<close>,
  \<open>handle_no_apps_running\<close>, timeouts. \<open>MeetingLoop\<close>: a turn of \<open>run_meeting_detection_loop\<close> with its
  database and event effects in order. \<open>MeetingScanProperties\<close>, \<open>MeetingProperties\<close>: the properties.

  \<^bold>\<open>Capture.\<close>
  \<open>PowerProfile\<close>: what the platforms report (\<open>power/monitor.rs\<close>), the choice of a profile
  (\<open>power/profile.rs\<close>), the manager's polls and preference (\<open>power/manager.rs\<close>). \<open>HighFps\<close>: HD sessions and
  the loop's bookkeeping of the interval. \<open>FocusControl\<close>: monitor identities and capture states.
  \<open>WalkBudget\<close>: cost windows and tiers. \<open>WindowPattern\<close>: parsing and matching of user patterns.
  \<open>DrmGate\<close>: protected content, schedule, the lock flag; the three process-wide flags are one record.
  \<open>CaptureTriggers\<close>: triggers, draining and reduction, debounce, idle and visual clocks, monitors.
  \<open>PairedCapture\<close>: which text reaches which column of the row. \<open>CaptureOnce\<close>: \<open>do_capture\<close> with every
  early return. \<open>CaptureLoop\<close>: the start-up capture and a turn of the loop as functions of the loop's
  variables (\<open>capture_vars\<close>) and of what the turn reads (\<open>turn_reads\<close>: clocks, focus, flags, profile, HD
  snapshot, channel, screen), giving the next variables and the effects in order. \<open>CaptureFacts\<close>: facts
  about one turn. \<open>CaptureProperties\<close>: every trigger is answered once, frames named to the linker exist,
  stored rows were allowed, captures happen only when allowed, the interval refines a baseline and an
  override, and end to end with the linker an event gets the frame its trigger produced.
  \<open>ControlProperties\<close>: profiles and their manager, bounds of HD sessions, focus, schedule, protected
  content, black frames, walk budget, personal data in the row.

  \<^bold>\<open>Pipes.\<close>
  \<open>GlobMatch\<close>: the backtracking \<open>glob_match\<close> and the language of a pattern it decides.
  \<open>PipePermissions\<close> (\<open>pipes/permissions.rs\<close>): presets, allow, deny and default lists, time windows, the
  Rust and the emitted TypeScript view of them. \<open>PipeGate\<close> (\<open>pipe_permissions_middleware.rs\<close>): the registry of
  tokens and the checks and filters the server applies to a request. \<open>PipeSchedule\<close> (\<open>pipes/mod.rs\<close>): the
  words of a schedule, durations, times of day, cron, one-off runs and the lookback of a first run; the
  calendar and the cron crate are arguments. \<open>PresetFallback\<close> (\<open>pipes/preset_fallback.rs\<close>): the circuit breaker
  of each AI preset, with its back-off. \<open>PipeRun\<close> (\<open>pipes/mod.rs\<close>): the manager's state, the claim of a run,
  the choice of a preset, the attempts of \<open>run_pipe\<close>, background runs, stopping, and the reading of an agent's
  output and errors. \<open>PipeScheduler\<close>: a tick of the scheduler, events, chains of pipes and the queued
  tasks as one step relation \<open>sched_step\<close> with its invariant. \<open>PipeProperties\<close>, \<open>ScheduleProperties\<close>,
  \<open>PresetProperties\<close>, \<open>PipeRunProperties\<close>, \<open>SchedulerProperties\<close>: the properties.

  \<^bold>\<open>Files and synchronisation.\<close>
  \<open>PipeFiles\<close>: \<open>pipe.md\<close> with its front matter (the YAML reader is an argument), the flags and tombstones
  of the device, loading and reloading, enabling, editing, installing, updating and deleting a pipe, the
  bundled pipes and the favorites. \<open>SyncMerge\<close>: the manifests and the merge that pipes
  (\<open>pipes/sync.rs\<close>), memories (\<open>memories/sync.rs\<close>) and connections (\<open>connections/sync.rs\<close>) share; what
  happens to one name is its \<open>fate\<close>, and the locale \<open>row_choice\<close>, interpreted for each of the three
  comparisons, gives their common laws. \<open>SyncOrder\<close>: the merge of many manifests as a fold of fates.
  \<open>SyncPipes\<close>, \<open>SyncMemories\<close>, \<open>SyncConnections\<close>: the local manifest of each kind, its application, and the
  cycles of \<open>sync_api.rs\<close>. \<open>MemoryProperties\<close>: taking turns, devices converge in two rounds, and a settled
  device stays settled. \<open>PipeFileProperties\<close>, \<open>PipeSyncProperties\<close>: the front matter is read back, and what
  the use of modification times costs.

  \<^bold>\<open>Connections.\<close>
  \<open>SecretStore\<close> (\<open>screenpipe-secrets/src/store.rs\<close>): the table of secrets; cipher, base64 and SQL are
  arguments. \<open>ConnectionStore\<close> (\<open>screenpipe-connect/src/connections/mod.rs\<close>): \<open>connections.json\<close>, connecting and
  disconnecting, tombstones, the marks of the token generations. \<open>OauthTokens\<close> (\<open>oauth.rs\<close>): accounts, writing
  with a generation, refreshing. \<open>ConnectionProperties\<close>: the newest token wins every merge without deletions, a
  reconnection gets a higher generation, accounts are not guessed, secrets are read back, and the cases where
  the time of a row deceives the merge. \<open>ConnectionWitnesses\<close>: a JSON codec and concrete devices.

  \<^bold>\<open>Database.\<close>
  What the recorders produce is stored through one queue (\<open>screenpipe-db/src/write_queue.rs\<close>). \<open>SqlTables\<close>: tables
  as lists of numbered rows, the three kinds of statements with their failures, and the classes of errors
  (\<open>sqlite_error.rs\<close>). \<open>ElementRows\<close>: the rows of OCR blocks and accessibility nodes (\<open>db.rs\<close>).
  \<open>WriteOps\<close>: \<open>WriteOp\<close> and \<open>execute_single_write\<close>, every branch as its statements. \<open>WriteQueue\<close>: opening a
  transaction with its retries, a batch, and the channel, the loop, the callers and the sleep monitor as one step
  relation \<open>queue_step\<close>. \<open>AudioChunks\<close>: the comparison of transcripts (\<open>text_similarity.rs\<close>), the outcomes
  of a chunk and the backlog of the reconciliation. \<open>WriteQueueProperties\<close>: answers and effects of a batch,
  batching changes nothing, the order of the answers, the pause. \<open>ElementProperties\<close>: the stack of depths
  against the tree. \<open>WriteOpProperties\<close>: the shape of answers, numbers of rows, failures in the middle, the history of
  pipe runs. \<open>AudioChunkProperties\<close>: the end of retries and what the checks before a write miss.
  \<open>WriteWitnesses\<close>: an empty database and small writes. \<open>Json\<close> holds the JSON values that these and the files share.

  \<^bold>\<open>Bounds and fuel.\<close>
  No definition uses fuel. The loops that may run for ever (the capture loop, the meeting loop, the actor,
  the power poll) are modelled by one turn and by a run over a list of inputs, so a property over all lists
  covers every finite prefix. The sampling loops of the black-frame check are total by a measure. Word widths
  are written out where the code can wrap or saturate (\<open>u64 as i64\<close>, \<open>u32 as i32\<close>, the linker's counters,
  saturating sums); counters that could only overflow after \<open>2 ^ 32\<close> failed captures are naturals, and so are
  sums of a few hundred per digit. Floating-point ratios are compared as rationals (0.95, 0.3), on counts far
  below \<open>2 ^ 53\<close>.

  \<^bold>\<open>Plan.\<close>
  What could follow: the pattern table of the regex redactor, the searches and the retention of the database
  crate, the removal of personal data in \<open>screenpipe-core\<close>, frame comparison, the OCR and hot-frame
  caches, transcript merging of the audio crate, URL filters.

  \<^bold>\<open>Not modelled.\<close>
  SQL as text and the database pool (library code; a statement is its effect on the tables, a query's answer
  is data), HTTP routes and connectors
  (network glue), model inference and image redaction, operating-system bindings (accessibility, screen and
  audio capture, notifications), files, processes and ffmpeg, cryptography of third-party crates, logging,
  telemetry and metrics, asynchronous scheduling (a step is what runs between two awaits, or a whole turn with
  the values it reads as inputs), the user interface and the packages in other languages. Of the capture
  loop: the pixel comparison (its difference is an input) and the invalidation of streams after a wake. Of
  the pipes: copying a directory and fetching a URL on installation, backups, sessions, logs and the shutdown.
  Of the synchronisation: the transport and the encryption of the manifests (a download is data or its
  failure). Of the connections: the first exchange of a code, the keychain, and the integrations themselves.
\<close>

end
